(* ===== verification/Prelude.thy ===== *)
theory Prelude
  imports Main "HOL-Library.Word" "HOL-Library.Char_ord" "HOL-Library.List_Lexorder"
begin

text \<open>
  What every component of the development shares: the result type that stands for
  Rust's \<open>Result\<close>, the byte-level view of Rust strings (\<open>trim\<close>, decimal
  rendering, length-prefixed encoding), JSON values, machine integers, and lists used as
  database tables.

  \<^item> A Rust \<open>String\<close> is its UTF-8 byte list, so \<open>length\<close> is \<open>str::len\<close>, and the
    lexicographic order of byte lists is both Rust's \<open>Ord\<close> on strings and SQLite's
    \<open>BINARY\<close> collation.
  \<^item> \<open>Result<T, E>\<close> is \<open>'e + 'a\<close> with \<open>Inl\<close> the error.
  \<^item> Time stamps in seconds (\<open>i64\<close>) are \<open>int\<close>: the code only compares them.
\<close>

named_theorems result_simps \<open>unfolding of results of fallible operations\<close>
named_theorems row_simps \<open>reading rows after writes to a table\<close>

type_synonym u64 = "64 word"
type_synonym u32 = "32 word"

section \<open>Results\<close>

definition res_bind :: "'e + 'a \<Rightarrow> ('a \<Rightarrow> 'e + 'b) \<Rightarrow> 'e + 'b" where
  "res_bind r f = (case r of Inl e \<Rightarrow> Inl e | Inr x \<Rightarrow> f x)"

definition ensure :: "bool \<Rightarrow> 'e \<Rightarrow> 'e + unit" where
  "ensure c e = (if c then Inr () else Inl e)"

definition ok_or :: "'e \<Rightarrow> 'a option \<Rightarrow> 'e + 'a" where
  "ok_or e x = (case x of None \<Rightarrow> Inl e | Some v \<Rightarrow> Inr v)"

definition map_err :: "('e \<Rightarrow> 'f) \<Rightarrow> 'e + 'a \<Rightarrow> 'f + 'a" where
  "map_err f r = (case r of Inl e \<Rightarrow> Inl (f e) | Inr x \<Rightarrow> Inr x)"

definition is_ok :: "'e + 'a \<Rightarrow> bool" where
  "is_ok r = (case r of Inl _ \<Rightarrow> False | Inr _ \<Rightarrow> True)"

lemma res_bind_simps [simp]:
  "res_bind (Inl e) f = Inl e"
  "res_bind (Inr x) f = f x"
  by (simp_all add: res_bind_def)

lemma res_bind_Inr [result_simps]:
  "res_bind r f = Inr y \<longleftrightarrow> (\<exists>x. r = Inr x \<and> f x = Inr y)"
  by (cases r) auto

lemma res_bind_Inl [result_simps]:
  "res_bind r f = Inl e \<longleftrightarrow> r = Inl e \<or> (\<exists>x. r = Inr x \<and> f x = Inl e)"
  by (cases r) auto

lemma ensure_Inr [result_simps, simp]: "ensure c e = Inr u \<longleftrightarrow> c"
  by (simp add: ensure_def)

lemma ensure_Inl [result_simps, simp]: "ensure c e = Inl e' \<longleftrightarrow> \<not> c \<and> e = e'"
  by (auto simp: ensure_def)

lemma ensure_simps [simp]: "ensure True e = Inr ()" "ensure False e = Inl e"
  by (simp_all add: ensure_def)

lemma ok_or_Inr [result_simps, simp]: "ok_or e x = Inr v \<longleftrightarrow> x = Some v"
  by (cases x) (auto simp: ok_or_def)

lemma ok_or_Inl [result_simps, simp]: "ok_or e x = Inl e' \<longleftrightarrow> x = None \<and> e = e'"
  by (cases x) (auto simp: ok_or_def)

lemma ok_or_simps [simp]: "ok_or e None = Inl e" "ok_or e (Some v) = Inr v"
  by (simp_all add: ok_or_def)

lemma map_err_Inr [result_simps, simp]: "map_err f r = Inr x \<longleftrightarrow> r = Inr x"
  by (cases r) (auto simp: map_err_def)

lemma map_err_Inl [result_simps, simp]:
  "map_err f r = Inl e \<longleftrightarrow> (\<exists>e'. r = Inl e' \<and> e = f e')"
  by (cases r) (auto simp: map_err_def)

lemma map_err_simps [simp]: "map_err f (Inl e) = Inl (f e)" "map_err f (Inr x) = Inr x"
  by (simp_all add: map_err_def)

lemma if_Inl_Inr [result_simps]: "(if b then Inl e else r) = Inr x \<longleftrightarrow> \<not> b \<and> r = Inr x"
  by simp

lemma if_Inl_Inl [result_simps]:
  "(if b then Inl e else r) = Inl d \<longleftrightarrow> b \<and> e = d \<or> \<not> b \<and> r = Inl d"
  by simp

lemma is_ok_simps [simp]: "is_ok (Inr x)" "\<not> is_ok (Inl e)"
  by (simp_all add: is_ok_def)

lemma is_ok_iff: "is_ok r \<longleftrightarrow> (\<exists>x. r = Inr x)"
  by (cases r) auto

section \<open>Strings as UTF-8 bytes\<close>

text \<open>
  \<open>ws_len s\<close> is the byte length of the Unicode \<open>White_Space\<close> character that starts
  \<open>s\<close>, or 0: the ASCII blanks, U+0085 and U+00A0 (two bytes), U+1680, U+2000 to U+200A,
  U+2028, U+2029, U+202F, U+205F and U+3000 (three bytes). \<open>ws_len_rev\<close> reads the same
  characters backwards, from the reversed bytes.
\<close>

definition byte :: "char \<Rightarrow> nat" where
  "byte c = of_char c"

definition ascii_ws :: "nat \<Rightarrow> bool" where
  "ascii_ws b \<longleftrightarrow> b = 32 \<or> (9 \<le> b \<and> b \<le> 13)"

definition ws2 :: "nat \<Rightarrow> nat \<Rightarrow> bool" where
  "ws2 b c \<longleftrightarrow> b = 194 \<and> (c = 133 \<or> c = 160)"

definition ws3 :: "nat \<Rightarrow> nat \<Rightarrow> nat \<Rightarrow> bool" where
  "ws3 b c d \<longleftrightarrow>
     (b = 225 \<and> c = 154 \<and> d = 128) \<or>
     (b = 226 \<and> c = 128 \<and> ((128 \<le> d \<and> d \<le> 138) \<or> d = 168 \<or> d = 169 \<or> d = 175)) \<or>
     (b = 226 \<and> c = 129 \<and> d = 159) \<or>
     (b = 227 \<and> c = 128 \<and> d = 128)"

fun ws_len :: "string \<Rightarrow> nat" where
  "ws_len [] = 0"
| "ws_len [a] = (if ascii_ws (byte a) then 1 else 0)"
| "ws_len [a, b] =
     (if ascii_ws (byte a) then 1 else if ws2 (byte a) (byte b) then 2 else 0)"
| "ws_len (a # b # c # s) =
     (if ascii_ws (byte a) then 1 else if ws2 (byte a) (byte b) then 2
      else if ws3 (byte a) (byte b) (byte c) then 3 else 0)"

fun ws_len_rev :: "string \<Rightarrow> nat" where
  "ws_len_rev [] = 0"
| "ws_len_rev [a] = (if ascii_ws (byte a) then 1 else 0)"
| "ws_len_rev [a, b] =
     (if ascii_ws (byte a) then 1 else if ws2 (byte b) (byte a) then 2 else 0)"
| "ws_len_rev (a # b # c # s) =
     (if ascii_ws (byte a) then 1 else if ws2 (byte b) (byte a) then 2
      else if ws3 (byte c) (byte b) (byte a) then 3 else 0)"

function drop_ws :: "(string \<Rightarrow> nat) \<Rightarrow> string \<Rightarrow> string" where
  "drop_ws f s = (if f s = 0 \<or> s = [] then s else drop_ws f (drop (f s) s))"
  by pat_completeness auto
termination
  by (relation "measure (\<lambda>(f, s). length s)") auto

declare drop_ws.simps [simp del]

definition trim_start :: "string \<Rightarrow> string" where
  "trim_start s = drop_ws ws_len s"

definition trim_end :: "string \<Rightarrow> string" where
  "trim_end s = rev (drop_ws ws_len_rev (rev s))"

definition trim :: "string \<Rightarrow> string" where
  "trim s = trim_end (trim_start s)"

definition is_blank :: "string \<Rightarrow> bool" where
  "is_blank s \<longleftrightarrow> trim s = []"

lemma drop_ws_Nil [simp]: "drop_ws f [] = []"
  by (simp add: drop_ws.simps)

lemma drop_ws_stop: "f s = 0 \<Longrightarrow> drop_ws f s = s"
  by (simp add: drop_ws.simps)

lemma drop_ws_suffix: "\<exists>p. s = p @ drop_ws f s"
proof (induction f s rule: drop_ws.induct)
  case (1 f s)
  show ?case
  proof (cases "f s = 0 \<or> s = []")
    case True
    then show ?thesis by (auto simp: drop_ws.simps [of f s])
  next
    case False
    then obtain p where "drop (f s) s = p @ drop_ws f (drop (f s) s)"
      using 1 by auto
    then have "s = (take (f s) s @ p) @ drop_ws f (drop (f s) s)"
      by (metis append.assoc append_take_drop_id)
    with False show ?thesis
      by (metis drop_ws.simps)
  qed
qed

lemma drop_ws_done: "f (drop_ws f s) = 0 \<or> drop_ws f s = []"
proof (induction f s rule: drop_ws.induct)
  case (1 f s)
  then show ?case by (cases "f s = 0 \<or> s = []") (simp_all add: drop_ws.simps [of f s])
qed

lemma trim_Nil [simp]: "trim [] = []"
  by (simp add: trim_def trim_start_def trim_end_def)

lemma is_blank_Nil [simp]: "is_blank []"
  by (simp add: is_blank_def)

lemma trim_infix: "\<exists>p q. s = p @ trim s @ q"
proof -
  obtain p where p: "s = p @ trim_start s"
    using drop_ws_suffix [of s ws_len] by (auto simp: trim_start_def)
  obtain q where q: "rev (trim_start s) = q @ drop_ws ws_len_rev (rev (trim_start s))"
    using drop_ws_suffix [of "rev (trim_start s)" ws_len_rev] by blast
  have "trim_start s = rev (drop_ws ws_len_rev (rev (trim_start s))) @ rev q"
    using arg_cong [OF q, of rev] by simp
  then have "trim_start s = trim s @ rev q"
    by (simp add: trim_def trim_end_def)
  with p show ?thesis by metis
qed

lemma length_trim: "length (trim s) \<le> length s"
proof -
  obtain p q where "s = p @ trim s @ q"
    using trim_infix by blast
  then have "length s = length p + length (trim s) + length q"
    by (metis add.assoc length_append)
  then show ?thesis by simp
qed

lemma not_blank_nonempty: "\<not> is_blank s \<Longrightarrow> s \<noteq> []"
  by auto

text \<open>A string that starts with a visible ASCII character is not blank.\<close>

lemma ws_len_visible:
  assumes "\<not> ascii_ws (byte a)" "byte a \<le> 127"
  shows "ws_len (a # s) = 0"
  using assms by (cases "a # s" rule: ws_len.cases) (auto simp: ws2_def ws3_def)

lemma ws_len_rev_visible:
  assumes "\<not> ascii_ws (byte a)" "byte a \<le> 127"
  shows "ws_len_rev (xs @ [a]) \<le> length xs"
  using assms by (cases "xs @ [a]" rule: ws_len_rev.cases)
    (auto simp: ws2_def ws3_def Cons_eq_append_conv append_eq_Cons_conv)

lemma drop_ws_rev_visible:
  assumes "\<not> ascii_ws (byte a)" "byte a \<le> 127"
  shows "drop_ws ws_len_rev (xs @ [a]) \<noteq> []"
proof (induction "length xs" arbitrary: xs rule: less_induct)
  case less
  show ?case
  proof (cases "ws_len_rev (xs @ [a]) = 0")
    case True
    then show ?thesis by (simp add: drop_ws_stop)
  next
    case False
    let ?n = "ws_len_rev (xs @ [a])"
    have n: "?n \<le> length xs"
      using ws_len_rev_visible [OF assms] .
    then have "drop ?n (xs @ [a]) = drop ?n xs @ [a]"
      by simp
    with False n less [of "drop ?n xs"] show ?thesis
      by (simp add: drop_ws.simps [of ws_len_rev "xs @ [a]"])
  qed
qed

lemma is_blank_visible:
  assumes "\<not> ascii_ws (byte a)" "byte a \<le> 127"
  shows "\<not> is_blank (a # s)"
proof -
  have "trim_start (a # s) = a # s"
    using ws_len_visible [OF assms] by (simp add: trim_start_def drop_ws_stop)
  then show ?thesis
    using drop_ws_rev_visible [OF assms, of "rev s"]
    by (simp add: is_blank_def trim_def trim_end_def)
qed

section \<open>Decimal rendering\<close>

text \<open>Rust's \<open>Display\<close> of an unsigned and of a signed integer.\<close>

definition digit :: "nat \<Rightarrow> char" where
  "digit d = char_of (48 + d)"

function show_nat :: "nat \<Rightarrow> string" where
  "show_nat n = (if n < 10 then [digit n] else show_nat (n div 10) @ [digit (n mod 10)])"
  by pat_completeness auto
termination
  by (relation "measure id") auto

declare show_nat.simps [simp del]

definition show_int :: "int \<Rightarrow> string" where
  "show_int i = (if i < 0 then CHR ''-'' # show_nat (nat (- i)) else show_nat (nat i))"

definition show_u64 :: "u64 \<Rightarrow> string" where
  "show_u64 w = show_nat (unat w)"

fun read_digits :: "nat \<Rightarrow> string \<Rightarrow> nat" where
  "read_digits n [] = n"
| "read_digits n (c # cs) = read_digits (10 * n + (byte c - 48)) cs"

definition is_digit :: "char \<Rightarrow> bool" where
  "is_digit c \<longleftrightarrow> 48 \<le> byte c \<and> byte c \<le> 57"

lemma byte_digit: "d < 10 \<Longrightarrow> byte (digit d) = 48 + d"
  by (simp add: byte_def digit_def of_char_of)

lemma byte_inject [simp]: "byte a = byte b \<longleftrightarrow> a = b"
  by (simp add: byte_def)

lemma read_digits_append: "read_digits n (xs @ ys) = read_digits (read_digits n xs) ys"
  by (induction xs arbitrary: n) auto

lemma read_show_nat: "read_digits 0 (show_nat n) = n"
proof (induction n rule: show_nat.induct)
  case (1 n)
  show ?case
  proof (cases "n < 10")
    case True
    then show ?thesis by (simp add: show_nat.simps [of n] byte_digit)
  next
    case False
    then show ?thesis
      using 1 by (simp add: show_nat.simps [of n] read_digits_append byte_digit)
  qed
qed

lemma show_nat_inject [simp]: "show_nat m = show_nat n \<longleftrightarrow> m = n"
  by (metis read_show_nat)

lemma show_nat_digits: "list_all is_digit (show_nat n)"
proof (induction n rule: show_nat.induct)
  case (1 n)
  then show ?case
    by (cases "n < 10") (simp_all add: show_nat.simps [of n] byte_digit is_digit_def)
qed

lemma show_nat_nonempty [simp]: "show_nat n \<noteq> []"
  by (subst show_nat.simps) simp

lemma show_u64_inject [simp]: "show_u64 a = show_u64 b \<longleftrightarrow> a = b"
  by (simp add: show_u64_def word_unat_eq_iff)

lemma not_digit [simp]: "\<not> is_digit CHR '':''" "\<not> is_digit CHR ''-''"
  by (simp_all add: is_digit_def byte_def)

lemma show_nat_not_minus: "show_nat n \<noteq> CHR ''-'' # s"
  using show_nat_digits [of n] by auto

lemma show_int_inject [simp]: "show_int i = show_int j \<longleftrightarrow> i = j"
  by (auto simp: show_int_def show_nat_not_minus show_nat_not_minus [symmetric])

text \<open>A run of digits ended by a separator is determined by the whole string.\<close>

lemma digits_sep_unique:
  assumes "list_all is_digit a" "list_all is_digit b"
    and "\<not> is_digit c" "\<not> is_digit d" "a @ c # s = b @ d # t"
  shows "a = b \<and> c # s = d # t"
  using assms
proof (induction a arbitrary: b)
  case Nil
  then show ?case by (cases b) auto
next
  case (Cons x a)
  then show ?case by (cases b) auto
qed

section \<open>Prefix-free encodings\<close>

text \<open>
  An encoding is prefix-free when what follows it cannot be confused with it: then a
  concatenation of encodings determines every part. \<open>length_prefixed\<close>
  (\<open>length_prefixed\<close> in crates/execution-protocol/src/lib.rs) is one.
\<close>

locale prefix_code =
  fixes enc :: "'a \<Rightarrow> string"
  assumes prefix_free: "enc x @ s = enc y @ t \<Longrightarrow> x = y \<and> s = t"
begin

lemma enc_inject [simp]: "enc x = enc y \<longleftrightarrow> x = y"
  using prefix_free [of x "[]" y "[]"] by auto

lemma enc_append_inject [simp]: "enc x @ s = enc y @ t \<longleftrightarrow> x = y \<and> s = t"
  using prefix_free by blast

end

definition length_prefixed :: "string \<Rightarrow> string" where
  "length_prefixed v = show_nat (length v) @ '':'' @ v"

lemma length_prefixed_prefix_free:
  assumes "length_prefixed x @ s = length_prefixed y @ t"
  shows "x = y \<and> s = t"
proof -
  have "show_nat (length x) @ CHR '':'' # (x @ s) = show_nat (length y) @ CHR '':'' # (y @ t)"
    using assms by (simp add: length_prefixed_def)
  then have "show_nat (length x) = show_nat (length y)" and "x @ s = y @ t"
    using digits_sep_unique [OF show_nat_digits show_nat_digits not_digit(1) not_digit(1)]
    by blast+
  then show ?thesis by auto
qed

interpretation lp: prefix_code length_prefixed
  by unfold_locales (rule length_prefixed_prefix_free)

section \<open>Status tokens\<close>

text \<open>
  An enum with a stable text token: \<open>parse\<close> inverts \<open>as_str\<close>, answering with \<open>ok\<close>
  (\<open>Some\<close> or \<open>Inr\<close>). Each enum persisted by its token interprets this interface.
\<close>

locale token_codec =
  fixes as_str :: "'a \<Rightarrow> string" and parse :: "string \<Rightarrow> 'r" and ok :: "'a \<Rightarrow> 'r"
  assumes parse_as_str: "parse (as_str x) = ok x"
    and ok_inject: "ok x = ok y \<longleftrightarrow> x = y"
begin

lemma as_str_inject: "as_str x = as_str y \<longleftrightarrow> x = y"
  by (metis ok_inject parse_as_str)

lemma parse_as_str_iff: "parse (as_str x) = ok y \<longleftrightarrow> x = y"
  by (simp add: parse_as_str ok_inject)

end

locale strict_token_codec = token_codec +
  assumes parse_ok: "parse s = ok x \<Longrightarrow> as_str x = s"
begin

lemma parse_iff: "parse s = ok x \<longleftrightarrow> s = as_str x"
  using parse_ok parse_as_str by blast

end

section \<open>JSON values\<close>

text \<open>
  \<open>serde_json::Value\<close>. A number is kept as the token it is written with: no modelled code
  looks inside one. An object is the list of its members in key order (\<open>serde_json\<close>'s map
  is ordered), and \<open>get\<close> on anything but an object, or with an absent key, is \<open>None\<close>.
\<close>

datatype json =
  JNull | JBool bool | JNumber string | JString string | JArray "json list"
| JObject "(string \<times> json) list"

fun json_get :: "json \<Rightarrow> string \<Rightarrow> json option" where
  "json_get (JObject m) k = map_of m k"
| "json_get _ k = None"

fun json_as_str :: "json \<Rightarrow> string option" where
  "json_as_str (JString s) = Some s"
| "json_as_str _ = None"

fun json_as_array :: "json \<Rightarrow> json list option" where
  "json_as_array (JArray xs) = Some xs"
| "json_as_array _ = None"

section \<open>Machine integers\<close>

definition i64_max :: nat where
  "i64_max = 9223372036854775807"

definition checked_inc :: "u64 \<Rightarrow> u64 option" where
  "checked_inc w = (if w = - 1 then None else Some (w + 1))"

definition fits_i64 :: "u64 \<Rightarrow> bool" where
  "fits_i64 w \<longleftrightarrow> unat w \<le> i64_max"

lemma checked_inc_Some:
  "checked_inc w = Some v \<longleftrightarrow> w \<noteq> - 1 \<and> v = w + 1"
  by (auto simp: checked_inc_def)

lemma unat_checked_inc: "checked_inc w = Some v \<Longrightarrow> unat v = Suc (unat w)"
proof -
  assume a: "checked_inc w = Some v"
  then have v: "v = 1 + w" and "w \<noteq> - 1"
    by (auto simp: checked_inc_Some)
  then have "1 + w \<noteq> 0"
    by (metis add.commute add_eq_0_iff2)
  then show ?thesis
    by (simp add: v unatSuc)
qed

lemma unat_max_u64: "unat (- 1 :: u64) = 18446744073709551615"
  by (simp add: unsigned_minus_1_eq_mask mask_eq_exp_minus_1)

lemma fits_i64_inc: "fits_i64 w \<Longrightarrow> checked_inc w = Some (w + 1)"
  by (auto simp: fits_i64_def checked_inc_def i64_max_def unat_max_u64)

lemma unat_inc_fits: "fits_i64 w \<Longrightarrow> unat (w + 1) = Suc (unat w)"
  using fits_i64_inc unat_checked_inc by blast

section \<open>Runs of fallible steps\<close>

fun run_steps :: "('s \<Rightarrow> 'e \<Rightarrow> 'x + 's) \<Rightarrow> 's \<Rightarrow> 'e list \<Rightarrow> 'x + 's" where
  "run_steps step s [] = Inr s"
| "run_steps step s (e # es) = res_bind (step s e) (\<lambda>s'. run_steps step s' es)"

lemma run_steps_append:
  "run_steps step s (xs @ ys) = res_bind (run_steps step s xs) (\<lambda>s'. run_steps step s' ys)"
proof (induction xs arbitrary: s)
  case (Cons x xs)
  then show ?case by (cases "step s x") simp_all
qed simp

text \<open>
  A system whose successful steps keep an invariant and only extend what is recorded
  (\<open>ext s t\<close>: everything \<open>s\<close> has decided, \<open>t\<close> has decided the same way). Then so do its
  runs. A component whose history is append-only interprets this interface.
\<close>

locale guarded_system =
  fixes step :: "'s \<Rightarrow> 'e \<Rightarrow> 'x + 's"
    and inv :: "'s \<Rightarrow> bool"
    and ext :: "'s \<Rightarrow> 's \<Rightarrow> bool"
  assumes step_inv: "\<lbrakk>inv s; step s e = Inr s'\<rbrakk> \<Longrightarrow> inv s'"
    and step_ext: "\<lbrakk>inv s; step s e = Inr s'\<rbrakk> \<Longrightarrow> ext s s'"
    and ext_refl: "ext s s"
    and ext_trans: "\<lbrakk>ext s t; ext t u\<rbrakk> \<Longrightarrow> ext s u"
begin

lemma run_inv: "\<lbrakk>inv s; run_steps step s es = Inr s'\<rbrakk> \<Longrightarrow> inv s'"
proof (induction es arbitrary: s)
  case (Cons e es)
  then show ?case by (auto simp: res_bind_Inr intro: step_inv)
qed simp

lemma run_ext: "\<lbrakk>inv s; run_steps step s es = Inr s'\<rbrakk> \<Longrightarrow> ext s s'"
proof (induction es arbitrary: s)
  case Nil
  then show ?case by (simp add: ext_refl)
next
  case (Cons e es)
  then obtain t where t: "step s e = Inr t" "run_steps step t es = Inr s'"
    by (auto simp: res_bind_Inr)
  with Cons.prems(1) have "inv t" "ext s t"
    by (auto intro: step_inv step_ext)
  with Cons.IH [OF \<open>inv t\<close> t(2)] show ?case
    by (blast intro: ext_trans)
qed

text \<open>Whatever a prefix of the run has recorded, the whole run keeps.\<close>

lemma prefix_ext:
  assumes "inv s" "run_steps step s xs = Inr t" "run_steps step s (xs @ ys) = Inr u"
  shows "inv t \<and> inv u \<and> ext t u"
proof -
  have "inv t"
    using assms(1,2) by (rule run_inv)
  moreover have "run_steps step t ys = Inr u"
    using assms(2,3) by (simp add: run_steps_append)
  ultimately show ?thesis
    using run_inv run_ext by blast
qed

end

end
