(* ===== verification/Protocol.thy ===== *)
theory Protocol
  imports Prelude
begin

text \<open>
  The execution protocol, crates/execution-protocol/src/lib.rs: contracts, outcomes, wake
  conditions, checkpoints and the checked references they hold, with the validation every
  contract and outcome passes before it is stored. A struct is a record whose fields carry
  a short prefix of the struct's name, an enum a datatype with the source's constructors.
  A newtype around a checked string is a one-constructor datatype; the checks are the
  functions that build it.
\<close>

section \<open>Data\<close>

datatype execution_state = Ready | Running | Suspended | Completed | Cancelled | Failed

datatype failure_class = Transient | Permanent | PolicyDenied

datatype cancel_reason = CancelUser | Replaced | ExpiredReason | Shutdown

datatype approval_policy = Deny | OnRequest | Preauthorized

datatype effect_class =
  Read | FilesystemWrite | ArtifactCreation | ExternalWrite | RequestAuthorization

datatype effect_receipt_status =
  Prepared | Started | EffCompleted | EffFailed | Uncertain | Compensated

datatype durable_data_ref = DurableDataRef string
datatype effect_receipt_ref = EffectReceiptRef string
datatype secret_ref = SecretRef string

datatype effect_receipt_resolution =
  Applied json json
| NotApplied json

record execution_scope =
  sc_user_id :: string
  sc_workspace_id :: string
  sc_thread_id :: "string option"

record objective_ref =
  ob_thread_id :: string
  ob_revision :: u64

record checkpoint_ref =
  ckr_checkpoint_id :: string
  ckr_producer_schema_version :: u32

record execution_policy =
  po_allowed_effects :: "effect_class list"
  po_approval_policy :: approval_policy

record resource_requirement =
  rq_class :: string
  rq_units :: u32

record execution_budget =
  bu_max_attempts :: u32
  bu_backoff_seconds :: int
  bu_deadline_unix_seconds :: "int option"

datatype wake_condition =
  At int
| Signal string string
| Resource string
| ModelAvailable string
| User string
| Approval string
| EffectResolution effect_receipt_ref

record wake_delivery =
  wd_condition :: wake_condition
  wd_dedup_key :: string
  wd_payload :: json
  wd_delivered_at_unix_seconds :: int

record execution_contract =
  c_schema_version :: u32
  c_execution_id :: string
  c_parent_execution_id :: "string option"
  c_kind :: string
  c_revision :: u64
  c_fencing_token :: u64
  c_scope :: execution_scope
  c_objective :: "objective_ref option"
  c_input :: json
  c_policy :: execution_policy
  c_resources :: "resource_requirement list"
  c_budget :: execution_budget
  c_checkpoint :: "checkpoint_ref option"
  c_wake :: "wake_delivery option"

datatype checkpoint_data_ref =
  Public durable_data_ref
| Redacted durable_data_ref
| Encrypted secret_ref

record checkpoint_envelope =
  ce_checkpoint_id :: string
  ce_execution_id :: string
  ce_revision :: u64
  ce_producer_kind :: string
  ce_protocol_schema_version :: u32
  ce_producer_schema_version :: u32
  ce_data_ref :: checkpoint_data_ref
  ce_objective :: "objective_ref option"
  ce_wake :: "wake_condition option"
  ce_effect_receipts :: "effect_receipt_ref list"

record execution_failure =
  fl_class :: failure_class
  fl_code :: string
  fl_redacted_detail :: string

datatype execution_outcome =
  OutCompleted json "string option"
| OutSuspended wake_condition checkpoint_envelope
| OutCancelled cancel_reason
| OutFailed execution_failure

record execution_binding =
  bn_execution_id :: string
  bn_revision :: u64
  bn_kind :: string
  bn_fencing_token :: u64

record validated_outcome =
  vo_outcome :: execution_outcome
  vo_binding :: execution_binding

datatype reference_error =
  InvalidPrefix string
| InvalidStoreIdLength nat
| InvalidStoreIdCharacter
| NonCanonicalEncoding

datatype protocol_error =
  UnsupportedSchemaVersion u32
| EmptyExecutionId | EmptyKind | EmptyUserId | EmptyWorkspaceId
| RevisionZero | FencingTokenZero | RevisionOutOfRange
| ObjectiveRevisionZero | ObjectiveRevisionOutOfRange | ObjectiveScopeThreadMissing
| ObjectiveScopeThreadMismatch string string
| FencingTokenOutOfRange | MaxAttemptsZero | NegativeBackoff
| EmptyResourceClass nat | ResourceUnitsZero nat
| EmptyScopedReference string
| EmptyWakeDedupKey
| WakeDedupKeyMismatch string string
| EmptyContinuationExecutionId
| CheckpointExecutionIdMismatch | CheckpointRevisionMismatch | CheckpointProducerKindMismatch
| CheckpointIdMismatch string string
| UnsupportedCheckpointProtocolSchemaVersion u32
| CheckpointProducerSchemaVersionZero
| InvalidCheckpointDataReference reference_error
| CheckpointObjectiveMismatch | CheckpointWakeMismatch
| EmptyFailureCode

definition PROTOCOL_SCHEMA_VERSION :: u32 where
  "PROTOCOL_SCHEMA_VERSION = 1"

fun effect_receipt_status_as_str :: "effect_receipt_status \<Rightarrow> string" where
  "effect_receipt_status_as_str Prepared = ''prepared''"
| "effect_receipt_status_as_str Started = ''started''"
| "effect_receipt_status_as_str EffCompleted = ''completed''"
| "effect_receipt_status_as_str EffFailed = ''failed''"
| "effect_receipt_status_as_str Uncertain = ''uncertain''"
| "effect_receipt_status_as_str Compensated = ''compensated''"

section \<open>Constructors\<close>

definition new_contract :: "string \<Rightarrow> string \<Rightarrow> execution_scope \<Rightarrow> json \<Rightarrow> execution_contract" where
  "new_contract eid knd scp inp =
     \<lparr>c_schema_version = PROTOCOL_SCHEMA_VERSION, c_execution_id = eid,
      c_parent_execution_id = None, c_kind = knd, c_revision = 1, c_fencing_token = 1,
      c_scope = scp, c_objective = None, c_input = inp,
      c_policy = \<lparr>po_allowed_effects = [Read], po_approval_policy = Deny\<rparr>,
      c_resources = [],
      c_budget = \<lparr>bu_max_attempts = 1, bu_backoff_seconds = 0, bu_deadline_unix_seconds = None\<rparr>,
      c_checkpoint = None, c_wake = None\<rparr>"

definition outcome_completed :: "json \<Rightarrow> execution_outcome" where
  "outcome_completed output = OutCompleted output None"

definition new_failure :: "failure_class \<Rightarrow> string \<Rightarrow> string \<Rightarrow> execution_failure" where
  "new_failure cls code detail = \<lparr>fl_class = cls, fl_code = code, fl_redacted_detail = detail\<rparr>"

definition transient_failure :: "string \<Rightarrow> string \<Rightarrow> execution_failure" where
  "transient_failure = new_failure Transient"

definition permanent_failure :: "string \<Rightarrow> string \<Rightarrow> execution_failure" where
  "permanent_failure = new_failure Permanent"

definition policy_denied_failure :: "string \<Rightarrow> string \<Rightarrow> execution_failure" where
  "policy_denied_failure = new_failure PolicyDenied"

definition canonical_checkpoint_id :: "string \<Rightarrow> u64 \<Rightarrow> string" where
  "canonical_checkpoint_id eid rvn =
     ''v1:checkpoint:'' @ length_prefixed eid @ '':'' @ show_u64 rvn"

definition new_checkpoint ::
  "string \<Rightarrow> u64 \<Rightarrow> string \<Rightarrow> u32 \<Rightarrow> checkpoint_data_ref \<Rightarrow> checkpoint_envelope" where
  "new_checkpoint eid rvn producer version data =
     \<lparr>ce_checkpoint_id = canonical_checkpoint_id eid rvn, ce_execution_id = eid,
      ce_revision = rvn, ce_producer_kind = producer,
      ce_protocol_schema_version = PROTOCOL_SCHEMA_VERSION,
      ce_producer_schema_version = version, ce_data_ref = data,
      ce_objective = None, ce_wake = None, ce_effect_receipts = []\<rparr>"

definition with_resume_context ::
  "checkpoint_envelope \<Rightarrow> objective_ref option \<Rightarrow> wake_condition \<Rightarrow> effect_receipt_ref list
   \<Rightarrow> checkpoint_envelope" where
  "with_resume_context ce obj wk receipts =
     ce\<lparr>ce_objective := obj, ce_wake := Some wk, ce_effect_receipts := receipts\<rparr>"

section \<open>Checked references\<close>

definition strip_prefix :: "string \<Rightarrow> string \<Rightarrow> string option" where
  "strip_prefix p s = (if take (length p) s = p then Some (drop (length p) s) else None)"

definition is_store_id_byte :: "char \<Rightarrow> bool" where
  "is_store_id_byte c \<longleftrightarrow> is_digit c \<or> (97 \<le> byte c \<and> byte c \<le> 102)"

definition validate_store_id :: "string \<Rightarrow> reference_error + unit" where
  "validate_store_id s =
     (if length s \<noteq> 32 then Inl (InvalidStoreIdLength (length s))
      else if \<not> list_all is_store_id_byte s then Inl InvalidStoreIdCharacter
      else Inr ())"

definition checked_reference :: "string \<Rightarrow> string \<Rightarrow> reference_error + string" where
  "checked_reference prefix store_id =
     res_bind (validate_store_id store_id) (\<lambda>_. Inr (prefix @ ''32:'' @ store_id))"

definition validate_encoded_reference :: "string \<Rightarrow> string \<Rightarrow> reference_error + unit" where
  "validate_encoded_reference prefix encoded =
     res_bind (ok_or (InvalidPrefix prefix) (strip_prefix prefix encoded)) (\<lambda>remainder.
     res_bind (ok_or NonCanonicalEncoding (strip_prefix ''32:'' remainder)) (\<lambda>store_id.
     validate_store_id store_id))"

fun durable_data_ref_str :: "durable_data_ref \<Rightarrow> string" where
  "durable_data_ref_str (DurableDataRef s) = s"

fun effect_receipt_ref_str :: "effect_receipt_ref \<Rightarrow> string" where
  "effect_receipt_ref_str (EffectReceiptRef s) = s"

fun secret_ref_str :: "secret_ref \<Rightarrow> string" where
  "secret_ref_str (SecretRef s) = s"

definition durable_data_ref_from_store_id :: "string \<Rightarrow> reference_error + durable_data_ref" where
  "durable_data_ref_from_store_id s =
     map_sum id DurableDataRef (checked_reference ''durable:v1:'' s)"

definition durable_data_ref_parse :: "string \<Rightarrow> reference_error + durable_data_ref" where
  "durable_data_ref_parse e =
     res_bind (validate_encoded_reference ''durable:v1:'' e) (\<lambda>_. Inr (DurableDataRef e))"

definition effect_receipt_ref_from_store_id :: "string \<Rightarrow> reference_error + effect_receipt_ref" where
  "effect_receipt_ref_from_store_id s =
     map_sum id EffectReceiptRef (checked_reference ''effect:v1:'' s)"

definition effect_receipt_ref_parse :: "string \<Rightarrow> reference_error + effect_receipt_ref" where
  "effect_receipt_ref_parse e =
     res_bind (validate_encoded_reference ''effect:v1:'' e) (\<lambda>_. Inr (EffectReceiptRef e))"

definition secret_ref_from_store_id :: "string \<Rightarrow> reference_error + secret_ref" where
  "secret_ref_from_store_id s = map_sum id SecretRef (checked_reference ''secret:v1:'' s)"

definition secret_ref_parse :: "string \<Rightarrow> reference_error + secret_ref" where
  "secret_ref_parse e =
     res_bind (validate_encoded_reference ''secret:v1:'' e) (\<lambda>_. Inr (SecretRef e))"

fun checkpoint_data_ref_validate :: "checkpoint_data_ref \<Rightarrow> reference_error + unit" where
  "checkpoint_data_ref_validate (Public r) =
     res_bind (durable_data_ref_parse (durable_data_ref_str r)) (\<lambda>_. Inr ())"
| "checkpoint_data_ref_validate (Redacted r) =
     res_bind (durable_data_ref_parse (durable_data_ref_str r)) (\<lambda>_. Inr ())"
| "checkpoint_data_ref_validate (Encrypted r) =
     res_bind (secret_ref_parse (secret_ref_str r)) (\<lambda>_. Inr ())"

section \<open>Wake conditions\<close>

fun dedup_key :: "wake_condition \<Rightarrow> string" where
  "dedup_key (At t) = ''v1:at:'' @ show_int t"
| "dedup_key (Signal k c) = ''v1:signal:'' @ length_prefixed k @ '':'' @ length_prefixed c"
| "dedup_key (Resource c) = ''v1:resource:'' @ length_prefixed c"
| "dedup_key (ModelAvailable r) = ''v1:model_available:'' @ length_prefixed r"
| "dedup_key (User w) = ''v1:user:'' @ length_prefixed w"
| "dedup_key (Approval a) = ''v1:approval:'' @ length_prefixed a"
| "dedup_key (EffectResolution r) =
     ''v1:effect_resolution:'' @ length_prefixed (effect_receipt_ref_str r)"

fun wake_blank_field :: "wake_condition \<Rightarrow> string option" where
  "wake_blank_field (At t) = None"
| "wake_blank_field (Signal k c) =
     (if is_blank k then Some ''wake.signal.kind''
      else if is_blank c then Some ''wake.signal.correlation_id'' else None)"
| "wake_blank_field (Resource c) =
     (if is_blank c then Some ''wake.resource.class'' else None)"
| "wake_blank_field (ModelAvailable r) =
     (if is_blank r then Some ''wake.model_available.role'' else None)"
| "wake_blank_field (User w) =
     (if is_blank w then Some ''wake.user.wait_ref'' else None)"
| "wake_blank_field (Approval a) =
     (if is_blank a then Some ''wake.approval.approval_ref'' else None)"
| "wake_blank_field (EffectResolution r) = None"

definition wake_validate_references :: "wake_condition \<Rightarrow> protocol_error + unit" where
  "wake_validate_references w =
     (case wake_blank_field w of
        Some field \<Rightarrow> Inl (EmptyScopedReference field)
      | None \<Rightarrow> Inr ())"

section \<open>Validation of contracts\<close>

definition validate_optional_ref :: "string \<Rightarrow> string option \<Rightarrow> protocol_error + unit" where
  "validate_optional_ref field v =
     (case v of
        Some s \<Rightarrow> if is_blank s then Inl (EmptyScopedReference field) else Inr ()
      | None \<Rightarrow> Inr ())"

definition validate_identity :: "execution_contract \<Rightarrow> protocol_error + unit" where
  "validate_identity c =
     (if c_schema_version c \<noteq> PROTOCOL_SCHEMA_VERSION
        then Inl (UnsupportedSchemaVersion (c_schema_version c))
      else if is_blank (c_execution_id c) then Inl EmptyExecutionId
      else if is_blank (c_kind c) then Inl EmptyKind
      else if is_blank (sc_user_id (c_scope c)) then Inl EmptyUserId
      else if is_blank (sc_workspace_id (c_scope c)) then Inl EmptyWorkspaceId
      else if c_revision c = 0 then Inl RevisionZero
      else if c_fencing_token c = 0 then Inl FencingTokenZero
      else if \<not> fits_i64 (c_revision c) then Inl RevisionOutOfRange
      else if \<not> fits_i64 (c_fencing_token c) then Inl FencingTokenOutOfRange
      else if bu_max_attempts (c_budget c) = 0 then Inl MaxAttemptsZero
      else if bu_backoff_seconds (c_budget c) < 0 then Inl NegativeBackoff
      else Inr ())"

definition validate_objective :: "execution_contract \<Rightarrow> protocol_error + unit" where
  "validate_objective c =
     (case c_objective c of
        None \<Rightarrow> Inr ()
      | Some obj \<Rightarrow>
          (case sc_thread_id (c_scope c) of
             None \<Rightarrow> Inl ObjectiveScopeThreadMissing
           | Some thread \<Rightarrow>
               if thread \<noteq> ob_thread_id obj
                 then Inl (ObjectiveScopeThreadMismatch thread (ob_thread_id obj))
               else if ob_revision obj = 0 then Inl ObjectiveRevisionZero
               else if \<not> fits_i64 (ob_revision obj) then Inl ObjectiveRevisionOutOfRange
               else Inr ()))"

definition validate_checkpoint_ref :: "execution_contract \<Rightarrow> protocol_error + unit" where
  "validate_checkpoint_ref c =
     res_bind (validate_optional_ref ''checkpoint.checkpoint_id''
                 (map_option ckr_checkpoint_id (c_checkpoint c))) (\<lambda>_.
     (case c_checkpoint c of
        Some ck \<Rightarrow> if ckr_producer_schema_version ck = 0
                     then Inl CheckpointProducerSchemaVersionZero else Inr ()
      | None \<Rightarrow> Inr ()))"

fun validate_resources :: "nat \<Rightarrow> resource_requirement list \<Rightarrow> protocol_error + unit" where
  "validate_resources index [] = Inr ()"
| "validate_resources index (r # rs) =
     (if is_blank (rq_class r) then Inl (EmptyResourceClass index)
      else if rq_units r = 0 then Inl (ResourceUnitsZero index)
      else validate_resources (Suc index) rs)"

definition validate_wake :: "execution_contract \<Rightarrow> protocol_error + unit" where
  "validate_wake c =
     (case c_wake c of
        None \<Rightarrow> Inr ()
      | Some d \<Rightarrow>
          if is_blank (wd_dedup_key d) then Inl EmptyWakeDedupKey
          else res_bind (wake_validate_references (wd_condition d)) (\<lambda>_.
            let expected = dedup_key (wd_condition d) in
            if wd_dedup_key d \<noteq> expected
              then Inl (WakeDedupKeyMismatch expected (wd_dedup_key d))
            else Inr ()))"

definition validate :: "execution_contract \<Rightarrow> protocol_error + unit" where
  "validate c =
     res_bind (validate_identity c) (\<lambda>_.
     res_bind (validate_optional_ref ''parent_execution_id'' (c_parent_execution_id c)) (\<lambda>_.
     res_bind (validate_optional_ref ''scope.thread_id'' (sc_thread_id (c_scope c))) (\<lambda>_.
     res_bind (validate_optional_ref ''objective.thread_id''
                 (map_option ob_thread_id (c_objective c))) (\<lambda>_.
     res_bind (validate_objective c) (\<lambda>_.
     res_bind (validate_checkpoint_ref c) (\<lambda>_.
     res_bind (validate_resources 0 (c_resources c)) (\<lambda>_.
     validate_wake c)))))))"

text \<open>
  \<open>ValidatedExecutionContract\<close> is a contract that came out of \<open>try_from\<close>.
\<close>

definition validated_contract :: "execution_contract \<Rightarrow> protocol_error + execution_contract" where
  "validated_contract c = res_bind (validate c) (\<lambda>_. Inr c)"

definition revision_i64 :: "execution_contract \<Rightarrow> int option" where
  "revision_i64 c = (if fits_i64 (c_revision c) then Some (int (unat (c_revision c))) else None)"

definition fencing_token_i64 :: "execution_contract \<Rightarrow> int option" where
  "fencing_token_i64 c =
     (if fits_i64 (c_fencing_token c) then Some (int (unat (c_fencing_token c))) else None)"

section \<open>Validation of outcomes\<close>

definition validate_suspended ::
  "wake_condition \<Rightarrow> checkpoint_envelope \<Rightarrow> execution_contract \<Rightarrow> protocol_error + unit" where
  "validate_suspended wk ck c =
     res_bind (wake_validate_references wk) (\<lambda>_.
     if ce_execution_id ck \<noteq> c_execution_id c then Inl CheckpointExecutionIdMismatch
     else if ce_revision ck \<noteq> c_revision c then Inl CheckpointRevisionMismatch
     else if ce_producer_kind ck \<noteq> c_kind c then Inl CheckpointProducerKindMismatch
     else let expected = canonical_checkpoint_id (ce_execution_id ck) (ce_revision ck) in
       if ce_checkpoint_id ck \<noteq> expected
         then Inl (CheckpointIdMismatch expected (ce_checkpoint_id ck))
       else if ce_protocol_schema_version ck \<noteq> PROTOCOL_SCHEMA_VERSION
         then Inl (UnsupportedCheckpointProtocolSchemaVersion (ce_protocol_schema_version ck))
       else if ce_producer_schema_version ck = 0 then Inl CheckpointProducerSchemaVersionZero
       else res_bind (map_err InvalidCheckpointDataReference
                        (checkpoint_data_ref_validate (ce_data_ref ck))) (\<lambda>_.
         if (case ce_objective ck of Some obj \<Rightarrow> Some obj \<noteq> c_objective c | None \<Rightarrow> False)
           then Inl CheckpointObjectiveMismatch
         else if (case ce_wake ck of Some w \<Rightarrow> w \<noteq> wk | None \<Rightarrow> False)
           then Inl CheckpointWakeMismatch
         else Inr ()))"

fun validate_outcome :: "execution_outcome \<Rightarrow> execution_contract \<Rightarrow> protocol_error + unit" where
  "validate_outcome (OutCompleted output (Some k)) c =
     (if is_blank k then Inl EmptyContinuationExecutionId else Inr ())"
| "validate_outcome (OutCompleted output None) c = Inr ()"
| "validate_outcome (OutCancelled reason) c = Inr ()"
| "validate_outcome (OutSuspended wk ck) c = validate_suspended wk ck c"
| "validate_outcome (OutFailed f) c =
     (if is_blank (fl_code f) then Inl EmptyFailureCode else Inr ())"

definition binding_of :: "execution_contract \<Rightarrow> execution_binding" where
  "binding_of c =
     \<lparr>bn_execution_id = c_execution_id c, bn_revision = c_revision c, bn_kind = c_kind c,
      bn_fencing_token = c_fencing_token c\<rparr>"

definition new_validated_outcome ::
  "execution_outcome \<Rightarrow> execution_contract \<Rightarrow> protocol_error + validated_outcome" where
  "new_validated_outcome out c =
     res_bind (validate_outcome out c) (\<lambda>_.
     Inr \<lparr>vo_outcome = out, vo_binding = binding_of c\<rparr>)"

definition matches_persisted ::
  "execution_binding \<Rightarrow> string \<Rightarrow> int \<Rightarrow> string \<Rightarrow> int \<Rightarrow> bool" where
  "matches_persisted b eid rvn knd fence \<longleftrightarrow>
     bn_execution_id b = eid \<and> int (unat (bn_revision b)) = rvn \<and>
     bn_kind b = knd \<and> int (unat (bn_fencing_token b)) = fence"

section \<open>Wake keys and checkpoint identities determine what they name\<close>

lemma dedup_key_inject: "dedup_key w = dedup_key w' \<Longrightarrow> w = w'"
  by (cases w; cases w')
    (auto simp: lp.enc_inject dest: lp.prefix_free,
     metis effect_receipt_ref_str.elims)

text \<open>
  Two wake conditions have the same deduplication key exactly when they are the same
  condition, so the key that marks a wake as pending, delivered or already seen never
  confuses two conditions, whatever text their components hold.
\<close>

lemma dedup_key_injective: "dedup_key w = dedup_key w' \<longleftrightarrow> w = w'"
  using dedup_key_inject by blast

lemma canonical_checkpoint_id_inject:
  "canonical_checkpoint_id e r = canonical_checkpoint_id e' r' \<longleftrightarrow> e = e' \<and> r = r'"
proof
  assume "canonical_checkpoint_id e r = canonical_checkpoint_id e' r'"
  then have "length_prefixed e @ '':'' @ show_u64 r = length_prefixed e' @ '':'' @ show_u64 r'"
    by (simp add: canonical_checkpoint_id_def)
  then show "e = e' \<and> r = r'"
    by (simp only: lp.enc_append_inject) simp
qed auto

section \<open>What a validated contract guarantees\<close>

text \<open>
  The specification of a storable contract, stated without the order of the checks.
\<close>

definition nonblank_option :: "string option \<Rightarrow> bool" where
  "nonblank_option v \<longleftrightarrow> v \<noteq> Some [] \<and> pred_option (\<lambda>s. \<not> is_blank s) v"

definition sql_positive :: "u64 \<Rightarrow> bool" where
  "sql_positive w \<longleftrightarrow> 0 < unat w \<and> unat w \<le> i64_max"

definition objective_in_scope :: "execution_contract \<Rightarrow> bool" where
  "objective_in_scope c \<longleftrightarrow>
     pred_option (\<lambda>obj. sc_thread_id (c_scope c) = Some (ob_thread_id obj) \<and>
       \<not> is_blank (ob_thread_id obj) \<and> sql_positive (ob_revision obj)) (c_objective c)"

definition wake_canonical :: "execution_contract \<Rightarrow> bool" where
  "wake_canonical c \<longleftrightarrow>
     pred_option (\<lambda>d. wake_blank_field (wd_condition d) = None \<and>
       wd_dedup_key d = dedup_key (wd_condition d)) (c_wake c)"

definition storable :: "execution_contract \<Rightarrow> bool" where
  "storable c \<longleftrightarrow>
     c_schema_version c = PROTOCOL_SCHEMA_VERSION \<and>
     \<not> is_blank (c_execution_id c) \<and> \<not> is_blank (c_kind c) \<and>
     \<not> is_blank (sc_user_id (c_scope c)) \<and> \<not> is_blank (sc_workspace_id (c_scope c)) \<and>
     sql_positive (c_revision c) \<and> sql_positive (c_fencing_token c) \<and>
     bu_max_attempts (c_budget c) \<noteq> 0 \<and> 0 \<le> bu_backoff_seconds (c_budget c) \<and>
     nonblank_option (c_parent_execution_id c) \<and>
     nonblank_option (sc_thread_id (c_scope c)) \<and>
     objective_in_scope c \<and>
     pred_option (\<lambda>ck. \<not> is_blank (ckr_checkpoint_id ck) \<and>
       ckr_producer_schema_version ck \<noteq> 0) (c_checkpoint c) \<and>
     (\<forall>r \<in> set (c_resources c). \<not> is_blank (rq_class r) \<and> rq_units r \<noteq> 0) \<and>
     wake_canonical c"

lemma dedup_key_not_blank: "\<not> is_blank (dedup_key w)"
  by (cases w) (simp_all add: is_blank_visible ascii_ws_def byte_def)

lemma validate_optional_ref_iff: "validate_optional_ref f v = Inr () \<longleftrightarrow> nonblank_option v"
  by (auto simp: validate_optional_ref_def nonblank_option_def split: option.splits)

lemma sql_positive_iff: "sql_positive w \<longleftrightarrow> w \<noteq> 0 \<and> fits_i64 w"
  by (auto simp: sql_positive_def fits_i64_def unat_gt_0)

lemma validate_resources_iff:
  "validate_resources n rs = Inr () \<longleftrightarrow>
     (\<forall>r \<in> set rs. \<not> is_blank (rq_class r) \<and> rq_units r \<noteq> 0)"
  by (induction rs arbitrary: n) auto

lemma validate_identity_iff:
  "validate_identity c = Inr () \<longleftrightarrow>
     c_schema_version c = PROTOCOL_SCHEMA_VERSION \<and>
     \<not> is_blank (c_execution_id c) \<and> \<not> is_blank (c_kind c) \<and>
     \<not> is_blank (sc_user_id (c_scope c)) \<and> \<not> is_blank (sc_workspace_id (c_scope c)) \<and>
     sql_positive (c_revision c) \<and> sql_positive (c_fencing_token c) \<and>
     bu_max_attempts (c_budget c) \<noteq> 0 \<and> 0 \<le> bu_backoff_seconds (c_budget c)"
  by (auto simp: validate_identity_def sql_positive_iff)

lemma validate_objective_iff:
  assumes "nonblank_option (map_option ob_thread_id (c_objective c))"
  shows "validate_objective c = Inr () \<longleftrightarrow> objective_in_scope c"
  using assms
  by (auto simp: validate_objective_def objective_in_scope_def sql_positive_iff
      nonblank_option_def split: option.splits)

lemma validate_checkpoint_ref_iff:
  "validate_checkpoint_ref c = Inr () \<longleftrightarrow>
     pred_option (\<lambda>ck. \<not> is_blank (ckr_checkpoint_id ck) \<and>
       ckr_producer_schema_version ck \<noteq> 0) (c_checkpoint c)"
  by (auto simp: validate_checkpoint_ref_def res_bind_Inr validate_optional_ref_def
      split: option.splits)

lemma validate_wake_iff: "validate_wake c = Inr () \<longleftrightarrow> wake_canonical c"
  by (auto simp: validate_wake_def wake_canonical_def res_bind_Inr Let_def dedup_key_not_blank
      wake_validate_references_def split: option.splits)

lemma objective_in_scope_nonblank:
  "objective_in_scope c \<Longrightarrow> nonblank_option (map_option ob_thread_id (c_objective c))"
  by (cases "c_objective c") (auto simp: objective_in_scope_def nonblank_option_def)

lemma validate_iff: "validate c = Inr () \<longleftrightarrow> storable c"
  unfolding validate_def storable_def
  by (auto simp: res_bind_Inr validate_identity_iff validate_optional_ref_iff
      validate_checkpoint_ref_iff validate_resources_iff validate_wake_iff
      validate_objective_iff objective_in_scope_nonblank)

text \<open>
  The chain of checks in \<open>validate\<close> accepts exactly the storable contracts: nonblank
  identities, revision and fence positive and within SQLite's integer range, a retry budget
  that permits an attempt, an objective that belongs to the scope's thread, resources with
  a class and units, and a wake whose key is the canonical one of its condition.
\<close>

lemma validate_accepts_storable: "is_ok (validated_contract c) \<longleftrightarrow> storable c"
  by (auto simp: validated_contract_def is_ok_iff res_bind_Inr validate_iff)

lemma validated_contract_Inr:
  "validated_contract c = Inr c' \<longleftrightarrow> c' = c \<and> storable c"
  by (auto simp: validated_contract_def res_bind_Inr validate_iff)

lemma storable_revision: "storable c \<Longrightarrow> fits_i64 (c_revision c) \<and> c_revision c \<noteq> 0"
  by (simp add: storable_def sql_positive_iff)

lemma uint_pos: "w \<noteq> 0 \<Longrightarrow> 0 < uint (w :: u64)"
  by (metis order_le_less uint_0_iff uint_ge_0)

lemma storable_fence: "storable c \<Longrightarrow> fits_i64 (c_fencing_token c) \<and> c_fencing_token c \<noteq> 0"
  by (simp add: storable_def sql_positive_iff)

text \<open>
  The \<open>expect\<close> in \<open>revision_i64\<close> and \<open>fencing_token_i64\<close> of a validated contract
  never panics, and the integers written to SQLite are positive and read back as the
  contract's own numbers.
\<close>

lemma validated_integers_fit:
  assumes "validated_contract c = Inr v"
  shows "revision_i64 v = Some (int (unat (c_revision c))) \<and>
    fencing_token_i64 v = Some (int (unat (c_fencing_token c))) \<and>
    0 < int (unat (c_revision c)) \<and> 0 < int (unat (c_fencing_token c)) \<and>
    matches_persisted (binding_of v) (c_execution_id c) (int (unat (c_revision c)))
      (c_kind c) (int (unat (c_fencing_token c)))"
  using assms
  by (auto simp: validated_contract_Inr revision_i64_def fencing_token_i64_def
      matches_persisted_def binding_of_def uint_pos dest: storable_revision storable_fence)

definition sample_scope :: execution_scope where
  "sample_scope = \<lparr>sc_user_id = ''u'', sc_workspace_id = ''w'', sc_thread_id = Some ''t''\<rparr>"

definition sample_contract :: execution_contract where
  "sample_contract = new_contract ''e1'' ''chat_turn'' sample_scope JNull"

lemma not_blank_sample [simp]:
  "\<not> is_blank ''u''" "\<not> is_blank ''w''" "\<not> is_blank ''t''" "\<not> is_blank ''e1''"
  "\<not> is_blank ''chat_turn''" "\<not> is_blank ''worker''" "\<not> is_blank ''s1''" "\<not> is_blank ''e2''"
  by (simp_all add: is_blank_visible ascii_ws_def byte_def)

lemma storable_sample: "storable sample_contract"
  by (simp add: storable_def sample_contract_def new_contract_def sample_scope_def
      sql_positive_def i64_max_def nonblank_option_def objective_in_scope_def wake_canonical_def)

lemma validated_integers_fit_witness:
  "validated_contract sample_contract = Inr sample_contract \<and>
   revision_i64 sample_contract = Some 1"
  using validated_integers_fit [of sample_contract sample_contract] storable_sample
  by (simp add: validated_contract_Inr sample_contract_def new_contract_def)

section \<open>What a validated outcome guarantees\<close>

definition resumable_checkpoint ::
  "wake_condition \<Rightarrow> checkpoint_envelope \<Rightarrow> execution_contract \<Rightarrow> bool" where
  "resumable_checkpoint wk ck c \<longleftrightarrow>
     wake_blank_field wk = None \<and>
     ce_execution_id ck = c_execution_id c \<and> ce_revision ck = c_revision c \<and>
     ce_producer_kind ck = c_kind c \<and>
     ce_checkpoint_id ck = canonical_checkpoint_id (c_execution_id c) (c_revision c) \<and>
     ce_protocol_schema_version ck = PROTOCOL_SCHEMA_VERSION \<and>
     ce_producer_schema_version ck \<noteq> 0 \<and>
     checkpoint_data_ref_validate (ce_data_ref ck) = Inr () \<and>
     (ce_objective ck = None \<or> ce_objective ck = c_objective c) \<and>
     (ce_wake ck = None \<or> ce_wake ck = Some wk)"

lemma validate_suspended_iff:
  "validate_suspended wk ck c = Inr () \<longleftrightarrow> resumable_checkpoint wk ck c"
  by (auto simp: validate_suspended_def resumable_checkpoint_def res_bind_Inr Let_def
      wake_validate_references_def split: option.splits)

lemma new_validated_outcome_Inr:
  "new_validated_outcome out c = Inr v \<longleftrightarrow>
     validate_outcome out c = Inr () \<and> v = \<lparr>vo_outcome = out, vo_binding = binding_of c\<rparr>"
  by (auto simp: new_validated_outcome_def res_bind_Inr)

text \<open>
  An outcome is bound to the contract it was validated against: a suspended outcome is
  accepted exactly when its checkpoint carries the execution, revision and kind of the
  contract under the canonical checkpoint identity, a well-formed data reference, and no
  objective or wake other than the contract's and the outcome's own.
\<close>

lemma suspended_outcome_accepted_iff:
  "is_ok (new_validated_outcome (OutSuspended wk ck) c) \<longleftrightarrow> resumable_checkpoint wk ck c"
  by (auto simp: is_ok_iff new_validated_outcome_Inr validate_suspended_iff)

lemma resumable_checkpoint_id_distinct:
  "\<lbrakk>resumable_checkpoint wk ck c; resumable_checkpoint wk' ck' c';
    ce_checkpoint_id ck = ce_checkpoint_id ck'\<rbrakk>
   \<Longrightarrow> c_execution_id c = c_execution_id c' \<and> c_revision c = c_revision c'"
  by (simp add: resumable_checkpoint_def canonical_checkpoint_id_inject)

section \<open>Checked references\<close>

text \<open>
  What the rest of the system relies on in a checked reference: one built from a
  store-issued identifier encodes to a string that parses back to it, a parsed reference
  encodes to exactly the string it was parsed from, and only store identifiers can be
  inside one.
\<close>

locale checked_ref =
  fixes from_id :: "string \<Rightarrow> reference_error + 'r"
    and parse :: "string \<Rightarrow> reference_error + 'r"
    and str :: "'r \<Rightarrow> string"
  assumes parse_issued: "from_id s = Inr r \<Longrightarrow> parse (str r) = Inr r"
    and parse_canonical: "parse e = Inr r \<Longrightarrow> str r = e"
    and parse_issued_only: "parse e = Inr r \<Longrightarrow> \<exists>s. from_id s = Inr r"
    and from_id_inject: "\<lbrakk>from_id s = Inr r; from_id t = Inr r\<rbrakk> \<Longrightarrow> s = t"
begin

lemma parse_inject: "\<lbrakk>parse d = Inr r; parse e = Inr r\<rbrakk> \<Longrightarrow> d = e"
  using parse_canonical by blast

lemma reparse: "parse e = Inr r \<Longrightarrow> parse (str r) = Inr r"
  using parse_canonical by blast

lemma parse_iff_issued: "parse e = Inr r \<longleftrightarrow> str r = e \<and> (\<exists>s. from_id s = Inr r)"
  using parse_issued parse_canonical parse_issued_only by blast

lemma issued_unique: "parse e = Inr r \<Longrightarrow> \<exists>!s. from_id s = Inr r"
  using parse_issued_only from_id_inject by blast

end

lemma strip_prefix_append [simp]: "strip_prefix p (p @ s) = Some s"
  by (simp add: strip_prefix_def)

lemma strip_prefix_Some: "strip_prefix p s = Some t \<longleftrightarrow> s = p @ t"
  unfolding strip_prefix_def
  by (metis append_eq_conv_conj append_take_drop_id option.discI option.inject)

lemma checked_reference_Inr:
  "checked_reference p s = Inr e \<longleftrightarrow> validate_store_id s = Inr () \<and> e = p @ ''32:'' @ s"
  by (auto simp: checked_reference_def res_bind_Inr)

lemma validate_encoded_reference_Inr:
  "validate_encoded_reference p e = Inr () \<longleftrightarrow> (\<exists>s. checked_reference p s = Inr e)"
  by (auto simp: validate_encoded_reference_def res_bind_Inr strip_prefix_Some
      checked_reference_Inr)

lemma map_sum_Inr: "map_sum id f r = Inr y \<longleftrightarrow> (\<exists>x. r = Inr x \<and> y = f x)"
  by (cases r) auto

lemmas reference_simps = map_sum_Inr res_bind_Inr validate_encoded_reference_Inr

interpretation durable: checked_ref durable_data_ref_from_store_id durable_data_ref_parse
    durable_data_ref_str
  by unfold_locales
    (auto simp: durable_data_ref_from_store_id_def durable_data_ref_parse_def reference_simps
      checked_reference_Inr)

interpretation effect: checked_ref effect_receipt_ref_from_store_id effect_receipt_ref_parse
    effect_receipt_ref_str
  by unfold_locales
    (auto simp: effect_receipt_ref_from_store_id_def effect_receipt_ref_parse_def
      reference_simps checked_reference_Inr)

interpretation secret: checked_ref secret_ref_from_store_id secret_ref_parse secret_ref_str
  by unfold_locales
    (auto simp: secret_ref_from_store_id_def secret_ref_parse_def reference_simps
      checked_reference_Inr)

text \<open>
  An effect receipt reference parses exactly when it is the encoding of a reference the
  store issued, so decoding loses nothing and no alias of a reference is accepted.
\<close>

lemma effect_receipt_ref_roundtrip:
  "effect_receipt_ref_parse e = Inr r \<longleftrightarrow>
     effect_receipt_ref_str r = e \<and> (\<exists>s. effect_receipt_ref_from_store_id s = Inr r)"
  by (rule effect.parse_iff_issued)

lemma reference_prefixes_disjoint:
  "effect_receipt_ref_parse e = Inr r \<Longrightarrow> \<not> is_ok (secret_ref_parse e)"
  by (auto simp: is_ok_iff effect_receipt_ref_parse_def secret_ref_parse_def reference_simps
      checked_reference_Inr)

end
