(* ===== verification/TaskTypes.thy ===== *)
theory TaskTypes
  imports Protocol
begin

text \<open>
  The data of the task runtime: crates/task-runtime/src/types.rs (statuses and their
  tokens, event kinds, priorities, resource classes, the task record),
  turn_lifecycle.rs (how a status is read as a turn's lifecycle) and
  execution_projection.rs (which task and run status an outcome projects to).
  An \<open>OffsetDateTime\<close> is its distance from the Unix epoch in nanoseconds, an \<open>int\<close>.
\<close>

section \<open>Task status\<close>

datatype task_status =
  TQueued | TPending | TRunning | TWaitingTime | TWaitingExternalEvent | TWaitingUserApproval
| TWaitingResource | TPaused | TParked | TCompleted | TFailed | TCancelled | TExpired

fun task_status_as_str :: "task_status \<Rightarrow> string" where
  "task_status_as_str TQueued = ''queued''"
| "task_status_as_str TPending = ''pending''"
| "task_status_as_str TRunning = ''running''"
| "task_status_as_str TWaitingTime = ''waiting_time''"
| "task_status_as_str TWaitingExternalEvent = ''waiting_external_event''"
| "task_status_as_str TWaitingUserApproval = ''waiting_user_approval''"
| "task_status_as_str TWaitingResource = ''waiting_resource''"
| "task_status_as_str TPaused = ''paused''"
| "task_status_as_str TParked = ''parked''"
| "task_status_as_str TCompleted = ''completed''"
| "task_status_as_str TFailed = ''failed''"
| "task_status_as_str TCancelled = ''cancelled''"
| "task_status_as_str TExpired = ''expired''"

definition task_status_from_str :: "string \<Rightarrow> string + task_status" where
  "task_status_from_str s =
     (if s = ''queued'' then Inr TQueued
      else if s = ''pending'' then Inr TPending
      else if s = ''running'' then Inr TRunning
      else if s = ''waiting_time'' then Inr TWaitingTime
      else if s = ''waiting_external_event'' then Inr TWaitingExternalEvent
      else if s = ''waiting_user_approval'' then Inr TWaitingUserApproval
      else if s = ''waiting_resource'' then Inr TWaitingResource
      else if s = ''paused'' then Inr TPaused
      else if s = ''parked'' then Inr TParked
      else if s = ''completed'' then Inr TCompleted
      else if s = ''failed'' then Inr TFailed
      else if s = ''cancelled'' then Inr TCancelled
      else if s = ''expired'' then Inr TExpired
      else Inl (''unknown task status: '' @ s))"

interpretation ts: strict_token_codec task_status_as_str task_status_from_str Inr
proof unfold_locales
  show "task_status_from_str (task_status_as_str x) = Inr x" for x
    by (cases x) (simp_all add: task_status_from_str_def)
  show "task_status_from_str s = Inr x \<Longrightarrow> task_status_as_str x = s" for s x
    by (auto simp: task_status_from_str_def split: if_splits)
qed simp

section \<open>Turn lifecycle\<close>

datatype turn_lifecycle_class =
  ActiveWork | WaitingUserClass | ParkedClass | TerminalClass | InternalFinalizing

definition ACTIVE_CHAT_TURN_EXCLUDED_SQL_STATUSES :: "string list" where
  "ACTIVE_CHAT_TURN_EXCLUDED_SQL_STATUSES =
     [''completed'', ''failed'', ''cancelled'', ''expired'', ''finalizing'']"

definition classify_task_status :: "string \<Rightarrow> turn_lifecycle_class" where
  "classify_task_status s =
     (if s = ''completed'' \<or> s = ''failed'' \<or> s = ''cancelled'' \<or> s = ''expired''
        then TerminalClass
      else if s = ''finalizing'' then InternalFinalizing
      else if s = ''waiting_user_approval'' then WaitingUserClass
      else if s = ''parked'' then ParkedClass
      else ActiveWork)"

fun task_status_is_terminal :: "task_status \<Rightarrow> bool" where
  "task_status_is_terminal TCompleted = True"
| "task_status_is_terminal TFailed = True"
| "task_status_is_terminal TCancelled = True"
| "task_status_is_terminal TExpired = True"
| "task_status_is_terminal _ = False"

definition status_has_active_turn_projection :: "string \<Rightarrow> bool" where
  "status_has_active_turn_projection s \<longleftrightarrow>
     classify_task_status s \<notin> {TerminalClass, InternalFinalizing}"

text \<open>
  The three readings of "this turn is over" agree: the classifier on stored text, the
  list of statuses the SQL queries exclude, and the terminal set of the typed status; the
  only stored text beside the terminal statuses that frees a thread is the internal
  \<open>finalizing\<close> marker, which is not a typed status at all.
\<close>

lemma active_projection_agrees:
  "(status_has_active_turn_projection s \<longleftrightarrow> s \<notin> set ACTIVE_CHAT_TURN_EXCLUDED_SQL_STATUSES) \<and>
   (status_has_active_turn_projection (task_status_as_str st) \<longleftrightarrow> \<not> task_status_is_terminal st) \<and>
   (\<not> status_has_active_turn_projection s \<longleftrightarrow>
      s = ''finalizing'' \<or> (\<exists>t. task_status_from_str s = Inr t \<and> task_status_is_terminal t))"
proof -
  have 1: "status_has_active_turn_projection u \<longleftrightarrow>
      u \<notin> set ACTIVE_CHAT_TURN_EXCLUDED_SQL_STATUSES" for u
    by (auto simp: status_has_active_turn_projection_def classify_task_status_def
        ACTIVE_CHAT_TURN_EXCLUDED_SQL_STATUSES_def)
  have 2: "status_has_active_turn_projection (task_status_as_str t) \<longleftrightarrow>
      \<not> task_status_is_terminal t" for t
    by (cases t) (simp_all add: 1 ACTIVE_CHAT_TURN_EXCLUDED_SQL_STATUSES_def)
  have 3: "(\<exists>t. task_status_from_str s = Inr t \<and> task_status_is_terminal t) \<longleftrightarrow>
      s \<in> {''completed'', ''failed'', ''cancelled'', ''expired''}"
    by (auto simp: ts.parse_iff elim!: task_status_is_terminal.elims)
      (metis task_status_as_str.simps task_status_is_terminal.simps)+
  show ?thesis
    unfolding 3 using 1 2 by (auto simp: ACTIVE_CHAT_TURN_EXCLUDED_SQL_STATUSES_def)
qed

section \<open>Runs and the projection of outcomes\<close>

datatype agent_run_status = RunRunning | RunCompleted | RunFailed | RunAborted

fun agent_run_status_as_str :: "agent_run_status \<Rightarrow> string" where
  "agent_run_status_as_str RunRunning = ''running''"
| "agent_run_status_as_str RunCompleted = ''completed''"
| "agent_run_status_as_str RunFailed = ''failed''"
| "agent_run_status_as_str RunAborted = ''aborted''"

definition agent_run_status_parse :: "string \<Rightarrow> agent_run_status option" where
  "agent_run_status_parse s =
     (if s = ''running'' then Some RunRunning
      else if s = ''completed'' then Some RunCompleted
      else if s = ''failed'' then Some RunFailed
      else if s = ''aborted'' then Some RunAborted
      else None)"

interpretation run: strict_token_codec agent_run_status_as_str agent_run_status_parse Some
proof unfold_locales
  show "agent_run_status_parse (agent_run_status_as_str x) = Some x" for x
    by (cases x) (simp_all add: agent_run_status_parse_def)
  show "agent_run_status_parse s = Some x \<Longrightarrow> agent_run_status_as_str x = s" for s x
    by (auto simp: agent_run_status_parse_def split: if_splits)
qed simp

datatype execution_public_event_kind =
  PublicSuspended | PublicCompleted | PublicCancelled | PublicFailed

record execution_projection =
  ep_task_status :: task_status
  ep_run_status :: "agent_run_status option"
  ep_terminal :: bool
  ep_event_kind :: execution_public_event_kind

fun wake_task_status :: "wake_condition \<Rightarrow> task_status \<times> agent_run_status option" where
  "wake_task_status (At _) = (TWaitingTime, None)"
| "wake_task_status (Signal _ _) = (TWaitingExternalEvent, None)"
| "wake_task_status (Resource _) = (TWaitingResource, None)"
| "wake_task_status (ModelAvailable _) = (TParked, Some RunAborted)"
| "wake_task_status (User _) = (TWaitingUserApproval, Some RunCompleted)"
| "wake_task_status (Approval _) = (TWaitingUserApproval, Some RunCompleted)"
| "wake_task_status (EffectResolution _) = (TWaitingUserApproval, None)"

definition projection_from_wake :: "wake_condition \<Rightarrow> execution_projection" where
  "projection_from_wake w =
     \<lparr>ep_task_status = fst (wake_task_status w), ep_run_status = snd (wake_task_status w),
      ep_terminal = False, ep_event_kind = PublicSuspended\<rparr>"

fun projection_from_outcome :: "execution_outcome \<Rightarrow> execution_projection" where
  "projection_from_outcome (OutCompleted _ _) =
     \<lparr>ep_task_status = TCompleted, ep_run_status = Some RunCompleted, ep_terminal = True,
      ep_event_kind = PublicCompleted\<rparr>"
| "projection_from_outcome (OutSuspended w _) = projection_from_wake w"
| "projection_from_outcome (OutCancelled _) =
     \<lparr>ep_task_status = TCancelled, ep_run_status = Some RunAborted, ep_terminal = True,
      ep_event_kind = PublicCancelled\<rparr>"
| "projection_from_outcome (OutFailed _) =
     \<lparr>ep_task_status = TFailed, ep_run_status = Some RunFailed, ep_terminal = True,
      ep_event_kind = PublicFailed\<rparr>"

text \<open>
  An outcome projects to a terminal task exactly when it is not a suspension, and a
  suspended task is never left in a status the scheduler dispatches or a worker owns.
\<close>

lemma projection_terminal_iff:
  "ep_terminal (projection_from_outcome out) =
     task_status_is_terminal (ep_task_status (projection_from_outcome out)) \<and>
   (ep_terminal (projection_from_outcome out) \<longleftrightarrow> (\<nexists>w ck. out = OutSuspended w ck)) \<and>
   ep_task_status (projection_from_outcome out) \<notin> {TQueued, TPending, TRunning}"
proof (cases out)
  case (OutSuspended w ck)
  then show ?thesis by (cases w) (auto simp: projection_from_wake_def)
qed auto

section \<open>Events of a turn\<close>

datatype turn_event_kind =
  Delta | Reasoning | Activity | PlanUpdate | Tool | Recall | ChoicePrompt | VaultPropose
| VaultReveal | PaymentApproval | EvSuspended | EvDone | EvError | EvCancelled | EvAborted
| Retry | EvQueued | StepAdvance | Heartbeat

fun turn_event_kind_as_str :: "turn_event_kind \<Rightarrow> string" where
  "turn_event_kind_as_str Delta = ''delta''"
| "turn_event_kind_as_str Reasoning = ''reasoning''"
| "turn_event_kind_as_str Activity = ''activity''"
| "turn_event_kind_as_str PlanUpdate = ''plan_update''"
| "turn_event_kind_as_str Tool = ''tool''"
| "turn_event_kind_as_str Recall = ''recall''"
| "turn_event_kind_as_str ChoicePrompt = ''choice_prompt''"
| "turn_event_kind_as_str VaultPropose = ''vault_propose''"
| "turn_event_kind_as_str VaultReveal = ''vault_reveal''"
| "turn_event_kind_as_str PaymentApproval = ''payment_approval''"
| "turn_event_kind_as_str EvSuspended = ''suspended''"
| "turn_event_kind_as_str EvDone = ''done''"
| "turn_event_kind_as_str EvError = ''error''"
| "turn_event_kind_as_str EvCancelled = ''cancelled''"
| "turn_event_kind_as_str EvAborted = ''aborted''"
| "turn_event_kind_as_str Retry = ''retry''"
| "turn_event_kind_as_str EvQueued = ''queued''"
| "turn_event_kind_as_str StepAdvance = ''step_advance''"
| "turn_event_kind_as_str Heartbeat = ''heartbeat''"

definition turn_event_kind_parse :: "string \<Rightarrow> turn_event_kind option" where
  "turn_event_kind_parse s =
     (if s = ''delta'' then Some Delta
      else if s = ''reasoning'' then Some Reasoning
      else if s = ''activity'' then Some Activity
      else if s = ''plan_update'' then Some PlanUpdate
      else if s = ''tool'' then Some Tool
      else if s = ''recall'' then Some Recall
      else if s = ''choice_prompt'' then Some ChoicePrompt
      else if s = ''vault_propose'' then Some VaultPropose
      else if s = ''vault_reveal'' then Some VaultReveal
      else if s = ''payment_approval'' then Some PaymentApproval
      else if s = ''suspended'' then Some EvSuspended
      else if s = ''done'' then Some EvDone
      else if s = ''error'' then Some EvError
      else if s = ''cancelled'' then Some EvCancelled
      else if s = ''aborted'' then Some EvAborted
      else if s = ''retry'' then Some Retry
      else if s = ''queued'' then Some EvQueued
      else if s = ''step_advance'' then Some StepAdvance
      else if s = ''heartbeat'' then Some Heartbeat
      else None)"

interpretation tek: strict_token_codec turn_event_kind_as_str turn_event_kind_parse Some
proof unfold_locales
  show "turn_event_kind_parse (turn_event_kind_as_str x) = Some x" for x
    by (cases x) (simp_all add: turn_event_kind_parse_def)
  show "turn_event_kind_parse s = Some x \<Longrightarrow> turn_event_kind_as_str x = s" for s x
    by (auto simp: turn_event_kind_parse_def split: if_splits)
qed simp

record turn_event =
  te_event_id :: int
  te_turn_id :: string
  te_seq :: int
  te_kind :: turn_event_kind
  te_payload :: json
  te_created_at :: int

section \<open>Steering\<close>

datatype turn_steering_status =
  SPending | SClaimed | SInterpreted | SApplied | SCompleted | SHeld | SCancelled | SPromoted

fun turn_steering_status_as_str :: "turn_steering_status \<Rightarrow> string" where
  "turn_steering_status_as_str SPending = ''pending''"
| "turn_steering_status_as_str SClaimed = ''claimed''"
| "turn_steering_status_as_str SInterpreted = ''interpreted''"
| "turn_steering_status_as_str SApplied = ''applied''"
| "turn_steering_status_as_str SCompleted = ''completed''"
| "turn_steering_status_as_str SHeld = ''held''"
| "turn_steering_status_as_str SCancelled = ''cancelled''"
| "turn_steering_status_as_str SPromoted = ''promoted''"

definition turn_steering_status_from_str :: "string \<Rightarrow> string + turn_steering_status" where
  "turn_steering_status_from_str s =
     (if s = ''pending'' then Inr SPending
      else if s = ''claimed'' \<or> s = ''consumed'' then Inr SClaimed
      else if s = ''interpreted'' then Inr SInterpreted
      else if s = ''applied'' then Inr SApplied
      else if s = ''completed'' then Inr SCompleted
      else if s = ''held'' then Inr SHeld
      else if s = ''cancelled'' then Inr SCancelled
      else if s = ''promoted'' then Inr SPromoted
      else Inl (''unknown steering status: '' @ s))"

text \<open>
  The steering codec is not strict: the legacy token \<open>consumed\<close> still reads as claimed.
\<close>

interpretation steering: token_codec turn_steering_status_as_str turn_steering_status_from_str Inr
proof unfold_locales
  show "turn_steering_status_from_str (turn_steering_status_as_str x) = Inr x" for x
    by (cases x) (simp_all add: turn_steering_status_from_str_def)
qed simp

lemma steering_parse_alias:
  "turn_steering_status_from_str s = Inr x \<longleftrightarrow>
     s = turn_steering_status_as_str x \<or> (s = ''consumed'' \<and> x = SClaimed)"
  by (cases x) (auto simp: turn_steering_status_from_str_def split: if_splits)

section \<open>Priorities, resources and the task record\<close>

datatype task_priority = Background | Low | Normal | High | Critical

fun priority_rank :: "task_priority \<Rightarrow> nat" where
  "priority_rank Background = 0"
| "priority_rank Low = 1"
| "priority_rank Normal = 2"
| "priority_rank High = 3"
| "priority_rank Critical = 4"

lemma priority_rank_inject: "priority_rank p = priority_rank q \<longleftrightarrow> p = q"
  by (cases p; cases q) simp_all

text \<open>The derived order of the enum: declaration order.\<close>

instantiation task_priority :: linorder
begin

definition less_eq_task_priority :: "task_priority \<Rightarrow> task_priority \<Rightarrow> bool" where
  "less_eq_task_priority p q \<longleftrightarrow> priority_rank p \<le> priority_rank q"

definition less_task_priority :: "task_priority \<Rightarrow> task_priority \<Rightarrow> bool" where
  "less_task_priority p q \<longleftrightarrow> priority_rank p < priority_rank q"

instance
  by standard
    (auto simp: less_eq_task_priority_def less_task_priority_def priority_rank_inject)

end

datatype resource_class =
  LlmInference | BrowserSession | NetworkIo | FilesystemIo | ConnectorApi | ComputerSession
| ShellProcess | MemoryIndexing | GraphIndexing | UserWait | BackgroundMaintenance

fun resource_class_as_str :: "resource_class \<Rightarrow> string" where
  "resource_class_as_str LlmInference = ''llm_inference''"
| "resource_class_as_str BrowserSession = ''browser_session''"
| "resource_class_as_str NetworkIo = ''network_io''"
| "resource_class_as_str FilesystemIo = ''filesystem_io''"
| "resource_class_as_str ConnectorApi = ''connector_api''"
| "resource_class_as_str ComputerSession = ''computer_session''"
| "resource_class_as_str ShellProcess = ''shell_process''"
| "resource_class_as_str MemoryIndexing = ''memory_indexing''"
| "resource_class_as_str GraphIndexing = ''graph_indexing''"
| "resource_class_as_str UserWait = ''user_wait''"
| "resource_class_as_str BackgroundMaintenance = ''background_maintenance''"

lemma resource_class_as_str_inject:
  "resource_class_as_str a = resource_class_as_str b \<longleftrightarrow> a = b"
  by (cases a; cases b) simp_all

record task_resource_requirement =
  tr_class :: resource_class
  tr_units :: u32

record retry_policy =
  rp_max_attempts :: u32
  rp_backoff_seconds :: int

definition default_retry_policy :: retry_policy where
  "default_retry_policy = \<lparr>rp_max_attempts = 1, rp_backoff_seconds = 0\<rparr>"

record task_record =
  t_task_id :: string
  t_workflow_id :: "string option"
  t_user_id :: string
  t_workspace_id :: string
  t_kind :: string
  t_goal :: string
  t_status :: task_status
  t_priority :: task_priority
  t_risk_level :: string
  t_resource_requirements :: "task_resource_requirement list"
  t_permission_context :: json
  t_input_json :: json
  t_checkpoint_json :: "json option"
  t_retry_policy :: retry_policy
  t_attempt_count :: u32
  t_not_before :: "int option"
  t_deadline :: "int option"
  t_expires_at :: "int option"
  t_recurrence :: "string option"
  t_recurrence_tz :: "string option"
  t_created_at :: int
  t_updated_at :: int
  t_last_heartbeat_at :: "int option"
  t_lease_owner :: "string option"
  t_lease_expires_at :: "int option"
  t_lease_fencing_token :: "u64 option"
  t_blocked_reason :: "string option"

definition NANOS :: int where
  "NANOS = 1000000000"

text \<open>\<open>OffsetDateTime::unix_timestamp\<close>: whole seconds, rounded down.\<close>

definition unix_timestamp :: "int \<Rightarrow> int" where
  "unix_timestamp t = t div NANOS"

definition new_task ::
  "string \<Rightarrow> string \<Rightarrow> string \<Rightarrow> string \<Rightarrow> string \<Rightarrow> json \<Rightarrow> int \<Rightarrow> task_record" where
  "new_task tid user workspace knd goal inp now =
     \<lparr>t_task_id = tid, t_workflow_id = None, t_user_id = user, t_workspace_id = workspace,
      t_kind = knd, t_goal = goal, t_status = TQueued, t_priority = Normal,
      t_risk_level = ''low'', t_resource_requirements = [], t_permission_context = JObject [],
      t_input_json = inp, t_checkpoint_json = None, t_retry_policy = default_retry_policy,
      t_attempt_count = 0, t_not_before = None, t_deadline = None, t_expires_at = None,
      t_recurrence = None, t_recurrence_tz = None, t_created_at = now, t_updated_at = now,
      t_last_heartbeat_at = None, t_lease_owner = None, t_lease_expires_at = None,
      t_lease_fencing_token = None, t_blocked_reason = None\<rparr>"

text \<open>\<open>u64::try_from\<close> of an \<open>i128\<close>.\<close>

definition u64_try_from :: "int \<Rightarrow> u64 option" where
  "u64_try_from i = (if 0 \<le> i \<and> i < 18446744073709551616 then Some (word_of_int i) else None)"

definition effective_lease_fencing_token :: "task_record \<Rightarrow> u64 option" where
  "effective_lease_fencing_token t =
     (case t_lease_fencing_token t of
        Some f \<Rightarrow> Some f
      | None \<Rightarrow> Option.bind (t_last_heartbeat_at t) u64_try_from)"

definition clear_lease :: "task_record \<Rightarrow> task_record" where
  "clear_lease t =
     t\<lparr>t_lease_owner := None, t_lease_expires_at := None, t_last_heartbeat_at := None,
       t_lease_fencing_token := None\<rparr>"

definition with_recurrence :: "string \<Rightarrow> string option \<Rightarrow> task_record \<Rightarrow> task_record" where
  "with_recurrence rule tz t = t\<lparr>t_recurrence := Some rule, t_recurrence_tz := tz\<rparr>"

definition with_priority :: "task_priority \<Rightarrow> task_record \<Rightarrow> task_record" where
  "with_priority p t = t\<lparr>t_priority := p\<rparr>"

definition with_resource :: "task_resource_requirement \<Rightarrow> task_record \<Rightarrow> task_record" where
  "with_resource r t = t\<lparr>t_resource_requirements := t_resource_requirements t @ [r]\<rparr>"

definition with_retry_policy :: "retry_policy \<Rightarrow> task_record \<Rightarrow> task_record" where
  "with_retry_policy p t = t\<lparr>t_retry_policy := p\<rparr>"

definition with_workflow :: "string \<Rightarrow> task_record \<Rightarrow> task_record" where
  "with_workflow w t = t\<lparr>t_workflow_id := Some w\<rparr>"

lemma u64_try_from_inject:
  "\<lbrakk>u64_try_from i = Some w; u64_try_from j = Some w\<rbrakk> \<Longrightarrow> i = j"
  by (auto simp: u64_try_from_def word_of_int_eq_iff take_bit_int_eq_self split: if_splits)

lemma clear_lease_no_fence [simp]: "effective_lease_fencing_token (clear_lease t) = None"
  by (simp add: effective_lease_fencing_token_def clear_lease_def)

end
