(* ===== verification/TurnReducer.thy ===== *)
theory TurnReducer
  imports TaskTypes "HOL-Library.Product_Lexorder" "HOL-Library.Multiset"
begin

text \<open>
  The reducer of turn events, crates/task-runtime/src/turn_reducer.rs: the state of a turn
  as a fold over its stored events in (sequence, event id) order, the contradictions it
  reports when the log is not well formed, and the projection of a turn with its plan and
  its uncertain effects.
\<close>

datatype reduced_turn_status =
  RdEmpty | RdRunning | RdWaitingUser | RdWaitingApproval | RdCompleted | RdFailed | RdCancelled

record turn_contradiction =
  tc_code :: string
  tc_detail :: string
  tc_owner_to_remove :: string

record turn_state_snapshot =
  sn_status :: reduced_turn_status
  sn_is_terminal :: bool
  sn_last_seq :: int
  sn_terminal_event_seq :: "int option"
  sn_terminal_event_kind :: "turn_event_kind option"
  sn_failure_text :: "string option"
  sn_contradictions :: "turn_contradiction list"

definition default_snapshot :: turn_state_snapshot where
  "default_snapshot =
     \<lparr>sn_status = RdEmpty, sn_is_terminal = False, sn_last_seq = 0,
      sn_terminal_event_seq = None, sn_terminal_event_kind = None, sn_failure_text = None,
      sn_contradictions = []\<rparr>"

text \<open>The \<open>Debug\<close> rendering of the kinds, of optional kinds and of optional integers.\<close>

fun debug_kind :: "turn_event_kind \<Rightarrow> string" where
  "debug_kind Delta = ''Delta''"
| "debug_kind Reasoning = ''Reasoning''"
| "debug_kind Activity = ''Activity''"
| "debug_kind PlanUpdate = ''PlanUpdate''"
| "debug_kind Tool = ''Tool''"
| "debug_kind Recall = ''Recall''"
| "debug_kind ChoicePrompt = ''ChoicePrompt''"
| "debug_kind VaultPropose = ''VaultPropose''"
| "debug_kind VaultReveal = ''VaultReveal''"
| "debug_kind PaymentApproval = ''PaymentApproval''"
| "debug_kind EvSuspended = ''Suspended''"
| "debug_kind EvDone = ''Done''"
| "debug_kind EvError = ''Error''"
| "debug_kind EvCancelled = ''Cancelled''"
| "debug_kind EvAborted = ''Aborted''"
| "debug_kind Retry = ''Retry''"
| "debug_kind EvQueued = ''Queued''"
| "debug_kind StepAdvance = ''StepAdvance''"
| "debug_kind Heartbeat = ''Heartbeat''"

definition debug_option :: "('a \<Rightarrow> string) \<Rightarrow> 'a option \<Rightarrow> string" where
  "debug_option f x = (case x of None \<Rightarrow> ''None'' | Some v \<Rightarrow> ''Some('' @ f v @ '')'')"

fun turn_event_kind_is_terminal :: "turn_event_kind \<Rightarrow> bool" where
  "turn_event_kind_is_terminal EvDone = True"
| "turn_event_kind_is_terminal EvError = True"
| "turn_event_kind_is_terminal EvCancelled = True"
| "turn_event_kind_is_terminal _ = False"

text \<open>The non-terminal kinds reported when they follow a terminal event.\<close>

fun reported_after_terminal :: "turn_event_kind \<Rightarrow> bool" where
  "reported_after_terminal Activity = True"
| "reported_after_terminal PlanUpdate = True"
| "reported_after_terminal ChoicePrompt = True"
| "reported_after_terminal VaultPropose = True"
| "reported_after_terminal VaultReveal = True"
| "reported_after_terminal PaymentApproval = True"
| "reported_after_terminal StepAdvance = True"
| "reported_after_terminal Heartbeat = True"
| "reported_after_terminal _ = False"

definition nonempty_trimmed :: "json \<Rightarrow> string \<Rightarrow> string option" where
  "nonempty_trimmed payload key =
     Option.bind (Option.bind (json_get payload key) json_as_str)
       (\<lambda>text. if trim text = [] then None else Some (trim text))"

definition add_contradiction ::
  "string \<Rightarrow> string \<Rightarrow> string \<Rightarrow> turn_state_snapshot \<Rightarrow> turn_state_snapshot" where
  "add_contradiction code detail owner s =
     s\<lparr>sn_contradictions := sn_contradictions s @
        [\<lparr>tc_code = code, tc_detail = detail, tc_owner_to_remove = owner\<rparr>]\<rparr>"

definition after_terminal :: "turn_event \<Rightarrow> turn_state_snapshot \<Rightarrow> turn_state_snapshot" where
  "after_terminal e s =
     (if turn_event_kind_is_terminal (te_kind e)
        then add_contradiction ''multiple_terminal_events''
          (''terminal '' @ debug_kind (te_kind e) @ '' at seq '' @ show_int (te_seq e) @
           '' after '' @ debug_option debug_kind (sn_terminal_event_kind s) @ '' at seq '' @
           debug_option show_int (sn_terminal_event_seq s))
          ''terminal_writer'' s
      else if reported_after_terminal (te_kind e)
        then add_contradiction ''event_after_terminal''
          (''non-terminal '' @ debug_kind (te_kind e) @ '' at seq '' @ show_int (te_seq e) @
           '' after terminal'')
          ''activity_projection'' s
      else s)"

definition make_terminal ::
  "reduced_turn_status \<Rightarrow> turn_event \<Rightarrow> turn_state_snapshot \<Rightarrow> turn_state_snapshot" where
  "make_terminal st e s =
     s\<lparr>sn_status := st, sn_is_terminal := True, sn_terminal_event_seq := Some (te_seq e),
       sn_terminal_event_kind := Some (te_kind e)\<rparr>"

definition suspended_status :: "json \<Rightarrow> reduced_turn_status" where
  "suspended_status payload =
     (if Option.bind (json_get payload ''wake_kind'') json_as_str
           \<in> {Some ''approval'', Some ''effect_resolution''}
        then RdWaitingApproval else RdWaitingUser)"

definition fail_turn :: "turn_event \<Rightarrow> turn_state_snapshot \<Rightarrow> turn_state_snapshot" where
  "fail_turn e s =
     (let s = (make_terminal RdFailed e s)
                \<lparr>sn_failure_text := nonempty_trimmed (te_payload e) ''text''\<rparr>
      in if sn_failure_text s = None
           then add_contradiction ''failed_terminal_missing_text''
             ''failed terminal event has no visible text'' ''execution_projection'' s
           else s)"

definition before_terminal :: "turn_event \<Rightarrow> turn_state_snapshot \<Rightarrow> turn_state_snapshot" where
  "before_terminal e s =
     (case te_kind e of
        EvDone \<Rightarrow> make_terminal RdCompleted e s
      | EvError \<Rightarrow> fail_turn e s
      | EvCancelled \<Rightarrow> make_terminal RdCancelled e s
      | EvSuspended \<Rightarrow> s\<lparr>sn_status := suspended_status (te_payload e)\<rparr>
      | _ \<Rightarrow> if sn_status s = RdEmpty then s\<lparr>sn_status := RdRunning\<rparr> else s)"

definition reduce_step :: "turn_state_snapshot \<Rightarrow> turn_event \<Rightarrow> turn_state_snapshot" where
  "reduce_step s e =
     (let s = s\<lparr>sn_last_seq := max (sn_last_seq s) (te_seq e)\<rparr>
      in if sn_is_terminal s then after_terminal e s else before_terminal e s)"

definition event_order :: "turn_event \<Rightarrow> int \<times> int" where
  "event_order e = (te_seq e, te_event_id e)"

definition reduce_turn_events :: "turn_event list \<Rightarrow> turn_state_snapshot" where
  "reduce_turn_events events = foldl reduce_step default_snapshot (sort_key event_order events)"

definition reduced_terminal_status_matches_task_status ::
  "reduced_turn_status \<Rightarrow> task_status \<Rightarrow> bool" where
  "reduced_terminal_status_matches_task_status r t \<longleftrightarrow>
     (r = RdCompleted \<and> t = TCompleted) \<or> (r = RdFailed \<and> t = TFailed) \<or>
     (r = RdCancelled \<and> t = TCancelled)"

section \<open>The projection of a turn\<close>

record kernel_effect_projection =
  ke_effect_class :: effect_class
  ke_status :: effect_receipt_status

record runtime_plan_record =
  pl_user_id :: string
  pl_workspace_id :: string
  pl_thread_id :: string
  pl_status :: string
  pl_plan_json :: json
  pl_objective_revision :: u64
  pl_revision :: u64
  pl_stall_turns :: u32
  pl_last_resume_done :: "nat option"
  pl_created_at :: int
  pl_updated_at :: int

record kernel_active_plan =
  ap_goal :: "string option"
  ap_plan_json :: json

record kernel_turn_projection =
  kp_turn :: turn_state_snapshot
  kp_active_plan :: "kernel_active_plan option"
  kp_requires_user_effect_resolution :: bool
  kp_terminal_reason :: "string option"

definition active_plan :: "runtime_plan_record \<Rightarrow> kernel_active_plan option" where
  "active_plan plan =
     (if pl_status plan \<noteq> ''open'' then None
      else Some \<lparr>ap_goal = nonempty_trimmed (pl_plan_json plan) ''goal'',
                 ap_plan_json = pl_plan_json plan\<rparr>)"

definition reduce_kernel_projection ::
  "turn_event list \<Rightarrow> runtime_plan_record option \<Rightarrow> kernel_effect_projection list
   \<Rightarrow> string option \<Rightarrow> kernel_turn_projection" where
  "reduce_kernel_projection events plan effects reason =
     \<lparr>kp_turn = reduce_turn_events events,
      kp_active_plan = Option.bind plan active_plan,
      kp_requires_user_effect_resolution =
        list_ex (\<lambda>e. ke_status e = Uncertain \<and> ke_effect_class e = ExternalWrite) effects,
      kp_terminal_reason = reason\<rparr>"

section \<open>The first terminal event decides the turn\<close>

definition is_terminal_event :: "turn_event \<Rightarrow> bool" where
  "is_terminal_event e \<longleftrightarrow> turn_event_kind_is_terminal (te_kind e)"

fun terminal_status :: "turn_event_kind \<Rightarrow> reduced_turn_status" where
  "terminal_status EvDone = RdCompleted"
| "terminal_status EvError = RdFailed"
| "terminal_status _ = RdCancelled"

definition ordered_events :: "turn_event list \<Rightarrow> turn_event list" where
  "ordered_events events = sort_key event_order events"

named_theorems step_simps \<open>one step of the reducer\<close>

lemmas [step_simps] =
  reduce_step_def before_terminal_def after_terminal_def add_contradiction_def make_terminal_def
  fail_turn_def Let_def

lemma terminal_step_frame:
  assumes "sn_is_terminal s"
  shows "sn_is_terminal (reduce_step s e) \<and> sn_status (reduce_step s e) = sn_status s \<and>
    sn_terminal_event_seq (reduce_step s e) = sn_terminal_event_seq s \<and>
    sn_terminal_event_kind (reduce_step s e) = sn_terminal_event_kind s \<and>
    sn_failure_text (reduce_step s e) = sn_failure_text s"
  using assms by (simp add: step_simps)

lemma terminal_run_frame:
  "sn_is_terminal s \<Longrightarrow>
    sn_is_terminal (foldl reduce_step s es) \<and>
    sn_status (foldl reduce_step s es) = sn_status s \<and>
    sn_terminal_event_seq (foldl reduce_step s es) = sn_terminal_event_seq s \<and>
    sn_terminal_event_kind (foldl reduce_step s es) = sn_terminal_event_kind s \<and>
    sn_failure_text (foldl reduce_step s es) = sn_failure_text s"
  by (induction es arbitrary: s) (use terminal_step_frame in auto)

definition untouched :: "turn_state_snapshot \<Rightarrow> bool" where
  "untouched s \<longleftrightarrow> \<not> sn_is_terminal s \<and> sn_terminal_event_seq s = None \<and>
     sn_terminal_event_kind s = None \<and> sn_failure_text s = None \<and> sn_contradictions s = []"

lemma untouched_default [simp]: "untouched default_snapshot"
  by (simp add: untouched_def default_snapshot_def)

lemma nonterminal_step:
  "\<lbrakk>untouched s; \<not> is_terminal_event e\<rbrakk> \<Longrightarrow> untouched (reduce_step s e)"
  by (cases "te_kind e") (auto simp: untouched_def is_terminal_event_def step_simps)

lemma nonterminal_run:
  "\<lbrakk>untouched s; \<forall>e \<in> set es. \<not> is_terminal_event e\<rbrakk> \<Longrightarrow> untouched (foldl reduce_step s es)"
  by (induction es arbitrary: s) (auto simp: nonterminal_step)

lemma terminal_step:
  assumes "untouched s" "is_terminal_event e"
  shows "sn_is_terminal (reduce_step s e) \<and>
    sn_status (reduce_step s e) = terminal_status (te_kind e) \<and>
    sn_terminal_event_seq (reduce_step s e) = Some (te_seq e) \<and>
    sn_terminal_event_kind (reduce_step s e) = Some (te_kind e) \<and>
    sn_failure_text (reduce_step s e) =
      (if te_kind e = EvError then nonempty_trimmed (te_payload e) ''text'' else None)"
  using assms
  by (cases "te_kind e") (auto simp: untouched_def is_terminal_event_def step_simps)

lemma split_first_terminal:
  obtains (none) "\<forall>e \<in> set es. \<not> is_terminal_event e" "find is_terminal_event es = None"
  | (some) pre e post where "es = pre @ e # post" "\<forall>e \<in> set pre. \<not> is_terminal_event e"
      "is_terminal_event e" "find is_terminal_event es = Some e"
proof (cases "\<exists>e \<in> set es. is_terminal_event e")
  case False
  then show ?thesis using none by (auto simp: find_None_iff)
next
  case True
  then obtain pre e post where s: "es = pre @ e # post" "is_terminal_event e"
      "\<forall>e \<in> set pre. \<not> is_terminal_event e"
    by (metis split_list_first_prop)
  then have "find is_terminal_event es = Some e"
    by (induction pre arbitrary: es) auto
  then show ?thesis using some s by blast
qed

text \<open>
  The outcome of a turn is decided by its first terminal event in (sequence, id) order
  and by nothing that follows it: status, cursor, kind and failure text are that event's,
  and a log without a terminal event is never reduced to a terminal state.
\<close>

lemma first_terminal_event_decides:
  "(case find is_terminal_event (ordered_events events) of
      None \<Rightarrow> \<not> sn_is_terminal (reduce_turn_events events) \<and>
        sn_terminal_event_kind (reduce_turn_events events) = None
    | Some e \<Rightarrow> sn_is_terminal (reduce_turn_events events) \<and>
        sn_status (reduce_turn_events events) = terminal_status (te_kind e) \<and>
        sn_terminal_event_seq (reduce_turn_events events) = Some (te_seq e) \<and>
        sn_terminal_event_kind (reduce_turn_events events) = Some (te_kind e) \<and>
        sn_failure_text (reduce_turn_events events) =
          (if te_kind e = EvError then nonempty_trimmed (te_payload e) ''text'' else None))"
proof (cases rule: split_first_terminal [of "ordered_events events"])
  case none
  then show ?thesis
    using nonterminal_run [OF untouched_default none(1)]
    by (simp add: reduce_turn_events_def ordered_events_def untouched_def)
next
  case (some pre e post)
  let ?s = "reduce_step (foldl reduce_step default_snapshot pre) e"
  have u: "untouched (foldl reduce_step default_snapshot pre)"
    using some(2) by (rule nonterminal_run [OF untouched_default])
  have r: "reduce_turn_events events = foldl reduce_step ?s post"
    using some(1) by (simp add: reduce_turn_events_def ordered_events_def)
  show ?thesis
    using terminal_step [OF u some(3)] terminal_run_frame [of ?s post] some(4)
    by (simp add: r)
qed

section \<open>The reduction does not depend on the order of storage\<close>

lemma filter_eq_replicate_count: "filter (\<lambda>x. k = x) zs = replicate (count (mset zs) k) k"
  by (induction zs) auto

lemma sort_key_permutation:
  assumes "mset xs = mset ys" "inj_on f (set xs)"
  shows "sort_key f xs = sort_key f ys"
proof (rule properties_for_sort_key)
  show "mset (sort_key f ys) = mset xs"
    using assms(1) by simp
  have *: "filter (\<lambda>x. f k = f x) zs = replicate (count (mset zs) k) k"
    if "inj_on f (set zs)" "k \<in> set zs" for k zs
  proof -
    have "filter (\<lambda>x. f k = f x) zs = filter (\<lambda>x. k = x) zs"
      using that by (auto intro!: filter_cong dest: inj_onD)
    then show ?thesis by (simp add: filter_eq_replicate_count)
  qed
  show "filter (\<lambda>x. f k = f x) (sort_key f ys) = filter (\<lambda>x. f k = f x) xs"
    if "k \<in> set (sort_key f ys)" for k
  proof -
    have "k \<in> set xs" "set (sort_key f ys) = set xs"
      using that assms(1) by (auto dest: mset_eq_setD)
    then show ?thesis
      using * [of xs k] * [of "sort_key f ys" k] assms by simp
  qed
qed (simp add: sorted_sort_key)

text \<open>
  Replaying the same events in any order of arrival gives the same snapshot, as long as
  no two events share both sequence and id.
\<close>

lemma reduction_order_independent:
  assumes "mset xs = mset ys" "inj_on event_order (set xs)"
  shows "reduce_turn_events xs = reduce_turn_events ys"
  using sort_key_permutation [OF assms] by (simp add: reduce_turn_events_def)

definition sample_event :: "int \<Rightarrow> turn_event_kind \<Rightarrow> turn_event" where
  "sample_event n k =
     \<lparr>te_event_id = n, te_turn_id = ''t'', te_seq = n, te_kind = k,
      te_payload = JObject [(''text'', JString ''x'')], te_created_at = n\<rparr>"

lemma reduction_order_independent_witness:
  "reduce_turn_events [sample_event 2 EvDone, sample_event 1 Delta] =
   reduce_turn_events [sample_event 1 Delta, sample_event 2 EvDone]"
  by (rule reduction_order_independent)
    (auto simp: inj_on_def event_order_def sample_event_def)

section \<open>Contradictions\<close>

definition well_formed_log :: "turn_event list \<Rightarrow> bool" where
  "well_formed_log es \<longleftrightarrow>
     (case dropWhile (\<lambda>e. \<not> is_terminal_event e) es of
        [] \<Rightarrow> True
      | e # post \<Rightarrow>
          (te_kind e = EvError \<longrightarrow> nonempty_trimmed (te_payload e) ''text'' \<noteq> None) \<and>
          (\<forall>x \<in> set post. \<not> is_terminal_event x \<and> \<not> reported_after_terminal (te_kind x)))"

lemma terminal_run_contradictions:
  "sn_is_terminal s \<Longrightarrow>
    sn_contradictions (foldl reduce_step s es) = [] \<longleftrightarrow>
    sn_contradictions s = [] \<and>
    (\<forall>x \<in> set es. \<not> is_terminal_event x \<and> \<not> reported_after_terminal (te_kind x))"
proof (induction es arbitrary: s)
  case (Cons e es)
  then show ?case
    using Cons.IH [of "reduce_step s e"] terminal_step_frame [of s e]
    by (auto simp: step_simps is_terminal_event_def)
qed simp

lemma terminal_step_contradictions:
  "\<lbrakk>untouched s; is_terminal_event e\<rbrakk> \<Longrightarrow>
    sn_contradictions (reduce_step s e) = [] \<longleftrightarrow>
    (te_kind e = EvError \<longrightarrow> nonempty_trimmed (te_payload e) ''text'' \<noteq> None)"
  by (cases "te_kind e") (auto simp: untouched_def is_terminal_event_def step_simps)

text \<open>
  The reducer reports a contradiction exactly when the ordered log is not well formed:
  a second terminal event, visible activity after the terminal one, or a failure without
  visible text.
\<close>

lemma contradictions_iff_malformed:
  "sn_contradictions (reduce_turn_events events) = [] \<longleftrightarrow> well_formed_log (ordered_events events)"
proof (cases rule: split_first_terminal [of "ordered_events events"])
  case none
  then have "dropWhile (\<lambda>e. \<not> is_terminal_event e) (ordered_events events) = []"
    by simp
  then have "well_formed_log (ordered_events events)"
    by (simp only: well_formed_log_def list.case)
  then show ?thesis
    using nonterminal_run [OF untouched_default none(1)]
    by (simp add: reduce_turn_events_def ordered_events_def untouched_def)
next
  case (some pre e post)
  let ?s = "reduce_step (foldl reduce_step default_snapshot pre) e"
  have u: "untouched (foldl reduce_step default_snapshot pre)"
    using some(2) by (rule nonterminal_run [OF untouched_default])
  have r: "reduce_turn_events events = foldl reduce_step ?s post"
    using some(1) by (simp add: reduce_turn_events_def ordered_events_def)
  have d: "dropWhile (\<lambda>e. \<not> is_terminal_event e) (ordered_events events) = e # post"
    using some by simp
  show ?thesis
    using terminal_step [OF u some(3)] terminal_step_contradictions [OF u some(3)]
    by (simp add: r d well_formed_log_def terminal_run_contradictions)
qed

lemma last_seq_run:
  "sn_last_seq (foldl reduce_step s es) = fold max (map te_seq es) (sn_last_seq s)"
proof (induction es arbitrary: s)
  case (Cons e es)
  have "sn_last_seq (reduce_step s e) = max (te_seq e) (sn_last_seq s)"
    by (cases "te_kind e") (auto simp: step_simps max.commute)
  then show ?case by (simp add: Cons.IH)
qed simp

end
