(* ===== verification/Journal.thy ===== *)
theory Journal
  imports TaskTypes
begin

text \<open>
  The execution journal and its fold, crates/task-runtime/src/execution_store.rs: the typed
  events of an execution, the state a journal folds to, revision by revision, and the checks
  that make a stored journal authoritative. Errors are those of \<open>TaskRuntimeError\<close>
  (crates/task-runtime/src/error.rs) with the messages of the code.
\<close>

section \<open>Errors\<close>

datatype task_error =
  NotFound string
| InvalidTransition string
| Store string
| ResourceUnavailable string
| LeaseConflict string
| ApprovalRequired string
| Conflict string

type_synonym 'a task_result = "task_error + 'a"

section \<open>Events and folded state\<close>

datatype journal_event =
  Created u32 execution_contract
| RevisionStarted u32 u64 execution_contract
| FenceAdvanced u32 u64 execution_contract
| AttemptStarted u32 string u64
| AttemptReclaimed u32 string string u64 execution_contract
| OutcomeCommitted u32 execution_outcome execution_state
| WakeDelivered u32 wake_delivery u64

record execution_event =
  ev_event_id :: nat
  ev_execution_id :: string
  ev_revision :: u64
  ev_seq :: nat
  ev_event :: journal_event
  ev_created_at :: int

record execution_record =
  er_contract :: execution_contract
  er_state :: execution_state
  er_outcome :: "validated_outcome option"
  er_created_at :: int
  er_updated_at :: int

record attempt_evidence =
  at_owner_id :: string
  at_fencing_token :: u64

record wake_transition_evidence =
  wt_delivery :: wake_delivery
  wt_next_revision :: u64
  wt_created_at :: int

record folded_execution =
  fo_record :: execution_record
  fo_active_attempt :: "attempt_evidence option"
  fo_outcome_committed_at :: "int option"
  fo_wake_transition :: "wake_transition_evidence option"

text \<open>\<open>FoldedJournal\<close>: the folded revisions, oldest first.\<close>

type_synonym folded_journal = "folded_execution list"

definition JOURNAL_EVENT_VERSION :: u32 where
  "JOURNAL_EVENT_VERSION = 1"

fun state_for_outcome :: "execution_outcome \<Rightarrow> execution_state" where
  "state_for_outcome (OutCompleted _ _) = Completed"
| "state_for_outcome (OutSuspended _ _) = Suspended"
| "state_for_outcome (OutCancelled _) = Cancelled"
| "state_for_outcome (OutFailed _) = Failed"

fun state_name :: "execution_state \<Rightarrow> string" where
  "state_name Ready = ''ready''"
| "state_name Running = ''running''"
| "state_name Suspended = ''suspended''"
| "state_name Completed = ''completed''"
| "state_name Cancelled = ''cancelled''"
| "state_name Failed = ''failed''"

definition parse_state :: "string \<Rightarrow> execution_state option" where
  "parse_state s =
     (if s = ''ready'' then Some Ready
      else if s = ''running'' then Some Running
      else if s = ''suspended'' then Some Suspended
      else if s = ''completed'' then Some Completed
      else if s = ''cancelled'' then Some Cancelled
      else if s = ''failed'' then Some Failed
      else None)"

interpretation state: strict_token_codec state_name parse_state Some
proof unfold_locales
  show "parse_state (state_name x) = Some x" for x
    by (cases x) (simp_all add: parse_state_def)
  show "parse_state s = Some x \<Longrightarrow> state_name x = s" for s x
    by (auto simp: parse_state_def split: if_splits)
qed simp

fun journal_event_kind :: "journal_event \<Rightarrow> string" where
  "journal_event_kind (Created _ _) = ''execution_created''"
| "journal_event_kind (RevisionStarted _ _ _) = ''revision_started''"
| "journal_event_kind (FenceAdvanced _ _ _) = ''fence_advanced''"
| "journal_event_kind (AttemptStarted _ _ _) = ''attempt_started''"
| "journal_event_kind (AttemptReclaimed _ _ _ _ _) = ''attempt_reclaimed''"
| "journal_event_kind (OutcomeCommitted _ _ _) = ''outcome_committed''"
| "journal_event_kind (WakeDelivered _ _ _) = ''wake_delivered''"

definition require_event_version :: "u32 \<Rightarrow> unit task_result" where
  "require_event_version v =
     (if v \<noteq> JOURNAL_EVENT_VERSION
        then Inl (Store (''unsupported execution journal event version: '' @ show_nat (unat v)))
      else Inr ())"

definition validated_text :: "string \<Rightarrow> string \<Rightarrow> unit task_result" where
  "validated_text s field =
     (if is_blank s then Inl (InvalidTransition (field @ '' must not be blank'')) else Inr ())"

definition sqlite_integer :: "u64 \<Rightarrow> string \<Rightarrow> unit task_result" where
  "sqlite_integer w field =
     (if fits_i64 w then Inr ()
      else Inl (InvalidTransition (field @ '' exceeds SQLite integer range'')))"

definition latest :: "folded_journal \<Rightarrow> folded_execution task_result" where
  "latest rs = (if rs = [] then Inl (Store ''execution journal has no revisions'')
                else Inr (last rs))"

definition revision_at :: "folded_journal \<Rightarrow> u64 \<Rightarrow> folded_execution option" where
  "revision_at rs r =
     (if r = 0 then None
      else let index = unat r - 1 in if index < length rs then Some (rs ! index) else None)"

definition require_nonterminal_fold :: "folded_execution \<Rightarrow> int \<Rightarrow> unit task_result" where
  "require_nonterminal_fold f timestamp =
     (if er_outcome (fo_record f) \<noteq> None
        then Inl (Store ''execution journal contains an event after its outcome'')
      else if timestamp < er_updated_at (fo_record f)
        then Inl (Store ''execution journal timestamps are not monotonic'')
      else Inr ())"

definition validate_journal_contract :: "execution_contract \<Rightarrow> execution_contract task_result" where
  "validate_journal_contract c =
     map_err (\<lambda>_. Store ''stored execution journal contract is invalid'') (validated_contract c)"

definition outcome_of :: "execution_record \<Rightarrow> execution_outcome option" where
  "outcome_of r = map_option vo_outcome (er_outcome r)"

section \<open>Moving to the next revision\<close>

definition validate_revision_transition ::
  "execution_record \<Rightarrow> execution_contract \<Rightarrow> string + unit" where
  "validate_revision_transition prior nxt =
     (let p = er_contract prior in
      res_bind (ok_or ''execution revision exhausted'' (checked_inc (c_revision p)))
        (\<lambda>expected_revision.
      if c_revision nxt \<noteq> expected_revision
        then Inl (''revision must advance from '' @ show_u64 (c_revision p) @ '' to '' @
                  show_u64 expected_revision)
      else if c_execution_id nxt \<noteq> c_execution_id p \<or> c_kind nxt \<noteq> c_kind p \<or>
          c_parent_execution_id nxt \<noteq> c_parent_execution_id p \<or> c_scope nxt \<noteq> c_scope p
        then Inl ''execution identity, kind, parent, and scope must remain stable''
      else if c_schema_version nxt \<noteq> c_schema_version p \<or> c_objective nxt \<noteq> c_objective p \<or>
          c_input nxt \<noteq> c_input p \<or> c_policy nxt \<noteq> c_policy p \<or>
          c_resources nxt \<noteq> c_resources p \<or> c_budget nxt \<noteq> c_budget p
        then Inl ''schema, objective, input, policy, resources, and budget must remain stable''
      else res_bind (ok_or ''execution fencing token exhausted''
          (checked_inc (c_fencing_token p))) (\<lambda>expected_fence.
        if c_fencing_token nxt \<noteq> expected_fence
          then Inl (''fencing token must advance from '' @ show_u64 (c_fencing_token p) @
                    '' to '' @ show_u64 expected_fence)
        else (case outcome_of prior of
            Some (OutSuspended wk ck) \<Rightarrow>
              res_bind (ok_or ''next revision must reference the suspended checkpoint''
                  (c_checkpoint nxt)) (\<lambda>cref.
              if ckr_checkpoint_id cref \<noteq> ce_checkpoint_id ck \<or>
                  ckr_producer_schema_version cref \<noteq> ce_producer_schema_version ck
                then Inl ''next revision checkpoint does not match the suspended checkpoint''
              else res_bind (ok_or ''next revision must include the delivered wake''
                  (c_wake nxt)) (\<lambda>delivery.
                if wd_condition delivery \<noteq> wk \<or> wd_dedup_key delivery \<noteq> dedup_key wk
                  then Inl ''wake delivery does not match the suspended wake condition''
                else Inr ()))
          | _ \<Rightarrow> Inl ''the prior revision must have one suspended outcome''))))"

section \<open>The fold\<close>

text \<open>Replacing the last revision: \<open>revisions.last_mut()\<close>.\<close>

definition set_last :: "'a list \<Rightarrow> 'a \<Rightarrow> 'a list" where
  "set_last xs x = butlast xs @ [x]"

definition last_mut :: "string \<Rightarrow> folded_journal \<Rightarrow> folded_execution task_result" where
  "last_mut msg rs = (if rs = [] then Inl (Store msg) else Inr (last rs))"

definition ready_revision :: "execution_contract \<Rightarrow> int \<Rightarrow> int \<Rightarrow> folded_execution" where
  "ready_revision c created updated =
     \<lparr>fo_record = \<lparr>er_contract = c, er_state = Ready, er_outcome = None,
                   er_created_at = created, er_updated_at = updated\<rparr>,
      fo_active_attempt = None, fo_outcome_committed_at = None, fo_wake_transition = None\<rparr>"

definition fold_created ::
  "string \<Rightarrow> folded_journal \<Rightarrow> execution_event \<Rightarrow> u32 \<Rightarrow> execution_contract
   \<Rightarrow> folded_journal task_result" where
  "fold_created eid rs ev version c =
     res_bind (require_event_version version) (\<lambda>_.
     if rs \<noteq> [] \<or> ev_revision ev \<noteq> 1 \<or> ev_seq ev \<noteq> 1
       then Inl (Store ''execution journal must contain exactly one leading creation'')
     else res_bind (validate_journal_contract c) (\<lambda>c.
       if c_execution_id c \<noteq> eid \<or> c_revision c \<noteq> 1
         then Inl (Store ''created contract does not match journal ownership'')
       else Inr (rs @ [ready_revision c (ev_created_at ev) (ev_created_at ev)])))"

definition fold_revision_started ::
  "string \<Rightarrow> folded_journal \<Rightarrow> execution_event \<Rightarrow> u32 \<Rightarrow> u64 \<Rightarrow> execution_contract
   \<Rightarrow> folded_journal task_result" where
  "fold_revision_started eid rs ev version previous c =
     res_bind (require_event_version version) (\<lambda>_.
     if ev_seq ev \<noteq> 1 \<or> ev_revision ev \<le> 1
       then Inl (Store ''later execution revisions must begin with revision-start'')
     else res_bind (ok_or (Store ''execution revision sequence exhausted'')
         (if length rs < 18446744073709551615 then Some (word_of_nat (Suc (length rs)))
          else None)) (\<lambda>expected_revision.
     if ev_revision ev \<noteq> expected_revision \<or> previous \<noteq> expected_revision - 1
       then Inl (Store ''execution revisions are not contiguous'')
     else res_bind (last_mut ''revision-start precedes execution creation'' rs) (\<lambda>prior.
     if ev_created_at ev < er_updated_at (fo_record prior)
       then Inl (Store ''execution journal timestamps are not monotonic'')
     else res_bind (validate_journal_contract c) (\<lambda>c.
     if c_execution_id c \<noteq> eid \<or> c_revision c \<noteq> ev_revision ev
       then Inl (Store ''revision-start contract does not match journal ownership'')
     else res_bind (map_err (\<lambda>reason.
           Store (''stored execution revision transition is invalid: '' @ reason))
         (validate_revision_transition (fo_record prior) c)) (\<lambda>_.
     res_bind (ok_or (Store ''revision-start has no authoritative wake-delivery event'')
         (fo_wake_transition prior)) (\<lambda>wt.
     if wt_next_revision wt \<noteq> ev_revision ev \<or> c_wake c \<noteq> Some (wt_delivery wt) \<or>
         ev_created_at ev \<noteq> wt_created_at wt
       then Inl (Store ''revision-start does not match its wake-delivery event'')
     else Inr (rs @ [ready_revision c (er_created_at (fo_record prior)) (ev_created_at ev)])))))))"

text \<open>A contract with another fence; the only change a fence event may make.\<close>

definition with_fence :: "u64 \<Rightarrow> execution_contract \<Rightarrow> execution_contract" where
  "with_fence f c = c\<lparr>c_fencing_token := f\<rparr>"

definition fold_fence_advanced ::
  "folded_journal \<Rightarrow> execution_event \<Rightarrow> u32 \<Rightarrow> u64 \<Rightarrow> execution_contract
   \<Rightarrow> folded_journal task_result" where
  "fold_fence_advanced rs ev version previous c =
     res_bind (require_event_version version) (\<lambda>_.
     res_bind (last_mut ''fence event precedes execution creation'' rs) (\<lambda>current.
     if c_revision (er_contract (fo_record current)) \<noteq> ev_revision ev
       then Inl (Store ''fence event does not belong to the current revision'')
     else res_bind (require_nonterminal_fold current (ev_created_at ev)) (\<lambda>_.
     res_bind (validate_journal_contract c) (\<lambda>updated.
     let current_raw = er_contract (fo_record current) in
     if c_fencing_token current_raw \<noteq> previous \<or> c_fencing_token updated \<le> previous
       then Inl (Store ''fence event does not advance the folded fencing token'')
     else if with_fence (c_fencing_token updated) current_raw \<noteq> updated
       then Inl (Store ''fence event changed fields other than the fencing token'')
     else Inr (set_last rs (current\<lparr>fo_record := (fo_record current)
            \<lparr>er_contract := updated, er_updated_at := ev_created_at ev\<rparr>\<rparr>))))))"

definition fold_attempt_started ::
  "folded_journal \<Rightarrow> execution_event \<Rightarrow> u32 \<Rightarrow> string \<Rightarrow> u64 \<Rightarrow> folded_journal task_result" where
  "fold_attempt_started rs ev version owner fence =
     res_bind (require_event_version version) (\<lambda>_.
     res_bind (last_mut ''attempt event precedes execution creation'' rs) (\<lambda>current.
     if c_revision (er_contract (fo_record current)) \<noteq> ev_revision ev \<or>
         er_state (fo_record current) \<noteq> Ready \<or> fo_active_attempt current \<noteq> None
       then Inl (Store ''attempt-start does not follow a ready unowned revision'')
     else res_bind (require_nonterminal_fold current (ev_created_at ev)) (\<lambda>_.
     if is_blank owner \<or> fence \<noteq> c_fencing_token (er_contract (fo_record current))
       then Inl (Store ''attempt-start owner or fence is invalid'')
     else Inr (set_last rs (current\<lparr>fo_record := (fo_record current)
            \<lparr>er_state := Running, er_updated_at := ev_created_at ev\<rparr>,
          fo_active_attempt := Some \<lparr>at_owner_id = owner, at_fencing_token = fence\<rparr>\<rparr>)))))"

definition fold_attempt_reclaimed ::
  "folded_journal \<Rightarrow> execution_event \<Rightarrow> u32 \<Rightarrow> string \<Rightarrow> string \<Rightarrow> u64 \<Rightarrow> execution_contract
   \<Rightarrow> folded_journal task_result" where
  "fold_attempt_reclaimed rs ev version previous_owner owner previous c =
     res_bind (require_event_version version) (\<lambda>_.
     res_bind (last_mut ''attempt reclaim precedes execution creation'' rs) (\<lambda>current.
     if c_revision (er_contract (fo_record current)) \<noteq> ev_revision ev \<or>
         er_state (fo_record current) \<noteq> Running
       then Inl (Store ''attempt reclaim does not belong to the running revision'')
     else res_bind (require_nonterminal_fold current (ev_created_at ev)) (\<lambda>_.
     res_bind (ok_or (Store ''attempt reclaim has no previous owner'')
         (fo_active_attempt current)) (\<lambda>attempt.
     if is_blank owner \<or> at_owner_id attempt \<noteq> previous_owner \<or>
         at_fencing_token attempt \<noteq> previous
       then Inl (Store ''attempt reclaim owner or previous fence is invalid'')
     else res_bind (validate_journal_contract c) (\<lambda>updated.
     if c_fencing_token updated \<le> previous
       then Inl (Store ''attempt reclaim did not advance the fence'')
     else if with_fence (c_fencing_token updated) (er_contract (fo_record current)) \<noteq> updated
       then Inl (Store ''attempt reclaim changed fields other than the fence'')
     else Inr (set_last rs (current\<lparr>fo_record := (fo_record current)
            \<lparr>er_contract := updated, er_state := Running, er_updated_at := ev_created_at ev\<rparr>,
          fo_active_attempt :=
            Some \<lparr>at_owner_id = owner, at_fencing_token = c_fencing_token updated\<rparr>\<rparr>)))))))"

definition fold_outcome_committed ::
  "folded_journal \<Rightarrow> execution_event \<Rightarrow> u32 \<Rightarrow> execution_outcome \<Rightarrow> execution_state
   \<Rightarrow> folded_journal task_result" where
  "fold_outcome_committed rs ev version out st =
     res_bind (require_event_version version) (\<lambda>_.
     res_bind (last_mut ''outcome event precedes execution creation'' rs) (\<lambda>current.
     if c_revision (er_contract (fo_record current)) \<noteq> ev_revision ev
       then Inl (Store ''outcome event does not belong to the current revision'')
     else res_bind (require_nonterminal_fold current (ev_created_at ev)) (\<lambda>_.
     if state_for_outcome out \<noteq> st
       then Inl (Store ''outcome event state is not canonical'')
     else res_bind (map_err (\<lambda>_. Store ''stored execution journal outcome is invalid'')
         (new_validated_outcome out (er_contract (fo_record current)))) (\<lambda>validated.
     Inr (set_last rs (current\<lparr>fo_record := (fo_record current)
            \<lparr>er_state := st, er_outcome := Some validated, er_updated_at := ev_created_at ev\<rparr>,
          fo_outcome_committed_at := Some (ev_created_at ev)\<rparr>))))))"

definition fold_wake_delivered ::
  "folded_journal \<Rightarrow> execution_event \<Rightarrow> u32 \<Rightarrow> wake_delivery \<Rightarrow> u64
   \<Rightarrow> folded_journal task_result" where
  "fold_wake_delivered rs ev version delivery next_revision =
     res_bind (require_event_version version) (\<lambda>_.
     res_bind (last_mut ''wake event precedes execution creation'' rs) (\<lambda>current.
     if c_revision (er_contract (fo_record current)) \<noteq> ev_revision ev
       then Inl (Store ''wake event does not belong to the current revision'')
     else if fo_wake_transition current \<noteq> None
       then Inl (Store ''execution revision contains more than one wake delivery'')
     else res_bind (ok_or (Store ''wake event precedes a suspended outcome'')
         (fo_outcome_committed_at current)) (\<lambda>outcome_at.
     (case outcome_of (fo_record current) of
        Some (OutSuspended wk ck) \<Rightarrow>
          res_bind (ok_or (Store ''execution revision sequence exhausted'')
              (checked_inc (ev_revision ev))) (\<lambda>expected_next_revision.
          if next_revision \<noteq> expected_next_revision \<or> wd_condition delivery \<noteq> wk \<or>
              wd_dedup_key delivery \<noteq> dedup_key wk \<or>
              wd_delivered_at_unix_seconds delivery \<noteq> ev_created_at ev \<or>
              ev_created_at ev < outcome_at
            then Inl (Store ''wake-delivery event is not canonical or causal'')
          else Inr (set_last rs (current\<lparr>fo_wake_transition :=
            Some \<lparr>wt_delivery = delivery, wt_next_revision = next_revision,
                  wt_created_at = ev_created_at ev\<rparr>\<rparr>)))
      | _ \<Rightarrow> Inl (Store ''wake event does not follow a suspended outcome'')))))"

fun fold_event ::
  "string \<Rightarrow> folded_journal \<Rightarrow> execution_event \<Rightarrow> folded_journal task_result" where
  "fold_event eid rs ev =
     (case ev_event ev of
        Created version c \<Rightarrow> fold_created eid rs ev version c
      | RevisionStarted version previous c \<Rightarrow> fold_revision_started eid rs ev version previous c
      | FenceAdvanced version previous c \<Rightarrow> fold_fence_advanced rs ev version previous c
      | AttemptStarted version owner fence \<Rightarrow> fold_attempt_started rs ev version owner fence
      | AttemptReclaimed version previous_owner owner previous c \<Rightarrow>
          fold_attempt_reclaimed rs ev version previous_owner owner previous c
      | OutcomeCommitted version out st \<Rightarrow> fold_outcome_committed rs ev version out st
      | WakeDelivered version delivery next_revision \<Rightarrow>
          fold_wake_delivered rs ev version delivery next_revision)"

declare fold_event.simps [simp del]

definition fold_events ::
  "string \<Rightarrow> folded_journal \<Rightarrow> execution_event list \<Rightarrow> folded_journal task_result" where
  "fold_events eid = run_steps (fold_event eid)"

definition fold_journal :: "execution_event list \<Rightarrow> string \<Rightarrow> folded_journal task_result" where
  "fold_journal evs eid =
     res_bind (fold_events eid [] evs) (\<lambda>rs.
     if rs = [] then Inl (Store ''execution journal has no creation event'') else Inr rs)"

section \<open>The invariant of a folded journal\<close>

text \<open>
  One revision: its contract is storable and carries the revision's number; its state, its
  outcome and its attempt agree; a wake transition answers the suspension it follows.
\<close>

definition state_agrees :: "folded_execution \<Rightarrow> bool" where
  "state_agrees f \<longleftrightarrow>
     (case er_outcome (fo_record f) of
        None \<Rightarrow> fo_outcome_committed_at f = None \<and> fo_wake_transition f = None \<and>
          (er_state (fo_record f) = Ready \<and> fo_active_attempt f = None \<or>
           er_state (fo_record f) = Running \<and> fo_active_attempt f \<noteq> None)
      | Some v \<Rightarrow> er_state (fo_record f) = state_for_outcome (vo_outcome v) \<and>
          new_validated_outcome (vo_outcome v) (er_contract (fo_record f)) = Inr v \<and>
          fo_outcome_committed_at f = Some (er_updated_at (fo_record f)))"

definition answers_suspension :: "folded_execution \<Rightarrow> wake_transition_evidence \<Rightarrow> bool" where
  "answers_suspension f wt \<longleftrightarrow>
     (\<exists>wk ck. outcome_of (fo_record f) = Some (OutSuspended wk ck) \<and>
        wd_condition (wt_delivery wt) = wk \<and> wd_dedup_key (wt_delivery wt) = dedup_key wk \<and>
        wd_delivered_at_unix_seconds (wt_delivery wt) = wt_created_at wt \<and>
        er_updated_at (fo_record f) \<le> wt_created_at wt \<and>
        unat (wt_next_revision wt) = Suc (unat (c_revision (er_contract (fo_record f)))))"

text \<open>
  The fence a worker of the revision has to present: its own attempt's, or the contract's
  while nobody owns the revision.
\<close>

definition owner_fence :: "folded_execution \<Rightarrow> u64" where
  "owner_fence f =
     (case fo_active_attempt f of
        Some a \<Rightarrow> at_fencing_token a
      | None \<Rightarrow> c_fencing_token (er_contract (fo_record f)))"

definition revision_ok :: "string \<Rightarrow> nat \<Rightarrow> folded_execution \<Rightarrow> bool" where
  "revision_ok eid n f \<longleftrightarrow>
     c_execution_id (er_contract (fo_record f)) = eid \<and>
     unat (c_revision (er_contract (fo_record f))) = n \<and>
     storable (er_contract (fo_record f)) \<and>
     state_agrees f \<and> owner_fence f \<le> c_fencing_token (er_contract (fo_record f)) \<and>
     pred_option (answers_suspension f) (fo_wake_transition f) \<and>
     er_created_at (fo_record f) \<le> er_updated_at (fo_record f)"

text \<open>What never changes from one revision to the next.\<close>

definition same_terms :: "execution_contract \<Rightarrow> execution_contract \<Rightarrow> bool" where
  "same_terms p n \<longleftrightarrow>
     c_schema_version n = c_schema_version p \<and> c_execution_id n = c_execution_id p \<and>
     c_kind n = c_kind p \<and> c_parent_execution_id n = c_parent_execution_id p \<and>
     c_scope n = c_scope p \<and> c_objective n = c_objective p \<and> c_input n = c_input p \<and>
     c_policy n = c_policy p \<and> c_resources n = c_resources p \<and> c_budget n = c_budget p"

definition linked :: "folded_execution \<Rightarrow> folded_execution \<Rightarrow> bool" where
  "linked p n \<longleftrightarrow>
     (\<exists>wt. fo_wake_transition p = Some wt \<and>
        c_wake (er_contract (fo_record n)) = Some (wt_delivery wt) \<and>
        wt_created_at wt \<le> er_updated_at (fo_record n)) \<and>
     owner_fence p < owner_fence n \<and>
     same_terms (er_contract (fo_record p)) (er_contract (fo_record n)) \<and>
     er_created_at (fo_record n) = er_created_at (fo_record p)"

definition journal_inv :: "string \<Rightarrow> folded_journal \<Rightarrow> bool" where
  "journal_inv eid rs \<longleftrightarrow>
     (\<forall>i < length rs. revision_ok eid (Suc i) (rs ! i)) \<and>
     (\<forall>i. Suc i < length rs \<longrightarrow> linked (rs ! i) (rs ! Suc i))"

text \<open>
  What a longer journal keeps of a shorter one: a revision's identity and terms; the fence
  of its owner can only rise, strictly whenever the owner's attempt changes; a committed
  outcome, its contract and its delivered wake are final.
\<close>

fun attempt_extends :: "attempt_evidence option \<Rightarrow> attempt_evidence option \<Rightarrow> bool" where
  "attempt_extends None y = True"
| "attempt_extends (Some a) None = False"
| "attempt_extends (Some a) (Some b) = (b = a \<or> at_fencing_token a < at_fencing_token b)"

definition revision_extends :: "folded_execution \<Rightarrow> folded_execution \<Rightarrow> bool" where
  "revision_extends f g \<longleftrightarrow>
     c_revision (er_contract (fo_record g)) = c_revision (er_contract (fo_record f)) \<and>
     same_terms (er_contract (fo_record f)) (er_contract (fo_record g)) \<and>
     owner_fence f \<le> owner_fence g \<and>
     attempt_extends (fo_active_attempt f) (fo_active_attempt g) \<and>
     er_created_at (fo_record g) = er_created_at (fo_record f) \<and>
     (er_outcome (fo_record f) \<noteq> None \<longrightarrow> fo_record g = fo_record f \<and>
        fo_outcome_committed_at g = fo_outcome_committed_at f) \<and>
     (fo_wake_transition f \<noteq> None \<longrightarrow> fo_wake_transition g = fo_wake_transition f)"

definition journal_extends :: "folded_journal \<Rightarrow> folded_journal \<Rightarrow> bool" where
  "journal_extends rs rs' \<longleftrightarrow>
     length rs \<le> length rs' \<and> (\<forall>i < length rs. revision_extends (rs ! i) (rs' ! i))"

lemma same_terms_refl [simp]: "same_terms c c"
  by (simp add: same_terms_def)

lemma same_terms_trans: "\<lbrakk>same_terms a b; same_terms b c\<rbrakk> \<Longrightarrow> same_terms a c"
  by (simp add: same_terms_def)

lemma same_terms_with_fence [simp]:
  "same_terms p (with_fence f c) = same_terms p c" "same_terms (with_fence f c) p = same_terms c p"
  by (simp_all add: same_terms_def with_fence_def)

lemma with_fence_simps [simp]:
  "c_fencing_token (with_fence f c) = f" "c_revision (with_fence f c) = c_revision c"
  "c_execution_id (with_fence f c) = c_execution_id c" "c_wake (with_fence f c) = c_wake c"
  by (simp_all add: with_fence_def)

lemma attempt_extends_refl [simp]: "attempt_extends x x"
  by (cases x) simp_all

lemma revision_extends_refl [simp]: "revision_extends f f"
  by (simp add: revision_extends_def)

lemma attempt_extends_trans:
  "\<lbrakk>attempt_extends x y; attempt_extends y z\<rbrakk> \<Longrightarrow> attempt_extends x z"
  by (cases x; cases y; cases z) auto

lemma revision_extends_trans:
  assumes "revision_extends f g" "revision_extends g h"
  shows "revision_extends f h"
  unfolding revision_extends_def
proof (intro conjI)
  note fg = assms(1) [unfolded revision_extends_def]
  note gh = assms(2) [unfolded revision_extends_def]
  show "same_terms (er_contract (fo_record f)) (er_contract (fo_record h))"
    by (rule same_terms_trans [of _ "er_contract (fo_record g)"]) (use fg gh in simp_all)
  show "attempt_extends (fo_active_attempt f) (fo_active_attempt h)"
    by (rule attempt_extends_trans [of _ "fo_active_attempt g"]) (use fg gh in simp_all)
  show "owner_fence f \<le> owner_fence h"
    by (rule order_trans [of _ "owner_fence g"]) (use fg gh in simp_all)
qed (use assms in \<open>simp_all add: revision_extends_def\<close>)

lemma journal_extends_refl [simp]: "journal_extends rs rs"
  by (simp add: journal_extends_def)

lemma journal_extends_trans:
  "\<lbrakk>journal_extends rs ss; journal_extends ss ts\<rbrakk> \<Longrightarrow> journal_extends rs ts"
  unfolding journal_extends_def
  by (metis order_trans less_le_trans revision_extends_trans)

lemma length_set_last [simp]: "rs \<noteq> [] \<Longrightarrow> length (set_last rs x) = length rs"
  by (simp add: set_last_def Suc_diff_1)

lemma set_last_nonempty [simp]: "set_last rs x \<noteq> []"
  by (simp add: set_last_def)

lemma nth_set_last:
  "\<lbrakk>rs \<noteq> []; i < length rs\<rbrakk> \<Longrightarrow>
    set_last rs x ! i = (if Suc i = length rs then x else rs ! i)"
  by (auto simp: set_last_def nth_append nth_butlast)

lemma last_mut_Inr: "last_mut msg rs = Inr f \<longleftrightarrow> rs \<noteq> [] \<and> f = last rs"
  by (auto simp: last_mut_def)

lemma nth_last: "Suc i = length rs \<Longrightarrow> rs ! i = last rs"
  by (metis Suc_not_Zero diff_Suc_1 last_conv_nth list.size(3))

lemma journal_extends_set_last:
  assumes "rs \<noteq> []" "revision_extends (last rs) x"
  shows "journal_extends rs (set_last rs x)"
  using assms by (auto simp: journal_extends_def nth_set_last nth_last)

lemma journal_extends_snoc: "journal_extends rs (rs @ [x])"
  by (simp add: journal_extends_def nth_append)

lemma journal_inv_last:
  assumes "journal_inv eid rs" "rs \<noteq> []"
  shows "revision_ok eid (length rs) (last rs)"
proof -
  obtain n where n: "Suc n = length rs"
    using assms(2) by (cases rs) auto
  then have "n < length rs" by simp
  with assms(1) have "revision_ok eid (Suc n) (rs ! n)"
    by (simp add: journal_inv_def)
  with n show ?thesis by (simp add: nth_last)
qed

text \<open>Replacing the last revision by one that extends it keeps the journal linked.\<close>

lemma linked_extends:
  assumes "linked p f" "revision_extends f g" "er_updated_at (fo_record f) \<le> er_updated_at (fo_record g)"
    "c_wake (er_contract (fo_record g)) = c_wake (er_contract (fo_record f))"
  shows "linked p g"
  using assms unfolding linked_def revision_extends_def
  by (auto intro: same_terms_trans less_le_trans order_trans)

lemma journal_inv_set_last:
  assumes inv: "journal_inv eid rs" and ne: "rs \<noteq> []"
    and ok: "revision_ok eid (length rs) x" and ext: "revision_extends (last rs) x"
    and upd: "er_updated_at (fo_record (last rs)) \<le> er_updated_at (fo_record x)"
    and wake: "c_wake (er_contract (fo_record x)) = c_wake (er_contract (fo_record (last rs)))"
  shows "journal_inv eid (set_last rs x)"
  unfolding journal_inv_def
proof (intro conjI allI impI)
  fix i assume "i < length (set_last rs x)"
  then show "revision_ok eid (Suc i) (set_last rs x ! i)"
    using inv ok ne by (auto simp: nth_set_last journal_inv_def)
next
  fix i assume i: "Suc i < length (set_last rs x)"
  then have l: "linked (rs ! i) (rs ! Suc i)"
    using inv ne by (simp add: journal_inv_def)
  show "linked (set_last rs x ! i) (set_last rs x ! Suc i)"
  proof (cases "Suc (Suc i) = length rs")
    case True
    then have "rs ! Suc i = last rs"
      by (rule nth_last)
    with l True i ne show ?thesis
      using linked_extends [OF _ ext upd wake] by (simp add: nth_set_last)
  next
    case False
    with l i ne show ?thesis by (simp add: nth_set_last)
  qed
qed

lemma journal_inv_snoc:
  assumes "journal_inv eid rs" "revision_ok eid (Suc (length rs)) x"
    and "rs = [] \<or> linked (last rs) x"
  shows "journal_inv eid (rs @ [x])"
  using assms unfolding journal_inv_def
  by (auto simp: nth_append less_Suc_eq nth_last)

section \<open>Every event keeps the invariant and only extends the journal\<close>

definition keeps :: "string \<Rightarrow> folded_journal \<Rightarrow> folded_journal \<Rightarrow> bool" where
  "keeps eid rs rs' \<longleftrightarrow> journal_inv eid rs' \<and> journal_extends rs rs'"

lemma keeps_set_last:
  assumes "journal_inv eid rs" "rs \<noteq> []"
    and "revision_ok eid (length rs) x" "revision_extends (last rs) x"
    and "er_updated_at (fo_record (last rs)) \<le> er_updated_at (fo_record x)"
    and "c_wake (er_contract (fo_record x)) = c_wake (er_contract (fo_record (last rs)))"
  shows "keeps eid rs (set_last rs x)"
  using assms by (simp add: keeps_def journal_inv_set_last journal_extends_set_last)

lemma suspended_case_Inr [result_simps]:
  "(case x of Some (OutSuspended wk ck) \<Rightarrow> f wk ck | _ \<Rightarrow> Inl e) = Inr y \<longleftrightarrow>
     (\<exists>wk ck. x = Some (OutSuspended wk ck) \<and> f wk ck = Inr y)"
  by (auto split: option.splits execution_outcome.splits)

lemmas fold_simps = suspended_case_Inr res_bind_Inr last_mut_Inr require_event_version_def Let_def
  validate_journal_contract_def validated_contract_Inr require_nonterminal_fold_def if_Inl_Inr

lemma owner_fence_update [simp]:
  "owner_fence (f\<lparr>fo_record := r, fo_active_attempt := Some a\<rparr>) = at_fencing_token a"
  "owner_fence (f\<lparr>fo_wake_transition := w\<rparr>) = owner_fence f"
  by (simp_all add: owner_fence_def split: option.split)

lemma owner_fence_ready [simp]: "owner_fence (ready_revision c s t) = c_fencing_token c"
  by (simp add: owner_fence_def ready_revision_def)

lemma created_keeps:
  assumes "fold_created eid rs ev version c = Inr rs'" "journal_inv eid rs"
  shows "keeps eid rs rs'"
proof -
  let ?x = "ready_revision c (ev_created_at ev) (ev_created_at ev)"
  have "rs = []" and rs': "rs' = [?x]" and c: "storable c" "c_execution_id c = eid"
      "c_revision c = 1"
    using assms(1) by (auto simp: fold_created_def fold_simps)
  moreover have "revision_ok eid (Suc 0) ?x"
    using c by (simp add: revision_ok_def state_agrees_def) (simp add: ready_revision_def)
  ultimately show ?thesis
    by (simp add: keeps_def journal_inv_def journal_extends_def)
qed


lemma validate_revision_transition_OK:
  assumes "validate_revision_transition prior c = Inr ()"
  shows "same_terms (er_contract prior) c \<and>
    checked_inc (c_revision (er_contract prior)) = Some (c_revision c) \<and>
    checked_inc (c_fencing_token (er_contract prior)) = Some (c_fencing_token c) \<and>
    (\<exists>wk ck ref d. outcome_of prior = Some (OutSuspended wk ck) \<and>
      c_checkpoint c = Some ref \<and> ckr_checkpoint_id ref = ce_checkpoint_id ck \<and>
      ckr_producer_schema_version ref = ce_producer_schema_version ck \<and>
      c_wake c = Some d \<and> wd_condition d = wk \<and> wd_dedup_key d = dedup_key wk)"
proof (cases "outcome_of prior")
  case None
  with assms show ?thesis
    by (simp add: validate_revision_transition_def fold_simps)
next
  case (Some out)
  with assms show ?thesis
    by (cases out) (auto simp: validate_revision_transition_def fold_simps same_terms_def)
qed

lemma checked_inc_less: "checked_inc a = Some b \<Longrightarrow> a < b"
  using unat_checked_inc by (simp add: word_less_nat_alt)

lemma revision_started_keeps:
  assumes step: "fold_revision_started eid rs ev version previous c = Inr rs'"
    and inv: "journal_inv eid rs"
  shows "keeps eid rs rs'"
proof -
  let ?p = "last rs"
  let ?x = "ready_revision c (er_created_at (fo_record ?p)) (ev_created_at ev)"
  obtain wt where ne: "rs \<noteq> []" and rs': "rs' = rs @ [?x]"
    and c: "storable c" "c_execution_id c = eid"
    and tr: "validate_revision_transition (fo_record ?p) c = Inr ()"
    and wt: "fo_wake_transition ?p = Some wt" "c_wake c = Some (wt_delivery wt)"
      "ev_created_at ev = wt_created_at wt"
    and upd: "er_updated_at (fo_record ?p) \<le> ev_created_at ev"
    using step by (auto simp: fold_revision_started_def fold_simps)
  note t = validate_revision_transition_OK [OF tr]
  have p: "revision_ok eid (length rs) ?p"
    using inv ne by (rule journal_inv_last)
  then have "unat (c_revision c) = Suc (length rs)"
    using t unat_checked_inc by (auto simp: revision_ok_def)
  moreover have "er_created_at (fo_record ?p) \<le> ev_created_at ev"
    using p upd by (simp add: revision_ok_def)
  ultimately have x: "revision_ok eid (Suc (length rs)) ?x"
    using c by (simp add: revision_ok_def state_agrees_def) (simp add: ready_revision_def)
  have "owner_fence ?p < c_fencing_token c"
    using p t checked_inc_less by (auto simp: revision_ok_def intro: le_less_trans)
  then have "linked ?p ?x"
    using t wt by (simp add: linked_def) (simp add: ready_revision_def)
  then show ?thesis
    using journal_inv_snoc [OF inv x] by (simp add: keeps_def rs' journal_extends_snoc)
qed

lemma fence_advanced_keeps:
  assumes step: "fold_fence_advanced rs ev version previous c = Inr rs'"
    and inv: "journal_inv eid rs"
  shows "keeps eid rs rs'"
proof -
  let ?p = "last rs"
  let ?x = "?p\<lparr>fo_record := (fo_record ?p)\<lparr>er_contract := c, er_updated_at := ev_created_at ev\<rparr>\<rparr>"
  have ne: "rs \<noteq> []" and rs': "rs' = set_last rs ?x" and c: "storable c"
    and fence: "c_fencing_token (er_contract (fo_record ?p)) < c_fencing_token c"
    and only: "with_fence (c_fencing_token c) (er_contract (fo_record ?p)) = c"
    and open_rev: "er_outcome (fo_record ?p) = None"
    and upd: "er_updated_at (fo_record ?p) \<le> ev_created_at ev"
    using step by (auto simp: fold_fence_advanced_def fold_simps)
  have p: "revision_ok eid (length rs) ?p"
    using inv ne by (rule journal_inv_last)
  have "c_execution_id (with_fence f d) = c_execution_id d \<and> same_terms d (with_fence f d)" for f d
    by simp
  from this [of "c_fencing_token c" "er_contract (fo_record ?p)"]
  have c_eq: "c_execution_id c = c_execution_id (er_contract (fo_record ?p))"
      "same_terms (er_contract (fo_record ?p)) c"
    by (simp_all add: only)
  have c_rev: "c_revision c = c_revision (er_contract (fo_record ?p))"
      "c_wake c = c_wake (er_contract (fo_record ?p))"
    using arg_cong [OF only, of c_revision] arg_cong [OF only, of c_wake] by simp_all
  have owner: "owner_fence ?p \<le> owner_fence ?x" "owner_fence ?x \<le> c_fencing_token c"
    using fence p by (auto simp: owner_fence_def revision_ok_def split: option.split)
  have nowake: "fo_wake_transition ?p = None"
    using p open_rev by (simp add: revision_ok_def state_agrees_def)
  have "revision_ok eid (length rs) ?x"
    using p c c_eq c_rev upd open_rev nowake owner by (simp add: revision_ok_def state_agrees_def)
  moreover have "revision_extends ?p ?x"
    using c_eq c_rev owner open_rev nowake by (simp add: revision_extends_def)
  ultimately show ?thesis
    unfolding rs' using keeps_set_last [OF inv ne] upd c_rev by simp
qed

lemma attempt_started_keeps:
  assumes step: "fold_attempt_started rs ev version owner fence = Inr rs'"
    and inv: "journal_inv eid rs"
  shows "keeps eid rs rs'"
proof -
  let ?p = "last rs"
  let ?x = "?p\<lparr>fo_record := (fo_record ?p)\<lparr>er_state := Running, er_updated_at := ev_created_at ev\<rparr>,
    fo_active_attempt := Some \<lparr>at_owner_id = owner, at_fencing_token = fence\<rparr>\<rparr>"
  have ne: "rs \<noteq> []" and rs': "rs' = set_last rs ?x" and free: "fo_active_attempt ?p = None"
    and fence: "fence = c_fencing_token (er_contract (fo_record ?p))"
    and open_rev: "er_outcome (fo_record ?p) = None"
    and upd: "er_updated_at (fo_record ?p) \<le> ev_created_at ev"
    using step by (auto simp: fold_attempt_started_def fold_simps)
  have p: "revision_ok eid (length rs) ?p"
    using inv ne by (rule journal_inv_last)
  then have nowake: "fo_wake_transition ?p = None"
    using open_rev by (simp add: revision_ok_def state_agrees_def)
  have "revision_ok eid (length rs) ?x"
    using p upd open_rev nowake fence by (simp add: revision_ok_def state_agrees_def)
  moreover have "owner_fence ?p = fence"
    using free fence by (simp add: owner_fence_def)
  then have "revision_extends ?p ?x"
    using open_rev nowake free by (simp add: revision_extends_def)
  ultimately show ?thesis
    unfolding rs' using keeps_set_last [OF inv ne] upd by simp
qed

lemma attempt_reclaimed_keeps:
  assumes step: "fold_attempt_reclaimed rs ev version previous_owner owner previous c = Inr rs'"
    and inv: "journal_inv eid rs"
  shows "keeps eid rs rs'"
proof -
  let ?p = "last rs"
  let ?x = "?p\<lparr>fo_record := (fo_record ?p)
      \<lparr>er_contract := c, er_state := Running, er_updated_at := ev_created_at ev\<rparr>,
    fo_active_attempt := Some \<lparr>at_owner_id = owner, at_fencing_token = c_fencing_token c\<rparr>\<rparr>"
  obtain a where ne: "rs \<noteq> []" and rs': "rs' = set_last rs ?x" and c: "storable c"
    and a: "fo_active_attempt ?p = Some a"
    and fence: "at_fencing_token a < c_fencing_token c"
    and only: "with_fence (c_fencing_token c) (er_contract (fo_record ?p)) = c"
    and open_rev: "er_outcome (fo_record ?p) = None"
    and upd: "er_updated_at (fo_record ?p) \<le> ev_created_at ev"
    using step by (auto simp: fold_attempt_reclaimed_def fold_simps)
  have p: "revision_ok eid (length rs) ?p"
    using inv ne by (rule journal_inv_last)
  then have nowake: "fo_wake_transition ?p = None"
    using open_rev by (simp add: revision_ok_def state_agrees_def)
  have "c_execution_id (with_fence f d) = c_execution_id d \<and> same_terms d (with_fence f d)" for f d
    by simp
  from this [of "c_fencing_token c" "er_contract (fo_record ?p)"]
  have c_eq: "c_execution_id c = c_execution_id (er_contract (fo_record ?p))"
      "same_terms (er_contract (fo_record ?p)) c"
    by (simp_all add: only)
  have c_rev: "c_revision c = c_revision (er_contract (fo_record ?p))"
      "c_wake c = c_wake (er_contract (fo_record ?p))"
    using arg_cong [OF only, of c_revision] arg_cong [OF only, of c_wake] by simp_all
  have "revision_ok eid (length rs) ?x"
    using p c c_eq c_rev upd open_rev nowake by (simp add: revision_ok_def state_agrees_def)
  moreover have "owner_fence ?p < c_fencing_token c"
    using a fence by (simp add: owner_fence_def)
  then have "revision_extends ?p ?x"
    using c_eq c_rev fence a open_rev nowake by (simp add: revision_extends_def)
  ultimately show ?thesis
    unfolding rs' using keeps_set_last [OF inv ne] upd c_rev by simp
qed

lemma outcome_committed_keeps:
  assumes step: "fold_outcome_committed rs ev version out st = Inr rs'"
    and inv: "journal_inv eid rs"
  shows "keeps eid rs rs'"
proof -
  let ?p = "last rs"
  obtain v where ne: "rs \<noteq> []"
    and v: "new_validated_outcome out (er_contract (fo_record ?p)) = Inr v"
    and rs': "rs' = set_last rs (?p\<lparr>fo_record := (fo_record ?p)
        \<lparr>er_state := st, er_outcome := Some v, er_updated_at := ev_created_at ev\<rparr>,
      fo_outcome_committed_at := Some (ev_created_at ev)\<rparr>)"
    and st: "state_for_outcome out = st"
    and open_rev: "er_outcome (fo_record ?p) = None"
    and upd: "er_updated_at (fo_record ?p) \<le> ev_created_at ev"
    using step by (auto simp: fold_outcome_committed_def fold_simps)
  let ?x = "?p\<lparr>fo_record := (fo_record ?p)
        \<lparr>er_state := st, er_outcome := Some v, er_updated_at := ev_created_at ev\<rparr>,
      fo_outcome_committed_at := Some (ev_created_at ev)\<rparr>"
  have p: "revision_ok eid (length rs) ?p"
    using inv ne by (rule journal_inv_last)
  then have nowake: "fo_wake_transition ?p = None"
    using open_rev by (simp add: revision_ok_def state_agrees_def)
  have owner: "owner_fence ?x = owner_fence ?p"
    by (simp add: owner_fence_def split: option.split)
  have out: "vo_outcome v = out"
    using v by (simp add: new_validated_outcome_Inr)
  have "revision_ok eid (length rs) ?x"
    using p upd nowake owner v st out by (simp add: revision_ok_def state_agrees_def)
  moreover have "revision_extends ?p ?x"
    using open_rev nowake owner by (simp add: revision_extends_def)
  ultimately show ?thesis
    unfolding rs' using keeps_set_last [OF inv ne] upd by simp
qed

lemma wake_delivered_keeps:
  assumes step: "fold_wake_delivered rs ev version delivery next_revision = Inr rs'"
    and inv: "journal_inv eid rs"
  shows "keeps eid rs rs'"
proof -
  let ?p = "last rs"
  let ?wt = "\<lparr>wt_delivery = delivery, wt_next_revision = next_revision,
    wt_created_at = ev_created_at ev\<rparr>"
  let ?x = "?p\<lparr>fo_wake_transition := Some ?wt\<rparr>"
  obtain at wk ck where ne: "rs \<noteq> []" and rs': "rs' = set_last rs ?x"
    and rev: "c_revision (er_contract (fo_record ?p)) = ev_revision ev"
    and fresh: "fo_wake_transition ?p = None"
    and at: "fo_outcome_committed_at ?p = Some at" "at \<le> ev_created_at ev"
    and out: "outcome_of (fo_record ?p) = Some (OutSuspended wk ck)"
    and nxt: "checked_inc (ev_revision ev) = Some next_revision"
    and d: "wd_condition delivery = wk" "wd_dedup_key delivery = dedup_key wk"
      "wd_delivered_at_unix_seconds delivery = ev_created_at ev"
    using step by (auto simp: fold_wake_delivered_def fold_simps)
  have p: "revision_ok eid (length rs) ?p"
    using inv ne by (rule journal_inv_last)
  have "er_updated_at (fo_record ?p) = at"
    using p out at(1) by (auto simp: revision_ok_def state_agrees_def outcome_of_def
      split: option.splits)
  moreover have "outcome_of (fo_record ?p) = Some (OutSuspended (wd_condition delivery) ck)"
    using out d(1) by simp
  ultimately have "answers_suspension ?x ?wt"
    using d at(2) unat_checked_inc [OF nxt] by (simp add: answers_suspension_def rev)
  moreover have "state_agrees ?x"
    using p out by (auto simp: revision_ok_def state_agrees_def outcome_of_def split: option.splits)
  ultimately have "revision_ok eid (length rs) ?x"
    using p by (simp add: revision_ok_def)
  moreover have "revision_extends ?p ?x"
    using fresh by (simp add: revision_extends_def)
  ultimately show ?thesis
    unfolding rs' using keeps_set_last [OF inv ne] by simp
qed

lemma fold_event_keeps:
  assumes "journal_inv eid rs" "fold_event eid rs ev = Inr rs'"
  shows "keeps eid rs rs'"
  using assms
  by (cases "ev_event ev")
    (auto simp: fold_event.simps intro: created_keeps revision_started_keeps fence_advanced_keeps
      attempt_started_keeps attempt_reclaimed_keeps outcome_committed_keeps wake_delivered_keeps)

lemma journal_inv_Nil [simp]: "journal_inv eid []"
  by (simp add: journal_inv_def)

interpretation jl: guarded_system "fold_event eid" "journal_inv eid" journal_extends for eid
proof unfold_locales
  show "journal_extends rs ts" if "journal_extends rs ss" "journal_extends ss ts" for rs ss ts
    using that by (rule journal_extends_trans)
qed (auto dest: fold_event_keeps simp: keeps_def)

lemma fold_journal_Inr:
  "fold_journal evs eid = Inr rs \<longleftrightarrow> run_steps (fold_event eid) [] evs = Inr rs \<and> rs \<noteq> []"
  by (auto simp: fold_journal_def fold_events_def res_bind_Inr)

lemma fold_journal_inv: "fold_journal evs eid = Inr rs \<Longrightarrow> journal_inv eid rs \<and> rs \<noteq> []"
  using jl.run_inv [OF journal_inv_Nil] by (auto simp: fold_journal_Inr)

lemma fold_journal_prefix:
  assumes "fold_journal xs eid = Inr rs" "fold_journal (xs @ ys) eid = Inr rs'"
  shows "journal_extends rs rs'"
  using jl.prefix_ext [OF journal_inv_Nil, of eid xs rs ys rs'] assms
  by (simp add: fold_journal_Inr)

text \<open>An accepted event belongs to the latest revision of the journal it leads to.\<close>

lemma fold_event_revision:
  assumes "journal_inv eid rs" "fold_event eid rs ev = Inr rs'"
  shows "rs' \<noteq> [] \<and> unat (ev_revision ev) = length rs' \<and> length rs \<le> length rs'"
proof (cases "rs = []")
  case True
  with assms(2) show ?thesis
    by (cases "ev_event ev")
      (auto simp: fold_event.simps fold_created_def fold_revision_started_def
        fold_fence_advanced_def fold_attempt_started_def fold_attempt_reclaimed_def
        fold_outcome_committed_def fold_wake_delivered_def fold_simps)
next
  case False
  have rev: "unat (c_revision (er_contract (fo_record (last rs)))) = length rs"
    using journal_inv_last [OF assms(1) False] by (simp add: revision_ok_def)
  show ?thesis
  proof (cases "ev_event ev")
    case (RevisionStarted version previous c)
    with assms(2) have "length rs < 18446744073709551615" "rs' \<noteq> []"
      and "ev_revision ev = word_of_nat (Suc (length rs))" "length rs' = Suc (length rs)"
      by (auto simp: fold_event.simps fold_revision_started_def fold_simps split: if_splits)
    then show ?thesis
      by (simp del: of_nat_Suc add: unat_of_nat take_bit_nat_eq_self)
  qed (use assms(2) False rev in \<open>auto simp: fold_event.simps fold_created_def
    fold_fence_advanced_def fold_attempt_started_def fold_attempt_reclaimed_def
    fold_outcome_committed_def fold_wake_delivered_def fold_simps\<close>)
qed

lemma run_revisions_bounded:
  assumes "journal_inv eid rs" "run_steps (fold_event eid) rs evs = Inr rs'"
  shows "length rs \<le> length rs' \<and> (\<forall>ev \<in> set evs. unat (ev_revision ev) \<le> length rs')"
  using assms
proof (induction evs arbitrary: rs)
  case (Cons ev evs)
  then obtain s where s: "fold_event eid rs ev = Inr s" "run_steps (fold_event eid) s evs = Inr rs'"
    by (auto simp: res_bind_Inr)
  with Cons.prems(1) have "journal_inv eid s"
    using fold_event_keeps by (auto simp: keeps_def)
  from Cons.IH [OF this s(2)] fold_event_revision [OF Cons.prems(1) s(1)] show ?case
    by auto
qed simp

lemma run_nonempty:
  assumes "run_steps (fold_event eid) [] evs = Inr rs"
  shows "rs = [] \<longleftrightarrow> evs = []"
proof (cases evs)
  case (Cons ev evs')
  with assms obtain s where s: "fold_event eid [] ev = Inr s"
      "run_steps (fold_event eid) s evs' = Inr rs"
    by (auto simp: res_bind_Inr)
  have "journal_inv eid s"
    using fold_event_keeps [OF journal_inv_Nil s(1)] by (simp add: keeps_def)
  from run_revisions_bounded [OF this s(2)] fold_event_revision [OF journal_inv_Nil s(1)] Cons
  show ?thesis by auto
qed (use assms in simp)

section \<open>Sample journals\<close>

definition journal_sample :: "u64 \<Rightarrow> nat \<Rightarrow> int \<Rightarrow> journal_event \<Rightarrow> execution_event" where
  "journal_sample rvn sq now e =
     \<lparr>ev_event_id = sq, ev_execution_id = ''e1'', ev_revision = rvn, ev_seq = sq,
      ev_event = e, ev_created_at = now\<rparr>"

definition sample_checkpoint :: checkpoint_envelope where
  "sample_checkpoint = new_checkpoint ''e1'' 1 ''chat_turn'' 1
     (Public (DurableDataRef ''durable:v1:32:00000000000000000000000000000000''))"

definition sample_suspension :: execution_outcome where
  "sample_suspension = OutSuspended (User ''t'') sample_checkpoint"

definition sample_delivery :: wake_delivery where
  "sample_delivery = \<lparr>wd_condition = User ''t'', wd_dedup_key = dedup_key (User ''t''),
     wd_payload = JNull, wd_delivered_at_unix_seconds = 7\<rparr>"

definition sample_next :: execution_contract where
  "sample_next = sample_contract\<lparr>c_revision := 2, c_fencing_token := 2,
     c_checkpoint := Some \<lparr>ckr_checkpoint_id = ce_checkpoint_id sample_checkpoint,
       ckr_producer_schema_version = 1\<rparr>, c_wake := Some sample_delivery\<rparr>"

definition sample_first_half :: "execution_event list" where
  "sample_first_half =
     [journal_sample 1 1 3 (Created 1 sample_contract),
      journal_sample 1 2 4 (AttemptStarted 1 ''worker'' 1),
      journal_sample 1 3 5 (OutcomeCommitted 1 sample_suspension Suspended)]"

definition sample_second_half :: "execution_event list" where
  "sample_second_half =
     [journal_sample 1 4 7 (WakeDelivered 1 sample_delivery 2),
      journal_sample 2 1 7 (RevisionStarted 1 1 sample_next),
      journal_sample 2 2 8 (AttemptStarted 1 ''worker'' 2)]"

lemma checkpoint_id_not_blank: "\<not> is_blank (canonical_checkpoint_id e r)"
  by (simp add: canonical_checkpoint_id_def is_blank_visible ascii_ws_def byte_def)

lemma storable_next: "storable sample_next"
  by (simp add: storable_def sample_next_def sample_contract_def new_contract_def sample_scope_def
      sql_positive_def i64_max_def nonblank_option_def objective_in_scope_def wake_canonical_def
      sample_delivery_def sample_checkpoint_def new_checkpoint_def checkpoint_id_not_blank)

lemma sample_suspension_ok: "validate_outcome sample_suspension sample_contract = Inr ()"
  by (simp add: sample_suspension_def validate_suspended_iff resumable_checkpoint_def
      sample_checkpoint_def new_checkpoint_def sample_contract_def new_contract_def
      durable_data_ref_parse_def validate_encoded_reference_def strip_prefix_def
      validate_store_id_def is_store_id_byte_def is_digit_def byte_def)

lemma sample_transition:
  "outcome_of r = Some sample_suspension \<Longrightarrow> er_contract r = sample_contract \<Longrightarrow>
    validate_revision_transition r sample_next = Inr ()"
  by (simp add: validate_revision_transition_def sample_next_def sample_suspension_def
      sample_contract_def new_contract_def sample_checkpoint_def new_checkpoint_def
      checked_inc_def sample_delivery_def Let_def)

lemma sample_contract_fields [simp]:
  "c_execution_id sample_contract = ''e1''" "c_revision sample_contract = 1"
  "c_fencing_token sample_contract = 1" "c_execution_id sample_next = ''e1''"
  "c_revision sample_next = 2" "c_fencing_token sample_next = 2"
  "c_wake sample_next = Some sample_delivery"
  by (simp_all add: sample_contract_def sample_next_def new_contract_def)

lemma storable_validated: "storable c \<Longrightarrow> validate_journal_contract c = Inr c"
  by (simp add: validate_journal_contract_def validated_contract_Inr)

lemma small_fences [simp]:
  "\<not> (2 :: u64) \<le> 1" "\<not> (3 :: u64) \<le> 1" "\<not> (5 :: u64) \<le> 1"
  by (simp_all add: word_le_nat_alt)

lemmas fold_eval = fold_event.simps fold_created_def fold_revision_started_def
  fold_attempt_started_def fold_outcome_committed_def fold_wake_delivered_def
  fold_fence_advanced_def fold_attempt_reclaimed_def require_event_version_def
  JOURNAL_EVENT_VERSION_def last_mut_def set_last_def require_nonterminal_fold_def
  ready_revision_def
  new_validated_outcome_def journal_sample_def outcome_of_def

lemma sample_first_fold:
  "\<exists>f. run_steps (fold_event ''e1'') [] sample_first_half = Inr [f] \<and>
     er_state (fo_record f) = Suspended \<and> owner_fence f = 1 \<and>
     outcome_of (fo_record f) = Some sample_suspension \<and>
     er_contract (fo_record f) = sample_contract \<and>
     fo_outcome_committed_at f = Some 5 \<and> fo_wake_transition f = None \<and>
     er_updated_at (fo_record f) = 5"
  unfolding sample_first_half_def
  by (simp add: fold_eval storable_validated storable_sample sample_suspension_ok owner_fence_def)
    (simp add: sample_suspension_def)

lemma sample_second_fold:
  "\<exists>f g. run_steps (fold_event ''e1'') [] (sample_first_half @ sample_second_half) = Inr [f, g] \<and>
     owner_fence f = 1 \<and> owner_fence g = 2"
proof -
  obtain f where f: "run_steps (fold_event ''e1'') [] sample_first_half = Inr [f]"
    "owner_fence f = 1" "outcome_of (fo_record f) = Some sample_suspension"
    "er_contract (fo_record f) = sample_contract" "fo_outcome_committed_at f = Some 5"
    "fo_wake_transition f = None" "er_updated_at (fo_record f) = 5"
    using sample_first_fold by blast
  let ?f = "f\<lparr>fo_wake_transition := Some \<lparr>wt_delivery = sample_delivery,
    wt_next_revision = 2, wt_created_at = 7\<rparr>\<rparr>"
  have wake: "fold_event ''e1'' [f] (journal_sample 1 4 7 (WakeDelivered 1 sample_delivery 2)) =
      Inr [?f]"
    using f by (simp add: fold_event.simps fold_wake_delivered_def require_event_version_def
        JOURNAL_EVENT_VERSION_def last_mut_def set_last_def journal_sample_def
        sample_suspension_def checked_inc_def sample_delivery_def)
  let ?g = "ready_revision sample_next (er_created_at (fo_record ?f)) 7"
  have start: "fold_event ''e1'' [?f] (journal_sample 2 1 7 (RevisionStarted 1 1 sample_next)) =
      Inr [?f, ?g]"
    using f sample_transition [of "fo_record ?f"]
    by (simp add: fold_event.simps fold_revision_started_def require_event_version_def
        JOURNAL_EVENT_VERSION_def last_mut_def journal_sample_def storable_validated storable_next)
  have attempt: "\<exists>g'. fold_event ''e1'' [?f, ?g] (journal_sample 2 2 8 (AttemptStarted 1 ''worker'' 2)) =
      Inr [?f, g'] \<and> owner_fence g' = 2"
    by (simp add: fold_eval owner_fence_def)
  from attempt f(1,2) show ?thesis
    unfolding sample_second_half_def
    by (auto simp: run_steps_append wake start [simplified])
qed

section \<open>Properties of the journal\<close>

text \<open>
  C34: every journal the runtime accepts describes a well-formed execution: revision
  \<open>i + 1\<close> holds a storable contract of this execution numbered \<open>i + 1\<close>, its state
  agrees with its outcome and attempt, each wake transition answers the suspension it
  follows, and each later revision starts from the wake delivered to the one before, with
  the same terms.
\<close>

theorem fold_journal_well_formed:
  assumes "fold_journal evs eid = Inr rs"
  shows "rs \<noteq> [] \<and> journal_inv eid rs"
  using fold_journal_inv [OF assms] by simp

theorem fold_journal_well_formed_witness:
  "\<exists>rs. fold_journal sample_first_half ''e1'' = Inr rs \<and> journal_inv ''e1'' rs"
proof -
  obtain f where "fold_journal sample_first_half ''e1'' = Inr [f]"
    using sample_first_fold by (auto simp: fold_journal_Inr)
  with fold_journal_well_formed [OF this] show ?thesis by blast
qed

text \<open>
  History is append-only: whatever events follow an accepted journal, if the longer
  journal is accepted too then every revision of the shorter one is still there with its
  terms, its owner's fence has not dropped, and once its outcome was committed its record,
  and once its wake was delivered that transition, is unchanged.
\<close>

lemma journal_history_final:
  assumes "fold_journal evs eid = Inr rs" "fold_journal (evs @ later) eid = Inr rs'"
    and "i < length rs"
  shows "i < length rs' \<and> revision_extends (rs ! i) (rs' ! i) \<and>
    (er_outcome (fo_record (rs ! i)) \<noteq> None \<longrightarrow> fo_record (rs' ! i) = fo_record (rs ! i)) \<and>
    (fo_wake_transition (rs ! i) \<noteq> None \<longrightarrow>
       fo_wake_transition (rs' ! i) = fo_wake_transition (rs ! i))"
  using fold_journal_prefix [OF assms(1,2)] assms(3)
  by (auto simp: journal_extends_def revision_extends_def)

lemma journal_history_final_witness:
  "\<exists>f f' g. fold_journal sample_first_half ''e1'' = Inr [f] \<and>
     fold_journal (sample_first_half @ sample_second_half) ''e1'' = Inr [f', g] \<and>
     revision_extends f f'"
proof -
  obtain f where f: "fold_journal sample_first_half ''e1'' = Inr [f]"
    using sample_first_fold by (auto simp: fold_journal_Inr)
  obtain f' g where g: "fold_journal (sample_first_half @ sample_second_half) ''e1'' = Inr [f', g]"
    using sample_second_fold by (auto simp: fold_journal_Inr)
  from journal_history_final [OF f g, of 0] f g show ?thesis by auto
qed

lemma linked_chain:
  assumes "journal_inv eid rs" "i < j" "j < length rs"
  shows "owner_fence (rs ! i) < owner_fence (rs ! j)"
  using assms(2,3)
proof (induction j)
  case (Suc j)
  have step: "owner_fence (rs ! j) < owner_fence (rs ! Suc j)"
    using assms(1) Suc.prems(2) by (simp add: journal_inv_def linked_def)
  show ?case
  proof (cases "i = j")
    case True
    with step show ?thesis by simp
  next
    case False
    with Suc have "owner_fence (rs ! i) < owner_fence (rs ! j)" by simp
    with step show ?thesis by simp
  qed
qed simp

text \<open>
  C37: the fence a worker must present rises strictly from each revision to every later
  one, so no worker of an earlier revision can hold the fence of a later revision.
\<close>

theorem owner_fences_increase:
  assumes "fold_journal evs eid = Inr rs" "i < j" "j < length rs"
  shows "owner_fence (rs ! i) < owner_fence (rs ! j)"
  using fold_journal_inv [OF assms(1)] linked_chain assms(2,3) by blast

theorem owner_fences_increase_witness:
  "\<exists>f g. fold_journal (sample_first_half @ sample_second_half) ''e1'' = Inr [f, g] \<and>
     owner_fence f < owner_fence g"
proof -
  obtain f g where g: "fold_journal (sample_first_half @ sample_second_half) ''e1'' = Inr [f, g]"
    using sample_second_fold by (auto simp: fold_journal_Inr)
  from owner_fences_increase [OF g, of 0 1] g show ?thesis by auto
qed

text \<open>A committed outcome closes its revision to everything but its wake and its successor.\<close>

lemma closed_revision_refuses:
  assumes "rs \<noteq> []" "er_outcome (fo_record (last rs)) = Some v"
    and "fold_event eid rs ev = Inr rs'"
  shows "\<exists>wk ck. vo_outcome v = OutSuspended wk ck"
proof (cases "ev_event ev")
  case (RevisionStarted version previous c)
  with assms obtain u where "validate_revision_transition (fo_record (last rs)) c = Inr u"
    by (auto simp: fold_event.simps fold_revision_started_def fold_simps)
  with validate_revision_transition_OK [of "fo_record (last rs)" c] assms(2) show ?thesis
    by (auto simp: outcome_of_def)
next
  case (WakeDelivered version d n)
  with assms show ?thesis
    by (cases "vo_outcome v")
      (auto simp: fold_event.simps fold_wake_delivered_def fold_simps outcome_of_def)
qed (use assms in \<open>auto simp: fold_event.simps fold_created_def fold_fence_advanced_def
  fold_attempt_started_def fold_attempt_reclaimed_def fold_outcome_committed_def fold_simps\<close>)

text \<open>
  A revision that completed, failed or was cancelled is the end of its journal: no
  event of any kind is accepted after it, so a finished execution is never resumed.
\<close>

lemma terminal_revision_ends_journal:
  assumes "fold_journal evs eid = Inr rs" "er_outcome (fo_record (last rs)) = Some v"
    and "\<nexists>wk ck. vo_outcome v = OutSuspended wk ck"
  shows "fold_journal (evs @ ev # later) eid \<noteq> Inr rs'"
proof
  assume "fold_journal (evs @ ev # later) eid = Inr rs'"
  with assms(1) obtain rs'' where "fold_event eid rs ev = Inr rs''" and "rs \<noteq> []"
    by (auto simp: fold_journal_Inr run_steps_append res_bind_Inr)
  with closed_revision_refuses [OF _ assms(2)] assms(3) show False by blast
qed

definition sample_finished :: "execution_event list" where
  "sample_finished =
     [journal_sample 1 1 3 (Created 1 sample_contract),
      journal_sample 1 2 4 (AttemptStarted 1 ''worker'' 1),
      journal_sample 1 3 5 (OutcomeCommitted 1 (OutCancelled Shutdown) Cancelled)]"

lemma sample_finished_fold:
  "\<exists>f v. fold_journal sample_finished ''e1'' = Inr [f] \<and> er_outcome (fo_record f) = Some v \<and>
     vo_outcome v = OutCancelled Shutdown"
  unfolding sample_finished_def fold_journal_Inr
  by (simp add: fold_eval storable_validated storable_sample)

lemma terminal_revision_ends_journal_witness:
  "\<exists>rs. fold_journal sample_finished ''e1'' = Inr rs \<and>
     fold_journal (sample_finished @ [journal_sample 1 4 6 (AttemptStarted 1 ''worker'' 1)]) ''e1''
       \<noteq> Inr rs"
proof -
  obtain f v where f: "fold_journal sample_finished ''e1'' = Inr [f]"
    "er_outcome (fo_record f) = Some v" "vo_outcome v = OutCancelled Shutdown"
    using sample_finished_fold by blast
  have "fold_journal (sample_finished @ journal_sample 1 4 6 (AttemptStarted 1 ''worker'' 1) # [])
      ''e1'' \<noteq> Inr [f]"
    by (rule terminal_revision_ends_journal [OF f(1)]) (use f in auto)
  with f(1) show ?thesis by blast
qed

text \<open>
  The fold itself does not keep the contract's fence monotone: a fence event is accepted
  while an attempt runs, and a reclaim is compared with the attempt's fence only.
\<close>

definition sample_regression :: "execution_event list" where
  "sample_regression =
     [journal_sample 1 1 3 (Created 1 sample_contract),
      journal_sample 1 2 4 (AttemptStarted 1 ''worker'' 1),
      journal_sample 1 3 5 (FenceAdvanced 1 1 (with_fence 5 sample_contract)),
      journal_sample 1 4 6 (AttemptReclaimed 1 ''worker'' ''u'' 1 (with_fence 3 sample_contract))]"

lemma storable_with_fence:
  "storable sample_contract \<Longrightarrow> sql_positive f \<Longrightarrow> storable (with_fence f sample_contract)"
  by (simp add: storable_def with_fence_def objective_in_scope_def wake_canonical_def)

lemma with_fence_twice [simp]: "with_fence f (with_fence g c) = with_fence f c"
  by (simp add: with_fence_def)

lemma fold_accepts_fence_regression:
  "\<exists>f g. fold_journal (take 3 sample_regression) ''e1'' = Inr [f] \<and>
     fold_journal sample_regression ''e1'' = Inr [g] \<and>
     c_fencing_token (er_contract (fo_record f)) = 5 \<and>
     c_fencing_token (er_contract (fo_record g)) = 3"
  unfolding sample_regression_def fold_journal_Inr
  by (simp add: fold_eval storable_validated storable_sample storable_with_fence sql_positive_def
      i64_max_def)

end
