(* ===== verification/Database.thy ===== *)
theory Database
  imports Journal "HOL-Library.Product_Lexorder"
begin

text \<open>
  The SQLite database of the task runtime (schema in \<open>TaskStore::run_migrations\<close>,
  crates/task-runtime/src/store.rs): a table is the list of its rows in insertion order, a
  JSON column holds the decoded value, so comparing two serialised columns is comparing
  their values. A transaction that fails leaves the database as it was: an operation
  returns the error, or the new database with its result. The journal's storage is here
  too: appending an event, reading a journal back, the projection of its latest revision.
\<close>

section \<open>Tables\<close>

definition update_where :: "('r \<Rightarrow> bool) \<Rightarrow> ('r \<Rightarrow> 'r) \<Rightarrow> 'r list \<Rightarrow> 'r list" where
  "update_where P f t = map (\<lambda>r. if P r then f r else r) t"

definition count_where :: "('r \<Rightarrow> bool) \<Rightarrow> 'r list \<Rightarrow> nat" where
  "count_where P t = length (filter P t)"

definition delete_where :: "('r \<Rightarrow> bool) \<Rightarrow> 'r list \<Rightarrow> 'r list" where
  "delete_where P t = filter (\<lambda>r. \<not> P r) t"

text \<open>\<open>INSERT ... ON CONFLICT(key) DO UPDATE\<close>: \<open>merge old new\<close> is the updated row.\<close>

definition upsert :: "('r \<Rightarrow> 'k) \<Rightarrow> ('r \<Rightarrow> 'r \<Rightarrow> 'r) \<Rightarrow> 'r \<Rightarrow> 'r list \<Rightarrow> 'r list" where
  "upsert key merge r t =
     (if key r \<in> key ` set t then update_where (\<lambda>q. key q = key r) (\<lambda>q. merge q r) t
      else t @ [r])"

definition row_of :: "('r \<Rightarrow> 'k) \<Rightarrow> 'k \<Rightarrow> 'r list \<Rightarrow> 'r option" where
  "row_of key k t = find (\<lambda>r. key r = k) t"

lemma length_update_where [simp]: "length (update_where P f t) = length t"
  by (simp add: update_where_def)

lemma set_delete_where [simp]: "set (delete_where P t) = {r \<in> set t. \<not> P r}"
  by (auto simp: delete_where_def)

lemma update_where_Nil [simp]: "update_where P f [] = []"
  by (simp add: update_where_def)

lemma update_where_Cons [simp]:
  "update_where P f (r # t) = (if P r then f r else r) # update_where P f t"
  by (simp add: update_where_def)

lemma update_where_none: "\<forall>r \<in> set t. \<not> P r \<Longrightarrow> update_where P f t = t"
  by (induction t) auto

lemma find_filter: "find P t = (case filter P t of [] \<Rightarrow> None | r # _ \<Rightarrow> Some r)"
  by (induction t) auto

lemma map_key_update_where:
  "(\<And>r. P r \<Longrightarrow> key (f r) = key r) \<Longrightarrow> map key (update_where P f t) = map key t"
  by (induction t) auto

lemma row_of_Nil [simp]: "row_of key k [] = None"
  by (simp add: row_of_def)

lemma row_of_Cons: "row_of key k (r # t) = (if key r = k then Some r else row_of key k t)"
  by (simp add: row_of_def)

lemma row_of_None: "row_of key k t = None \<longleftrightarrow> k \<notin> key ` set t"
  by (auto simp: row_of_def find_None_iff)

lemma row_of_Some_in: "row_of key k t = Some r \<Longrightarrow> r \<in> set t \<and> key r = k"
  by (auto simp: row_of_def find_Some_iff)

lemma row_of_unique:
  "distinct (map key t) \<Longrightarrow> row_of key k t = Some r \<longleftrightarrow> r \<in> set t \<and> key r = k"
  by (induction t) (auto simp: row_of_Cons image_iff)

lemma row_of_update_where:
  assumes "\<And>r. key (f r) = key r"
  shows "row_of key k (update_where P f t) =
    map_option (\<lambda>r. if P r then f r else r) (row_of key k t)"
  using assms by (induction t) (simp_all add: row_of_Cons)

text \<open>
  A table with a primary key: what is written under a key is what is read under it, no
  other key is disturbed, and the key stays unique.
\<close>

locale keyed_table =
  fixes key :: "'r \<Rightarrow> 'k" and merge :: "'r \<Rightarrow> 'r \<Rightarrow> 'r"
  assumes key_merge: "key old = key new \<Longrightarrow> key (merge old new) = key new"
begin

lemma row_of_upsert_same:
  "row_of key (key r) (upsert key merge r t) =
     Some (case row_of key (key r) t of None \<Rightarrow> r | Some q \<Rightarrow> merge q r)"
proof (cases "key r \<in> key ` set t")
  case True
  have "row_of key (key r) (update_where (\<lambda>q. key q = key r) (\<lambda>q. merge q r) t) =
      map_option (\<lambda>q. merge q r) (row_of key (key r) t)"
    by (induction t) (auto simp: row_of_Cons row_of_None key_merge)
  moreover obtain q where "row_of key (key r) t = Some q"
    using True row_of_None [of key "key r" t] by auto
  ultimately show ?thesis
    using True by (simp add: upsert_def)
next
  case False
  moreover from False have "row_of key (key r) t = None"
    by (simp add: row_of_None)
  moreover from this have "row_of key (key r) (t @ [r]) = Some r"
    by (induction t) (auto simp: row_of_Cons split: if_splits)
  ultimately show ?thesis
    by (simp add: upsert_def)
qed

lemma row_of_upsert_other:
  assumes "k \<noteq> key r"
  shows "row_of key k (upsert key merge r t) = row_of key k t"
proof -
  have "row_of key k (update_where (\<lambda>q. key q = key r) (\<lambda>q. merge q r) t) = row_of key k t"
    using assms by (induction t) (auto simp: row_of_Cons key_merge)
  moreover have "row_of key k (t @ [r]) = row_of key k t"
    using assms by (induction t) (auto simp: row_of_Cons)
  ultimately show ?thesis
    by (simp add: upsert_def)
qed

lemma row_of_upsert:
  "row_of key k (upsert key merge r t) =
     (if k = key r then Some (case row_of key k t of None \<Rightarrow> r | Some q \<Rightarrow> merge q r)
      else row_of key k t)"
  using row_of_upsert_same row_of_upsert_other by simp

lemma map_key_update:
  "map key (update_where (\<lambda>q. key q = key r) (\<lambda>q. merge q r) t) = map key t"
  by (induction t) (simp_all add: key_merge)

lemma map_key_upsert:
  "map key (upsert key merge r t) =
     (if key r \<in> key ` set t then map key t else map key t @ [key r])"
  by (simp add: upsert_def map_key_update)

lemma upsert_distinct: "distinct (map key t) \<Longrightarrow> distinct (map key (upsert key merge r t))"
  by (simp add: map_key_upsert)

lemma keys_upsert: "key ` set (upsert key merge r t) = insert (key r) (key ` set t)"
proof -
  have "set (map key (upsert key merge r t)) = insert (key r) (set (map key t))"
    unfolding map_key_upsert by auto
  then show ?thesis by simp
qed

end

text \<open>
  A table whose rows only evolve: \<open>ext r s\<close> says that row \<open>r\<close> may have become \<open>s\<close>. Updates
  that respect it, and inserts under a fresh key, keep every row under its key.
\<close>

definition table_extends :: "('r \<Rightarrow> 'k) \<Rightarrow> ('r \<Rightarrow> 'r \<Rightarrow> bool) \<Rightarrow> 'r list \<Rightarrow> 'r list \<Rightarrow> bool" where
  "table_extends key ext t t' \<longleftrightarrow>
     (\<forall>k r. row_of key k t = Some r \<longrightarrow> (\<exists>s. row_of key k t' = Some s \<and> ext r s))"

lemma table_extendsD:
  "\<lbrakk>table_extends key ext t t'; row_of key k t = Some r\<rbrakk> \<Longrightarrow>
    \<exists>s. row_of key k t' = Some s \<and> ext r s"
  by (simp add: table_extends_def)

lemma table_extendsE:
  assumes "table_extends key ext t t'" "row_of key k t = Some r"
  obtains s where "row_of key k t' = Some s" "ext r s"
  using table_extendsD [OF assms] by blast

lemma row_of_append_None: "row_of key k t = None \<Longrightarrow> row_of key k (t @ u) = row_of key k u"
  by (induction t) (simp_all add: row_of_Cons split: if_splits)

lemma row_of_append_Some: "row_of key k t = Some r \<Longrightarrow> row_of key k (t @ u) = Some r"
  by (induction t) (auto simp: row_of_Cons split: if_splits)

locale row_history =
  fixes key :: "'r \<Rightarrow> 'k" and ext :: "'r \<Rightarrow> 'r \<Rightarrow> bool"
  assumes row_refl: "ext r r"
    and row_trans: "\<lbrakk>ext r s; ext s u\<rbrakk> \<Longrightarrow> ext r u"
    and row_key: "ext r s \<Longrightarrow> key s = key r"
begin

lemma extends_refl: "table_extends key ext t t"
  by (simp add: table_extends_def row_refl)

lemma extends_trans:
  assumes "table_extends key ext t u" "table_extends key ext u v"
  shows "table_extends key ext t v"
  unfolding table_extends_def
proof (intro allI impI)
  fix k r
  assume "row_of key k t = Some r"
  then obtain s where s: "row_of key k u = Some s" "ext r s"
    using table_extendsD [OF assms(1)] by blast
  then obtain w where "row_of key k v = Some w" "ext s w"
    using table_extendsD [OF assms(2)] by blast
  with s(2) show "\<exists>w. row_of key k v = Some w \<and> ext r w"
    using row_trans by blast
qed

lemma extends_append: "table_extends key ext t (t @ u)"
  using row_refl row_of_append_Some by (fastforce simp: table_extends_def)

lemma update_row:
  assumes "\<And>r. P r \<Longrightarrow> ext r (f r)"
  shows "row_of key k (update_where P f t) =
    map_option (\<lambda>r. if P r then f r else r) (row_of key k t)"
proof -
  have "key (f r) = key r" if "P r" for r
    using assms [OF that] by (rule row_key)
  then show ?thesis
    by (induction t) (simp_all add: row_of_Cons)
qed

lemma update_keys:
  assumes "\<And>r. P r \<Longrightarrow> ext r (f r)"
  shows "map key (update_where P f t) = map key t"
  by (rule map_key_update_where) (rule row_key [OF assms])

lemma extends_update:
  assumes "\<And>r. P r \<Longrightarrow> ext r (f r)"
  shows "table_extends key ext t (update_where P f t)"
  using assms row_refl by (auto simp: table_extends_def update_row)

end

section \<open>Rows\<close>

record event_row =
  rw_kind :: string
  rw_event :: execution_event

record execution_row =
  xr_execution_id :: string
  xr_parent_execution_id :: "string option"
  xr_kind :: string
  xr_revision :: u64
  xr_fencing_token :: u64
  xr_state :: string
  xr_user_id :: string
  xr_workspace_id :: string
  xr_thread_id :: "string option"
  xr_contract :: execution_contract
  xr_outcome :: "execution_outcome option"
  xr_outcome_committed_at :: "int option"
  xr_created_at :: int
  xr_updated_at :: int

datatype wake_status = WkPending | WkDelivered

record wake_row =
  wk_execution_id :: string
  wk_revision :: u64
  wk_dedup_key :: string
  wk_condition :: wake_condition
  wk_status :: wake_status
  wk_delivery :: "wake_delivery option"
  wk_created_at :: int
  wk_delivered_at :: "int option"

record effect_receipt =
  rc_receipt_ref :: effect_receipt_ref
  rc_execution_id :: string
  rc_revision :: u64
  rc_idempotency_key :: string
  rc_run_id :: "string option"
  rc_thread_id :: "string option"
  rc_user_id :: string
  rc_workspace_id :: string
  rc_effect_class :: effect_class
  rc_operation :: string
  rc_arguments_hash :: string
  rc_status :: effect_receipt_status
  rc_result_json :: "json option"
  rc_effects_json :: "json option"
  rc_error_json :: "json option"
  rc_compensation :: "json option"
  rc_prepared_at :: int
  rc_started_at :: "int option"
  rc_resolved_at :: "int option"

record compensation_row =
  cp_receipt_ref :: effect_receipt_ref
  cp_execution_id :: string
  cp_compensated_at :: int

datatype projection_status = PPending | PClaimed | PBlocked | PCompleted

record outbox_row =
  px_projection_ref :: string
  px_execution_id :: string
  px_revision :: u64
  px_projection_kind :: string
  px_status :: projection_status
  px_attempt_count :: nat
  px_claim_owner :: "string option"
  px_claim_generation :: "u64 option"
  px_claim_token :: nat
  px_claimed_at :: "int option"
  px_not_before :: "int option"
  px_blocked_on_ref :: "effect_receipt_ref option"
  px_last_error_code :: "string option"
  px_last_error_detail :: "string option"
  px_created_at :: int
  px_updated_at :: int
  px_completed_at :: "int option"

record task_row =
  tk_task_id :: string
  tk_user_id :: string
  tk_workspace_id :: string
  tk_kind :: string
  tk_status :: string
  tk_created_at :: int
  tk_updated_at :: int
  tk_blocked_reason :: "string option"
  tk_thread_id :: "string option"
  tk_json :: task_record

record db =
  db_events :: "event_row list"
  db_next_event_id :: nat
  db_executions :: "execution_row list"
  db_wakes :: "wake_row list"
  db_receipts :: "effect_receipt list"
  db_compensations :: "compensation_row list"
  db_outbox :: "outbox_row list"
  db_tasks :: "task_row list"

type_synonym 'a tx = "(db \<times> 'a) task_result"

definition empty_db :: db where
  "empty_db = \<lparr>db_events = [], db_next_event_id = 1, db_executions = [], db_wakes = [],
     db_receipts = [], db_compensations = [], db_outbox = [], db_tasks = []\<rparr>"

section \<open>Storing and reading a journal\<close>

definition event_key :: "event_row \<Rightarrow> nat \<times> nat \<times> nat" where
  "event_key r = (unat (ev_revision (rw_event r)), ev_seq (rw_event r), ev_event_id (rw_event r))"

text \<open>\<open>... WHERE execution_id = ? ORDER BY revision, seq, event_id\<close>.\<close>

definition journal_rows :: "db \<Rightarrow> string \<Rightarrow> event_row list" where
  "journal_rows d eid =
     sort_key event_key (filter (\<lambda>r. ev_execution_id (rw_event r) = eid) (db_events d))"

fun check_rows ::
  "string \<Rightarrow> u64 option \<Rightarrow> nat \<Rightarrow> event_row list \<Rightarrow> execution_event list task_result" where
  "check_rows eid previous_revision expected_seq [] = Inr []"
| "check_rows eid previous_revision expected_seq (r # rows) =
     (let ev = rw_event r;
          expected = (if previous_revision = Some (ev_revision ev) then expected_seq else 1) in
      if ev_execution_id ev \<noteq> eid \<or> ev_seq ev \<noteq> expected
        then Inl (Store ''execution journal ownership or sequence is invalid'')
      else if i64_max \<le> expected
        then Inl (Store ''execution event sequence exhausted'')
      else if rw_kind r \<noteq> journal_event_kind (ev_event ev)
        then Inl (Store ''execution journal kind does not match its typed payload'')
      else res_bind (check_rows eid (Some (ev_revision ev)) (Suc expected) rows)
        (\<lambda>evs. Inr (ev # evs)))"

definition read_journal_events :: "db \<Rightarrow> string \<Rightarrow> execution_event list task_result" where
  "read_journal_events d eid = check_rows eid None 1 (journal_rows d eid)"

definition load_validated_journal ::
  "db \<Rightarrow> string \<Rightarrow> (execution_event list \<times> folded_journal) option task_result" where
  "load_validated_journal d eid =
     res_bind (read_journal_events d eid) (\<lambda>evs.
     if evs = [] then Inr None
     else res_bind (fold_journal evs eid) (\<lambda>rs. Inr (Some (evs, rs))))"

definition max_seq :: "db \<Rightarrow> string \<Rightarrow> u64 \<Rightarrow> nat" where
  "max_seq d eid rvn =
     foldr max (map (\<lambda>r. ev_seq (rw_event r))
       (filter (\<lambda>r. ev_execution_id (rw_event r) = eid \<and> ev_revision (rw_event r) = rvn)
         (db_events d))) 0"

definition append_journal_event ::
  "db \<Rightarrow> string \<Rightarrow> u64 \<Rightarrow> journal_event \<Rightarrow> int \<Rightarrow> db task_result" where
  "append_journal_event d eid rvn e created_at =
     (let current = max_seq d eid rvn in
      if i64_max \<le> current then Inl (Store ''execution event sequence exhausted'')
      else Inr (d\<lparr>db_events := db_events d @
            [\<lparr>rw_kind = journal_event_kind e,
              rw_event = \<lparr>ev_event_id = db_next_event_id d, ev_execution_id = eid,
                ev_revision = rvn, ev_seq = Suc current, ev_event = e,
                ev_created_at = created_at\<rparr>\<rparr>],
          db_next_event_id := Suc (db_next_event_id d)\<rparr>))"

section \<open>The projection of an execution\<close>

definition sqlite_integer_from_store :: "u64 \<Rightarrow> string \<Rightarrow> unit task_result" where
  "sqlite_integer_from_store w field =
     (if fits_i64 w then Inr () else Inl (Store (''stored '' @ field @ '' exceeds SQLite range'')))"

definition projection_row :: "folded_execution \<Rightarrow> execution_row" where
  "projection_row f =
     (let record = fo_record f; raw = er_contract record in
      \<lparr>xr_execution_id = c_execution_id raw,
       xr_parent_execution_id = c_parent_execution_id raw,
       xr_kind = c_kind raw, xr_revision = c_revision raw,
       xr_fencing_token = c_fencing_token raw, xr_state = state_name (er_state record),
       xr_user_id = sc_user_id (c_scope raw), xr_workspace_id = sc_workspace_id (c_scope raw),
       xr_thread_id = sc_thread_id (c_scope raw), xr_contract = raw,
       xr_outcome = outcome_of record, xr_outcome_committed_at = fo_outcome_committed_at f,
       xr_created_at = er_created_at record, xr_updated_at = er_updated_at record\<rparr>)"

definition write_projection :: "db \<Rightarrow> folded_execution \<Rightarrow> db task_result" where
  "write_projection d f =
     res_bind (sqlite_integer_from_store (c_revision (er_contract (fo_record f)))
       ''contract revision'') (\<lambda>_.
     res_bind (sqlite_integer_from_store (c_fencing_token (er_contract (fo_record f)))
       ''contract fencing token'') (\<lambda>_.
     Inr (d\<lparr>db_executions :=
       upsert xr_execution_id (\<lambda>old new. new) (projection_row f) (db_executions d)\<rparr>)))"

interpretation executions: keyed_table xr_execution_id "\<lambda>old new. new"
  by unfold_locales simp

definition execution_row_of :: "db \<Rightarrow> string \<Rightarrow> execution_row option" where
  "execution_row_of d eid = row_of xr_execution_id eid (db_executions d)"

definition projection_exists :: "db \<Rightarrow> string \<Rightarrow> bool" where
  "projection_exists d eid \<longleftrightarrow> execution_row_of d eid \<noteq> None"

definition load_projection :: "db \<Rightarrow> string \<Rightarrow> execution_record option task_result" where
  "load_projection d eid =
     (case execution_row_of d eid of
        None \<Rightarrow> Inr None
      | Some row \<Rightarrow>
          res_bind (map_err (\<lambda>_. Store ''stored execution contract is invalid'')
            (validated_contract (xr_contract row))) (\<lambda>raw.
          res_bind (sqlite_integer_from_store (c_revision raw) ''contract revision'') (\<lambda>_.
          res_bind (sqlite_integer_from_store (c_fencing_token raw)
            ''contract fencing token'') (\<lambda>_.
          if c_execution_id raw \<noteq> xr_execution_id row \<or>
              c_parent_execution_id raw \<noteq> xr_parent_execution_id row \<or>
              c_kind raw \<noteq> xr_kind row \<or> c_revision raw \<noteq> xr_revision row \<or>
              c_fencing_token raw \<noteq> xr_fencing_token row \<or>
              sc_user_id (c_scope raw) \<noteq> xr_user_id row \<or>
              sc_workspace_id (c_scope raw) \<noteq> xr_workspace_id row \<or>
              sc_thread_id (c_scope raw) \<noteq> xr_thread_id row
            then Inl (Store ''stored execution projection does not match contract JSON'')
          else res_bind (ok_or (Store (''unknown stored execution state: '' @ xr_state row))
              (parse_state (xr_state row))) (\<lambda>state.
            if (xr_outcome row \<noteq> None) \<noteq> (xr_outcome_committed_at row \<noteq> None)
              then Inl (Store ''stored execution outcome timestamp is inconsistent'')
            else (case xr_outcome row of
                None \<Rightarrow>
                  if state \<noteq> Ready \<and> state \<noteq> Running
                    then Inl (Store ''stored terminal execution state has no outcome'')
                  else Inr (Some \<lparr>er_contract = raw, er_state = state, er_outcome = None,
                    er_created_at = xr_created_at row, er_updated_at = xr_updated_at row\<rparr>)
              | Some out \<Rightarrow>
                  res_bind (map_err (\<lambda>_. Store ''stored execution outcome is invalid'')
                    (new_validated_outcome out raw)) (\<lambda>v.
                  if state_for_outcome out \<noteq> state
                    then Inl (Store ''stored execution state does not match its outcome'')
                  else Inr (Some \<lparr>er_contract = raw, er_state = state, er_outcome = Some v,
                    er_created_at = xr_created_at row,
                    er_updated_at = xr_updated_at row\<rparr>))))))))"

definition projection_matches_folded :: "db \<Rightarrow> string \<Rightarrow> execution_record \<Rightarrow> folded_execution \<Rightarrow> bool" where
  "projection_matches_folded d eid r f \<longleftrightarrow>
     r = fo_record f \<and>
     (case execution_row_of d eid of
        Some row \<Rightarrow> xr_outcome_committed_at row = fo_outcome_committed_at f
      | None \<Rightarrow> False)"

section \<open>Reading back what was appended\<close>

lemma insort_key_snoc: "f y \<le> f x \<Longrightarrow> insort_key f y (zs @ [x]) = insort_key f y zs @ [x]"
  by (induction zs) auto

lemma sort_key_snoc: "\<forall>y \<in> set xs. f y \<le> f x \<Longrightarrow> sort_key f (xs @ [x]) = sort_key f xs @ [x]"
  by (induction xs) (simp_all add: insort_key_snoc)

lemma check_rows_events:
  "check_rows eid p n rows = Inr evs \<Longrightarrow> evs = map rw_event rows"
  by (induction rows arbitrary: p n evs)
    (auto simp: Let_def res_bind_Inr if_Inl_Inr simp del: if_Inl_Inl split del: if_split)

lemma journal_rows_owner: "r \<in> set (journal_rows d eid) \<Longrightarrow> ev_execution_id (rw_event r) = eid"
  by (simp add: journal_rows_def)

lemma read_journal_events_rows:
  "read_journal_events d eid = Inr evs \<Longrightarrow> evs = map rw_event (journal_rows d eid)"
  unfolding read_journal_events_def by (rule check_rows_events)

text \<open>A row that is read is the row that was written for its event.\<close>

definition written_row :: "execution_event \<Rightarrow> event_row" where
  "written_row ev = \<lparr>rw_kind = journal_event_kind (ev_event ev), rw_event = ev\<rparr>"

lemma check_rows_written: "check_rows eid prev n rows = Inr evs \<Longrightarrow> rows = map written_row evs"
  by (induction rows arbitrary: prev n evs)
    (auto simp: Let_def res_bind_Inr if_Inl_Inr written_row_def simp del: if_Inl_Inl split del: if_split)

lemma read_journal_rows_written: "read_journal_events d eid = Inr evs \<Longrightarrow> journal_rows d eid = map written_row evs"
  unfolding read_journal_events_def by (rule check_rows_written)

text \<open>The journal of an execution that loads, \<open>[]\<close> where the code's \<open>Option\<close> is \<open>None\<close>.\<close>

definition loaded :: "db \<Rightarrow> string \<Rightarrow> execution_event list \<Rightarrow> folded_journal \<Rightarrow> bool" where
  "loaded d eid evs rs \<longleftrightarrow>
     read_journal_events d eid = Inr evs \<and> run_steps (fold_event eid) [] evs = Inr rs"

lemma loaded_empty_iff: "loaded d eid evs rs \<Longrightarrow> rs = [] \<longleftrightarrow> evs = []"
  using run_nonempty by (auto simp: loaded_def)

lemma loaded_inv: "loaded d eid evs rs \<Longrightarrow> journal_inv eid rs"
  using jl.run_inv [OF journal_inv_Nil] by (auto simp: loaded_def)

lemma loaded_unique: "\<lbrakk>loaded d eid evs rs; loaded d eid evs' rs'\<rbrakk> \<Longrightarrow> evs' = evs \<and> rs' = rs"
  by (simp add: loaded_def)

lemma load_None: "load_validated_journal d eid = Inr None \<longleftrightarrow> loaded d eid [] []"
  by (auto simp: load_validated_journal_def loaded_def res_bind_Inr split: if_splits)

lemma load_Some:
  "load_validated_journal d eid = Inr (Some (evs, rs)) \<longleftrightarrow> loaded d eid evs rs \<and> rs \<noteq> []"
proof -
  have "load_validated_journal d eid = Inr (Some (evs, rs)) \<longleftrightarrow>
      read_journal_events d eid = Inr evs \<and> evs \<noteq> [] \<and> fold_journal evs eid = Inr rs"
    by (auto simp: load_validated_journal_def res_bind_Inr split: if_splits)
  then show ?thesis
    using run_nonempty by (auto simp: loaded_def fold_journal_Inr)
qed

lemma loaded_revisions:
  assumes "loaded d eid evs rs" "r \<in> set (journal_rows d eid)"
  shows "unat (ev_revision (rw_event r)) \<le> length rs"
proof -
  have "rw_event r \<in> set evs"
    using assms read_journal_events_rows by (fastforce simp: loaded_def)
  then show ?thesis
    using run_revisions_bounded [OF journal_inv_Nil] assms(1) by (auto simp: loaded_def)
qed

lemma foldr_max_upper: "(x :: nat) \<in> set xs \<Longrightarrow> x \<le> foldr max xs 0"
  by (induction xs) auto

lemma foldr_max_le: "foldr max xs 0 \<le> b \<longleftrightarrow> (\<forall>x \<in> set xs. (x :: nat) \<le> b)"
  by (induction xs) auto

lemma max_seq_upper:
  "\<lbrakk>r \<in> set (db_events d); ev_execution_id (rw_event r) = eid; ev_revision (rw_event r) = rvn\<rbrakk>
    \<Longrightarrow> ev_seq (rw_event r) \<le> max_seq d eid rvn"
  unfolding max_seq_def by (rule foldr_max_upper) auto

lemma append_Inr:
  "append_journal_event d eid rvn e now = Inr d' \<longleftrightarrow>
     max_seq d eid rvn < i64_max \<and>
     d' = d\<lparr>db_events := db_events d @
         [\<lparr>rw_kind = journal_event_kind e,
           rw_event = \<lparr>ev_event_id = db_next_event_id d, ev_execution_id = eid,
             ev_revision = rvn, ev_seq = Suc (max_seq d eid rvn), ev_event = e,
             ev_created_at = now\<rparr>\<rparr>],
       db_next_event_id := Suc (db_next_event_id d)\<rparr>"
  by (auto simp: append_journal_event_def Let_def if_Inl_Inr)

lemma journal_rows_append_other:
  "append_journal_event d eid rvn e now = Inr d' \<Longrightarrow> eid' \<noteq> eid \<Longrightarrow>
    journal_rows d' eid' = journal_rows d eid'"
  by (simp add: append_Inr journal_rows_def)

lemma journal_rows_append:
  assumes "append_journal_event d eid rvn e now = Inr d'"
    and below: "\<forall>r \<in> set (journal_rows d eid). unat (ev_revision (rw_event r)) \<le> unat rvn"
  shows "journal_rows d' eid = journal_rows d eid @
     [\<lparr>rw_kind = journal_event_kind e,
       rw_event = \<lparr>ev_event_id = db_next_event_id d, ev_execution_id = eid, ev_revision = rvn,
         ev_seq = Suc (max_seq d eid rvn), ev_event = e, ev_created_at = now\<rparr>\<rparr>]"
proof -
  let ?r = "\<lparr>rw_kind = journal_event_kind e,
       rw_event = \<lparr>ev_event_id = db_next_event_id d, ev_execution_id = eid, ev_revision = rvn,
         ev_seq = Suc (max_seq d eid rvn), ev_event = e, ev_created_at = now\<rparr>\<rparr>"
  let ?t = "filter (\<lambda>r. ev_execution_id (rw_event r) = eid) (db_events d)"
  have "event_key y \<le> event_key ?r" if y: "y \<in> set ?t" for y
  proof -
    from y below have le: "unat (ev_revision (rw_event y)) \<le> unat rvn"
      by (simp add: journal_rows_def)
    show ?thesis
    proof (cases "ev_revision (rw_event y) = rvn")
      case True
      then have "ev_seq (rw_event y) \<le> max_seq d eid rvn"
        using y by (intro max_seq_upper) auto
      with True show ?thesis by (simp add: event_key_def less_eq_prod_def)
    next
      case False
      then have "unat (ev_revision (rw_event y)) \<noteq> unat rvn"
        using word_unat_eq_iff by blast
      with le show ?thesis by (simp add: event_key_def less_eq_prod_def)
    qed
  qed
  then have "sort_key event_key (?t @ [?r]) = sort_key event_key ?t @ [?r]"
    by (intro sort_key_snoc) blast
  moreover have "filter (\<lambda>r. ev_execution_id (rw_event r) = eid) (db_events d') = ?t @ [?r]"
    using assms(1) by (simp add: append_Inr)
  ultimately show ?thesis
    by (simp add: journal_rows_def)
qed

text \<open>
  Appending an event to a journal that loads: if the longer journal loads, it is the old one
  with this event folded in.
\<close>

lemma append_loaded:
  assumes old: "loaded d eid evs rs" and ap: "append_journal_event d eid rvn e now = Inr d'"
    and rev: "length rs \<le> unat rvn" and new: "loaded d' eid evs' rs'"
  shows "\<exists>ev. evs' = evs @ [ev] \<and> fold_event eid rs ev = Inr rs' \<and> ev_event ev = e \<and>
    ev_revision ev = rvn \<and> ev_created_at ev = now \<and> ev_execution_id ev = eid"
proof -
  have "\<forall>r \<in> set (journal_rows d eid). unat (ev_revision (rw_event r)) \<le> unat rvn"
    using loaded_revisions [OF old] rev order_trans by blast
  note rows = journal_rows_append [OF ap this]
  let ?ev = "\<lparr>ev_event_id = db_next_event_id d, ev_execution_id = eid, ev_revision = rvn,
      ev_seq = Suc (max_seq d eid rvn), ev_event = e, ev_created_at = now\<rparr>"
  have evs': "evs' = evs @ [?ev]"
    using new old rows by (auto simp: loaded_def dest!: read_journal_events_rows)
  have "run_steps (fold_event eid) rs [?ev] = Inr rs'"
    using new old unfolding loaded_def evs' by (simp add: run_steps_append)
  then have "fold_event eid rs ?ev = Inr rs'"
    by (simp add: res_bind_Inr)
  with evs' show ?thesis by auto
qed

lemma loaded_append_other:
  "append_journal_event d eid rvn e now = Inr d' \<Longrightarrow> eid' \<noteq> eid \<Longrightarrow>
    loaded d' eid' evs rs = loaded d eid' evs rs"
  by (simp add: loaded_def read_journal_events_def journal_rows_append_other)

text \<open>The stored sequence numbers leave no gap, so the appended event is read back.\<close>

fun after_rows :: "u64 option \<Rightarrow> nat \<Rightarrow> event_row list \<Rightarrow> u64 option \<times> nat" where
  "after_rows p n [] = (p, n)"
| "after_rows p n (r # rows) =
     after_rows (Some (ev_revision (rw_event r))) (Suc (ev_seq (rw_event r))) rows"

lemma after_rows_last:
  "rows \<noteq> [] \<Longrightarrow> after_rows p n rows =
     (Some (ev_revision (rw_event (last rows))), Suc (ev_seq (rw_event (last rows))))"
  by (induction rows arbitrary: p n) (case_tac rows, simp_all)

lemma check_rows_snoc:
  assumes "check_rows eid p n rows = Inr evs"
    and "after_rows p n rows = (p', n')" and "check_rows eid p' n' [r] = Inr [rw_event r]"
  shows "check_rows eid p n (rows @ [r]) = Inr (evs @ [rw_event r])"
  using assms
proof (induction rows arbitrary: p n evs)
  case Nil
  then show ?case by simp
next
  case (Cons q rows)
  from Cons.prems(1) obtain es where es: "evs = rw_event q # es"
    and q: "ev_execution_id (rw_event q) = eid" "rw_kind q = journal_event_kind (ev_event (rw_event q))"
      "\<not> i64_max \<le> ev_seq (rw_event q)"
      "ev_seq (rw_event q) = (if p = Some (ev_revision (rw_event q)) then n else 1)"
    and rest: "check_rows eid (Some (ev_revision (rw_event q))) (Suc (ev_seq (rw_event q))) rows = Inr es"
    by (auto simp: Let_def res_bind_Inr if_Inl_Inr simp del: if_Inl_Inl split del: if_split)
  from Cons.prems(2) have "after_rows (Some (ev_revision (rw_event q))) (Suc (ev_seq (rw_event q))) rows = (p', n')"
    by simp
  from Cons.IH [OF rest this Cons.prems(3)] q show ?case
    by (simp add: es Let_def)
qed

lemma key_le_last:
  assumes "sorted (map f xs)" "x \<in> set xs"
  shows "f x \<le> f (last xs)"
proof -
  have "xs = butlast xs @ [last xs]"
    using assms(2) by (metis append_butlast_last_id list.set(1) empty_iff)
  then have "sorted (map f (butlast xs) @ [f (last xs)])" "x \<in> set (butlast xs @ [last xs])"
    using assms by (metis map_append list.simps(8,9))+
  then show ?thesis
    by (auto simp: sorted_append)
qed

lemma max_seq_last:
  assumes "loaded d eid evs rs" "length rs \<le> unat rvn"
  shows "max_seq d eid rvn =
    (if journal_rows d eid \<noteq> [] \<and> ev_revision (rw_event (last (journal_rows d eid))) = rvn
     then ev_seq (rw_event (last (journal_rows d eid))) else 0)"
proof -
  let ?rows = "journal_rows d eid"
  have in_rows: "r \<in> set ?rows" if "r \<in> set (db_events d)" "ev_execution_id (rw_event r) = eid" for r
    using that by (simp add: journal_rows_def)
  have le: "event_key r \<le> event_key (last ?rows)" if "r \<in> set ?rows" for r
    using that by (intro key_le_last) (simp_all add: journal_rows_def)
  have last_le: "unat (ev_revision (rw_event (last ?rows))) \<le> unat rvn" if "?rows \<noteq> []"
    using loaded_revisions [OF assms(1)] that assms(2) order_trans last_in_set by blast
  show ?thesis
  proof (cases "?rows \<noteq> [] \<and> ev_revision (rw_event (last ?rows)) = rvn")
    case True
    have "ev_seq (rw_event r) \<le> ev_seq (rw_event (last ?rows))"
      if "r \<in> set (db_events d)" "ev_execution_id (rw_event r) = eid"
        "ev_revision (rw_event r) = rvn" for r
      using le [OF in_rows [OF that(1,2)]] that(3) True
      by (auto simp: event_key_def less_eq_prod_def)
    then have "max_seq d eid rvn \<le> ev_seq (rw_event (last ?rows))"
      by (auto simp: max_seq_def foldr_max_le)
    moreover have "last ?rows \<in> set (db_events d)" "ev_execution_id (rw_event (last ?rows)) = eid"
      using True last_in_set [of ?rows] by (simp_all add: journal_rows_def)
    then have "ev_seq (rw_event (last ?rows)) \<le> max_seq d eid rvn"
      using True by (intro max_seq_upper) simp_all
    ultimately show ?thesis
      using True by simp
  next
    case False
    have "filter (\<lambda>r. ev_execution_id (rw_event r) = eid \<and> ev_revision (rw_event r) = rvn)
        (db_events d) = []"
    proof (rule ccontr)
      assume "filter (\<lambda>r. ev_execution_id (rw_event r) = eid \<and> ev_revision (rw_event r) = rvn)
        (db_events d) \<noteq> []"
      then obtain r where r: "r \<in> set (db_events d)" "ev_execution_id (rw_event r) = eid"
          "ev_revision (rw_event r) = rvn"
        by (auto simp: filter_empty_conv)
      have "?rows \<noteq> []"
        using in_rows [OF r(1,2)] by force
      with last_le le [OF in_rows [OF r(1,2)]] r(3)
      have "unat (ev_revision (rw_event (last ?rows))) = unat rvn"
        by (auto simp: event_key_def less_eq_prod_def)
      with False \<open>?rows \<noteq> []\<close> show False
        by (simp add: word_unat_eq_iff)
    qed
    with False show ?thesis
      unfolding max_seq_def by (simp only: list.map foldr.simps id_apply if_False)
  qed
qed

lemma append_reads:
  assumes old: "loaded d eid evs rs" and rev: "length rs \<le> unat rvn"
    and room: "Suc (max_seq d eid rvn) < i64_max"
  obtains d' where "append_journal_event d eid rvn e now = Inr d'"
    and "read_journal_events d' eid = Inr (evs @
      [\<lparr>ev_event_id = db_next_event_id d, ev_execution_id = eid, ev_revision = rvn,
        ev_seq = Suc (max_seq d eid rvn), ev_event = e, ev_created_at = now\<rparr>])"
proof -
  let ?ev = "\<lparr>ev_event_id = db_next_event_id d, ev_execution_id = eid, ev_revision = rvn,
      ev_seq = Suc (max_seq d eid rvn), ev_event = e, ev_created_at = now\<rparr>"
  let ?r = "\<lparr>rw_kind = journal_event_kind e, rw_event = ?ev\<rparr>"
  let ?rows = "journal_rows d eid"
  obtain d' where d': "append_journal_event d eid rvn e now = Inr d'"
    using room by (auto simp: append_Inr)
  have "\<forall>r \<in> set ?rows. unat (ev_revision (rw_event r)) \<le> unat rvn"
    using loaded_revisions [OF old] rev order_trans by blast
  then have rows: "journal_rows d' eid = ?rows @ [?r]"
    using journal_rows_append [OF d'] by blast
  have "check_rows eid None 1 ?rows = Inr evs"
    using old by (simp add: loaded_def read_journal_events_def)
  moreover obtain p n where pn: "after_rows None 1 ?rows = (p, n)"
    by fastforce
  moreover have "check_rows eid p n [?r] = Inr [?ev]"
  proof -
    have "(if p = Some rvn then n else 1) = Suc (max_seq d eid rvn)"
      using pn max_seq_last [OF old rev] after_rows_last [of ?rows None 1]
      by (cases "?rows = []") auto
    then show ?thesis
      using room by (simp add: Let_def)
  qed
  ultimately have "check_rows eid None 1 (?rows @ [?r]) = Inr (evs @ [?ev])"
    using check_rows_snoc [of eid None 1 ?rows evs p n ?r] by simp
  with that d' rows show thesis
    by (simp add: read_journal_events_def)
qed

section \<open>The projection reads back as written\<close>

lemma execution_row_write:
  assumes "write_projection d f = Inr d'"
  shows "execution_row_of d' eid =
    (if eid = c_execution_id (er_contract (fo_record f)) then Some (projection_row f)
     else execution_row_of d eid)"
  using assms executions.row_of_upsert [of eid "projection_row f" "db_executions d"]
  by (auto simp: write_projection_def res_bind_Inr execution_row_of_def projection_row_def Let_def
      split: option.splits)

lemma load_projection_row:
  assumes "execution_row_of d eid = Some (projection_row f)" "revision_ok eid n f"
  shows "load_projection d eid = Inr (Some (fo_record f))"
proof -
  note ok = assms(2) [unfolded revision_ok_def]
  have fits: "fits_i64 (c_revision (er_contract (fo_record f)))"
      "fits_i64 (c_fencing_token (er_contract (fo_record f)))"
    using ok storable_revision storable_fence by blast+
  have v: "validated_contract (er_contract (fo_record f)) = Inr (er_contract (fo_record f))"
    using ok by (simp add: validated_contract_Inr)
  show ?thesis
  proof (cases "er_outcome (fo_record f)")
    case None
    with ok have "fo_outcome_committed_at f = None"
        "er_state (fo_record f) = Ready \<or> er_state (fo_record f) = Running"
      by (auto simp: state_agrees_def)
    with None fits v show ?thesis
      by (auto simp: load_projection_def assms(1) projection_row_def Let_def outcome_of_def
          sqlite_integer_from_store_def state.parse_as_str)
  next
    case (Some out)
    with ok fits v show ?thesis
      by (simp add: load_projection_def assms(1) projection_row_def Let_def outcome_of_def
          sqlite_integer_from_store_def state.parse_as_str state_agrees_def)
  qed
qed

text \<open>
  A projection that was written for an accepted revision is read back as exactly that
  revision's record: every denormalised column agrees with the contract, the state token
  parses, and the outcome validates against the contract again.
\<close>

lemma projection_reads_back:
  assumes "fold_journal evs eid = Inr rs" "write_projection d (last rs) = Inr d'"
  shows "load_projection d' eid = Inr (Some (fo_record (last rs)))"
proof -
  have ok: "revision_ok eid (length rs) (last rs)"
    using fold_journal_inv [OF assms(1)] journal_inv_last by blast
  then have "execution_row_of d' eid = Some (projection_row (last rs))"
    using execution_row_write [OF assms(2)] by (simp add: revision_ok_def)
  with ok show ?thesis
    by (rule load_projection_row [rotated])
qed

lemma projection_reads_back_witness:
  "\<exists>rs d. fold_journal sample_first_half ''e1'' = Inr rs \<and>
     write_projection empty_db (last rs) = Inr d \<and>
     load_projection d ''e1'' = Inr (Some (fo_record (last rs)))"
proof -
  obtain f where f: "fold_journal sample_first_half ''e1'' = Inr [f]"
    "er_contract (fo_record f) = sample_contract"
    using sample_first_fold by (auto simp: fold_journal_Inr)
  then obtain d where d: "write_projection empty_db (last [f]) = Inr d"
    by (auto simp: write_projection_def sqlite_integer_from_store_def fits_i64_def i64_max_def)
  from projection_reads_back [OF f(1) d] f(1) d show ?thesis by blast
qed

end
