(* ===== verification/Outbox.thy ===== *)
theory Outbox
  imports Database
begin

text \<open>
  The projection outbox, crates/task-runtime/src/projection_outbox.rs: one row per committed
  revision of a projected execution, claimed by a projector under a token, then completed,
  rescheduled or blocked on an effect receipt. Rows are the \<open>outbox_row\<close>s of the database;
  the \<open>CHECK\<close> constraint on a row's status is \<open>row_shape\<close>.
\<close>

section \<open>Operations\<close>

definition CHAT_LIFECYCLE_PROJECTION :: string where
  "CHAT_LIFECYCLE_PROJECTION = ''chat_lifecycle''"

definition PROJECTION_CLAIM_STALE_AFTER_SECONDS :: int where
  "PROJECTION_CLAIM_STALE_AFTER_SECONDS = 120"

fun projection_status_parse :: "string \<Rightarrow> projection_status task_result" where
  "projection_status_parse s =
     (if s = ''pending'' then Inr PPending
      else if s = ''claimed'' then Inr PClaimed
      else if s = ''blocked'' then Inr PBlocked
      else if s = ''completed'' then Inr PCompleted
      else Inl (Store (''unknown projection outbox status: '' @ s)))"

record projection_error_evidence =
  pe_code :: string
  pe_redacted_detail :: string

record projection_claim =
  pc_record :: outbox_row
  pc_owner :: string
  pc_generation :: u64
  pc_token :: nat

definition projection_ref :: "string \<Rightarrow> u64 \<Rightarrow> string \<Rightarrow> string" where
  "projection_ref eid rvn knd = eid @ '':'' @ show_u64 rvn @ '':'' @ knd"

definition projector_kind :: "string \<Rightarrow> string option" where
  "projector_kind execution_kind =
     (if execution_kind = ''chat_turn'' \<or> execution_kind = ''proactive_prompt''
      then Some CHAT_LIFECYCLE_PROJECTION else None)"

definition sqlite_u64 :: "u64 \<Rightarrow> string \<Rightarrow> unit task_result" where
  "sqlite_u64 w field =
     (if fits_i64 w then Inr () else Inl (Store (field @ '' exceeds SQLite integer range'')))"

definition positive_sqlite_u64 :: "u64 \<Rightarrow> string \<Rightarrow> unit task_result" where
  "positive_sqlite_u64 w field =
     (if w = 0 then Inl (Store (field @ '' must be positive'')) else sqlite_u64 w field)"

text \<open>The same check on a claim token, a row counter kept as a natural number.\<close>

definition positive_token :: "nat \<Rightarrow> string \<Rightarrow> unit task_result" where
  "positive_token n field =
     (if n = 0 then Inl (Store (field @ '' must be positive''))
      else if i64_max < n then Inl (Store (field @ '' exceeds SQLite integer range''))
      else Inr ())"

definition required_text :: "string \<Rightarrow> string \<Rightarrow> string task_result" where
  "required_text s field =
     (let v = trim s in
      if v = [] then Inl (Store (field @ '' cannot be empty'')) else Inr v)"

definition pending_row :: "string \<Rightarrow> execution_contract \<Rightarrow> string \<Rightarrow> int \<Rightarrow> outbox_row" where
  "pending_row ref c knd committed_at =
     \<lparr>px_projection_ref = ref, px_execution_id = c_execution_id c, px_revision = c_revision c,
      px_projection_kind = knd, px_status = PPending, px_attempt_count = 0,
      px_claim_owner = None, px_claim_generation = None, px_claim_token = 0,
      px_claimed_at = None, px_not_before = None, px_blocked_on_ref = None,
      px_last_error_code = None, px_last_error_detail = None, px_created_at = committed_at,
      px_updated_at = committed_at, px_completed_at = None\<rparr>"

definition enqueue_projection :: "db \<Rightarrow> execution_contract \<Rightarrow> int \<Rightarrow> db task_result" where
  "enqueue_projection d c committed_at =
     (case projector_kind (c_kind c) of
        None \<Rightarrow> Inr d
      | Some knd \<Rightarrow>
          let ref = projection_ref (c_execution_id c) (c_revision c) knd in
          res_bind (sqlite_u64 (c_revision c) ''projection revision'') (\<lambda>_.
          case row_of px_projection_ref ref (db_outbox d) of
            Some stored \<Rightarrow>
              if px_execution_id stored \<noteq> c_execution_id c \<or>
                  px_revision stored \<noteq> c_revision c \<or> px_projection_kind stored \<noteq> knd
                then Inl (Conflict ''projection reference is bound to a different execution revision'')
              else Inr d
          | None \<Rightarrow>
              Inr (d\<lparr>db_outbox := db_outbox d @ [pending_row ref c knd committed_at]\<rparr>)))"

definition requeue_row :: "int \<Rightarrow> outbox_row \<Rightarrow> outbox_row" where
  "requeue_row now r =
     r\<lparr>px_status := PPending, px_not_before := None, px_blocked_on_ref := None,
       px_last_error_code := None, px_last_error_detail := None, px_updated_at := now\<rparr>"

definition requeue_blocked_projections ::
  "db \<Rightarrow> effect_receipt_ref \<Rightarrow> int \<Rightarrow> db \<times> nat" where
  "requeue_blocked_projections d ref now =
     (let P = (\<lambda>r. px_status r = PBlocked \<and> px_blocked_on_ref r = Some ref) in
      (d\<lparr>db_outbox := update_where P (requeue_row now) (db_outbox d)\<rparr>,
       count_where P (db_outbox d)))"

definition projection_outbox_record :: "db \<Rightarrow> string \<Rightarrow> outbox_row option" where
  "projection_outbox_record d ref = row_of px_projection_ref ref (db_outbox d)"

definition pending_projection_error ::
  "db \<Rightarrow> string \<Rightarrow> projection_error_evidence option task_result" where
  "pending_projection_error d knd =
     res_bind (required_text knd ''projection kind'') (\<lambda>knd.
     Inr (case sort_key (\<lambda>r. (px_updated_at r, px_projection_ref r))
           (filter (\<lambda>r. px_projection_kind r = knd \<and> px_status r = PPending \<and>
              px_last_error_code r \<noteq> None \<and> px_last_error_detail r \<noteq> None) (db_outbox d)) of
         [] \<Rightarrow> None
       | r # _ \<Rightarrow> Some \<lparr>pe_code = the (px_last_error_code r),
                       pe_redacted_detail = the (px_last_error_detail r)\<rparr>))"

definition has_unfinished_projection :: "db \<Rightarrow> string \<Rightarrow> bool task_result" where
  "has_unfinished_projection d knd =
     res_bind (required_text knd ''projection kind'') (\<lambda>knd.
     Inr (list_ex (\<lambda>r. px_projection_kind r = knd \<and> px_status r \<noteq> PCompleted) (db_outbox d)))"

definition earlier_unfinished :: "outbox_row list \<Rightarrow> outbox_row \<Rightarrow> bool" where
  "earlier_unfinished t r \<longleftrightarrow>
     list_ex (\<lambda>e. px_execution_id e = px_execution_id r \<and>
       px_projection_kind e = px_projection_kind r \<and> px_revision e < px_revision r \<and>
       px_status e \<noteq> PCompleted) t"

definition claimable :: "outbox_row list \<Rightarrow> int \<Rightarrow> u64 \<Rightarrow> int \<Rightarrow> outbox_row \<Rightarrow> bool" where
  "claimable t now generation stale_before r \<longleftrightarrow>
     (px_status r = PPending \<and> pred_option (\<lambda>nb. nb \<le> now) (px_not_before r) \<or>
      px_status r = PClaimed \<and>
        (case px_claim_generation r of Some g \<Rightarrow> g \<le> generation | None \<Rightarrow> False) \<and>
        (case px_claimed_at r of Some t \<Rightarrow> t \<le> stale_before | None \<Rightarrow> False)) \<and>
     \<not> earlier_unfinished t r"

definition claim_row :: "string \<Rightarrow> u64 \<Rightarrow> int \<Rightarrow> outbox_row \<Rightarrow> outbox_row" where
  "claim_row owner generation now r =
     r\<lparr>px_status := PClaimed, px_attempt_count := px_attempt_count r + 1,
       px_claim_owner := Some owner, px_claim_generation := Some generation,
       px_claim_token := px_claim_token r + 1, px_claimed_at := Some now,
       px_not_before := None, px_blocked_on_ref := None, px_completed_at := None,
       px_updated_at := now\<rparr>"

text \<open>\<open>i64::saturating_sub\<close>.\<close>

definition saturating_sub_i64 :: "int \<Rightarrow> int \<Rightarrow> int" where
  "saturating_sub_i64 a b = max (- 9223372036854775808) (min 9223372036854775807 (a - b))"

definition claim_projection ::
  "db \<Rightarrow> string \<Rightarrow> string \<Rightarrow> u64 \<Rightarrow> int \<Rightarrow> projection_claim option tx" where
  "claim_projection d knd owner generation now =
     res_bind (required_text knd ''projection kind'') (\<lambda>knd.
     res_bind (required_text owner ''projection owner'') (\<lambda>owner.
     res_bind (positive_sqlite_u64 generation ''projection claim generation'') (\<lambda>_.
     let stale_before = saturating_sub_i64 now PROJECTION_CLAIM_STALE_AFTER_SECONDS;
         due = claimable (db_outbox d) now generation stale_before in
     (case sort_key (\<lambda>r. (px_created_at r, px_projection_ref r))
         (filter (\<lambda>r. px_projection_kind r = knd \<and> due r) (db_outbox d)) of
        [] \<Rightarrow> Inr (d, None)
      | candidate # _ \<Rightarrow>
          let ref = px_projection_ref candidate;
              P = (\<lambda>r. px_projection_ref r = ref \<and> due r);
              d' = d\<lparr>db_outbox := update_where P (claim_row owner generation now) (db_outbox d)\<rparr> in
          if count_where P (db_outbox d) \<noteq> 1
            then Inl (Conflict ''projection claim changed concurrently'')
          else res_bind (ok_or (Store ''Query returned no rows'')
              (projection_outbox_record d' ref)) (\<lambda>record.
            Inr (d', Some \<lparr>pc_record = record, pc_owner = owner,
                           pc_generation = generation, pc_token = px_claim_token record\<rparr>))))))"

text \<open>The rows a claim still controls.\<close>

definition held_by :: "projection_claim \<Rightarrow> outbox_row \<Rightarrow> bool" where
  "held_by claim r \<longleftrightarrow>
     px_projection_ref r = px_projection_ref (pc_record claim) \<and> px_status r = PClaimed \<and>
     px_claim_owner r = Some (pc_owner claim) \<and>
     px_claim_generation r = Some (pc_generation claim) \<and>
     px_claim_token r = pc_token claim"

definition assert_projection_claim_current :: "db \<Rightarrow> projection_claim \<Rightarrow> unit task_result" where
  "assert_projection_claim_current d claim =
     res_bind (positive_sqlite_u64 (pc_generation claim) ''projection claim generation'') (\<lambda>_.
     res_bind (positive_token (pc_token claim) ''projection claim token'') (\<lambda>_.
     if list_ex (held_by claim) (db_outbox d) then Inr ()
     else Inl (InvalidTransition ''projection claim is stale or no longer active'')))"

definition update_claim ::
  "db \<Rightarrow> projection_claim \<Rightarrow> (outbox_row \<Rightarrow> outbox_row) \<Rightarrow> db task_result" where
  "update_claim d claim f =
     res_bind (positive_sqlite_u64 (pc_generation claim) ''projection claim generation'') (\<lambda>_.
     res_bind (positive_token (pc_token claim) ''projection claim token'') (\<lambda>_.
     if count_where (held_by claim) (db_outbox d) = 1
       then Inr (d\<lparr>db_outbox := update_where (held_by claim) f (db_outbox d)\<rparr>)
     else Inl (InvalidTransition ''projection claim is stale or no longer active'')))"

definition renew_projection_claim :: "db \<Rightarrow> projection_claim \<Rightarrow> int \<Rightarrow> db task_result" where
  "renew_projection_claim d claim now =
     update_claim d claim (\<lambda>r. r\<lparr>px_claimed_at := Some now, px_updated_at := now\<rparr>)"

definition finish_row ::
  "projection_status \<Rightarrow> int option \<Rightarrow> effect_receipt_ref option \<Rightarrow> string option
   \<Rightarrow> string option \<Rightarrow> int option \<Rightarrow> int \<Rightarrow> outbox_row \<Rightarrow> outbox_row" where
  "finish_row status not_before blocked code detail completed now r =
     r\<lparr>px_status := status, px_claim_owner := None, px_claim_generation := None,
       px_claimed_at := None, px_not_before := not_before, px_blocked_on_ref := blocked,
       px_last_error_code := code, px_last_error_detail := detail,
       px_completed_at := completed, px_updated_at := now\<rparr>"

definition finish_claim ::
  "db \<Rightarrow> projection_claim \<Rightarrow> projection_status \<Rightarrow> int option \<Rightarrow> effect_receipt_ref option
   \<Rightarrow> string option \<Rightarrow> string option \<Rightarrow> int option \<Rightarrow> int \<Rightarrow> db task_result" where
  "finish_claim d claim status not_before blocked code detail completed now =
     update_claim d claim (finish_row status not_before blocked code detail completed now)"

definition complete_projection :: "db \<Rightarrow> projection_claim \<Rightarrow> int \<Rightarrow> db task_result" where
  "complete_projection d claim now =
     finish_claim d claim PCompleted None None None None (Some now) now"

definition retry_projection ::
  "db \<Rightarrow> projection_claim \<Rightarrow> projection_error_evidence \<Rightarrow> int \<Rightarrow> int \<Rightarrow> db task_result" where
  "retry_projection d claim err not_before now =
     res_bind (required_text (pe_code err) ''projection error code'') (\<lambda>code.
     res_bind (required_text (pe_redacted_detail err) ''projection error detail'') (\<lambda>detail.
     if not_before < now
       then Inl (InvalidTransition ''projection retry cannot be scheduled in the past'')
     else finish_claim d claim PPending (Some not_before) None (Some code) (Some detail) None now))"

definition block_projection ::
  "db \<Rightarrow> projection_claim \<Rightarrow> effect_receipt_ref \<Rightarrow> int \<Rightarrow> db task_result" where
  "block_projection d claim ref now =
     finish_claim d claim PBlocked None (Some ref) None None None now"

section \<open>References name one revision\<close>

lemma projection_ref_inject:
  "projection_ref e r k = projection_ref e' r' k \<longleftrightarrow> e = e' \<and> r = r'"
proof
  assume "projection_ref e r k = projection_ref e' r' k"
  then have "e @ '':'' @ show_u64 r = e' @ '':'' @ show_u64 r'"
    by (simp add: projection_ref_def)
  then have "rev (e @ '':'' @ show_u64 r) = rev (e' @ '':'' @ show_u64 r')"
    by (rule arg_cong)
  then have "rev (show_u64 r) @ CHR '':'' # rev e = rev (show_u64 r') @ CHR '':'' # rev e'"
    by simp
  moreover have "list_all is_digit (rev (show_u64 w))" for w
    using show_nat_digits by (simp add: show_u64_def list_all_rev)
  ultimately have "rev (show_u64 r) = rev (show_u64 r') \<and> CHR '':'' # rev e = CHR '':'' # rev e'"
    by (intro digits_sep_unique) simp_all
  then show "e = e' \<and> r = r'" by simp
qed simp

section \<open>The invariant of the outbox and what its operations keep\<close>

definition row_shape :: "outbox_row \<Rightarrow> bool" where
  "row_shape r \<longleftrightarrow>
     (case px_status r of
        PPending \<Rightarrow> px_claim_owner r = None \<and> px_claim_generation r = None \<and>
          px_claimed_at r = None \<and> px_blocked_on_ref r = None \<and> px_completed_at r = None
      | PClaimed \<Rightarrow> px_claim_owner r \<noteq> None \<and> px_claim_generation r \<noteq> None \<and>
          px_claimed_at r \<noteq> None \<and> px_blocked_on_ref r = None \<and> px_completed_at r = None
      | PBlocked \<Rightarrow> px_claim_owner r = None \<and> px_claim_generation r = None \<and>
          px_claimed_at r = None \<and> px_blocked_on_ref r \<noteq> None \<and> px_completed_at r = None
      | PCompleted \<Rightarrow> px_claim_owner r = None \<and> px_claim_generation r = None \<and>
          px_claimed_at r = None \<and> px_blocked_on_ref r = None \<and> px_completed_at r \<noteq> None)"

definition outbox_row_ok :: "outbox_row \<Rightarrow> bool" where
  "outbox_row_ok r \<longleftrightarrow>
     row_shape r \<and> px_projection_kind r = CHAT_LIFECYCLE_PROJECTION \<and>
     px_projection_ref r =
       projection_ref (px_execution_id r) (px_revision r) (px_projection_kind r)"

definition outbox_inv :: "outbox_row list \<Rightarrow> bool" where
  "outbox_inv t \<longleftrightarrow> distinct (map px_projection_ref t) \<and> (\<forall>r \<in> set t. outbox_row_ok r)"

definition row_extends :: "outbox_row \<Rightarrow> outbox_row \<Rightarrow> bool" where
  "row_extends r s \<longleftrightarrow>
     px_projection_ref s = px_projection_ref r \<and> px_execution_id s = px_execution_id r \<and>
     px_revision s = px_revision r \<and> px_projection_kind s = px_projection_kind r \<and>
     px_claim_token r \<le> px_claim_token s \<and> px_attempt_count r \<le> px_attempt_count s \<and>
     (px_status r = PCompleted \<longrightarrow> s = r)"

lemma row_extends_refl [simp]: "row_extends r r"
  by (simp add: row_extends_def)

lemma row_extends_frozen: "\<lbrakk>row_extends r s; px_status r = PCompleted\<rbrakk> \<Longrightarrow> s = r"
  by (simp add: row_extends_def)

lemma row_extends_trans:
  assumes "row_extends r s" "row_extends s u"
  shows "row_extends r u"
proof (cases "px_status r = PCompleted")
  case True
  with assms(1) have sr: "s = r" by (rule row_extends_frozen)
  show ?thesis
    using assms(2) unfolding sr .
next
  case False
  have "px_claim_token r \<le> px_claim_token u" "px_attempt_count r \<le> px_attempt_count u"
    using assms le_trans unfolding row_extends_def by blast+
  moreover have "px_projection_ref u = px_projection_ref r" "px_execution_id u = px_execution_id r"
      "px_revision u = px_revision r" "px_projection_kind u = px_projection_kind r"
    using assms unfolding row_extends_def by simp_all
  ultimately show ?thesis
    using False by (simp add: row_extends_def)
qed

interpretation outbox_rows: row_history px_projection_ref row_extends
proof unfold_locales
  show "row_extends r u" if "row_extends r s" "row_extends s u" for r s u
    using that by (rule row_extends_trans)
qed (simp_all add: row_extends_def)

definition outbox_extends :: "outbox_row list \<Rightarrow> outbox_row list \<Rightarrow> bool" where
  "outbox_extends = table_extends px_projection_ref row_extends"

text \<open>Every write of the outbox is one of these two.\<close>

definition outbox_keeps :: "outbox_row list \<Rightarrow> outbox_row list \<Rightarrow> bool" where
  "outbox_keeps t t' \<longleftrightarrow> outbox_extends t t' \<and> (outbox_inv t \<longrightarrow> outbox_inv t')"

lemma outbox_keeps_refl [simp]: "outbox_keeps t t"
  by (simp add: outbox_keeps_def outbox_extends_def outbox_rows.extends_refl)

lemma outbox_keeps_append:
  assumes "row_of px_projection_ref (px_projection_ref r) t = None" "outbox_row_ok r"
  shows "outbox_keeps t (t @ [r])"
  using assms outbox_rows.extends_append
  by (auto simp: outbox_keeps_def outbox_extends_def outbox_inv_def row_of_None)

lemma outbox_keeps_update:
  assumes ext: "\<And>r. P r \<Longrightarrow> row_extends r (f r)"
    and shape: "\<And>r. \<lbrakk>P r; row_shape r\<rbrakk> \<Longrightarrow> row_shape (f r)"
  shows "outbox_keeps t (update_where P f t)"
proof -
  note keys = outbox_rows.update_keys [OF ext]
  have "outbox_extends t (update_where P f t)"
    unfolding outbox_extends_def using ext by (rule outbox_rows.extends_update)
  moreover have "outbox_row_ok (f r)" if "outbox_row_ok r" "P r" for r
    using ext [OF that(2)] shape [OF that(2)] that(1)
    by (simp add: outbox_row_ok_def row_extends_def)
  then have "outbox_inv t \<longrightarrow> outbox_inv (update_where P f t)"
    using keys by (auto simp: outbox_inv_def update_where_def simp del: map_map)
  ultimately show ?thesis
    by (simp add: outbox_keeps_def)
qed

lemma enqueue_keeps:
  "enqueue_projection d c now = Inr d' \<Longrightarrow> outbox_keeps (db_outbox d) (db_outbox d')"
  by (auto simp: enqueue_projection_def Let_def res_bind_Inr projector_kind_def
      intro!: outbox_keeps_append split: option.splits if_splits)
    (auto simp: outbox_row_ok_def pending_row_def row_shape_def)

lemma requeue_keeps:
  "outbox_keeps (db_outbox d) (db_outbox (fst (requeue_blocked_projections d ref now)))"
  unfolding requeue_blocked_projections_def Let_def
  by (simp, rule outbox_keeps_update)
    (auto simp: row_extends_def row_shape_def requeue_row_def)

text \<open>The two ways a claim succeeds: nothing is due, or the oldest due row is taken.\<close>

lemma claim_projection_cases:
  assumes "claim_projection d knd owner generation now = Inr (d', res)"
  obtains (nothing) "d' = d" "res = None"
  | (taken) r P where "r \<in> set (db_outbox d)" "px_projection_kind r = trim knd"
      "claimable (db_outbox d) now generation
         (saturating_sub_i64 now PROJECTION_CLAIM_STALE_AFTER_SECONDS) r"
      "P = (\<lambda>q. px_projection_ref q = px_projection_ref r \<and> claimable (db_outbox d) now generation
         (saturating_sub_i64 now PROJECTION_CLAIM_STALE_AFTER_SECONDS) q)"
      "db_outbox d' = update_where P (claim_row (trim owner) generation now) (db_outbox d)"
      "d' = d\<lparr>db_outbox := db_outbox d'\<rparr>"
      "\<exists>record. row_of px_projection_ref (px_projection_ref r) (db_outbox d') = Some record \<and>
         res = Some \<lparr>pc_record = record, pc_owner = trim owner, pc_generation = generation,
           pc_token = px_claim_token record\<rparr>"
proof -
  define due where "due = claimable (db_outbox d) now generation
    (saturating_sub_i64 now PROJECTION_CLAIM_STALE_AFTER_SECONDS)"
  define cands where "cands = sort_key (\<lambda>r. (px_created_at r, px_projection_ref r))
    (filter (\<lambda>r. px_projection_kind r = trim knd \<and> due r) (db_outbox d))"
  show thesis
  proof (cases cands)
    case Nil
    with assms have "d' = d" "res = None"
      by (auto simp: claim_projection_def Let_def res_bind_Inr required_text_def if_Inl_Inr
          cands_def due_def)
    then show thesis by (rule nothing)
  next
    case (Cons r cs)
    then have "r \<in> set cands" by simp
    then have r: "r \<in> set (db_outbox d)" "px_projection_kind r = trim knd" "due r"
      by (simp_all add: cands_def)
    let ?P = "\<lambda>q. px_projection_ref q = px_projection_ref r \<and> due q"
    have "d' = d\<lparr>db_outbox := update_where ?P (claim_row (trim owner) generation now) (db_outbox d)\<rparr> \<and>
        (\<exists>record. row_of px_projection_ref (px_projection_ref r) (db_outbox d') = Some record \<and>
         res = Some \<lparr>pc_record = record, pc_owner = trim owner, pc_generation = generation,
           pc_token = px_claim_token record\<rparr>)"
      using assms Cons
      by (auto simp: claim_projection_def Let_def res_bind_Inr required_text_def if_Inl_Inr
          cands_def [symmetric] due_def [symmetric] projection_outbox_record_def)
    with r show thesis
      by (intro taken [of r ?P]) (auto simp: due_def)
  qed
qed

lemma claim_keeps:
  assumes "claim_projection d knd owner g now = Inr (d', res)"
  shows "outbox_keeps (db_outbox d) (db_outbox d')"
  using assms
proof (cases rule: claim_projection_cases)
  case (taken r P)
  show ?thesis
    unfolding taken(5)
    by (rule outbox_keeps_update)
      (auto simp: taken(4) row_extends_def row_shape_def claim_row_def claimable_def)
qed simp

lemma update_claim_Inr:
  "update_claim d claim f = Inr d' \<longleftrightarrow>
     positive_sqlite_u64 (pc_generation claim) ''projection claim generation'' = Inr () \<and>
     positive_token (pc_token claim) ''projection claim token'' = Inr () \<and>
     count_where (held_by claim) (db_outbox d) = 1 \<and>
     d' = d\<lparr>db_outbox := update_where (held_by claim) f (db_outbox d)\<rparr>"
  by (auto simp: update_claim_def res_bind_Inr)

lemma renew_keeps:
  "renew_projection_claim d claim now = Inr d' \<Longrightarrow> outbox_keeps (db_outbox d) (db_outbox d')"
  by (auto simp: renew_projection_claim_def update_claim_Inr intro!: outbox_keeps_update)
    (auto simp: row_extends_def row_shape_def held_by_def)

definition finish_legal ::
  "projection_status \<Rightarrow> effect_receipt_ref option \<Rightarrow> int option \<Rightarrow> bool" where
  "finish_legal status blocked completed \<longleftrightarrow>
     status = PPending \<and> blocked = None \<and> completed = None \<or>
     status = PBlocked \<and> blocked \<noteq> None \<and> completed = None \<or>
     status = PCompleted \<and> blocked = None \<and> completed \<noteq> None"

lemma finish_keeps:
  assumes "finish_claim d claim status nb blocked code detail completed now = Inr d'"
    and "finish_legal status blocked completed"
  shows "outbox_keeps (db_outbox d) (db_outbox d')"
  using assms
  by (auto simp: finish_claim_def update_claim_Inr intro!: outbox_keeps_update)
    (auto simp: row_extends_def row_shape_def held_by_def finish_row_def finish_legal_def)

section \<open>The outbox as a system of commands\<close>

datatype outbox_command =
  Enqueue execution_contract int
| Requeue effect_receipt_ref int
| Claim string string u64 int
| Renew projection_claim int
| Complete projection_claim int
| Reschedule projection_claim projection_error_evidence int int
| Block projection_claim effect_receipt_ref int

fun outbox_step :: "db \<Rightarrow> outbox_command \<Rightarrow> db task_result" where
  "outbox_step d (Enqueue c now) = enqueue_projection d c now"
| "outbox_step d (Requeue ref now) = Inr (fst (requeue_blocked_projections d ref now))"
| "outbox_step d (Claim knd owner generation now) =
     res_bind (claim_projection d knd owner generation now) (\<lambda>r. Inr (fst r))"
| "outbox_step d (Renew claim now) = renew_projection_claim d claim now"
| "outbox_step d (Complete claim now) = complete_projection d claim now"
| "outbox_step d (Reschedule claim err not_before now) =
     retry_projection d claim err not_before now"
| "outbox_step d (Block claim ref now) = block_projection d claim ref now"

lemma complete_keeps:
  "complete_projection d claim now = Inr d' \<Longrightarrow> outbox_keeps (db_outbox d) (db_outbox d')"
  unfolding complete_projection_def by (erule finish_keeps) (simp add: finish_legal_def)

lemma retry_keeps:
  assumes "retry_projection d claim err nb now = Inr d'"
  shows "outbox_keeps (db_outbox d) (db_outbox d')"
proof -
  obtain code detail where
    "finish_claim d claim PPending (Some nb) None (Some code) (Some detail) None now = Inr d'"
    using assms by (auto simp: retry_projection_def res_bind_Inr if_Inl_Inr)
  then show ?thesis
    by (rule finish_keeps) (simp add: finish_legal_def)
qed

lemma block_keeps:
  "block_projection d claim ref now = Inr d' \<Longrightarrow> outbox_keeps (db_outbox d) (db_outbox d')"
  unfolding block_projection_def by (erule finish_keeps) (simp add: finish_legal_def)

lemma outbox_step_keeps:
  assumes "outbox_step d cmd = Inr d'"
  shows "outbox_keeps (db_outbox d) (db_outbox d')"
proof (cases cmd)
  case (Claim knd owner g now)
  with assms obtain r where "claim_projection d knd owner g now = Inr (d', r)"
    by (auto simp: res_bind_Inr)
  then show ?thesis by (rule claim_keeps)
qed (use assms in \<open>auto intro: enqueue_keeps requeue_keeps renew_keeps complete_keeps retry_keeps
  block_keeps\<close>)

interpretation ob: guarded_system outbox_step "\<lambda>d. outbox_inv (db_outbox d)"
    "\<lambda>d d'. outbox_extends (db_outbox d) (db_outbox d')"
proof unfold_locales
  show "outbox_extends (db_outbox a) (db_outbox c)"
    if "outbox_extends (db_outbox a) (db_outbox b)" "outbox_extends (db_outbox b) (db_outbox c)"
    for a b c using that unfolding outbox_extends_def by (rule outbox_rows.extends_trans)
qed (auto dest: outbox_step_keeps simp: outbox_keeps_def outbox_extends_def
  outbox_rows.extends_refl)

lemma outbox_inv_Nil [simp]: "outbox_inv []"
  by (simp add: outbox_inv_def)

lemma claim_taken:
  assumes "claim_projection d knd owner generation now = Inr (d', Some c)"
    and "outbox_inv (db_outbox d)"
  obtains r where "row_of px_projection_ref (px_projection_ref r) (db_outbox d) = Some r"
    and "claimable (db_outbox d) now generation
      (saturating_sub_i64 now PROJECTION_CLAIM_STALE_AFTER_SECONDS) r"
    and "c = \<lparr>pc_record = claim_row (trim owner) generation now r, pc_owner = trim owner,
      pc_generation = generation, pc_token = Suc (px_claim_token r)\<rparr>"
    and "row_of px_projection_ref (px_projection_ref r) (db_outbox d') =
      Some (claim_row (trim owner) generation now r)"
    and "db_outbox d' = update_where (\<lambda>q. px_projection_ref q = px_projection_ref r \<and>
      claimable (db_outbox d) now generation
        (saturating_sub_i64 now PROJECTION_CLAIM_STALE_AFTER_SECONDS) q)
      (claim_row (trim owner) generation now) (db_outbox d)"
  using assms(1)
proof (cases rule: claim_projection_cases)
  case nothing
  then show thesis by simp
next
  case (taken r P)
  let ?f = "claim_row (trim owner) generation now"
  have r: "row_of px_projection_ref (px_projection_ref r) (db_outbox d) = Some r"
    using assms(2) taken(1) by (simp add: outbox_inv_def row_of_unique)
  have "row_of px_projection_ref k (update_where P ?f t) =
      map_option (\<lambda>q. if P q then ?f q else q) (row_of px_projection_ref k t)" for k t
    by (rule row_of_update_where) (simp add: claim_row_def)
  then have new: "row_of px_projection_ref (px_projection_ref r) (db_outbox d') = Some (?f r)"
    using r taken(3) by (simp add: taken(5)) (simp add: taken(4))
  show thesis
    using taken(7) new
    by (intro that [OF r taken(3) _ new]) (simp_all add: taken(4,5) claim_row_def)
qed

lemma claim_token_fresh:
  assumes "claim_projection d knd owner generation now = Inr (d', Some c)"
    and "outbox_inv (db_outbox d)"
  obtains r s where "row_of px_projection_ref (px_projection_ref r) (db_outbox d) = Some r"
    and "px_projection_ref (pc_record c) = px_projection_ref r"
    and "pc_token c = Suc (px_claim_token r)" and "px_claim_token s = Suc (px_claim_token r)"
    and "row_of px_projection_ref (px_projection_ref r) (db_outbox d') = Some s"
proof -
  obtain r where r: "row_of px_projection_ref (px_projection_ref r) (db_outbox d) = Some r"
    and c: "c = \<lparr>pc_record = claim_row (trim owner) generation now r, pc_owner = trim owner,
      pc_generation = generation, pc_token = Suc (px_claim_token r)\<rparr>"
    and new: "row_of px_projection_ref (px_projection_ref r) (db_outbox d') =
      Some (claim_row (trim owner) generation now r)"
    by (rule claim_taken [OF assms], rule that)
  have "px_projection_ref (claim_row (trim owner) generation now r) = px_projection_ref r"
      "px_claim_token (claim_row (trim owner) generation now r) = Suc (px_claim_token r)"
    by (simp_all add: claim_row_def)
  with r new show thesis
    by (intro that [of r "claim_row (trim owner) generation now r"]) (simp_all add: c)
qed

lemma held_by_token:
  "\<lbrakk>list_ex (held_by claim) t; distinct (map px_projection_ref t)\<rbrakk> \<Longrightarrow>
    \<exists>r. row_of px_projection_ref (px_projection_ref (pc_record claim)) t = Some r \<and>
      px_claim_token r = pc_token claim"
  by (auto simp: list_ex_iff held_by_def row_of_unique)

lemma count_where_ex: "count_where P t = 1 \<Longrightarrow> list_ex P t"
  by (rule ccontr) (simp add: count_where_def list_ex_iff filter_False)

text \<open>A claim whose token is behind its row's can do nothing more.\<close>

lemma stale_claim_refused:
  assumes "outbox_inv (db_outbox d)"
    and "row_of px_projection_ref (px_projection_ref (pc_record claim)) (db_outbox d) = Some r"
    and "pc_token claim < px_claim_token r"
  shows "\<not> is_ok (update_claim d claim f)" "\<not> is_ok (assert_projection_claim_current d claim)"
proof -
  have "\<not> list_ex (held_by claim) (db_outbox d)"
    using held_by_token [of claim "db_outbox d"] assms by (auto simp: outbox_inv_def)
  then show "\<not> is_ok (update_claim d claim f)"
      "\<not> is_ok (assert_projection_claim_current d claim)"
    using count_where_ex
    by (auto simp: is_ok_iff update_claim_Inr assert_projection_claim_current_def res_bind_Inr
      split: if_splits)
qed

definition sample_outbox :: db where
  "sample_outbox = empty_db\<lparr>db_outbox :=
     [pending_row (projection_ref ''e1'' 1 CHAT_LIFECYCLE_PROJECTION) sample_contract
        CHAT_LIFECYCLE_PROJECTION 5]\<rparr>"

lemma sample_enqueue: "enqueue_projection empty_db sample_contract 5 = Inr sample_outbox"
  by (simp add: enqueue_projection_def empty_db_def sample_outbox_def projector_kind_def
      sample_contract_def new_contract_def sqlite_u64_def fits_i64_def i64_max_def)

lemma sample_outbox_inv: "outbox_inv (db_outbox sample_outbox)"
  using enqueue_keeps [OF sample_enqueue]
  by (simp add: outbox_keeps_def empty_db_def)

lemma trim_samples [simp]: "trim ''p'' = ''p''" "trim ''chat_lifecycle'' = ''chat_lifecycle''"
  by code_simp+

lemma claim_single:
  assumes "db_outbox d = [r]" "px_projection_kind r = trim knd" "trim knd \<noteq> []" "trim owner \<noteq> []"
    and "positive_sqlite_u64 g ''projection claim generation'' = Inr ()"
    and "claimable [r] now g (saturating_sub_i64 now PROJECTION_CLAIM_STALE_AFTER_SECONDS) r"
  shows "claim_projection d knd owner g now =
    Inr (d\<lparr>db_outbox := [claim_row (trim owner) g now r]\<rparr>,
      Some \<lparr>pc_record = claim_row (trim owner) g now r, pc_owner = trim owner,
        pc_generation = g, pc_token = Suc (px_claim_token r)\<rparr>)"
  using assms
  by (simp add: claim_projection_def required_text_def Let_def count_where_def
      projection_outbox_record_def row_of_Cons claim_row_def)

definition sample_row :: outbox_row where
  "sample_row = pending_row (projection_ref ''e1'' 1 CHAT_LIFECYCLE_PROJECTION) sample_contract
     CHAT_LIFECYCLE_PROJECTION 5"

definition sample_claim :: "nat \<Rightarrow> outbox_row \<Rightarrow> projection_claim" where
  "sample_claim token r =
     \<lparr>pc_record = r, pc_owner = ''p'', pc_generation = 1, pc_token = token\<rparr>"

definition row_once :: outbox_row where
  "row_once = claim_row ''p'' 1 10 sample_row"

definition row_twice :: outbox_row where
  "row_twice = claim_row ''p'' 1 1000 row_once"

lemmas sample_row_simps = sample_row_def row_once_def row_twice_def pending_row_def claim_row_def
  claimable_def earlier_unfinished_def saturating_sub_i64_def
  PROJECTION_CLAIM_STALE_AFTER_SECONDS_def positive_sqlite_u64_def sqlite_u64_def fits_i64_def
  i64_max_def CHAT_LIFECYCLE_PROJECTION_def

lemma sample_first_claim:
  "claim_projection sample_outbox ''chat_lifecycle'' ''p'' 1 10 =
     Inr (sample_outbox\<lparr>db_outbox := [row_once]\<rparr>, Some (sample_claim 1 row_once))"
proof -
  have "db_outbox sample_outbox = [sample_row]"
    by (simp add: sample_outbox_def sample_row_def)
  then show ?thesis
    using claim_single [of sample_outbox sample_row "''chat_lifecycle''" "''p''" 1 10]
    by (simp add: row_once_def sample_claim_def) (simp add: sample_row_simps)
qed

lemma sample_second_claim:
  "claim_projection (sample_outbox\<lparr>db_outbox := [row_once]\<rparr>) ''chat_lifecycle'' ''p'' 1 1000 =
     Inr (sample_outbox\<lparr>db_outbox := [row_twice]\<rparr>, Some (sample_claim 2 row_twice))"
  using claim_single [of "sample_outbox\<lparr>db_outbox := [row_once]\<rparr>" row_once
      "''chat_lifecycle''" "''p''" 1 1000]
  by (simp add: row_twice_def sample_claim_def) (simp add: sample_row_simps)

section \<open>Properties of the outbox\<close>

text \<open>
  A projection reference names one execution and one revision: two rows of the same
  projection kind never share a reference, whatever text an execution identity holds.
\<close>

lemma projection_ref_injective:
  "projection_ref e r knd = projection_ref e' r' knd \<longleftrightarrow> e = e' \<and> r = r'"
  by (rule projection_ref_inject)

text \<open>
  Whatever commands the projectors and the runtime issue, in any order and with any
  arguments, the outbox keeps one row per revision, every row satisfies the status
  constraint of the schema, and a completed row is never touched again.
\<close>

lemma outbox_stays_consistent:
  assumes "run_steps outbox_step empty_db cmds = Inr d" "run_steps outbox_step d cmds' = Inr d'"
  shows "outbox_inv (db_outbox d') \<and>
    (row_of px_projection_ref k (db_outbox d) = Some r \<and> px_status r = PCompleted \<longrightarrow>
       row_of px_projection_ref k (db_outbox d') = Some r)"
proof -
  have inv: "outbox_inv (db_outbox d)"
    using ob.run_inv [OF _ assms(1)] by (simp add: empty_db_def)
  then have "outbox_inv (db_outbox d')" "outbox_extends (db_outbox d) (db_outbox d')"
    using ob.run_inv ob.run_ext assms(2) by blast+
  then show ?thesis
    using row_extends_frozen table_extendsD unfolding outbox_extends_def by metis
qed

lemma outbox_stays_consistent_witness:
  "\<exists>d'. run_steps outbox_step sample_outbox [Claim ''chat_lifecycle'' ''p'' 1 10] = Inr d' \<and>
     outbox_inv (db_outbox d')"
proof -
  have "run_steps outbox_step empty_db [Enqueue sample_contract 5] = Inr sample_outbox"
    by (simp add: sample_enqueue)
  moreover have "run_steps outbox_step sample_outbox [Claim ''chat_lifecycle'' ''p'' 1 10] =
      Inr (sample_outbox\<lparr>db_outbox := [row_once]\<rparr>)"
    by (simp add: sample_first_claim)
  ultimately show ?thesis
    using outbox_stays_consistent by blast
qed

text \<open>
  Projections of an execution run in revision order: a claim is granted only on a row
  that was due, it takes a fresh token for it, and every earlier revision of that execution
  is already completed.
\<close>

lemma claims_follow_revision_order:
  assumes "claim_projection d knd owner generation now = Inr (d', Some c)"
    and "outbox_inv (db_outbox d)"
  shows "\<exists>r. row_of px_projection_ref (px_projection_ref r) (db_outbox d) = Some r \<and>
    row_of px_projection_ref (px_projection_ref r) (db_outbox d') = Some (pc_record c) \<and>
    px_projection_ref (pc_record c) = px_projection_ref r \<and>
    px_status r \<in> {PPending, PClaimed} \<and> px_status (pc_record c) = PClaimed \<and>
    pc_token c = Suc (px_claim_token r) \<and>
    (\<forall>e \<in> set (db_outbox d). px_execution_id e = px_execution_id r \<and>
       px_projection_kind e = px_projection_kind r \<and> px_revision e < px_revision r \<longrightarrow>
       px_status e = PCompleted)"
proof -
  obtain r where r: "row_of px_projection_ref (px_projection_ref r) (db_outbox d) = Some r"
    and due: "claimable (db_outbox d) now generation
      (saturating_sub_i64 now PROJECTION_CLAIM_STALE_AFTER_SECONDS) r"
    and c: "c = \<lparr>pc_record = claim_row (trim owner) generation now r, pc_owner = trim owner,
      pc_generation = generation, pc_token = Suc (px_claim_token r)\<rparr>"
    and new: "row_of px_projection_ref (px_projection_ref r) (db_outbox d') =
      Some (claim_row (trim owner) generation now r)"
    by (rule claim_taken [OF assms], rule that)
  from due have st: "px_status r \<in> {PPending, PClaimed}"
    and "\<not> earlier_unfinished (db_outbox d) r"
    by (auto simp: claimable_def)
  then have earlier: "\<forall>e \<in> set (db_outbox d). px_execution_id e = px_execution_id r \<and>
      px_projection_kind e = px_projection_kind r \<and> px_revision e < px_revision r \<longrightarrow>
      px_status e = PCompleted"
    by (auto simp: earlier_unfinished_def list_ex_iff)
  have "pc_record c = claim_row (trim owner) generation now r"
      "pc_token c = Suc (px_claim_token r)"
      "px_projection_ref (pc_record c) = px_projection_ref r" "px_status (pc_record c) = PClaimed"
    by (simp_all add: c claim_row_def)
  with r new st earlier show ?thesis
    by (intro exI [of _ r] conjI) simp_all
qed

lemma claims_follow_revision_order_witness:
  "\<exists>r. row_of px_projection_ref (px_projection_ref r) (db_outbox sample_outbox) = Some r \<and>
     1 = Suc (px_claim_token r)"
  using claims_follow_revision_order [OF sample_first_claim sample_outbox_inv]
  by (auto simp: sample_claim_def)

text \<open>
  C36: a claim that was superseded is dead: once the same projection is claimed again, the
  earlier claim can neither be renewed, nor complete, reschedule or block the projection,
  nor pass the currency check, whatever happened in between and after.
\<close>

theorem superseded_claim_is_dead:
  assumes inv: "outbox_inv (db_outbox d0)"
    and first: "claim_projection d0 knd owner generation now = Inr (d1, Some c1)"
    and between: "run_steps outbox_step d1 cmds = Inr d2"
    and second: "claim_projection d2 knd' owner' generation' now' = Inr (d3, Some c2)"
    and same: "px_projection_ref (pc_record c2) = px_projection_ref (pc_record c1)"
    and after: "run_steps outbox_step d3 cmds' = Inr d4"
  shows "\<not> is_ok (renew_projection_claim d4 c1 t) \<and> \<not> is_ok (complete_projection d4 c1 t) \<and>
    \<not> is_ok (retry_projection d4 c1 err nb t) \<and> \<not> is_ok (block_projection d4 c1 ref t) \<and>
    \<not> is_ok (assert_projection_claim_current d4 c1)"
proof -
  obtain r1 s1 :: outbox_row where c1: "pc_token c1 = Suc (px_claim_token r1)"
      "px_projection_ref (pc_record c1) = px_projection_ref r1"
    and s1: "px_claim_token s1 = Suc (px_claim_token r1)"
    and row1: "row_of px_projection_ref (px_projection_ref r1) (db_outbox d1) = Some s1"
    by (rule claim_token_fresh [OF first inv], rule that)
  have inv1: "outbox_inv (db_outbox d1)"
    using claim_keeps [OF first] inv by (simp add: outbox_keeps_def)
  have inv2: "outbox_inv (db_outbox d2)" and ext2: "outbox_extends (db_outbox d1) (db_outbox d2)"
    using ob.run_inv [OF inv1 between] ob.run_ext [OF inv1 between] by simp_all
  have inv3: "outbox_inv (db_outbox d3)"
    using claim_keeps [OF second] inv2 by (simp add: outbox_keeps_def)
  have inv4: "outbox_inv (db_outbox d4)" and ext4: "outbox_extends (db_outbox d3) (db_outbox d4)"
    using ob.run_inv [OF inv3 after] ob.run_ext [OF inv3 after] by simp_all
  obtain r2 s2 :: outbox_row where r2: "row_of px_projection_ref (px_projection_ref r2) (db_outbox d2) = Some r2"
    and c2: "px_projection_ref (pc_record c2) = px_projection_ref r2"
    and s2: "px_claim_token s2 = Suc (px_claim_token r2)"
    and row3: "row_of px_projection_ref (px_projection_ref r2) (db_outbox d3) = Some s2"
    by (rule claim_token_fresh [OF second inv2], rule that)
  have eq: "px_projection_ref r2 = px_projection_ref r1"
    using same c1(2) c2 by simp
  obtain s where "row_of px_projection_ref (px_projection_ref r1) (db_outbox d2) = Some s"
      "row_extends s1 s"
    by (rule table_extendsE [OF ext2 [unfolded outbox_extends_def] row1], rule that)
  with r2 eq have "pc_token c1 \<le> px_claim_token r2"
    by (simp add: c1 s1 row_extends_def)
  moreover obtain u where u: "row_of px_projection_ref (px_projection_ref r1) (db_outbox d4) = Some u"
      "row_extends s2 u"
    by (rule table_extendsE [OF ext4 [unfolded outbox_extends_def] row3 [unfolded eq]], rule that)
  ultimately have "pc_token c1 < px_claim_token u"
    by (simp add: row_extends_def s2)
  note dead = stale_claim_refused [OF inv4, of c1 u, unfolded c1(2), OF u(1) this]
  have "\<not> is_ok (retry_projection d4 c1 err nb t)"
    using dead(1) by (auto simp: is_ok_iff retry_projection_def finish_claim_def res_bind_Inr if_Inl_Inr)
  with dead show ?thesis
    by (simp add: renew_projection_claim_def complete_projection_def block_projection_def
        finish_claim_def)
qed

theorem superseded_claim_is_dead_witness:
  "\<not> is_ok (complete_projection (sample_outbox\<lparr>db_outbox := [row_twice]\<rparr>)
     (sample_claim 1 row_once) 1001)"
  using superseded_claim_is_dead [OF sample_outbox_inv sample_first_claim _ sample_second_claim,
      of "[]" "[]"]
  by (simp add: sample_claim_def row_twice_def claim_row_def)

end
