(* ===== verification/Receipts.thy ===== *)
theory Receipts
  imports Outbox
begin

text \<open>
  Effect receipts, the receipt operations of crates/task-runtime/src/store.rs: an external
  effect is prepared under an idempotency key, claimed once for execution, then completed,
  released as not applied, or left uncertain for a human to resolve. The statement that
  resolves an uncertain receipt and the one that compensates a completed one
  (crates/task-runtime/src/execution_store.rs) are here as well; the checks around them are
  in the execution store.
\<close>

section \<open>Operations\<close>

record new_receipt =
  nr_receipt_ref :: effect_receipt_ref
  nr_execution_id :: string
  nr_revision :: u64
  nr_run_id :: "string option"
  nr_thread_id :: "string option"
  nr_user_id :: string
  nr_workspace_id :: string
  nr_effect_class :: effect_class
  nr_operation :: string
  nr_arguments_hash :: string
  nr_idempotency_key :: string
  nr_compensation :: "json option"

datatype effect_receipt_claim =
  Execute effect_receipt
| Replay effect_receipt
| Resolve effect_receipt

definition load_effect_receipt :: "db \<Rightarrow> effect_receipt_ref \<Rightarrow> effect_receipt option" where
  "load_effect_receipt d ref = row_of rc_receipt_ref ref (db_receipts d)"

definition prepared_row :: "new_receipt \<Rightarrow> int \<Rightarrow> effect_receipt" where
  "prepared_row nr now =
     \<lparr>rc_receipt_ref = nr_receipt_ref nr, rc_execution_id = nr_execution_id nr,
      rc_revision = nr_revision nr, rc_idempotency_key = nr_idempotency_key nr,
      rc_run_id = nr_run_id nr, rc_thread_id = nr_thread_id nr, rc_user_id = nr_user_id nr,
      rc_workspace_id = nr_workspace_id nr, rc_effect_class = nr_effect_class nr,
      rc_operation = nr_operation nr, rc_arguments_hash = nr_arguments_hash nr,
      rc_status = Prepared, rc_result_json = None, rc_effects_json = None,
      rc_error_json = None, rc_compensation = nr_compensation nr, rc_prepared_at = now,
      rc_started_at = None, rc_resolved_at = None\<rparr>"

text \<open>\<open>INSERT OR IGNORE\<close>: a row with the same reference or idempotency key wins.\<close>

definition insert_receipt :: "db \<Rightarrow> effect_receipt \<Rightarrow> db" where
  "insert_receipt d r =
     (if list_ex (\<lambda>q. rc_receipt_ref q = rc_receipt_ref r \<or>
          rc_execution_id q = rc_execution_id r \<and>
          rc_idempotency_key q = rc_idempotency_key r) (db_receipts d)
      then d else d\<lparr>db_receipts := db_receipts d @ [r]\<rparr>)"

definition prepare_effect_receipt_on :: "db \<Rightarrow> new_receipt \<Rightarrow> int \<Rightarrow> effect_receipt tx" where
  "prepare_effect_receipt_on d nr now =
     (if nr_revision nr = 0 \<or> is_blank (nr_execution_id nr) \<or> is_blank (nr_operation nr) \<or>
          is_blank (nr_arguments_hash nr) \<or> is_blank (nr_idempotency_key nr)
        then Inl (Store ''effect receipt identity and operation fields must be nonempty'')
      else if \<not> fits_i64 (nr_revision nr)
        then Inl (Store ''effect receipt revision is out of range'')
      else let d' = insert_receipt d (prepared_row nr now) in
        res_bind (ok_or (Store ''effect receipt disappeared after prepare'')
          (load_effect_receipt d' (nr_receipt_ref nr))) (\<lambda>r.
        if rc_execution_id r \<noteq> nr_execution_id nr \<or> rc_revision r \<noteq> nr_revision nr \<or>
            rc_idempotency_key r \<noteq> nr_idempotency_key nr \<or>
            rc_effect_class r \<noteq> nr_effect_class nr \<or> rc_operation r \<noteq> nr_operation nr \<or>
            rc_arguments_hash r \<noteq> nr_arguments_hash nr \<or> rc_user_id r \<noteq> nr_user_id nr \<or>
            rc_workspace_id r \<noteq> nr_workspace_id nr
          then Inl (Store ''effect receipt reference or idempotency key conflicts with existing scope'')
        else Inr (d', r)))"

text \<open>\<open>UPDATE ... WHERE receipt_ref = ? AND status = ?\<close> with its number of changed rows.\<close>

definition update_receipt ::
  "db \<Rightarrow> effect_receipt_ref \<Rightarrow> effect_receipt_status \<Rightarrow> (effect_receipt \<Rightarrow> effect_receipt)
   \<Rightarrow> db \<times> nat" where
  "update_receipt d ref status f =
     (let P = (\<lambda>r. rc_receipt_ref r = ref \<and> rc_status r = status) in
      (d\<lparr>db_receipts := update_where P f (db_receipts d)\<rparr>, count_where P (db_receipts d)))"

definition start_row :: "int \<Rightarrow> effect_receipt \<Rightarrow> effect_receipt" where
  "start_row now r =
     r\<lparr>rc_status := Started, rc_started_at := Some now, rc_result_json := None,
       rc_effects_json := None, rc_error_json := None, rc_resolved_at := None\<rparr>"

definition claim_effect_receipt_on ::
  "db \<Rightarrow> effect_receipt_ref \<Rightarrow> int \<Rightarrow> effect_receipt_claim tx" where
  "claim_effect_receipt_on d ref now =
     res_bind (ok_or (NotFound (effect_receipt_ref_str ref)) (load_effect_receipt d ref)) (\<lambda>r.
     (case rc_status r of
        Prepared \<Rightarrow>
          (case update_receipt d ref Prepared (start_row now) of (d', changed) \<Rightarrow>
             if changed \<noteq> 1 then Inl (Store ''effect receipt was claimed concurrently'')
             else res_bind (ok_or (Store ''claimed effect receipt disappeared'')
               (load_effect_receipt d' ref)) (\<lambda>r'. Inr (d', Execute r')))
      | Started \<Rightarrow>
          (case update_receipt d ref Started (\<lambda>r. r\<lparr>rc_status := Uncertain\<rparr>) of (d', _) \<Rightarrow>
             res_bind (ok_or (Store ''uncertain effect receipt disappeared'')
               (load_effect_receipt d' ref)) (\<lambda>r'. Inr (d', Resolve r')))
      | EffCompleted \<Rightarrow> Inr (d, Replay r)
      | Compensated \<Rightarrow> Inr (d, Replay r)
      | EffFailed \<Rightarrow> Inr (d, Resolve r)
      | Uncertain \<Rightarrow> Inr (d, Resolve r)))"

definition claim_existing_non_executable ::
  "db \<Rightarrow> effect_receipt_ref \<Rightarrow> int \<Rightarrow> effect_receipt_claim option tx" where
  "claim_existing_non_executable d ref now =
     (case load_effect_receipt d ref of
        None \<Rightarrow> Inr (d, None)
      | Some r \<Rightarrow>
          if rc_status r = Prepared then Inr (d, None)
          else res_bind (claim_effect_receipt_on d ref now) (\<lambda>(d', c). Inr (d', Some c)))"

definition task_key :: "task_row \<Rightarrow> string \<times> string \<times> string" where
  "task_key r = (tk_task_id r, tk_user_id r, tk_workspace_id r)"

definition task_row_of :: "db \<Rightarrow> string \<Rightarrow> string \<Rightarrow> string \<Rightarrow> task_row option" where
  "task_row_of d tid uid wid = row_of task_key (tid, uid, wid) (db_tasks d)"

definition lease_current :: "task_record \<Rightarrow> string \<Rightarrow> u64 \<Rightarrow> int \<Rightarrow> bool" where
  "lease_current t owner fence now \<longleftrightarrow>
     t_status t = TRunning \<and> t_lease_owner t = Some owner \<and>
     effective_lease_fencing_token t = Some fence \<and>
     (case t_lease_expires_at t of Some e \<Rightarrow> now < e | None \<Rightarrow> False) \<and>
     pred_option (\<lambda>deadline. now < deadline) (t_deadline t) \<and>
     pred_option (\<lambda>expires_at. now < expires_at) (t_expires_at t)"

definition running_executions :: "db \<Rightarrow> string \<Rightarrow> u64 \<Rightarrow> u64 \<Rightarrow> nat" where
  "running_executions d eid rvn fence =
     count_where (\<lambda>r. xr_execution_id r = eid \<and> xr_revision r = rvn \<and>
       xr_fencing_token r = fence \<and> xr_state r = ''running'') (db_executions d)"

definition prepare_and_claim_effect_receipt ::
  "db \<Rightarrow> new_receipt \<Rightarrow> string \<Rightarrow> u64 \<Rightarrow> int \<Rightarrow> effect_receipt_claim tx" where
  "prepare_and_claim_effect_receipt d nr owner fence now =
     (if is_blank owner \<or> fence = 0
        then Inl (InvalidTransition ''effect claim requires an active execution attempt'')
      else res_bind (claim_existing_non_executable d (nr_receipt_ref nr) (unix_timestamp now))
        (\<lambda>(d1, existing).
      (case existing of
         Some c \<Rightarrow> Inr (d1, c)
       | None \<Rightarrow>
           res_bind (ok_or (NotFound (nr_execution_id nr))
             (task_row_of d (nr_execution_id nr) (nr_user_id nr) (nr_workspace_id nr))) (\<lambda>row.
           if \<not> fits_i64 (nr_revision nr)
             then Inl (Store ''effect receipt revision is out of range'')
           else if \<not> fits_i64 fence
             then Inl (Store ''effect fencing token is out of range'')
           else if \<not> lease_current (tk_json row) owner fence now \<or>
               running_executions d (nr_execution_id nr) (nr_revision nr) fence \<noteq> 1
             then Inl (InvalidTransition ''stale execution attempt cannot claim an effect'')
           else res_bind (prepare_effect_receipt_on d nr (unix_timestamp now)) (\<lambda>(d2, _).
             claim_effect_receipt_on d2 (nr_receipt_ref nr) (unix_timestamp now))))))"

definition projection_executions :: "db \<Rightarrow> new_receipt \<Rightarrow> u64 \<Rightarrow> nat" where
  "projection_executions d nr fence =
     count_where (\<lambda>r. xr_execution_id r = nr_execution_id nr \<and> xr_revision r = nr_revision nr \<and>
       xr_fencing_token r = fence \<and> xr_user_id r = nr_user_id nr \<and>
       xr_workspace_id r = nr_workspace_id nr \<and> xr_thread_id r = nr_thread_id nr)
       (db_executions d)"

definition prepare_and_claim_effect_receipt_for_projection ::
  "db \<Rightarrow> new_receipt \<Rightarrow> u64 \<Rightarrow> projection_claim \<Rightarrow> int \<Rightarrow> effect_receipt_claim tx" where
  "prepare_and_claim_effect_receipt_for_projection d nr fence claim now =
     (if px_execution_id (pc_record claim) \<noteq> nr_execution_id nr \<or>
          px_revision (pc_record claim) \<noteq> nr_revision nr
        then Inl (InvalidTransition
          ''projection claim does not own the adapter effect execution revision'')
      else res_bind (assert_projection_claim_current d claim) (\<lambda>_.
      res_bind (claim_existing_non_executable d (nr_receipt_ref nr) (unix_timestamp now))
        (\<lambda>(d1, existing).
      (case existing of
         Some c \<Rightarrow> Inr (d1, c)
       | None \<Rightarrow>
           if \<not> fits_i64 (nr_revision nr)
             then Inl (Store ''effect receipt revision is out of range'')
           else if \<not> fits_i64 fence
             then Inl (Store ''effect fencing token is out of range'')
           else if projection_executions d nr fence \<noteq> 1
             then Inl (InvalidTransition ''stale execution revision cannot claim adapter output'')
           else res_bind (prepare_effect_receipt_on d nr (unix_timestamp now)) (\<lambda>(d2, _).
             claim_effect_receipt_on d2 (nr_receipt_ref nr) (unix_timestamp now))))))"

text \<open>An update that must change one row, and the receipt it leaves.\<close>

definition settle_receipt ::
  "db \<Rightarrow> effect_receipt_ref \<Rightarrow> effect_receipt_status \<Rightarrow> (effect_receipt \<Rightarrow> effect_receipt)
   \<Rightarrow> task_error \<Rightarrow> string \<Rightarrow> effect_receipt tx" where
  "settle_receipt d ref status f refusal gone =
     (case update_receipt d ref status f of (d', changed) \<Rightarrow>
        if changed \<noteq> 1 then Inl refusal
        else res_bind (ok_or (Store gone) (load_effect_receipt d' ref)) (\<lambda>r. Inr (d', r)))"

definition complete_effect_receipt ::
  "db \<Rightarrow> effect_receipt_ref \<Rightarrow> json \<Rightarrow> json \<Rightarrow> int \<Rightarrow> effect_receipt tx" where
  "complete_effect_receipt d ref result effects now =
     settle_receipt d ref Started
       (\<lambda>r. r\<lparr>rc_status := EffCompleted, rc_result_json := Some result,
             rc_effects_json := Some effects, rc_resolved_at := Some now\<rparr>)
       (Store ''effect receipt is not started'') ''completed effect receipt disappeared''"

definition mark_effect_receipt_uncertain ::
  "db \<Rightarrow> effect_receipt_ref \<Rightarrow> json \<Rightarrow> effect_receipt tx" where
  "mark_effect_receipt_uncertain d ref evidence =
     settle_receipt d ref Started
       (\<lambda>r. r\<lparr>rc_status := Uncertain, rc_effects_json := Some evidence\<rparr>)
       (InvalidTransition ''only a started effect may become uncertain'')
       ''uncertain effect receipt disappeared''"

definition release_effect_receipt_not_applied ::
  "db \<Rightarrow> effect_receipt_ref \<Rightarrow> json \<Rightarrow> int \<Rightarrow> effect_receipt tx" where
  "release_effect_receipt_not_applied d ref err now =
     settle_receipt d ref Started
       (\<lambda>r. r\<lparr>rc_status := Prepared, rc_result_json := None, rc_effects_json := None,
             rc_error_json := Some err, rc_started_at := None, rc_resolved_at := Some now\<rparr>)
       (InvalidTransition ''only a started effect may be released as verified not applied'')
       ''released effect receipt disappeared''"

fun resolution_row :: "effect_receipt_resolution \<Rightarrow> int \<Rightarrow> effect_receipt \<Rightarrow> effect_receipt" where
  "resolution_row (Applied result effects) now r =
     r\<lparr>rc_status := EffCompleted, rc_result_json := Some result, rc_effects_json := Some effects,
       rc_error_json := None, rc_resolved_at := Some now\<rparr>"
| "resolution_row (NotApplied err) now r =
     r\<lparr>rc_status := Prepared, rc_result_json := None, rc_effects_json := None,
       rc_error_json := Some err, rc_resolved_at := Some now\<rparr>"

definition apply_effect_resolution_on ::
  "db \<Rightarrow> effect_receipt_ref \<Rightarrow> effect_receipt_resolution \<Rightarrow> int \<Rightarrow> db \<times> nat" where
  "apply_effect_resolution_on d ref resolution now =
     update_receipt d ref Uncertain (resolution_row resolution now)"

fun receipt_resolution_matches :: "effect_receipt \<Rightarrow> effect_receipt_resolution \<Rightarrow> bool" where
  "receipt_resolution_matches r (Applied result effects) \<longleftrightarrow>
     rc_status r = EffCompleted \<and> rc_result_json r = Some result \<and>
     rc_effects_json r = Some effects \<and> rc_error_json r = None"
| "receipt_resolution_matches r (NotApplied err) \<longleftrightarrow>
     rc_status r = Prepared \<and> rc_result_json r = None \<and> rc_effects_json r = None \<and>
     rc_error_json r = Some err"

definition mark_compensated_on :: "db \<Rightarrow> effect_receipt_ref \<Rightarrow> int \<Rightarrow> db \<times> nat" where
  "mark_compensated_on d ref now =
     update_receipt d ref EffCompleted
       (\<lambda>r. r\<lparr>rc_status := Compensated, rc_resolved_at := Some now\<rparr>)"

definition receipts_order :: "effect_receipt \<Rightarrow> int \<times> string" where
  "receipts_order r = (rc_prepared_at r, rc_idempotency_key r)"

definition list_effect_receipts_for_thread ::
  "db \<Rightarrow> string \<Rightarrow> string \<Rightarrow> string \<Rightarrow> effect_receipt list" where
  "list_effect_receipts_for_thread d thread uid wid =
     sort_key receipts_order (filter (\<lambda>r. rc_thread_id r = Some thread \<and> rc_user_id r = uid \<and>
       rc_workspace_id r = wid) (db_receipts d))"

definition uncertain_effect_receipts_for_user :: "db \<Rightarrow> string \<Rightarrow> effect_receipt list" where
  "uncertain_effect_receipts_for_user d uid =
     sort_key receipts_order (filter (\<lambda>r. rc_user_id r = uid \<and> rc_status r = Uncertain \<and>
       rc_effect_class r \<noteq> Read) (db_receipts d))"

definition list_effect_receipts_for_execution ::
  "db \<Rightarrow> string \<Rightarrow> u64 \<Rightarrow> effect_receipt list task_result" where
  "list_effect_receipts_for_execution d eid rvn =
     (if \<not> fits_i64 rvn then Inl (Store ''effect receipt revision is out of range'')
      else Inr (sort_key receipts_order
        (filter (\<lambda>r. rc_execution_id r = eid \<and> rc_revision r = rvn) (db_receipts d))))"

text \<open>Newest first: compensation undoes effects in reverse order.\<close>

definition pending_compensations :: "db \<Rightarrow> string \<Rightarrow> effect_receipt list" where
  "pending_compensations d eid =
     rev (sort_key receipts_order (filter (\<lambda>r. rc_execution_id r = eid \<and>
       rc_status r = EffCompleted \<and> rc_compensation r \<noteq> None) (db_receipts d)))"

section \<open>How a receipt evolves\<close>

text \<open>
  A receipt keeps what it is about; once its effect is known to have been applied, its result
  is final; a compensated receipt changes no more.
\<close>

definition effect_known :: "effect_receipt \<Rightarrow> bool" where
  "effect_known r \<longleftrightarrow> rc_status r = EffCompleted \<or> rc_status r = Compensated"

definition receipt_extends :: "effect_receipt \<Rightarrow> effect_receipt \<Rightarrow> bool" where
  "receipt_extends r s \<longleftrightarrow>
     rc_receipt_ref s = rc_receipt_ref r \<and> rc_execution_id s = rc_execution_id r \<and>
     rc_revision s = rc_revision r \<and> rc_idempotency_key s = rc_idempotency_key r \<and>
     rc_operation s = rc_operation r \<and> rc_arguments_hash s = rc_arguments_hash r \<and>
     (effect_known r \<longrightarrow> effect_known s \<and> rc_result_json s = rc_result_json r \<and>
        rc_effects_json s = rc_effects_json r) \<and>
     (rc_status r = Compensated \<longrightarrow> rc_status s = Compensated)"

lemma receipt_extends_trans:
  assumes "receipt_extends r s" "receipt_extends s u"
  shows "receipt_extends r u"
  using assms by (simp add: receipt_extends_def)

interpretation receipt_rows: row_history rc_receipt_ref receipt_extends
proof unfold_locales
  show "receipt_extends r u" if "receipt_extends r s" "receipt_extends s u" for r s u
    using that by (rule receipt_extends_trans)
qed (simp_all add: receipt_extends_def)

definition receipts_extend :: "effect_receipt list \<Rightarrow> effect_receipt list \<Rightarrow> bool" where
  "receipts_extend = table_extends rc_receipt_ref receipt_extends"

definition receipts_inv :: "effect_receipt list \<Rightarrow> bool" where
  "receipts_inv t \<longleftrightarrow> distinct (map rc_receipt_ref t) \<and>
     distinct (map (\<lambda>r. (rc_execution_id r, rc_idempotency_key r)) t)"

definition receipts_keep :: "effect_receipt list \<Rightarrow> effect_receipt list \<Rightarrow> bool" where
  "receipts_keep t t' \<longleftrightarrow> receipts_extend t t' \<and> (receipts_inv t \<longrightarrow> receipts_inv t')"

lemma receipts_keep_refl [simp]: "receipts_keep t t"
  by (simp add: receipts_keep_def receipts_extend_def receipt_rows.extends_refl)

lemma receipts_keep_trans:
  assumes "receipts_keep t u" "receipts_keep u v"
  shows "receipts_keep t v"
  using assms receipt_rows.extends_trans
  unfolding receipts_keep_def receipts_extend_def by blast

lemma insert_receipt_keeps: "receipts_keep (db_receipts d) (db_receipts (insert_receipt d r))"
  using receipt_rows.extends_append
  by (auto simp: receipts_keep_def receipts_extend_def insert_receipt_def receipts_inv_def
      list_ex_iff receipt_rows.extends_refl)

lemma update_receipt_keeps:
  assumes "update_receipt d ref status f = (d', n)"
    and ext: "\<And>r. rc_status r = status \<Longrightarrow> receipt_extends r (f r)"
  shows "receipts_keep (db_receipts d) (db_receipts d')"
proof -
  let ?P = "\<lambda>r. rc_receipt_ref r = ref \<and> rc_status r = status"
  have d': "db_receipts d' = update_where ?P f (db_receipts d)"
    using assms(1) by (auto simp: update_receipt_def Let_def)
  have e: "receipt_extends r (f r)" if "?P r" for r
    using ext that by blast
  have "map rc_receipt_ref (db_receipts d') = map rc_receipt_ref (db_receipts d)"
    unfolding d' by (rule receipt_rows.update_keys) (rule e)
  moreover have "map (\<lambda>r. (rc_execution_id r, rc_idempotency_key r)) (db_receipts d') =
      map (\<lambda>r. (rc_execution_id r, rc_idempotency_key r)) (db_receipts d)"
    unfolding d' by (rule map_key_update_where) (use e in \<open>simp add: receipt_extends_def\<close>)
  moreover have "receipts_extend (db_receipts d) (db_receipts d')"
    unfolding d' receipts_extend_def by (rule receipt_rows.extends_update) (rule e)
  ultimately show ?thesis
    by (simp add: receipts_keep_def receipts_inv_def)
qed

lemma load_update_receipt:
  assumes "update_receipt d ref status f = (d', n)"
    and "\<And>r. rc_receipt_ref (f r) = rc_receipt_ref r"
  shows "load_effect_receipt d' k =
    map_option (\<lambda>r. if rc_receipt_ref r = ref \<and> rc_status r = status then f r else r)
      (load_effect_receipt d k)"
  using assms by (auto simp: update_receipt_def Let_def load_effect_receipt_def row_of_update_where)

lemma settle_receipt_Inr:
  "settle_receipt d ref status f refusal gone = Inr (d', r) \<longleftrightarrow>
     update_receipt d ref status f = (d', 1) \<and> load_effect_receipt d' ref = Some r"
  by (auto simp: settle_receipt_def res_bind_Inr if_Inl_Inr split: prod.splits)

lemma prepare_Inr:
  "prepare_effect_receipt_on d nr now = Inr (d', r) \<Longrightarrow>
     d' = insert_receipt d (prepared_row nr now) \<and> load_effect_receipt d' (nr_receipt_ref nr) = Some r \<and>
     rc_operation r = nr_operation nr \<and> rc_arguments_hash r = nr_arguments_hash nr \<and>
     rc_execution_id r = nr_execution_id nr \<and> rc_idempotency_key r = nr_idempotency_key nr"
  by (auto simp: prepare_effect_receipt_on_def Let_def res_bind_Inr if_Inl_Inr)

lemma load_insert_receipt:
  "load_effect_receipt d k = Some r \<Longrightarrow> load_effect_receipt (insert_receipt d q) k = Some r"
  by (simp add: load_effect_receipt_def insert_receipt_def row_of_append_Some)

text \<open>What a claim does, status by status.\<close>

lemma claim_cases:
  assumes "claim_effect_receipt_on d ref now = Inr (d', c)"
  obtains (execute) r s where "load_effect_receipt d ref = Some r" "rc_status r = Prepared"
      "update_receipt d ref Prepared (start_row now) = (d', 1)"
      "load_effect_receipt d' ref = Some s" "c = Execute s"
  | (interrupted) r s n where "load_effect_receipt d ref = Some r" "rc_status r = Started"
      "update_receipt d ref Started (\<lambda>r. r\<lparr>rc_status := Uncertain\<rparr>) = (d', n)"
      "load_effect_receipt d' ref = Some s" "c = Resolve s"
  | (replay) r where "load_effect_receipt d ref = Some r" "effect_known r" "d' = d" "c = Replay r"
  | (unresolved) r where "load_effect_receipt d ref = Some r"
      "rc_status r = EffFailed \<or> rc_status r = Uncertain" "d' = d" "c = Resolve r"
proof -
  obtain r where r: "load_effect_receipt d ref = Some r"
    using assms by (auto simp: claim_effect_receipt_on_def res_bind_Inr)
  show thesis
  proof (cases "rc_status r")
    case Prepared
    with assms r have "\<exists>s. update_receipt d ref Prepared (start_row now) = (d', 1) \<and>
        load_effect_receipt d' ref = Some s \<and> c = Execute s"
      by (auto simp: claim_effect_receipt_on_def res_bind_Inr if_Inl_Inr split: prod.splits)
    with execute [OF r Prepared] show thesis by blast
  next
    case Started
    with assms r have "\<exists>s n. update_receipt d ref Started (\<lambda>r. r\<lparr>rc_status := Uncertain\<rparr>) = (d', n) \<and>
        load_effect_receipt d' ref = Some s \<and> c = Resolve s"
      by (auto simp: claim_effect_receipt_on_def res_bind_Inr split: prod.splits)
    with interrupted [OF r Started] show thesis by blast
  qed (use assms r replay [OF r] unresolved [OF r] in
    \<open>auto simp: claim_effect_receipt_on_def effect_known_def\<close>)
qed

lemma claim_effect_keeps:
  assumes "claim_effect_receipt_on d ref now = Inr (d', c)"
  shows "receipts_keep (db_receipts d) (db_receipts d')"
  using assms
proof (cases rule: claim_cases)
  case (execute r s)
  show ?thesis
    by (rule update_receipt_keeps [OF execute(3)])
      (simp add: receipt_extends_def start_row_def effect_known_def)
next
  case (interrupted r s n)
  show ?thesis
    by (rule update_receipt_keeps [OF interrupted(3)])
      (simp add: receipt_extends_def effect_known_def)
qed simp_all

section \<open>Receipts as a system of commands\<close>

datatype receipt_command =
  PrepareEffect new_receipt int
| ClaimEffect effect_receipt_ref int
| PrepareAndClaim new_receipt string u64 int
| PrepareAndClaimProjection new_receipt u64 projection_claim int
| CompleteEffect effect_receipt_ref json json int
| MarkUncertain effect_receipt_ref json
| ReleaseNotApplied effect_receipt_ref json int
| ApplyResolution effect_receipt_ref effect_receipt_resolution int
| MarkCompensated effect_receipt_ref int

definition discard :: "'a tx \<Rightarrow> db task_result" where
  "discard r = res_bind r (\<lambda>(d, _). Inr d)"

fun receipt_step :: "db \<Rightarrow> receipt_command \<Rightarrow> db task_result" where
  "receipt_step d (PrepareEffect nr now) = discard (prepare_effect_receipt_on d nr now)"
| "receipt_step d (ClaimEffect ref now) = discard (claim_effect_receipt_on d ref now)"
| "receipt_step d (PrepareAndClaim nr owner fence now) =
     discard (prepare_and_claim_effect_receipt d nr owner fence now)"
| "receipt_step d (PrepareAndClaimProjection nr fence claim now) =
     discard (prepare_and_claim_effect_receipt_for_projection d nr fence claim now)"
| "receipt_step d (CompleteEffect ref result effects now) =
     discard (complete_effect_receipt d ref result effects now)"
| "receipt_step d (MarkUncertain ref evidence) =
     discard (mark_effect_receipt_uncertain d ref evidence)"
| "receipt_step d (ReleaseNotApplied ref err now) =
     discard (release_effect_receipt_not_applied d ref err now)"
| "receipt_step d (ApplyResolution ref resolution now) =
     Inr (fst (apply_effect_resolution_on d ref resolution now))"
| "receipt_step d (MarkCompensated ref now) = Inr (fst (mark_compensated_on d ref now))"

text \<open>The commands that make a receipt executable again.\<close>

fun reopens :: "effect_receipt_ref \<Rightarrow> receipt_command \<Rightarrow> bool" where
  "reopens ref (ReleaseNotApplied ref' err now) \<longleftrightarrow> ref' = ref"
| "reopens ref (ApplyResolution ref' (NotApplied err) now) \<longleftrightarrow> ref' = ref"
| "reopens ref _ \<longleftrightarrow> False"

lemma discard_Inr: "discard r = Inr d' \<longleftrightarrow> (\<exists>x. r = Inr (d', x))"
  by (auto simp: discard_def res_bind_Inr)

text \<open>The two combined operations are a claim, or a preparation followed by a claim.\<close>

lemma claim_existing_cases:
  assumes "claim_existing_non_executable d ref now = Inr (d1, existing)"
  obtains (absent) "load_effect_receipt d ref = None" "d1 = d" "existing = None"
  | (fresh) r where "load_effect_receipt d ref = Some r" "rc_status r = Prepared" "d1 = d"
      "existing = None"
  | (claimed) r c where "load_effect_receipt d ref = Some r" "rc_status r \<noteq> Prepared"
      "claim_effect_receipt_on d ref now = Inr (d1, c)" "existing = Some c"
  using assms
  by (auto simp: claim_existing_non_executable_def res_bind_Inr split: option.splits if_splits)

lemma prepare_and_claim_cases:
  assumes "prepare_and_claim_effect_receipt d nr owner fence now = Inr (d', c)"
  obtains (existing) r where "load_effect_receipt d (nr_receipt_ref nr) = Some r"
      "rc_status r \<noteq> Prepared"
      "claim_effect_receipt_on d (nr_receipt_ref nr) (unix_timestamp now) = Inr (d', c)"
  | (worker) row d2 r where
      "task_row_of d (nr_execution_id nr) (nr_user_id nr) (nr_workspace_id nr) = Some row"
      "lease_current (tk_json row) owner fence now"
      "running_executions d (nr_execution_id nr) (nr_revision nr) fence = 1"
      "\<And>q. load_effect_receipt d (nr_receipt_ref nr) = Some q \<Longrightarrow> rc_status q = Prepared"
      "prepare_effect_receipt_on d nr (unix_timestamp now) = Inr (d2, r)"
      "claim_effect_receipt_on d2 (nr_receipt_ref nr) (unix_timestamp now) = Inr (d', c)"
proof -
  obtain d1 e where e: "claim_existing_non_executable d (nr_receipt_ref nr) (unix_timestamp now) =
      Inr (d1, e)"
    using assms by (auto simp: prepare_and_claim_effect_receipt_def res_bind_Inr if_Inl_Inr)
  show thesis
    using e
  proof (cases rule: claim_existing_cases)
    case absent
    with assms show thesis
      by (auto simp: prepare_and_claim_effect_receipt_def res_bind_Inr if_Inl_Inr e intro: worker)
  next
    case (fresh r)
    with assms show thesis
      by (auto simp: prepare_and_claim_effect_receipt_def res_bind_Inr if_Inl_Inr e intro: worker)
  next
    case (claimed r c)
    with assms show thesis
      by (auto simp: prepare_and_claim_effect_receipt_def res_bind_Inr if_Inl_Inr e intro: existing)
  qed
qed

lemma prepare_and_claim_projection_cases:
  assumes "prepare_and_claim_effect_receipt_for_projection d nr fence claim now = Inr (d', c)"
  obtains (existing) r where "load_effect_receipt d (nr_receipt_ref nr) = Some r"
      "rc_status r \<noteq> Prepared"
      "claim_effect_receipt_on d (nr_receipt_ref nr) (unix_timestamp now) = Inr (d', c)"
  | (projector) d2 r where
      "assert_projection_claim_current d claim = Inr ()"
      "projection_executions d nr fence = 1"
      "\<And>q. load_effect_receipt d (nr_receipt_ref nr) = Some q \<Longrightarrow> rc_status q = Prepared"
      "prepare_effect_receipt_on d nr (unix_timestamp now) = Inr (d2, r)"
      "claim_effect_receipt_on d2 (nr_receipt_ref nr) (unix_timestamp now) = Inr (d', c)"
proof -
  obtain d1 e where e: "claim_existing_non_executable d (nr_receipt_ref nr) (unix_timestamp now) =
      Inr (d1, e)"
    using assms
    by (auto simp: prepare_and_claim_effect_receipt_for_projection_def res_bind_Inr if_Inl_Inr)
  show thesis
    using e
  proof (cases rule: claim_existing_cases)
    case absent
    with assms show thesis
      by (auto simp: prepare_and_claim_effect_receipt_for_projection_def res_bind_Inr if_Inl_Inr e
          intro: projector)
  next
    case (fresh r)
    with assms show thesis
      by (auto simp: prepare_and_claim_effect_receipt_for_projection_def res_bind_Inr if_Inl_Inr e
          intro: projector)
  next
    case (claimed r c)
    with assms show thesis
      by (auto simp: prepare_and_claim_effect_receipt_for_projection_def res_bind_Inr if_Inl_Inr e
          intro: existing)
  qed
qed

lemma prepare_keeps:
  "prepare_effect_receipt_on d nr now = Inr (d', r) \<Longrightarrow> receipts_keep (db_receipts d) (db_receipts d')"
  using prepare_Inr insert_receipt_keeps by metis

lemma settle_keeps:
  assumes "settle_receipt d ref Started f refusal gone = Inr (d', r)"
    and "\<And>r. rc_status r = Started \<Longrightarrow> receipt_extends r (f r)"
  shows "receipts_keep (db_receipts d) (db_receipts d')"
  using assms by (auto simp: settle_receipt_Inr intro: update_receipt_keeps)

lemma prepare_and_claim_keeps:
  assumes "prepare_and_claim_effect_receipt d nr owner fence now = Inr (d', c)"
  shows "receipts_keep (db_receipts d) (db_receipts d')"
  using assms
proof (cases rule: prepare_and_claim_cases)
  case (existing r)
  show ?thesis by (rule claim_effect_keeps [OF existing(3)])
next
  case (worker row d2 r)
  show ?thesis
    using prepare_keeps [OF worker(5)] claim_effect_keeps [OF worker(6)] by (rule receipts_keep_trans)
qed

lemma prepare_and_claim_projection_keeps:
  assumes "prepare_and_claim_effect_receipt_for_projection d nr fence claim now = Inr (d', c)"
  shows "receipts_keep (db_receipts d) (db_receipts d')"
  using assms
proof (cases rule: prepare_and_claim_projection_cases)
  case (existing r)
  show ?thesis by (rule claim_effect_keeps [OF existing(3)])
next
  case (projector d2 r)
  show ?thesis
    using prepare_keeps [OF projector(4)] claim_effect_keeps [OF projector(5)]
    by (rule receipts_keep_trans)
qed

lemma resolution_extends: "rc_status r = Uncertain \<Longrightarrow> receipt_extends r (resolution_row res now r)"
  by (cases res) (simp_all add: receipt_extends_def effect_known_def)

lemma receipt_step_keeps:
  assumes "receipt_step d cmd = Inr d'"
  shows "receipts_keep (db_receipts d) (db_receipts d')"
proof (cases cmd)
  case (CompleteEffect ref result effects now)
  with assms show ?thesis
    by (auto simp: discard_Inr complete_effect_receipt_def intro!: settle_keeps
        simp: receipt_extends_def effect_known_def)
next
  case (MarkUncertain ref evidence)
  with assms show ?thesis
    by (auto simp: discard_Inr mark_effect_receipt_uncertain_def intro!: settle_keeps
        simp: receipt_extends_def effect_known_def)
next
  case (ReleaseNotApplied ref err now)
  with assms show ?thesis
    by (auto simp: discard_Inr release_effect_receipt_not_applied_def intro!: settle_keeps
        simp: receipt_extends_def effect_known_def)
next
  case (ApplyResolution ref resolution now)
  show ?thesis
    by (rule update_receipt_keeps [of d ref Uncertain "resolution_row resolution now" d'
          "snd (apply_effect_resolution_on d ref resolution now)"])
      (use assms ApplyResolution resolution_extends in \<open>auto simp: apply_effect_resolution_on_def\<close>)
next
  case (MarkCompensated ref now)
  show ?thesis
    by (rule update_receipt_keeps [of d ref EffCompleted
          "\<lambda>r. r\<lparr>rc_status := Compensated, rc_resolved_at := Some now\<rparr>" d'
          "snd (mark_compensated_on d ref now)"])
      (use assms MarkCompensated in
        \<open>auto simp: mark_compensated_on_def receipt_extends_def effect_known_def\<close>)
qed (use assms in \<open>auto simp: discard_Inr intro: prepare_keeps claim_effect_keeps
  prepare_and_claim_keeps prepare_and_claim_projection_keeps\<close>)

interpretation rs: guarded_system receipt_step "\<lambda>d. receipts_inv (db_receipts d)"
    "\<lambda>d d'. receipts_extend (db_receipts d) (db_receipts d')"
proof unfold_locales
  show "receipts_extend (db_receipts a) (db_receipts c)"
    if "receipts_extend (db_receipts a) (db_receipts b)"
      "receipts_extend (db_receipts b) (db_receipts c)" for a b c
    using that unfolding receipts_extend_def by (rule receipt_rows.extends_trans)
qed (auto dest: receipt_step_keeps simp: receipts_keep_def receipts_extend_def
  receipt_rows.extends_refl)

section \<open>An effect is executed at most once per decision\<close>

definition spent :: "db \<Rightarrow> effect_receipt_ref \<Rightarrow> bool" where
  "spent d ref \<longleftrightarrow> (\<exists>r. load_effect_receipt d ref = Some r \<and> rc_status r \<noteq> Prepared)"

lemma spent_update:
  assumes "spent d ref" "update_receipt d ref' status f = (d', n)"
    and "\<And>r. rc_receipt_ref (f r) = rc_receipt_ref r"
    and "\<And>r. ref' = ref \<Longrightarrow> rc_status (f r) \<noteq> Prepared"
  shows "spent d' ref"
proof -
  obtain r where r: "load_effect_receipt d ref = Some r" "rc_status r \<noteq> Prepared"
    using assms(1) by (auto simp: spent_def)
  then have "rc_receipt_ref r = ref"
    by (simp add: load_effect_receipt_def) (drule row_of_Some_in, simp)
  with r assms(4) show ?thesis
    using load_update_receipt [OF assms(2,3), of ref] by (auto simp: spent_def)
qed

lemma spent_claim:
  assumes "spent d ref" "claim_effect_receipt_on d ref' now = Inr (d', c)"
  shows "spent d' ref" and "ref' = ref \<Longrightarrow> c \<noteq> Execute q"
proof -
  have "spent d' ref \<and> (ref' = ref \<longrightarrow> (\<forall>q. c \<noteq> Execute q))"
    using assms(2)
  proof (cases rule: claim_cases)
    case (execute r s)
    with assms(1) have "ref' \<noteq> ref"
      by (auto simp: spent_def)
    with spent_update [OF assms(1) execute(3)] show ?thesis
      by (simp add: start_row_def)
  next
    case (interrupted r s n)
    with spent_update [OF assms(1) interrupted(3)] show ?thesis by simp
  qed (use assms(1) in simp_all)
  then show "spent d' ref" "ref' = ref \<Longrightarrow> c \<noteq> Execute q" by blast+
qed

lemma claim_spends:
  assumes "claim_effect_receipt_on d ref now = Inr (d', Execute r)"
  shows "spent d' ref"
  using assms
proof (cases rule: claim_cases)
  case (execute q s)
  have "load_effect_receipt d' ref =
      map_option (\<lambda>r. if rc_receipt_ref r = ref \<and> rc_status r = Prepared then start_row now r else r)
        (load_effect_receipt d ref)"
    by (rule load_update_receipt [OF execute(3)]) (simp add: start_row_def)
  moreover have "rc_receipt_ref q = ref"
    using execute(1) by (simp add: load_effect_receipt_def) (drule row_of_Some_in, simp)
  ultimately show ?thesis
    using execute(1,2) by (simp add: spent_def start_row_def)
qed simp_all

lemma spent_insert: "spent d ref \<Longrightarrow> spent (insert_receipt d q) ref"
  using load_insert_receipt by (auto simp: spent_def)

lemma spent_prepare:
  "\<lbrakk>spent d ref; prepare_effect_receipt_on d nr now = Inr (d', r)\<rbrakk> \<Longrightarrow> spent d' ref"
  using prepare_Inr spent_insert by metis

lemma spent_prepare_and_claim:
  assumes "spent d ref" "prepare_and_claim_effect_receipt d nr owner fence now = Inr (d', c)"
  shows "spent d' ref" and "nr_receipt_ref nr = ref \<Longrightarrow> c \<noteq> Execute q"
proof -
  have "spent d' ref \<and> (nr_receipt_ref nr = ref \<longrightarrow> (\<forall>q. c \<noteq> Execute q))"
    using assms(2)
  proof (cases rule: prepare_and_claim_cases)
    case (existing r)
    with spent_claim [OF assms(1) existing(3)] show ?thesis by blast
  next
    case (worker row d2 r)
    have "spent d2 ref" using spent_prepare [OF assms(1) worker(5)] .
    with spent_claim [OF this worker(6)] show ?thesis by blast
  qed
  then show "spent d' ref" "nr_receipt_ref nr = ref \<Longrightarrow> c \<noteq> Execute q" by blast+
qed

lemma spent_prepare_and_claim_projection:
  assumes "spent d ref"
    and "prepare_and_claim_effect_receipt_for_projection d nr fence claim now = Inr (d', c)"
  shows "spent d' ref" and "nr_receipt_ref nr = ref \<Longrightarrow> c \<noteq> Execute q"
proof -
  have "spent d' ref \<and> (nr_receipt_ref nr = ref \<longrightarrow> (\<forall>q. c \<noteq> Execute q))"
    using assms(2)
  proof (cases rule: prepare_and_claim_projection_cases)
    case (existing r)
    with spent_claim [OF assms(1) existing(3)] show ?thesis by blast
  next
    case (projector d2 r)
    have "spent d2 ref" using spent_prepare [OF assms(1) projector(4)] .
    with spent_claim [OF this projector(5)] show ?thesis by blast
  qed
  then show "spent d' ref" "nr_receipt_ref nr = ref \<Longrightarrow> c \<noteq> Execute q" by blast+
qed

lemma spent_step:
  assumes "spent d ref" "receipt_step d cmd = Inr d'" "\<not> reopens ref cmd"
  shows "spent d' ref"
proof (cases cmd)
  case (CompleteEffect ref' result effects now)
  with assms show ?thesis
    by (auto simp: discard_Inr complete_effect_receipt_def settle_receipt_Inr
        elim!: spent_update)
next
  case (MarkUncertain ref' evidence)
  with assms show ?thesis
    by (auto simp: discard_Inr mark_effect_receipt_uncertain_def settle_receipt_Inr
        elim!: spent_update)
next
  case (ReleaseNotApplied ref' err now)
  with assms show ?thesis
    by (auto simp: discard_Inr release_effect_receipt_not_applied_def settle_receipt_Inr
        elim!: spent_update)
next
  case (ApplyResolution ref' resolution now)
  have "update_receipt d ref' Uncertain (resolution_row resolution now) =
      (d', snd (apply_effect_resolution_on d ref' resolution now))"
    using assms(2) ApplyResolution by (auto simp: apply_effect_resolution_on_def)
  then show ?thesis
    by (rule spent_update [OF assms(1)]) (use assms(3) ApplyResolution in \<open>cases resolution; auto\<close>)+
next
  case (MarkCompensated ref' now)
  have "update_receipt d ref' EffCompleted (\<lambda>r. r\<lparr>rc_status := Compensated, rc_resolved_at := Some now\<rparr>) =
      (d', snd (mark_compensated_on d ref' now))"
    using assms(2) MarkCompensated by (auto simp: mark_compensated_on_def)
  then show ?thesis
    by (rule spent_update [OF assms(1)]) simp_all
qed (use assms(1,2) in \<open>auto simp: discard_Inr intro: spent_prepare spent_claim
  spent_prepare_and_claim spent_prepare_and_claim_projection\<close>)

lemma spent_run:
  "\<lbrakk>spent d ref; run_steps receipt_step d cmds = Inr d'; \<forall>c \<in> set cmds. \<not> reopens ref c\<rbrakk>
    \<Longrightarrow> spent d' ref"
proof (induction cmds arbitrary: d)
  case (Cons c cmds)
  then obtain e where e: "receipt_step d c = Inr e" "run_steps receipt_step e cmds = Inr d'"
    by (auto simp: res_bind_Inr)
  have "spent e ref"
    using Cons.prems(1,3) e(1) spent_step by auto
  with Cons.IH [OF this e(2)] Cons.prems(3) show ?case by simp
qed simp

section \<open>Properties of receipts\<close>

definition sample_ref :: effect_receipt_ref where
  "sample_ref = EffectReceiptRef ''r1''"

definition sample_new :: new_receipt where
  "sample_new = \<lparr>nr_receipt_ref = sample_ref, nr_execution_id = ''e1'', nr_revision = 1,
     nr_run_id = None, nr_thread_id = Some ''t'', nr_user_id = ''u'', nr_workspace_id = ''w'',
     nr_effect_class = ExternalWrite, nr_operation = ''s1'', nr_arguments_hash = ''s1'',
     nr_idempotency_key = ''s1'', nr_compensation = None\<rparr>"

definition sample_task :: task_record where
  "sample_task = (new_task ''e1'' ''u'' ''w'' ''chat_turn'' ''s1'' JNull 0)
     \<lparr>t_status := TRunning, t_lease_owner := Some ''worker'',
      t_lease_fencing_token := Some 1, t_lease_expires_at := Some (100 * NANOS)\<rparr>"

definition sample_task_row :: task_row where
  "sample_task_row = \<lparr>tk_task_id = ''e1'', tk_user_id = ''u'', tk_workspace_id = ''w'',
     tk_kind = ''chat_turn'', tk_status = ''running'', tk_created_at = 0, tk_updated_at = 0,
     tk_blocked_reason = None, tk_thread_id = Some ''t'', tk_json = sample_task\<rparr>"

definition sample_running :: folded_execution where
  "sample_running = (ready_revision sample_contract 0 0)
     \<lparr>fo_record := (fo_record (ready_revision sample_contract 0 0))\<lparr>er_state := Running\<rparr>,
      fo_active_attempt := Some \<lparr>at_owner_id = ''worker'', at_fencing_token = 1\<rparr>\<rparr>"

definition sample_worker_db :: db where
  "sample_worker_db = empty_db\<lparr>db_tasks := [sample_task_row],
     db_executions := [projection_row sample_running]\<rparr>"

definition sample_claimed_db :: db where
  "sample_claimed_db = sample_worker_db\<lparr>db_receipts := [start_row 10 (prepared_row sample_new 10)]\<rparr>"

definition sample_completed_db :: db where
  "sample_completed_db = sample_worker_db\<lparr>db_receipts :=
     [(start_row 10 (prepared_row sample_new 10))\<lparr>rc_status := EffCompleted,
        rc_result_json := Some JNull, rc_effects_json := Some JNull, rc_resolved_at := Some 11\<rparr>]\<rparr>"

lemmas receipt_eval = prepare_effect_receipt_on_def insert_receipt_def prepared_row_def
  load_effect_receipt_def row_of_Cons claim_effect_receipt_on_def update_receipt_def
  count_where_def start_row_def sample_new_def Let_def fits_i64_def i64_max_def

lemma sample_worker_claim:
  "prepare_and_claim_effect_receipt sample_worker_db sample_new ''worker'' 1 (10 * NANOS) =
     Inr (sample_claimed_db, Execute (start_row 10 (prepared_row sample_new 10)))"
proof -
  have lease: "lease_current sample_task ''worker'' 1 (10 * NANOS)"
    by (simp add: lease_current_def sample_task_def new_task_def effective_lease_fencing_token_def
        NANOS_def)
  have running: "running_executions sample_worker_db ''e1'' 1 1 = 1"
    by (simp add: running_executions_def sample_worker_db_def count_where_def projection_row_def
        sample_running_def ready_revision_def Let_def)
  have task: "task_row_of sample_worker_db ''e1'' ''u'' ''w'' = Some sample_task_row"
    by (simp add: task_row_of_def sample_worker_db_def row_of_Cons task_key_def sample_task_row_def)
  have now: "unix_timestamp (10 * NANOS) = 10"
    by (simp add: unix_timestamp_def NANOS_def)
  have receipts: "db_receipts sample_worker_db = []"
    by (simp add: sample_worker_db_def empty_db_def)
  have row: "tk_json sample_task_row = sample_task"
    by (simp add: sample_task_row_def)
  show ?thesis
    unfolding prepare_and_claim_effect_receipt_def sample_claimed_db_def
    by (simp add: claim_existing_non_executable_def lease running task now receipts row receipt_eval)
qed

lemma sample_claim_spent: "claim_effect_receipt_on (sample_worker_db\<lparr>db_receipts :=
     [prepared_row sample_new 10]\<rparr>) sample_ref 10 =
   Inr (sample_claimed_db, Execute (start_row 10 (prepared_row sample_new 10)))"
  by (simp add: sample_claimed_db_def receipt_eval)

lemma sample_complete:
  "receipt_step sample_claimed_db (CompleteEffect sample_ref JNull JNull 11) =
     Inr sample_completed_db"
  by (simp add: sample_claimed_db_def sample_completed_db_def complete_effect_receipt_def
      settle_receipt_def discard_def receipt_eval)

text \<open>
  C35: an effect is handed out for execution at most once per decision: after a claim that
  said \<open>Execute\<close>, no claim of any kind says so again, however the receipt is prepared,
  claimed, completed, marked or compensated in between, unless somebody explicitly records
  that the effect was not applied.
\<close>

theorem effect_executes_once:
  assumes "claim_effect_receipt_on d ref now = Inr (d1, Execute r)"
    and "run_steps receipt_step d1 cmds = Inr d2" "\<forall>c \<in> set cmds. \<not> reopens ref c"
  shows "(\<nexists>d3 q. claim_effect_receipt_on d2 ref now' = Inr (d3, Execute q)) \<and>
    (\<nexists>nr owner fence d3 q. nr_receipt_ref nr = ref \<and>
       prepare_and_claim_effect_receipt d2 nr owner fence now' = Inr (d3, Execute q)) \<and>
    (\<nexists>nr fence claim d3 q. nr_receipt_ref nr = ref \<and>
       prepare_and_claim_effect_receipt_for_projection d2 nr fence claim now' =
         Inr (d3, Execute q))"
proof -
  have s: "spent d2 ref"
    using spent_run [OF claim_spends [OF assms(1)] assms(2,3)] .
  show ?thesis
    using spent_claim(2) [OF s] spent_prepare_and_claim(2) [OF s]
      spent_prepare_and_claim_projection(2) [OF s]
    by (intro conjI notI; elim exE conjE) blast+
qed

theorem effect_executes_once_witness:
  "\<nexists>d3 q. claim_effect_receipt_on sample_completed_db sample_ref 12 = Inr (d3, Execute q)"
  using effect_executes_once [OF sample_claim_spent, of "[CompleteEffect sample_ref JNull JNull 11]"
      sample_completed_db 12]
  by (simp add: sample_complete del: receipt_step.simps)

text \<open>
  A worker is told to execute an effect only while it holds the task's lease under the
  fence it presented, with neither deadline nor expiry passed, and the execution revision it
  names is running under that same fence.
\<close>

lemma stale_worker_never_executes:
  assumes "prepare_and_claim_effect_receipt d nr owner fence now = Inr (d', Execute r)"
  shows "\<exists>row. task_row_of d (nr_execution_id nr) (nr_user_id nr) (nr_workspace_id nr) = Some row \<and>
    lease_current (tk_json row) owner fence now \<and>
    running_executions d (nr_execution_id nr) (nr_revision nr) fence = 1 \<and>
    rc_status r = Started \<and> rc_operation r = nr_operation nr \<and>
    rc_arguments_hash r = nr_arguments_hash nr"
  using assms
proof (cases rule: prepare_and_claim_cases)
  case (existing q)
  then have "spent d (nr_receipt_ref nr)"
    by (auto simp: spent_def)
  with spent_claim(2) existing(3) show ?thesis by blast
next
  case (worker row d2 p)
  from worker(6) have "rc_status r = Started \<and> rc_operation r = nr_operation nr \<and>
    rc_arguments_hash r = nr_arguments_hash nr"
  proof (cases rule: claim_cases)
    case (execute q s)
    have "load_effect_receipt d' (nr_receipt_ref nr) =
        map_option (\<lambda>r. if rc_receipt_ref r = nr_receipt_ref nr \<and> rc_status r = Prepared
          then start_row (unix_timestamp now) r else r) (load_effect_receipt d2 (nr_receipt_ref nr))"
      by (rule load_update_receipt [OF execute(3)]) (simp add: start_row_def)
    moreover have "rc_receipt_ref q = nr_receipt_ref nr"
      using execute(1) by (simp add: load_effect_receipt_def) (drule row_of_Some_in, simp)
    moreover have "q = p"
      using prepare_Inr [OF worker(5)] execute(1) by simp
    ultimately show ?thesis
      using execute prepare_Inr [OF worker(5)] by (auto simp: start_row_def)
  qed simp_all
  with worker(1-3) show ?thesis by blast
qed

lemma stale_worker_never_executes_witness:
  "\<exists>row. task_row_of sample_worker_db ''e1'' ''u'' ''w'' = Some row \<and>
     lease_current (tk_json row) ''worker'' 1 (10 * NANOS)"
  using stale_worker_never_executes [OF sample_worker_claim] by (auto simp: sample_new_def)

text \<open>
  A known result is final: once an effect is recorded as applied, whatever happens
  later, its result and effects stay as recorded, every claim replays them without touching
  the database, and an idempotency key of an execution never has two receipts.
\<close>

lemma known_result_is_replayed:
  assumes "run_steps receipt_step empty_db cmds = Inr d"
    and "load_effect_receipt d ref = Some r" "effect_known r"
    and "run_steps receipt_step d cmds' = Inr d'"
  shows "\<exists>s. load_effect_receipt d' ref = Some s \<and> rc_result_json s = rc_result_json r \<and>
    rc_effects_json s = rc_effects_json r \<and>
    claim_effect_receipt_on d' ref now = Inr (d', Replay s) \<and>
    distinct (map (\<lambda>r. (rc_execution_id r, rc_idempotency_key r)) (db_receipts d'))"
proof -
  have inv: "receipts_inv (db_receipts d)"
    using rs.run_inv [OF _ assms(1)] by (simp add: empty_db_def receipts_inv_def)
  then have inv': "receipts_inv (db_receipts d')"
    using rs.run_inv assms(4) by blast
  have ext: "table_extends rc_receipt_ref receipt_extends (db_receipts d) (db_receipts d')"
    using rs.run_ext [OF inv assms(4)] by (simp add: receipts_extend_def)
  obtain s :: effect_receipt where s: "row_of rc_receipt_ref ref (db_receipts d') = Some s" "receipt_extends r s"
    by (rule table_extendsE [OF ext assms(2) [unfolded load_effect_receipt_def]], rule that)
  have "effect_known s" and same: "rc_result_json s = rc_result_json r"
      "rc_effects_json s = rc_effects_json r"
    using s(2) assms(3) by (simp_all add: receipt_extends_def)
  then have "claim_effect_receipt_on d' ref now = Inr (d', Replay s)"
    using s(1) by (auto simp: claim_effect_receipt_on_def load_effect_receipt_def effect_known_def)
  with s(1) same inv' show ?thesis
    by (intro exI [of _ s]) (simp add: load_effect_receipt_def receipts_inv_def)
qed

lemma sample_lifecycle:
  "run_steps receipt_step empty_db
     [PrepareEffect sample_new 10, ClaimEffect sample_ref 10,
      CompleteEffect sample_ref JNull JNull 11] =
   Inr (empty_db\<lparr>db_receipts := [(start_row 10 (prepared_row sample_new 10))
     \<lparr>rc_status := EffCompleted, rc_result_json := Some JNull, rc_effects_json := Some JNull,
      rc_resolved_at := Some 11\<rparr>]\<rparr>)"
  by (simp add: empty_db_def complete_effect_receipt_def settle_receipt_def discard_def receipt_eval)

lemma known_result_is_replayed_witness:
  "\<exists>s. claim_effect_receipt_on (empty_db\<lparr>db_receipts := [(start_row 10 (prepared_row sample_new 10))
     \<lparr>rc_status := EffCompleted, rc_result_json := Some JNull, rc_effects_json := Some JNull,
      rc_resolved_at := Some 11\<rparr>]\<rparr>) sample_ref 12 =
     Inr (empty_db\<lparr>db_receipts := [(start_row 10 (prepared_row sample_new 10))
       \<lparr>rc_status := EffCompleted, rc_result_json := Some JNull, rc_effects_json := Some JNull,
        rc_resolved_at := Some 11\<rparr>]\<rparr>, Replay s)"
proof -
  let ?r = "(start_row 10 (prepared_row sample_new 10))
     \<lparr>rc_status := EffCompleted, rc_result_json := Some JNull, rc_effects_json := Some JNull,
      rc_resolved_at := Some 11\<rparr>"
  have "load_effect_receipt (empty_db\<lparr>db_receipts := [?r]\<rparr>) sample_ref = Some ?r"
    by (simp add: receipt_eval)
  moreover have "effect_known ?r"
    by (simp add: effect_known_def)
  ultimately show ?thesis
    using known_result_is_replayed [OF sample_lifecycle, of sample_ref ?r "[]"] by auto
qed

end
