(* ===== verification/ExecutionStore.thy ===== *)
theory ExecutionStore
  imports Receipts
begin

text \<open>
  The operations of the execution store, crates/task-runtime/src/execution_store.rs: creating
  an execution, owning and reclaiming its attempts, advancing its fence, committing its
  outcome, continuing it as a new execution, delivering the wake a suspended revision waits
  for, and resolving or compensating its effects. Every operation is one transaction; the
  clock reading it takes is the argument \<open>now\<close>.
\<close>

section \<open>Shared steps\<close>

datatype create_execution = CreInserted execution_record | CreExisting execution_record

datatype start_execution_revision = RevInserted execution_record | RevExisting execution_record

datatype outcome_commit = OutInserted execution_record | OutExisting execution_record

datatype continue_as_new_commit =
  ContInserted execution_record execution_record
| ContExisting execution_record execution_record

record pending_execution_wake =
  pew_execution_id :: string
  pew_revision :: u64
  pew_condition :: wake_condition

record pending_wake_receipt =
  pw_execution_id :: string
  pw_revision :: u64
  pw_dedup_key :: string
  pw_condition :: wake_condition
  pw_created_at :: int

record effect_receipt_resolution_commit =
  ec_receipt :: effect_receipt
  ec_requeued_projections :: nat

text \<open>Loading a journal that has to exist, and writing the projection of its latest revision.\<close>

definition load_required ::
  "db \<Rightarrow> string \<Rightarrow> task_error \<Rightarrow> (execution_event list \<times> folded_journal) task_result" where
  "load_required d eid missing =
     res_bind (load_validated_journal d eid) (\<lambda>j. ok_or missing j)"

definition refresh_projection :: "db \<Rightarrow> string \<Rightarrow> task_error \<Rightarrow> execution_record tx" where
  "refresh_projection d eid missing =
     res_bind (load_required d eid missing) (\<lambda>(evs, rs).
     res_bind (latest rs) (\<lambda>l.
     res_bind (write_projection d l) (\<lambda>d'. Inr (d', fo_record l))))"

definition created_contract :: "execution_event list \<Rightarrow> execution_contract option" where
  "created_contract evs =
     (case evs of
        ev # _ \<Rightarrow> (case ev_event ev of Created v c \<Rightarrow> Some c | _ \<Rightarrow> None)
      | [] \<Rightarrow> None)"

section \<open>Creation\<close>

definition create_execution :: "db \<Rightarrow> execution_contract \<Rightarrow> int \<Rightarrow> create_execution tx" where
  "create_execution d raw now =
     (let eid = c_execution_id raw in
      res_bind (validated_text eid ''execution id'') (\<lambda>_.
      if c_revision raw \<noteq> 1
        then Inl (InvalidTransition ''initial execution creation must use revision one'')
      else res_bind (sqlite_integer (c_revision raw) ''execution revision'') (\<lambda>_.
      res_bind (sqlite_integer (c_fencing_token raw) ''execution fencing token'') (\<lambda>_.
      res_bind (load_validated_journal d eid) (\<lambda>j.
      (case j of
         Some (evs, rs) \<Rightarrow>
           res_bind (ok_or (Store ''execution journal has no leading creation event'')
             (created_contract evs)) (\<lambda>created.
           if created \<noteq> raw
             then Inl (Conflict (''execution journal already exists with a different contract: '' @ eid))
           else res_bind (latest rs) (\<lambda>l.
             res_bind (write_projection d l) (\<lambda>d'. Inr (d', CreExisting (fo_record l)))))
       | None \<Rightarrow>
           if projection_exists d eid
             then Inl (Conflict
               (''execution projection exists without an authoritative journal: '' @ eid))
           else res_bind (append_journal_event d eid (c_revision raw)
               (Created JOURNAL_EVENT_VERSION raw) now) (\<lambda>d1.
             res_bind (refresh_projection d1 eid (Store ''created journal disappeared''))
               (\<lambda>(d2, r). Inr (d2, CreInserted r)))))))))"

section \<open>Wake receipts\<close>

definition wake_key :: "wake_row \<Rightarrow> string \<times> u64 \<times> string" where
  "wake_key w = (wk_execution_id w, wk_revision w, wk_dedup_key w)"

definition verify_registered_wake ::
  "db \<Rightarrow> string \<Rightarrow> u64 \<Rightarrow> execution_outcome \<Rightarrow> int option \<Rightarrow> wake_transition_evidence option
   \<Rightarrow> unit task_result" where
  "verify_registered_wake d eid rvn out committed_at transition =
     (case out of
        OutSuspended wk ck \<Rightarrow>
          if count_where (\<lambda>w. wk_execution_id w = eid \<and> wk_revision w = rvn) (db_wakes d) \<noteq> 1
            then Inl (InvalidTransition
              ''suspended outcome does not have exactly one wake receipt'')
          else res_bind (ok_or (InvalidTransition
              ''suspended outcome wake receipt is missing or conflicting'')
            (row_of wake_key (eid, rvn, dedup_key wk) (db_wakes d))) (\<lambda>row.
          let state_matches =
            (case transition of
               None \<Rightarrow> wk_status row = WkPending \<and> wk_delivery row = None \<and>
                 wk_delivered_at row = None
             | Some t \<Rightarrow> wk_status row = WkDelivered \<and>
                 wk_delivery row = Some (wt_delivery t) \<and>
                 wk_delivered_at row = Some (wd_delivered_at_unix_seconds (wt_delivery t))) in
          if wk_dedup_key row \<noteq> dedup_key wk \<or> wk_condition row \<noteq> wk \<or>
              Some (wk_created_at row) \<noteq> committed_at \<or> \<not> state_matches
            then Inl (InvalidTransition
              ''suspended outcome wake receipt is not canonical journal-matched state'')
          else Inr ())
      | _ \<Rightarrow> Inr ())"

definition register_suspended_wake ::
  "db \<Rightarrow> string \<Rightarrow> u64 \<Rightarrow> execution_outcome \<Rightarrow> int \<Rightarrow> db task_result" where
  "register_suspended_wake d eid rvn out created_at =
     (case out of
        OutSuspended wk ck \<Rightarrow>
          if row_of wake_key (eid, rvn, dedup_key wk) (db_wakes d) \<noteq> None
            then Inl (Store ''UNIQUE constraint failed: execution_wakes'')
          else let d' = d\<lparr>db_wakes := db_wakes d @
              [\<lparr>wk_execution_id = eid, wk_revision = rvn, wk_dedup_key = dedup_key wk,
                wk_condition = wk, wk_status = WkPending, wk_delivery = None,
                wk_created_at = created_at, wk_delivered_at = None\<rparr>]\<rparr> in
            res_bind (verify_registered_wake d' eid rvn out (Some created_at) None) (\<lambda>_. Inr d')
      | _ \<Rightarrow> Inr d)"

definition verify_delivered_wake ::
  "db \<Rightarrow> folded_execution \<Rightarrow> execution_contract \<Rightarrow> wake_transition_evidence task_result" where
  "verify_delivered_wake d prior nxt =
     (case outcome_of (fo_record prior) of
        Some (OutSuspended wk ck) \<Rightarrow>
          res_bind (ok_or (InvalidTransition ''next revision has no wake delivery'')
            (c_wake nxt)) (\<lambda>delivery.
          res_bind (ok_or (InvalidTransition
              ''prior revision has no authoritative wake-delivery event'')
            (fo_wake_transition prior)) (\<lambda>wt.
          if wt_delivery wt \<noteq> delivery \<or> wt_next_revision wt \<noteq> c_revision nxt \<or>
              wt_created_at wt \<noteq> wd_delivered_at_unix_seconds delivery
            then Inl (InvalidTransition
              ''journal wake delivery does not authenticate the revision start'')
          else let p = er_contract (fo_record prior) in
          res_bind (sqlite_integer (c_revision p) ''prior execution revision'') (\<lambda>_.
          res_bind (ok_or (InvalidTransition ''prior revision has no durable wake delivery'')
            (row_of wake_key (c_execution_id p, c_revision p, dedup_key wk) (db_wakes d))) (\<lambda>row.
          res_bind (ok_or (Store ''suspended journal revision has no outcome timestamp'')
            (fo_outcome_committed_at prior)) (\<lambda>suspended_at.
          if wk_dedup_key row \<noteq> dedup_key wk \<or> wk_condition row \<noteq> wk \<or>
              wk_status row \<noteq> WkDelivered \<or> wk_delivery row \<noteq> Some delivery \<or>
              wk_delivered_at row \<noteq> Some (wd_delivered_at_unix_seconds delivery) \<or>
              wd_delivered_at_unix_seconds delivery < suspended_at
            then Inl (InvalidTransition
              ''durable wake delivery does not authenticate the revision start'')
          else Inr wt)))))
      | _ \<Rightarrow> Inl (InvalidTransition ''prior revision has no suspended wake to authenticate''))"

section \<open>Starting a revision\<close>

definition started_contract :: "execution_event list \<Rightarrow> u64 \<Rightarrow> (execution_contract \<times> int) option" where
  "started_contract evs rvn =
     (case find (\<lambda>ev. ev_revision ev = rvn \<and> ev_seq ev = 1) evs of
        Some ev \<Rightarrow> (case ev_event ev of
            RevisionStarted v p c \<Rightarrow> Some (c, ev_created_at ev) | _ \<Rightarrow> None)
      | None \<Rightarrow> None)"

definition start_execution_revision_on ::
  "db \<Rightarrow> execution_contract \<Rightarrow> start_execution_revision tx" where
  "start_execution_revision_on d raw =
     (let eid = c_execution_id raw in
      res_bind (validated_text eid ''execution id'') (\<lambda>_.
      if c_revision raw \<le> 1
        then Inl (InvalidTransition ''a subsequent execution revision must be greater than one'')
      else res_bind (sqlite_integer (c_revision raw) ''execution revision'') (\<lambda>_.
      res_bind (sqlite_integer (c_fencing_token raw) ''execution fencing token'') (\<lambda>_.
      res_bind (load_required d eid (NotFound (''execution '' @ eid))) (\<lambda>(evs, rs).
      res_bind (latest rs) (\<lambda>l.
      if revision_at rs (c_revision raw) \<noteq> None
        then res_bind (ok_or (Store ''execution revision has no leading revision-start event'')
            (started_contract evs (c_revision raw))) (\<lambda>(started, started_at).
          if started \<noteq> raw
            then Inl (Conflict
              (''execution revision already exists with a different contract: '' @ eid @ ''/'' @
               show_u64 (c_revision raw)))
          else res_bind (ok_or (Store ''execution revision has no prior revision'')
            (revision_at rs (c_revision raw - 1))) (\<lambda>prior.
          res_bind (map_err (\<lambda>reason. InvalidTransition (''invalid execution revision: '' @ reason))
            (validate_revision_transition (fo_record prior) raw)) (\<lambda>_.
          res_bind (verify_delivered_wake d prior raw) (\<lambda>wt.
          if started_at \<noteq> wt_created_at wt
            then Inl (Store ''revision-start timestamp does not match wake delivery'')
          else res_bind (write_projection d l) (\<lambda>d'. Inr (d', RevExisting (fo_record l)))))))
      else res_bind (ok_or (InvalidTransition ''execution revision exhausted'')
          (checked_inc (c_revision (er_contract (fo_record l))))) (\<lambda>expected.
        if c_revision raw \<noteq> expected
          then Inl (InvalidTransition
            (''execution revision must advance contiguously to '' @ show_u64 expected))
        else res_bind (map_err (\<lambda>reason. InvalidTransition (''invalid execution revision: '' @ reason))
          (validate_revision_transition (fo_record l) raw)) (\<lambda>_.
        res_bind (verify_delivered_wake d l raw) (\<lambda>wt.
        res_bind (append_journal_event d eid (c_revision raw)
          (RevisionStarted JOURNAL_EVENT_VERSION (c_revision raw - 1) raw) (wt_created_at wt)) (\<lambda>d1.
        res_bind (refresh_projection d1 eid (Store ''started revision disappeared''))
          (\<lambda>(d2, r). Inr (d2, RevInserted r))))))))))))"

section \<open>Attempts and fences\<close>

definition start_execution_attempt ::
  "db \<Rightarrow> string \<Rightarrow> u64 \<Rightarrow> u64 \<Rightarrow> string \<Rightarrow> int \<Rightarrow> execution_record tx" where
  "start_execution_attempt d eid rvn fence owner now =
     res_bind (validated_text eid ''execution id'') (\<lambda>_.
     res_bind (validated_text owner ''execution attempt owner'') (\<lambda>_.
     res_bind (sqlite_integer rvn ''execution attempt revision'') (\<lambda>_.
     res_bind (sqlite_integer fence ''execution attempt fencing token'') (\<lambda>_.
     res_bind (load_required d eid (NotFound (''execution '' @ eid))) (\<lambda>(evs, rs).
     res_bind (latest rs) (\<lambda>current.
     let c = er_contract (fo_record current) in
     if c_revision c \<noteq> rvn \<or> c_fencing_token c \<noteq> fence
       then Inl (InvalidTransition ''execution attempt revision or fencing token is stale'')
     else if er_state (fo_record current) = Running
       then (if fo_active_attempt current = Some \<lparr>at_owner_id = owner, at_fencing_token = fence\<rparr>
             then Inr (d, fo_record current)
             else Inl (Conflict ''execution revision is already owned by another attempt''))
     else if er_state (fo_record current) \<noteq> Ready \<or> er_outcome (fo_record current) \<noteq> None
       then Inl (InvalidTransition ''only a ready execution revision can start an attempt'')
     else res_bind (append_journal_event d eid rvn
         (AttemptStarted JOURNAL_EVENT_VERSION owner fence) now) (\<lambda>d1.
       refresh_projection d1 eid (Store ''claimed journal disappeared''))))))))"

definition reclaim_execution_attempt ::
  "db \<Rightarrow> string \<Rightarrow> u64 \<Rightarrow> u64 \<Rightarrow> u64 \<Rightarrow> string \<Rightarrow> int \<Rightarrow> execution_record tx" where
  "reclaim_execution_attempt d eid rvn expected nxt owner now =
     res_bind (validated_text eid ''execution id'') (\<lambda>_.
     res_bind (validated_text owner ''execution attempt owner'') (\<lambda>_.
     if nxt \<le> expected
       then Inl (InvalidTransition ''reclaimed execution fence must increase'')
     else res_bind (sqlite_integer rvn ''execution attempt revision'') (\<lambda>_.
     res_bind (sqlite_integer expected ''expected execution attempt fence'') (\<lambda>_.
     res_bind (sqlite_integer nxt ''next execution attempt fence'') (\<lambda>_.
     res_bind (load_required d eid (NotFound (''execution '' @ eid))) (\<lambda>(evs, rs).
     res_bind (latest rs) (\<lambda>current.
     let c = er_contract (fo_record current) in
     if er_state (fo_record current) \<noteq> Running \<or> er_outcome (fo_record current) \<noteq> None \<or>
         c_revision c \<noteq> rvn \<or> c_fencing_token c \<noteq> expected
       then Inl (InvalidTransition
         ''only the current running execution attempt can be reclaimed'')
     else res_bind (ok_or (InvalidTransition ''running execution has no durable attempt owner'')
         (fo_active_attempt current)) (\<lambda>previous.
       res_bind (map_err (\<lambda>_. Store ''reclaimed execution contract is invalid'')
         (validated_contract (with_fence nxt c))) (\<lambda>updated.
       res_bind (append_journal_event d eid rvn
         (AttemptReclaimed JOURNAL_EVENT_VERSION (at_owner_id previous) owner expected updated)
         now) (\<lambda>d1.
       refresh_projection d1 eid (Store ''reclaimed journal disappeared'')))))))))))"

definition advance_execution_fence ::
  "db \<Rightarrow> string \<Rightarrow> u64 \<Rightarrow> u64 \<Rightarrow> u64 \<Rightarrow> int \<Rightarrow> execution_record tx" where
  "advance_execution_fence d eid rvn expected nxt now =
     res_bind (validated_text eid ''execution id'') (\<lambda>_.
     if nxt \<le> expected
       then Inl (InvalidTransition ''next execution fence must be greater than expected fence'')
     else res_bind (sqlite_integer rvn ''execution revision'') (\<lambda>_.
     res_bind (sqlite_integer expected ''expected execution fence'') (\<lambda>_.
     res_bind (sqlite_integer nxt ''next execution fence'') (\<lambda>_.
     res_bind (load_required d eid (NotFound (''execution '' @ eid))) (\<lambda>(evs, rs).
     res_bind (latest rs) (\<lambda>current.
     let c = er_contract (fo_record current) in
     if c_revision c \<noteq> rvn
       then Inl (InvalidTransition ''execution revision is stale'')
     else if c_revision c \<noteq> rvn \<or> c_fencing_token c \<noteq> expected
       then Inl (InvalidTransition ''execution revision or fencing token is stale'')
     else if er_outcome (fo_record current) \<noteq> None
       then Inl (InvalidTransition ''cannot advance the fence after an outcome is committed'')
     else if er_state (fo_record current) \<noteq> Ready
       then Inl (InvalidTransition
         ''a running execution fence must advance through attempt reclaim'')
     else res_bind (map_err (\<lambda>_. Store ''advanced execution contract is invalid'')
         (validated_contract (with_fence nxt c))) (\<lambda>updated.
       res_bind (append_journal_event d eid rvn
         (FenceAdvanced JOURNAL_EVENT_VERSION expected updated) now) (\<lambda>d1.
       refresh_projection d1 eid (Store ''advanced journal disappeared'')))))))))"

section \<open>Reading\<close>

definition execution :: "db \<Rightarrow> string \<Rightarrow> execution_record option tx" where
  "execution d eid =
     res_bind (validated_text eid ''execution id'') (\<lambda>_.
     res_bind (load_projection d eid) (\<lambda>projection.
     res_bind (load_validated_journal d eid) (\<lambda>j.
     (case (j, projection) of
        (None, Some p) \<Rightarrow>
          Inl (Store ''execution projection exists without an authoritative journal'')
      | (None, None) \<Rightarrow> Inr (d, None)
      | (Some _, None) \<Rightarrow> Inr (d, None)
      | (Some (evs, rs), Some p) \<Rightarrow>
          res_bind (latest rs) (\<lambda>l.
          if projection_matches_folded d eid p l then Inr (d, Some p)
          else res_bind (write_projection d l) (\<lambda>d'. Inr (d', Some (fo_record l))))))))"

definition execution_revision ::
  "db \<Rightarrow> string \<Rightarrow> u64 \<Rightarrow> execution_record option task_result" where
  "execution_revision d eid rvn =
     res_bind (validated_text eid ''execution id'') (\<lambda>_.
     res_bind (sqlite_integer rvn ''execution revision'') (\<lambda>_.
     res_bind (load_validated_journal d eid) (\<lambda>j.
     (case j of
        None \<Rightarrow> Inr None
      | Some (evs, rs) \<Rightarrow> Inr (map_option fo_record (revision_at rs rvn))))))"

definition execution_events :: "db \<Rightarrow> string \<Rightarrow> u64 \<Rightarrow> execution_event list task_result" where
  "execution_events d eid rvn =
     res_bind (validated_text eid ''execution id'') (\<lambda>_.
     res_bind (sqlite_integer rvn ''execution event revision'') (\<lambda>_.
     res_bind (load_required d eid (NotFound (''execution journal '' @ eid))) (\<lambda>(evs, rs).
     if revision_at rs rvn = None
       then Inl (NotFound (''execution journal '' @ eid @ '' revision '' @ show_u64 rvn))
     else Inr (filter (\<lambda>ev. ev_revision ev = rvn) evs))))"

definition rebuild_execution_projection :: "db \<Rightarrow> string \<Rightarrow> execution_record tx" where
  "rebuild_execution_projection d eid =
     res_bind (validated_text eid ''execution id'') (\<lambda>_.
     refresh_projection d eid (NotFound (''execution journal '' @ eid)))"

definition latest_revision :: "db \<Rightarrow> string \<Rightarrow> nat" where
  "latest_revision d eid =
     foldr max (map (\<lambda>r. unat (ev_revision (rw_event r)))
       (filter (\<lambda>r. ev_execution_id (rw_event r) = eid) (db_events d))) 0"

fun load_committed :: "db \<Rightarrow> string list \<Rightarrow> execution_record list tx" where
  "load_committed d [] = Inr (d, [])"
| "load_committed d (eid # eids) =
     res_bind (execution d eid) (\<lambda>(d1, found).
     res_bind (case found of
        Some r \<Rightarrow> Inr (d1, r)
      | None \<Rightarrow> rebuild_execution_projection d1 eid) (\<lambda>(d2, r).
     if er_outcome r = None
       then Inl (Store (''committed execution scan loaded no outcome: '' @ eid))
     else res_bind (load_committed d2 eids) (\<lambda>(d3, rs). Inr (d3, r # rs))))"

definition committed_executions :: "db \<Rightarrow> nat \<Rightarrow> execution_record list tx" where
  "committed_executions d limit =
     (if limit = 0 then Inr (d, [])
      else load_committed d (take limit (map (\<lambda>r. ev_execution_id (rw_event r))
        (sort_key (\<lambda>r. (ev_created_at (rw_event r), ev_execution_id (rw_event r)))
          (filter (\<lambda>r. rw_kind r = ''outcome_committed'' \<and>
             unat (ev_revision (rw_event r)) = latest_revision d (ev_execution_id (rw_event r)))
            (db_events d))))))"

section \<open>Committing an outcome\<close>

definition commit_execution_outcome_with_requirement ::
  "db \<Rightarrow> validated_outcome \<Rightarrow> bool \<Rightarrow> int \<Rightarrow> outcome_commit tx" where
  "commit_execution_outcome_with_requirement d v require_running now =
     (let b = vo_binding v; eid = bn_execution_id b; out = vo_outcome v in
      res_bind (validated_text eid ''execution id'') (\<lambda>_.
      res_bind (sqlite_integer (bn_revision b) ''execution outcome revision'') (\<lambda>_.
      res_bind (sqlite_integer (bn_fencing_token b) ''execution outcome fencing token'') (\<lambda>_.
      res_bind (load_required d eid (InvalidTransition
          (''execution outcome binding references unknown execution '' @ eid))) (\<lambda>(evs, rs).
      res_bind (ok_or (InvalidTransition ''execution outcome revision is unknown'')
        (revision_at rs (bn_revision b))) (\<lambda>current.
      let c = er_contract (fo_record current) in
      if bn_execution_id b \<noteq> c_execution_id c \<or> bn_revision b \<noteq> c_revision c \<or>
          bn_kind b \<noteq> c_kind c \<or> bn_fencing_token b \<noteq> c_fencing_token c
        then Inl (InvalidTransition
          ''execution outcome binding does not match the authoritative journal'')
      else (case outcome_of (fo_record current) of
          Some existing \<Rightarrow>
            if existing = out
              then res_bind (verify_registered_wake d eid (bn_revision b) existing
                  (fo_outcome_committed_at current) (fo_wake_transition current)) (\<lambda>_.
                res_bind (ok_or (Store ''committed execution outcome has no commit timestamp'')
                  (fo_outcome_committed_at current)) (\<lambda>committed_at.
                res_bind (enqueue_projection d c committed_at) (\<lambda>d'.
                Inr (d', OutExisting (fo_record current)))))
            else Inl (InvalidTransition
              ''a conflicting execution outcome is already committed'')
        | None \<Rightarrow>
            if require_running \<and> er_state (fo_record current) \<noteq> Running
              then Inl (InvalidTransition
                ''production outcome commit requires a running execution attempt'')
            else res_bind (latest rs) (\<lambda>l.
              if c_revision (er_contract (fo_record l)) \<noteq> bn_revision b
                then Inl (InvalidTransition
                  ''cannot commit an outcome to a stale execution revision'')
              else res_bind (append_journal_event d eid (bn_revision b)
                  (OutcomeCommitted JOURNAL_EVENT_VERSION out (state_for_outcome out)) now) (\<lambda>d1.
                res_bind (register_suspended_wake d1 eid (bn_revision b) out now) (\<lambda>d2.
                res_bind (refresh_projection d2 eid (Store ''committed journal disappeared''))
                  (\<lambda>(d3, r).
                res_bind (enqueue_projection d3 c now) (\<lambda>d4. Inr (d4, OutInserted r)))))))))))))"

definition commit_execution_outcome :: "db \<Rightarrow> validated_outcome \<Rightarrow> int \<Rightarrow> outcome_commit tx" where
  "commit_execution_outcome d v now = commit_execution_outcome_with_requirement d v False now"

definition commit_running_execution_outcome ::
  "db \<Rightarrow> validated_outcome \<Rightarrow> int \<Rightarrow> outcome_commit tx" where
  "commit_running_execution_outcome d v now =
     commit_execution_outcome_with_requirement d v True now"

section \<open>Continuing as a new execution\<close>

definition continue_execution_as_new ::
  "db \<Rightarrow> validated_outcome \<Rightarrow> execution_contract \<Rightarrow> int \<Rightarrow> continue_as_new_commit tx" where
  "continue_execution_as_new d completed nxt now =
     (let b = vo_binding completed; parent_id = bn_execution_id b; out = vo_outcome completed in
      (case out of
        OutCompleted output (Some continuation_id) \<Rightarrow>
          if continuation_id \<noteq> c_execution_id nxt \<or> c_execution_id nxt = parent_id \<or>
              c_parent_execution_id nxt \<noteq> Some parent_id \<or> c_revision nxt \<noteq> 1 \<or>
              c_wake nxt \<noteq> None
            then Inl (InvalidTransition
              ''continue-as-new child identity or initial state is invalid'')
          else res_bind (load_required d parent_id
              (NotFound (''execution journal '' @ parent_id))) (\<lambda>(evs, rs).
          res_bind (ok_or (InvalidTransition ''continue-as-new parent revision is unknown'')
            (revision_at rs (bn_revision b))) (\<lambda>parent.
          let pc = er_contract (fo_record parent) in
          res_bind (sqlite_integer (c_revision pc) ''execution revision'') (\<lambda>_.
          res_bind (sqlite_integer (c_fencing_token pc) ''execution fencing token'') (\<lambda>_.
          if \<not> matches_persisted b (c_execution_id pc) (int (unat (c_revision pc))) (c_kind pc)
                (int (unat (c_fencing_token pc))) \<or>
              c_kind nxt \<noteq> c_kind pc \<or> c_scope nxt \<noteq> c_scope pc \<or>
              c_objective nxt \<noteq> c_objective pc \<or> c_policy nxt \<noteq> c_policy pc \<or>
              c_resources nxt \<noteq> c_resources pc \<or> c_budget nxt \<noteq> c_budget pc
            then Inl (InvalidTransition
              ''continue-as-new must preserve execution lineage and policy'')
          else (case outcome_of (fo_record parent) of
              Some existing \<Rightarrow>
                if existing \<noteq> out
                  then Inl (InvalidTransition
                    ''continue-as-new parent already has a conflicting outcome'')
                else res_bind (load_required d continuation_id
                    (Store ''continued parent has no atomically created child execution''))
                  (\<lambda>(cevs, crs).
                res_bind (latest crs) (\<lambda>child.
                if er_contract (fo_record child) \<noteq> nxt
                  then Inl (Conflict
                    ''continue-as-new child contract conflicts with the existing lineage'')
                else Inr (d, ContExisting (fo_record parent) (fo_record child))))
            | None \<Rightarrow>
                res_bind (latest rs) (\<lambda>l.
                if c_revision (er_contract (fo_record l)) \<noteq> bn_revision b
                  then Inl (InvalidTransition
                    ''cannot continue-as-new from a stale execution revision'')
                else res_bind (load_validated_journal d continuation_id) (\<lambda>cj.
                if cj \<noteq> None \<or> projection_exists d continuation_id
                  then Inl (Conflict ''continue-as-new child identity already exists'')
                else res_bind (append_journal_event d parent_id (bn_revision b)
                    (OutcomeCommitted JOURNAL_EVENT_VERSION out Completed) now) (\<lambda>d1.
                  res_bind (refresh_projection d1 parent_id (Store ''continued parent disappeared''))
                    (\<lambda>(d2, completed_record).
                  res_bind (enqueue_projection d2 pc now) (\<lambda>d3.
                  res_bind (append_journal_event d3 continuation_id (c_revision nxt)
                    (Created JOURNAL_EVENT_VERSION nxt) now) (\<lambda>d4.
                  res_bind (refresh_projection d4 continuation_id
                    (Store ''continued child disappeared'')) (\<lambda>(d5, child_record).
                  Inr (d5, ContInserted completed_record child_record)))))))))))))
      | _ \<Rightarrow> Inl (InvalidTransition
          ''continue-as-new requires a completed outcome with a continuation'')))"

section \<open>Delivering wakes\<close>

fun check_pending :: "wake_row list \<Rightarrow> pending_wake_receipt list task_result" where
  "check_pending [] = Inr []"
| "check_pending (w # ws) =
     (if wk_dedup_key w \<noteq> dedup_key (wk_condition w)
        then Inl (Store ''stored wake receipt condition or dedup key is not canonical'')
      else if wk_delivery w \<noteq> None \<or> wk_delivered_at w \<noteq> None
        then Inl (Store ''stored pending wake receipt has delivery state'')
      else res_bind (check_pending ws) (\<lambda>ps.
        Inr (\<lparr>pw_execution_id = wk_execution_id w, pw_revision = wk_revision w,
              pw_dedup_key = wk_dedup_key w, pw_condition = wk_condition w,
              pw_created_at = wk_created_at w\<rparr> # ps)))"

definition wake_order :: "wake_row \<Rightarrow> string \<times> nat \<times> string" where
  "wake_order w = (wk_execution_id w, unat (wk_revision w), wk_dedup_key w)"

definition load_pending_wake_receipts :: "db \<Rightarrow> pending_wake_receipt list task_result" where
  "load_pending_wake_receipts d =
     check_pending (sort_key wake_order (filter (\<lambda>w. wk_status w = WkPending) (db_wakes d)))"

text \<open>
  \<open>project_legacy_task_ready_on\<close>: the task that stands for the execution, when there is
  one, goes back to the queue. \<open>OffsetDateTime::from_unix_timestamp\<close> accepts the years
  \<open>-9999\<close> to \<open>9999\<close>.
\<close>

definition valid_unix_timestamp :: "int \<Rightarrow> bool" where
  "valid_unix_timestamp t \<longleftrightarrow> -377705116800 \<le> t \<and> t \<le> 253402300799"

definition project_legacy_task_ready :: "db \<Rightarrow> execution_contract \<Rightarrow> int \<Rightarrow> db task_result" where
  "project_legacy_task_ready d c updated_at =
     (let k = (c_execution_id c, sc_user_id (c_scope c), sc_workspace_id (c_scope c)) in
      (case row_of task_key k (db_tasks d) of
         None \<Rightarrow> Inr d
       | Some row \<Rightarrow>
           if \<not> valid_unix_timestamp updated_at
             then Inl (Store ''wake delivery timestamp is invalid'')
           else let t = (clear_lease ((tk_json row)\<lparr>t_status := TQueued, t_blocked_reason := None\<rparr>))
                  \<lparr>t_updated_at := updated_at * NANOS\<rparr>;
                P = (\<lambda>r. task_key r = k) in
             if count_where P (db_tasks d) \<noteq> 1
               then Inl (Store ''matching legacy task disappeared during wake projection'')
             else Inr (d\<lparr>db_tasks := update_where P (\<lambda>r. r\<lparr>tk_status := ''queued'',
               tk_blocked_reason := None, tk_updated_at := updated_at, tk_json := t\<rparr>)
               (db_tasks d)\<rparr>)))"

definition resumed_contract ::
  "execution_contract \<Rightarrow> u64 \<Rightarrow> u64 \<Rightarrow> checkpoint_envelope \<Rightarrow> wake_delivery \<Rightarrow> execution_contract" where
  "resumed_contract c rvn fence ck delivery =
     c\<lparr>c_revision := rvn, c_fencing_token := fence,
       c_checkpoint := Some \<lparr>ckr_checkpoint_id = ce_checkpoint_id ck,
         ckr_producer_schema_version = ce_producer_schema_version ck\<rparr>,
       c_wake := Some delivery\<rparr>"

definition delivery_of :: "pending_wake_receipt \<Rightarrow> json \<Rightarrow> int \<Rightarrow> wake_delivery" where
  "delivery_of receipt payload delivered_at =
     \<lparr>wd_condition = pw_condition receipt, wd_dedup_key = pw_dedup_key receipt,
      wd_payload = payload, wd_delivered_at_unix_seconds = delivered_at\<rparr>"

text \<open>\<open>UPDATE execution_wakes SET status = 'delivered' ...\<close> with its number of changed rows.\<close>

definition mark_delivered ::
  "db \<Rightarrow> string \<times> u64 \<times> string \<Rightarrow> wake_delivery \<Rightarrow> int \<Rightarrow> db \<times> nat" where
  "mark_delivered d k delivery delivered_at =
     (let P = (\<lambda>w. wake_key w = k \<and> wk_status w = WkPending \<and>
        wk_delivery w = None \<and> wk_delivered_at w = None) in
      (d\<lparr>db_wakes := update_where P (\<lambda>w. w\<lparr>wk_status := WkDelivered,
         wk_delivery := Some delivery, wk_delivered_at := Some delivered_at\<rparr>) (db_wakes d)\<rparr>,
       count_where P (db_wakes d)))"

definition deliver_pending_wake ::
  "db \<Rightarrow> pending_wake_receipt \<Rightarrow> json \<Rightarrow> int \<Rightarrow> db task_result" where
  "deliver_pending_wake d receipt payload delivered_at =
     (let eid = pw_execution_id receipt; rvn = pw_revision receipt in
      res_bind (load_required d eid
        (Store ''wake receipt has no authoritative execution journal'')) (\<lambda>(evs, rs).
      res_bind (ok_or (Store ''wake receipt references an unknown execution revision'')
        (revision_at rs rvn)) (\<lambda>prior.
      res_bind (latest rs) (\<lambda>l.
      if c_revision (er_contract (fo_record l)) \<noteq> rvn
        then Inl (Store ''pending wake receipt does not belong to the latest execution revision'')
      else res_bind (sqlite_integer_from_store rvn ''wake revision'') (\<lambda>_.
      res_bind (ok_or (Store ''wake revision has no outcome'') (outcome_of (fo_record prior)))
        (\<lambda>out.
      res_bind (verify_registered_wake d eid rvn out (fo_outcome_committed_at prior)
        (fo_wake_transition prior)) (\<lambda>_.
      if delivered_at < pw_created_at receipt
        then Inl (InvalidTransition ''wake delivery predates its suspended outcome'')
      else res_bind (ok_or (InvalidTransition ''execution revision exhausted'')
          (checked_inc rvn)) (\<lambda>next_revision.
        let delivery = delivery_of receipt payload delivered_at in
        res_bind (append_journal_event d eid rvn
          (WakeDelivered JOURNAL_EVENT_VERSION delivery next_revision) delivered_at) (\<lambda>d1.
        (case mark_delivered d1 (eid, rvn, pw_dedup_key receipt) delivery delivered_at of
           (d2, changed) \<Rightarrow>
        if changed \<noteq> 1
          then Inl (Conflict ''wake receipt was delivered concurrently'')
        else
        (case out of
           OutSuspended wk ck \<Rightarrow>
             res_bind (ok_or (InvalidTransition ''execution fencing token exhausted'')
               (checked_inc (c_fencing_token (er_contract (fo_record prior))))) (\<lambda>next_fence.
             res_bind (map_err (\<lambda>_. Store ''generated wake revision contract is invalid'')
               (validated_contract (resumed_contract (er_contract (fo_record prior))
                 next_revision next_fence ck delivery))) (\<lambda>next_contract.
             res_bind (start_execution_revision_on d2 next_contract) (\<lambda>(d3, started).
             (case started of
                RevInserted r \<Rightarrow> project_legacy_task_ready d3 next_contract delivered_at
              | RevExisting r \<Rightarrow> Inl (Conflict
                  ''pending wake already has a started execution revision'')))))
         | _ \<Rightarrow> Inl (Store ''wake receipt does not reference a suspended outcome''))))))))))))"

fun deliver_all ::
  "db \<Rightarrow> (pending_wake_receipt \<times> json) list \<Rightarrow> int \<Rightarrow> nat tx" where
  "deliver_all d [] at = Inr (d, 0)"
| "deliver_all d ((receipt, payload) # ps) at =
     res_bind (deliver_pending_wake d receipt payload at) (\<lambda>d1.
     res_bind (deliver_all d1 ps at) (\<lambda>(d2, n). Inr (d2, Suc n)))"

text \<open>\<open>json!\<close> objects list their members in key order.\<close>

definition timer_payload :: "int \<Rightarrow> json" where
  "timer_payload t =
     JObject [(''scheduled_unix_seconds'', JNumber (show_int t)), (''type'', JString ''timer'')]"

fun due_timer :: "int \<Rightarrow> pending_wake_receipt \<Rightarrow> (int \<times> pending_wake_receipt) option" where
  "due_timer now receipt =
     (case pw_condition receipt of
        At t \<Rightarrow> if t \<le> now then Some (t, receipt) else None
      | _ \<Rightarrow> None)"

definition wake_due_executions :: "db \<Rightarrow> int \<Rightarrow> nat \<Rightarrow> nat tx" where
  "wake_due_executions d now limit =
     res_bind (load_pending_wake_receipts d) (\<lambda>pending.
     let due = sort_key (\<lambda>(t, r). (t, pw_execution_id r, unat (pw_revision r), pw_dedup_key r))
           (List.map_filter (due_timer (unix_timestamp now)) pending) in
     deliver_all d (map (\<lambda>(t, r). (r, timer_payload t)) (take limit due)) (unix_timestamp now))"

text \<open>The wakes already delivered for a condition, each still backed by its journal.\<close>

definition verify_delivered_receipt_journal ::
  "db \<Rightarrow> wake_row \<Rightarrow> wake_condition \<Rightarrow> wake_delivery \<Rightarrow> int \<Rightarrow> unit task_result" where
  "verify_delivered_receipt_journal d w condition delivery delivered_at =
     res_bind (load_required d (wk_execution_id w)
       (Store ''delivered wake receipt has no execution journal'')) (\<lambda>(evs, rs).
     res_bind (ok_or (Store ''delivered wake receipt references an unknown revision'')
       (revision_at rs (wk_revision w))) (\<lambda>prior.
     (case outcome_of (fo_record prior) of
        Some (OutSuspended suspended ck) \<Rightarrow>
          res_bind (ok_or (Store ''delivered wake receipt has no journal delivery evidence'')
            (fo_wake_transition prior)) (\<lambda>t.
          if suspended \<noteq> condition \<or> fo_outcome_committed_at prior \<noteq> Some (wk_created_at w) \<or>
              wt_delivery t \<noteq> delivery \<or> wt_created_at t \<noteq> delivered_at
            then Inl (Store ''delivered wake receipt does not match its journal evidence'')
          else Inr ())
      | _ \<Rightarrow> Inl (Store ''delivered wake receipt does not reference a suspended outcome''))))"

fun verify_delivered_rows ::
  "db \<Rightarrow> wake_condition \<Rightarrow> json option \<Rightarrow> string \<Rightarrow> wake_row list \<Rightarrow> unit task_result" where
  "verify_delivered_rows d condition expected_payload what [] = Inr ()"
| "verify_delivered_rows d condition expected_payload what (w # ws) =
     res_bind (ok_or (Store (''delivered '' @ what @ '' has no delivery JSON'')) (wk_delivery w))
       (\<lambda>delivery.
     res_bind (ok_or (Store (''delivered '' @ what @ '' has no delivery timestamp''))
       (wk_delivered_at w)) (\<lambda>delivered_at.
     if (case expected_payload of Some p \<Rightarrow> wd_payload delivery \<noteq> p | None \<Rightarrow> False)
       then Inl (Conflict ''wake was already delivered with a different payload'')
     else if wk_dedup_key w \<noteq> dedup_key condition \<or> wd_condition delivery \<noteq> condition \<or>
         wd_dedup_key delivery \<noteq> wk_dedup_key w \<or>
         wd_delivered_at_unix_seconds delivery \<noteq> delivered_at \<or> delivered_at < wk_created_at w
       then Inl (Store (''stored delivered '' @ what @ '' receipt is not canonical''))
     else res_bind (verify_delivered_receipt_journal d w condition delivery delivered_at) (\<lambda>_.
       verify_delivered_rows d condition expected_payload what ws)))"

definition delivered_rows :: "db \<Rightarrow> wake_condition \<Rightarrow> wake_row list" where
  "delivered_rows d condition =
     sort_key wake_order (filter (\<lambda>w. wk_status w = WkDelivered \<and> wk_condition w = condition)
       (db_wakes d))"

definition verify_delivered_signal_dedup :: "db \<Rightarrow> string \<Rightarrow> string \<Rightarrow> unit task_result" where
  "verify_delivered_signal_dedup d knd correlation =
     (let condition = Signal knd correlation in
      verify_delivered_rows d condition None ''signal'' (delivered_rows d condition))"

definition verify_delivered_exact_wake :: "db \<Rightarrow> wake_condition \<Rightarrow> json \<Rightarrow> unit task_result" where
  "verify_delivered_exact_wake d condition expected_payload =
     verify_delivered_rows d condition (Some expected_payload) ''wake'' (delivered_rows d condition)"

definition deliver_execution_signal :: "db \<Rightarrow> string \<Rightarrow> string \<Rightarrow> json \<Rightarrow> int \<Rightarrow> nat tx" where
  "deliver_execution_signal d knd correlation payload now =
     res_bind (validated_text knd ''signal kind'') (\<lambda>_.
     res_bind (validated_text correlation ''signal correlation id'') (\<lambda>_.
     res_bind (load_pending_wake_receipts d) (\<lambda>pending.
     res_bind (deliver_all d (map (\<lambda>r. (r, payload))
         (filter (\<lambda>r. pw_condition r = Signal knd correlation) pending)) now) (\<lambda>(d1, n).
     res_bind (if n = 0 then verify_delivered_signal_dedup d1 knd correlation else Inr ()) (\<lambda>_.
     Inr (d1, n))))))"

definition deliver_execution_wake_with ::
  "(db \<Rightarrow> db task_result) \<Rightarrow> db \<Rightarrow> wake_condition \<Rightarrow> json \<Rightarrow> int \<Rightarrow> nat tx" where
  "deliver_execution_wake_with project d condition payload now =
     res_bind (load_pending_wake_receipts d) (\<lambda>all_pending.
     let pending = filter (\<lambda>r. pw_condition r = condition) all_pending in
     res_bind (if pending = [] then Inr d else project d) (\<lambda>d1.
     res_bind (deliver_all d1 (map (\<lambda>r. (r, payload)) pending) now) (\<lambda>(d2, n).
     res_bind (if n = 0 then verify_delivered_exact_wake d2 condition payload else Inr ()) (\<lambda>_.
     Inr (d2, n)))))"

definition deliver_execution_wake :: "db \<Rightarrow> wake_condition \<Rightarrow> json \<Rightarrow> int \<Rightarrow> nat tx" where
  "deliver_execution_wake = deliver_execution_wake_with Inr"

text \<open>The wakes pending in one scope, and dropping those of a cancelled execution.\<close>

fun scoped_wakes ::
  "db \<Rightarrow> string \<Rightarrow> string \<Rightarrow> string option \<Rightarrow> pending_wake_receipt list
   \<Rightarrow> pending_execution_wake list task_result" where
  "scoped_wakes d uid wid tid [] = Inr []"
| "scoped_wakes d uid wid tid (p # ps) =
     res_bind (load_required d (pw_execution_id p)
       (Store ''pending wake has no authoritative execution journal'')) (\<lambda>(evs, rs).
     res_bind (latest rs) (\<lambda>l.
     let c = er_contract (fo_record l) in
     res_bind (scoped_wakes d uid wid tid ps) (\<lambda>rest.
     Inr (if c_revision c = pw_revision p \<and> sc_user_id (c_scope c) = uid \<and>
            sc_workspace_id (c_scope c) = wid \<and> sc_thread_id (c_scope c) = tid
          then \<lparr>pew_execution_id = pw_execution_id p, pew_revision = pw_revision p,
                 pew_condition = pw_condition p\<rparr> # rest
          else rest))))"

definition pending_execution_wakes ::
  "db \<Rightarrow> string \<Rightarrow> string \<Rightarrow> string option \<Rightarrow> pending_execution_wake list task_result" where
  "pending_execution_wakes d uid wid tid =
     res_bind (validated_text uid ''wake scope user id'') (\<lambda>_.
     res_bind (validated_text wid ''wake scope workspace id'') (\<lambda>_.
     if (case tid of Some t \<Rightarrow> is_blank t | None \<Rightarrow> False)
       then Inl (InvalidTransition ''wake scope thread id cannot be blank'')
     else res_bind (load_pending_wake_receipts d) (\<lambda>ps. scoped_wakes d uid wid tid ps)))"

definition discard_pending_execution_wakes :: "db \<Rightarrow> string \<Rightarrow> nat tx" where
  "discard_pending_execution_wakes d eid =
     res_bind (validated_text eid ''wake discard execution id'') (\<lambda>_.
     let P = (\<lambda>w. wk_execution_id w = eid \<and> wk_status w = WkPending) in
     Inr (d\<lparr>db_wakes := delete_where P (db_wakes d)\<rparr>, count_where P (db_wakes d)))"

section \<open>Resolving an uncertain effect\<close>

fun resolution_json :: "effect_receipt_resolution \<Rightarrow> json" where
  "resolution_json (Applied result effects) =
     JObject [(''effects'', effects), (''result'', result), (''type'', JString ''applied'')]"
| "resolution_json (NotApplied err) =
     JObject [(''error'', err), (''type'', JString ''not_applied'')]"

definition resolution_payload :: "effect_receipt_resolution \<Rightarrow> json" where
  "resolution_payload resolution =
     JObject [(''resolution'', resolution_json resolution), (''type'', JString ''effect_resolution'')]"

definition resolution_wakes :: "db \<Rightarrow> effect_receipt \<Rightarrow> wake_row list" where
  "resolution_wakes d r =
     filter (\<lambda>w. wake_key w = (rc_execution_id r, rc_revision r,
       dedup_key (EffectResolution (rc_receipt_ref r)))) (db_wakes d)"

definition terminal_outcome :: "execution_outcome option \<Rightarrow> bool" where
  "terminal_outcome out =
     (case out of
        Some (OutCompleted output continuation) \<Rightarrow> True
      | Some (OutCancelled reason) \<Rightarrow> True
      | Some (OutFailed err) \<Rightarrow> True
      | _ \<Rightarrow> False)"

definition verify_terminal_effect_owner :: "db \<Rightarrow> effect_receipt \<Rightarrow> unit task_result" where
  "verify_terminal_effect_owner d r =
     res_bind (load_required d (rc_execution_id r) (NotFound (rc_execution_id r))) (\<lambda>(evs, rs).
     res_bind (latest rs) (\<lambda>l.
     if c_revision (er_contract (fo_record l)) \<noteq> rc_revision r \<or>
         \<not> terminal_outcome (outcome_of (fo_record l))
       then Inl (InvalidTransition (''effect without a pending wake must belong to the latest '' @
         ''terminal execution revision''))
     else Inr ()))"

definition verify_delivered_effect_resolution ::
  "db \<Rightarrow> effect_receipt \<Rightarrow> json \<Rightarrow> unit task_result" where
  "verify_delivered_effect_resolution d r expected_payload =
     res_bind (sqlite_integer_from_store (rc_revision r) ''wake revision'') (\<lambda>_.
     res_bind (ok_or (InvalidTransition ''resolved effect receipt has no delivered wake'')
       (case filter (\<lambda>w. wk_status w = WkDelivered) (resolution_wakes d r) of
          [] \<Rightarrow> None
        | w # _ \<Rightarrow> wk_delivery w)) (\<lambda>delivery.
     if wd_condition delivery \<noteq> EffectResolution (rc_receipt_ref r) \<or>
         wd_payload delivery \<noteq> expected_payload
       then Inl (Conflict ''effect receipt was resolved with a different durable decision'')
     else Inr ()))"

definition verify_effect_resolution_owner ::
  "db \<Rightarrow> effect_receipt \<Rightarrow> json \<Rightarrow> unit task_result" where
  "verify_effect_resolution_owner d r expected_payload =
     res_bind (sqlite_integer_from_store (rc_revision r) ''wake revision'') (\<lambda>_.
     let wake_count = length (resolution_wakes d r) in
     if wake_count = 0 then verify_terminal_effect_owner d r
     else if wake_count = 1 then verify_delivered_effect_resolution d r expected_payload
     else Inl (InvalidTransition ''effect resolution has more than one matching wake''))"

definition verify_orphaned_effect_owner :: "db \<Rightarrow> effect_receipt \<Rightarrow> unit task_result" where
  "verify_orphaned_effect_owner d r =
     res_bind (load_validated_journal d (rc_execution_id r)) (\<lambda>j.
     if j \<noteq> None
       then Inl (InvalidTransition ''effect receipt still has an authoritative execution journal'')
     else res_bind (sqlite_integer_from_store (rc_revision r) ''wake revision'') (\<lambda>_.
     if resolution_wakes d r \<noteq> []
       then Inl (InvalidTransition ''orphaned effect receipt still owns a resolution wake'')
     else Inr ()))"

definition check_resolution_wakes ::
  "db \<Rightarrow> effect_receipt \<Rightarrow> pending_wake_receipt list \<Rightarrow> unit task_result" where
  "check_resolution_wakes d r pending =
     (case pending of
        [] \<Rightarrow> verify_terminal_effect_owner d r
      | [w] \<Rightarrow>
          if pw_execution_id w \<noteq> rc_execution_id r \<or> pw_revision w \<noteq> rc_revision r
            then Inl (InvalidTransition ''effect receipt does not own its pending resolution wake'')
          else Inr ()
      | _ \<Rightarrow> Inl (InvalidTransition
          ''uncertain effect has more than one pending resolution wake''))"

definition resolve_effect_receipt ::
  "db \<Rightarrow> effect_receipt_ref \<Rightarrow> effect_receipt_resolution \<Rightarrow> int
   \<Rightarrow> effect_receipt_resolution_commit tx" where
  "resolve_effect_receipt d ref resolution now =
     res_bind (ok_or (NotFound (effect_receipt_ref_str ref)) (load_effect_receipt d ref)) (\<lambda>r.
     let payload = resolution_payload resolution in
     if receipt_resolution_matches r resolution
       then res_bind (verify_effect_resolution_owner d r payload) (\<lambda>_.
         (case requeue_blocked_projections d ref now of (d', n) \<Rightarrow>
            Inr (d', \<lparr>ec_receipt = r, ec_requeued_projections = n\<rparr>)))
     else if rc_status r \<noteq> Uncertain
       then Inl (InvalidTransition ''only an uncertain effect receipt may be resolved'')
     else res_bind (load_pending_wake_receipts d) (\<lambda>all_pending.
       let pending = filter (\<lambda>w. pw_condition w = EffectResolution ref) all_pending in
       res_bind (check_resolution_wakes d r pending) (\<lambda>_.
       (case apply_effect_resolution_on d ref resolution now of (d1, changed) \<Rightarrow>
          if changed \<noteq> 1
            then Inl (Conflict ''effect receipt was resolved concurrently'')
          else res_bind (case pending of
              w # _ \<Rightarrow> deliver_pending_wake d1 w payload now
            | [] \<Rightarrow> Inr d1) (\<lambda>d2.
            res_bind (ok_or (Store ''resolved effect receipt disappeared'')
              (load_effect_receipt d2 ref)) (\<lambda>resolved.
            (case requeue_blocked_projections d2 ref now of (d3, n) \<Rightarrow>
               Inr (d3, \<lparr>ec_receipt = resolved, ec_requeued_projections = n\<rparr>))))))))"

definition resolve_orphaned_effect_receipt ::
  "db \<Rightarrow> effect_receipt_ref \<Rightarrow> effect_receipt_resolution \<Rightarrow> int
   \<Rightarrow> effect_receipt_resolution_commit tx" where
  "resolve_orphaned_effect_receipt d ref resolution now =
     res_bind (ok_or (NotFound (effect_receipt_ref_str ref)) (load_effect_receipt d ref)) (\<lambda>r.
     res_bind (verify_orphaned_effect_owner d r) (\<lambda>_.
     res_bind (if receipt_resolution_matches r resolution then Inr d
       else if rc_status r \<noteq> Uncertain
         then Inl (InvalidTransition ''only an uncertain orphaned effect receipt may be resolved'')
       else (case apply_effect_resolution_on d ref resolution now of (d1, changed) \<Rightarrow>
         if changed \<noteq> 1
           then Inl (Conflict ''orphaned effect receipt was resolved concurrently'')
         else Inr d1)) (\<lambda>d1.
     res_bind (ok_or (Store ''resolved effect receipt disappeared'')
       (load_effect_receipt d1 ref)) (\<lambda>resolved.
     (case requeue_blocked_projections d1 ref now of (d2, n) \<Rightarrow>
        Inr (d2, \<lparr>ec_receipt = resolved, ec_requeued_projections = n\<rparr>))))))"

section \<open>Compensating a completed effect\<close>

definition compensates :: "execution_record \<Rightarrow> effect_receipt \<Rightarrow> bool" where
  "compensates child r \<longleftrightarrow>
     c_parent_execution_id (er_contract child) = Some (rc_execution_id r) \<and>
     (case outcome_of child of Some (OutCompleted output continuation) \<Rightarrow> True | _ \<Rightarrow> False)"

text \<open>The compensation table has two unique columns; the insert fails on either.\<close>

definition mark_effect_compensated ::
  "db \<Rightarrow> effect_receipt_ref \<Rightarrow> string \<Rightarrow> int \<Rightarrow> effect_receipt tx" where
  "mark_effect_compensated d ref compensation_id now =
     res_bind (validated_text compensation_id ''compensation execution id'') (\<lambda>_.
     res_bind (ok_or (NotFound (effect_receipt_ref_str ref)) (load_effect_receipt d ref)) (\<lambda>r.
     let existing_link = map_option cp_execution_id
           (row_of cp_receipt_ref ref (db_compensations d)) in
     if rc_status r = Compensated
       then (if existing_link \<noteq> Some compensation_id
             then Inl (Conflict ''effect receipt was compensated by a different execution'')
             else Inr (d, r))
     else if rc_status r \<noteq> EffCompleted \<or> rc_compensation r = None
       then Inl (InvalidTransition
         ''only a completed effect with a compensation recipe may be compensated'')
     else if existing_link \<noteq> None
       then Inl (Conflict ''effect receipt already has compensation evidence'')
     else res_bind (load_required d compensation_id
         (NotFound (''compensation execution '' @ compensation_id))) (\<lambda>(evs, rs).
       res_bind (latest rs) (\<lambda>child.
       if \<not> compensates (fo_record child) r
         then Inl (InvalidTransition
           ''compensation execution is not a completed child of the effect owner'')
       else if list_ex (\<lambda>c. cp_execution_id c = compensation_id) (db_compensations d)
         then Inl (Store ''UNIQUE constraint failed: compensation_execution_id'')
       else let d1 = d\<lparr>db_compensations := db_compensations d @
           [\<lparr>cp_receipt_ref = ref, cp_execution_id = compensation_id, cp_compensated_at = now\<rparr>]\<rparr> in
         (case mark_compensated_on d1 ref now of (d2, changed) \<Rightarrow>
            if changed \<noteq> 1
              then Inl (Conflict ''effect receipt was compensated concurrently'')
            else res_bind (ok_or (Store ''compensated receipt disappeared'')
              (load_effect_receipt d2 ref)) (\<lambda>compensated. Inr (d2, compensated)))))))"

end
