(* ===== verification/StoreInvariant.thy ===== *)
theory StoreInvariant
  imports ExecutionStore
begin

text \<open>
  What every operation of the execution store keeps: each journal in the database loads, its
  projection row is that of its latest revision, a revision's owner holds its contract's
  fence, and the journals only grow. The store is an implementation of the journal machine:
  every operation adds a run of events that \<open>fold_event\<close> accepts, or none.
\<close>

section \<open>One more event of a journal\<close>

definition fenced :: "folded_journal \<Rightarrow> bool" where
  "fenced rs \<longleftrightarrow> (\<forall>f \<in> set rs. owner_fence f = c_fencing_token (er_contract (fo_record f)))"

lemma fenced_Nil [simp]: "fenced []"
  by (simp add: fenced_def)

lemma fenced_snoc [simp]:
  "fenced (rs @ [x]) \<longleftrightarrow> fenced rs \<and> owner_fence x = c_fencing_token (er_contract (fo_record x))"
  by (auto simp: fenced_def)

lemma fenced_single [simp]:
  "fenced [x] \<longleftrightarrow> owner_fence x = c_fencing_token (er_contract (fo_record x))"
  by (simp add: fenced_def)

lemma fenced_set_last:
  "\<lbrakk>fenced rs; owner_fence x = c_fencing_token (er_contract (fo_record x))\<rbrakk> \<Longrightarrow>
    fenced (set_last rs x)"
  by (auto simp: fenced_def set_last_def dest: in_set_butlastD)

lemma fenced_last: "\<lbrakk>fenced rs; rs \<noteq> []\<rbrakk> \<Longrightarrow>
    owner_fence (last rs) = c_fencing_token (er_contract (fo_record (last rs)))"
  by (simp add: fenced_def)

lemma er_contract_ready [simp]: "er_contract (fo_record (ready_revision c s t)) = c"
  by (simp add: ready_revision_def)

lemma fold_event_fenced:
  assumes "fold_event eid rs ev = Inr rs'" "fenced rs"
    and "\<And>v p c. ev_event ev = FenceAdvanced v p c \<Longrightarrow> fo_active_attempt (last rs) = None"
  shows "fenced rs'"
proof (cases "ev_event ev")
  case (FenceAdvanced v p c)
  with assms(1,2) assms(3) [OF FenceAdvanced] show ?thesis
    by (auto simp: fold_event.simps fold_fence_advanced_def fold_simps owner_fence_def
        intro!: fenced_set_last)
next
  case (OutcomeCommitted v out st)
  have owner: "owner_fence (f\<lparr>fo_record := (fo_record f)\<lparr>er_state := s, er_outcome := x,
      er_updated_at := t\<rparr>, fo_outcome_committed_at := y\<rparr>) = owner_fence f" for f s x t y
    by (simp add: owner_fence_def split: option.split)
  from OutcomeCommitted assms(1,2) show ?thesis
    by (auto simp: fold_event.simps fold_outcome_committed_def fold_simps owner fenced_last
        intro!: fenced_set_last)
next
  case (WakeDelivered v delivery next_revision)
  with assms(1,2) show ?thesis
    by (auto simp: fold_event.simps fold_wake_delivered_def fold_simps fenced_last
        intro!: fenced_set_last)
qed (use assms(1,2) in \<open>auto simp: fold_event.simps fold_created_def fold_revision_started_def
  fold_attempt_started_def fold_attempt_reclaimed_def fold_simps intro!: fenced_set_last\<close>)

text \<open>An event opens a revision, works on the open one, or wakes the suspended one.\<close>

lemma fold_event_shape:
  assumes "fold_event eid rs ev = Inr rs'"
  obtains (opened) x where "rs' = rs @ [x]" "er_outcome (fo_record x) = None"
      "fo_wake_transition x = None"
  | (worked) x where "rs \<noteq> []" "rs' = set_last rs x" "er_outcome (fo_record (last rs)) = None"
      "fo_wake_transition x = fo_wake_transition (last rs)"
  | (woken) v delivery next_revision where "rs \<noteq> []"
      "ev_event ev = WakeDelivered v delivery next_revision"
      "rs' = set_last rs ((last rs)\<lparr>fo_wake_transition := Some \<lparr>wt_delivery = delivery,
         wt_next_revision = next_revision, wt_created_at = ev_created_at ev\<rparr>\<rparr>)"
proof (cases "ev_event ev")
  case (Created v c)
  with assms opened [of "ready_revision c (ev_created_at ev) (ev_created_at ev)"] show thesis
    by (auto simp: fold_event.simps fold_created_def fold_simps ready_revision_def)
next
  case (RevisionStarted v p c)
  with assms opened [of "ready_revision c (er_created_at (fo_record (last rs))) (ev_created_at ev)"]
  show thesis
    by (auto simp: fold_event.simps fold_revision_started_def fold_simps ready_revision_def)
next
  case (WakeDelivered v delivery next_revision)
  with assms woken [OF _ WakeDelivered] show thesis
    by (auto simp: fold_event.simps fold_wake_delivered_def fold_simps)
qed (use assms in \<open>auto simp: fold_event.simps fold_fence_advanced_def fold_attempt_started_def
  fold_attempt_reclaimed_def fold_outcome_committed_def fold_simps intro: worked\<close>)

text \<open>So a revision with an outcome changes only when its wake is delivered.\<close>

lemma fold_event_closed:
  assumes "fold_event eid rs ev = Inr rs'" "i < length rs" "er_outcome (fo_record (rs ! i)) \<noteq> None"
    and "\<And>v delivery n. ev_event ev \<noteq> WakeDelivered v delivery n"
  shows "rs' ! i = rs ! i"
  using assms(1)
proof (cases rule: fold_event_shape)
  case (worked x)
  with assms(2,3) have "Suc i \<noteq> length rs"
    by (auto simp: nth_last)
  with worked assms(2) show ?thesis
    by (simp add: nth_set_last)
qed (use assms in \<open>auto simp: nth_append\<close>)

section \<open>The invariant\<close>

definition projection_of :: "folded_journal \<Rightarrow> execution_row option" where
  "projection_of rs = (if rs = [] then None else Some (projection_row (last rs)))"

definition sound :: "db \<Rightarrow> string \<Rightarrow> bool" where
  "sound d eid \<longleftrightarrow>
     (\<exists>evs rs. loaded d eid evs rs \<and> fenced rs \<and> execution_row_of d eid = projection_of rs)"

definition store_inv :: "db \<Rightarrow> bool" where
  "store_inv d \<longleftrightarrow> (\<forall>eid. sound d eid)"

text \<open>
  The journals of the later database continue those of the earlier one; \<open>w\<close> says whether
  wakes may have been delivered in between.
\<close>

fun wakes_up :: "execution_event \<Rightarrow> bool" where
  "wakes_up ev = (case ev_event ev of WakeDelivered v delivery n \<Rightarrow> True | _ \<Rightarrow> False)"

definition store_ext :: "bool \<Rightarrow> db \<Rightarrow> db \<Rightarrow> bool" where
  "store_ext w d d' \<longleftrightarrow>
     (\<forall>eid evs rs. loaded d eid evs rs \<longrightarrow>
        (\<exists>es rs'. loaded d' eid (evs @ es) rs' \<and> journal_extends rs rs' \<and>
           (w \<or> \<not> list_ex wakes_up es)))"

lemma store_invE:
  assumes "store_inv d"
  obtains evs rs where "loaded d eid evs rs" "fenced rs" "execution_row_of d eid = projection_of rs"
  using assms unfolding store_inv_def sound_def by blast

lemma store_extE:
  assumes "store_ext w d d'" "loaded d eid evs rs"
  obtains es rs' where "loaded d' eid (evs @ es) rs'" "journal_extends rs rs'"
    "w \<or> \<not> list_ex wakes_up es"
  using assms unfolding store_ext_def by blast

lemma store_extI:
  assumes "\<And>eid evs rs. loaded d eid evs rs \<Longrightarrow>
    \<exists>es rs'. loaded d' eid (evs @ es) rs' \<and> journal_extends rs rs' \<and> (w \<or> \<not> list_ex wakes_up es)"
  shows "store_ext w d d'"
  using assms unfolding store_ext_def by blast

lemma store_ext_refl [simp]: "store_ext w d d"
  by (rule store_extI) (metis append_Nil2 journal_extends_refl list_ex_iff list.set(1) empty_iff)

lemma store_ext_trans:
  assumes "store_ext w d u" "store_ext w u v"
  shows "store_ext w d v"
proof (rule store_extI)
  fix eid evs rs
  assume "loaded d eid evs rs"
  then obtain es ss where s: "loaded u eid (evs @ es) ss" "journal_extends rs ss"
      "w \<or> \<not> list_ex wakes_up es"
    by (rule store_extE [OF assms(1)])
  obtain fs ts where t: "loaded v eid ((evs @ es) @ fs) ts" "journal_extends ss ts"
      "w \<or> \<not> list_ex wakes_up fs"
    by (rule store_extE [OF assms(2) s(1)])
  have "loaded v eid (evs @ es @ fs) ts"
    using t(1) by simp
  moreover have "journal_extends rs ts"
    using s(2) t(2) by (rule journal_extends_trans)
  moreover have "w \<or> \<not> list_ex wakes_up (es @ fs)"
    using s(3) t(3) by auto
  ultimately show "\<exists>es rs'. loaded v eid (evs @ es) rs' \<and> journal_extends rs rs' \<and>
      (w \<or> \<not> list_ex wakes_up es)"
    by blast
qed

text \<open>Databases with the same journals and projections.\<close>

definition same_journals :: "db \<Rightarrow> db \<Rightarrow> bool" where
  "same_journals d d' \<longleftrightarrow> db_events d' = db_events d \<and> db_executions d' = db_executions d"

lemma same_journals_refl [simp]: "same_journals d d"
  by (simp add: same_journals_def)

lemma same_journals_trans:
  "\<lbrakk>same_journals a b; same_journals b c\<rbrakk> \<Longrightarrow> same_journals a c"
  by (simp add: same_journals_def)

lemma journal_rows_cong: "db_events d' = db_events d \<Longrightarrow> journal_rows d' eid = journal_rows d eid"
  by (simp add: journal_rows_def)

lemma loaded_cong: "db_events d' = db_events d \<Longrightarrow> loaded d' eid evs rs = loaded d eid evs rs"
  unfolding loaded_def read_journal_events_def by (simp only: journal_rows_cong [of d' d])

lemma sound_cong:
  assumes "db_events d' = db_events d" "execution_row_of d' eid = execution_row_of d eid"
  shows "sound d' eid = sound d eid"
  unfolding sound_def loaded_cong [OF assms(1)] assms(2) ..

lemma execution_row_cong:
  "db_executions d' = db_executions d \<Longrightarrow> execution_row_of d' eid = execution_row_of d eid"
  by (simp add: execution_row_of_def)

definition store_keeps :: "bool \<Rightarrow> db \<Rightarrow> db \<Rightarrow> bool" where
  "store_keeps w d d' \<longleftrightarrow> store_inv d' \<and> store_ext w d d'"

lemma store_ext_cong: "db_events d' = db_events d \<Longrightarrow> store_ext w d d'"
proof -
  assume eq: "db_events d' = db_events d"
  have "loaded d eid evs rs \<Longrightarrow> loaded d' eid (evs @ []) rs \<and> journal_extends rs rs \<and>
      (w \<or> \<not> list_ex wakes_up [])" for eid evs rs
    using loaded_cong [OF eq] by simp
  then show ?thesis
    by (intro store_extI) blast
qed

lemma same_journals_keeps: "\<lbrakk>store_inv d; same_journals d d'\<rbrakk> \<Longrightarrow> store_keeps w d d'"
proof -
  assume "store_inv d" and same: "same_journals d d'"
  moreover have "sound d' eid = sound d eid" for eid
    by (intro sound_cong execution_row_cong) (use same in \<open>simp_all add: same_journals_def\<close>)
  ultimately show ?thesis
    by (simp add: store_keeps_def store_inv_def same_journals_def store_ext_cong)
qed

lemma store_keeps_trans: "\<lbrakk>store_keeps w a b; store_keeps w b c\<rbrakk> \<Longrightarrow> store_keeps w a c"
  using store_ext_trans by (auto simp: store_keeps_def)

lemma store_keeps_same: "\<lbrakk>store_keeps w a b; same_journals b c\<rbrakk> \<Longrightarrow> store_keeps w a c"
  using same_journals_keeps store_keeps_trans by (auto simp: store_keeps_def)

section \<open>Appending and refreshing\<close>

text \<open>
  In the middle of an operation the journal of one execution may be ahead of its projection.
\<close>

definition partly_sound :: "db \<Rightarrow> string \<Rightarrow> execution_event list \<Rightarrow> folded_journal \<Rightarrow> bool" where
  "partly_sound d eid evs rs \<longleftrightarrow>
     (\<forall>x. x \<noteq> eid \<longrightarrow> sound d x) \<and> loaded d eid evs rs \<and> fenced rs"

lemma store_inv_partly:
  assumes "store_inv d" "loaded d eid evs rs"
  shows "partly_sound d eid evs rs"
proof -
  obtain evs' rs' where l: "loaded d eid evs' rs'" "fenced rs'"
    by (rule store_invE [OF assms(1)])
  have "rs' = rs"
    using loaded_unique [OF assms(2) l(1)] by blast
  with assms l(2) show ?thesis
    by (simp add: partly_sound_def store_inv_def)
qed

lemma partly_sound_cong:
  assumes "db_events d' = db_events d" "db_executions d' = db_executions d"
  shows "partly_sound d' eid evs rs = partly_sound d eid evs rs"
  unfolding partly_sound_def loaded_cong [OF assms(1)]
    sound_cong [OF assms(1) execution_row_cong [OF assms(2)]] ..

lemma partly_sound_loaded:
  assumes "partly_sound d eid evs rs" "loaded d eid evs' rs'"
  shows "partly_sound d eid evs' rs'"
proof -
  have "loaded d eid evs rs"
    using assms(1) by (simp add: partly_sound_def)
  from loaded_unique [OF this assms(2)] assms(1) show ?thesis by simp
qed

lemma append_frame:
  "append_journal_event d eid rvn e now = Inr d1 \<Longrightarrow>
    db_executions d1 = db_executions d \<and> db_wakes d1 = db_wakes d \<and>
    db_receipts d1 = db_receipts d \<and> db_outbox d1 = db_outbox d \<and>
    db_compensations d1 = db_compensations d \<and> db_tasks d1 = db_tasks d"
  by (simp add: append_Inr)

lemma sound_append_other:
  assumes "append_journal_event d eid rvn e now = Inr d1" "x \<noteq> eid"
  shows "sound d1 x = sound d x"
proof -
  have "execution_row_of d1 x = execution_row_of d x"
    by (rule execution_row_cong) (use append_frame [OF assms(1)] in simp)
  then show ?thesis
    unfolding sound_def loaded_append_other [OF assms] by simp
qed

lemma append_partly:
  assumes old: "partly_sound d eid evs rs" and ap: "append_journal_event d eid rvn e now = Inr d1"
    and rev: "length rs \<le> unat rvn" and new: "loaded d1 eid evs1 rs1"
    and fence: "\<And>v p c. e = FenceAdvanced v p c \<Longrightarrow> fo_active_attempt (last rs) = None"
    and wake: "\<And>v dl n. e = WakeDelivered v dl n \<Longrightarrow> w"
  obtains ev where "evs1 = evs @ [ev]" "fold_event eid rs ev = Inr rs1" "ev_event ev = e"
    "ev_revision ev = rvn" "ev_created_at ev = now" "partly_sound d1 eid evs1 rs1" "store_ext w d d1"
proof -
  have l: "loaded d eid evs rs" and f: "fenced rs" and s: "\<And>x. x \<noteq> eid \<Longrightarrow> sound d x"
    using old by (simp_all add: partly_sound_def)
  obtain ev where ev: "evs1 = evs @ [ev]" "fold_event eid rs ev = Inr rs1" "ev_event ev = e"
    "ev_revision ev = rvn" "ev_created_at ev = now"
    using append_loaded [OF l ap rev new] by blast
  have "fenced rs1"
    by (rule fold_event_fenced [OF ev(2) f]) (use ev(3) fence in blast)
  then have part: "partly_sound d1 eid evs1 rs1"
    using new s sound_append_other [OF ap] by (simp add: partly_sound_def)
  have "journal_extends rs rs1"
    using fold_event_keeps [OF loaded_inv [OF l] ev(2)] by (simp add: keeps_def)
  then have here: "loaded d1 eid (evs @ [ev]) rs1 \<and> journal_extends rs rs1 \<and>
      (w \<or> \<not> list_ex wakes_up [ev])"
    using new ev(1,3) wake by (auto split: journal_event.splits)
  have "\<exists>es ts. loaded d1 x (xs @ es) ts \<and> journal_extends ss ts \<and> (w \<or> \<not> list_ex wakes_up es)"
    if x: "loaded d x xs ss" for x xs ss
  proof (cases "x = eid")
    case True
    with x have "xs = evs \<and> ss = rs"
      using loaded_unique [OF l] by blast
    with here True show ?thesis by blast
  next
    case False
    with x have "loaded d1 x (xs @ []) ss \<and> journal_extends ss ss \<and> (w \<or> \<not> list_ex wakes_up [])"
      using loaded_append_other [OF ap False] by simp
    then show ?thesis by blast
  qed
  then have "store_ext w d d1"
    by (intro store_extI) blast
  with that ev part show thesis by blast
qed

lemma load_required_Inr:
  "load_required d eid missing = Inr (evs, rs) \<longleftrightarrow> loaded d eid evs rs \<and> rs \<noteq> []"
  by (auto simp: load_required_def res_bind_Inr load_Some)

lemma latest_Inr: "latest rs = Inr f \<longleftrightarrow> rs \<noteq> [] \<and> f = last rs"
  by (auto simp: latest_def)

lemma write_projection_frame:
  "write_projection d f = Inr d' \<Longrightarrow> d' = d\<lparr>db_executions := db_executions d'\<rparr>"
  by (auto simp: write_projection_def res_bind_Inr)

lemma write_partly:
  assumes "partly_sound d eid evs rs" "rs \<noteq> []" "write_projection d (last rs) = Inr d'"
  shows "store_inv d'" "loaded d' eid evs rs" "store_ext w d d'"
proof -
  have l: "loaded d eid evs rs" and f: "fenced rs" and s: "\<And>x. x \<noteq> eid \<Longrightarrow> sound d x"
    using assms(1) by (simp_all add: partly_sound_def)
  have evs: "db_events d' = db_events d"
    using arg_cong [OF write_projection_frame [OF assms(3)], of db_events] by simp
  have id: "c_execution_id (er_contract (fo_record (last rs))) = eid"
    using journal_inv_last [OF loaded_inv [OF l] assms(2)] by (simp add: revision_ok_def)
  note row = execution_row_write [OF assms(3), unfolded id]
  show l': "loaded d' eid evs rs"
    using l by (simp add: loaded_cong [OF evs])
  have "sound d' x" for x
  proof (cases "x = eid")
    case True
    then have "execution_row_of d' x = projection_of rs"
      using row assms(2) by (simp add: projection_of_def)
    with l' f True show ?thesis
      unfolding sound_def by blast
  next
    case False
    with s row show ?thesis
      using sound_cong [OF evs, of x] by simp
  qed
  then show "store_inv d'"
    by (simp add: store_inv_def)
  show "store_ext w d d'"
    by (rule store_ext_cong [OF evs])
qed

lemma refresh_Inr:
  assumes "refresh_projection d eid missing = Inr (d', r)"
  obtains evs rs where "loaded d eid evs rs" "rs \<noteq> []" "r = fo_record (last rs)"
    "write_projection d (last rs) = Inr d'"
  using assms by (auto simp: refresh_projection_def res_bind_Inr load_required_Inr latest_Inr)

lemma refresh_frame:
  "refresh_projection d eid missing = Inr (d', r) \<Longrightarrow> d' = d\<lparr>db_executions := db_executions d'\<rparr>"
  by (erule refresh_Inr) (rule write_projection_frame)

text \<open>The common shape of the operations: one event, then the projection of the new journal.\<close>

lemma append_refresh:
  assumes part: "partly_sound d eid evs rs"
    and ap: "append_journal_event d eid rvn e now = Inr d1" and rev: "length rs \<le> unat rvn"
    and same: "same_journals d1 d2" and ref: "refresh_projection d2 eid missing = Inr (d3, r)"
    and fence: "\<And>v p c. e = FenceAdvanced v p c \<Longrightarrow> fo_active_attempt (last rs) = None"
    and wake: "\<And>v dl n. e = WakeDelivered v dl n \<Longrightarrow> w"
  obtains ev rs' where "loaded d3 eid (evs @ [ev]) rs'" "fold_event eid rs ev = Inr rs'"
    "ev_event ev = e" "ev_revision ev = rvn" "ev_created_at ev = now"
    "rs' \<noteq> []" "r = fo_record (last rs')" "store_keeps w d d3"
proof -
  have evs2: "db_events d2 = db_events d1" and exs2: "db_executions d2 = db_executions d1"
    using same by (simp_all add: same_journals_def)
  obtain evs' rs' where r: "loaded d2 eid evs' rs'" "rs' \<noteq> []" "r = fo_record (last rs')"
      "write_projection d2 (last rs') = Inr d3"
    by (rule refresh_Inr [OF ref])
  have new: "loaded d1 eid evs' rs'"
    using r(1) by (simp add: loaded_cong [OF evs2])
  obtain ev where ev: "evs' = evs @ [ev]" "fold_event eid rs ev = Inr rs'" "ev_event ev = e"
    "ev_revision ev = rvn" "ev_created_at ev = now" "partly_sound d1 eid evs' rs'" "store_ext w d d1"
    using append_partly [OF part ap rev new] fence wake by metis
  have part2: "partly_sound d2 eid evs' rs'"
    using ev(6) by (simp add: partly_sound_cong [OF evs2 exs2])
  note w = write_partly [OF part2 r(2) r(4)]
  have "store_ext w d1 d2"
    by (rule store_ext_cong [OF evs2])
  with ev(7) w(3) have "store_ext w d d3"
    using store_ext_trans by blast
  with w(1) have "store_keeps w d d3"
    by (simp add: store_keeps_def)
  moreover have "loaded d3 eid (evs @ [ev]) rs'"
    using w(2) ev(1) by simp
  ultimately show thesis
    using that ev(2-5) r(2,3) by blast
qed

section \<open>Every operation keeps the invariant\<close>

lemma loaded_last:
  assumes "loaded d eid evs rs" "rs \<noteq> []"
  shows "c_execution_id (er_contract (fo_record (last rs))) = eid"
    and "unat (c_revision (er_contract (fo_record (last rs)))) = length rs"
  using journal_inv_last [OF loaded_inv [OF assms(1)] assms(2)] by (simp_all add: revision_ok_def)

lemma revision_at_last:
  assumes "loaded d eid evs rs" "rs \<noteq> []"
  shows "revision_at rs (c_revision (er_contract (fo_record (last rs)))) = Some (last rs)"
proof -
  note n = loaded_last(2) [OF assms]
  then have "c_revision (er_contract (fo_record (last rs))) \<noteq> 0"
    using assms(2) by auto
  with n assms(2) show ?thesis
    by (simp add: revision_at_def last_conv_nth)
qed

lemma write_keeps:
  assumes "store_inv d" "loaded d eid evs rs" "rs \<noteq> []" "write_projection d (last rs) = Inr d'"
  shows "store_keeps w d d'"
  using write_partly [OF store_inv_partly [OF assms(1,2)] assms(3,4)] by (simp add: store_keeps_def)

lemma refresh_keeps:
  assumes "store_inv d" "refresh_projection d eid missing = Inr (d', r)"
  shows "store_keeps w d d'"
  using assms(2) by (rule refresh_Inr) (rule write_keeps [OF assms(1)])

lemmas op_simps = res_bind_Inr if_Inl_Inr Let_def load_required_Inr latest_Inr

lemma created_step:
  assumes inv: "store_inv d" and old: "loaded d eid [] []"
    and ap: "append_journal_event d eid rvn (Created v c) now = Inr d1"
    and ref: "refresh_projection d1 eid missing = Inr (d', r)"
  shows "store_keeps w d d'"
proof -
  have "length ([] :: folded_journal) \<le> unat rvn"
    by simp
  from append_refresh [OF store_inv_partly [OF inv old] ap this same_journals_refl ref]
  show ?thesis by blast
qed

lemma create_keeps:
  assumes inv: "store_inv d" and op: "create_execution d c now = Inr (d', r)"
  shows "store_keeps w d d'"
proof (cases "load_validated_journal d (c_execution_id c)")
  case (Inl e)
  with op show ?thesis
    by (auto simp: create_execution_def op_simps)
next
  case (Inr j)
  show ?thesis
  proof (cases j)
    case None
    then have old: "loaded d (c_execution_id c) [] []"
      using Inr by (simp add: load_None)
    obtain d1 rec where "append_journal_event d (c_execution_id c) (c_revision c)
        (Created JOURNAL_EVENT_VERSION c) now = Inr d1"
      "refresh_projection d1 (c_execution_id c) (Store ''created journal disappeared'') = Inr (d', rec)"
      using op None Inr by (auto simp: create_execution_def op_simps)
    then show ?thesis
      by (rule created_step [OF inv old])
  next
    case (Some p)
    obtain evs rs where p: "p = (evs, rs)"
      by fastforce
    with Inr Some have l: "loaded d (c_execution_id c) evs rs" "rs \<noteq> []"
      by (simp_all add: load_Some)
    obtain d2 where "write_projection d (last rs) = Inr d2" "d2 = d'"
      using op Some Inr p by (auto simp: create_execution_def op_simps)
    with write_keeps [OF inv l] show ?thesis by simp
  qed
qed

text \<open>Attempts and fences: the operation returns unchanged, or adds one event to the latest revision.\<close>

lemma latest_step:
  assumes inv: "store_inv d" and old: "loaded d eid evs rs" "rs \<noteq> []"
    and rev: "c_revision (er_contract (fo_record (last rs))) = rvn"
    and ap: "append_journal_event d eid rvn e now = Inr d1"
    and ref: "refresh_projection d1 eid missing = Inr (d', r)"
    and fence: "\<And>v p c. e = FenceAdvanced v p c \<Longrightarrow> fo_active_attempt (last rs) = None"
    and wake: "\<And>v dl n. e = WakeDelivered v dl n \<Longrightarrow> w"
  obtains ev rs' where "loaded d' eid (evs @ [ev]) rs'" "fold_event eid rs ev = Inr rs'"
    "ev_event ev = e" "ev_revision ev = rvn" "ev_created_at ev = now"
    "rs' \<noteq> []" "r = fo_record (last rs')" "store_keeps w d d'"
proof -
  have "length rs \<le> unat rvn"
    using loaded_last(2) [OF old] rev by simp
  from append_refresh [OF store_inv_partly [OF inv old(1)] ap this same_journals_refl ref] fence wake that show thesis
    by metis
qed

lemma start_attempt_cases:
  assumes "start_execution_attempt d eid rvn fence owner now = Inr (d', r)"
  obtains (owned) evs rs where "loaded d eid evs rs" "rs \<noteq> []" "d' = d" "r = fo_record (last rs)"
      "c_revision (er_contract (fo_record (last rs))) = rvn"
      "c_fencing_token (er_contract (fo_record (last rs))) = fence"
      "er_state (fo_record (last rs)) = Running"
      "fo_active_attempt (last rs) = Some \<lparr>at_owner_id = owner, at_fencing_token = fence\<rparr>"
  | (started) evs rs d1 where "loaded d eid evs rs" "rs \<noteq> []"
      "c_revision (er_contract (fo_record (last rs))) = rvn"
      "c_fencing_token (er_contract (fo_record (last rs))) = fence"
      "er_state (fo_record (last rs)) = Ready"
      "append_journal_event d eid rvn (AttemptStarted JOURNAL_EVENT_VERSION owner fence) now = Inr d1"
      "refresh_projection d1 eid (Store ''claimed journal disappeared'') = Inr (d', r)"
  using assms by (auto simp: start_execution_attempt_def op_simps split: if_splits)

lemma start_attempt_keeps:
  assumes "store_inv d" "start_execution_attempt d eid rvn fence owner now = Inr (d', r)"
  shows "store_keeps w d d'"
  using assms(2)
proof (cases rule: start_attempt_cases)
  case owned
  with assms(1) show ?thesis by (simp add: same_journals_keeps)
next
  case (started evs rs d1)
  show ?thesis
    by (rule latest_step [OF assms(1) started(1,2,3,6,7)]) simp_all
qed

lemma reclaim_cases:
  assumes "reclaim_execution_attempt d eid rvn expected nxt owner now = Inr (d', r)"
  obtains evs rs a d1 where "loaded d eid evs rs" "rs \<noteq> []" "expected < nxt"
      "c_revision (er_contract (fo_record (last rs))) = rvn"
      "c_fencing_token (er_contract (fo_record (last rs))) = expected"
      "er_state (fo_record (last rs)) = Running" "fo_active_attempt (last rs) = Some a"
      "append_journal_event d eid rvn (AttemptReclaimed JOURNAL_EVENT_VERSION (at_owner_id a) owner
         expected (with_fence nxt (er_contract (fo_record (last rs))))) now = Inr d1"
      "refresh_projection d1 eid (Store ''reclaimed journal disappeared'') = Inr (d', r)"
  using assms by (auto simp: reclaim_execution_attempt_def op_simps validated_contract_Inr)

lemma reclaim_keeps:
  assumes "store_inv d" "reclaim_execution_attempt d eid rvn expected nxt owner now = Inr (d', r)"
  shows "store_keeps w d d'"
  using assms(2)
proof (rule reclaim_cases)
  fix evs rs a d1
  assume h: "loaded d eid evs rs" "rs \<noteq> []" "c_revision (er_contract (fo_record (last rs))) = rvn"
    "append_journal_event d eid rvn (AttemptReclaimed JOURNAL_EVENT_VERSION (at_owner_id a) owner
       expected (with_fence nxt (er_contract (fo_record (last rs))))) now = Inr d1"
    "refresh_projection d1 eid (Store ''reclaimed journal disappeared'') = Inr (d', r)"
  show ?thesis
    by (rule latest_step [OF assms(1) h]) simp_all
qed

lemma advance_cases:
  assumes "advance_execution_fence d eid rvn expected nxt now = Inr (d', r)"
  obtains evs rs d1 where "loaded d eid evs rs" "rs \<noteq> []" "expected < nxt"
      "c_revision (er_contract (fo_record (last rs))) = rvn"
      "c_fencing_token (er_contract (fo_record (last rs))) = expected"
      "er_state (fo_record (last rs)) = Ready" "er_outcome (fo_record (last rs)) = None"
      "append_journal_event d eid rvn (FenceAdvanced JOURNAL_EVENT_VERSION expected
         (with_fence nxt (er_contract (fo_record (last rs))))) now = Inr d1"
      "refresh_projection d1 eid (Store ''advanced journal disappeared'') = Inr (d', r)"
  using assms by (auto simp: advance_execution_fence_def op_simps validated_contract_Inr)

lemma ready_unowned:
  assumes "loaded d eid evs rs" "rs \<noteq> []" "er_outcome (fo_record (last rs)) = None"
    "er_state (fo_record (last rs)) = Ready"
  shows "fo_active_attempt (last rs) = None"
  using journal_inv_last [OF loaded_inv [OF assms(1)] assms(2)] assms(3,4)
  by (simp add: revision_ok_def state_agrees_def)

lemma advance_keeps:
  assumes "store_inv d" "advance_execution_fence d eid rvn expected nxt now = Inr (d', r)"
  shows "store_keeps w d d'"
  using assms(2)
proof (rule advance_cases)
  fix evs rs d1
  assume h: "loaded d eid evs rs" "rs \<noteq> []" "c_revision (er_contract (fo_record (last rs))) = rvn"
    "append_journal_event d eid rvn (FenceAdvanced JOURNAL_EVENT_VERSION expected
       (with_fence nxt (er_contract (fo_record (last rs))))) now = Inr d1"
    "refresh_projection d1 eid (Store ''advanced journal disappeared'') = Inr (d', r)"
  assume "er_state (fo_record (last rs)) = Ready" "er_outcome (fo_record (last rs)) = None"
  then have free: "fo_active_attempt (last rs) = None"
    using ready_unowned h(1,2) by blast
  show ?thesis
    by (rule latest_step [OF assms(1) h]) (simp_all add: free)
qed

text \<open>Outcomes.\<close>

lemma enqueue_frame:
  "enqueue_projection d c t = Inr d' \<Longrightarrow> d' = d\<lparr>db_outbox := db_outbox d'\<rparr>"
  by (auto simp: enqueue_projection_def op_simps split: option.splits if_splits)

lemma enqueue_same: "enqueue_projection d c t = Inr d' \<Longrightarrow> same_journals d d'"
  by (drule enqueue_frame) (metis (no_types, lifting) db.select_convs(1,3) db.surjective
      db.update_convs(7) same_journals_def)

lemma register_frame:
  "register_suspended_wake d eid rvn out t = Inr d' \<Longrightarrow> d' = d\<lparr>db_wakes := db_wakes d'\<rparr>"
  by (auto simp: register_suspended_wake_def op_simps split: execution_outcome.splits)

lemma commit_cases:
  assumes "commit_execution_outcome_with_requirement d v running now = Inr (d', c)"
  obtains (existing) evs rs f t where
      "loaded d (bn_execution_id (vo_binding v)) evs rs" "rs \<noteq> []"
      "revision_at rs (bn_revision (vo_binding v)) = Some f"
      "outcome_of (fo_record f) = Some (vo_outcome v)" "fo_outcome_committed_at f = Some t"
      "bn_fencing_token (vo_binding v) = c_fencing_token (er_contract (fo_record f))"
      "enqueue_projection d (er_contract (fo_record f)) t = Inr d'"
      "c = OutExisting (fo_record f)"
  | (inserted) evs rs d1 d2 d3 r where
      "loaded d (bn_execution_id (vo_binding v)) evs rs" "rs \<noteq> []"
      "revision_at rs (bn_revision (vo_binding v)) = Some (last rs)"
      "outcome_of (fo_record (last rs)) = None"
      "c_revision (er_contract (fo_record (last rs))) = bn_revision (vo_binding v)"
      "bn_fencing_token (vo_binding v) = c_fencing_token (er_contract (fo_record (last rs)))"
      "running \<longrightarrow> er_state (fo_record (last rs)) = Running"
      "append_journal_event d (bn_execution_id (vo_binding v)) (bn_revision (vo_binding v))
         (OutcomeCommitted JOURNAL_EVENT_VERSION (vo_outcome v)
           (state_for_outcome (vo_outcome v))) now = Inr d1"
      "register_suspended_wake d1 (bn_execution_id (vo_binding v)) (bn_revision (vo_binding v))
         (vo_outcome v) now = Inr d2"
      "refresh_projection d2 (bn_execution_id (vo_binding v))
         (Store ''committed journal disappeared'') = Inr (d3, r)"
      "enqueue_projection d3 (er_contract (fo_record (last rs))) now = Inr d'"
      "c = OutInserted r"
proof -
  let ?eid = "bn_execution_id (vo_binding v)" and ?rvn = "bn_revision (vo_binding v)"
  obtain evs rs f where l: "loaded d ?eid evs rs" "rs \<noteq> []" "revision_at rs ?rvn = Some f"
    and b: "?rvn = c_revision (er_contract (fo_record f))"
      "bn_fencing_token (vo_binding v) = c_fencing_token (er_contract (fo_record f))"
    using assms by (auto simp: commit_execution_outcome_with_requirement_def op_simps)
  show thesis
  proof (cases "outcome_of (fo_record f)")
    case (Some out)
    with assms l show thesis
      by (auto simp: commit_execution_outcome_with_requirement_def op_simps loaded_def
          split: if_splits intro: existing [OF l])
  next
    case None
    then obtain d1 d2 d3 r where
        r: "c_revision (er_contract (fo_record (last rs))) = ?rvn"
          "running \<longrightarrow> er_state (fo_record f) = Running"
          "append_journal_event d ?eid ?rvn (OutcomeCommitted JOURNAL_EVENT_VERSION (vo_outcome v)
             (state_for_outcome (vo_outcome v))) now = Inr d1"
          "register_suspended_wake d1 ?eid ?rvn (vo_outcome v) now = Inr d2"
          "refresh_projection d2 ?eid (Store ''committed journal disappeared'') = Inr (d3, r)"
          "enqueue_projection d3 (er_contract (fo_record f)) now = Inr d'" "c = OutInserted r"
      using assms l by (auto simp: commit_execution_outcome_with_requirement_def op_simps loaded_def)
    have f: "f = last rs"
      using revision_at_last [OF l(1,2)] l(3) r(1) by simp
    show thesis
    proof (rule inserted [OF l(1,2) _ _ r(1) _ _ r(3,4,5) _ r(7)])
      show "revision_at rs ?rvn = Some (last rs)" "outcome_of (fo_record (last rs)) = None"
        using l(3) None f by simp_all
      show "bn_fencing_token (vo_binding v) = c_fencing_token (er_contract (fo_record (last rs)))"
        "running \<longrightarrow> er_state (fo_record (last rs)) = Running"
        "enqueue_projection d3 (er_contract (fo_record (last rs))) now = Inr d'"
        using b(2) r(2,6) f by simp_all
    qed
  qed
qed

lemma commit_keeps:
  assumes "store_inv d" "commit_execution_outcome_with_requirement d v running now = Inr (d', c)"
  shows "store_keeps w d d'"
  using assms(2)
proof (cases rule: commit_cases)
  case (existing evs rs f t)
  show ?thesis
    by (rule same_journals_keeps [OF assms(1) enqueue_same [OF existing(7)]])
next
  case (inserted evs rs d1 d2 d3 r)
  have "same_journals d1 d2"
    using arg_cong [OF register_frame [OF inserted(9)], of db_events]
      arg_cong [OF register_frame [OF inserted(9)], of db_executions]
    by (simp add: same_journals_def)
  moreover have "length rs \<le> unat (bn_revision (vo_binding v))"
    using loaded_last(2) [OF inserted(1,2)] inserted(5) by simp
  ultimately have "store_keeps w d d3"
    by - (rule append_refresh [OF store_inv_partly [OF assms(1) inserted(1)] inserted(8) _ _ inserted(10)], simp_all)
  then show ?thesis
    using enqueue_same [OF inserted(11)] by (rule store_keeps_same)
qed

text \<open>Starting a revision, also in the middle of a wake delivery.\<close>

lemma start_revision_cases:
  assumes "start_execution_revision_on d c = Inr (d', r)"
  obtains (existing) evs rs where "loaded d (c_execution_id c) evs rs" "rs \<noteq> []"
      "revision_at rs (c_revision c) \<noteq> None" "write_projection d (last rs) = Inr d'"
      "r = RevExisting (fo_record (last rs))"
  | (inserted) evs rs wt d1 rec where "loaded d (c_execution_id c) evs rs" "rs \<noteq> []"
      "revision_at rs (c_revision c) = None"
      "checked_inc (c_revision (er_contract (fo_record (last rs)))) = Some (c_revision c)"
      "verify_delivered_wake d (last rs) c = Inr wt"
      "append_journal_event d (c_execution_id c) (c_revision c)
         (RevisionStarted JOURNAL_EVENT_VERSION (c_revision c - 1) c) (wt_created_at wt) = Inr d1"
      "refresh_projection d1 (c_execution_id c) (Store ''started revision disappeared'') =
         Inr (d', rec)" "r = RevInserted rec"
proof -
  obtain evs rs where l: "loaded d (c_execution_id c) evs rs" "rs \<noteq> []"
    using assms by (auto simp: start_execution_revision_on_def op_simps)
  note body = assms [unfolded start_execution_revision_on_def]
  show thesis
  proof (cases "revision_at rs (c_revision c)")
    case (Some f)
    with body l show thesis
      by (auto simp: op_simps loaded_def intro: existing [OF l])
  next
    case None
    with body l show thesis
      by (auto simp: op_simps loaded_def intro: inserted [OF l])
  qed
qed

lemma start_revision_partly:
  assumes part: "partly_sound d (c_execution_id c) evs rs" and ne: "rs \<noteq> []"
    and op: "start_execution_revision_on d c = Inr (d', r)"
  shows "store_keeps w d d'"
  using op
proof (cases rule: start_revision_cases)
  case (existing evs' rs')
  have "partly_sound d (c_execution_id c) evs' rs'"
    by (rule partly_sound_loaded [OF part existing(1)])
  from write_partly [OF this existing(2,4)] show ?thesis
    by (simp add: store_keeps_def)
next
  case (inserted evs' rs' wt d1 rec)
  have p: "partly_sound d (c_execution_id c) evs' rs'"
    by (rule partly_sound_loaded [OF part inserted(1)])
  have "length rs' \<le> unat (c_revision c)"
    using loaded_last(2) [OF inserted(1,2)] unat_checked_inc [OF inserted(4)] by simp
  then show ?thesis
    by - (rule append_refresh [OF p inserted(6) _ same_journals_refl inserted(7)], simp_all)
qed

lemma start_revision_keeps:
  assumes "store_inv d" "start_execution_revision_on d c = Inr (d', r)"
  shows "store_keeps w d d'"
proof -
  obtain evs rs where l: "loaded d (c_execution_id c) evs rs" "rs \<noteq> []"
    using assms(2) by (rule start_revision_cases)
  show ?thesis
    by (rule start_revision_partly [OF store_inv_partly [OF assms(1) l(1)] l(2) assms(2)])
qed

text \<open>Delivering a wake: the wake event, then the start of the revision it opens.\<close>

lemma mark_delivered_frame:
  "mark_delivered d k delivery t = (d', n) \<Longrightarrow> d' = d\<lparr>db_wakes := db_wakes d'\<rparr>"
  by (auto simp: mark_delivered_def Let_def)

lemma project_task_frame:
  "project_legacy_task_ready d c t = Inr d' \<Longrightarrow> d' = d\<lparr>db_tasks := db_tasks d'\<rparr>"
  by (auto simp: project_legacy_task_ready_def op_simps split: option.splits)

lemma suspended_out_Inr:
  "(case out of OutSuspended wk ck \<Rightarrow> f wk ck | _ \<Rightarrow> Inl e) = Inr y \<longleftrightarrow>
     (\<exists>wk ck. out = OutSuspended wk ck \<and> f wk ck = Inr y)"
  by (simp split: execution_outcome.split)

lemma rev_inserted_Inr:
  "(case s of RevInserted r \<Rightarrow> f r | RevExisting r \<Rightarrow> Inl e) = Inr y \<longleftrightarrow>
     (\<exists>r. s = RevInserted r \<and> f r = Inr y)"
  by (simp split: start_execution_revision.split)

lemma case_prod_Inr: "(case p of (a, b) \<Rightarrow> f a b) = Inr y \<longleftrightarrow> (\<exists>a b. p = (a, b) \<and> f a b = Inr y)"
  by (cases p) simp

lemmas deliver_simps = suspended_out_Inr rev_inserted_Inr case_prod_Inr

lemma deliver_cases:
  assumes "deliver_pending_wake d p payload t = Inr d'"
  obtains evs rs wk ck nr nf d1 d2 d3 rec where
    "loaded d (pw_execution_id p) evs rs" "rs \<noteq> []"
    "c_revision (er_contract (fo_record (last rs))) = pw_revision p"
    "outcome_of (fo_record (last rs)) = Some (OutSuspended wk ck)"
    "verify_registered_wake d (pw_execution_id p) (pw_revision p) (OutSuspended wk ck)
       (fo_outcome_committed_at (last rs)) (fo_wake_transition (last rs)) = Inr ()"
    "pw_created_at p \<le> t" "checked_inc (pw_revision p) = Some nr"
    "append_journal_event d (pw_execution_id p) (pw_revision p)
       (WakeDelivered JOURNAL_EVENT_VERSION (delivery_of p payload t) nr) t = Inr d1"
    "mark_delivered d1 (pw_execution_id p, pw_revision p, pw_dedup_key p)
       (delivery_of p payload t) t = (d2, 1)"
    "checked_inc (c_fencing_token (er_contract (fo_record (last rs)))) = Some nf"
    "storable (resumed_contract (er_contract (fo_record (last rs))) nr nf ck (delivery_of p payload t))"
    "start_execution_revision_on d2
       (resumed_contract (er_contract (fo_record (last rs))) nr nf ck (delivery_of p payload t)) =
     Inr (d3, RevInserted rec)"
    "project_legacy_task_ready d3
       (resumed_contract (er_contract (fo_record (last rs))) nr nf ck (delivery_of p payload t)) t =
     Inr d'"
proof -
  note body = assms [unfolded deliver_pending_wake_def]
  obtain evs rs where l: "loaded d (pw_execution_id p) evs rs" "rs \<noteq> []"
    and rev: "c_revision (er_contract (fo_record (last rs))) = pw_revision p"
    using body by (auto simp: op_simps)
  have at: "revision_at rs (pw_revision p) = Some (last rs)"
    using revision_at_last [OF l] by (simp add: rev)
  from body l at show thesis
    by (auto simp: op_simps deliver_simps loaded_def validated_contract_Inr
        intro!: that [OF l rev])
qed

lemma resumed_contract_id [simp]:
  "c_execution_id (resumed_contract c r f ck delivery) = c_execution_id c"
  "c_revision (resumed_contract c r f ck delivery) = r"
  "c_fencing_token (resumed_contract c r f ck delivery) = f"
  "c_wake (resumed_contract c r f ck delivery) = Some delivery"
  by (simp_all add: resumed_contract_def)

lemma deliver_keeps:
  assumes inv: "store_inv d" and op: "deliver_pending_wake d p payload t = Inr d'"
  shows "store_keeps True d d'"
  using op
proof (rule deliver_cases)
  fix evs wk ck nr nf d1 d2 d3 rec and rs :: folded_journal
  let ?c = "er_contract (fo_record (last rs))"
  let ?n = "resumed_contract ?c nr nf ck (delivery_of p payload t)"
  assume l: "loaded d (pw_execution_id p) evs rs" "rs \<noteq> []"
    and rev: "c_revision ?c = pw_revision p"
    and ap: "append_journal_event d (pw_execution_id p) (pw_revision p)
       (WakeDelivered JOURNAL_EVENT_VERSION (delivery_of p payload t) nr) t = Inr d1"
    and mark: "mark_delivered d1 (pw_execution_id p, pw_revision p, pw_dedup_key p)
       (delivery_of p payload t) t = (d2, 1)"
    and start: "start_execution_revision_on d2 ?n = Inr (d3, RevInserted rec)"
    and proj: "project_legacy_task_ready d3 ?n t = Inr d'"
  have id: "c_execution_id ?n = pw_execution_id p"
    using loaded_last(1) [OF l] by simp
  have same: "db_events d2 = db_events d1" "db_executions d2 = db_executions d1"
    using arg_cong [OF mark_delivered_frame [OF mark], of db_events]
      arg_cong [OF mark_delivered_frame [OF mark], of db_executions] by simp_all
  obtain evs1 rs1 where l1: "loaded d2 (pw_execution_id p) evs1 rs1" "rs1 \<noteq> []"
    using start unfolding id [symmetric] by (rule start_revision_cases)
  then have "loaded d1 (pw_execution_id p) evs1 rs1"
    by (simp add: loaded_cong [OF same(1)])
  then have "partly_sound d1 (pw_execution_id p) evs1 rs1" "store_ext True d d1"
    by (rule append_partly [OF store_inv_partly [OF inv l(1)] ap, rotated];
        use loaded_last(2) [OF l] rev in simp)+
  moreover from this have "partly_sound d2 (c_execution_id ?n) evs1 rs1"
    unfolding id by (simp add: partly_sound_cong [OF same])
  from start_revision_partly [OF this l1(2) start] have "store_keeps True d2 d3" .
  ultimately have "store_keeps True d d3"
    using store_ext_trans [OF store_ext_trans [OF _ store_ext_cong [OF same(1)]]]
    by (simp add: store_keeps_def)
  moreover have "same_journals d3 d'"
    using arg_cong [OF project_task_frame [OF proj], of db_events]
      arg_cong [OF project_task_frame [OF proj], of db_executions] by (simp add: same_journals_def)
  ultimately show ?thesis
    by (rule store_keeps_same)
qed

lemma store_keeps_inv: "store_keeps w d d' \<Longrightarrow> store_inv d'"
  by (simp add: store_keeps_def)

lemma store_keeps_refl: "store_inv d \<Longrightarrow> store_keeps w d d"
  by (simp add: store_keeps_def)

lemma deliver_all_keeps:
  "\<lbrakk>store_inv d; deliver_all d ps t = Inr (d', n)\<rbrakk> \<Longrightarrow> store_keeps True d d'"
proof (induction d ps t arbitrary: n rule: deliver_all.induct)
  case (2 d p payload ps t)
  then obtain d1 m where d1: "deliver_pending_wake d p payload t = Inr d1"
      "deliver_all d1 ps t = Inr (d', m)"
    by (auto simp: res_bind_Inr)
  have "store_keeps True d d1"
    by (rule deliver_keeps [OF 2(2) d1(1)])
  moreover from this have "store_keeps True d1 d'"
    using 2(1) [OF _ d1(2)] store_keeps_inv by blast
  ultimately show ?case
    by (rule store_keeps_trans)
qed (simp add: store_keeps_refl)

lemma wake_due_keeps:
  "\<lbrakk>store_inv d; wake_due_executions d now limit = Inr (d', n)\<rbrakk> \<Longrightarrow> store_keeps True d d'"
  by (auto simp: wake_due_executions_def op_simps intro: deliver_all_keeps)

lemma signal_keeps:
  "\<lbrakk>store_inv d; deliver_execution_signal d knd cor payload now = Inr (d', n)\<rbrakk> \<Longrightarrow> store_keeps True d d'"
  by (auto simp: deliver_execution_signal_def op_simps intro: deliver_all_keeps)

lemma wake_keeps:
  "\<lbrakk>store_inv d; deliver_execution_wake d condition payload now = Inr (d', n)\<rbrakk> \<Longrightarrow> store_keeps True d d'"
  by (auto simp: deliver_execution_wake_def deliver_execution_wake_with_def op_simps
      intro: deliver_all_keeps split: if_splits)

lemma discard_wakes_same:
  "discard_pending_execution_wakes d eid = Inr (d', n) \<Longrightarrow> same_journals d d'"
  by (auto simp: discard_pending_execution_wakes_def op_simps same_journals_def)

lemma requeue_same: "requeue_blocked_projections d ref now = (d', n) \<Longrightarrow> same_journals d d'"
  by (auto simp: requeue_blocked_projections_def Let_def same_journals_def)

lemma update_receipt_same: "update_receipt d ref status f = (d', n) \<Longrightarrow> same_journals d d'"
  by (auto simp: update_receipt_def Let_def same_journals_def)

lemma apply_resolution_same:
  "apply_effect_resolution_on d ref resolution now = (d', n) \<Longrightarrow> same_journals d d'"
  unfolding apply_effect_resolution_on_def by (rule update_receipt_same)

lemma resolve_cases:
  assumes "resolve_effect_receipt d ref resolution now = Inr (d', commit)"
  obtains (replayed) r n where "load_effect_receipt d ref = Some r"
      "receipt_resolution_matches r resolution"
      "verify_effect_resolution_owner d r (resolution_payload resolution) = Inr ()"
      "requeue_blocked_projections d ref now = (d', n)" "ec_receipt commit = r"
  | (resolved) r ps d1 d2 s n where "load_effect_receipt d ref = Some r" "rc_status r = Uncertain"
      "load_pending_wake_receipts d = Inr ps"
      "check_resolution_wakes d r (filter (\<lambda>w. pw_condition w = EffectResolution ref) ps) = Inr ()"
      "apply_effect_resolution_on d ref resolution now = (d1, 1)"
      "(case filter (\<lambda>w. pw_condition w = EffectResolution ref) ps of
          w # _ \<Rightarrow> deliver_pending_wake d1 w (resolution_payload resolution) now
        | [] \<Rightarrow> Inr d1) = Inr d2"
      "load_effect_receipt d2 ref = Some s" "requeue_blocked_projections d2 ref now = (d', n)"
      "ec_receipt commit = s"
proof -
  obtain r where r: "load_effect_receipt d ref = Some r"
    using assms by (auto simp: resolve_effect_receipt_def op_simps)
  show thesis
  proof (cases "receipt_resolution_matches r resolution")
    case True
    with assms r show thesis
      by (auto simp: resolve_effect_receipt_def op_simps case_prod_Inr intro!: replayed [OF r True])
  next
    case False
    with assms r show thesis
      by (auto simp: resolve_effect_receipt_def op_simps case_prod_Inr intro!: resolved [OF r])
  qed
qed

lemma resolve_keeps:
  assumes inv: "store_inv d" and op: "resolve_effect_receipt d ref resolution now = Inr (d', commit)"
  shows "store_keeps True d d'"
  using op
proof (cases rule: resolve_cases)
  case (replayed r n)
  show ?thesis
    by (rule same_journals_keeps [OF inv requeue_same [OF replayed(4)]])
next
  case (resolved r ps d1 d2 s n)
  have d1: "store_keeps True d d1"
    by (rule same_journals_keeps [OF inv apply_resolution_same [OF resolved(5)]])
  have "store_keeps True d1 d2"
    using resolved(6) deliver_keeps store_keeps_inv [OF d1] store_keeps_refl
    by (auto split: list.splits)
  with d1 have "store_keeps True d d2"
    by (rule store_keeps_trans)
  then show ?thesis
    using requeue_same [OF resolved(8)] by (rule store_keeps_same)
qed

lemma resolve_orphaned_same:
  assumes "resolve_orphaned_effect_receipt d ref resolution now = Inr (d', commit)"
  shows "same_journals d d'"
proof -
  obtain r d1 n where d1: "(if receipt_resolution_matches r resolution then Inr d
       else if rc_status r \<noteq> Uncertain
         then Inl (InvalidTransition ''only an uncertain orphaned effect receipt may be resolved'')
       else (case apply_effect_resolution_on d ref resolution now of (d1, changed) \<Rightarrow>
         if changed \<noteq> 1
           then Inl (Conflict ''orphaned effect receipt was resolved concurrently'')
         else Inr d1)) = Inr d1" and n: "requeue_blocked_projections d1 ref now = (d', n)"
    using assms by (auto simp: resolve_orphaned_effect_receipt_def op_simps case_prod_Inr
        simp del: split_paired_Ex)
  have "same_journals d d1"
    using d1 apply_resolution_same [of d ref resolution now]
    by (auto simp: case_prod_Inr if_Inl_Inr split: if_splits)
  with requeue_same [OF n] show ?thesis
    using same_journals_trans by blast
qed

lemma mark_compensated_same:
  assumes "mark_effect_compensated d ref cid now = Inr (d', r)"
  shows "same_journals d d'"
  using assms
  by (auto simp: mark_effect_compensated_def op_simps case_prod_Inr mark_compensated_on_def
      update_receipt_def same_journals_def split: if_splits)

text \<open>Continuing as a new execution: the parent's outcome, then the child's creation.\<close>

lemma completed_out_Inr:
  "(case out of OutCompleted answer (Some cid) \<Rightarrow> f answer cid | _ \<Rightarrow> Inl e) = Inr y \<longleftrightarrow>
     (\<exists>answer cid. out = OutCompleted answer (Some cid) \<and> f answer cid = Inr y)"
  by (simp split: execution_outcome.split option.split)

lemma continue_cases:
  assumes "continue_execution_as_new d v nxt now = Inr (d', c)"
  obtains (existing) evs rs f cevs crs where
      "loaded d (bn_execution_id (vo_binding v)) evs rs" "rs \<noteq> []"
      "revision_at rs (bn_revision (vo_binding v)) = Some f"
      "outcome_of (fo_record f) = Some (vo_outcome v)"
      "loaded d (c_execution_id nxt) cevs crs" "crs \<noteq> []"
      "er_contract (fo_record (last crs)) = nxt" "d' = d"
      "c = ContExisting (fo_record f) (fo_record (last crs))"
  | (inserted) evs rs answer d1 d2 d3 d4 completed child where
      "loaded d (bn_execution_id (vo_binding v)) evs rs" "rs \<noteq> []"
      "c_revision (er_contract (fo_record (last rs))) = bn_revision (vo_binding v)"
      "outcome_of (fo_record (last rs)) = None"
      "vo_outcome v = OutCompleted answer (Some (c_execution_id nxt))"
      "c_execution_id nxt \<noteq> bn_execution_id (vo_binding v)"
      "c_parent_execution_id nxt = Some (bn_execution_id (vo_binding v))"
      "c_revision nxt = 1"
      "loaded d (c_execution_id nxt) [] []"
      "append_journal_event d (bn_execution_id (vo_binding v)) (bn_revision (vo_binding v))
         (OutcomeCommitted JOURNAL_EVENT_VERSION (vo_outcome v) Completed) now = Inr d1"
      "refresh_projection d1 (bn_execution_id (vo_binding v))
         (Store ''continued parent disappeared'') = Inr (d2, completed)"
      "enqueue_projection d2 (er_contract (fo_record (last rs))) now = Inr d3"
      "append_journal_event d3 (c_execution_id nxt) (c_revision nxt)
         (Created JOURNAL_EVENT_VERSION nxt) now = Inr d4"
      "refresh_projection d4 (c_execution_id nxt) (Store ''continued child disappeared'') =
         Inr (d', child)"
      "c = ContInserted completed child"
proof -
  note body = assms [unfolded continue_execution_as_new_def Let_def completed_out_Inr]
  obtain answer evs rs f where out: "vo_outcome v = OutCompleted answer (Some (c_execution_id nxt))"
      "c_execution_id nxt \<noteq> bn_execution_id (vo_binding v)"
      "c_parent_execution_id nxt = Some (bn_execution_id (vo_binding v))" "c_revision nxt = 1"
    and l: "loaded d (bn_execution_id (vo_binding v)) evs rs" "rs \<noteq> []"
      "revision_at rs (bn_revision (vo_binding v)) = Some f"
    using body by (auto simp: op_simps)
  show thesis
  proof (cases "outcome_of (fo_record f)")
    case (Some x)
    with body out l show thesis
      by (auto simp: op_simps loaded_def intro!: existing [OF l])
  next
    case None
    have "c_revision (er_contract (fo_record (last rs))) = bn_revision (vo_binding v)"
      using body out l None by (auto simp: op_simps loaded_def)
    moreover from this have "f = last rs"
      using revision_at_last [OF l(1,2)] l(3) by simp
    moreover from body out l None have "load_validated_journal d (c_execution_id nxt) = Inr None"
      by (auto simp: op_simps loaded_def simp del: split_paired_All split_paired_Ex)
    then have fresh: "loaded d (c_execution_id nxt) [] []"
      by (simp add: load_None)
    ultimately show thesis
      using body out l None
      by (auto simp: op_simps loaded_def intro!: inserted [OF l(1,2) _ _ out fresh])
  qed
qed

lemma continue_keeps:
  assumes inv: "store_inv d" and op: "continue_execution_as_new d v nxt now = Inr (d', c)"
  shows "store_keeps w d d'"
  using op
proof (cases rule: continue_cases)
  case existing
  with inv show ?thesis by (simp add: store_keeps_refl)
next
  case (inserted evs rs answer d1 d2 d3 d4 completed child)
  have "store_keeps w d d2"
    by (rule latest_step [OF inv inserted(1-3,10,11)]) simp_all
  then have d3: "store_keeps w d d3"
    using enqueue_same [OF inserted(12)] by (rule store_keeps_same)
  have "loaded d2 (c_execution_id nxt) [] []"
  proof -
    have "loaded d1 (c_execution_id nxt) [] []"
      using inserted(9) loaded_append_other [OF inserted(10,6)] by simp
    then show ?thesis
      using loaded_cong [OF arg_cong [OF refresh_frame [OF inserted(11)], of db_events, simplified]]
      by simp
  qed
  then have "loaded d3 (c_execution_id nxt) [] []"
    using loaded_cong [of d3 d2] enqueue_same [OF inserted(12)] by (simp add: same_journals_def)
  then have "store_keeps w d3 d'"
    by (rule created_step [OF store_keeps_inv [OF d3] _ inserted(13,14)])
  with d3 show ?thesis
    by (rule store_keeps_trans)
qed

text \<open>Reading: a stale projection is rewritten.\<close>

lemma execution_cases:
  assumes "execution d eid = Inr (d', r)"
  obtains (absent) "d' = d" "r = None" "load_projection d eid = Inr None"
  | (current) evs rs where "loaded d eid evs rs" "rs \<noteq> []" "d' = d"
      "r = Some (fo_record (last rs))"
  | (stale) evs rs where "loaded d eid evs rs" "rs \<noteq> []" "write_projection d (last rs) = Inr d'"
      "r = Some (fo_record (last rs))"
proof -
  obtain p j where p: "load_projection d eid = Inr p" and j: "load_validated_journal d eid = Inr j"
    using assms by (auto simp: execution_def res_bind_Inr)
  show thesis
  proof (cases p)
    case None
    with assms p j absent show thesis
      by (auto simp: execution_def res_bind_Inr split: option.splits)
  next
    case (Some q)
    with assms p j obtain evs rs where rs: "j = Some (evs, rs)"
      by (cases j) (auto simp: execution_def res_bind_Inr)
    then have l: "loaded d eid evs rs" "rs \<noteq> []"
      using j by (simp_all add: load_Some)
    from assms p j Some rs l have "projection_matches_folded d eid q (last rs) \<and> d' = d \<and> r = Some q \<or>
        (\<exists>d2. write_projection d (last rs) = Inr d2 \<and> d' = d2 \<and> r = Some (fo_record (last rs)))"
      by (auto simp: execution_def res_bind_Inr latest_Inr split: if_splits)
    with current [OF l] stale [OF l] show thesis
      by (auto simp: projection_matches_folded_def)
  qed
qed

lemma execution_keeps:
  assumes "store_inv d" "execution d eid = Inr (d', r)"
  shows "store_keeps w d d'"
  using assms(2)
proof (cases rule: execution_cases)
  case (stale evs rs)
  show ?thesis by (rule write_keeps [OF assms(1) stale(1-3)])
qed (use assms(1) in \<open>simp_all add: store_keeps_refl\<close>)

lemma rebuild_keeps:
  "\<lbrakk>store_inv d; rebuild_execution_projection d eid = Inr (d', r)\<rbrakk> \<Longrightarrow> store_keeps w d d'"
  by (auto simp: rebuild_execution_projection_def res_bind_Inr intro: refresh_keeps)

lemma load_committed_keeps:
  "\<lbrakk>store_inv d; load_committed d eids = Inr (d', rs)\<rbrakk> \<Longrightarrow> store_keeps w d d'"
proof (induction eids arbitrary: d rs)
  case (Cons eid eids)
  obtain d1 found d2 r rest where d1: "execution d eid = Inr (d1, found)"
    and d2: "(case found of Some r \<Rightarrow> Inr (d1, r) | None \<Rightarrow> rebuild_execution_projection d1 eid) =
      Inr (d2, r)" and d3: "load_committed d2 eids = Inr (d', rest)"
    using Cons.prems(2) by (fastforce simp: res_bind_Inr if_Inl_Inr)
  have k1: "store_keeps w d d1"
    by (rule execution_keeps [OF Cons.prems(1) d1])
  have "store_keeps w d1 d2"
    using d2 rebuild_keeps store_keeps_refl store_keeps_inv [OF k1] by (auto split: option.splits)
  with k1 have k2: "store_keeps w d d2"
    by (rule store_keeps_trans)
  from k2 Cons.IH [OF store_keeps_inv [OF k2] d3] show ?case
    by (rule store_keeps_trans)
qed (simp add: store_keeps_refl)

lemma committed_keeps:
  "\<lbrakk>store_inv d; committed_executions d limit = Inr (d', rs)\<rbrakk> \<Longrightarrow> store_keeps w d d'"
  by (auto simp: committed_executions_def intro: load_committed_keeps store_keeps_refl
      split: if_splits)

end
