(* ===== verification/StoreSamples.thy ===== *)
theory StoreSamples
  imports ExecutionStore
begin

text \<open>
  One execution walked through the store: created, owned by a worker, suspended until the user
  answers, and resumed as its second revision. Each operation of the walk is evaluated on the
  database the one before it left.
\<close>

lemma validated_sample [simp]:
  "validated_contract sample_contract = Inr sample_contract"
  "validated_contract sample_next = Inr sample_next"
  by (simp_all add: validated_contract_Inr storable_sample storable_next)

lemma fits_small [simp]: "fits_i64 1" "fits_i64 2" "fits_i64 3"
  by (simp_all add: fits_i64_def i64_max_def)

lemma checked_inc_small [simp]: "checked_inc 1 = Some 2"
  by (simp add: checked_inc_def)

lemma sample_kind [simp]: "c_kind sample_contract = ''chat_turn''"
  by (simp add: sample_contract_def new_contract_def)

lemmas store_eval = validated_text_def sqlite_integer_def load_validated_journal_def
  read_journal_events_def journal_rows_def event_key_def projection_exists_def execution_row_of_def
  append_journal_event_def max_seq_def refresh_projection_def load_required_def fold_journal_def
  fold_events_def latest_def write_projection_def sqlite_integer_from_store_def upsert_def
  Let_def validate_journal_contract_def i64_max_def update_where_def empty_db_def fold_eval
  count_where_def wake_key_def row_of_def revision_at_def projection_row_def binding_of_def

definition sample_event :: "nat \<Rightarrow> u64 \<Rightarrow> nat \<Rightarrow> int \<Rightarrow> journal_event \<Rightarrow> event_row" where
  "sample_event i rvn sq now e =
     \<lparr>rw_kind = journal_event_kind e,
      rw_event = \<lparr>ev_event_id = i, ev_execution_id = ''e1'', ev_revision = rvn, ev_seq = sq,
        ev_event = e, ev_created_at = now\<rparr>\<rparr>"

section \<open>Created and owned\<close>

definition sample_ready :: folded_execution where
  "sample_ready = ready_revision sample_contract 3 3"

definition sample_created :: db where
  "sample_created = empty_db
     \<lparr>db_events := [sample_event 1 1 1 3 (Created 1 sample_contract)],
      db_next_event_id := 2, db_executions := [projection_row sample_ready]\<rparr>"

lemma sample_create:
  "create_execution empty_db sample_contract 3 =
     Inr (sample_created, CreInserted (fo_record sample_ready))"
  by (simp add: create_execution_def store_eval sample_created_def sample_event_def sample_ready_def)

definition sample_owned :: folded_execution where
  "sample_owned = sample_ready
     \<lparr>fo_record := (fo_record sample_ready)\<lparr>er_state := Running, er_updated_at := 4\<rparr>,
      fo_active_attempt := Some \<lparr>at_owner_id = ''worker'', at_fencing_token = 1\<rparr>\<rparr>"

definition sample_started :: db where
  "sample_started = empty_db
     \<lparr>db_events := [sample_event 1 1 1 3 (Created 1 sample_contract),
        sample_event 2 1 2 4 (AttemptStarted 1 ''worker'' 1)],
      db_next_event_id := 3, db_executions := [projection_row sample_owned]\<rparr>"

lemmas sample_defs = sample_event_def sample_ready_def sample_owned_def sample_created_def
  sample_started_def

lemma sample_start:
  "start_execution_attempt sample_created ''e1'' 1 1 ''worker'' 4 =
     Inr (sample_started, fo_record sample_owned)"
  by (simp add: start_execution_attempt_def store_eval sample_defs)

section \<open>Suspended\<close>

definition sample_outcome :: validated_outcome where
  "sample_outcome = \<lparr>vo_outcome = sample_suspension, vo_binding = binding_of sample_contract\<rparr>"

definition sample_suspended :: folded_execution where
  "sample_suspended = sample_owned
     \<lparr>fo_record := (fo_record sample_owned)
        \<lparr>er_state := Suspended, er_outcome := Some sample_outcome, er_updated_at := 5\<rparr>,
      fo_outcome_committed_at := Some 5\<rparr>"

lemma sample_suspension_cases [simp]:
  "(case sample_suspension of OutCompleted x y \<Rightarrow> a x y | OutSuspended wk ck \<Rightarrow> f wk ck
     | OutCancelled z \<Rightarrow> b z | OutFailed u \<Rightarrow> c u) = f (User ''t'') sample_checkpoint"
  by (simp add: sample_suspension_def)

lemma sample_suspension_state [simp]: "state_for_outcome sample_suspension = Suspended"
  by (simp add: sample_suspension_def)

definition sample_wake :: wake_row where
  "sample_wake =
     \<lparr>wk_execution_id = ''e1'', wk_revision = 1, wk_dedup_key = dedup_key (User ''t''),
      wk_condition = User ''t'', wk_status = WkPending, wk_delivery = None,
      wk_created_at = 5, wk_delivered_at = None\<rparr>"

definition sample_parked :: db where
  "sample_parked = sample_started
     \<lparr>db_events := db_events sample_started @
        [sample_event 3 1 3 5 (OutcomeCommitted 1 sample_suspension Suspended)],
      db_next_event_id := 4, db_executions := [projection_row sample_suspended],
      db_wakes := [sample_wake],
      db_outbox := [pending_row (projection_ref ''e1'' 1 CHAT_LIFECYCLE_PROJECTION)
        sample_contract CHAT_LIFECYCLE_PROJECTION 5]\<rparr>"

lemma sample_commit:
  "commit_execution_outcome_with_requirement sample_started sample_outcome True 5 =
     Inr (sample_parked, OutInserted (fo_record sample_suspended))"
  by (simp add: commit_execution_outcome_with_requirement_def store_eval sample_defs
      register_suspended_wake_def verify_registered_wake_def sample_parked_def sample_outcome_def
      sample_suspended_def sample_suspension_ok sample_wake_def enqueue_projection_def
      projector_kind_def sqlite_u64_def)

section \<open>Resumed\<close>

definition sample_receipt :: pending_wake_receipt where
  "sample_receipt =
     \<lparr>pw_execution_id = ''e1'', pw_revision = 1, pw_dedup_key = dedup_key (User ''t''),
      pw_condition = User ''t'', pw_created_at = 5\<rparr>"

lemma sample_receipt_fields [simp]:
  "pw_execution_id sample_receipt = ''e1''" "pw_revision sample_receipt = 1"
  "pw_dedup_key sample_receipt = dedup_key (User ''t'')"
  "pw_condition sample_receipt = User ''t''" "pw_created_at sample_receipt = 5"
  by (simp_all add: sample_receipt_def)

lemma sample_pending: "load_pending_wake_receipts sample_parked = Inr [sample_receipt]"
  by (simp add: load_pending_wake_receipts_def sample_parked_def sample_started_def empty_db_def
      sample_wake_def sample_receipt_def)

definition sample_resumed :: db where
  "sample_resumed = sample_parked
     \<lparr>db_events := db_events sample_parked @
        [sample_event 4 1 4 7 (WakeDelivered 1 sample_delivery 2),
         sample_event 5 2 1 7 (RevisionStarted 1 1 sample_next)],
      db_next_event_id := 6,
      db_executions := [projection_row (ready_revision sample_next 3 7)],
      db_wakes := [sample_wake\<lparr>wk_status := WkDelivered, wk_delivery := Some sample_delivery,
        wk_delivered_at := Some 7\<rparr>]\<rparr>"

lemma sample_delivery_of: "delivery_of sample_receipt JNull 7 = sample_delivery"
  by (simp add: delivery_of_def sample_delivery_def)

lemma sample_resumed_contract:
  "resumed_contract sample_contract 2 2 sample_checkpoint sample_delivery = sample_next"
  by (simp add: resumed_contract_def sample_next_def sample_contract_def new_contract_def
      sample_checkpoint_def new_checkpoint_def)

lemma sample_delivery_fields [simp]:
  "wd_delivered_at_unix_seconds sample_delivery = 7" "wd_condition sample_delivery = User ''t''"
  "wd_dedup_key sample_delivery = dedup_key (User ''t'')"
  by (simp_all add: sample_delivery_def)

lemma sample_deliver: "deliver_pending_wake sample_parked sample_receipt JNull 7 = Inr sample_resumed"
  by (simp add: deliver_pending_wake_def sample_delivery_of)
    (simp add: sample_delivery_of store_eval sample_defs sample_parked_def sample_outcome_def
      sample_suspended_def sample_suspension_ok sample_wake_def mark_delivered_def
      sample_resumed_contract project_legacy_task_ready_def start_execution_revision_on_def
      sample_transition verify_delivered_wake_def verify_registered_wake_def sample_resumed_def)

lemma sample_deliver_wake:
  "deliver_execution_wake sample_parked (User ''t'') JNull 7 = Inr (sample_resumed, 1)"
  by (simp add: deliver_execution_wake_def deliver_execution_wake_with_def sample_pending
      sample_deliver)

end
