(* ===== verification/StoreTheorems.thy ===== *)
theory StoreTheorems
  imports StoreInvariant StoreSamples
begin

text \<open>
  The execution store as a system of commands, and what its users rely on: the store never
  corrupts its journals, decisions are final, a worker that lost its fence is refused, and a
  wake is delivered once.
\<close>

section \<open>The store as a system of commands\<close>

datatype store_command =
  CreateExecution execution_contract int
| StartRevision execution_contract
| StartAttempt string u64 u64 string int
| ReclaimAttempt string u64 u64 u64 string int
| AdvanceFence string u64 u64 u64 int
| CommitOutcome validated_outcome bool int
| ContinueAsNew validated_outcome execution_contract int
| WakeDue int nat
| DeliverSignal string string json int
| DeliverWake wake_condition json int
| DiscardWakes string
| ResolveEffect effect_receipt_ref effect_receipt_resolution int
| ResolveOrphaned effect_receipt_ref effect_receipt_resolution int
| CompensateEffect effect_receipt_ref string int
| ReadExecution string
| RebuildProjection string
| ListCommitted nat
| ReceiptOp receipt_command
| OutboxOp outbox_command

fun store_step :: "db \<Rightarrow> store_command \<Rightarrow> db task_result" where
  "store_step d (CreateExecution c now) = discard (create_execution d c now)"
| "store_step d (StartRevision c) = discard (start_execution_revision_on d c)"
| "store_step d (StartAttempt eid rvn fence owner now) =
     discard (start_execution_attempt d eid rvn fence owner now)"
| "store_step d (ReclaimAttempt eid rvn expected nxt owner now) =
     discard (reclaim_execution_attempt d eid rvn expected nxt owner now)"
| "store_step d (AdvanceFence eid rvn expected nxt now) =
     discard (advance_execution_fence d eid rvn expected nxt now)"
| "store_step d (CommitOutcome v running now) =
     discard (commit_execution_outcome_with_requirement d v running now)"
| "store_step d (ContinueAsNew v nxt now) = discard (continue_execution_as_new d v nxt now)"
| "store_step d (WakeDue now limit) = discard (wake_due_executions d now limit)"
| "store_step d (DeliverSignal knd correlation payload now) =
     discard (deliver_execution_signal d knd correlation payload now)"
| "store_step d (DeliverWake condition payload now) =
     discard (deliver_execution_wake d condition payload now)"
| "store_step d (DiscardWakes eid) = discard (discard_pending_execution_wakes d eid)"
| "store_step d (ResolveEffect ref resolution now) =
     discard (resolve_effect_receipt d ref resolution now)"
| "store_step d (ResolveOrphaned ref resolution now) =
     discard (resolve_orphaned_effect_receipt d ref resolution now)"
| "store_step d (CompensateEffect ref cid now) = discard (mark_effect_compensated d ref cid now)"
| "store_step d (ReadExecution eid) = discard (execution d eid)"
| "store_step d (RebuildProjection eid) = discard (rebuild_execution_projection d eid)"
| "store_step d (ListCommitted limit) = discard (committed_executions d limit)"
| "store_step d (ReceiptOp cmd) = receipt_step d cmd"
| "store_step d (OutboxOp cmd) = outbox_step d cmd"

text \<open>Receipts and outbox rows are kept beside the journals.\<close>

lemma claim_effect_same:
  assumes "claim_effect_receipt_on d ref now = Inr (d', c)"
  shows "same_journals d d'"
  using assms by (rule claim_cases) (auto dest: update_receipt_same)

lemma prepare_same: "prepare_effect_receipt_on d nr now = Inr (d', r) \<Longrightarrow> same_journals d d'"
  by (auto dest!: prepare_Inr simp: insert_receipt_def same_journals_def)

lemma receipt_step_same:
  assumes "receipt_step d cmd = Inr d'"
  shows "same_journals d d'"
proof (cases cmd)
  case (PrepareAndClaim nr owner fence now)
  with assms obtain c where "prepare_and_claim_effect_receipt d nr owner fence now = Inr (d', c)"
    by (auto simp: discard_Inr)
  then show ?thesis
    by (rule prepare_and_claim_cases)
      (auto dest: claim_effect_same prepare_same intro: same_journals_trans)
next
  case (PrepareAndClaimProjection nr fence claim now)
  with assms obtain c where
    "prepare_and_claim_effect_receipt_for_projection d nr fence claim now = Inr (d', c)"
    by (auto simp: discard_Inr)
  then show ?thesis
    by (rule prepare_and_claim_projection_cases)
      (auto dest: claim_effect_same prepare_same intro: same_journals_trans)
qed (use assms in \<open>auto simp: discard_Inr complete_effect_receipt_def
  mark_effect_receipt_uncertain_def release_effect_receipt_not_applied_def settle_receipt_Inr
  apply_effect_resolution_on_def mark_compensated_on_def update_receipt_def same_journals_def Let_def
  dest: claim_effect_same prepare_same [unfolded same_journals_def]\<close>)

lemma list_case_Inr:
  "(case xs of [] \<Rightarrow> a | x # ys \<Rightarrow> f x ys) = Inr z \<longleftrightarrow>
     xs = [] \<and> a = Inr z \<or> (\<exists>x ys. xs = x # ys \<and> f x ys = Inr z)"
  by (cases xs) simp_all

lemma claim_projection_same:
  assumes "claim_projection d knd owner generation now = Inr (d', c)"
  shows "same_journals d d'"
  using assms
  by (auto simp: claim_projection_def op_simps list_case_Inr same_journals_def)

lemma finish_same: "finish_claim d claim st nb blocked code detail at now = Inr d' \<Longrightarrow> same_journals d d'"
  by (auto simp: finish_claim_def update_claim_Inr same_journals_def)

lemma outbox_step_same: "outbox_step d cmd = Inr d' \<Longrightarrow> same_journals d d'"
  by (cases cmd)
    (auto simp: op_simps complete_projection_def retry_projection_def block_projection_def
      renew_projection_claim_def update_claim_Inr same_journals_def requeue_blocked_projections_def
      dest: enqueue_same [unfolded same_journals_def] finish_same [unfolded same_journals_def]
        claim_projection_same [unfolded same_journals_def])

lemma store_step_keeps:
  assumes "store_inv d" "store_step d cmd = Inr d'"
  shows "store_keeps True d d'"
proof (cases cmd)
  case (ReceiptOp c)
  with assms show ?thesis
    using receipt_step_same same_journals_keeps by simp
next
  case (OutboxOp c)
  with assms show ?thesis
    using outbox_step_same same_journals_keeps by simp
next
  case (DiscardWakes eid)
  with assms show ?thesis
    by (auto simp: discard_Inr dest: discard_wakes_same intro: same_journals_keeps)
next
  case (ResolveOrphaned ref resolution now)
  with assms show ?thesis
    by (auto simp: discard_Inr dest: resolve_orphaned_same intro: same_journals_keeps)
next
  case (CompensateEffect ref cid now)
  with assms show ?thesis
    by (auto simp: discard_Inr dest: mark_compensated_same intro: same_journals_keeps)
qed (use assms in \<open>auto simp: discard_Inr intro: create_keeps start_revision_keeps
  start_attempt_keeps reclaim_keeps advance_keeps commit_keeps continue_keeps wake_due_keeps
  signal_keeps wake_keeps resolve_keeps execution_keeps rebuild_keeps committed_keeps\<close>)

interpretation st: guarded_system store_step store_inv "store_ext True"
proof unfold_locales
  show "store_ext True a c" if "store_ext True a b" "store_ext True b c" for a b c
    using that by (rule store_ext_trans)
qed (auto dest: store_step_keeps simp: store_keeps_def)

lemma store_inv_empty: "store_inv empty_db"
  by (simp add: store_inv_def sound_def loaded_def empty_db_def read_journal_events_def
      journal_rows_def execution_row_of_def projection_of_def)

definition store_run :: "store_command list \<Rightarrow> db task_result" where
  "store_run = run_steps store_step empty_db"

lemma store_run_inv: "store_run cmds = Inr d \<Longrightarrow> store_inv d"
  unfolding store_run_def by (rule st.run_inv [OF store_inv_empty])

lemma store_run_append:
  "store_run (xs @ ys) = Inr d' \<Longrightarrow> \<exists>d. store_run xs = Inr d \<and> run_steps store_step d ys = Inr d'"
  by (auto simp: store_run_def run_steps_append res_bind_Inr)

section \<open>The journals are the truth, and they are always readable\<close>

definition latest_record :: "(execution_event list \<times> folded_journal) option \<Rightarrow> execution_record option" where
  "latest_record j = map_option (\<lambda>(evs, rs). fo_record (last rs)) j"

lemma loaded_load:
  "loaded d eid evs rs \<Longrightarrow>
    load_validated_journal d eid = Inr (if rs = [] then None else Some (evs, rs))"
  using load_None load_Some loaded_empty_iff [of d eid evs rs] by (cases "rs = []") auto

lemma projection_loads:
  assumes "loaded d eid evs rs" "execution_row_of d eid = projection_of rs"
  shows "load_projection d eid = Inr (if rs = [] then None else Some (fo_record (last rs)))"
proof (cases "rs = []")
  case True
  with assms(2) show ?thesis
    by (simp add: load_projection_def projection_of_def)
next
  case False
  have "revision_ok eid (length rs) (last rs)"
    using journal_inv_last [OF loaded_inv [OF assms(1)] False] .
  moreover have "execution_row_of d eid = Some (projection_row (last rs))"
    using assms(2) False by (simp add: projection_of_def)
  ultimately show ?thesis
    using load_projection_row False by simp
qed

lemma store_reads:
  assumes "store_inv d"
  shows "\<exists>j. load_validated_journal d eid = Inr j \<and> load_projection d eid = Inr (latest_record j) \<and>
    (is_blank eid \<or> execution d eid = Inr (d, latest_record j))"
proof -
  obtain evs rs where l: "loaded d eid evs rs" and row: "execution_row_of d eid = projection_of rs"
    by (rule store_invE [OF assms])
  note j = loaded_load [OF l]
  note p = projection_loads [OF l row]
  show ?thesis
  proof (cases "rs = []")
    case True
    with j p show ?thesis
      by (auto simp: latest_record_def execution_def validated_text_def)
  next
    case False
    have "projection_matches_folded d eid (fo_record (last rs)) (last rs)"
      using row False
      by (simp add: projection_matches_folded_def projection_of_def projection_row_def Let_def)
    with False j p show ?thesis
      by (auto simp: latest_record_def execution_def validated_text_def latest_def)
  qed
qed

definition sample_commands :: "store_command list" where
  "sample_commands =
     [CreateExecution sample_contract 3, StartAttempt ''e1'' 1 1 ''worker'' 4,
      CommitOutcome sample_outcome True 5]"

definition sample_wake_up :: "store_command list" where
  "sample_wake_up = [DeliverWake (User ''t'') JNull 7]"

lemma sample_run:
  "store_run sample_commands = Inr sample_parked"
  "store_run (sample_commands @ sample_wake_up) = Inr sample_resumed"
  by (simp_all add: store_run_def sample_commands_def sample_wake_up_def discard_def sample_create
      sample_start sample_commit sample_deliver_wake)

text \<open>
  C1: whatever sequence of operations was applied to an empty database, every execution's
  journal still loads, its projection row reads back as the record its journal folds to, and
  \<open>execution\<close> returns that record without rewriting anything.
\<close>

theorem store_never_corrupts:
  assumes "store_run cmds = Inr d"
  shows "\<exists>j. load_validated_journal d eid = Inr j \<and> load_projection d eid = Inr (latest_record j) \<and>
    (is_blank eid \<or> execution d eid = Inr (d, latest_record j))"
  by (rule store_reads [OF store_run_inv [OF assms]])

theorem store_never_corrupts_witness:
  "\<exists>j. load_validated_journal sample_resumed ''e1'' = Inr j \<and>
     load_projection sample_resumed ''e1'' = Inr (latest_record j) \<and>
     execution sample_resumed ''e1'' = Inr (sample_resumed, latest_record j)"
  using store_never_corrupts [OF sample_run(2), of "''e1''"] by simp

text \<open>
  The refinement: \<open>journal_of\<close> abstracts the tables to the folded journal of an execution.
\<close>

definition journal_of :: "db \<Rightarrow> string \<Rightarrow> folded_journal" where
  "journal_of d eid =
     (case load_validated_journal d eid of Inr (Some (evs, rs)) \<Rightarrow> rs | _ \<Rightarrow> [])"

lemma journal_of_loaded: "loaded d eid evs rs \<Longrightarrow> journal_of d eid = rs"
  by (simp add: journal_of_def loaded_load)

text \<open>
  C2: The store refines the journal machine, and its table is append-only: each operation leaves
  every stored row of every execution as it is and in its place, adds rows behind them, possibly
  none, and moves the folded journal by exactly the events of the added rows, which the fold
  accepts.
\<close>

theorem store_refines_journals:
  assumes "store_run cmds = Inr d" "store_step d cmd = Inr d'"
  shows "\<exists>added. journal_rows d' eid = journal_rows d eid @ added \<and>
    run_steps (fold_event eid) (journal_of d eid) (map rw_event added) = Inr (journal_of d' eid)"
proof -
  have inv: "store_inv d"
    by (rule store_run_inv [OF assms(1)])
  obtain evs rs where l: "loaded d eid evs rs"
    by (rule store_invE [OF inv])
  obtain es rs' where l': "loaded d' eid (evs @ es) rs'"
    using store_extE [OF st.step_ext [OF inv assms(2)] l] by blast
  have "journal_rows d' eid = journal_rows d eid @ map written_row es"
    using l l' by (simp add: loaded_def read_journal_rows_written)
  moreover have "run_steps (fold_event eid) rs es = Inr rs'"
    using l l' by (simp add: loaded_def run_steps_append)
  moreover have "map rw_event (map written_row es) = es"
    by (simp add: written_row_def comp_def)
  ultimately show ?thesis
    using journal_of_loaded [OF l] journal_of_loaded [OF l'] by (intro exI [of _ "map written_row es"]) simp
qed

theorem store_refines_journals_witness:
  "\<exists>added. journal_rows sample_resumed ''e1'' = journal_rows sample_parked ''e1'' @ added \<and>
    run_steps (fold_event ''e1'') (journal_of sample_parked ''e1'') (map rw_event added) =
     Inr (journal_of sample_resumed ''e1'')"
  using store_refines_journals [OF sample_run(1), of "DeliverWake (User ''t'') JNull 7"]
  by (simp add: discard_def sample_deliver_wake)

section \<open>Decisions are final\<close>

lemma execution_revision_Some:
  assumes "execution_revision d eid rvn = Inr (Some r)"
  obtains evs rs f where "loaded d eid evs rs" "rs \<noteq> []" "revision_at rs rvn = Some f" "r = fo_record f"
    "\<not> is_blank eid" "fits_i64 rvn"
  using assms
  by (auto simp: execution_revision_def res_bind_Inr validated_text_def sqlite_integer_def load_Some
      if_Inl_Inr split: option.splits if_splits)

lemma execution_revision_loaded:
  assumes "loaded d eid evs rs" "rs \<noteq> []" "\<not> is_blank eid" "fits_i64 rvn"
  shows "execution_revision d eid rvn = Inr (map_option fo_record (revision_at rs rvn))"
  using assms by (simp add: execution_revision_def validated_text_def sqlite_integer_def loaded_load)

lemma revision_at_extends:
  assumes "revision_at rs rvn = Some f" "journal_extends rs rs'"
  shows "\<exists>g. revision_at rs' rvn = Some g \<and> revision_extends f g"
  using assms by (auto simp: revision_at_def journal_extends_def Let_def split: if_splits)

text \<open>A revision read at some time, and the same revision read later.\<close>

lemma revision_later:
  assumes "store_run xs = Inr d" "store_run (xs @ ys) = Inr d'" "loaded d eid evs rs"
    "revision_at rs rvn = Some f"
  obtains es rs' g where "loaded d' eid (evs @ es) rs'" "fenced rs'" "revision_at rs' rvn = Some g"
    "revision_extends f g"
proof -
  have "run_steps store_step d ys = Inr d'"
    using store_run_append [OF assms(2)] assms(1) by auto
  then have "store_ext True d d'"
    by (rule st.run_ext [OF store_run_inv [OF assms(1)]])
  then obtain es rs' where l': "loaded d' eid (evs @ es) rs'" "journal_extends rs rs'"
    using assms(3) by (rule store_extE)
  obtain evs2 rs2 where "loaded d' eid evs2 rs2" "fenced rs2"
    by (rule store_invE [OF store_run_inv [OF assms(2)]])
  with l'(1) have "fenced rs'"
    using loaded_unique by metis
  with that l' revision_at_extends [OF assms(4) l'(2)] show thesis by blast
qed

text \<open>
  C3: a committed outcome is final. Once a revision reads with an outcome, it reads as the
  same record after any further operations: no retry, late worker, wake, reclaim or effect
  resolution changes its contract, its outcome or its timestamps.
\<close>

theorem committed_outcome_final:
  assumes "store_run xs = Inr d" "store_run (xs @ ys) = Inr d'"
    and "execution_revision d eid rvn = Inr (Some r)" "er_outcome r \<noteq> None"
  shows "execution_revision d' eid rvn = Inr (Some r)"
proof -
  obtain evs rs f where f: "loaded d eid evs rs" "rs \<noteq> []" "revision_at rs rvn = Some f"
      "r = fo_record f" "\<not> is_blank eid" "fits_i64 rvn"
    using assms(3) by (rule execution_revision_Some)
  obtain es rs' g where g: "loaded d' eid (evs @ es) rs'" "revision_at rs' rvn = Some g"
      "revision_extends f g"
    by (rule revision_later [OF assms(1,2) f(1,3)])
  have "rs' \<noteq> []"
    using g(2) by (auto simp: revision_at_def Let_def split: if_splits)
  then show ?thesis
    using execution_revision_loaded [OF g(1) _ f(5,6)] g f(4) assms(4)
    by (simp add: revision_extends_def)
qed

lemma sample_parked_loads:
  "\<exists>evs. loaded sample_parked ''e1'' evs [sample_suspended]"
  by (simp add: loaded_def store_eval sample_defs sample_parked_def sample_suspended_def
      sample_outcome_def sample_suspension_ok)

lemma sample_parked_revision:
  "execution_revision sample_parked ''e1'' 1 = Inr (Some (fo_record sample_suspended))"
  using sample_parked_loads execution_revision_loaded [of sample_parked "''e1''" _ "[sample_suspended]" 1]
  by (auto simp: revision_at_def)

theorem committed_outcome_final_witness:
  "execution_revision sample_resumed ''e1'' 1 = Inr (Some (fo_record sample_suspended))"
  by (rule committed_outcome_final [OF sample_run sample_parked_revision])
    (simp add: sample_suspended_def)

section \<open>A worker that lost its fence is refused\<close>

lemma fence_monotone:
  assumes "loaded d eid evs rs" "fenced rs" "revision_at rs rvn = Some f"
    and "loaded d' eid evs' rs'" "fenced rs'" "revision_at rs' rvn = Some g" "revision_extends f g"
  shows "c_fencing_token (er_contract (fo_record f)) \<le> c_fencing_token (er_contract (fo_record g))"
proof -
  have "f \<in> set rs" "g \<in> set rs'"
    using assms(3,6) by (auto simp: revision_at_def Let_def split: if_splits)
  then show ?thesis
    using assms(2,5,7) by (simp add: fenced_def revision_extends_def)
qed

lemma commit_fence:
  assumes "commit_execution_outcome_with_requirement d v running now = Inr (d', c)"
  obtains evs rs f where "loaded d (bn_execution_id (vo_binding v)) evs rs"
    "revision_at rs (bn_revision (vo_binding v)) = Some f"
    "bn_fencing_token (vo_binding v) = c_fencing_token (er_contract (fo_record f))"
  using assms by (rule commit_cases) (blast intro: that)+

lemma start_attempt_fence:
  assumes "start_execution_attempt d eid rvn fence owner now = Inr (d', r)"
  obtains evs rs f where "loaded d eid evs rs" "revision_at rs rvn = Some f"
    "fence = c_fencing_token (er_contract (fo_record f))"
  using assms by (rule start_attempt_cases) (use revision_at_last that in blast)+

lemma reclaim_fence:
  assumes "reclaim_execution_attempt d eid rvn expected nxt owner now = Inr (d', r)"
  obtains evs rs f where "loaded d eid evs rs" "revision_at rs rvn = Some f"
    "expected = c_fencing_token (er_contract (fo_record f))"
  using assms by (rule reclaim_cases) (use revision_at_last that in blast)

lemma advance_fence:
  assumes "advance_execution_fence d eid rvn expected nxt now = Inr (d', r)"
  obtains evs rs f where "loaded d eid evs rs" "revision_at rs rvn = Some f"
    "expected = c_fencing_token (er_contract (fo_record f))"
  using assms by (rule advance_cases) (use revision_at_last that in blast)

lemma refusedI: "(\<And>a b. r = Inr (a, b) \<Longrightarrow> False) \<Longrightarrow> \<exists>e. r = Inl e"
  by (cases r) auto

text \<open>
  C4: fencing. Once the fence of a revision has been read as \<open>f\<close>, a worker still holding
  a smaller fence can do nothing to that revision, now or at any later time: it can neither
  commit an outcome (even the one already committed), nor start an attempt, nor reclaim one,
  nor advance the fence.
\<close>

theorem lost_fence_refused:
  assumes "store_run xs = Inr d" "store_run (xs @ ys) = Inr d'"
    and "execution_revision d eid rvn = Inr (Some r)" "stale < c_fencing_token (er_contract r)"
  shows "(\<exists>e. commit_execution_outcome_with_requirement d'
       \<lparr>vo_outcome = out, vo_binding = \<lparr>bn_execution_id = eid, bn_revision = rvn, bn_kind = k,
          bn_fencing_token = stale\<rparr>\<rparr> running now = Inl e) \<and>
    (\<exists>e. start_execution_attempt d' eid rvn stale owner now = Inl e) \<and>
    (\<exists>e. reclaim_execution_attempt d' eid rvn stale nxt owner now = Inl e) \<and>
    (\<exists>e. advance_execution_fence d' eid rvn stale nxt now = Inl e)"
proof -
  obtain evs rs f where f: "loaded d eid evs rs" "rs \<noteq> []" "revision_at rs rvn = Some f"
      "r = fo_record f"
    using assms(3) by (rule execution_revision_Some)
  obtain evs2 rs2 where "loaded d eid evs2 rs2" "fenced rs2"
    by (rule store_invE [OF store_run_inv [OF assms(1)]])
  with f(1) have fenced: "fenced rs"
    using loaded_unique by metis
  obtain es rs' g where g: "loaded d' eid (evs @ es) rs'" "fenced rs'"
      "revision_at rs' rvn = Some g" "revision_extends f g"
    by (rule revision_later [OF assms(1,2) f(1,3)])
  have mono: "stale < c_fencing_token (er_contract (fo_record g))"
    using fence_monotone [OF f(1) fenced f(3) g] assms(4) f(4) by simp
  have refused: "\<not> (loaded d' eid xs ss \<and> revision_at ss rvn = Some h \<and>
      stale = c_fencing_token (er_contract (fo_record h)))" for xs ss h
    using loaded_unique [OF g(1)] g(3) mono by auto
  have "\<exists>e. commit_execution_outcome_with_requirement d'
       \<lparr>vo_outcome = out, vo_binding = \<lparr>bn_execution_id = eid, bn_revision = rvn, bn_kind = k,
          bn_fencing_token = stale\<rparr>\<rparr> running now = Inl e"
    by (rule refusedI, erule commit_fence) (use refused in fastforce)
  moreover have "\<exists>e. start_execution_attempt d' eid rvn stale owner now = Inl e"
    by (rule refusedI, erule start_attempt_fence) (use refused in blast)
  moreover have "\<exists>e. reclaim_execution_attempt d' eid rvn stale nxt owner now = Inl e"
    by (rule refusedI, erule reclaim_fence) (use refused in blast)
  moreover have "\<exists>e. advance_execution_fence d' eid rvn stale nxt now = Inl e"
    by (rule refusedI, erule advance_fence) (use refused in blast)
  ultimately show ?thesis by blast
qed

theorem lost_fence_refused_witness:
  "\<exists>e. commit_execution_outcome_with_requirement sample_resumed
       \<lparr>vo_outcome = sample_suspension, vo_binding = \<lparr>bn_execution_id = ''e1'', bn_revision = 1,
          bn_kind = ''chat_turn'', bn_fencing_token = 0\<rparr>\<rparr> True 9 = Inl e"
  using lost_fence_refused [OF sample_run sample_parked_revision,
      of 0 sample_suspension "''chat_turn''" True 9]
  by (simp add: sample_suspended_def sample_owned_def sample_ready_def)

section \<open>Committing an outcome is idempotent\<close>

fun committed_record :: "outcome_commit \<Rightarrow> execution_record" where
  "committed_record (OutInserted r) = r"
| "committed_record (OutExisting r) = r"

lemma enqueue_idem:
  assumes "enqueue_projection d c t = Inr d'"
  shows "enqueue_projection d' c t' = Inr d'"
proof (cases "projector_kind (c_kind c)")
  case (Some knd)
  let ?ref = "projection_ref (c_execution_id c) (c_revision c) knd"
  have fit: "sqlite_u64 (c_revision c) ''projection revision'' = Inr ()"
    using assms Some by (auto simp: enqueue_projection_def op_simps)
  show ?thesis
  proof (cases "row_of px_projection_ref ?ref (db_outbox d)")
    case None
    with assms Some have "d' = d\<lparr>db_outbox := db_outbox d @ [pending_row ?ref c knd t]\<rparr>"
      by (simp add: enqueue_projection_def op_simps)
    moreover have "row_of px_projection_ref ?ref (db_outbox d @ [pending_row ?ref c knd t]) =
        Some (pending_row ?ref c knd t)"
      using None by (simp add: row_of_append_None row_of_Cons pending_row_def)
    ultimately show ?thesis
      using Some fit by (simp add: enqueue_projection_def pending_row_def)
  next
    case (Some row)
    with assms \<open>projector_kind (c_kind c) = Some knd\<close> show ?thesis
      by (auto simp: enqueue_projection_def op_simps)
  qed
qed (use assms in \<open>simp add: enqueue_projection_def\<close>)

lemma register_verified:
  assumes "register_suspended_wake d eid rvn out t = Inr d'"
  shows "verify_registered_wake d' eid rvn out (Some t) None = Inr ()"
  using assms
  by (cases out) (auto simp: register_suspended_wake_def op_simps verify_registered_wake_def)

lemma verify_registered_cong:
  "db_wakes d' = db_wakes d \<Longrightarrow>
    verify_registered_wake d' eid rvn out t w = verify_registered_wake d eid rvn out t w"
  unfolding verify_registered_wake_def by (simp only:)

text \<open>What a commit leaves behind: the revision with this outcome, and its wake registered.\<close>

definition decided :: "db \<Rightarrow> validated_outcome \<Rightarrow> execution_record \<Rightarrow> bool" where
  "decided d v r \<longleftrightarrow>
     (\<exists>evs rs f t. loaded d (bn_execution_id (vo_binding v)) evs rs \<and>
        revision_at rs (bn_revision (vo_binding v)) = Some f \<and> fo_record f = r \<and>
        outcome_of r = Some (vo_outcome v) \<and> fo_outcome_committed_at f = Some t \<and>
        verify_registered_wake d (bn_execution_id (vo_binding v)) (bn_revision (vo_binding v))
          (vo_outcome v) (Some t) (fo_wake_transition f) = Inr () \<and>
        enqueue_projection d (er_contract r) t = Inr d)"

lemma decidedI:
  assumes "loaded d (bn_execution_id (vo_binding v)) evs rs"
    "revision_at rs (bn_revision (vo_binding v)) = Some f" "fo_record f = r"
    "outcome_of r = Some (vo_outcome v)" "fo_outcome_committed_at f = Some t"
    "verify_registered_wake d (bn_execution_id (vo_binding v)) (bn_revision (vo_binding v))
       (vo_outcome v) (Some t) (fo_wake_transition f) = Inr ()"
    "enqueue_projection d (er_contract r) t = Inr d"
  shows "decided d v r"
  using assms unfolding decided_def by blast

definition names :: "execution_binding \<Rightarrow> execution_contract \<Rightarrow> bool" where
  "names b c \<longleftrightarrow>
     bn_execution_id b = c_execution_id c \<and> bn_revision b = c_revision c \<and>
     bn_kind b = c_kind c \<and> bn_fencing_token b = c_fencing_token c"

lemma commit_names:
  assumes "commit_execution_outcome_with_requirement d v running now = Inr (d', c)"
  obtains evs rs f where "loaded d (bn_execution_id (vo_binding v)) evs rs"
    "revision_at rs (bn_revision (vo_binding v)) = Some f"
    "names (vo_binding v) (er_contract (fo_record f))"
    "\<not> is_blank (bn_execution_id (vo_binding v))" "fits_i64 (bn_revision (vo_binding v))"
    "fits_i64 (bn_fencing_token (vo_binding v))"
  using assms
  by (auto simp: commit_execution_outcome_with_requirement_def op_simps names_def
      validated_text_def sqlite_integer_def if_Inl_Inr split: if_splits)

text \<open>The outcome event keeps the contract and records the commit time.\<close>

lemma fold_outcome_event:
  assumes "fold_event eid rs ev = Inr rs'" "ev_event ev = OutcomeCommitted v out st"
  shows "rs \<noteq> []" and "length rs' = length rs"
    and "er_contract (fo_record (last rs')) = er_contract (fo_record (last rs))"
    and "outcome_of (fo_record (last rs')) = Some out"
    and "fo_outcome_committed_at (last rs') = Some (ev_created_at ev)"
    and "fo_wake_transition (last rs') = fo_wake_transition (last rs)"
  using assms
  by (auto simp: fold_event.simps fold_outcome_committed_def fold_simps outcome_of_def
      set_last_def new_validated_outcome_Inr)

lemma commit_decides:
  assumes inv: "store_inv d"
    and op: "commit_execution_outcome_with_requirement d v running now = Inr (d', c)"
  shows "decided d' v (committed_record c)" and "names (vo_binding v) (er_contract (committed_record c))"
proof -
  let ?eid = "bn_execution_id (vo_binding v)" and ?rvn = "bn_revision (vo_binding v)"
  obtain evs0 rs0 f0 where n: "loaded d ?eid evs0 rs0" "revision_at rs0 ?rvn = Some f0"
      "names (vo_binding v) (er_contract (fo_record f0))"
    using op by (rule commit_names)
  have "decided d' v (committed_record c) \<and> names (vo_binding v) (er_contract (committed_record c))"
    using op
  proof (cases rule: commit_cases)
    case (existing evs rs f t)
    have f0: "f0 = f"
      using loaded_unique [OF n(1) existing(1)] n(2) existing(3) by simp
    have frame: "db_events d' = db_events d" "db_wakes d' = db_wakes d"
      using arg_cong [OF enqueue_frame [OF existing(7)], of db_events]
        arg_cong [OF enqueue_frame [OF existing(7)], of db_wakes] by simp_all
    have "verify_registered_wake d ?eid ?rvn (vo_outcome v) (Some t) (fo_wake_transition f) = Inr ()"
      using op existing(1,3,4,5)
      by (auto simp: commit_execution_outcome_with_requirement_def op_simps loaded_def)
    then have "verify_registered_wake d' ?eid ?rvn (vo_outcome v) (Some t) (fo_wake_transition f) = Inr ()"
      by (simp add: verify_registered_cong [OF frame(2)])
    moreover have "loaded d' ?eid evs rs"
      using existing(1) by (simp add: loaded_cong [OF frame(1)])
    moreover have "enqueue_projection d' (er_contract (fo_record f)) t = Inr d'"
      by (rule enqueue_idem [OF existing(7)])
    ultimately have "decided d' v (fo_record f)"
      by (intro decidedI [of d' v evs rs f _ t]) (use existing(3-5) in simp_all)
    then show ?thesis
      using existing(8) n(3) f0 by simp
  next
    case (inserted evs rs d1 d2 d3 r)
    have f0: "f0 = last rs"
      using loaded_unique [OF n(1) inserted(1)] n(2) inserted(3) by simp
    have same: "same_journals d1 d2"
      using arg_cong [OF register_frame [OF inserted(9)], of db_events]
        arg_cong [OF register_frame [OF inserted(9)], of db_executions]
      by (simp add: same_journals_def)
    have len: "length rs \<le> unat ?rvn"
      using loaded_last(2) [OF inserted(1,2)] inserted(5) by simp
    obtain ev rs' where new: "loaded d3 ?eid (evs @ [ev]) rs'" "fold_event ?eid rs ev = Inr rs'"
        "ev_event ev = OutcomeCommitted JOURNAL_EVENT_VERSION (vo_outcome v)
           (state_for_outcome (vo_outcome v))"
        "ev_created_at ev = now" "rs' \<noteq> []" "r = fo_record (last rs')"
      by (rule append_refresh [OF store_inv_partly [OF inv inserted(1)] inserted(8) len same
            inserted(10)]) simp_all
    note o = fold_outcome_event [OF new(2,3)]
    have at: "revision_at rs' ?rvn = Some (last rs')"
      using revision_at_last [OF new(1,5)] o(3) inserted(5) by simp
    have open_rev: "fo_wake_transition (last rs) = None"
      using journal_inv_last [OF loaded_inv [OF inserted(1)] inserted(2)] inserted(4)
      by (auto simp: revision_ok_def state_agrees_def outcome_of_def split: option.splits)
    have frame: "db_events d' = db_events d3" "db_wakes d' = db_wakes d2"
      using arg_cong [OF enqueue_frame [OF inserted(11)], of db_events]
        arg_cong [OF enqueue_frame [OF inserted(11)], of db_wakes]
        arg_cong [OF refresh_frame [OF inserted(10)], of db_wakes] by simp_all
    have "verify_registered_wake d' ?eid ?rvn (vo_outcome v) (Some now) None = Inr ()"
      using register_verified [OF inserted(9)] by (simp add: verify_registered_cong [OF frame(2)])
    moreover have "loaded d' ?eid (evs @ [ev]) rs'"
      using new(1) by (simp add: loaded_cong [OF frame(1)])
    moreover have "enqueue_projection d' (er_contract r) now = Inr d'"
      using enqueue_idem [OF inserted(11)] o(3) new(6) by simp
    ultimately have "decided d' v r"
      by (intro decidedI [of d' v "evs @ [ev]" rs' "last rs'" _ now])
        (use at o new open_rev in simp_all)
    then show ?thesis
      using inserted(12) n(3) f0 o(3) new(6) by simp
  qed
  then show "decided d' v (committed_record c)" "names (vo_binding v) (er_contract (committed_record c))"
    by blast+
qed

text \<open>
  Committing is idempotent. The same validated outcome, presented again under the same
  binding, is answered with the committed record and changes nothing, whether or not a
  running attempt is required; any other outcome under that binding is refused.
\<close>

lemma commit_idempotent:
  assumes "store_run cmds = Inr d"
    and "commit_execution_outcome_with_requirement d v running now = Inr (d', c)"
    and "vo_binding v' = vo_binding v"
  shows "commit_execution_outcome_with_requirement d' v' again later =
    (if vo_outcome v' = vo_outcome v then Inr (d', OutExisting (committed_record c))
     else Inl (InvalidTransition ''a conflicting execution outcome is already committed''))"
proof -
  have inv: "store_inv d"
    by (rule store_run_inv [OF assms(1)])
  obtain t evs rs f where dec: "loaded d' (bn_execution_id (vo_binding v)) evs rs"
      "revision_at rs (bn_revision (vo_binding v)) = Some f" "fo_record f = committed_record c"
      "outcome_of (committed_record c) = Some (vo_outcome v)" "fo_outcome_committed_at f = Some t"
      "verify_registered_wake d' (bn_execution_id (vo_binding v)) (bn_revision (vo_binding v))
          (vo_outcome v) (Some t) (fo_wake_transition f) = Inr ()"
      "enqueue_projection d' (er_contract (committed_record c)) t = Inr d'"
    using commit_decides(1) [OF inv assms(2)] unfolding decided_def by blast
  have nm: "names (vo_binding v) (er_contract (committed_record c))"
    by (rule commit_decides(2) [OF inv assms(2)])
  obtain b: "\<not> is_blank (bn_execution_id (vo_binding v))" "fits_i64 (bn_revision (vo_binding v))"
      "fits_i64 (bn_fencing_token (vo_binding v))"
    using assms(2) by (rule commit_names)
  have ne: "rs \<noteq> []"
    using dec(2) by (auto simp: revision_at_def Let_def split: if_splits)
  then have req: "load_required d' (c_execution_id (er_contract (committed_record c))) e = Inr (evs, rs)" for e
    using dec(1) nm by (simp add: load_required_Inr names_def)
  show ?thesis
    using dec nm b assms(3)
    by (auto simp: commit_execution_outcome_with_requirement_def Let_def validated_text_def
        sqlite_integer_def req names_def)
qed

lemma commit_idempotent_witness:
  "commit_execution_outcome_with_requirement sample_parked sample_outcome False 6 =
     Inr (sample_parked, OutExisting (fo_record sample_suspended)) \<and>
   commit_execution_outcome_with_requirement sample_parked
     (sample_outcome\<lparr>vo_outcome := OutCancelled Replaced\<rparr>) True 6 =
     Inl (InvalidTransition ''a conflicting execution outcome is already committed'')"
proof -
  have run: "store_run [CreateExecution sample_contract 3, StartAttempt ''e1'' 1 1 ''worker'' 4] =
      Inr sample_started"
    by (simp add: store_run_def discard_def sample_create sample_start)
  show ?thesis
    using commit_idempotent [OF run sample_commit, of sample_outcome False 6]
      commit_idempotent [OF run sample_commit, of "sample_outcome\<lparr>vo_outcome := OutCancelled Replaced\<rparr>" True 6]
    by (simp add: sample_outcome_def sample_suspension_def)
qed

end
