(* ===== verification/WakeDelivery.thy ===== *)
theory WakeDelivery
  imports StoreTheorems
begin

text \<open>
  The wake table against the journals: every wake row is backed by the suspended outcome that
  registered it, it is delivered exactly when the journal holds its delivery, and delivering
  it opens the next revision. Hence a wake fires once, and resolving an effect wakes its
  execution in the same transaction.
\<close>

section \<open>What delivering a wake does\<close>

lemma fold_woken:
  assumes "fold_event eid rs ev = Inr rs'" "ev_event ev = WakeDelivered v delivery n"
  shows "rs \<noteq> [] \<and> fo_wake_transition (last rs) = None \<and>
    rs' = set_last rs ((last rs)\<lparr>fo_wake_transition :=
      Some \<lparr>wt_delivery = delivery, wt_next_revision = n, wt_created_at = ev_created_at ev\<rparr>\<rparr>)"
  using assms by (auto simp: fold_event.simps fold_wake_delivered_def fold_simps)

lemma fold_opened:
  assumes "fold_event eid rs ev = Inr rs'" "ev_event ev = RevisionStarted v p c"
  shows "rs \<noteq> [] \<and> rs' = rs @ [ready_revision c (er_created_at (fo_record (last rs))) (ev_created_at ev)]"
  using assms by (auto simp: fold_event.simps fold_revision_started_def fold_simps)

definition woken :: "folded_execution \<Rightarrow> wake_delivery \<Rightarrow> u64 \<Rightarrow> int \<Rightarrow> folded_execution" where
  "woken f delivery n t =
     f\<lparr>fo_wake_transition := Some \<lparr>wt_delivery = delivery, wt_next_revision = n, wt_created_at = t\<rparr>\<rparr>"

lemma woken_simps [simp]:
  "fo_record (woken f delivery n t) = fo_record f"
  "fo_outcome_committed_at (woken f delivery n t) = fo_outcome_committed_at f"
  "fo_wake_transition (woken f delivery n t) =
     Some \<lparr>wt_delivery = delivery, wt_next_revision = n, wt_created_at = t\<rparr>"
  by (simp_all add: woken_def)

lemma last_set_last [simp]: "last (set_last rs x) = x"
  by (simp add: set_last_def)

lemma refresh_wakes:
  "refresh_projection d eid missing = Inr (d', r) \<Longrightarrow> db_wakes d' = db_wakes d \<and>
    db_receipts d' = db_receipts d \<and> db_tasks d' = db_tasks d \<and> db_outbox d' = db_outbox d"
  by (drule refresh_frame) (metis (no_types, lifting) db.select_convs(4,5,7,8) db.surjective
      db.update_convs(3))

lemma start_revision_frame:
  assumes "start_execution_revision_on d c = Inr (d', r)"
  shows "db_wakes d' = db_wakes d" "db_receipts d' = db_receipts d" "db_tasks d' = db_tasks d"
    "db_outbox d' = db_outbox d"
proof -
  have "db_wakes d' = db_wakes d \<and> db_receipts d' = db_receipts d \<and> db_tasks d' = db_tasks d \<and>
      db_outbox d' = db_outbox d"
    using assms
  proof (cases rule: start_revision_cases)
    case (existing evs rs)
    then show ?thesis
      by (auto simp: write_projection_def res_bind_Inr)
  next
    case (inserted evs rs wt d1 rec)
    then show ?thesis
      using append_frame [OF inserted(6)] refresh_wakes [OF inserted(7)] by simp
  qed
  then show "db_wakes d' = db_wakes d" "db_receipts d' = db_receipts d" "db_tasks d' = db_tasks d"
    "db_outbox d' = db_outbox d" by simp_all
qed

lemma verify_delivered_evidence:
  "verify_delivered_wake d f c = Inr wt \<Longrightarrow> fo_wake_transition f = Some wt"
  by (auto simp: verify_delivered_wake_def suspended_case_Inr op_simps)

lemma refresh_events: "refresh_projection d eid missing = Inr (d', r) \<Longrightarrow> db_events d' = db_events d"
  by (drule refresh_frame) (metis db.select_convs(1) db.surjective db.update_convs(3))

lemma loaded_step_other:
  assumes "append_journal_event d eid rvn e now = Inr d1" "db_events d' = db_events d1" "x \<noteq> eid"
  shows "loaded d' x = loaded d x"
  using loaded_append_other [OF assms(1,3)] loaded_cong [OF assms(2)] by (intro ext) simp

text \<open>The journal step of a revision start, also when its wake event was just appended.\<close>

lemma started_event:
  assumes part: "partly_sound d (c_execution_id c) evs rs"
    and op: "start_execution_revision_on d c = Inr (d', RevInserted rec)"
  obtains ev wt where "ev_event ev = RevisionStarted JOURNAL_EVENT_VERSION (c_revision c - 1) c"
    "fo_wake_transition (last rs) = Some wt"
    "loaded d' (c_execution_id c) (evs @ [ev])
       (rs @ [ready_revision c (er_created_at (fo_record (last rs))) (wt_created_at wt)])"
    "\<And>x. x \<noteq> c_execution_id c \<Longrightarrow> loaded d' x = loaded d x"
  using op
proof (cases rule: start_revision_cases)
  case (inserted evs' rs' wt d1 rec')
  have same: "evs' = evs \<and> rs' = rs"
    using part inserted(1) loaded_unique by (auto simp: partly_sound_def)
  have "length rs \<le> unat (c_revision c)"
    using loaded_last(2) [OF inserted(1,2)] unat_checked_inc [OF inserted(4)] same by simp
  then obtain ev rs2 where ev: "loaded d' (c_execution_id c) (evs @ [ev]) rs2"
      "fold_event (c_execution_id c) rs ev = Inr rs2"
      "ev_event ev = RevisionStarted JOURNAL_EVENT_VERSION (c_revision c - 1) c"
      "ev_created_at ev = wt_created_at wt"
    by - (rule append_refresh [OF part inserted(6) _ same_journals_refl inserted(7),
          where w = True], simp_all)
  have wt: "fo_wake_transition (last rs) = Some wt"
    using verify_delivered_evidence [OF inserted(5)] same by simp
  have "loaded d' x = loaded d x" if "x \<noteq> c_execution_id c" for x
    using loaded_step_other [OF inserted(6) refresh_events [OF inserted(7)] that] .
  with that ev(3) wt ev(1) fold_opened [OF ev(2,3)] ev(4) show thesis by simp
qed simp

lemma mark_delivered_cong:
  assumes "db_wakes d1 = db_wakes d"
  shows "db_wakes (fst (mark_delivered d1 k dl t)) = db_wakes (fst (mark_delivered d k dl t))"
    and "snd (mark_delivered d1 k dl t) = snd (mark_delivered d k dl t)"
  using assms by (simp_all add: mark_delivered_def Let_def)

lemma mark_delivered_others:
  assumes "mark_delivered d k dl t = (d', n)"
  shows "db_events d' = db_events d" "db_executions d' = db_executions d"
    "db_receipts d' = db_receipts d" "db_outbox d' = db_outbox d"
  using assms by (auto simp: mark_delivered_def Let_def)

lemma project_task_others:
  assumes "project_legacy_task_ready d c t = Inr d'"
  shows "db_events d' = db_events d" "db_wakes d' = db_wakes d"
    "db_receipts d' = db_receipts d" "db_outbox d' = db_outbox d"
  using arg_cong [OF project_task_frame [OF assms], of db_events]
    arg_cong [OF project_task_frame [OF assms], of db_wakes]
    arg_cong [OF project_task_frame [OF assms], of db_receipts]
    arg_cong [OF project_task_frame [OF assms], of db_outbox] by simp_all

text \<open>The database after a delivery, in terms of the journal before it.\<close>

definition resumes ::
  "db \<Rightarrow> db \<Rightarrow> pending_wake_receipt \<Rightarrow> json \<Rightarrow> int \<Rightarrow> execution_event list \<Rightarrow> folded_journal \<Rightarrow>
   checkpoint_envelope \<Rightarrow> u64 \<Rightarrow> u64 \<Rightarrow> bool" where
  "resumes d d' p payload t evs rs ck n f \<longleftrightarrow>
     (let eid = pw_execution_id p; dl = delivery_of p payload t;
          c = resumed_contract (er_contract (fo_record (last rs))) n f ck dl;
          m = mark_delivered d (eid, pw_revision p, pw_dedup_key p) dl t in
      (\<exists>ev1 ev2. ev_event ev1 = WakeDelivered JOURNAL_EVENT_VERSION dl n \<and>
         ev_event ev2 = RevisionStarted JOURNAL_EVENT_VERSION (pw_revision p) c \<and>
         loaded d' eid (evs @ [ev1, ev2]) (set_last rs (woken (last rs) dl n t) @
           [ready_revision c (er_created_at (fo_record (last rs))) t])) \<and>
      (\<forall>x. x \<noteq> eid \<longrightarrow> loaded d' x = loaded d x) \<and>
      db_wakes d' = db_wakes (fst m) \<and> snd m = 1 \<and>
      db_receipts d' = db_receipts d \<and> db_outbox d' = db_outbox d)"

lemma deliver_resumes:
  assumes inv: "store_inv d"
    and l: "loaded d (pw_execution_id p) evs rs" "rs \<noteq> []"
    and rev: "c_revision (er_contract (fo_record (last rs))) = pw_revision p"
    and n: "checked_inc (pw_revision p) = Some n"
    and ap: "append_journal_event d (pw_execution_id p) (pw_revision p)
       (WakeDelivered JOURNAL_EVENT_VERSION (delivery_of p payload t) n) t = Inr d1"
    and mark: "mark_delivered d1 (pw_execution_id p, pw_revision p, pw_dedup_key p)
       (delivery_of p payload t) t = (d2, 1)"
    and start: "start_execution_revision_on d2 (resumed_contract
       (er_contract (fo_record (last rs))) n f ck (delivery_of p payload t)) = Inr (d3, RevInserted rec)"
    and proj: "project_legacy_task_ready d3 (resumed_contract
       (er_contract (fo_record (last rs))) n f ck (delivery_of p payload t)) t = Inr d'"
  shows "resumes d d' p payload t evs rs ck n f \<and> fo_wake_transition (last rs) = None"
proof -
  let ?eid = "pw_execution_id p" and ?k = "(pw_execution_id p, pw_revision p, pw_dedup_key p)"
    and ?dl = "delivery_of p payload t"
  let ?n = "resumed_contract (er_contract (fo_record (last rs))) n f ck ?dl"
  have id: "c_execution_id ?n = ?eid"
    using loaded_last(1) [OF l] by simp
  note same = mark_delivered_others [OF mark]
  obtain evs1 rs1 where l1: "loaded d1 ?eid evs1 rs1"
    using start unfolding id [symmetric]
    by (rule start_revision_cases) (simp_all add: loaded_cong [OF same(1)])
  then obtain ev1 where ev1: "evs1 = evs @ [ev1]" "fold_event ?eid rs ev1 = Inr rs1"
      "ev_event ev1 = WakeDelivered JOURNAL_EVENT_VERSION ?dl n" "ev_created_at ev1 = t"
      "partly_sound d1 ?eid evs1 rs1"
    by (rule append_partly [OF store_inv_partly [OF inv l(1)] ap, where w = True, rotated])
      (use loaded_last(2) [OF l] rev in simp_all)
  have rs1: "rs1 = set_last rs (woken (last rs) ?dl n t)" and fresh: "fo_wake_transition (last rs) = None"
    using fold_woken [OF ev1(2,3)] ev1(4) by (simp_all add: woken_def)
  have part: "partly_sound d2 (c_execution_id ?n) evs1 rs1"
    using ev1(5) unfolding id by (simp add: partly_sound_cong [OF same(1,2)])
  obtain ev2 where ev2: "ev_event ev2 = RevisionStarted JOURNAL_EVENT_VERSION (c_revision ?n - 1) ?n"
      "loaded d3 ?eid (evs1 @ [ev2]) (rs1 @ [ready_revision ?n (er_created_at (fo_record (last rs1))) t])"
      "\<And>x. x \<noteq> ?eid \<Longrightarrow> loaded d3 x = loaded d2 x"
    by (rule started_event [OF part start]) (use rs1 id in auto)
  note frame = project_task_others [OF proj]
  have "loaded d' x = loaded d x" if "x \<noteq> ?eid" for x
    using ev2(3) [OF that] loaded_step_other [OF ap same(1) that] loaded_cong [OF frame(1), of x]
    by (intro ext) simp
  moreover have "loaded d' ?eid (evs @ [ev1, ev2]) (set_last rs (woken (last rs) ?dl n t) @
      [ready_revision ?n (er_created_at (fo_record (last rs))) t])"
    using ev2(2) ev1(1) rs1 by (simp add: loaded_cong [OF frame(1)])
  moreover have "c_revision ?n - 1 = pw_revision p"
    using n by (auto simp: checked_inc_Some)
  moreover note mc = mark_delivered_cong [of d1 d ?k ?dl t]
  have "db_wakes d' = db_wakes (fst (mark_delivered d ?k ?dl t)) \<and> snd (mark_delivered d ?k ?dl t) = 1"
    using mc append_frame [OF ap] mark frame(2) start_revision_frame(1) [OF start] by simp
  moreover have "db_receipts d' = db_receipts d \<and> db_outbox d' = db_outbox d"
    using frame(3,4) start_revision_frame(2,4) [OF start] append_frame [OF ap] same(3,4) by simp
  ultimately show ?thesis
    using ev1(3) ev2(1) fresh unfolding resumes_def Let_def by auto
qed

lemma deliver_effect:
  assumes "store_inv d" "deliver_pending_wake d p payload t = Inr d'"
  obtains evs rs wk ck n f where
    "loaded d (pw_execution_id p) evs rs" "rs \<noteq> []"
    "c_revision (er_contract (fo_record (last rs))) = pw_revision p"
    "outcome_of (fo_record (last rs)) = Some (OutSuspended wk ck)"
    "verify_registered_wake d (pw_execution_id p) (pw_revision p) (OutSuspended wk ck)
       (fo_outcome_committed_at (last rs)) None = Inr ()"
    "fo_wake_transition (last rs) = None"
    "pw_created_at p \<le> t" "checked_inc (pw_revision p) = Some n"
    "checked_inc (c_fencing_token (er_contract (fo_record (last rs)))) = Some f"
    "resumes d d' p payload t evs rs ck n f"
  using assms(2)
  by (rule deliver_cases) (use deliver_resumes [OF assms(1)] that in metis)

section \<open>Every wake row is backed by its journal\<close>

definition wake_state :: "folded_execution \<Rightarrow> wake_row \<Rightarrow> bool" where
  "wake_state f w \<longleftrightarrow>
     (case fo_wake_transition f of
        None \<Rightarrow> wk_status w = WkPending \<and> wk_delivery w = None \<and> wk_delivered_at w = None
      | Some t \<Rightarrow> wk_status w = WkDelivered \<and> wk_delivery w = Some (wt_delivery t) \<and>
          wk_delivered_at w = Some (wd_delivered_at_unix_seconds (wt_delivery t)))"

definition wake_backed :: "folded_journal \<Rightarrow> wake_row \<Rightarrow> bool" where
  "wake_backed rs w \<longleftrightarrow>
     (\<exists>f ck. revision_at rs (wk_revision w) = Some f \<and>
        outcome_of (fo_record f) = Some (OutSuspended (wk_condition w) ck) \<and>
        wk_dedup_key w = dedup_key (wk_condition w) \<and>
        fo_outcome_committed_at f = Some (wk_created_at w) \<and> wake_state f w)"

definition wakes_inv :: "db \<Rightarrow> bool" where
  "wakes_inv d \<longleftrightarrow>
     distinct (map wake_key (db_wakes d)) \<and>
     (\<forall>w \<in> set (db_wakes d). wake_backed (journal_of d (wk_execution_id w)) w)"

lemma wake_backed_step:
  assumes "wake_backed rs w" "fold_event eid rs ev = Inr rs'" "\<not> wakes_up ev"
  shows "wake_backed rs' w"
proof -
  obtain f ck where f: "revision_at rs (wk_revision w) = Some f"
      "outcome_of (fo_record f) = Some (OutSuspended (wk_condition w) ck)"
      "wk_dedup_key w = dedup_key (wk_condition w)"
      "fo_outcome_committed_at f = Some (wk_created_at w)" "wake_state f w"
    using assms(1) unfolding wake_backed_def by blast
  let ?i = "unat (wk_revision w) - 1"
  have i: "wk_revision w \<noteq> 0" "?i < length rs" "f = rs ! ?i"
    using f(1) by (auto simp: revision_at_def Let_def split: if_splits)
  have "rs' ! ?i = rs ! ?i"
  proof (rule fold_event_closed [OF assms(2) i(2)])
    show "er_outcome (fo_record (rs ! ?i)) \<noteq> None"
      using f(2) i(3) by (auto simp: outcome_of_def)
    show "ev_event ev \<noteq> WakeDelivered v dl n" for v dl n
      using assms(3) by auto
  qed
  moreover have "length rs \<le> length rs'"
    using assms(2) by (cases rule: fold_event_shape) auto
  ultimately have "revision_at rs' (wk_revision w) = Some f"
    using i by (simp add: revision_at_def)
  with f(2-5) show ?thesis
    unfolding wake_backed_def by blast
qed

lemma wake_backed_run:
  "\<lbrakk>wake_backed rs w; run_steps (fold_event eid) rs es = Inr rs'; \<not> list_ex wakes_up es\<rbrakk> \<Longrightarrow>
    wake_backed rs' w"
  by (induction es arbitrary: rs) (auto simp: res_bind_Inr dest: wake_backed_step)

lemma loaded_extend: "loaded d eid evs rs \<Longrightarrow> loaded d' eid (evs @ es) rs' \<Longrightarrow>
    run_steps (fold_event eid) rs es = Inr rs'"
  by (simp add: loaded_def run_steps_append)

lemma wakes_inv_quiet:
  assumes inv: "store_inv d" "wakes_inv d" and ext: "store_ext False d d'"
    and wakes: "set (db_wakes d') \<subseteq> set (db_wakes d)" "distinct (map wake_key (db_wakes d'))"
  shows "wakes_inv d'"
  unfolding wakes_inv_def
proof (intro conjI ballI)
  fix w
  assume w: "w \<in> set (db_wakes d')"
  obtain evs rs where l: "loaded d (wk_execution_id w) evs rs"
    by (rule store_invE [OF inv(1)])
  obtain es rs' where l': "loaded d' (wk_execution_id w) (evs @ es) rs'" "\<not> list_ex wakes_up es"
    using store_extE [OF ext l] by blast
  have "wake_backed rs w"
    using inv(2) w wakes(1) journal_of_loaded [OF l] by (auto simp: wakes_inv_def)
  then have "wake_backed rs' w"
    using wake_backed_run loaded_extend [OF l l'(1)] l'(2) by blast
  then show "wake_backed (journal_of d' (wk_execution_id w)) w"
    using journal_of_loaded [OF l'(1)] by simp
qed (rule wakes(2))

lemma wakes_inv_same:
  "\<lbrakk>store_inv d; wakes_inv d; store_ext False d d'; db_wakes d' = db_wakes d\<rbrakk> \<Longrightarrow> wakes_inv d'"
  by (erule (2) wakes_inv_quiet) (auto simp: wakes_inv_def)

text \<open>A verified wake receipt is a backed row.\<close>

lemma verified_row:
  assumes "verify_registered_wake d eid rvn (OutSuspended wk ck) at wt = Inr ()"
  obtains row where "row_of wake_key (eid, rvn, dedup_key wk) (db_wakes d) = Some row"
    "wk_condition row = wk" "wk_dedup_key row = dedup_key wk" "Some (wk_created_at row) = at"
    "wk_execution_id row = eid" "wk_revision row = rvn"
    "\<And>f. fo_wake_transition f = wt \<Longrightarrow> wake_state f row"
proof -
  obtain row where r: "row_of wake_key (eid, rvn, dedup_key wk) (db_wakes d) = Some row"
    using assms by (auto simp: verify_registered_wake_def op_simps)
  then have "wake_key row = (eid, rvn, dedup_key wk)"
    using row_of_Some_in by fastforce
  with r assms that [OF r] show thesis
    by (cases wt) (auto simp: verify_registered_wake_def op_simps wake_state_def wake_key_def)
qed

lemma wake_key_simps: "wake_key w = (eid, rvn, k) \<longleftrightarrow>
    wk_execution_id w = eid \<and> wk_revision w = rvn \<and> wk_dedup_key w = k"
  by (auto simp: wake_key_def)

section \<open>Every operation keeps the wake table backed\<close>

lemma commit_wakes:
  assumes "commit_execution_outcome_with_requirement d v running now = Inr (d', c)"
  shows "db_wakes d' = db_wakes d \<or>
    (\<exists>wk ck row. vo_outcome v = OutSuspended wk ck \<and>
       row_of wake_key (bn_execution_id (vo_binding v), bn_revision (vo_binding v), dedup_key wk)
         (db_wakes d) = None \<and>
       wake_key row = (bn_execution_id (vo_binding v), bn_revision (vo_binding v), dedup_key wk) \<and>
       db_wakes d' = db_wakes d @ [row])"
  using assms
proof (cases rule: commit_cases)
  case (existing evs rs f t)
  then show ?thesis
    using arg_cong [OF enqueue_frame [OF existing(7)], of db_wakes] by simp
next
  case (inserted evs rs d1 d2 d3 r)
  have "db_wakes d' = db_wakes d2"
    using arg_cong [OF enqueue_frame [OF inserted(11)], of db_wakes] refresh_wakes [OF inserted(10)]
    by simp
  moreover have "db_wakes d1 = db_wakes d"
    using append_frame [OF inserted(8)] by simp
  ultimately show ?thesis
    using inserted(9)
    by (cases "vo_outcome v") (auto simp: register_suspended_wake_def op_simps wake_key_def)
qed

lemma commit_keeps_wakes:
  assumes inv: "store_inv d" "wakes_inv d"
    and op: "commit_execution_outcome_with_requirement d v running now = Inr (d', c)"
  shows "wakes_inv d'"
proof -
  have ext: "store_ext False d d'" and inv': "store_inv d'"
    using commit_keeps [OF inv(1) op, of False] by (simp_all add: store_keeps_def)
  show ?thesis
    using commit_wakes [OF op]
  proof (elim disjE exE conjE)
    assume "db_wakes d' = db_wakes d"
    with inv ext show ?thesis by (rule wakes_inv_same)
  next
    let ?eid = "bn_execution_id (vo_binding v)" and ?rvn = "bn_revision (vo_binding v)"
    fix wk ck and row :: wake_row
    assume out: "vo_outcome v = OutSuspended wk ck"
      and fresh: "row_of wake_key (?eid, ?rvn, dedup_key wk) (db_wakes d) = None"
      and key: "wake_key row = (?eid, ?rvn, dedup_key wk)"
      and wakes: "db_wakes d' = db_wakes d @ [row]"
    have old: "wakes_inv (d'\<lparr>db_wakes := db_wakes d\<rparr>)"
    proof (rule wakes_inv_same [OF inv])
      have "store_ext False d' (d'\<lparr>db_wakes := db_wakes d\<rparr>)"
        by (rule store_ext_cong) simp
      with ext show "store_ext False d (d'\<lparr>db_wakes := db_wakes d\<rparr>)"
        by (rule store_ext_trans)
    qed simp
    obtain evs rs f t where dec: "loaded d' ?eid evs rs" "revision_at rs ?rvn = Some f"
        "outcome_of (fo_record f) = Some (OutSuspended wk ck)" "fo_outcome_committed_at f = Some t"
        "verify_registered_wake d' ?eid ?rvn (OutSuspended wk ck) (Some t) (fo_wake_transition f) = Inr ()"
      using commit_decides(1) [OF inv(1) op] out unfolding decided_def by auto
    obtain row' where row': "row_of wake_key (?eid, ?rvn, dedup_key wk) (db_wakes d') = Some row'"
        "wk_condition row' = wk" "wk_dedup_key row' = dedup_key wk" "Some (wk_created_at row') = Some t"
        "wk_revision row' = ?rvn" "wake_state f row'"
      using verified_row [OF dec(5)] by metis
    have "row' = row"
      using row'(1) fresh key by (simp add: wakes row_of_append_None row_of_Cons)
    with row' dec key have "wake_backed (journal_of d' (wk_execution_id row)) row"
      using journal_of_loaded [OF dec(1)] unfolding wake_backed_def wake_key_simps by auto
    moreover have "wake_key row \<notin> wake_key ` set (db_wakes d)"
      using fresh unfolding row_of_None key .
    moreover have "journal_of (d'\<lparr>db_wakes := db_wakes d\<rparr>) x = journal_of d' x" for x
      by (simp add: journal_of_def load_validated_journal_def read_journal_events_def journal_rows_def)
    ultimately show ?thesis
      using old unfolding wakes_inv_def by (simp add: wakes)
  qed
qed

lemma revision_at_Some:
  "revision_at rs r = Some f \<longleftrightarrow> r \<noteq> 0 \<and> unat r - 1 < length rs \<and> f = rs ! (unat r - 1)"
  by (auto simp: revision_at_def Let_def)

lemma mark_delivered_wakes:
  "db_wakes (fst (mark_delivered d k dl t)) =
     update_where (\<lambda>w. wake_key w = k \<and> wk_status w = WkPending \<and> wk_delivery w = None \<and>
       wk_delivered_at w = None)
       (\<lambda>w. w\<lparr>wk_status := WkDelivered, wk_delivery := Some dl, wk_delivered_at := Some t\<rparr>) (db_wakes d)"
  "snd (mark_delivered d k dl t) = count_where (\<lambda>w. wake_key w = k \<and> wk_status w = WkPending \<and>
     wk_delivery w = None \<and> wk_delivered_at w = None) (db_wakes d)"
  by (simp_all add: mark_delivered_def Let_def)

lemma count_where_pos: "0 < count_where P t \<longleftrightarrow> (\<exists>r \<in> set t. P r)"
  by (auto simp: count_where_def filter_empty_conv)

lemma set_update_where: "set (update_where P f t) = (\<lambda>r. if P r then f r else r) ` set t"
  by (simp add: update_where_def)

text \<open>The rows of the woken revision, and of the other revisions of its execution.\<close>

lemma woken_rows:
  assumes l: "loaded d (pw_execution_id p) evs rs" "rs \<noteq> []"
    and rev: "c_revision (er_contract (fo_record (last rs))) = pw_revision p"
    and fresh: "fo_wake_transition (last rs) = None"
    and w: "wake_backed rs w" "wk_execution_id w = pw_execution_id p"
    and mine: "wk_revision w = pw_revision p \<Longrightarrow> wk_dedup_key w = pw_dedup_key p"
  shows "wake_backed (set_last rs (woken (last rs) dl n (wd_delivered_at_unix_seconds dl)) @ [x])
    (if wake_key w = (pw_execution_id p, pw_revision p, pw_dedup_key p) \<and> wk_status w = WkPending \<and>
        wk_delivery w = None \<and> wk_delivered_at w = None
     then w\<lparr>wk_status := WkDelivered, wk_delivery := Some dl,
            wk_delivered_at := Some (wd_delivered_at_unix_seconds dl)\<rparr> else w)"
proof -
  let ?t = "wd_delivered_at_unix_seconds dl"
  let ?g = "woken (last rs) dl n ?t"
  obtain f ck where f: "revision_at rs (wk_revision w) = Some f"
      "outcome_of (fo_record f) = Some (OutSuspended (wk_condition w) ck)"
      "wk_dedup_key w = dedup_key (wk_condition w)"
      "fo_outcome_committed_at f = Some (wk_created_at w)" "wake_state f w"
    using w(1) unfolding wake_backed_def by blast
  note len = loaded_last(2) [OF l]
  show ?thesis
  proof (cases "wk_revision w = pw_revision p")
    case True
    then have "f = last rs"
      using f(1) revision_at_last [OF l] rev by simp
    moreover from this have "wk_status w = WkPending \<and> wk_delivery w = None \<and> wk_delivered_at w = None"
      using f(5) fresh by (simp add: wake_state_def)
    moreover have "revision_at (set_last rs ?g @ [x]) (wk_revision w) = Some ?g"
      using len rev True l(2) by (auto simp: revision_at_Some nth_append nth_set_last)
    ultimately show ?thesis
      using f True mine w(2) by (simp add: wake_backed_def wake_state_def wake_key_def)
  next
    case False
    then have "Suc (unat (wk_revision w) - 1) \<noteq> length rs"
      using len rev f(1) by (auto simp: revision_at_Some word_unat_eq_iff)
    then have "revision_at (set_last rs ?g @ [x]) (wk_revision w) = Some f"
      using f(1) l(2) by (auto simp: revision_at_Some nth_append nth_set_last)
    then show ?thesis
      using f False unfolding wake_backed_def by (auto simp: wake_key_def)
  qed
qed

lemma store_inv_journal: "store_inv d \<Longrightarrow> \<exists>evs. loaded d eid evs (journal_of d eid)"
  by (rule store_invE [of d eid]) (auto simp: journal_of_loaded)

lemma journal_of_cong:
  assumes "store_inv d" "loaded d' eid = loaded d eid"
  shows "journal_of d' eid = journal_of d eid"
proof -
  obtain evs where "loaded d eid evs (journal_of d eid)"
    using store_inv_journal [OF assms(1)] by blast
  then show ?thesis
    using assms(2) by (intro journal_of_loaded) simp
qed

lemma deliver_keeps_wakes:
  assumes inv: "store_inv d" "wakes_inv d" and op: "deliver_pending_wake d p payload t = Inr d'"
  shows "wakes_inv d'"
  using inv(1) op
proof (rule deliver_effect)
  let ?dl = "delivery_of p payload t" and ?eid = "pw_execution_id p"
  fix evs wk ck n f and rs :: folded_journal
  let ?x = "ready_revision (resumed_contract (er_contract (fo_record (last rs))) n f ck ?dl)
      (er_created_at (fo_record (last rs))) t"
  let ?P = "\<lambda>w. wake_key w = (?eid, pw_revision p, pw_dedup_key p) \<and> wk_status w = WkPending \<and>
      wk_delivery w = None \<and> wk_delivered_at w = None"
  let ?f = "\<lambda>w. w\<lparr>wk_status := WkDelivered, wk_delivery := Some ?dl, wk_delivered_at := Some t\<rparr>"
  assume l: "loaded d ?eid evs rs" "rs \<noteq> []"
    and rev: "c_revision (er_contract (fo_record (last rs))) = pw_revision p"
    and out: "outcome_of (fo_record (last rs)) = Some (OutSuspended wk ck)"
    and fresh: "fo_wake_transition (last rs) = None"
    and res: "resumes d d' p payload t evs rs ck n f"
  have wakes: "db_wakes d' = update_where ?P ?f (db_wakes d)" and one: "count_where ?P (db_wakes d) = 1"
    using res unfolding resumes_def Let_def mark_delivered_wakes by blast+
  have j: "journal_of d ?eid = rs"
    by (rule journal_of_loaded [OF l(1)])
  have j': "journal_of d' ?eid = set_last rs (woken (last rs) ?dl n t) @ [?x]"
    using res journal_of_loaded unfolding resumes_def Let_def by blast
  have other: "journal_of d' x = journal_of d x" if "x \<noteq> ?eid" for x
    using journal_of_cong [OF inv(1)] res that unfolding resumes_def Let_def by blast
  have dedup: "wk_dedup_key w = dedup_key wk"
    if "w \<in> set (db_wakes d)" "wk_execution_id w = ?eid" "wk_revision w = pw_revision p" for w
  proof -
    have "wake_backed rs w"
      using inv(2) that(1,2) j by (auto simp: wakes_inv_def)
    then show ?thesis
      using revision_at_last [OF l] rev that(3) out by (auto simp: wake_backed_def)
  qed
  have key: "pw_dedup_key p = dedup_key wk"
  proof -
    obtain w where "w \<in> set (db_wakes d)" "?P w"
      using one count_where_pos [of ?P "db_wakes d"] by auto
    then show ?thesis
      using dedup [of w] by (simp add: wake_key_def)
  qed
  have t: "wd_delivered_at_unix_seconds ?dl = t"
    by (simp add: delivery_of_def)
  show ?thesis
    unfolding wakes_inv_def
  proof (intro conjI ballI)
    have "map wake_key (db_wakes d') = map wake_key (db_wakes d)"
      unfolding wakes by (rule map_key_update_where) (simp add: wake_key_def)
    then show "distinct (map wake_key (db_wakes d'))"
      using inv(2) by (simp add: wakes_inv_def)
  next
    fix w'
    assume "w' \<in> set (db_wakes d')"
    then obtain w where w: "w \<in> set (db_wakes d)" "w' = (if ?P w then ?f w else w)"
      by (auto simp: wakes set_update_where)
    then have b: "wake_backed (journal_of d (wk_execution_id w)) w"
      using inv(2) by (simp add: wakes_inv_def)
    have id: "wk_execution_id w' = wk_execution_id w"
      using w(2) by simp
    show "wake_backed (journal_of d' (wk_execution_id w')) w'"
    proof (cases "wk_execution_id w = ?eid")
      case True
      have "wake_backed (set_last rs (woken (last rs) ?dl n (wd_delivered_at_unix_seconds ?dl)) @ [?x])
          (if ?P w then w\<lparr>wk_status := WkDelivered, wk_delivery := Some ?dl,
             wk_delivered_at := Some (wd_delivered_at_unix_seconds ?dl)\<rparr> else w)"
        by (rule woken_rows [OF l rev fresh _ True]) (use b True j dedup w(1) key in simp_all)
      from this [unfolded t] have "wake_backed (journal_of d' ?eid) w'"
        unfolding j' w(2) .
      then show ?thesis
        using id True by simp
    next
      case False
      then have "w' = w"
        using w(2) by (auto simp: wake_key_def)
      with b False other show ?thesis by simp
    qed
  qed
qed

lemma write_wakes: "write_projection d f = Inr d' \<Longrightarrow> db_wakes d' = db_wakes d"
  by (auto simp: write_projection_def res_bind_Inr)

lemma enqueue_wakes: "enqueue_projection d c t = Inr d' \<Longrightarrow> db_wakes d' = db_wakes d"
  by (drule enqueue_frame) (metis db.select_convs(4) db.surjective db.update_convs(7))

lemma append_wakes: "append_journal_event d eid rvn e now = Inr d' \<Longrightarrow> db_wakes d' = db_wakes d"
  by (simp add: append_frame)

lemmas wakes_frame = write_wakes enqueue_wakes append_wakes refresh_wakes

lemma create_wakes:
  assumes "create_execution d c now = Inr (d', r)"
  shows "db_wakes d' = db_wakes d"
proof (cases "load_validated_journal d (c_execution_id c)")
  case (Inr j)
  with assms show ?thesis
    by (cases j) (auto simp: create_execution_def op_simps dest!: wakes_frame)
qed (use assms in \<open>auto simp: create_execution_def op_simps\<close>)

lemma attempt_wakes:
  "start_execution_attempt d eid rvn fence owner now = Inr (d', r) \<Longrightarrow> db_wakes d' = db_wakes d"
  "reclaim_execution_attempt d eid rvn fence nxt owner now = Inr (d', r) \<Longrightarrow> db_wakes d' = db_wakes d"
  "advance_execution_fence d eid rvn fence nxt now = Inr (d', r) \<Longrightarrow> db_wakes d' = db_wakes d"
  by (erule start_attempt_cases reclaim_cases advance_cases; auto dest!: wakes_frame)+

lemma continue_wakes: "continue_execution_as_new d v nxt now = Inr (d', c) \<Longrightarrow> db_wakes d' = db_wakes d"
  by (erule continue_cases) (auto dest!: wakes_frame)

lemma execution_wakes: "execution d eid = Inr (d', r) \<Longrightarrow> db_wakes d' = db_wakes d"
  by (erule execution_cases) (auto dest!: wakes_frame)

lemma rebuild_wakes: "rebuild_execution_projection d eid = Inr (d', r) \<Longrightarrow> db_wakes d' = db_wakes d"
  by (auto simp: rebuild_execution_projection_def res_bind_Inr dest!: wakes_frame)

lemma load_committed_wakes: "load_committed d eids = Inr (d', rs) \<Longrightarrow> db_wakes d' = db_wakes d"
proof (induction eids arbitrary: d rs)
  case (Cons eid eids)
  obtain d1 found d2 r rest where "execution d eid = Inr (d1, found)"
    and "(case found of Some r \<Rightarrow> Inr (d1, r) | None \<Rightarrow> rebuild_execution_projection d1 eid) =
      Inr (d2, r)" and "load_committed d2 eids = Inr (d', rest)"
    using Cons.prems by (fastforce simp: res_bind_Inr if_Inl_Inr)
  with Cons.IH show ?case
    using execution_wakes rebuild_wakes by (fastforce split: option.splits)
qed simp

text \<open>Beside the journals: receipts, outbox, compensations.\<close>

lemma update_receipt_wakes: "update_receipt d ref status f = (d', n) \<Longrightarrow> db_wakes d' = db_wakes d"
  by (auto simp: update_receipt_def Let_def)

lemma requeue_wakes: "requeue_blocked_projections d ref now = (d', n) \<Longrightarrow> db_wakes d' = db_wakes d"
  by (auto simp: requeue_blocked_projections_def Let_def)

lemma claim_effect_wakes:
  assumes "claim_effect_receipt_on d ref now = Inr (d', c)"
  shows "db_wakes d' = db_wakes d"
  using assms by (rule claim_cases) (auto dest: update_receipt_wakes)

lemma prepare_wakes: "prepare_effect_receipt_on d nr now = Inr (d', r) \<Longrightarrow> db_wakes d' = db_wakes d"
  by (auto dest!: prepare_Inr simp: insert_receipt_def)

lemma receipt_step_wakes:
  assumes "receipt_step d cmd = Inr d'"
  shows "db_wakes d' = db_wakes d"
proof (cases cmd)
  case (PrepareAndClaim nr owner fence now)
  with assms obtain c where "prepare_and_claim_effect_receipt d nr owner fence now = Inr (d', c)"
    by (auto simp: discard_Inr)
  then show ?thesis
    by (rule prepare_and_claim_cases) (auto dest!: claim_effect_wakes prepare_wakes)
next
  case (PrepareAndClaimProjection nr fence claim now)
  with assms obtain c where
    "prepare_and_claim_effect_receipt_for_projection d nr fence claim now = Inr (d', c)"
    by (auto simp: discard_Inr)
  then show ?thesis
    by (rule prepare_and_claim_projection_cases) (auto dest!: claim_effect_wakes prepare_wakes)
qed (use assms in \<open>auto simp: discard_Inr complete_effect_receipt_def
  mark_effect_receipt_uncertain_def release_effect_receipt_not_applied_def settle_receipt_Inr
  apply_effect_resolution_on_def mark_compensated_on_def update_receipt_def Let_def
  dest: claim_effect_wakes prepare_wakes\<close>)

lemma outbox_step_wakes: "outbox_step d cmd = Inr d' \<Longrightarrow> db_wakes d' = db_wakes d"
  by (cases cmd)
    (auto simp: op_simps complete_projection_def retry_projection_def block_projection_def
      renew_projection_claim_def finish_claim_def update_claim_Inr requeue_blocked_projections_def
      claim_projection_def list_case_Inr dest: enqueue_wakes)

lemma orphaned_wakes:
  "resolve_orphaned_effect_receipt d ref resolution now = Inr (d', c) \<Longrightarrow> db_wakes d' = db_wakes d"
  by (auto simp: resolve_orphaned_effect_receipt_def op_simps case_prod_Inr
      apply_effect_resolution_on_def dest!: requeue_wakes split: if_splits dest: update_receipt_wakes)

lemma compensated_wakes:
  "mark_effect_compensated d ref cid now = Inr (d', r) \<Longrightarrow> db_wakes d' = db_wakes d"
  by (auto simp: mark_effect_compensated_def op_simps case_prod_Inr mark_compensated_on_def
      update_receipt_def split: if_splits)

text \<open>What delivers, and the whole store.\<close>

definition sound_db :: "db \<Rightarrow> bool" where
  "sound_db d \<longleftrightarrow> store_inv d \<and> wakes_inv d"

lemma sound_same_journals:
  "\<lbrakk>sound_db d; same_journals d d'; db_wakes d' = db_wakes d\<rbrakk> \<Longrightarrow> sound_db d'"
  unfolding sound_db_def
  by (meson same_journals_keeps store_keeps_def wakes_inv_same)

lemma deliver_sound: "\<lbrakk>sound_db d; deliver_pending_wake d p payload t = Inr d'\<rbrakk> \<Longrightarrow> sound_db d'"
  unfolding sound_db_def by (blast dest: deliver_keeps store_keeps_inv intro: deliver_keeps_wakes)

lemma deliver_all_sound: "\<lbrakk>sound_db d; deliver_all d ps t = Inr (d', n)\<rbrakk> \<Longrightarrow> sound_db d'"
proof (induction d ps t arbitrary: n rule: deliver_all.induct)
  case (2 d p payload ps t)
  then obtain d1 m where d1: "deliver_pending_wake d p payload t = Inr d1"
      "deliver_all d1 ps t = Inr (d', m)"
    by (auto simp: res_bind_Inr)
  show ?case
    by (rule 2(1) [OF deliver_sound [OF 2(2) d1(1)] d1(2)])
qed simp

lemma wake_due_sound: "\<lbrakk>sound_db d; wake_due_executions d now limit = Inr (d', n)\<rbrakk> \<Longrightarrow> sound_db d'"
  by (auto simp: wake_due_executions_def op_simps intro: deliver_all_sound)

lemma signal_sound:
  "\<lbrakk>sound_db d; deliver_execution_signal d knd cor payload now = Inr (d', n)\<rbrakk> \<Longrightarrow> sound_db d'"
  by (auto simp: deliver_execution_signal_def op_simps intro: deliver_all_sound)

lemma wake_sound:
  "\<lbrakk>sound_db d; deliver_execution_wake d condition payload now = Inr (d', n)\<rbrakk> \<Longrightarrow> sound_db d'"
  by (auto simp: deliver_execution_wake_def deliver_execution_wake_with_def op_simps
      intro: deliver_all_sound split: if_splits)

lemma discard_wakes_sound:
  assumes "sound_db d" "discard_pending_execution_wakes d eid = Inr (d', n)"
  shows "sound_db d'"
proof -
  have same: "same_journals d d'" and inv: "store_inv d" "wakes_inv d"
    using discard_wakes_same [OF assms(2)] assms(1) by (simp_all add: sound_db_def)
  have k: "store_keeps False d d'"
    by (rule same_journals_keeps [OF inv(1) same])
  obtain P where P: "db_wakes d' = delete_where P (db_wakes d)"
    using assms(2) by (auto simp: discard_pending_execution_wakes_def op_simps)
  have "distinct (map wake_key (db_wakes d'))"
    using inv(2) unfolding P delete_where_def wakes_inv_def by (simp add: distinct_map_filter)
  then have "wakes_inv d'"
    using k P by (intro wakes_inv_quiet [OF inv]) (auto simp: store_keeps_def)
  with k show ?thesis
    by (simp add: sound_db_def store_keeps_def)
qed

lemma resolve_sound:
  assumes snd: "sound_db d" and op: "resolve_effect_receipt d ref resolution now = Inr (d', commit)"
  shows "sound_db d'"
  using op
proof (cases rule: resolve_cases)
  case (replayed r n)
  show ?thesis
    by (rule sound_same_journals [OF snd requeue_same [OF replayed(4)] requeue_wakes [OF replayed(4)]])
next
  case (resolved r ps d1 d2 s n)
  note app = resolved(5)
  have d1: "sound_db d1"
    using sound_same_journals [OF snd apply_resolution_same [OF app]]
      update_receipt_wakes app unfolding apply_effect_resolution_on_def by blast
  have "sound_db d2"
    using resolved(6) d1 deliver_sound by (auto simp: list_case_Inr)
  then show ?thesis
    using requeue_same [OF resolved(8)] requeue_wakes [OF resolved(8)] by (rule sound_same_journals)
qed

lemma quiet_sound:
  assumes "sound_db d" "store_keeps False d d'" "db_wakes d' = db_wakes d"
  shows "sound_db d'"
  using assms wakes_inv_same by (auto simp: sound_db_def store_keeps_def)

lemma store_step_sound:
  assumes snd: "sound_db d" and op: "store_step d cmd = Inr d'"
  shows "sound_db d'"
proof -
  have inv: "store_inv d"
    using snd by (simp add: sound_db_def)
  note quiet = quiet_sound [OF snd]
  show ?thesis
  proof (cases cmd)
    case (CommitOutcome v running now)
    with op snd show ?thesis
      using commit_keeps [OF inv] commit_keeps_wakes
      by (fastforce simp: discard_Inr sound_db_def store_keeps_def)
  next
    case (ReceiptOp c)
    with op show ?thesis
      using sound_same_journals [OF snd] receipt_step_same receipt_step_wakes by simp
  next
    case (OutboxOp c)
    with op show ?thesis
      using sound_same_journals [OF snd] outbox_step_same outbox_step_wakes by simp
  next
    case (ResolveOrphaned ref resolution now)
    with op show ?thesis
      using sound_same_journals [OF snd] resolve_orphaned_same orphaned_wakes by (auto simp: discard_Inr)
  next
    case (CompensateEffect ref cid now)
    with op show ?thesis
      using sound_same_journals [OF snd] mark_compensated_same compensated_wakes
      by (auto simp: discard_Inr)
  next
    case (CreateExecution c now)
    with op show ?thesis
      using quiet [OF create_keeps [OF inv] create_wakes] by (auto simp: discard_Inr)
  next
    case (StartRevision c)
    with op show ?thesis
      using quiet [OF start_revision_keeps [OF inv] start_revision_frame(1)] by (auto simp: discard_Inr)
  next
    case (StartAttempt eid rvn fence owner now)
    with op show ?thesis
      using quiet [OF start_attempt_keeps [OF inv] attempt_wakes(1)] by (auto simp: discard_Inr)
  next
    case (ReclaimAttempt eid rvn fence nxt owner now)
    with op show ?thesis
      using quiet [OF reclaim_keeps [OF inv] attempt_wakes(2)] by (auto simp: discard_Inr)
  next
    case (AdvanceFence eid rvn fence nxt now)
    with op show ?thesis
      using quiet [OF advance_keeps [OF inv] attempt_wakes(3)] by (auto simp: discard_Inr)
  next
    case (ContinueAsNew v nxt now)
    with op show ?thesis
      using quiet [OF continue_keeps [OF inv] continue_wakes] by (auto simp: discard_Inr)
  next
    case (ReadExecution eid)
    with op show ?thesis
      using quiet [OF execution_keeps [OF inv] execution_wakes] by (auto simp: discard_Inr)
  next
    case (RebuildProjection eid)
    with op show ?thesis
      using quiet [OF rebuild_keeps [OF inv] rebuild_wakes] by (auto simp: discard_Inr)
  next
    case (ListCommitted limit)
    with op show ?thesis
      using quiet [OF load_committed_keeps [OF inv] load_committed_wakes] snd
      by (auto simp: discard_Inr committed_executions_def split: if_splits)
  qed (use op snd in \<open>auto simp: discard_Inr intro: wake_due_sound signal_sound wake_sound
      discard_wakes_sound resolve_sound\<close>)
qed

interpretation sw: guarded_system store_step sound_db "store_ext True"
proof unfold_locales
  show "sound_db d'" if "sound_db d" "store_step d cmd = Inr d'" for d cmd d'
    using that by (rule store_step_sound)
  show "store_ext True d d'" if "sound_db d" "store_step d cmd = Inr d'" for d cmd d'
    using that st.step_ext by (simp add: sound_db_def)
  show "store_ext True a c" if "store_ext True a b" "store_ext True b c" for a b c
    using that by (rule store_ext_trans)
qed simp

lemma sound_empty: "sound_db empty_db"
  by (simp add: sound_db_def store_inv_empty) (simp add: wakes_inv_def empty_db_def)

lemma store_run_sound: "store_run cmds = Inr d \<Longrightarrow> sound_db d"
  unfolding store_run_def by (rule sw.run_inv [OF sound_empty])

end
