(* ===== verification/WakeTheorems.thy ===== *)
theory WakeTheorems
  imports WakeDelivery
begin

text \<open>
  What the wake operations promise: wakes are neither forged nor lost, a delivery resumes its
  execution exactly once, timers do not fire early, a cancelled execution stays parked, and a
  pending wake can always be delivered.
\<close>

section \<open>The wake table is faithful\<close>

text \<open>
  In every database the store can produce, each wake row names one suspended revision:
  its condition, key and time are those of the committed suspension, it is delivered exactly
  when the journal holds its delivery, with that payload, and no two rows share a key.
\<close>

lemma wake_rows_backed:
  assumes "store_run cmds = Inr d"
  shows "list_all (\<lambda>w. wake_backed (journal_of d (wk_execution_id w)) w) (db_wakes d) \<and>
    distinct (map wake_key (db_wakes d))"
  using store_run_sound [OF assms] by (simp add: sound_db_def wakes_inv_def list_all_iff)

lemma wake_rows_backed_witness:
  "list_all (\<lambda>w. wake_backed (journal_of sample_resumed (wk_execution_id w)) w) (db_wakes sample_resumed)"
  using wake_rows_backed [OF sample_run(2)] by blast

lemma backed_canonical:
  "wake_backed rs w \<Longrightarrow> wk_dedup_key w = dedup_key (wk_condition w) \<and>
    (wk_status w = WkPending \<longrightarrow> wk_delivery w = None \<and> wk_delivered_at w = None)"
  by (auto simp: wake_backed_def wake_state_def split: option.splits)

definition pending_receipt :: "wake_row \<Rightarrow> pending_wake_receipt" where
  "pending_receipt w =
     \<lparr>pw_execution_id = wk_execution_id w, pw_revision = wk_revision w,
      pw_dedup_key = wk_dedup_key w, pw_condition = wk_condition w,
      pw_created_at = wk_created_at w\<rparr>"

lemma check_pending_ok:
  "list_all (\<lambda>w. wk_dedup_key w = dedup_key (wk_condition w) \<and> wk_delivery w = None \<and>
     wk_delivered_at w = None) ws \<Longrightarrow> check_pending ws = Inr (map pending_receipt ws)"
  by (induction ws) (simp_all add: pending_receipt_def)

lemma check_pending_rows: "check_pending ws = Inr ps \<Longrightarrow> ps = map pending_receipt ws"
  by (induction ws arbitrary: ps) (auto simp: op_simps pending_receipt_def)

definition pending_rows :: "db \<Rightarrow> wake_row list" where
  "pending_rows d = sort_key wake_order (filter (\<lambda>w. wk_status w = WkPending) (db_wakes d))"

lemma load_pending_rows:
  "load_pending_wake_receipts d = Inr ps \<Longrightarrow> ps = map pending_receipt (pending_rows d)"
  unfolding load_pending_wake_receipts_def pending_rows_def by (rule check_pending_rows)

text \<open>
  The scan for pending wakes never fails on such a database, and lists every pending
  row, in the order the code asks for.
\<close>

lemma pending_scan_total:
  assumes "store_run cmds = Inr d"
  shows "load_pending_wake_receipts d = Inr (map pending_receipt (pending_rows d))"
proof -
  have "list_all (\<lambda>w. wk_dedup_key w = dedup_key (wk_condition w) \<and> wk_delivery w = None \<and>
      wk_delivered_at w = None) (pending_rows d)"
    using store_run_sound [OF assms] backed_canonical
    by (fastforce simp: sound_db_def wakes_inv_def list_all_iff pending_rows_def)
  then show ?thesis
    unfolding load_pending_wake_receipts_def pending_rows_def [symmetric] by (rule check_pending_ok)
qed

lemma pending_scan_total_witness:
  "load_pending_wake_receipts sample_parked = Inr (map pending_receipt (pending_rows sample_parked))"
  by (rule pending_scan_total [OF sample_run(1)])

section \<open>A delivery resumes the execution\<close>

definition resumed_from :: "execution_record \<Rightarrow> execution_record \<Rightarrow> wake_delivery \<Rightarrow> bool" where
  "resumed_from prior r delivery \<longleftrightarrow>
     er_state r = Ready \<and> er_outcome r = None \<and>
     c_wake (er_contract r) = Some delivery \<and>
     same_terms (er_contract prior) (er_contract r) \<and>
     unat (c_revision (er_contract r)) = Suc (unat (c_revision (er_contract prior))) \<and>
     c_fencing_token (er_contract prior) < c_fencing_token (er_contract r) \<and>
     (\<exists>ck ref. outcome_of prior = Some (OutSuspended (wd_condition delivery) ck) \<and>
        c_checkpoint (er_contract r) = Some ref \<and>
        ckr_checkpoint_id ref = ce_checkpoint_id ck \<and>
        ckr_producer_schema_version ref = ce_producer_schema_version ck)"

lemma latest_of_loaded:
  assumes "store_inv d" "loaded d eid evs rs" "rs \<noteq> []" "\<not> is_blank eid"
  shows "execution d eid = Inr (d, Some (fo_record (last rs)))"
proof -
  obtain j where "load_validated_journal d eid = Inr j" "execution d eid = Inr (d, latest_record j)"
    using store_reads [OF assms(1), of eid] assms(4) by blast
  then show ?thesis
    using loaded_load [OF assms(2)] assms(3) by (auto simp: latest_record_def)
qed

lemma loaded_storable:
  assumes "loaded d eid evs rs" "rs \<noteq> []"
  shows "storable (er_contract (fo_record (last rs)))" "\<not> is_blank eid"
  using journal_inv_last [OF loaded_inv [OF assms(1)] assms(2)]
  by (auto simp: revision_ok_def storable_def)

lemma resumes_condition:
  assumes "store_inv d" "loaded d (pw_execution_id p) evs rs" "rs \<noteq> []"
    "outcome_of (fo_record (last rs)) = Some (OutSuspended wk ck)"
    "resumes d d' p payload t evs rs ck n f"
  shows "pw_condition p = wk" "pw_dedup_key p = dedup_key wk"
proof -
  let ?dl = "delivery_of p payload t"
  obtain ev1 ev2 rs' where ev: "ev_event ev1 = WakeDelivered JOURNAL_EVENT_VERSION ?dl n"
    "loaded d' (pw_execution_id p) (evs @ [ev1, ev2]) rs'"
    using assms(5) unfolding resumes_def Let_def by blast
  have "run_steps (fold_event (pw_execution_id p)) rs [ev1, ev2] = Inr rs'"
    by (rule loaded_extend [OF assms(2) ev(2)])
  then obtain ss where "fold_event (pw_execution_id p) rs ev1 = Inr ss"
    by (auto simp: res_bind_Inr)
  then have "wd_condition ?dl = wk \<and> wd_dedup_key ?dl = dedup_key wk"
    using ev(1) assms(4) by (auto simp: fold_event.simps fold_wake_delivered_def fold_simps)
  then show "pw_condition p = wk" "pw_dedup_key p = dedup_key wk"
    by (simp_all add: delivery_of_def)
qed

lemma resumes_row:
  assumes "outcome_of (fo_record (last rs)) = Some (OutSuspended wk ck)"
    and "verify_registered_wake d (pw_execution_id p) (pw_revision p) (OutSuspended wk ck)
       (fo_outcome_committed_at (last rs)) None = Inr ()"
    and "fo_wake_transition (last rs) = None"
    and "resumes d d' p payload t evs rs ck n f" "pw_dedup_key p = dedup_key wk"
  shows "\<exists>w. row_of wake_key (pw_execution_id p, pw_revision p, pw_dedup_key p) (db_wakes d') = Some w \<and>
    wk_status w = WkDelivered \<and> wk_delivery w = Some (delivery_of p payload t)"
proof -
  let ?k = "(pw_execution_id p, pw_revision p, pw_dedup_key p)"
  obtain row where row: "row_of wake_key ?k (db_wakes d) = Some row" "wake_state (last rs) row"
    using verified_row [OF assms(2)] assms(3,5) by metis
  have key: "wake_key row = ?k"
    using row_of_Some_in [OF row(1)] by blast
  have pending: "wk_status row = WkPending \<and> wk_delivery row = None \<and> wk_delivered_at row = None"
    using row(2) assms(3) by (simp add: wake_state_def)
  have "db_wakes d' = db_wakes (fst (mark_delivered d ?k (delivery_of p payload t) t))"
    using assms(4) unfolding resumes_def Let_def by blast
  moreover have "row_of wake_key ?k (update_where P (\<lambda>w. w\<lparr>wk_status := WkDelivered,
      wk_delivery := Some (delivery_of p payload t), wk_delivered_at := Some t\<rparr>) (db_wakes d)) =
      map_option (\<lambda>w. if P w then w\<lparr>wk_status := WkDelivered,
      wk_delivery := Some (delivery_of p payload t), wk_delivered_at := Some t\<rparr> else w)
      (row_of wake_key ?k (db_wakes d))" for P
    by (rule row_of_update_where) (simp add: wake_key_def)
  ultimately show ?thesis
    using row(1) key pending by (simp add: mark_delivered_wakes)
qed

lemma sound_delivery_resumes:
  assumes snd: "sound_db d" and op: "deliver_pending_wake d p payload t = Inr d'"
  shows "\<exists>prior r. execution d (pw_execution_id p) = Inr (d, Some prior) \<and>
    c_revision (er_contract prior) = pw_revision p \<and>
    execution d' (pw_execution_id p) = Inr (d', Some r) \<and>
    resumed_from prior r (delivery_of p payload t) \<and>
    (\<exists>w. row_of wake_key (pw_execution_id p, pw_revision p, pw_dedup_key p) (db_wakes d') = Some w \<and>
       wk_status w = WkDelivered \<and> wk_delivery w = Some (delivery_of p payload t)) \<and>
    (\<forall>x. x = pw_execution_id p \<or> journal_of d' x = journal_of d x)"
proof -
  have inv: "store_inv d"
    using snd by (simp add: sound_db_def)
  have inv': "store_inv d'"
    using deliver_sound [OF snd op] by (simp add: sound_db_def)
  let ?dl = "delivery_of p payload t"
  obtain evs rs wk ck n f where e: "loaded d (pw_execution_id p) evs rs" "rs \<noteq> []"
      "c_revision (er_contract (fo_record (last rs))) = pw_revision p"
      "outcome_of (fo_record (last rs)) = Some (OutSuspended wk ck)"
      "checked_inc (pw_revision p) = Some n"
      "checked_inc (c_fencing_token (er_contract (fo_record (last rs)))) = Some f"
      "resumes d d' p payload t evs rs ck n f"
      "verify_registered_wake d (pw_execution_id p) (pw_revision p) (OutSuspended wk ck)
         (fo_outcome_committed_at (last rs)) None = Inr ()"
      "fo_wake_transition (last rs) = None"
    using deliver_effect [OF inv op] by metis
  let ?n = "resumed_contract (er_contract (fo_record (last rs))) n f ck ?dl"
  let ?x = "ready_revision ?n (er_created_at (fo_record (last rs))) t"
  obtain evs' where l': "loaded d' (pw_execution_id p) evs' (set_last rs (woken (last rs) ?dl n t) @ [?x])"
    using e(7) unfolding resumes_def Let_def by blast
  have "execution d (pw_execution_id p) = Inr (d, Some (fo_record (last rs)))"
    by (rule latest_of_loaded [OF inv e(1,2) loaded_storable(2) [OF e(1,2)]])
  moreover have "execution d' (pw_execution_id p) = Inr (d', Some (fo_record ?x))"
    using latest_of_loaded [OF inv' l' _ loaded_storable(2) [OF e(1,2)]] by simp
  moreover have "resumed_from (fo_record (last rs)) (fo_record ?x) ?dl"
    using resumes_condition [OF inv e(1,2,4,7)] e(3,4) unat_checked_inc [OF e(5)]
      checked_inc_less [OF e(6)]
    by (simp add: resumed_from_def ready_revision_def resumed_contract_def same_terms_def
        delivery_of_def)
  moreover have "\<exists>w. row_of wake_key (pw_execution_id p, pw_revision p, pw_dedup_key p) (db_wakes d') =
      Some w \<and> wk_status w = WkDelivered \<and> wk_delivery w = Some ?dl"
    by (rule resumes_row [OF e(4) _ _ e(7) resumes_condition(2) [OF inv e(1,2,4,7)]]) (use e(8,9) in simp_all)
  moreover have "journal_of d' x = journal_of d x" if "x \<noteq> pw_execution_id p" for x
    using journal_of_cong [OF inv] e(7) that unfolding resumes_def Let_def by blast
  ultimately show ?thesis
    using e(3) by blast
qed

text \<open>
  C5: delivering a wake resumes its execution. The latest record before was suspended on
  this condition; the latest record after is the next revision, ready, with the terms of the
  old one, a larger fence, the suspension's checkpoint and this very delivery; the wake row is
  delivered; and no other execution's journal moved.
\<close>

theorem delivery_resumes_execution:
  assumes "store_run cmds = Inr d" "deliver_pending_wake d p payload t = Inr d'"
  shows "\<exists>prior r. execution d (pw_execution_id p) = Inr (d, Some prior) \<and>
    c_revision (er_contract prior) = pw_revision p \<and>
    execution d' (pw_execution_id p) = Inr (d', Some r) \<and>
    resumed_from prior r (delivery_of p payload t) \<and>
    (\<exists>w. row_of wake_key (pw_execution_id p, pw_revision p, pw_dedup_key p) (db_wakes d') = Some w \<and>
       wk_status w = WkDelivered \<and> wk_delivery w = Some (delivery_of p payload t)) \<and>
    (\<forall>x. x = pw_execution_id p \<or> journal_of d' x = journal_of d x)"
  by (rule sound_delivery_resumes [OF store_run_sound [OF assms(1)] assms(2)])

theorem delivery_resumes_execution_witness:
  "\<exists>prior r. execution sample_parked ''e1'' = Inr (sample_parked, Some prior) \<and>
     c_revision (er_contract prior) = 1 \<and>
     execution sample_resumed ''e1'' = Inr (sample_resumed, Some r) \<and>
     resumed_from prior r sample_delivery"
  using delivery_resumes_execution [OF sample_run(1) sample_deliver]
  by (auto simp: sample_delivery_of)

section \<open>A wake fires once\<close>

text \<open>
  C6: after a wake of a revision was delivered, no later attempt to deliver a wake of that
  revision succeeds, whatever payload, time or key it carries and whatever happened between.
\<close>

theorem wake_fires_once:
  assumes "store_run xs = Inr d" "deliver_pending_wake d p payload t = Inr d1"
    and "run_steps store_step d1 ys = Inr d2"
    and "pw_execution_id p' = pw_execution_id p" "pw_revision p' = pw_revision p"
  shows "\<exists>e. deliver_pending_wake d2 p' payload' t' = Inl e"
proof (rule ccontr)
  assume "\<not> ?thesis"
  then obtain d3 where d3: "deliver_pending_wake d2 p' payload' t' = Inr d3"
    by (cases "deliver_pending_wake d2 p' payload' t'") auto
  have snd: "sound_db d"
    by (rule store_run_sound [OF assms(1)])
  have snd1: "sound_db d1"
    by (rule deliver_sound [OF snd assms(2)])
  have inv: "store_inv d" "store_inv d2"
    using snd sw.run_inv [OF snd1 assms(3)] by (simp_all add: sound_db_def)
  obtain evs rs wk ck n f where e: "loaded d (pw_execution_id p) evs rs" "rs \<noteq> []"
      "c_revision (er_contract (fo_record (last rs))) = pw_revision p"
      "resumes d d1 p payload t evs rs ck n f"
    using deliver_effect [OF inv(1) assms(2)] by metis
  obtain evs1 rs1 where l1: "loaded d1 (pw_execution_id p) evs1 rs1" "length rs1 = Suc (length rs)"
    using e(2,4) unfolding resumes_def Let_def by force
  obtain es rs2 where l2: "loaded d2 (pw_execution_id p) (evs1 @ es) rs2" "journal_extends rs1 rs2"
    using store_extE [OF sw.run_ext [OF snd1 assms(3)] l1(1)] by blast
  obtain evs3 rs3 where l3: "loaded d2 (pw_execution_id p) evs3 rs3" "rs3 \<noteq> []"
      "c_revision (er_contract (fo_record (last rs3))) = pw_revision p"
    using deliver_effect [OF inv(2) d3] assms(4,5) by metis
  have "rs3 = rs2"
    using loaded_unique [OF l2(1) l3(1)] by simp
  then have "length rs2 = length rs"
    using loaded_last(2) [OF l3(1,2)] loaded_last(2) [OF e(1,2)] e(3) l3(3) by simp
  with l1(2) l2(2) show False
    by (simp add: journal_extends_def)
qed

theorem wake_fires_once_witness:
  "\<exists>e. deliver_pending_wake sample_resumed sample_receipt (JString ''again'') 9 = Inl e"
  by (rule wake_fires_once [OF sample_run(1) sample_deliver, of "[]"]) simp_all

section \<open>Only the wakes that are due\<close>

lemma deliver_other:
  assumes "store_inv d" "deliver_pending_wake d p payload t = Inr d'" "x \<noteq> pw_execution_id p"
  shows "journal_of d' x = journal_of d x"
  using assms(1,2)
proof (rule deliver_effect)
  fix evs wk ck n f and rs :: folded_journal
  assume "resumes d d' p payload t evs rs ck n f"
  then have "loaded d' x = loaded d x"
    using assms(3) unfolding resumes_def Let_def by blast
  then show ?thesis
    by (rule journal_of_cong [OF assms(1)])
qed

lemma deliver_all_other:
  "\<lbrakk>store_inv d; deliver_all d ps t = Inr (d', n); x \<notin> (pw_execution_id \<circ> fst) ` set ps\<rbrakk> \<Longrightarrow>
    journal_of d' x = journal_of d x \<and> n = length ps"
proof (induction d ps t arbitrary: n rule: deliver_all.induct)
  case (2 d p payload ps t)
  then obtain d1 m where d1: "deliver_pending_wake d p payload t = Inr d1"
      "deliver_all d1 ps t = Inr (d', m)" "n = Suc m"
    by (auto simp: res_bind_Inr)
  have "store_inv d1"
    by (rule store_keeps_inv [OF deliver_keeps [OF 2(2) d1(1)]])
  then have "journal_of d' x = journal_of d1 x \<and> m = length ps"
    using 2(1) [OF _ d1(2)] 2(4) by simp
  moreover have "journal_of d1 x = journal_of d x"
    by (rule deliver_other [OF 2(2) d1(1)]) (use 2(4) in simp)
  ultimately show ?case
    using d1(3) by simp
qed simp

lemma deliver_all_count: "deliver_all d ps t = Inr (d', n) \<Longrightarrow> n = length ps"
  by (induction d ps t arbitrary: n rule: deliver_all.induct) (auto simp: res_bind_Inr)

definition due_row :: "int \<Rightarrow> wake_row \<Rightarrow> bool" where
  "due_row now w \<longleftrightarrow>
     (case wk_condition w of At t \<Rightarrow> t \<le> unix_timestamp now | _ \<Rightarrow> False)"

lemma due_timer_pending:
  "due_timer t (pending_receipt w) = Some (s, p) \<Longrightarrow> p = pending_receipt w \<and> wk_condition w = At s \<and> s \<le> t"
  by (auto simp: pending_receipt_def split: wake_condition.splits if_splits)

text \<open>
  Timers never fire early and never touch anything else. \<open>wake_due_executions\<close>
  delivers at most \<open>limit\<close> wakes, and an execution that has no pending row whose time has
  come keeps its journal.
\<close>

lemma timers_fire_when_due:
  assumes "store_run cmds = Inr d" "wake_due_executions d now limit = Inr (d', n)"
  shows "n \<le> limit \<and> ((\<exists>w \<in> set (db_wakes d). wk_execution_id w = x \<and> wk_status w = WkPending \<and> due_row now w) \<or>
    journal_of d' x = journal_of d x)"
proof -
  have inv: "store_inv d"
    by (rule store_run_inv [OF assms(1)])
  let ?due = "sort_key (\<lambda>(t, r). (t, pw_execution_id r, unat (pw_revision r), pw_dedup_key r))
    (List.map_filter (due_timer (unix_timestamp now)) (map pending_receipt (pending_rows d)))"
  let ?ps = "map (\<lambda>(t, r). (r, timer_payload t)) (take limit ?due)"
  have all: "deliver_all d ?ps (unix_timestamp now) = Inr (d', n)"
    using assms(2) pending_scan_total [OF assms(1)] by (simp add: wake_due_executions_def Let_def)
  have "n \<le> limit"
    using deliver_all_count [OF all] by simp
  moreover have "\<exists>w \<in> set (db_wakes d). wk_execution_id w = x \<and> wk_status w = WkPending \<and> due_row now w"
    if x: "x \<in> (pw_execution_id \<circ> fst) ` set ?ps"
  proof -
    obtain y where y: "y \<in> set (take limit ?due)" "pw_execution_id (snd y) = x"
      using x by auto
    moreover obtain s p where sp: "y = (s, p)"
      by fastforce
    ultimately have p: "(s, p) \<in> set ?due" "pw_execution_id p = x"
      using in_set_takeD [of y limit ?due] by simp_all
    then obtain w where w: "w \<in> set (pending_rows d)" "due_timer (unix_timestamp now) (pending_receipt w) = Some (s, p)"
      by (auto simp: List.map_filter_def)
    from due_timer_pending [OF w(2)] w(1) p(2) show ?thesis
      by (auto simp: pending_rows_def due_row_def pending_receipt_def)
  qed
  ultimately show ?thesis
    using deliver_all_other [OF inv all] by blast
qed

lemma timers_fire_when_due_witness:
  "wake_due_executions sample_parked 9000000000 5 = Inr (sample_parked, 0) \<and> (0 :: nat) \<le> 5"
proof -
  have "wake_due_executions sample_parked 9000000000 5 = Inr (sample_parked, 0)"
    by (simp add: wake_due_executions_def sample_pending List.map_filter_def)
  with timers_fire_when_due [OF sample_run(1) this, of "''e1''"] show ?thesis by simp
qed

section \<open>A discarded wake resurrects nothing\<close>

fun wake_command :: "store_command \<Rightarrow> bool" where
  "wake_command (WakeDue now limit) = True"
| "wake_command (DeliverSignal knd correlation payload now) = True"
| "wake_command (DeliverWake condition payload now) = True"
| "wake_command (ResolveEffect ref resolution now) = True"
| "wake_command _ = False"

lemma pending_receipt_of:
  assumes "load_pending_wake_receipts d = Inr ps" "p \<in> set ps"
  shows "\<exists>w \<in> set (db_wakes d). wk_status w = WkPending \<and> wk_execution_id w = pw_execution_id p"
  using assms(2) load_pending_rows [OF assms(1)] by (auto simp: pending_rows_def pending_receipt_def)

lemma deliver_list_parked:
  assumes "store_inv d" "load_pending_wake_receipts d = Inr ps"
    and "\<forall>w \<in> set (db_wakes d). wk_execution_id w = x \<longrightarrow> wk_status w \<noteq> WkPending"
    and "fst ` set qs \<subseteq> set ps" "deliver_all d qs t = Inr (d', n)"
  shows "journal_of d' x = journal_of d x"
proof -
  have "x \<notin> (pw_execution_id \<circ> fst) ` set qs"
    using assms(3,4) pending_receipt_of [OF assms(2)] by fastforce
  then show ?thesis
    using deliver_all_other [OF assms(1,5)] by blast
qed

lemma journal_of_same: "\<lbrakk>store_inv d; same_journals d d'\<rbrakk> \<Longrightarrow> journal_of d' x = journal_of d x"
proof -
  assume inv: "store_inv d" and same: "same_journals d d'"
  have "db_events d' = db_events d"
    using same by (simp add: same_journals_def)
  then have "loaded d' x = loaded d x"
    by (intro ext loaded_cong)
  with inv show ?thesis by (rule journal_of_cong)
qed

lemma due_timer_Some: "due_timer s p = Some y \<Longrightarrow> snd y = p"
  by (cases "pw_condition p") (simp_all split: if_splits, force)

lemma in_map_filter: "y \<in> set (List.map_filter f xs) \<longleftrightarrow> (\<exists>x \<in> set xs. f x = Some y)"
  by (induction xs) (auto simp: map_filter_simps split: option.splits)

lemma due_sublist:
  "fst ` set (map (\<lambda>(t, r). (r, timer_payload t)) (take limit (sort_key f
     (List.map_filter (due_timer s) ps)))) \<subseteq> set ps"
proof
  fix p
  assume "p \<in> fst ` set (map (\<lambda>(t, r). (r, timer_payload t)) (take limit (sort_key f
     (List.map_filter (due_timer s) ps))))"
  then obtain y where y: "y \<in> set (take limit (sort_key f (List.map_filter (due_timer s) ps)))"
      "p = snd y"
    by auto
  then have "y \<in> set (List.map_filter (due_timer s) ps)"
    using in_set_takeD by fastforce
  then obtain q where "q \<in> set ps" "due_timer s q = Some y"
    unfolding in_map_filter by blast
  with y(2) due_timer_Some [of s q y] show "p \<in> set ps"
    by simp
qed

text \<open>
  Once the pending wakes of an execution are discarded, which is how a cancelled turn
  is kept down, no wake operation moves its journal: not a timer, a signal, an exact wake, nor
  the resolution of an effect.
\<close>

lemma discarded_execution_stays_parked:
  assumes "store_run cmds = Inr d" "discard_pending_execution_wakes d x = Inr (d1, n)"
    and "wake_command cmd" "store_step d1 cmd = Inr d2"
  shows "journal_of d2 x = journal_of d x"
proof -
  have snd: "sound_db d"
    by (rule store_run_sound [OF assms(1)])
  have inv: "store_inv d" "store_inv d1"
    using snd discard_wakes_sound [OF snd assms(2)] by (simp_all add: sound_db_def)
  have parked: "\<forall>w \<in> set (db_wakes d1). wk_execution_id w = x \<longrightarrow> wk_status w \<noteq> WkPending"
    using assms(2) by (auto simp: discard_pending_execution_wakes_def op_simps)
  note deliver = deliver_list_parked [OF inv(2) _ parked]
  have "journal_of d2 x = journal_of d1 x"
  proof (cases cmd)
    case (WakeDue now limit)
    with assms(4) obtain ps m where "load_pending_wake_receipts d1 = Inr ps" and all:
        "deliver_all d1 (map (\<lambda>(t, r). (r, timer_payload t)) (take limit (sort_key
          (\<lambda>(t, r). (t, pw_execution_id r, unat (pw_revision r), pw_dedup_key r))
          (List.map_filter (due_timer (unix_timestamp now)) ps)))) (unix_timestamp now) = Inr (d2, m)"
      by (auto simp: discard_Inr wake_due_executions_def op_simps)
    from deliver [OF this(1) due_sublist all] show ?thesis .
  next
    case (DeliverSignal knd correlation payload now)
    with assms(4) obtain ps m where "load_pending_wake_receipts d1 = Inr ps" and all:
        "deliver_all d1 (map (\<lambda>r. (r, payload))
          (filter (\<lambda>r. pw_condition r = Signal knd correlation) ps)) now = Inr (d2, m)"
      by (auto simp: discard_Inr deliver_execution_signal_def op_simps)
    then show ?thesis
      by - (rule deliver [OF _ _ all], auto)
  next
    case (DeliverWake condition payload now)
    with assms(4) obtain ps m where "load_pending_wake_receipts d1 = Inr ps" and all:
        "deliver_all d1 (map (\<lambda>r. (r, payload)) (filter (\<lambda>r. pw_condition r = condition) ps)) now =
          Inr (d2, m)"
      by (auto simp: discard_Inr deliver_execution_wake_def deliver_execution_wake_with_def op_simps
          split: if_splits)
    then show ?thesis
      by - (rule deliver [OF _ _ all], auto)
  next
    case (ResolveEffect ref resolution now)
    with assms(4) obtain c where op: "resolve_effect_receipt d1 ref resolution now = Inr (d2, c)"
      by (auto simp: discard_Inr)
    then show ?thesis
    proof (cases rule: resolve_cases)
      case (replayed r m)
      show ?thesis
        by (rule journal_of_same [OF inv(2) requeue_same [OF replayed(4)]])
    next
      case (resolved r ps e1 e2 s m)
      note app = resolved(5)
      have e1: "same_journals d1 e1"
        by (rule apply_resolution_same [OF app])
      have inv1: "store_inv e1"
        using same_journals_keeps [OF inv(2) e1] by (simp add: store_keeps_def)
      have "journal_of e2 x = journal_of e1 x \<and> store_inv e2"
        using resolved(6) unfolding list_case_Inr
      proof (elim disjE exE conjE)
        fix w ws
        assume w: "filter (\<lambda>w. pw_condition w = EffectResolution ref) ps = w # ws"
          and del: "deliver_pending_wake e1 w (resolution_payload resolution) now = Inr e2"
        have "w \<in> set ps"
          using arg_cong [OF w, of set] by auto
        then have "pw_execution_id w \<noteq> x"
          using pending_receipt_of [OF resolved(3)] parked by fastforce
        then show ?thesis
          using deliver_other [OF inv1 del] store_keeps_inv [OF deliver_keeps [OF inv1 del]] by simp
      qed (use inv1 in simp)
      then show ?thesis
        using journal_of_same [OF _ requeue_same [OF resolved(8)]] journal_of_same [OF inv(2) e1] by simp
    qed
  qed (use assms(3) in simp_all)
  then show ?thesis
    using journal_of_same [OF inv(1) discard_wakes_same [OF assms(2)]] by simp
qed

lemma discarded_execution_stays_parked_witness:
  "\<exists>d1 d2. discard_pending_execution_wakes sample_parked ''e1'' = Inr (d1, 1) \<and>
     store_step d1 (DeliverWake (User ''t'') JNull 7) = Inr d2 \<and>
     journal_of d2 ''e1'' = journal_of sample_parked ''e1''"
proof -
  let ?d1 = "sample_parked\<lparr>db_wakes := []\<rparr>"
  have d1: "discard_pending_execution_wakes sample_parked ''e1'' = Inr (?d1, 1)"
    by (simp add: discard_pending_execution_wakes_def validated_text_def count_where_def
        delete_where_def sample_parked_def sample_wake_def)
  have d2: "store_step ?d1 (DeliverWake (User ''t'') JNull 7) = Inr ?d1"
    by (simp add: discard_def deliver_execution_wake_def deliver_execution_wake_with_def
        load_pending_wake_receipts_def verify_delivered_exact_wake_def delivered_rows_def)
  from discarded_execution_stays_parked [OF sample_run(1) d1 _ d2] d1 d2 show ?thesis by auto
qed

end
