(* ===== verification/WakeProgress.thy ===== *)
theory WakeProgress
  imports WakeTheorems
begin

text \<open>
  Progress: a pending wake of a database the store produced can always be delivered. The
  proof follows the delivery through its checks: the wake receipt is the canonical one, the
  journal accepts the wake event and then the start of the next revision, whose contract is
  storable, and the task behind the execution can be put back in the queue.
\<close>

section \<open>The pending revision\<close>

lemma count_unique_key:
  assumes "distinct (map key t)" "r \<in> set t" "P r" "\<And>q. q \<in> set t \<Longrightarrow> P q \<Longrightarrow> key q = key r"
  shows "count_where P t = 1"
proof -
  have "filter P t = filter (\<lambda>q. key q = key r \<and> P q) t"
    by (rule filter_cong) (use assms(4) in auto)
  moreover have "q = r" if "q \<in> set t" "key q = key r" for q
    using assms(1,2) that by (simp add: distinct_map inj_on_def)
  ultimately have "filter P t = filter (\<lambda>q. q = r) t"
    using assms(2,3) by (smt (verit) filter_cong)
  moreover have "distinct t"
    using assms(1) by (simp add: distinct_map)
  ultimately have "set (filter P t) = {r}" "distinct (filter P t)"
    using assms(2) by auto
  then have "length (filter P t) = card {r}"
    by (metis distinct_card)
  then show ?thesis
    by (simp add: count_where_def)
qed

text \<open>A backed pending row belongs to the latest revision, which nothing has woken.\<close>

definition parked_on :: "db \<Rightarrow> wake_row \<Rightarrow> execution_event list \<Rightarrow> folded_journal \<Rightarrow> checkpoint_envelope \<Rightarrow> bool" where
  "parked_on d w evs rs ck \<longleftrightarrow>
     loaded d (wk_execution_id w) evs rs \<and> rs \<noteq> [] \<and>
     c_revision (er_contract (fo_record (last rs))) = wk_revision w \<and>
     outcome_of (fo_record (last rs)) = Some (OutSuspended (wk_condition w) ck) \<and>
     fo_outcome_committed_at (last rs) = Some (wk_created_at w) \<and>
     fo_wake_transition (last rs) = None"

lemma pending_parked:
  assumes snd: "sound_db d" and w: "w \<in> set (db_wakes d)" "wk_status w = WkPending"
  obtains evs rs ck where "parked_on d w evs rs ck"
proof -
  obtain evs rs where l: "loaded d (wk_execution_id w) evs rs"
    using snd store_invE unfolding sound_db_def by blast
  have "wake_backed rs w"
    using snd w(1) journal_of_loaded [OF l] by (auto simp: sound_db_def wakes_inv_def)
  then obtain f ck where f: "revision_at rs (wk_revision w) = Some f"
      "outcome_of (fo_record f) = Some (OutSuspended (wk_condition w) ck)"
      "fo_outcome_committed_at f = Some (wk_created_at w)" "wake_state f w"
    unfolding wake_backed_def by blast
  let ?i = "unat (wk_revision w) - 1"
  have i: "?i < length rs" "f = rs ! ?i" "wk_revision w \<noteq> 0"
    using f(1) by (auto simp: revision_at_Some)
  have fresh: "fo_wake_transition f = None"
    using f(4) w(2) by (auto simp: wake_state_def split: option.splits)
  have "Suc ?i = length rs"
  proof (rule ccontr)
    assume "Suc ?i \<noteq> length rs"
    then have "Suc ?i < length rs"
      using i(1) by simp
    then have "linked (rs ! ?i) (rs ! Suc ?i)"
      using loaded_inv [OF l] by (simp add: journal_inv_def)
    with fresh i(2) show False
      by (simp add: linked_def)
  qed
  moreover from this have "f = last rs"
    using i(2) nth_last by metis
  moreover have "rs \<noteq> []"
    using i(1) by auto
  moreover from this have "c_revision (er_contract (fo_record (last rs))) = wk_revision w"
    using loaded_last(2) [OF l] \<open>Suc ?i = length rs\<close> i(3)
    by (simp add: word_unat_eq_iff)
  ultimately show thesis
    using that l f(2,3) fresh unfolding parked_on_def by blast
qed

lemma parked_rows:
  assumes snd: "sound_db d" and p: "parked_on d w evs rs ck"
    and q: "q \<in> set (db_wakes d)" "wk_execution_id q = wk_execution_id w" "wk_revision q = wk_revision w"
  shows "wk_condition q = wk_condition w" "wk_dedup_key q = dedup_key (wk_condition w)"
    "wk_status q = WkPending" "wk_delivery q = None" "wk_delivered_at q = None"
proof -
  have l: "loaded d (wk_execution_id w) evs rs" "rs \<noteq> []"
    using p by (simp_all add: parked_on_def)
  have "wake_backed rs q"
    using snd q(1,2) journal_of_loaded [OF l(1)] by (auto simp: sound_db_def wakes_inv_def)
  then show "wk_condition q = wk_condition w" "wk_dedup_key q = dedup_key (wk_condition w)"
    "wk_status q = WkPending" "wk_delivery q = None" "wk_delivered_at q = None"
    using p q(3) revision_at_last [OF l]
    by (auto simp: wake_backed_def parked_on_def wake_state_def)
qed

lemma parked_verified:
  assumes snd: "sound_db d" and w: "w \<in> set (db_wakes d)" and p: "parked_on d w evs rs ck"
  shows "verify_registered_wake d (wk_execution_id w) (wk_revision w) (OutSuspended (wk_condition w) ck)
    (Some (wk_created_at w)) None = Inr ()"
proof -
  note rows = parked_rows [OF snd p]
  have dist: "distinct (map wake_key (db_wakes d))"
    using snd by (simp add: sound_db_def wakes_inv_def)
  have "count_where (\<lambda>q. wk_execution_id q = wk_execution_id w \<and> wk_revision q = wk_revision w)
      (db_wakes d) = 1"
    by (rule count_unique_key [OF dist w]) (use rows rows [OF w] in \<open>auto simp: wake_key_def\<close>)
  moreover have "row_of wake_key (wk_execution_id w, wk_revision w, dedup_key (wk_condition w))
      (db_wakes d) = Some w"
    using w rows(2) [OF w] by (simp add: row_of_unique [OF dist] wake_key_def)
  ultimately show ?thesis
    using rows [OF w] by (simp add: verify_registered_wake_def)
qed

section \<open>The next contract\<close>

lemma sql_positive_inc:
  "\<lbrakk>sql_positive w; unat w < i64_max\<rbrakk> \<Longrightarrow> checked_inc w = Some (w + 1) \<and> sql_positive (w + 1)"
  using fits_i64_inc unat_inc_fits by (auto simp: sql_positive_def fits_i64_def)

lemma resumed_storable:
  assumes "storable c" "resumable_checkpoint wk ck c" "sql_positive n" "sql_positive f"
    and "wd_condition dl = wk" "wd_dedup_key dl = dedup_key wk"
  shows "storable (resumed_contract c n f ck dl)"
  using assms checkpoint_id_not_blank
  by (auto simp: storable_def resumed_contract_def resumable_checkpoint_def wake_canonical_def
      objective_in_scope_def)

lemma suspended_resumable:
  assumes "revision_ok eid n f" "outcome_of (fo_record f) = Some (OutSuspended wk ck)"
  shows "resumable_checkpoint wk ck (er_contract (fo_record f))"
    "fo_outcome_committed_at f = Some (er_updated_at (fo_record f))"
proof -
  obtain v where v: "er_outcome (fo_record f) = Some v" "vo_outcome v = OutSuspended wk ck"
    using assms(2) by (auto simp: outcome_of_def)
  then have "new_validated_outcome (OutSuspended wk ck) (er_contract (fo_record f)) = Inr v"
    and "fo_outcome_committed_at f = Some (er_updated_at (fo_record f))"
    using assms(1) by (simp_all add: revision_ok_def state_agrees_def)
  then show "resumable_checkpoint wk ck (er_contract (fo_record f))"
    "fo_outcome_committed_at f = Some (er_updated_at (fo_record f))"
    by (simp_all add: new_validated_outcome_Inr validate_suspended_iff)
qed

lemma resumed_transition:
  assumes "outcome_of r = Some (OutSuspended wk ck)" "wd_condition dl = wk"
    "wd_dedup_key dl = dedup_key wk"
    "checked_inc (c_revision (er_contract r)) = Some n"
    "checked_inc (c_fencing_token (er_contract r)) = Some f"
  shows "validate_revision_transition r (resumed_contract (er_contract r) n f ck dl) = Inr ()"
  using assms by (simp add: validate_revision_transition_def resumed_contract_def Let_def)

section \<open>The two events are accepted\<close>

lemma woken_accepted:
  assumes ne: "rs \<noteq> []" and ev: "ev_event ev = WakeDelivered JOURNAL_EVENT_VERSION dl n"
    "ev_revision ev = c_revision (er_contract (fo_record (last rs)))" "ev_created_at ev = t"
    and f: "outcome_of (fo_record (last rs)) = Some (OutSuspended wk ck)"
    "fo_outcome_committed_at (last rs) = Some at" "fo_wake_transition (last rs) = None" "at \<le> t"
    and dl: "wd_condition dl = wk" "wd_dedup_key dl = dedup_key wk"
    "wd_delivered_at_unix_seconds dl = t"
    and n: "checked_inc (c_revision (er_contract (fo_record (last rs)))) = Some n"
  shows "fold_event eid rs ev = Inr (set_last rs (woken (last rs) dl n t))"
  using assms by (simp add: fold_event.simps fold_wake_delivered_def require_event_version_def
      last_mut_def woken_def)

lemma opened_accepted:
  assumes ne: "rs \<noteq> []" and len: "Suc (length rs) < 18446744073709551616"
    and ev: "ev_event ev = RevisionStarted JOURNAL_EVENT_VERSION (word_of_nat (length rs)) c"
    "ev_revision ev = word_of_nat (Suc (length rs))" "ev_seq ev = 1" "ev_created_at ev = t"
    and c: "storable c" "c_execution_id c = eid" "c_revision c = word_of_nat (Suc (length rs))"
    and prior: "er_updated_at (fo_record (last rs)) \<le> t"
    "validate_revision_transition (fo_record (last rs)) c = Inr ()"
    and wt: "fo_wake_transition (last rs) = Some wt" "wt_next_revision wt = word_of_nat (Suc (length rs))"
    "c_wake c = Some (wt_delivery wt)" "wt_created_at wt = t"
  shows "fold_event eid rs ev =
    Inr (rs @ [ready_revision c (er_created_at (fo_record (last rs))) t])"
proof -
  have "\<not> (word_of_nat (Suc (length rs)) :: u64) \<le> 1"
  proof -
    have "unat (word_of_nat (Suc (length rs)) :: u64) = Suc (length rs)"
      using len by (simp del: of_nat_Suc add: unat_of_nat take_bit_nat_eq_self)
    then show ?thesis
      using ne by (simp del: of_nat_Suc add: word_le_nat_alt)
  qed
  then show ?thesis
    using assms
    by (simp del: of_nat_Suc add: fold_event.simps fold_revision_started_def
        require_event_version_def last_mut_def storable_validated) (simp add: algebra_simps)
qed

section \<open>Carrying the delivery out\<close>

lemma append_accepted:
  assumes old: "loaded d eid evs rs" and rev: "length rs \<le> unat rvn"
    and room: "Suc (max_seq d eid rvn) < i64_max"
    and fold: "\<And>ev. \<lbrakk>ev_event ev = e; ev_revision ev = rvn; ev_seq ev = Suc (max_seq d eid rvn);
      ev_created_at ev = now\<rbrakk> \<Longrightarrow> fold_event eid rs ev = Inr rs'"
  obtains d' evs' where "append_journal_event d eid rvn e now = Inr d'" "loaded d' eid evs' rs'"
proof -
  let ?ev = "\<lparr>ev_event_id = db_next_event_id d, ev_execution_id = eid, ev_revision = rvn,
      ev_seq = Suc (max_seq d eid rvn), ev_event = e, ev_created_at = now\<rparr>"
  obtain d' where d': "append_journal_event d eid rvn e now = Inr d'"
      "read_journal_events d' eid = Inr (evs @ [?ev])"
    by (rule append_reads [OF old rev room])
  have "fold_event eid rs ?ev = Inr rs'"
    by (rule fold) simp_all
  then have "run_steps (fold_event eid) [] (evs @ [?ev]) = Inr rs'"
    using old by (simp add: run_steps_append loaded_def)
  with d' show thesis
    by (intro that [of d' "evs @ [?ev]"]) (simp_all add: loaded_def)
qed

lemma fresh_revision_seq:
  assumes "loaded d eid evs rs" "length rs < unat rvn"
  shows "max_seq d eid rvn = 0"
proof -
  have "ev_revision (rw_event (last (journal_rows d eid))) \<noteq> rvn" if "journal_rows d eid \<noteq> []"
    using loaded_revisions [OF assms(1) last_in_set [OF that]] assms(2) by auto
  then show ?thesis
    using max_seq_last [OF assms(1), of rvn] assms(2) by auto
qed

lemma refresh_succeeds:
  assumes "loaded d eid evs rs" "rs \<noteq> []" "storable (er_contract (fo_record (last rs)))"
  shows "\<exists>d'. refresh_projection d eid missing = Inr (d', fo_record (last rs)) \<and>
    db_tasks d' = db_tasks d"
proof -
  have "fits_i64 (c_revision (er_contract (fo_record (last rs))))"
    "fits_i64 (c_fencing_token (er_contract (fo_record (last rs))))"
    using assms(3) by (simp_all add: storable_def sql_positive_def fits_i64_def)
  moreover have "load_required d eid missing = Inr (evs, rs)"
    using assms(1,2) by (simp add: load_required_Inr)
  ultimately show ?thesis
    using assms(2) by (simp add: refresh_projection_def latest_def write_projection_def
        sqlite_integer_from_store_def)
qed

text \<open>Marking the row, and the evidence the revision start then asks for.\<close>

lemma parked_marked:
  assumes snd: "sound_db d" and w: "w \<in> set (db_wakes d)" and p: "parked_on d w evs rs ck"
    and same: "db_wakes d1 = db_wakes d"
  obtains d2 where "mark_delivered d1 (wake_key w) dl t = (d2, 1)" "db_events d2 = db_events d1"
    "db_tasks d2 = db_tasks d1"
    "row_of wake_key (wake_key w) (db_wakes d2) = Some (w\<lparr>wk_status := WkDelivered,
       wk_delivery := Some dl, wk_delivered_at := Some t\<rparr>)"
proof -
  let ?P = "\<lambda>q. wake_key q = wake_key w \<and> wk_status q = WkPending \<and> wk_delivery q = None \<and>
      wk_delivered_at q = None"
  note rows = parked_rows [OF snd p]
  have dist: "distinct (map wake_key (db_wakes d))"
    using snd by (simp add: sound_db_def wakes_inv_def)
  have mine: "?P w"
    using rows(3-5) [OF w] by simp
  have "count_where ?P (db_wakes d) = 1"
    by (rule count_unique_key [where key = wake_key, OF dist w]) (use mine in simp_all)
  moreover have "row_of wake_key (wake_key w) (db_wakes d) = Some w"
    using w by (simp add: row_of_unique [OF dist])
  ultimately show thesis
    using mine same
    by (intro that [of "fst (mark_delivered d1 (wake_key w) dl t)"])
      (simp_all add: mark_delivered_def Let_def row_of_update_where wake_key_def)
qed

lemma woken_authenticates:
  assumes "outcome_of (fo_record f) = Some (OutSuspended (wk_condition w) ck)"
    "fo_outcome_committed_at f = Some at" "at \<le> t"
    "fits_i64 (c_revision (er_contract (fo_record f)))"
    "wake_key w = (c_execution_id (er_contract (fo_record f)), c_revision (er_contract (fo_record f)),
       dedup_key (wk_condition w))"
    and row: "row_of wake_key (wake_key w) (db_wakes d) = Some (w\<lparr>wk_status := WkDelivered,
       wk_delivery := Some dl, wk_delivered_at := Some t\<rparr>)"
    and dl: "wd_delivered_at_unix_seconds dl = t"
  shows "verify_delivered_wake d (woken f dl n t) (resumed_contract c n g ck' dl) =
    Inr \<lparr>wt_delivery = dl, wt_next_revision = n, wt_created_at = t\<rparr>"
  using assms(1-4) dl row [unfolded assms(5)] assms(5)
  by (simp add: verify_delivered_wake_def Let_def sqlite_integer_def wake_key_def)

section \<open>A pending wake can be delivered\<close>

text \<open>The counters of the execution behind a wake have room for one more revision.\<close>

definition has_room :: "db \<Rightarrow> execution_contract \<Rightarrow> bool" where
  "has_room d c \<longleftrightarrow> unat (c_revision c) < i64_max \<and> unat (c_fencing_token c) < i64_max \<and>
     Suc (max_seq d (c_execution_id c) (c_revision c)) < i64_max"

lemma parked_contract:
  assumes "parked_on d w evs rs ck"
  shows "storable (er_contract (fo_record (last rs)))"
    "resumable_checkpoint (wk_condition w) ck (er_contract (fo_record (last rs)))"
    "er_updated_at (fo_record (last rs)) = wk_created_at w"
    "c_execution_id (er_contract (fo_record (last rs))) = wk_execution_id w"
    "unat (wk_revision w) = length rs"
proof -
  have l: "loaded d (wk_execution_id w) evs rs" "rs \<noteq> []"
    and out: "outcome_of (fo_record (last rs)) = Some (OutSuspended (wk_condition w) ck)"
    and rev: "c_revision (er_contract (fo_record (last rs))) = wk_revision w"
    and at: "fo_outcome_committed_at (last rs) = Some (wk_created_at w)"
    using assms by (simp_all add: parked_on_def)
  note ok = journal_inv_last [OF loaded_inv [OF l(1)] l(2)]
  show "storable (er_contract (fo_record (last rs)))"
    using ok by (simp add: revision_ok_def)
  show "resumable_checkpoint (wk_condition w) ck (er_contract (fo_record (last rs)))"
    using suspended_resumable(1) [OF ok out] .
  show "er_updated_at (fo_record (last rs)) = wk_created_at w"
    using suspended_resumable(2) [OF ok out] at by simp
  show "c_execution_id (er_contract (fo_record (last rs))) = wk_execution_id w"
    "unat (wk_revision w) = length rs"
    using loaded_last [OF l] rev by simp_all
qed

lemma parked_resumes:
  assumes snd: "sound_db d" and w: "w \<in> set (db_wakes d)" and p: "parked_on d w evs rs ck"
    and room: "has_room d (er_contract (fo_record (last rs)))" and t: "wk_created_at w \<le> t"
    and dl: "wd_condition dl = wk_condition w" "wd_dedup_key dl = wk_dedup_key w"
      "wd_delivered_at_unix_seconds dl = t"
  obtains d1 d2 d3 r where
    "append_journal_event d (wk_execution_id w) (wk_revision w)
       (WakeDelivered JOURNAL_EVENT_VERSION dl (wk_revision w + 1)) t = Inr d1"
    "mark_delivered d1 (wake_key w) dl t = (d2, 1)"
    "start_execution_revision_on d2 (resumed_contract (er_contract (fo_record (last rs)))
       (wk_revision w + 1) (c_fencing_token (er_contract (fo_record (last rs))) + 1) ck dl) =
       Inr (d3, RevInserted r)"
    "storable (resumed_contract (er_contract (fo_record (last rs))) (wk_revision w + 1)
       (c_fencing_token (er_contract (fo_record (last rs))) + 1) ck dl)"
    "checked_inc (wk_revision w) = Some (wk_revision w + 1)"
    "checked_inc (c_fencing_token (er_contract (fo_record (last rs)))) =
       Some (c_fencing_token (er_contract (fo_record (last rs))) + 1)"
    "db_tasks d3 = db_tasks d"
proof -
  let ?c = "er_contract (fo_record (last rs))"
  let ?n = "wk_revision w + 1"
  let ?nc = "resumed_contract ?c ?n (c_fencing_token ?c + 1) ck dl"
  let ?rs = "set_last rs (woken (last rs) dl ?n t)"
  let ?new = "ready_revision ?nc (er_created_at (fo_record (last rs))) t"
  note c = parked_contract [OF p]
  have l: "loaded d (wk_execution_id w) evs rs" "rs \<noteq> []" and rev: "c_revision ?c = wk_revision w"
    and out: "outcome_of (fo_record (last rs)) = Some (OutSuspended (wk_condition w) ck)"
    and at: "fo_outcome_committed_at (last rs) = Some (wk_created_at w)"
    and fresh: "fo_wake_transition (last rs) = None"
    using p by (simp_all add: parked_on_def)
  have key: "wk_dedup_key w = dedup_key (wk_condition w)"
    by (rule parked_rows(2) [OF snd p w]) simp_all
  have inc: "checked_inc (c_revision ?c) = Some ?n" "sql_positive ?n"
      "checked_inc (c_fencing_token ?c) = Some (c_fencing_token ?c + 1)"
      "sql_positive (c_fencing_token ?c + 1)"
    using c(1) room sql_positive_inc rev by (simp_all add: storable_def has_room_def)
  have un: "unat ?n = Suc (length rs)"
    using unat_checked_inc [OF inc(1)] rev c(5) by simp
  have lt: "Suc (length rs) < 18446744073709551616"
    using unsigned_less [where ?'a = nat, of ?n] un by simp
  have nw: "?n = word_of_nat (Suc (length rs))"
    unfolding un [symmetric] by simp
  have rv: "wk_revision w = word_of_nat (length rs)"
    unfolding c(5) [symmetric] by simp
  have store: "storable ?nc"
    by (rule resumed_storable) (use c inc dl key in simp_all)
  obtain d1 evs1 where d1: "append_journal_event d (wk_execution_id w) (wk_revision w)
      (WakeDelivered JOURNAL_EVENT_VERSION dl ?n) t = Inr d1" "loaded d1 (wk_execution_id w) evs1 ?rs"
  proof (rule append_accepted [OF l(1)])
    show "length rs \<le> unat (wk_revision w)" using c(5) by simp
    show "Suc (max_seq d (wk_execution_id w) (wk_revision w)) < i64_max"
      using room c(4) rev by (simp add: has_room_def)
    show "fold_event (wk_execution_id w) rs ev = Inr ?rs"
      if "ev_event ev = WakeDelivered JOURNAL_EVENT_VERSION dl ?n" "ev_revision ev = wk_revision w"
        "ev_created_at ev = t" for ev
      by (rule woken_accepted [OF l(2) that(1)]) (use that rev out at fresh t dl key inc(1) in simp_all)
  qed
  have wakes: "db_wakes d1 = db_wakes d"
    using append_frame [OF d1(1)] by simp
  obtain d2 where d2: "mark_delivered d1 (wake_key w) dl t = (d2, 1)" "db_events d2 = db_events d1"
      "db_tasks d2 = db_tasks d1"
      "row_of wake_key (wake_key w) (db_wakes d2) = Some (w\<lparr>wk_status := WkDelivered,
         wk_delivery := Some dl, wk_delivered_at := Some t\<rparr>)"
    by (rule parked_marked [OF snd w p wakes])
  have l2: "loaded d2 (wk_execution_id w) evs1 ?rs"
    using d1(2) by (simp only: loaded_cong [OF d2(2)])
  have ver: "verify_delivered_wake d2 (woken (last rs) dl ?n t) ?nc =
      Inr \<lparr>wt_delivery = dl, wt_next_revision = ?n, wt_created_at = t\<rparr>"
    by (rule woken_authenticates [OF out at t])
      (use c rev d2(4) dl key in \<open>simp_all add: wake_key_def storable_def sql_positive_def fits_i64_def\<close>)
  have trans: "validate_revision_transition (fo_record (last rs)) ?nc = Inr ()"
    by (rule resumed_transition [OF out]) (use dl key inc in simp_all)
  have len: "length ?rs = length rs"
    using l(2) by simp
  have seq: "max_seq d2 (wk_execution_id w) ?n = 0"
    by (rule fresh_revision_seq [OF l2]) (use un len in simp)
  obtain d3 evs3 where d3: "append_journal_event d2 (wk_execution_id w) ?n
      (RevisionStarted JOURNAL_EVENT_VERSION (wk_revision w) ?nc) t = Inr d3"
      "loaded d3 (wk_execution_id w) evs3 (?rs @ [?new])"
  proof (rule append_accepted [OF l2])
    show "length ?rs \<le> unat ?n" using un len by simp
    show "Suc (max_seq d2 (wk_execution_id w) ?n) < i64_max" using seq by (simp add: i64_max_def)
    show "fold_event (wk_execution_id w) ?rs ev = Inr (?rs @ [?new])"
      if "ev_event ev = RevisionStarted JOURNAL_EVENT_VERSION (wk_revision w) ?nc"
        "ev_revision ev = ?n" "ev_seq ev = Suc (max_seq d2 (wk_execution_id w) ?n)"
        "ev_created_at ev = t" for ev
    proof -
      have "fold_event (wk_execution_id w) ?rs ev =
          Inr (?rs @ [ready_revision ?nc (er_created_at (fo_record (last ?rs))) t])"
        by (rule opened_accepted [where wt = "\<lparr>wt_delivery = dl, wt_next_revision = ?n, wt_created_at = t\<rparr>"])
          (use that nw [symmetric] rv [symmetric] c t trans store seq lt len l(2) in
            \<open>simp_all del: of_nat_Suc add: set_last_nonempty\<close>)
      then show ?thesis by simp
    qed
  qed
  obtain d4 where d4: "refresh_projection d3 (wk_execution_id w) (Store ''started revision disappeared'') =
      Inr (d4, fo_record ?new)" "db_tasks d4 = db_tasks d3"
    using refresh_succeeds [OF d3(2)] store by (auto simp: ready_revision_def)
  have "start_execution_revision_on d2 ?nc = Inr (d4, RevInserted (fo_record ?new))"
  proof -
    have "load_required d2 (wk_execution_id w) (NotFound (''execution '' @ wk_execution_id w)) =
        Inr (evs1, ?rs)" "latest ?rs = Inr (woken (last rs) dl ?n t)"
      using l2 l(2) by (simp_all add: load_required_Inr latest_Inr set_last_nonempty)
    moreover have "revision_at ?rs ?n = None"
      using un len by (simp add: revision_at_def)
    moreover have "\<not> ?n \<le> 1"
      using un l(2) by (simp add: word_le_nat_alt)
    moreover have "validated_text (wk_execution_id w) ''execution id'' = Inr ()"
      "sqlite_integer ?n ''execution revision'' = Inr ()"
      "sqlite_integer (c_fencing_token ?c + 1) ''execution fencing token'' = Inr ()"
      using store c(4) by (simp_all add: storable_def validated_text_def sqlite_integer_def
          sql_positive_iff)
    ultimately show ?thesis
      using c(4) inc(1) rev trans ver d3(1) d4(1)
      by (simp add: start_execution_revision_on_def Let_def)
  qed
  moreover have "db_tasks d4 = db_tasks d"
    using d4(2) append_frame [OF d3(1)] d2(3) append_frame [OF d1(1)] by simp
  ultimately show thesis
    using that [OF d1(1) d2(1)] store inc rev by simp
qed

text \<open>The task behind the execution goes back to the queue, whatever it is.\<close>

lemma project_task_succeeds:
  assumes "distinct (map task_key (db_tasks d))" "valid_unix_timestamp t"
  shows "\<exists>d'. project_legacy_task_ready d c t = Inr d'"
proof (cases "row_of task_key (c_execution_id c, sc_user_id (c_scope c), sc_workspace_id (c_scope c))
    (db_tasks d)")
  case (Some row)
  note row = row_of_Some_in [OF Some]
  have "count_where (\<lambda>r. task_key r = task_key row) (db_tasks d) = 1"
    by (rule count_unique_key [where key = task_key and r = row, OF assms(1)]) (use row in simp_all)
  with Some row assms(2) show ?thesis
    by (simp add: project_legacy_task_ready_def Let_def)
qed (simp add: project_legacy_task_ready_def Let_def)

lemma sound_deliverable:
  assumes "sound_db d" "distinct (map task_key (db_tasks d))"
    and "load_pending_wake_receipts d = Inr ps" "p \<in> set ps"
    and "pw_created_at p \<le> t" "valid_unix_timestamp t"
    and "execution d (pw_execution_id p) = Inr (d, Some r)" "has_room d (er_contract r)"
  shows "\<exists>d'. deliver_pending_wake d p payload t = Inr d'"
proof -
  have "ps = map pending_receipt (pending_rows d)"
    using assms(3) by (rule load_pending_rows)
  then obtain w where w: "w \<in> set (db_wakes d)" "wk_status w = WkPending" "p = pending_receipt w"
    using assms(4) by (auto simp: pending_rows_def)
  obtain evs and rs :: folded_journal and ck where p: "parked_on d w evs rs ck"
    by (rule pending_parked [OF assms(1) w(1,2)])
  have l: "loaded d (wk_execution_id w) evs rs" "rs \<noteq> []"
    and rev: "c_revision (er_contract (fo_record (last rs))) = wk_revision w"
    and out: "outcome_of (fo_record (last rs)) = Some (OutSuspended (wk_condition w) ck)"
    and at: "fo_outcome_committed_at (last rs) = Some (wk_created_at w)"
    and fresh: "fo_wake_transition (last rs) = None"
    using p by (simp_all add: parked_on_def)
  note c = parked_contract [OF p]
  have "\<not> is_blank (wk_execution_id w)"
    using c(1,4) by (simp add: storable_def)
  then have "r = fo_record (last rs)"
    using assms(1,7) latest_of_loaded [OF _ l] w(3) by (simp add: pending_receipt_def sound_db_def)
  with assms(8) have room: "has_room d (er_contract (fo_record (last rs)))"
    by simp
  let ?dl = "delivery_of p payload t"
  obtain d1 d2 d3 r' where go:
    "append_journal_event d (wk_execution_id w) (wk_revision w)
       (WakeDelivered JOURNAL_EVENT_VERSION ?dl (wk_revision w + 1)) t = Inr d1"
    "mark_delivered d1 (wake_key w) ?dl t = (d2, 1)"
    "start_execution_revision_on d2 (resumed_contract (er_contract (fo_record (last rs)))
       (wk_revision w + 1) (c_fencing_token (er_contract (fo_record (last rs))) + 1) ck ?dl) =
       Inr (d3, RevInserted r')"
    and store: "storable (resumed_contract (er_contract (fo_record (last rs))) (wk_revision w + 1)
       (c_fencing_token (er_contract (fo_record (last rs))) + 1) ck ?dl)"
    and inc: "checked_inc (wk_revision w) = Some (wk_revision w + 1)"
      "checked_inc (c_fencing_token (er_contract (fo_record (last rs)))) =
         Some (c_fencing_token (er_contract (fo_record (last rs))) + 1)"
    and tasks: "db_tasks d3 = db_tasks d"
    by (rule parked_resumes [OF assms(1) w(1) p room, of t ?dl])
      (use assms(5) w(3) in \<open>simp_all add: delivery_of_def pending_receipt_def\<close>)
  obtain d4 where d4: "project_legacy_task_ready d3 (resumed_contract
      (er_contract (fo_record (last rs))) (wk_revision w + 1)
      (c_fencing_token (er_contract (fo_record (last rs))) + 1) ck ?dl) t = Inr d4"
    using project_task_succeeds [of d3 t] assms(2,6) tasks by auto
  have load: "load_required d (wk_execution_id w) e = Inr (evs, rs)" "latest rs = Inr (last rs)"
      "revision_at rs (wk_revision w) = Some (last rs)" for e
    using l rev revision_at_last [OF l] by (simp_all add: load_required_Inr latest_Inr)
  have fits: "sqlite_integer_from_store (wk_revision w) ''wake revision'' = Inr ()"
    using c(1) rev by (simp add: storable_def sql_positive_def fits_i64_def sqlite_integer_from_store_def)
  have key: "(wk_execution_id w, wk_revision w, wk_dedup_key w) = wake_key w"
    by (simp add: wake_key_def)
  have fields: "pw_execution_id p = wk_execution_id w" "pw_revision p = wk_revision w"
      "pw_dedup_key p = wk_dedup_key w" "pw_created_at p = wk_created_at w"
    using w(3) by (simp_all add: pending_receipt_def)
  have "validated_contract (resumed_contract (er_contract (fo_record (last rs))) (wk_revision w + 1)
      (c_fencing_token (er_contract (fo_record (last rs))) + 1) ck ?dl) =
      Inr (resumed_contract (er_contract (fo_record (last rs))) (wk_revision w + 1)
      (c_fencing_token (er_contract (fo_record (last rs))) + 1) ck ?dl)"
    using store by (simp add: validated_contract_Inr)
  moreover have "\<not> t < wk_created_at w"
    using assms(5) fields by simp
  ultimately have "deliver_pending_wake d p payload t = Inr d4"
    using parked_verified [OF assms(1) w(1) p]
    by (simp add: deliver_pending_wake_def Let_def fields load rev fits out at fresh inc key go d4
        del: One_nat_def)
  then show ?thesis ..
qed

text \<open>
  C33: no wake is stuck. Every wake the pending scan of a sound database lists can be
  delivered, with any payload, at any time from its registration on that the calendar can
  express, as long as the revision, the fence and the event sequence of its execution are
  below the largest signed 64-bit integer.
\<close>

theorem pending_wake_deliverable:
  assumes "sound_db d" "distinct (map task_key (db_tasks d))"
    and "load_pending_wake_receipts d = Inr ps" "p \<in> set ps"
    and "pw_created_at p \<le> t" "valid_unix_timestamp t"
    and "execution d (pw_execution_id p) = Inr (d, Some r)" "has_room d (er_contract r)"
  shows "\<exists>d'. deliver_pending_wake d p payload t = Inr d'"
  by (rule sound_deliverable [OF assms])

lemma sample_parked_execution:
  "execution sample_parked ''e1'' = Inr (sample_parked, Some (fo_record sample_suspended))"
  using sample_parked_loads store_run_sound [OF sample_run(1)]
    latest_of_loaded [of sample_parked "''e1''" _ "[sample_suspended]"]
  by (auto simp: sound_db_def)

theorem pending_wake_deliverable_witness:
  "\<exists>d'. deliver_pending_wake sample_parked sample_receipt (JString ''yes'') 8 = Inr d'"
proof (rule pending_wake_deliverable [OF store_run_sound [OF sample_run(1)] _ sample_pending])
  show "execution sample_parked (pw_execution_id sample_receipt) =
      Inr (sample_parked, Some (fo_record sample_suspended))"
    using sample_parked_execution by simp
  show "distinct (map task_key (db_tasks sample_parked))"
    by (simp add: sample_parked_def sample_started_def empty_db_def)
  show "has_room sample_parked (er_contract (fo_record sample_suspended))"
    by (simp add: has_room_def sample_suspended_def sample_parked_def sample_defs i64_max_def
        max_seq_def ready_revision_def empty_db_def)
qed (simp_all add: valid_unix_timestamp_def)

end
