(* ===== verification/EffectTheorems.thy ===== *)
theory EffectTheorems
  imports WakeProgress
begin

text \<open>
  The operations that change two things at once: continuing as a new execution closes the
  parent and opens the child together, resolving an uncertain effect wakes the execution that
  waits for it, and a completed effect is compensated at most once.
\<close>

section \<open>Continuing as a new execution\<close>

definition lineage :: "validated_outcome \<Rightarrow> execution_contract \<Rightarrow> execution_contract \<Rightarrow> bool" where
  "lineage v nxt pc \<longleftrightarrow>
     fits_i64 (c_revision pc) \<and> fits_i64 (c_fencing_token pc) \<and>
     matches_persisted (vo_binding v) (c_execution_id pc) (int (unat (c_revision pc))) (c_kind pc)
       (int (unat (c_fencing_token pc))) \<and>
     c_kind nxt = c_kind pc \<and> c_scope nxt = c_scope pc \<and> c_objective nxt = c_objective pc \<and>
     c_policy nxt = c_policy pc \<and> c_resources nxt = c_resources pc \<and> c_budget nxt = c_budget pc"

lemma continue_lineage:
  assumes "continue_execution_as_new d v nxt now = Inr (d', c)"
  shows "c_wake nxt = None" and "\<And>evs rs f. \<lbrakk>loaded d (bn_execution_id (vo_binding v)) evs rs;
    revision_at rs (bn_revision (vo_binding v)) = Some f\<rbrakk> \<Longrightarrow> lineage v nxt (er_contract (fo_record f))"
  using assms
  by (auto simp: continue_execution_as_new_def completed_out_Inr op_simps loaded_def lineage_def
      sqlite_integer_def split: if_splits)

lemma continue_again:
  assumes "vo_outcome v = OutCompleted answer (Some (c_execution_id nxt))"
    "c_execution_id nxt \<noteq> bn_execution_id (vo_binding v)"
    "c_parent_execution_id nxt = Some (bn_execution_id (vo_binding v))" "c_revision nxt = 1"
    "c_wake nxt = None"
    and p: "loaded d (bn_execution_id (vo_binding v)) evs rs" "rs \<noteq> []"
      "revision_at rs (bn_revision (vo_binding v)) = Some f"
      "outcome_of (fo_record f) = Some (vo_outcome v)" "lineage v nxt (er_contract (fo_record f))"
    and c: "loaded d (c_execution_id nxt) cevs crs" "crs \<noteq> []"
      "er_contract (fo_record (last crs)) = nxt"
  shows "continue_execution_as_new d v nxt now =
    Inr (d, ContExisting (fo_record f) (fo_record (last crs)))"
proof -
  have "load_required d (bn_execution_id (vo_binding v)) e = Inr (evs, rs)"
    "load_required d (c_execution_id nxt) e = Inr (cevs, crs)" for e
    using p(1,2) c(1,2) by (simp_all add: load_required_Inr)
  then show ?thesis
    using assms(1-5) p(3-5) c(2,3)
    by (simp add: continue_execution_as_new_def Let_def lineage_def sqlite_integer_def latest_def)
qed

lemma fold_created_event:
  assumes "fold_event eid [] ev = Inr rs" "ev_event ev = Created v c"
  shows "rs = [ready_revision c (ev_created_at ev) (ev_created_at ev)]" "storable c"
  using assms by (auto simp: fold_event.simps fold_created_def fold_simps
      validate_journal_contract_def validated_contract_Inr)

lemma continue_opens_child:
  assumes inv: "store_inv d" and op: "continue_execution_as_new d v nxt now = Inr (d', ContInserted completed child)"
  obtains evs rs cevs crs where
    "loaded d' (bn_execution_id (vo_binding v)) evs rs" "rs \<noteq> []"
    "completed = fo_record (last rs)" "outcome_of completed = Some (vo_outcome v)"
    "c_revision (er_contract completed) = bn_revision (vo_binding v)"
    "lineage v nxt (er_contract completed)"
    "loaded d' (c_execution_id nxt) cevs crs" "crs = [ready_revision nxt now now]"
    "child = fo_record (last crs)" "storable nxt"
  using op
proof (cases rule: continue_cases)
  case (inserted evs rs answer d1 d2 d3 d4 completed' child')
  let ?pid = "bn_execution_id (vo_binding v)" and ?cid = "c_execution_id nxt"
  obtain ev rs' where p: "loaded d2 ?pid (evs @ [ev]) rs'" "fold_event ?pid rs ev = Inr rs'"
      "ev_event ev = OutcomeCommitted JOURNAL_EVENT_VERSION (vo_outcome v) Completed"
      "rs' \<noteq> []" "completed' = fo_record (last rs')" "store_keeps False d d2"
    by (rule latest_step [OF inv inserted(1-3,10,11), where w = False]) simp_all
  note out = fold_outcome_event [OF p(2,3)]
  have at: "revision_at rs (bn_revision (vo_binding v)) = Some (last rs)"
    using revision_at_last [OF inserted(1,2)] inserted(3) by simp
  have d3: "store_inv d3" "db_events d3 = db_events d2"
    using store_keeps_same [OF p(6) enqueue_same [OF inserted(12)]] enqueue_same [OF inserted(12)]
    by (simp_all add: store_keeps_def same_journals_def)
  have "loaded d1 ?cid [] []"
    using inserted(9) loaded_append_other [OF inserted(10,6)] by simp
  then have fresh: "loaded d3 ?cid [] []"
    by (simp add: loaded_cong [OF d3(2)] loaded_cong [OF refresh_events [OF inserted(11)]])
  obtain ev' crs where c: "loaded d' ?cid ([] @ [ev']) crs" "fold_event ?cid [] ev' = Inr crs"
      "ev_event ev' = Created JOURNAL_EVENT_VERSION nxt" "ev_created_at ev' = now"
      "child' = fo_record (last crs)"
    by (rule append_refresh [OF store_inv_partly [OF d3(1) fresh] inserted(13) _ same_journals_refl
          inserted(14)]) simp_all
  have "loaded d' ?pid (evs @ [ev]) rs'"
    using p(1) loaded_step_other [OF inserted(13) refresh_events [OF inserted(14)], of ?pid] inserted(6)
      loaded_cong [OF d3(2)] by simp
  with that p c out fold_created_event [OF c(2,3)] inserted(3,15) continue_lineage(2) [OF op inserted(1) at]
  show thesis by simp
qed simp

text \<open>
  Continuing as new is one step. Afterwards the parent is completed with that outcome and
  the child stands ready with the contract it was given, whose parent is the completed
  execution and whose scope and policy are the parent's; no third journal moved; and asking
  again, at any time before either moves, returns the same two records and changes nothing.
\<close>

lemma continuation_is_atomic:
  assumes "store_run cmds = Inr d"
    and "continue_execution_as_new d v nxt now = Inr (d', ContInserted completed child)"
  shows "execution d' (bn_execution_id (vo_binding v)) = Inr (d', Some completed) \<and>
    outcome_of completed = Some (vo_outcome v) \<and> er_state completed = Completed \<and>
    execution d' (c_execution_id nxt) = Inr (d', Some child) \<and>
    er_contract child = nxt \<and> er_state child = Ready \<and>
    c_parent_execution_id nxt = Some (c_execution_id (er_contract completed)) \<and>
    c_scope nxt = c_scope (er_contract completed) \<and> c_policy nxt = c_policy (er_contract completed) \<and>
    continue_execution_as_new d' v nxt later = Inr (d', ContExisting completed child)"
proof -
  have inv: "store_inv d"
    by (rule store_run_inv [OF assms(1)])
  have inv': "store_inv d'"
    using continue_keeps [OF inv assms(2)] store_keeps_inv by blast
  obtain evs rs cevs crs where e: "loaded d' (bn_execution_id (vo_binding v)) evs rs" "rs \<noteq> []"
    "completed = fo_record (last rs)" "outcome_of completed = Some (vo_outcome v)"
    "c_revision (er_contract completed) = bn_revision (vo_binding v)"
    "lineage v nxt (er_contract completed)"
    "loaded d' (c_execution_id nxt) cevs crs" "crs = [ready_revision nxt now now]"
    "child = fo_record (last crs)" "storable nxt"
    by (rule continue_opens_child [OF inv assms(2)])
  obtain answer where g: "vo_outcome v = OutCompleted answer (Some (c_execution_id nxt))"
    "c_execution_id nxt \<noteq> bn_execution_id (vo_binding v)"
    "c_parent_execution_id nxt = Some (bn_execution_id (vo_binding v))" "c_revision nxt = 1"
    using assms(2) by (rule continue_cases) auto
  have "revision_at rs (bn_revision (vo_binding v)) = Some (last rs)"
    using revision_at_last [OF e(1,2)] e(3,5) by simp
  then have "continue_execution_as_new d' v nxt later = Inr (d', ContExisting completed child)"
    using continue_again [OF g continue_lineage(1) [OF assms(2)] e(1,2) _ _ _ e(7)] e by simp
  moreover have "er_state completed = Completed"
    using journal_inv_last [OF loaded_inv [OF e(1)] e(2)] e(3,4) g(1)
    by (auto simp: revision_ok_def state_agrees_def outcome_of_def split: option.splits)
  moreover have "execution d' (bn_execution_id (vo_binding v)) = Inr (d', Some completed)"
    using latest_of_loaded [OF inv' e(1,2) loaded_storable(2) [OF e(1,2)]] e(3) by simp
  moreover have "execution d' (c_execution_id nxt) = Inr (d', Some child)"
    using latest_of_loaded [OF inv' e(7)] e(8-10) by (simp add: storable_def)
  moreover have "c_execution_id (er_contract completed) = bn_execution_id (vo_binding v)"
    using loaded_last(1) [OF e(1,2)] e(3) by simp
  ultimately show ?thesis
    using e(4,6,8,9) g(3) by (simp add: lineage_def ready_revision_def)
qed

definition sample_handover :: validated_outcome where
  "sample_handover = \<lparr>vo_outcome = OutCompleted (JString ''part one'') (Some ''e2''),
     vo_binding = binding_of sample_contract\<rparr>"

definition sample_child :: execution_contract where
  "sample_child = sample_contract
     \<lparr>c_execution_id := ''e2'', c_parent_execution_id := Some ''e1''\<rparr>"

lemma sample_child_fields [simp]:
  "c_execution_id sample_child = ''e2''" "c_revision sample_child = 1"
  "c_fencing_token sample_child = 1" "c_kind sample_child = c_kind sample_contract"
  "c_parent_execution_id sample_child = Some ''e1''" "c_wake sample_child = None"
  "c_scope sample_child = c_scope sample_contract" "c_policy sample_child = c_policy sample_contract"
  "c_objective sample_child = c_objective sample_contract"
  "c_resources sample_child = c_resources sample_contract"
  "c_budget sample_child = c_budget sample_contract"
  by (simp_all add: sample_child_def sample_contract_def new_contract_def)

lemma storable_child: "storable sample_child"
  by (simp add: storable_def sample_child_def sample_contract_def new_contract_def sample_scope_def
      sql_positive_def i64_max_def nonblank_option_def objective_in_scope_def wake_canonical_def)

lemma sample_continue:
  "\<exists>d' completed child. continue_execution_as_new sample_started sample_handover sample_child 6 =
    Inr (d', ContInserted completed child)"
proof -
  have child: "validated_contract sample_child = Inr sample_child"
    using storable_child by (simp add: validated_contract_Inr)
  show ?thesis
    by (simp add: continue_execution_as_new_def sample_handover_def store_eval sample_defs child
        matches_persisted_def enqueue_projection_def projector_kind_def sqlite_u64_def)
qed

lemma continuation_is_atomic_witness:
  "\<exists>d' completed child.
     continue_execution_as_new sample_started sample_handover sample_child 6 =
       Inr (d', ContInserted completed child) \<and>
     execution d' ''e1'' = Inr (d', Some completed) \<and> er_state completed = Completed \<and>
     execution d' ''e2'' = Inr (d', Some child) \<and> er_contract child = sample_child"
proof -
  have run: "store_run (take 2 sample_commands) = Inr sample_started"
    by (simp add: store_run_def sample_commands_def discard_def sample_create sample_start)
  obtain d' completed child where
    "continue_execution_as_new sample_started sample_handover sample_child 6 =
       Inr (d', ContInserted completed child)"
    using sample_continue by blast
  moreover have "bn_execution_id (vo_binding sample_handover) = ''e1''"
    by (simp add: sample_handover_def binding_of_def)
  ultimately show ?thesis
    using continuation_is_atomic [OF run] by (metis sample_child_fields(1))
qed

section \<open>Resolving an uncertain effect\<close>

text \<open>The resolved row, and what a resolution leaves alone.\<close>

lemma resolution_matches:
  "receipt_resolution_matches (resolution_row resolution now r) resolution"
  by (cases resolution) simp_all

lemma matches_unique:
  "\<lbrakk>receipt_resolution_matches r a; receipt_resolution_matches r b\<rbrakk> \<Longrightarrow> a = b"
  by (cases a; cases b) auto

lemma matched_not_uncertain: "receipt_resolution_matches r a \<Longrightarrow> rc_status r \<noteq> Uncertain"
  by (cases a) simp_all

lemma resolution_row_fields [simp]:
  "rc_receipt_ref (resolution_row resolution now r) = rc_receipt_ref r"
  "rc_execution_id (resolution_row resolution now r) = rc_execution_id r"
  "rc_revision (resolution_row resolution now r) = rc_revision r"
  by (cases resolution; simp)+

lemma loaded_receipt_ref: "load_effect_receipt d ref = Some r \<Longrightarrow> rc_receipt_ref r = ref"
  using row_of_Some_in by (fastforce simp: load_effect_receipt_def)

lemma apply_resolution_row:
  assumes "apply_effect_resolution_on d ref resolution now = (d1, n)"
    "load_effect_receipt d ref = Some r" "rc_status r = Uncertain"
  shows "load_effect_receipt d1 ref = Some (resolution_row resolution now r)"
    "db_wakes d1 = db_wakes d" "db_events d1 = db_events d" "db_executions d1 = db_executions d"
    "db_outbox d1 = db_outbox d"
  using assms load_update_receipt [of d ref Uncertain "resolution_row resolution now" d1 n ref]
    loaded_receipt_ref [OF assms(2)]
  by (auto simp: apply_effect_resolution_on_def update_receipt_def Let_def)

lemma requeue_frame:
  "requeue_blocked_projections d ref now = (d', n) \<Longrightarrow> d' = d\<lparr>db_outbox := db_outbox d'\<rparr>"
  by (auto simp: requeue_blocked_projections_def Let_def)

lemma load_receipt_cong: "db_receipts d' = db_receipts d \<Longrightarrow> load_effect_receipt d' ref = load_effect_receipt d ref"
  by (simp add: load_effect_receipt_def)

lemma deliver_receipts:
  assumes "store_inv d" "deliver_pending_wake d p payload t = Inr d'"
  shows "db_receipts d' = db_receipts d"
  using assms
proof (rule deliver_effect)
  fix evs wk ck n f and rs :: folded_journal
  assume "resumes d d' p payload t evs rs ck n f"
  then show ?thesis
    unfolding resumes_def Let_def by blast
qed

lemma execution_same:
  assumes "store_inv d" "store_inv d'" "same_journals d d'" "execution d eid = Inr (d, Some r)"
  shows "execution d' eid = Inr (d', Some r)"
proof -
  have "\<not> is_blank eid"
    using assms(4) by (auto simp: execution_def validated_text_def)
  moreover have "load_validated_journal d' eid = load_validated_journal d eid"
    using assms(3) journal_rows_cong [of d' d eid]
    by (simp add: load_validated_journal_def read_journal_events_def same_journals_def)
  ultimately show ?thesis
    using store_reads [OF assms(1), of eid] store_reads [OF assms(2), of eid] assms(4) by auto
qed

lemma resolve_effect:
  assumes snd: "sound_db d" and r: "load_effect_receipt d ref = Some r" "rc_status r = Uncertain"
    and op: "resolve_effect_receipt d ref resolution now = Inr (d', commit)"
  obtains (ended) evs rs where "loaded d (rc_execution_id r) evs rs" "rs \<noteq> []"
      "c_revision (er_contract (fo_record (last rs))) = rc_revision r"
      "terminal_outcome (outcome_of (fo_record (last rs)))"
      "db_events d' = db_events d" "db_executions d' = db_executions d" "db_wakes d' = db_wakes d"
      "load_effect_receipt d' ref = Some (resolution_row resolution now r)"
      "ec_receipt commit = resolution_row resolution now r"
  | (woken) p d1 d2 where "pw_execution_id p = rc_execution_id r" "pw_revision p = rc_revision r"
      "pw_condition p = EffectResolution ref" "pw_dedup_key p = dedup_key (EffectResolution ref)"
      "sound_db d1" "db_events d1 = db_events d" "db_executions d1 = db_executions d"
      "deliver_pending_wake d1 p (resolution_payload resolution) now = Inr d2"
      "db_events d' = db_events d2" "db_executions d' = db_executions d2" "db_wakes d' = db_wakes d2"
      "load_effect_receipt d' ref = Some (resolution_row resolution now r)"
      "ec_receipt commit = resolution_row resolution now r"
  using op
proof (cases rule: resolve_cases)
  case (replayed r' n)
  then show thesis
    using r matched_not_uncertain by auto
next
  case (resolved r' ps d1 d2 s n)
  let ?mine = "filter (\<lambda>w. pw_condition w = EffectResolution ref) ps"
  have r': "r' = r"
    using resolved(1) r(1) by simp
  note row = apply_resolution_row [OF resolved(5) r]
  have requeue: "db_events d' = db_events d2" "db_executions d' = db_executions d2"
      "db_wakes d' = db_wakes d2" "db_receipts d' = db_receipts d2"
    using resolved(8) by (auto simp: requeue_blocked_projections_def Let_def)
  show thesis
  proof (cases ?mine)
    case Nil
    then have d2: "d2 = d1" and "verify_terminal_effect_owner d r = Inr ()"
      using resolved(4,6) r' by (simp_all add: check_resolution_wakes_def)
    then obtain evs rs where "loaded d (rc_execution_id r) evs rs" "rs \<noteq> []"
      "c_revision (er_contract (fo_record (last rs))) = rc_revision r"
      "terminal_outcome (outcome_of (fo_record (last rs)))"
      by (auto simp: verify_terminal_effect_owner_def op_simps)
    then show thesis
      by (rule ended) (use d2 row requeue resolved(7,9) load_receipt_cong [OF requeue(4)] in simp_all)
  next
    case (Cons p rest)
    then have rest: "rest = []"
      using resolved(4) by (cases rest) (simp_all add: check_resolution_wakes_def)
    have own: "pw_execution_id p = rc_execution_id r \<and> pw_revision p = rc_revision r"
      using resolved(4) Cons rest r' by (simp add: check_resolution_wakes_def op_simps split: if_splits)
    have "p \<in> set ?mine"
      unfolding Cons by simp
    then have mine: "p \<in> set ps" "pw_condition p = EffectResolution ref"
      by simp_all
    have go: "deliver_pending_wake d1 p (resolution_payload resolution) now = Inr d2"
      using resolved(6) Cons by simp
    obtain w where w: "w \<in> set (db_wakes d)" "p = pending_receipt w"
      using load_pending_rows [OF resolved(3)] mine(1) by (auto simp: pending_rows_def)
    have key: "pw_dedup_key p = dedup_key (EffectResolution ref)"
      using snd w mine(2) backed_canonical by (auto simp: sound_db_def wakes_inv_def pending_receipt_def)
    have "same_journals d d1"
      using row by (simp add: same_journals_def)
    then have snd1: "sound_db d1"
      by (rule sound_same_journals [OF snd _ row(2)])
    then have "db_receipts d2 = db_receipts d1"
      using deliver_receipts go by (simp add: sound_db_def)
    then have "load_effect_receipt d' ref = Some (resolution_row resolution now r)"
      using row(1) load_receipt_cong requeue(4) by metis
    moreover from this have "ec_receipt commit = resolution_row resolution now r"
      using resolved(7,9) load_receipt_cong [OF requeue(4), of ref] by simp
    ultimately show thesis
      by (intro woken [OF _ _ mine(2) key snd1 row(3,4) go requeue(1-3)]) (use own in simp_all)
  qed
qed

text \<open>
  C31: resolving an uncertain effect decides the receipt and wakes its owner together. If the
  owning revision had ended, it stays as it was; otherwise the same transaction opens its next
  revision, whose wake delivers exactly this resolution.
\<close>

theorem resolution_wakes_owner:
  assumes "store_run cmds = Inr d" "load_effect_receipt d ref = Some r" "rc_status r = Uncertain"
    and "resolve_effect_receipt d ref resolution now = Inr (d', commit)"
  shows "load_effect_receipt d' ref = Some (resolution_row resolution now r) \<and>
    ec_receipt commit = resolution_row resolution now r \<and>
    (\<exists>prior. execution d (rc_execution_id r) = Inr (d, Some prior) \<and>
       c_revision (er_contract prior) = rc_revision r \<and>
       (if terminal_outcome (outcome_of prior)
        then execution d' (rc_execution_id r) = Inr (d', Some prior)
        else \<exists>next dl. execution d' (rc_execution_id r) = Inr (d', Some next) \<and>
          resumed_from prior next dl \<and> wd_condition dl = EffectResolution ref \<and>
          wd_payload dl = resolution_payload resolution))"
proof -
  have snd: "sound_db d"
    by (rule store_run_sound [OF assms(1)])
  then have inv: "store_inv d"
    by (simp add: sound_db_def)
  have inv': "store_inv d'"
    using resolve_keeps [OF inv assms(4)] store_keeps_inv by blast
  show ?thesis
    using snd assms(2-4)
  proof (cases rule: resolve_effect)
    case (ended evs rs)
    have "loaded d' (rc_execution_id r) evs rs"
      using ended(1) by (simp add: loaded_cong [OF ended(5)])
    then have "execution d' (rc_execution_id r) = Inr (d', Some (fo_record (last rs)))"
      using latest_of_loaded [OF inv' _ ended(2) loaded_storable(2) [OF ended(1,2)]] by blast
    moreover have "execution d (rc_execution_id r) = Inr (d, Some (fo_record (last rs)))"
      using latest_of_loaded [OF inv ended(1,2) loaded_storable(2) [OF ended(1,2)]] .
    ultimately show ?thesis
      using ended by simp
  next
    case (woken p d1 d2)
    obtain prior nxt where n: "execution d1 (pw_execution_id p) = Inr (d1, Some prior)"
      "c_revision (er_contract prior) = pw_revision p"
      "execution d2 (pw_execution_id p) = Inr (d2, Some nxt)"
      "resumed_from prior nxt (delivery_of p (resolution_payload resolution) now)"
      using sound_delivery_resumes [OF woken(5,8)] by blast
    have invs: "store_inv d1" "store_inv d2"
      using woken(5) deliver_sound [OF woken(5,8)] by (simp_all add: sound_db_def)
    have "execution d (rc_execution_id r) = Inr (d, Some prior)"
      using execution_same [OF invs(1) inv _ n(1)] woken(1,6,7) by (simp add: same_journals_def)
    moreover have "execution d' (rc_execution_id r) = Inr (d', Some nxt)"
      using execution_same [OF invs(2) inv' _ n(3)] woken(1,9,10) by (simp add: same_journals_def)
    moreover have "\<not> terminal_outcome (outcome_of prior)"
      using n(4) by (auto simp: resumed_from_def terminal_outcome_def)
    ultimately show ?thesis
      using n woken by (auto simp: delivery_of_def)
  qed
qed

text \<open>An execution that waits for the decision on its uncertain effect.\<close>

definition sample_wait :: execution_outcome where
  "sample_wait = OutSuspended (EffectResolution sample_ref) sample_checkpoint"

definition sample_wait_outcome :: validated_outcome where
  "sample_wait_outcome = \<lparr>vo_outcome = sample_wait, vo_binding = binding_of sample_contract\<rparr>"

definition sample_uncertain :: effect_receipt where
  "sample_uncertain = (start_row 4 (prepared_row sample_new 4))
     \<lparr>rc_status := Uncertain, rc_effects_json := Some JNull\<rparr>"

definition sample_waiting :: db where
  "sample_waiting = sample_started
     \<lparr>db_receipts := [sample_uncertain],
      db_events := db_events sample_started @
        [sample_event 3 1 3 5 (OutcomeCommitted 1 sample_wait Suspended)],
      db_next_event_id := 4, db_executions := [projection_row (sample_owned
        \<lparr>fo_record := (fo_record sample_owned)
           \<lparr>er_state := Suspended, er_outcome := Some sample_wait_outcome, er_updated_at := 5\<rparr>,
         fo_outcome_committed_at := Some 5\<rparr>)],
      db_wakes := [\<lparr>wk_execution_id = ''e1'', wk_revision = 1,
        wk_dedup_key = dedup_key (EffectResolution sample_ref),
        wk_condition = EffectResolution sample_ref, wk_status = WkPending, wk_delivery = None,
        wk_created_at = 5, wk_delivered_at = None\<rparr>],
      db_outbox := [pending_row (projection_ref ''e1'' 1 CHAT_LIFECYCLE_PROJECTION)
        sample_contract CHAT_LIFECYCLE_PROJECTION 5]\<rparr>"

lemma sample_wait_cases [simp]:
  "(case sample_wait of OutCompleted x y \<Rightarrow> a x y | OutSuspended wk ck \<Rightarrow> f wk ck
     | OutCancelled z \<Rightarrow> b z | OutFailed u \<Rightarrow> c u) = f (EffectResolution sample_ref) sample_checkpoint"
  by (simp add: sample_wait_def)

lemma sample_wait_ok: "validate_outcome sample_wait sample_contract = Inr ()"
  by (simp add: sample_wait_def validate_suspended_iff resumable_checkpoint_def
      sample_checkpoint_def new_checkpoint_def sample_contract_def new_contract_def
      durable_data_ref_parse_def validate_encoded_reference_def strip_prefix_def
      validate_store_id_def is_store_id_byte_def is_digit_def byte_def)

lemma sample_waiting_commit:
  "commit_execution_outcome_with_requirement (sample_started\<lparr>db_receipts := [sample_uncertain]\<rparr>)
     sample_wait_outcome True 5 = Inr (sample_waiting, OutInserted
       ((fo_record sample_owned)\<lparr>er_state := Suspended, er_outcome := Some sample_wait_outcome,
         er_updated_at := 5\<rparr>))"
proof -
  have "state_for_outcome sample_wait = Suspended"
    by (simp add: sample_wait_def)
  then show ?thesis
    by (simp add: commit_execution_outcome_with_requirement_def store_eval sample_defs
        register_suspended_wake_def verify_registered_wake_def sample_waiting_def
        sample_wait_outcome_def sample_wait_ok enqueue_projection_def projector_kind_def sqlite_u64_def)
qed

definition sample_waiting_commands :: "store_command list" where
  "sample_waiting_commands =
     [CreateExecution sample_contract 3, StartAttempt ''e1'' 1 1 ''worker'' 4,
      ReceiptOp (PrepareEffect sample_new 4), ReceiptOp (ClaimEffect sample_ref 4),
      ReceiptOp (MarkUncertain sample_ref JNull), CommitOutcome sample_wait_outcome True 5]"

lemma sample_waiting_run: "store_run sample_waiting_commands = Inr sample_waiting"
proof -
  have none: "db_receipts sample_started = []"
    by (simp add: sample_started_def empty_db_def)
  have "receipt_step sample_started (PrepareEffect sample_new 4) =
      Inr (sample_started\<lparr>db_receipts := [prepared_row sample_new 4]\<rparr>)"
    using none by (simp add: discard_def receipt_eval sample_started_def)
  moreover have "receipt_step (sample_started\<lparr>db_receipts := [prepared_row sample_new 4]\<rparr>)
      (ClaimEffect sample_ref 4) =
      Inr (sample_started\<lparr>db_receipts := [start_row 4 (prepared_row sample_new 4)]\<rparr>)"
    by (simp add: discard_def receipt_eval sample_started_def)
  moreover have "receipt_step (sample_started\<lparr>db_receipts := [start_row 4 (prepared_row sample_new 4)]\<rparr>)
      (MarkUncertain sample_ref JNull) = Inr (sample_started\<lparr>db_receipts := [sample_uncertain]\<rparr>)"
    by (simp add: discard_def receipt_eval sample_started_def mark_effect_receipt_uncertain_def
        settle_receipt_def sample_uncertain_def)
  ultimately show ?thesis
    by (simp add: store_run_def sample_waiting_commands_def discard_def sample_create sample_start
        sample_waiting_commit del: receipt_step.simps)
qed

lemma sample_uncertain_loaded:
  "load_effect_receipt sample_waiting sample_ref = Some sample_uncertain" "rc_status sample_uncertain = Uncertain"
  by (simp_all add: load_effect_receipt_def sample_waiting_def sample_uncertain_def receipt_eval)

lemma sample_waiting_parked:
  "execution sample_waiting ''e1'' = Inr (sample_waiting, Some ((fo_record sample_owned)
     \<lparr>er_state := Suspended, er_outcome := Some sample_wait_outcome, er_updated_at := 5\<rparr>))"
proof -
  have "\<exists>evs. loaded sample_waiting ''e1'' evs [sample_owned
        \<lparr>fo_record := (fo_record sample_owned)
           \<lparr>er_state := Suspended, er_outcome := Some sample_wait_outcome, er_updated_at := 5\<rparr>,
         fo_outcome_committed_at := Some 5\<rparr>]"
    by (simp add: loaded_def store_eval sample_defs sample_waiting_def sample_wait_outcome_def
        sample_wait_ok) (simp add: sample_wait_def)
  then show ?thesis
    using latest_of_loaded [OF store_run_inv [OF sample_waiting_run]] by fastforce
qed

lemma sample_resolve:
  "\<exists>d' c. resolve_effect_receipt sample_waiting sample_ref (Applied JNull JNull) 7 = Inr (d', c)"
proof -
  let ?res = "Applied JNull JNull"
  let ?p = "\<lparr>pw_execution_id = ''e1'', pw_revision = 1,
    pw_dedup_key = dedup_key (EffectResolution sample_ref),
    pw_condition = EffectResolution sample_ref, pw_created_at = 5\<rparr>"
  obtain d1 where d1: "apply_effect_resolution_on sample_waiting sample_ref ?res 7 = (d1, 1)"
    by (simp add: apply_effect_resolution_on_def update_receipt_def sample_waiting_def Let_def
        count_where_def sample_uncertain_def receipt_eval)
  note row = apply_resolution_row [OF d1 sample_uncertain_loaded]
  have same: "same_journals sample_waiting d1"
    using row by (simp add: same_journals_def)
  have snd: "sound_db d1"
    by (rule sound_same_journals [OF store_run_sound [OF sample_waiting_run] same row(2)])
  have pending: "load_pending_wake_receipts sample_waiting = Inr [?p]"
    "load_pending_wake_receipts d1 = Inr [?p]"
    using row(2) by (simp_all add: load_pending_wake_receipts_def sample_waiting_def)
  have tasks: "db_tasks d1 = []"
    using d1 by (auto simp: apply_effect_resolution_on_def update_receipt_def Let_def
        sample_waiting_def sample_started_def empty_db_def)
  have "\<exists>d2. deliver_pending_wake d1 ?p (resolution_payload ?res) 7 = Inr d2"
  proof (rule sound_deliverable [OF snd _ pending(2)])
    show "execution d1 (pw_execution_id ?p) = Inr (d1, Some ((fo_record sample_owned)
        \<lparr>er_state := Suspended, er_outcome := Some sample_wait_outcome, er_updated_at := 5\<rparr>))"
      using execution_same [OF _ _ same sample_waiting_parked] snd
        store_run_inv [OF sample_waiting_run] by (simp add: sound_db_def)
    show "has_room d1 (er_contract ((fo_record sample_owned)
        \<lparr>er_state := Suspended, er_outcome := Some sample_wait_outcome, er_updated_at := 5\<rparr>))"
      using row(3) by (simp add: has_room_def sample_waiting_def sample_defs i64_max_def
          max_seq_def ready_revision_def empty_db_def)
  qed (use tasks in \<open>simp_all add: valid_unix_timestamp_def\<close>)
  then obtain d2 where d2: "deliver_pending_wake d1 ?p (resolution_payload ?res) 7 = Inr d2"
    by blast
  have "load_effect_receipt d2 sample_ref = Some (resolution_row ?res 7 sample_uncertain)"
    using row(1) load_receipt_cong [OF deliver_receipts [OF _ d2]] snd by (simp add: sound_db_def)
  moreover have "\<not> receipt_resolution_matches sample_uncertain ?res"
    using sample_uncertain_loaded(2) by simp
  moreover have "rc_execution_id sample_uncertain = ''e1''" "rc_revision sample_uncertain = 1"
    by (simp_all add: sample_uncertain_def receipt_eval prepared_row_def)
  ultimately show ?thesis
    using sample_uncertain_loaded pending(1) d1 d2
    by (simp add: resolve_effect_receipt_def Let_def check_resolution_wakes_def
        split: prod.split)
qed

theorem resolution_wakes_owner_witness:
  "\<exists>d' next dl. execution d' ''e1'' = Inr (d', Some next) \<and> er_state next = Ready \<and>
     c_wake (er_contract next) = Some dl \<and> wd_condition dl = EffectResolution sample_ref \<and>
     load_effect_receipt d' sample_ref = Some (resolution_row (Applied JNull JNull) 7 sample_uncertain)"
proof -
  obtain d' c where "resolve_effect_receipt sample_waiting sample_ref (Applied JNull JNull) 7 = Inr (d', c)"
    using sample_resolve by blast
  note r = resolution_wakes_owner [OF sample_waiting_run sample_uncertain_loaded this]
  have own: "rc_execution_id sample_uncertain = ''e1''"
    by (simp add: sample_uncertain_def receipt_eval prepared_row_def)
  have "outcome_of ((fo_record sample_owned)
     \<lparr>er_state := Suspended, er_outcome := Some sample_wait_outcome, er_updated_at := 5\<rparr>) =
     Some sample_wait"
    by (simp add: outcome_of_def sample_wait_outcome_def)
  then show ?thesis
    using r own sample_waiting_parked
    by (auto simp: terminal_outcome_def sample_wait_def resumed_from_def)
qed

section \<open>Resolving again\<close>

lemma filter_unique_key:
  "\<lbrakk>distinct (map key t); row_of key k t = Some w\<rbrakk> \<Longrightarrow> filter (\<lambda>r. key r = k) t = [w]"
proof (induction t)
  case (Cons r t)
  have "filter (\<lambda>q. key q = key r) t = []"
    using Cons.prems(1) by (auto simp: filter_empty_conv image_iff)
  with Cons show ?case
    by (auto simp: row_of_Cons split: if_splits)
qed simp

lemma ended_no_wake:
  assumes "sound_db d" "loaded d (rc_execution_id r) evs rs" "rs \<noteq> []"
    "c_revision (er_contract (fo_record (last rs))) = rc_revision r"
    "terminal_outcome (outcome_of (fo_record (last rs)))"
  shows "resolution_wakes d r = []"
proof -
  have "\<not> (wk_execution_id w = rc_execution_id r \<and> wk_revision w = rc_revision r)"
    if "w \<in> set (db_wakes d)" for w
  proof
    assume w: "wk_execution_id w = rc_execution_id r \<and> wk_revision w = rc_revision r"
    then have "wake_backed rs w"
      using assms(1) that journal_of_loaded [OF assms(2)] by (auto simp: sound_db_def wakes_inv_def)
    then show False
      using w revision_at_last [OF assms(2,3)] assms(4,5)
      by (auto simp: wake_backed_def terminal_outcome_def)
  qed
  then show ?thesis
    by (auto simp: resolution_wakes_def filter_empty_conv wake_key_def)
qed

lemma storable_fits:
  "storable c \<Longrightarrow> sqlite_integer_from_store (c_revision c) field = Inr ()"
  by (simp add: sqlite_integer_from_store_def storable_def sql_positive_iff)

lemma resolution_wakes_cong:
  "\<lbrakk>db_wakes d' = db_wakes d; rc_execution_id s = rc_execution_id r; rc_revision s = rc_revision r;
    rc_receipt_ref s = rc_receipt_ref r\<rbrakk> \<Longrightarrow> resolution_wakes d' s = resolution_wakes d r"
  by (simp add: resolution_wakes_def)

lemma resolution_owned:
  assumes snd: "sound_db d" and r: "load_effect_receipt d ref = Some r" "rc_status r = Uncertain"
    and op: "resolve_effect_receipt d ref resolution now = Inr (d', commit)"
  shows "verify_effect_resolution_owner d' (resolution_row resolution now r)
    (resolution_payload resolution) = Inr ()"
  using snd r op
proof (cases rule: resolve_effect)
  case (ended evs rs)
  let ?s = "resolution_row resolution now r"
  have "resolution_wakes d' ?s = []"
    using ended_no_wake [OF snd ended(1-4)] resolution_wakes_cong [OF ended(7), of ?s r] by simp
  moreover have "loaded d' (rc_execution_id r) evs rs"
    using ended(1) by (simp add: loaded_cong [OF ended(5)])
  then have "load_required d' (rc_execution_id r) e = Inr (evs, rs)" for e
    using ended(2) by (simp add: load_required_Inr)
  ultimately show ?thesis
    using ended(2-4) storable_fits [OF loaded_storable(1) [OF ended(1,2)]]
    by (simp add: verify_effect_resolution_owner_def verify_terminal_effect_owner_def latest_def Let_def)
next
  case (woken p d1 d2)
  let ?s = "resolution_row resolution now r" and ?dl = "delivery_of p (resolution_payload resolution) now"
  let ?k = "(pw_execution_id p, pw_revision p, pw_dedup_key p)"
  obtain w prior where w: "row_of wake_key ?k (db_wakes d2) = Some w" "wk_status w = WkDelivered"
      "wk_delivery w = Some ?dl"
    and prior: "execution d1 (pw_execution_id p) = Inr (d1, Some prior)"
      "c_revision (er_contract prior) = pw_revision p"
    using sound_delivery_resumes [OF woken(5,8)] by blast
  have "distinct (map wake_key (db_wakes d2))"
    using deliver_sound [OF woken(5,8)] by (simp add: sound_db_def wakes_inv_def)
  then have "filter (\<lambda>q. wake_key q = ?k) (db_wakes d2) = [w]"
    using w(1) by (rule filter_unique_key)
  then have rows: "resolution_wakes d' ?s = [w]"
    using woken(1-4,11) loaded_receipt_ref [OF r(1)] by (simp add: resolution_wakes_def)
  have "sqlite_integer_from_store (rc_revision r) ''wake revision'' = Inr ()"
  proof -
    obtain evs rs where "loaded d1 (pw_execution_id p) evs rs" "rs \<noteq> []" "prior = fo_record (last rs)"
      using prior(1) by (rule execution_cases) auto
    then show ?thesis
      using storable_fits loaded_storable(1) prior(2) woken(2) by metis
  qed
  then show ?thesis
    using rows w(2,3) woken(3) loaded_receipt_ref [OF r(1)]
    by (simp add: verify_effect_resolution_owner_def verify_delivered_effect_resolution_def Let_def
        delivery_of_def)
qed

text \<open>
  The decision on an effect is idempotent and final. Right after it, deciding the same
  again succeeds with the same receipt and touches no journal, wake or receipt; deciding
  anything else is refused.
\<close>

lemma resolution_is_final:
  assumes "store_run cmds = Inr d" "load_effect_receipt d ref = Some r" "rc_status r = Uncertain"
    and "resolve_effect_receipt d ref resolution now = Inr (d', commit)"
  shows "(\<exists>d2 again. resolve_effect_receipt d' ref resolution later = Inr (d2, again) \<and>
      ec_receipt again = ec_receipt commit \<and> d2 = d'\<lparr>db_outbox := db_outbox d2\<rparr>) \<and>
    (other = resolution \<or> (\<exists>e. resolve_effect_receipt d' ref other later = Inl e))"
proof -
  have snd: "sound_db d"
    by (rule store_run_sound [OF assms(1)])
  let ?s = "resolution_row resolution now r"
  have s: "load_effect_receipt d' ref = Some ?s \<and> ec_receipt commit = ?s"
    using snd assms(2-4) by (rule resolve_effect) simp_all
  note m = resolution_matches [of resolution now r]
  obtain d2 n where q: "requeue_blocked_projections d' ref later = (d2, n)"
    by fastforce
  have "resolve_effect_receipt d' ref resolution later =
      Inr (d2, \<lparr>ec_receipt = ?s, ec_requeued_projections = n\<rparr>)"
    using s m q resolution_owned [OF snd assms(2-4)] by (simp add: resolve_effect_receipt_def Let_def)
  moreover have "other = resolution \<or> (\<exists>e. resolve_effect_receipt d' ref other later = Inl e)"
    using s m matches_unique [OF m] matched_not_uncertain [OF m]
    by (auto simp: resolve_effect_receipt_def Let_def)
  ultimately show ?thesis
    using s requeue_frame [OF q] by auto
qed

lemma resolution_is_final_witness:
  "\<exists>d' commit. resolve_effect_receipt sample_waiting sample_ref (Applied JNull JNull) 7 = Inr (d', commit) \<and>
     (\<exists>e. resolve_effect_receipt d' sample_ref (NotApplied JNull) 9 = Inl e)"
proof -
  obtain d' c where r: "resolve_effect_receipt sample_waiting sample_ref (Applied JNull JNull) 7 = Inr (d', c)"
    using sample_resolve by blast
  from resolution_is_final [OF sample_waiting_run sample_uncertain_loaded this, of 9 "NotApplied JNull"] r
  show ?thesis by auto
qed

end
