(* ===== verification/Compensation.thy ===== *)
theory Compensation
  imports EffectTheorems
begin

text \<open>
  Compensation: a completed effect is undone by at most one execution, and an execution undoes
  at most one effect. The proof keeps the receipts and the compensation links through every
  command of the store.
\<close>

section \<open>Operations that leave receipts and links alone\<close>

definition effects_of :: "db \<Rightarrow> effect_receipt list \<times> compensation_row list" where
  "effects_of d = (db_receipts d, db_compensations d)"

lemma write_effects: "write_projection d f = Inr d' \<Longrightarrow> effects_of d' = effects_of d"
  by (auto simp: write_projection_def res_bind_Inr effects_of_def)

lemma enqueue_effects: "enqueue_projection d c t = Inr d' \<Longrightarrow> effects_of d' = effects_of d"
  by (drule enqueue_frame) (metis effects_of_def db.select_convs(5,6) db.surjective db.update_convs(7))

lemma append_effects: "append_journal_event d eid rvn e now = Inr d' \<Longrightarrow> effects_of d' = effects_of d"
  by (simp add: append_frame effects_of_def)

lemma refresh_effects: "refresh_projection d eid missing = Inr (d', r) \<Longrightarrow> effects_of d' = effects_of d"
  by (erule refresh_Inr) (rule write_effects)

lemma register_effects: "register_suspended_wake d eid rvn out t = Inr d' \<Longrightarrow> effects_of d' = effects_of d"
  by (drule register_frame) (metis effects_of_def db.select_convs(5,6) db.surjective db.update_convs(4))

lemma mark_delivered_effects: "mark_delivered d k dl t = (d', n) \<Longrightarrow> effects_of d' = effects_of d"
  by (auto simp: mark_delivered_def Let_def effects_of_def)

lemma project_task_effects: "project_legacy_task_ready d c t = Inr d' \<Longrightarrow> effects_of d' = effects_of d"
  by (drule project_task_frame) (metis effects_of_def db.select_convs(5,6) db.surjective db.update_convs(8))

lemma requeue_effects: "requeue_blocked_projections d ref now = (d', n) \<Longrightarrow> effects_of d' = effects_of d"
  by (auto simp: requeue_blocked_projections_def Let_def effects_of_def)

lemmas effects_frame = write_effects enqueue_effects append_effects refresh_effects
  register_effects mark_delivered_effects project_task_effects requeue_effects

lemma create_effects:
  assumes "create_execution d c now = Inr (d', r)"
  shows "effects_of d' = effects_of d"
proof (cases "load_validated_journal d (c_execution_id c)")
  case (Inr j)
  with assms show ?thesis
    by (cases j) (auto simp: create_execution_def op_simps dest!: effects_frame)
qed (use assms in \<open>auto simp: create_execution_def op_simps\<close>)

lemma attempt_effects:
  "start_execution_attempt d eid rvn fence owner now = Inr (d', r) \<Longrightarrow> effects_of d' = effects_of d"
  "reclaim_execution_attempt d eid rvn fence nxt owner now = Inr (d', r) \<Longrightarrow> effects_of d' = effects_of d"
  "advance_execution_fence d eid rvn fence nxt now = Inr (d', r) \<Longrightarrow> effects_of d' = effects_of d"
  by (erule start_attempt_cases reclaim_cases advance_cases; auto dest!: effects_frame)+

lemma commit_effects:
  "commit_execution_outcome_with_requirement d v running now = Inr (d', c) \<Longrightarrow>
    effects_of d' = effects_of d"
  by (erule commit_cases) (auto dest!: effects_frame)

lemma continue_effects: "continue_execution_as_new d v nxt now = Inr (d', c) \<Longrightarrow> effects_of d' = effects_of d"
  by (erule continue_cases) (auto dest!: effects_frame)

lemma start_revision_effects:
  "start_execution_revision_on d c = Inr (d', r) \<Longrightarrow> effects_of d' = effects_of d"
  by (erule start_revision_cases) (auto dest!: effects_frame)

lemma execution_effects: "execution d eid = Inr (d', r) \<Longrightarrow> effects_of d' = effects_of d"
  by (erule execution_cases) (auto dest!: effects_frame)

lemma rebuild_effects: "rebuild_execution_projection d eid = Inr (d', r) \<Longrightarrow> effects_of d' = effects_of d"
  by (auto simp: rebuild_execution_projection_def res_bind_Inr dest!: effects_frame)

lemma load_committed_effects: "load_committed d eids = Inr (d', rs) \<Longrightarrow> effects_of d' = effects_of d"
proof (induction eids arbitrary: d rs)
  case (Cons eid eids)
  obtain d1 found d2 r rest where "execution d eid = Inr (d1, found)"
    and "(case found of Some r \<Rightarrow> Inr (d1, r) | None \<Rightarrow> rebuild_execution_projection d1 eid) =
      Inr (d2, r)" and "load_committed d2 eids = Inr (d', rest)"
    using Cons.prems by (fastforce simp: res_bind_Inr if_Inl_Inr)
  with Cons.IH show ?case
    using execution_effects rebuild_effects by (fastforce split: option.splits)
qed simp

lemma deliver_effects: "deliver_pending_wake d p payload t = Inr d' \<Longrightarrow> effects_of d' = effects_of d"
  by (erule deliver_cases) (auto dest!: effects_frame start_revision_effects)

lemma deliver_all_effects: "deliver_all d ps t = Inr (d', n) \<Longrightarrow> effects_of d' = effects_of d"
proof (induction d ps t arbitrary: n rule: deliver_all.induct)
  case (2 d p payload ps t)
  then show ?case
    using deliver_effects by (fastforce simp: res_bind_Inr)
qed simp

text \<open>Everything but the commands on receipts leaves both tables as they are.\<close>

fun touches_receipts :: "store_command \<Rightarrow> bool" where
  "touches_receipts (ResolveEffect ref resolution now) = True"
| "touches_receipts (ResolveOrphaned ref resolution now) = True"
| "touches_receipts (CompensateEffect ref cid now) = True"
| "touches_receipts (ReceiptOp c) = True"
| "touches_receipts cmd = False"

lemma outbox_effects: "outbox_step d c = Inr d' \<Longrightarrow> effects_of d' = effects_of d"
  by (cases c)
    (auto simp: op_simps complete_projection_def retry_projection_def block_projection_def
      renew_projection_claim_def finish_claim_def update_claim_Inr requeue_blocked_projections_def
      claim_projection_def list_case_Inr effects_of_def dest: enqueue_effects [unfolded effects_of_def])

lemma other_effects:
  assumes "store_step d cmd = Inr d'" "\<not> touches_receipts cmd"
  shows "effects_of d' = effects_of d"
proof (cases cmd)
  case (DeliverWake condition payload now)
  with assms(1) show ?thesis
    by (auto simp: discard_Inr deliver_execution_wake_def deliver_execution_wake_with_def op_simps
        dest: deliver_all_effects split: if_splits)
next
  case (DeliverSignal knd cor payload now)
  with assms(1) show ?thesis
    by (auto simp: discard_Inr deliver_execution_signal_def op_simps dest: deliver_all_effects)
next
  case (WakeDue now limit)
  with assms(1) show ?thesis
    by (auto simp: discard_Inr wake_due_executions_def op_simps dest: deliver_all_effects)
next
  case (DiscardWakes eid)
  with assms(1) show ?thesis
    by (auto simp: discard_Inr discard_pending_execution_wakes_def op_simps effects_of_def)
next
  case (ListCommitted limit)
  with assms(1) show ?thesis
    by (auto simp: discard_Inr committed_executions_def dest: load_committed_effects split: if_splits)
qed (use assms in \<open>auto simp: discard_Inr dest: create_effects start_revision_effects attempt_effects
    commit_effects continue_effects execution_effects rebuild_effects outbox_effects\<close>)

section \<open>The links\<close>

definition linked_receipt :: "db \<Rightarrow> effect_receipt_ref \<Rightarrow> bool" where
  "linked_receipt d ref \<longleftrightarrow>
     (\<exists>r. load_effect_receipt d ref = Some r \<and> rc_status r = Compensated)"

definition links_inv :: "db \<Rightarrow> bool" where
  "links_inv d \<longleftrightarrow>
     distinct (map cp_receipt_ref (db_compensations d)) \<and>
     distinct (map cp_execution_id (db_compensations d)) \<and>
     (\<forall>c \<in> set (db_compensations d). linked_receipt d (cp_receipt_ref c))"

definition links_kept :: "db \<Rightarrow> db \<Rightarrow> bool" where
  "links_kept d d' \<longleftrightarrow>
     receipts_extend (db_receipts d) (db_receipts d') \<and>
     (\<exists>more. db_compensations d' = db_compensations d @ more)"

lemma links_kept_refl [simp]: "links_kept d d"
  by (simp add: links_kept_def receipts_extend_def receipt_rows.extends_refl)

lemma links_kept_trans: "\<lbrakk>links_kept a b; links_kept b c\<rbrakk> \<Longrightarrow> links_kept a c"
  using receipt_rows.extends_trans by (fastforce simp: links_kept_def receipts_extend_def)

lemma linked_kept:
  assumes "receipts_extend (db_receipts d) (db_receipts d')" "linked_receipt d ref"
  shows "linked_receipt d' ref"
  using assms table_extendsD
  by (fastforce simp: linked_receipt_def load_effect_receipt_def receipts_extend_def receipt_extends_def)

lemma links_step:
  assumes "links_inv d" "receipts_extend (db_receipts d) (db_receipts d')"
    "db_compensations d' = db_compensations d"
  shows "links_inv d' \<and> links_kept d d'"
  using assms linked_kept [OF assms(2)] by (auto simp: links_inv_def links_kept_def)

lemma compensate_links:
  assumes inv: "links_inv d" and op: "mark_effect_compensated d ref cid now = Inr (d', r)"
  shows "links_inv d' \<and> links_kept d d' \<and> rc_status r = Compensated \<and>
    map_option cp_execution_id (row_of cp_receipt_ref ref (db_compensations d')) = Some cid"
proof -
  obtain r0 where r0: "load_effect_receipt d ref = Some r0"
    using op by (auto simp: mark_effect_compensated_def op_simps)
  show ?thesis
  proof (cases "rc_status r0 = Compensated")
    case True
    with op r0 inv show ?thesis
      by (auto simp: mark_effect_compensated_def op_simps)
  next
    case False
    let ?row = "\<lparr>cp_receipt_ref = ref, cp_execution_id = cid, cp_compensated_at = now\<rparr>"
    let ?d1 = "d\<lparr>db_compensations := db_compensations d @ [?row]\<rparr>"
    have g: "row_of cp_receipt_ref ref (db_compensations d) = None"
        "\<not> list_ex (\<lambda>c. cp_execution_id c = cid) (db_compensations d)"
        "mark_compensated_on ?d1 ref now = (d', 1)" "load_effect_receipt d' ref = Some r"
        "rc_status r0 = EffCompleted"
      using op r0 False
      by (auto simp: mark_effect_compensated_def op_simps case_prod_Inr)
    have ext: "receipts_extend (db_receipts d) (db_receipts d')"
      using update_receipt_keeps [OF g(3) [unfolded mark_compensated_on_def]]
      by (simp add: receipts_keep_def receipt_extends_def effect_known_def)
    have comps: "db_compensations d' = db_compensations d @ [?row]"
      using g(3) by (auto simp: mark_compensated_on_def update_receipt_def Let_def)
    have "load_effect_receipt ?d1 ref = Some r0"
      using r0 by (simp add: load_effect_receipt_def)
    then have fin: "rc_status r = Compensated"
      using load_update_receipt [OF g(3) [unfolded mark_compensated_on_def], of ref] g(4,5)
        loaded_receipt_ref [OF r0] by simp
    have "ref \<notin> cp_receipt_ref ` set (db_compensations d)"
      using g(1) by (auto simp: row_of_None)
    then have "links_inv d'"
      using inv g(2,4) fin linked_kept [OF ext] comps
      by (auto simp: links_inv_def list_ex_iff linked_receipt_def)
    then show ?thesis
      using ext comps fin g(1) by (simp add: links_kept_def row_of_append_None row_of_Cons)
  qed
qed

lemma apply_resolution_links:
  assumes "apply_effect_resolution_on d ref resolution now = (d', n)"
  shows "receipts_extend (db_receipts d) (db_receipts d')" "db_compensations d' = db_compensations d"
proof -
  note upd = assms [unfolded apply_effect_resolution_on_def]
  show "receipts_extend (db_receipts d) (db_receipts d')"
    using update_receipt_keeps [OF upd] resolution_extends by (simp add: receipts_keep_def)
  show "db_compensations d' = db_compensations d"
    using upd by (auto simp: update_receipt_def Let_def)
qed

lemma same_effects_links:
  assumes "links_inv d" "effects_of d' = effects_of d"
  shows "links_inv d' \<and> links_kept d d'"
  by (rule links_step [OF assms(1)])
    (use assms(2) in \<open>simp_all add: effects_of_def receipts_extend_def receipt_rows.extends_refl\<close>)

lemma applied_links:
  assumes "links_inv d" "apply_effect_resolution_on d ref resolution now = (d1, n)"
    "effects_of d' = effects_of d1"
  shows "links_inv d' \<and> links_kept d d'"
proof -
  have "links_inv d1 \<and> links_kept d d1"
    by (rule links_step [OF assms(1) apply_resolution_links [OF assms(2)]])
  then show ?thesis
    using same_effects_links [OF _ assms(3)] links_kept_trans by blast
qed

lemma resolve_links:
  assumes inv: "links_inv d" and op: "resolve_effect_receipt d ref resolution now = Inr (d', c)"
  shows "links_inv d' \<and> links_kept d d'"
  using op
proof (cases rule: resolve_cases)
  case (replayed r n)
  then show ?thesis
    using same_effects_links [OF inv] requeue_effects by blast
next
  case (resolved r ps d1 d2 s n)
  have "effects_of d2 = effects_of d1"
    using resolved(6) deliver_effects by (auto simp: list_case_Inr)
  then have "effects_of d' = effects_of d1"
    using requeue_effects [OF resolved(8)] by simp
  with inv resolved(5) show ?thesis
    by (rule applied_links)
qed

lemma orphaned_links:
  assumes inv: "links_inv d" and op: "resolve_orphaned_effect_receipt d ref resolution now = Inr (d', c)"
  shows "links_inv d' \<and> links_kept d d'"
proof -
  obtain d1 where d1: "d1 = d \<or> (\<exists>n. apply_effect_resolution_on d ref resolution now = (d1, n))"
    and q: "effects_of d' = effects_of d1"
    using op by (auto simp: resolve_orphaned_effect_receipt_def op_simps case_prod_Inr
        split: if_splits dest: requeue_effects)
  then show ?thesis
    using same_effects_links [OF inv] applied_links [OF inv] by blast
qed

lemma receipt_step_compensations:
  assumes "receipt_step d cmd = Inr d'"
  shows "db_compensations d' = db_compensations d"
proof (cases cmd)
  case (PrepareAndClaim nr owner fence now)
  with assms obtain c where "prepare_and_claim_effect_receipt d nr owner fence now = Inr (d', c)"
    by (auto simp: discard_Inr)
  then show ?thesis
    by (rule prepare_and_claim_cases)
      (auto dest!: prepare_Inr elim!: claim_cases simp: insert_receipt_def update_receipt_def Let_def)
next
  case (PrepareAndClaimProjection nr fence claim now)
  with assms obtain c where
    "prepare_and_claim_effect_receipt_for_projection d nr fence claim now = Inr (d', c)"
    by (auto simp: discard_Inr)
  then show ?thesis
    by (rule prepare_and_claim_projection_cases)
      (auto dest!: prepare_Inr elim!: claim_cases simp: insert_receipt_def update_receipt_def Let_def)
qed (use assms in \<open>auto simp: discard_Inr complete_effect_receipt_def
  mark_effect_receipt_uncertain_def release_effect_receipt_not_applied_def settle_receipt_Inr
  apply_effect_resolution_on_def mark_compensated_on_def update_receipt_def Let_def insert_receipt_def
  dest!: prepare_Inr elim!: claim_cases\<close>)

lemma store_step_links:
  assumes inv: "links_inv d" and op: "store_step d cmd = Inr d'"
  shows "links_inv d' \<and> links_kept d d'"
proof (cases "touches_receipts cmd")
  case True
  then show ?thesis
  proof (cases cmd)
    case (ReceiptOp c)
    with op show ?thesis
      using receipt_step_keeps receipt_step_compensations
      by (intro links_step [OF inv]) (auto simp: receipts_keep_def)
  qed (use op inv in \<open>auto simp: discard_Inr dest: resolve_links orphaned_links compensate_links\<close>)
next
  case False
  then show ?thesis
    by (intro same_effects_links [OF inv] other_effects [OF op])
qed

interpretation sl: guarded_system store_step links_inv links_kept
proof unfold_locales
  show "links_inv d'" if "links_inv d" "store_step d cmd = Inr d'" for d cmd d'
    using store_step_links that by blast
  show "links_kept d d'" if "links_inv d" "store_step d cmd = Inr d'" for d cmd d'
    using store_step_links that by blast
qed (use links_kept_trans in auto)

lemma links_empty: "links_inv empty_db"
  by (simp add: links_inv_def empty_db_def)

section \<open>At most one compensation\<close>

text \<open>
  C32: an effect is compensated at most once, for good. After a compensation was recorded, and
  whatever the store did since, the same call still answers with the compensated receipt and
  changes nothing; no other execution can be recorded for the effect, and the same execution
  for no other effect.
\<close>

theorem compensated_once:
  assumes "store_run xs = Inr d" "mark_effect_compensated d ref cid now = Inr (d1, r)"
    and "run_steps store_step d1 ys = Inr d2"
  shows "(\<exists>s. mark_effect_compensated d2 ref cid later = Inr (d2, s) \<and> rc_status s = Compensated) \<and>
    (cid' = cid \<or> (\<exists>e. mark_effect_compensated d2 ref cid' later = Inl e)) \<and>
    (ref' = ref \<or> (\<exists>e. mark_effect_compensated d2 ref' cid later = Inl e))"
proof -
  have "links_inv d"
    using assms(1) unfolding store_run_def by (rule sl.run_inv [OF links_empty])
  note c = compensate_links [OF this assms(2)]
  have inv: "links_inv d2" and ext: "links_kept d1 d2"
    using c sl.run_inv [OF _ assms(3)] sl.run_ext [OF _ assms(3)] by blast+
  obtain row where "row_of cp_receipt_ref ref (db_compensations d1) = Some row" and cid: "cp_execution_id row = cid"
    using c by blast
  then have row: "row_of cp_receipt_ref ref (db_compensations d2) = Some row"
    using ext row_of_append_Some by (fastforce simp: links_kept_def)
  note mine = row_of_Some_in [OF row]
  then obtain s where s: "load_effect_receipt d2 ref = Some s" "rc_status s = Compensated"
    using inv by (auto simp: links_inv_def linked_receipt_def)
  have nonblank: "validated_text cid ''compensation execution id'' = Inr ()"
    using assms(2) by (auto simp: mark_effect_compensated_def op_simps)
  have "mark_effect_compensated d2 ref cid later = Inr (d2, s)"
    using s row cid nonblank by (simp add: mark_effect_compensated_def)
  moreover have "\<exists>e. mark_effect_compensated d2 ref cid' later = Inl e" if "cid' \<noteq> cid"
    using s row cid that
    by (cases "mark_effect_compensated d2 ref cid' later") (auto simp: mark_effect_compensated_def op_simps)
  moreover have "\<exists>e. mark_effect_compensated d2 ref' cid later = Inl e" if "ref' \<noteq> ref"
  proof (cases "mark_effect_compensated d2 ref' cid later")
    case (Inr x)
    then obtain d3 q where op: "mark_effect_compensated d2 ref' cid later = Inr (d3, q)"
      by (cases x) simp
    note l = compensate_links [OF inv op]
    then obtain row' where "row' \<in> set (db_compensations d3)" "cp_receipt_ref row' = ref'"
        "cp_execution_id row' = cid"
      using row_of_Some_in by fastforce
    moreover have "row \<in> set (db_compensations d3)"
      using mine l by (auto simp: links_kept_def)
    ultimately have "row' = row"
      using l cid by (metis links_inv_def distinct_map inj_onD)
    with mine that \<open>cp_receipt_ref row' = ref'\<close> show ?thesis by simp
  qed simp
  ultimately show ?thesis
    using s(2) by blast
qed

text \<open>A completed effect with a recipe, and the completed child that undoes it.\<close>

definition sample_recipe :: new_receipt where
  "sample_recipe = sample_new\<lparr>nr_compensation := Some JNull\<rparr>"

definition sample_undo_commands :: "store_command list" where
  "sample_undo_commands =
     [CreateExecution sample_child 3, StartAttempt ''e2'' 1 1 ''worker'' 4,
      CommitOutcome \<lparr>vo_outcome = OutCompleted JNull None, vo_binding = binding_of sample_child\<rparr> True 5,
      ReceiptOp (PrepareEffect sample_recipe 6), ReceiptOp (ClaimEffect sample_ref 6),
      ReceiptOp (CompleteEffect sample_ref JNull JNull 7)]"

lemma sample_undo_run: "\<exists>d. store_run sample_undo_commands = Inr d \<and>
    (\<exists>d1 r. mark_effect_compensated d sample_ref ''e2'' 8 = Inr (d1, r))"
proof -
  have child: "validated_contract sample_child = Inr sample_child"
    using storable_child by (simp add: validated_contract_Inr)
  show ?thesis
    by (simp add: store_run_def sample_undo_commands_def discard_def create_execution_def store_eval
        child start_execution_attempt_def commit_execution_outcome_with_requirement_def
        register_suspended_wake_def verify_registered_wake_def enqueue_projection_def projector_kind_def
        sqlite_u64_def)
      (simp add: receipt_eval sample_recipe_def prepared_row_def complete_effect_receipt_def
        settle_receipt_def mark_effect_compensated_def mark_compensated_on_def compensates_def
        store_eval child)
qed

theorem compensated_once_witness:
  "\<exists>d d1 r. store_run sample_undo_commands = Inr d \<and>
     mark_effect_compensated d sample_ref ''e2'' 8 = Inr (d1, r) \<and>
     (\<exists>e. mark_effect_compensated d1 sample_ref ''e3'' 9 = Inl e)"
proof -
  obtain d d1 r where run: "store_run sample_undo_commands = Inr d"
    "mark_effect_compensated d sample_ref ''e2'' 8 = Inr (d1, r)"
    using sample_undo_run by blast
  have "\<exists>e. mark_effect_compensated d1 sample_ref ''e3'' 9 = Inl e"
    using compensated_once [OF run, of "[]" d1 9 "''e3''"] by simp
  with run show ?thesis by blast
qed

end
