(* ===== verification/TaskStore.thy ===== *)
theory TaskStore
  imports ExecutionStore
begin

text \<open>
  The task side of \<open>TaskStore\<close>: the tables of tasks, dependencies, resource reservations,
  checkpoints and approvals, and the operations the scheduler and its helpers run on them.

  These operations commit one statement at a time. A caller that fails half-way leaves the
  statements before the failure in place, so a computation returns its result and the database
  it left, also when the result is an error. The clock and the fresh identifiers the code asks
  for are a parameter: their values at each tick.
\<close>

section \<open>The database and the computations on it\<close>

record dependency_row =
  dp_task_id :: string
  dp_depends_on_task_id :: string
  dp_user_id :: string
  dp_workspace_id :: string
  dp_created_at :: int

record reservation_row =
  rs_task_id :: string
  rs_user_id :: string
  rs_workspace_id :: string
  rs_resource_class :: string
  rs_units :: u32
  rs_owner :: string
  rs_created_at :: int

record task_checkpoint =
  tc_checkpoint_id :: string
  tc_task_id :: string
  tc_user_id :: string
  tc_workspace_id :: string
  tc_sequence :: u32
  tc_payload :: json
  tc_redacted_payload :: json
  tc_created_at :: int

datatype approval_status = ApPending | ApApproved | ApRejected

record approval_request =
  ap_approval_id :: string
  ap_task_id :: string
  ap_user_id :: string
  ap_workspace_id :: string
  ap_action :: string
  ap_risk_level :: string
  ap_data_boundary :: string
  ap_explanation :: string
  ap_status :: approval_status
  ap_approver_id :: "string option"
  ap_rejection_reason :: "string option"
  ap_created_at :: int
  ap_updated_at :: int

record approval_row =
  ar_approval_id :: string
  ar_task_id :: string
  ar_user_id :: string
  ar_workspace_id :: string
  ar_status :: approval_status
  ar_created_at :: int
  ar_updated_at :: int
  ar_json :: approval_request

text \<open>A stored checkpoint keeps its time in whole seconds.\<close>

record runtime_db =
  rt_store :: db
  rt_dependencies :: "dependency_row list"
  rt_reservations :: "reservation_row list"
  rt_checkpoints :: "task_checkpoint list"
  rt_approvals :: "approval_row list"
  rt_ticks :: nat

record runtime_env =
  en_now :: "nat \<Rightarrow> int"
  en_uuid :: "nat \<Rightarrow> string"
  en_range_error :: string

text \<open>A computation on a state \<open>'s\<close> with errors \<open>'e\<close>; most of them work on the database above.\<close>

type_synonym ('s, 'e, 'a) computation = "'s \<Rightarrow> ('e + 'a) \<times> 's"

type_synonym 'a rt = "(runtime_db, task_error, 'a) computation"

definition rt_return :: "'a \<Rightarrow> ('s, 'e, 'a) computation" where
  "rt_return x = (\<lambda>s. (Inr x, s))"

definition rt_fail :: "'e \<Rightarrow> ('s, 'e, 'a) computation" where
  "rt_fail e = (\<lambda>s. (Inl e, s))"

definition rt_bind ::
  "('s, 'e, 'a) computation \<Rightarrow> ('a \<Rightarrow> ('s, 'e, 'b) computation) \<Rightarrow> ('s, 'e, 'b) computation" where
  "rt_bind m f = (\<lambda>s. case m s of (Inl e, s') \<Rightarrow> (Inl e, s') | (Inr x, s') \<Rightarrow> f x s')"

definition rt_read :: "('s \<Rightarrow> 'a) \<Rightarrow> ('s, 'e, 'a) computation" where
  "rt_read f = (\<lambda>s. (Inr (f s), s))"

definition rt_modify :: "('s \<Rightarrow> 's) \<Rightarrow> ('s, 'e, unit) computation" where
  "rt_modify g = (\<lambda>s. (Inr (), g s))"

definition rt_lift :: "'e + 'a \<Rightarrow> ('s, 'e, 'a) computation" where
  "rt_lift r = (\<lambda>s. (r, s))"

text \<open>A transaction of the execution store: all of it or nothing.\<close>

definition rt_transaction :: "(db \<Rightarrow> 'a tx) \<Rightarrow> 'a rt" where
  "rt_transaction f =
     (\<lambda>s. case f (rt_store s) of
        Inl e \<Rightarrow> (Inl e, s)
      | Inr (d, x) \<Rightarrow> (Inr x, s\<lparr>rt_store := d\<rparr>))"

text \<open>A \<open>for\<close> loop with an accumulator.\<close>

primrec rt_fold ::
  "('x \<Rightarrow> 'a \<Rightarrow> ('s, 'e, 'a) computation) \<Rightarrow> 'x list \<Rightarrow> 'a \<Rightarrow> ('s, 'e, 'a) computation" where
  "rt_fold f [] a = rt_return a"
| "rt_fold f (x # xs) a = rt_bind (f x a) (rt_fold f xs)"

definition now_utc :: "runtime_env \<Rightarrow> int rt" where
  "now_utc env = (\<lambda>s. (Inr (en_now env (rt_ticks s)), s\<lparr>rt_ticks := Suc (rt_ticks s)\<rparr>))"

definition new_uuid :: "runtime_env \<Rightarrow> string rt" where
  "new_uuid env = (\<lambda>s. (Inr (en_uuid env (rt_ticks s)), s\<lparr>rt_ticks := Suc (rt_ticks s)\<rparr>))"

fun task_error_text :: "task_error \<Rightarrow> string" where
  "task_error_text (NotFound m) = ''not found: '' @ m"
| "task_error_text (InvalidTransition m) = ''invalid transition: '' @ m"
| "task_error_text (Store m) = ''store error: '' @ m"
| "task_error_text (ResourceUnavailable m) = ''resource unavailable: '' @ m"
| "task_error_text (LeaseConflict m) = ''lease conflict: '' @ m"
| "task_error_text (ApprovalRequired m) = ''approval required: '' @ m"
| "task_error_text (Conflict m) = ''conflict: '' @ m"

section \<open>Tasks\<close>

text \<open>
  The columns no statement of the model reads (\<open>workflow_id\<close>, \<open>priority\<close>) are left out; the
  link to a chat thread is not among the inserted columns and survives an update.
\<close>

definition row_of_task :: "task_record \<Rightarrow> task_row" where
  "row_of_task t =
     \<lparr>tk_task_id = t_task_id t, tk_user_id = t_user_id t, tk_workspace_id = t_workspace_id t,
      tk_kind = t_kind t, tk_status = task_status_as_str (t_status t),
      tk_created_at = unix_timestamp (t_created_at t),
      tk_updated_at = unix_timestamp (t_updated_at t),
      tk_blocked_reason = t_blocked_reason t, tk_thread_id = None, tk_json = t\<rparr>"

definition replace_task :: "task_row \<Rightarrow> task_row \<Rightarrow> task_row" where
  "replace_task old new = new\<lparr>tk_thread_id := tk_thread_id old\<rparr>"

interpretation task_table: keyed_table task_key replace_task
  by unfold_locales (simp add: task_key_def replace_task_def)

definition put_task :: "task_record \<Rightarrow> runtime_db \<Rightarrow> runtime_db" where
  "put_task t s = s\<lparr>rt_store := (rt_store s)
     \<lparr>db_tasks := upsert task_key replace_task (row_of_task t) (db_tasks (rt_store s))\<rparr>\<rparr>"

definition insert_task :: "task_record \<Rightarrow> unit rt" where
  "insert_task t = rt_modify (put_task t)"

definition task_at :: "runtime_db \<Rightarrow> string \<times> string \<times> string \<Rightarrow> task_record option" where
  "task_at s k = map_option tk_json (row_of task_key k (db_tasks (rt_store s)))"

definition get_task :: "string \<Rightarrow> string \<Rightarrow> string \<Rightarrow> task_record option rt" where
  "get_task tid uid wid = rt_read (\<lambda>s. task_at s (tid, uid, wid))"

definition get_required_task :: "string \<Rightarrow> string \<Rightarrow> string \<Rightarrow> task_record rt" where
  "get_required_task tid uid wid =
     rt_bind (get_task tid uid wid) (\<lambda>t. rt_lift (ok_or (NotFound tid) t))"

definition update_task_status ::
  "runtime_env \<Rightarrow> string \<Rightarrow> string \<Rightarrow> string \<Rightarrow> task_status \<Rightarrow> string option \<Rightarrow> unit rt" where
  "update_task_status env tid uid wid status reason =
     rt_bind (get_required_task tid uid wid) (\<lambda>t.
     rt_bind (now_utc env) (\<lambda>now.
     insert_task (t\<lparr>t_status := status, t_blocked_reason := reason, t_updated_at := now\<rparr>)))"

definition tasks_for_user_by_id :: "string \<Rightarrow> string \<Rightarrow> task_record list rt" where
  "tasks_for_user_by_id tid uid =
     rt_read (\<lambda>s. map tk_json (sort_key (\<lambda>r. (- tk_updated_at r, tk_workspace_id r))
       (filter (\<lambda>r. tk_task_id r = tid \<and> tk_user_id r = uid) (db_tasks (rt_store s)))))"

definition non_terminal_workspace_ids :: "string \<Rightarrow> string list rt" where
  "non_terminal_workspace_ids uid =
     rt_read (\<lambda>s. sort (remdups (map tk_workspace_id
       (filter (\<lambda>r. tk_user_id r = uid \<and>
          tk_status r \<notin> {''completed'', ''failed'', ''cancelled'', ''expired''})
        (db_tasks (rt_store s))))))"

definition tasks_in :: "runtime_db \<Rightarrow> string \<Rightarrow> string \<Rightarrow> task_record list" where
  "tasks_in s uid wid =
     map tk_json (sort_key (\<lambda>r. (tk_created_at r, tk_task_id r))
       (filter (\<lambda>r. tk_user_id r = uid \<and> tk_workspace_id r = wid) (db_tasks (rt_store s))))"

definition list_tasks :: "string \<Rightarrow> string \<Rightarrow> task_record list rt" where
  "list_tasks uid wid = rt_read (\<lambda>s. tasks_in s uid wid)"

definition link_task_to_thread :: "string \<Rightarrow> string \<Rightarrow> string \<Rightarrow> string \<Rightarrow> bool rt" where
  "link_task_to_thread tid uid wid thread =
     (\<lambda>s. let P = (\<lambda>r. task_key r = (tid, uid, wid)) in
        (Inr (0 < count_where P (db_tasks (rt_store s))),
         s\<lparr>rt_store := (rt_store s)\<lparr>db_tasks :=
           update_where P (\<lambda>r. r\<lparr>tk_thread_id := Some thread\<rparr>) (db_tasks (rt_store s))\<rparr>\<rparr>))"

section \<open>Dependencies\<close>

definition dependency_key :: "dependency_row \<Rightarrow> string \<times> string \<times> string \<times> string" where
  "dependency_key r = (dp_task_id r, dp_depends_on_task_id r, dp_user_id r, dp_workspace_id r)"

definition add_dependency ::
  "runtime_env \<Rightarrow> string \<Rightarrow> string \<Rightarrow> string \<Rightarrow> string \<Rightarrow> unit rt" where
  "add_dependency env tid dep uid wid =
     rt_bind (now_utc env) (\<lambda>now.
     rt_modify (\<lambda>s. s\<lparr>rt_dependencies := upsert dependency_key (\<lambda>old new. old)
       \<lparr>dp_task_id = tid, dp_depends_on_task_id = dep, dp_user_id = uid, dp_workspace_id = wid,
        dp_created_at = unix_timestamp now\<rparr> (rt_dependencies s)\<rparr>))"

definition dependencies_of :: "runtime_db \<Rightarrow> string \<Rightarrow> string \<Rightarrow> string \<Rightarrow> string list" where
  "dependencies_of s tid uid wid =
     map dp_depends_on_task_id (sort_key (\<lambda>r. (dp_created_at r, dp_depends_on_task_id r))
       (filter (\<lambda>r. dp_task_id r = tid \<and> dp_user_id r = uid \<and> dp_workspace_id r = wid)
         (rt_dependencies s)))"

definition dependencies_for :: "string \<Rightarrow> string \<Rightarrow> string \<Rightarrow> string list rt" where
  "dependencies_for tid uid wid = rt_read (\<lambda>s. dependencies_of s tid uid wid)"

section \<open>Resource reservations\<close>

definition reservation_key :: "reservation_row \<Rightarrow> (string \<times> string \<times> string) \<times> string" where
  "reservation_key r = ((rs_task_id r, rs_user_id r, rs_workspace_id r), rs_resource_class r)"

interpretation reservation_table: keyed_table reservation_key "\<lambda>old new. new"
  by unfold_locales simp

definition owner_key :: "task_record \<Rightarrow> string \<times> string \<times> string" where
  "owner_key t = (t_task_id t, t_user_id t, t_workspace_id t)"

definition reserve_one ::
  "runtime_env \<Rightarrow> task_record \<Rightarrow> string \<Rightarrow> task_resource_requirement \<Rightarrow> unit \<Rightarrow> unit rt" where
  "reserve_one env t owner q u =
     rt_bind (now_utc env) (\<lambda>now.
     rt_modify (\<lambda>s. s\<lparr>rt_reservations := upsert reservation_key (\<lambda>old new. new)
       \<lparr>rs_task_id = t_task_id t, rs_user_id = t_user_id t, rs_workspace_id = t_workspace_id t,
        rs_resource_class = resource_class_as_str (tr_class q), rs_units = tr_units q,
        rs_owner = owner, rs_created_at = unix_timestamp now\<rparr> (rt_reservations s)\<rparr>))"

definition reserve_resources :: "runtime_env \<Rightarrow> task_record \<Rightarrow> string \<Rightarrow> unit rt" where
  "reserve_resources env t owner = rt_fold (reserve_one env t owner) (t_resource_requirements t) ()"

definition held_by_task :: "task_record \<Rightarrow> reservation_row \<Rightarrow> bool" where
  "held_by_task t r \<longleftrightarrow> fst (reservation_key r) = owner_key t"

definition release_resources :: "task_record \<Rightarrow> unit rt" where
  "release_resources t =
     rt_modify (\<lambda>s. s\<lparr>rt_reservations := delete_where (held_by_task t) (rt_reservations s)\<rparr>)"

definition has_resource_reservation :: "task_record \<Rightarrow> bool rt" where
  "has_resource_reservation t = rt_read (\<lambda>s. list_ex (held_by_task t) (rt_reservations s))"

text \<open>\<open>SUM(units)\<close> as an \<open>i64\<close>, then \<open>as u32\<close>.\<close>

definition units_of :: "reservation_row list \<Rightarrow> nat" where
  "units_of t = sum_list (map (\<lambda>r. unat (rs_units r)) t)"

definition class_rows :: "runtime_db \<Rightarrow> string \<Rightarrow> string \<Rightarrow> resource_class \<Rightarrow> reservation_row list" where
  "class_rows s uid wid cls =
     filter (\<lambda>r. rs_user_id r = uid \<and> rs_workspace_id r = wid \<and>
       rs_resource_class r = resource_class_as_str cls) (rt_reservations s)"

definition resource_usage :: "string \<Rightarrow> string \<Rightarrow> resource_class \<Rightarrow> u32 rt" where
  "resource_usage uid wid cls = rt_read (\<lambda>s. word_of_nat (units_of (class_rows s uid wid cls)))"

definition resource_usage_for_task :: "task_record \<Rightarrow> resource_class \<Rightarrow> u32 rt" where
  "resource_usage_for_task t cls =
     rt_read (\<lambda>s. word_of_nat (units_of (filter (\<lambda>r. rs_task_id r = t_task_id t)
       (class_rows s (t_user_id t) (t_workspace_id t) cls))))"

section \<open>Checkpoints\<close>

definition checkpoints_of :: "runtime_db \<Rightarrow> string \<Rightarrow> string \<Rightarrow> string \<Rightarrow> task_checkpoint list" where
  "checkpoints_of s tid uid wid =
     filter (\<lambda>c. tc_task_id c = tid \<and> tc_user_id c = uid \<and> tc_workspace_id c = wid) (rt_checkpoints s)"

definition next_checkpoint_sequence :: "string \<Rightarrow> string \<Rightarrow> string \<Rightarrow> u32 rt" where
  "next_checkpoint_sequence tid uid wid =
     rt_read (\<lambda>s. word_of_nat (foldr max (map (\<lambda>c. unat (tc_sequence c)) (checkpoints_of s tid uid wid)) 0) + 1)"

definition append_checkpoint ::
  "runtime_env \<Rightarrow> string \<Rightarrow> string \<Rightarrow> string \<Rightarrow> json \<Rightarrow> json \<Rightarrow> task_checkpoint rt" where
  "append_checkpoint env tid uid wid payload redacted =
     rt_bind (next_checkpoint_sequence tid uid wid) (\<lambda>sequence.
     rt_bind (new_uuid env) (\<lambda>cid.
     rt_bind (now_utc env) (\<lambda>now.
     let c = \<lparr>tc_checkpoint_id = cid, tc_task_id = tid, tc_user_id = uid, tc_workspace_id = wid,
          tc_sequence = sequence, tc_payload = payload, tc_redacted_payload = redacted,
          tc_created_at = now\<rparr> in
     rt_bind (rt_read (\<lambda>s. list_ex (\<lambda>q. tc_checkpoint_id q = cid) (rt_checkpoints s))) (\<lambda>taken.
     if taken then rt_fail (Store ''UNIQUE constraint failed: task_checkpoints.checkpoint_id'')
     else rt_bind (rt_modify (\<lambda>s. s\<lparr>rt_checkpoints := rt_checkpoints s @
          [c\<lparr>tc_created_at := unix_timestamp now\<rparr>]\<rparr>)) (\<lambda>_.
     rt_bind (get_task tid uid wid) (\<lambda>found.
     rt_bind (case found of
         None \<Rightarrow> rt_return ()
       | Some t \<Rightarrow> insert_task (t\<lparr>t_checkpoint_json := Some redacted, t_updated_at := now\<rparr>)) (\<lambda>_.
     rt_return c)))))))"

definition latest_checkpoint ::
  "runtime_env \<Rightarrow> string \<Rightarrow> string \<Rightarrow> string \<Rightarrow> task_checkpoint option rt" where
  "latest_checkpoint env tid uid wid =
     rt_bind (rt_read (\<lambda>s. sort_key (\<lambda>c. - int (unat (tc_sequence c))) (checkpoints_of s tid uid wid)))
       (\<lambda>cs. case cs of
          [] \<Rightarrow> rt_return None
        | c # _ \<Rightarrow>
            if valid_unix_timestamp (tc_created_at c)
              then rt_return (Some (c\<lparr>tc_created_at := tc_created_at c * NANOS\<rparr>))
            else rt_fail (Store (en_range_error env)))"

section \<open>Approvals\<close>

definition row_of_approval :: "approval_request \<Rightarrow> approval_row" where
  "row_of_approval a =
     \<lparr>ar_approval_id = ap_approval_id a, ar_task_id = ap_task_id a, ar_user_id = ap_user_id a,
      ar_workspace_id = ap_workspace_id a, ar_status = ap_status a,
      ar_created_at = unix_timestamp (ap_created_at a),
      ar_updated_at = unix_timestamp (ap_updated_at a), ar_json = a\<rparr>"

definition replace_approval :: "approval_row \<Rightarrow> approval_row \<Rightarrow> approval_row" where
  "replace_approval old new =
     old\<lparr>ar_status := ar_status new, ar_updated_at := ar_updated_at new, ar_json := ar_json new\<rparr>"

interpretation approval_table: keyed_table ar_approval_id replace_approval
  by unfold_locales (simp add: replace_approval_def)

definition insert_approval :: "approval_request \<Rightarrow> unit rt" where
  "insert_approval a =
     rt_modify (\<lambda>s. s\<lparr>rt_approvals :=
       upsert ar_approval_id replace_approval (row_of_approval a) (rt_approvals s)\<rparr>)"

definition approval_by_id :: "string \<Rightarrow> approval_request option rt" where
  "approval_by_id aid =
     rt_read (\<lambda>s. map_option ar_json (row_of ar_approval_id aid (rt_approvals s)))"

definition latest_approval :: "string \<Rightarrow> string \<Rightarrow> string \<Rightarrow> approval_request option rt" where
  "latest_approval tid uid wid =
     rt_read (\<lambda>s. case rev (sort_key (\<lambda>r. (ar_created_at r, ar_approval_id r))
         (filter (\<lambda>r. ar_task_id r = tid \<and> ar_user_id r = uid \<and> ar_workspace_id r = wid)
           (rt_approvals s))) of
        [] \<Rightarrow> None
      | r # _ \<Rightarrow> Some (ar_json r))"

end
