(* ===== verification/Scheduler.thy ===== *)
theory Scheduler
  imports TaskStore
begin

text \<open>
  The scheduler and its helpers: which tasks are ready, which are blocked or overdue, the
  leases that give a task to one worker, the governor of the resource limits, the retry
  controller and the approval gate.
\<close>

section \<open>Readiness\<close>

fun dispatchable :: "task_status \<Rightarrow> bool" where
  "dispatchable TQueued = True"
| "dispatchable TPending = True"
| "dispatchable st = False"

definition passed :: "int option \<Rightarrow> int \<Rightarrow> bool" where
  "passed bound now = (case bound of Some e \<Rightarrow> e \<le> now | None \<Rightarrow> False)"

definition overdue_reason :: "task_record \<Rightarrow> int \<Rightarrow> string option" where
  "overdue_reason t now =
     (if passed (t_expires_at t) now
        then Some ''task expired: past expires_at (not started in time)''
      else if passed (t_deadline t) now
        then Some ''task expired: past deadline (cannot complete in time)''
      else None)"

fun all_completed :: "runtime_db \<Rightarrow> string \<Rightarrow> string \<Rightarrow> string list \<Rightarrow> bool" where
  "all_completed s uid wid [] = True"
| "all_completed s uid wid (dep # deps) =
     (case task_at s (dep, uid, wid) of
        None \<Rightarrow> False
      | Some t \<Rightarrow> if t_status t \<noteq> TCompleted then False else all_completed s uid wid deps)"

definition dependencies_completed :: "runtime_db \<Rightarrow> task_record \<Rightarrow> string \<Rightarrow> string \<Rightarrow> bool" where
  "dependencies_completed s t uid wid =
     all_completed s uid wid (dependencies_of s (t_task_id t) uid wid)"

definition is_ready :: "runtime_db \<Rightarrow> string \<Rightarrow> string \<Rightarrow> int \<Rightarrow> task_record \<Rightarrow> bool" where
  "is_ready s uid wid now t \<longleftrightarrow>
     dispatchable (t_status t) \<and>
     \<not> (case t_not_before t of Some n \<Rightarrow> now < n | None \<Rightarrow> False) \<and>
     overdue_reason t now = None \<and>
     dependencies_completed s t uid wid"

text \<open>Higher priority first, then the older task, then the smaller id.\<close>

definition ready_order :: "task_record \<Rightarrow> nat \<times> int \<times> string" where
  "ready_order t = (4 - priority_rank (t_priority t), t_created_at t, t_task_id t)"

definition ready_tasks_in :: "runtime_db \<Rightarrow> string \<Rightarrow> string \<Rightarrow> int \<Rightarrow> nat option \<Rightarrow> task_record list" where
  "ready_tasks_in s uid wid now limit =
     (let candidates = sort_key ready_order (filter (is_ready s uid wid now) (tasks_in s uid wid)) in
      case limit of None \<Rightarrow> candidates | Some n \<Rightarrow> take n candidates)"

text \<open>The limit \<open>usize::MAX\<close> truncates nothing: it is \<open>None\<close>.\<close>

definition ready_tasks :: "string \<Rightarrow> string \<Rightarrow> int \<Rightarrow> nat option \<Rightarrow> task_record list rt" where
  "ready_tasks uid wid now limit = rt_read (\<lambda>s. ready_tasks_in s uid wid now limit)"

definition wake_due :: "int \<Rightarrow> nat rt" where
  "wake_due now =
     (\<lambda>s. rt_transaction (\<lambda>d. wake_due_executions d now (length (db_wakes d))) s)"

definition ready_tasks_for_user :: "string \<Rightarrow> int \<Rightarrow> nat option \<Rightarrow> task_record list rt" where
  "ready_tasks_for_user uid now limit =
     rt_bind (wake_due now) (\<lambda>_.
     rt_bind (non_terminal_workspace_ids uid) (\<lambda>wids.
     rt_bind (rt_fold (\<lambda>wid acc. rt_bind (ready_tasks uid wid now limit) (\<lambda>ts. rt_return (acc @ ts)))
       wids []) (\<lambda>candidates.
     let sorted = sort_key ready_order candidates in
     rt_return (case limit of None \<Rightarrow> sorted | Some n \<Rightarrow> take n sorted))))"

section \<open>Blocked and overdue tasks\<close>

fun failed_for_good :: "task_status \<Rightarrow> bool" where
  "failed_for_good TFailed = True"
| "failed_for_good TCancelled = True"
| "failed_for_good TExpired = True"
| "failed_for_good st = False"

fun block_on :: "runtime_env \<Rightarrow> task_record \<Rightarrow> string \<Rightarrow> string \<Rightarrow> string list \<Rightarrow> unit rt" where
  "block_on env t uid wid [] = rt_return ()"
| "block_on env t uid wid (dep # deps) =
     rt_bind (get_task dep uid wid) (\<lambda>found.
       case found of
         None \<Rightarrow> block_on env t uid wid deps
       | Some d \<Rightarrow>
           if failed_for_good (t_status d)
             then update_task_status env (t_task_id t) uid wid TWaitingExternalEvent
               (Some (''dependency '' @ t_task_id d @ '' is '' @ task_status_as_str (t_status d)))
           else block_on env t uid wid deps)"

definition mark_blocked_by_terminal_dependencies ::
  "runtime_env \<Rightarrow> string \<Rightarrow> string \<Rightarrow> unit rt" where
  "mark_blocked_by_terminal_dependencies env uid wid =
     rt_bind (list_tasks uid wid) (\<lambda>ts.
     rt_fold (\<lambda>t _.
       if \<not> dispatchable (t_status t) then rt_return ()
       else rt_bind (dependencies_for (t_task_id t) uid wid) (block_on env t uid wid)) ts ())"

fun expirable :: "task_status \<Rightarrow> bool" where
  "expirable TQueued = True"
| "expirable TPending = True"
| "expirable TWaitingTime = True"
| "expirable TWaitingExternalEvent = True"
| "expirable TWaitingResource = True"
| "expirable st = False"

definition expire_overdue_tasks :: "runtime_env \<Rightarrow> string \<Rightarrow> string \<Rightarrow> int \<Rightarrow> nat rt" where
  "expire_overdue_tasks env uid wid now =
     rt_bind (list_tasks uid wid) (\<lambda>ts.
     rt_fold (\<lambda>t expired.
       if \<not> expirable (t_status t) then rt_return expired
       else case overdue_reason t now of
          None \<Rightarrow> rt_return expired
        | Some reason \<Rightarrow>
            rt_bind (update_task_status env (t_task_id t) uid wid TExpired (Some reason))
              (\<lambda>_. rt_return (Suc expired))) ts 0)"

section \<open>Leases\<close>

record lease_ownership =
  lo_owner :: string
  lo_fencing_token :: u64

definition acquire_lease ::
  "int \<Rightarrow> string \<Rightarrow> string \<Rightarrow> string \<Rightarrow> string \<Rightarrow> int \<Rightarrow> bool rt" where
  "acquire_lease duration tid uid wid owner now =
     rt_bind (get_required_task tid uid wid) (\<lambda>t.
     if (case t_lease_expires_at t of Some e \<Rightarrow> now < e | None \<Rightarrow> False) then rt_return False
     else rt_bind (rt_lift (ok_or
         (InvalidTransition ''lease acquisition timestamp cannot be used as a fence'')
         (u64_try_from now))) (\<lambda>fence.
       rt_bind (insert_task (t\<lparr>t_status := TRunning, t_lease_owner := Some owner,
         t_last_heartbeat_at := Some now, t_lease_expires_at := Some (now + duration),
         t_lease_fencing_token := Some fence, t_updated_at := now\<rparr>)) (\<lambda>_.
       rt_return True)))"

definition heartbeat ::
  "int \<Rightarrow> string \<Rightarrow> string \<Rightarrow> string \<Rightarrow> lease_ownership \<Rightarrow> int \<Rightarrow> unit rt" where
  "heartbeat duration tid uid wid ownership now =
     rt_bind (get_required_task tid uid wid) (\<lambda>t.
     if t_lease_owner t \<noteq> Some (lo_owner ownership) \<or>
         effective_lease_fencing_token t \<noteq> Some (lo_fencing_token ownership)
       then rt_fail (LeaseConflict (''task '' @ tid @ '' lease generation is not owned by '' @
         lo_owner ownership))
     else insert_task (t\<lparr>t_last_heartbeat_at := Some now,
       t_lease_expires_at := Some (now + duration), t_updated_at := now\<rparr>))"

definition recover_stale_leases :: "string \<Rightarrow> string \<Rightarrow> int \<Rightarrow> string list rt" where
  "recover_stale_leases uid wid now =
     rt_bind (list_tasks uid wid) (\<lambda>ts.
     rt_fold (\<lambda>t recovered.
       if t_status t \<noteq> TRunning then rt_return recovered
       else if (case t_lease_expires_at t of None \<Rightarrow> True | Some e \<Rightarrow> now < e)
         then rt_return recovered
       else rt_bind (release_resources t) (\<lambda>_.
         rt_bind (insert_task ((clear_lease (t\<lparr>t_status := TQueued\<rparr>))
           \<lparr>t_blocked_reason := Some ''stale lease recovered'', t_updated_at := now\<rparr>)) (\<lambda>_.
         rt_return (recovered @ [t_task_id t])))) ts [])"

section \<open>Resource limits\<close>

type_synonym resource_limits = "resource_class \<Rightarrow> u32 option"

definition with_limit :: "resource_class \<Rightarrow> u32 \<Rightarrow> resource_limits \<Rightarrow> resource_limits" where
  "with_limit cls units limits = limits(cls \<mapsto> units)"

definition conservative_defaults :: resource_limits where
  "conservative_defaults =
     with_limit BackgroundMaintenance 1 (with_limit ShellProcess 2 (with_limit ComputerSession 1
     (with_limit ConnectorApi 4 (with_limit NetworkIo 4 (with_limit FilesystemIo 2
     (with_limit MemoryIndexing 1 (with_limit GraphIndexing 1 (with_limit BrowserSession 1
     (with_limit LlmInference 1 Map.empty)))))))))"

definition saturating_sub :: "u32 \<Rightarrow> u32 \<Rightarrow> u32" where
  "saturating_sub a b = (if b \<le> a then a - b else 0)"

fun unavailable_among ::
  "resource_limits \<Rightarrow> task_record \<Rightarrow> task_resource_requirement list \<Rightarrow> string option rt" where
  "unavailable_among limits t [] = rt_return None"
| "unavailable_among limits t (q # qs) =
     (case limits (tr_class q) of
        None \<Rightarrow> unavailable_among limits t qs
      | Some limit \<Rightarrow>
          rt_bind (resource_usage (t_user_id t) (t_workspace_id t) (tr_class q)) (\<lambda>total_used.
          rt_bind (resource_usage_for_task t (tr_class q)) (\<lambda>own_units.
          let available = saturating_sub limit (saturating_sub total_used own_units) in
          if available < tr_units q
            then rt_return (Some (''resource '' @ resource_class_as_str (tr_class q) @ '' requires '' @
              show_nat (unat (tr_units q)) @ '' units but only '' @ show_nat (unat available) @
              '' available''))
          else unavailable_among limits t qs)))"

definition unavailable_reason :: "resource_limits \<Rightarrow> task_record \<Rightarrow> string option rt" where
  "unavailable_reason limits t = unavailable_among limits t (t_resource_requirements t)"

definition mark_waiting_if_unavailable :: "runtime_env \<Rightarrow> resource_limits \<Rightarrow> task_record \<Rightarrow> bool rt" where
  "mark_waiting_if_unavailable env limits t =
     rt_bind (unavailable_reason limits t) (\<lambda>reason.
       case reason of
         Some why \<Rightarrow>
           rt_bind (update_task_status env (t_task_id t) (t_user_id t) (t_workspace_id t)
             TWaitingResource (Some why)) (\<lambda>_. rt_return True)
       | None \<Rightarrow> rt_return False)"

definition requeue_waiting_if_available :: "runtime_env \<Rightarrow> resource_limits \<Rightarrow> task_record \<Rightarrow> bool rt" where
  "requeue_waiting_if_available env limits t =
     (if t_status t \<noteq> TWaitingResource then rt_return False
      else rt_bind (unavailable_reason limits t) (\<lambda>reason.
        if reason \<noteq> None then rt_return False
        else rt_bind (update_task_status env (t_task_id t) (t_user_id t) (t_workspace_id t)
          TQueued None) (\<lambda>_. rt_return True)))"

section \<open>Retries\<close>

definition failed_attempt :: "task_record \<Rightarrow> string \<Rightarrow> int \<Rightarrow> task_record" where
  "failed_attempt t reason now =
     (let u = (clear_lease (t\<lparr>t_attempt_count := t_attempt_count t + 1\<rparr>))
          \<lparr>t_blocked_reason := Some reason, t_updated_at := now\<rparr> in
      if t_attempt_count u < rp_max_attempts (t_retry_policy u)
        then u\<lparr>t_status := TWaitingTime,
          t_not_before := Some (now + rp_backoff_seconds (t_retry_policy u) * NANOS)\<rparr>
      else u\<lparr>t_status := TFailed, t_not_before := None\<rparr>)"

definition record_failure :: "string \<Rightarrow> string \<Rightarrow> string \<Rightarrow> string \<Rightarrow> int \<Rightarrow> unit rt" where
  "record_failure tid uid wid reason now =
     rt_bind (get_required_task tid uid wid) (\<lambda>t.
     rt_bind (release_resources (failed_attempt t reason now)) (\<lambda>_.
     insert_task (failed_attempt t reason now)))"

section \<open>Approvals\<close>

definition new_approval ::
  "string \<Rightarrow> string \<Rightarrow> string \<Rightarrow> string \<Rightarrow> string \<Rightarrow> string \<Rightarrow> string \<Rightarrow> string \<Rightarrow> int \<Rightarrow> approval_request" where
  "new_approval aid tid uid wid action risk boundary explanation now =
     \<lparr>ap_approval_id = aid, ap_task_id = tid, ap_user_id = uid, ap_workspace_id = wid,
      ap_action = action, ap_risk_level = risk, ap_data_boundary = boundary,
      ap_explanation = explanation, ap_status = ApPending, ap_approver_id = None,
      ap_rejection_reason = None, ap_created_at = now, ap_updated_at = now\<rparr>"

definition request_approval ::
  "runtime_env \<Rightarrow> string \<Rightarrow> string \<Rightarrow> string \<Rightarrow> string \<Rightarrow> string \<Rightarrow> string \<Rightarrow> string \<Rightarrow> approval_request rt" where
  "request_approval env tid uid wid action risk boundary explanation =
     rt_bind (new_uuid env) (\<lambda>aid.
     rt_bind (now_utc env) (\<lambda>now.
     let a = new_approval aid tid uid wid action risk boundary explanation now in
     rt_bind (insert_approval a) (\<lambda>_.
     rt_bind (update_task_status env tid uid wid TWaitingUserApproval
       (Some (''approval required: '' @ action))) (\<lambda>_. rt_return a))))"

definition approve :: "runtime_env \<Rightarrow> string \<Rightarrow> string \<Rightarrow> unit rt" where
  "approve env aid approver =
     rt_bind (approval_by_id aid) (\<lambda>found.
     rt_bind (rt_lift (ok_or (NotFound aid) found)) (\<lambda>a.
     rt_bind (now_utc env) (\<lambda>now.
     rt_bind (insert_approval (a\<lparr>ap_status := ApApproved, ap_approver_id := Some approver,
       ap_updated_at := now\<rparr>)) (\<lambda>_.
     update_task_status env (ap_task_id a) (ap_user_id a) (ap_workspace_id a) TQueued None))))"

definition reject :: "runtime_env \<Rightarrow> string \<Rightarrow> string \<Rightarrow> string \<Rightarrow> unit rt" where
  "reject env aid approver reason =
     rt_bind (approval_by_id aid) (\<lambda>found.
     rt_bind (rt_lift (ok_or (NotFound aid) found)) (\<lambda>a.
     rt_bind (now_utc env) (\<lambda>now.
     rt_bind (insert_approval (a\<lparr>ap_status := ApRejected, ap_approver_id := Some approver,
       ap_rejection_reason := Some reason, ap_updated_at := now\<rparr>)) (\<lambda>_.
     update_task_status env (ap_task_id a) (ap_user_id a) (ap_workspace_id a) TCancelled
       (Some (''approval rejected: '' @ reason))))))"

end
