(* ===== verification/Recurrence.thy ===== *)
theory Recurrence
  imports Database
begin

text \<open>
  Recurrence rules: the parser of interval and calendar rules, and the next occurrence of a
  rule after a moment. Time zones and calendar arithmetic come from the \<open>jiff\<close> package, which
  is a parameter: the operations the code calls on its zoned slots.

  Moments are nanoseconds since the Unix epoch. The dates of the \<open>time\<close> package end with the
  year 9999; the arithmetic here does not.
\<close>

section \<open>Text\<close>

definition ascii_lower :: "string \<Rightarrow> string" where
  "ascii_lower s =
     map (\<lambda>c. if 65 \<le> byte c \<and> byte c \<le> 90 then char_of (byte c + 32) else c) s"

definition skip_seps :: "string \<Rightarrow> string" where
  "skip_seps s = dropWhile (\<lambda>c. c = CHR ''@'' \<or> c = CHR '' '') s"

definition split_at :: "(char \<Rightarrow> bool) \<Rightarrow> string \<Rightarrow> (string \<times> string) option" where
  "split_at P s =
     (case dropWhile (\<lambda>c. \<not> P c) s of
        [] \<Rightarrow> None
      | _ # rest \<Rightarrow> Some (takeWhile (\<lambda>c. \<not> P c) s, rest))"

fun split_commas :: "string \<Rightarrow> string list" where
  "split_commas [] = [[]]"
| "split_commas (c # s) =
     (if c = CHR '','' then [] # split_commas s
      else (case split_commas s of
          [] \<Rightarrow> [[c]]
        | w # ws \<Rightarrow> (c # w) # ws))"

text \<open>\<open>collect::<Option<Vec<_>>>\<close>.\<close>

fun collect :: "('a \<Rightarrow> 'b option) \<Rightarrow> 'a list \<Rightarrow> 'b list option" where
  "collect f [] = Some []"
| "collect f (x # xs) =
     (case f x of
        None \<Rightarrow> None
      | Some y \<Rightarrow> map_option (\<lambda>ys. y # ys) (collect f xs))"

text \<open>\<open>str::parse\<close> for a signed integer type with the given bounds.\<close>

definition parse_int :: "int \<Rightarrow> int \<Rightarrow> string \<Rightarrow> int option" where
  "parse_int lo hi s =
     (let (neg, ds) = (case s of
            c # rest \<Rightarrow> if c = CHR ''-'' then (True, rest)
              else if c = CHR ''+'' then (False, rest) else (False, s)
          | [] \<Rightarrow> (False, s));
          n = (if neg then - int (read_digits 0 ds) else int (read_digits 0 ds)) in
      if ds = [] \<or> \<not> list_all is_digit ds \<or> n < lo \<or> hi < n then None else Some n)"

section \<open>Rules\<close>

datatype weekday = Monday | Tuesday | Wednesday | Thursday | Friday | Saturday | Sunday

datatype recurrence_rule =
  Interval int
| DailyAt nat nat
| WeeklyAt weekday nat nat
| MultiCalendar "weekday list" "(nat \<times> nat) list"

definition accented :: "string \<Rightarrow> string" where
  "accented s = s @ [char_of (195 :: nat), char_of (172 :: nat)]"

definition parse_weekday :: "string \<Rightarrow> weekday option" where
  "parse_weekday s =
     (let w = trim s in
      if w \<in> {''mon'', ''monday'', ''lun'', ''lunedi'', accented ''luned''} then Some Monday
      else if w \<in> {''tue'', ''tuesday'', ''mar'', ''martedi'', accented ''marted''} then Some Tuesday
      else if w \<in> {''wed'', ''wednesday'', ''mer'', ''mercoledi'', accented ''mercoled''} then Some Wednesday
      else if w \<in> {''thu'', ''thursday'', ''gio'', ''giovedi'', accented ''gioved''} then Some Thursday
      else if w \<in> {''fri'', ''friday'', ''ven'', ''venerdi'', accented ''venerd''} then Some Friday
      else if w \<in> {''sat'', ''saturday'', ''sab'', ''sabato''} then Some Saturday
      else if w \<in> {''sun'', ''sunday'', ''dom'', ''domenica''} then Some Sunday
      else None)"

definition parse_hhmm :: "string \<Rightarrow> (nat \<times> nat) option" where
  "parse_hhmm s =
     Option.bind (split_at (\<lambda>c. c = CHR '':'') (trim (skip_seps (trim s)))) (\<lambda>(h, m).
     Option.bind (parse_int (-128) 127 (trim h)) (\<lambda>hour.
     Option.bind (parse_int (-128) 127 (trim m)) (\<lambda>minute.
       if 0 \<le> hour \<and> hour \<le> 23 \<and> 0 \<le> minute \<and> minute \<le> 59
         then Some (nat hour, nat minute) else None)))"

definition strip_prefix_of :: "string \<Rightarrow> string \<Rightarrow> string option" where
  "strip_prefix_of p s = (if take (length p) s = p then Some (drop (length p) s) else None)"

definition unit_seconds :: "string \<Rightarrow> int option" where
  "unit_seconds u =
     (if u \<in> {''m'', ''min'', ''mins'', ''minute'', ''minutes''} then Some 60
      else if u \<in> {''h'', ''hr'', ''hrs'', ''hour'', ''hours''} then Some 3600
      else if u \<in> {''d'', ''day'', ''days''} then Some 86400
      else if u \<in> {''w'', ''wk'', ''wks'', ''week'', ''weeks''} then Some 604800
      else None)"

definition parse_interval :: "string \<Rightarrow> int option" where
  "parse_interval rule =
     (let normalized = ascii_lower (trim rule);
          body = trim (case strip_prefix_of ''every'' normalized of
              Some rest \<Rightarrow> trim rest | None \<Rightarrow> normalized);
          digits = takeWhile is_digit body in
      if digits = [] then None
      else Option.bind (parse_int (- 9223372036854775808) 9223372036854775807 digits) (\<lambda>count.
        if count \<le> 0 then None
        else map_option (\<lambda>secs. count * secs * 1000000000)
          (unit_seconds (trim (drop (length digits) body)))))"

definition parse_rule :: "string \<Rightarrow> recurrence_rule option" where
  "parse_rule rule =
     (let normalized = ascii_lower (trim rule) in
      case parse_interval normalized of
        Some d \<Rightarrow> Some (Interval d)
      | None \<Rightarrow>
      (case strip_prefix_of ''daily'' normalized of
        Some rest \<Rightarrow> map_option (\<lambda>(h, m). DailyAt h m) (parse_hhmm rest)
      | None \<Rightarrow>
      (case strip_prefix_of ''weekly'' normalized of
        Some rest \<Rightarrow>
          (let sep = (\<lambda>c. c = CHR ''@'' \<or> c = CHR '' ''); body = skip_seps rest in
           Option.bind (parse_weekday (trim (case split_at sep body of
               Some (day, _) \<Rightarrow> day | None \<Rightarrow> body))) (\<lambda>day.
           Option.bind (split_at sep body) (\<lambda>(_, time).
           map_option (\<lambda>(h, m). WeeklyAt day h m) (parse_hhmm time))))
      | None \<Rightarrow>
      (case strip_prefix_of ''dow'' normalized of
        Some rest \<Rightarrow>
          Option.bind (split_at (\<lambda>c. c = CHR ''@'') (skip_seps rest)) (\<lambda>(days, slots).
          Option.bind (if trim days \<in> {''*'', ''all'', ''daily'', ''''} then Some []
              else collect (\<lambda>d. parse_weekday (trim d)) (split_commas (trim days))) (\<lambda>weekdays.
          Option.bind (collect (\<lambda>t. parse_hhmm (trim t)) (split_commas slots)) (\<lambda>slots.
          if slots = [] then None else Some (MultiCalendar weekdays slots))))
      | None \<Rightarrow> None))))"

section \<open>The calendar of the jiff package\<close>

record 'z jiff =
  jf_second_ok :: "int \<Rightarrow> bool"
  jf_in_tz :: "int \<Rightarrow> string \<Rightarrow> 'z option"
  jf_system :: "int \<Rightarrow> 'z"
  jf_at_time :: "'z \<Rightarrow> nat \<Rightarrow> nat \<Rightarrow> 'z option"
  jf_add_days :: "'z \<Rightarrow> nat \<Rightarrow> 'z option"
  jf_weekday :: "'z \<Rightarrow> weekday"
  jf_zone :: "'z \<Rightarrow> string"
  jf_day :: "'z \<Rightarrow> int"
  jf_timestamp :: "'z \<Rightarrow> int"
  jf_as_second :: "'z \<Rightarrow> int"
  tm_second_ok :: "int \<Rightarrow> bool"

definition zoned_from :: "'z jiff \<Rightarrow> int \<Rightarrow> string option \<Rightarrow> 'z option" where
  "zoned_from jf after tz =
     (let ts = unix_timestamp after in
      if \<not> jf_second_ok jf ts then None
      else Some (case tz of
          Some name \<Rightarrow> (case jf_in_tz jf ts name of Some z \<Rightarrow> z | None \<Rightarrow> jf_system jf ts)
        | None \<Rightarrow> jf_system jf ts))"

definition to_offset_datetime :: "'z jiff \<Rightarrow> 'z \<Rightarrow> int option" where
  "to_offset_datetime jf z =
     (if tm_second_ok jf (jf_as_second jf z) then Some (jf_as_second jf z * NANOS) else None)"

definition next_daily :: "'z jiff \<Rightarrow> int \<Rightarrow> string option \<Rightarrow> nat \<Rightarrow> nat \<Rightarrow> int option" where
  "next_daily jf after tz h m =
     Option.bind (zoned_from jf after tz) (\<lambda>now.
     Option.bind (jf_at_time jf now h m) (\<lambda>candidate.
     Option.bind (if jf_timestamp jf candidate \<le> jf_timestamp jf now
         then jf_add_days jf candidate 1 else Some candidate) (to_offset_datetime jf)))"

fun first_weekday :: "'z jiff \<Rightarrow> 'z \<Rightarrow> weekday \<Rightarrow> nat \<Rightarrow> 'z \<Rightarrow> int option" where
  "first_weekday jf now day 0 candidate = None"
| "first_weekday jf now day (Suc n) candidate =
     (if jf_weekday jf candidate = day \<and> jf_timestamp jf now < jf_timestamp jf candidate
        then to_offset_datetime jf candidate
      else Option.bind (jf_add_days jf candidate 1) (first_weekday jf now day n))"

definition next_weekly :: "'z jiff \<Rightarrow> int \<Rightarrow> string option \<Rightarrow> weekday \<Rightarrow> nat \<Rightarrow> nat \<Rightarrow> int option" where
  "next_weekly jf after tz day h m =
     Option.bind (zoned_from jf after tz) (\<lambda>now.
     Option.bind (jf_at_time jf now h m) (first_weekday jf now day 8))"

text \<open>The earliest future time of a day; \<open>None\<close> outside is a failed calendar lookup.\<close>

fun best_time :: "'z jiff \<Rightarrow> 'z \<Rightarrow> 'z \<Rightarrow> (nat \<times> nat) list \<Rightarrow> 'z option \<Rightarrow> 'z option option" where
  "best_time jf now day [] best = Some best"
| "best_time jf now day ((h, m) # slots) best =
     Option.bind (jf_at_time jf day h m) (\<lambda>candidate.
     best_time jf now day slots
       (if jf_timestamp jf now < jf_timestamp jf candidate
        then (case best of
            Some b \<Rightarrow> if jf_timestamp jf b \<le> jf_timestamp jf candidate then Some b else Some candidate
          | None \<Rightarrow> Some candidate)
        else best))"

fun scan_days :: "'z jiff \<Rightarrow> 'z \<Rightarrow> weekday list \<Rightarrow> (nat \<times> nat) list \<Rightarrow> nat list \<Rightarrow> int option" where
  "scan_days jf now days slots [] = None"
| "scan_days jf now days slots (k # ks) =
     Option.bind (jf_add_days jf now k) (\<lambda>base.
     if days \<noteq> [] \<and> jf_weekday jf base \<notin> set days then scan_days jf now days slots ks
     else Option.bind (best_time jf now base slots None) (\<lambda>best.
       case best of
         Some b \<Rightarrow> to_offset_datetime jf b
       | None \<Rightarrow> scan_days jf now days slots ks))"

definition next_multi ::
  "'z jiff \<Rightarrow> int \<Rightarrow> string option \<Rightarrow> weekday list \<Rightarrow> (nat \<times> nat) list \<Rightarrow> int option" where
  "next_multi jf after tz days slots =
     Option.bind (zoned_from jf after tz) (\<lambda>now. scan_days jf now days slots [0..<8])"

definition next_occurrence :: "'z jiff \<Rightarrow> string \<Rightarrow> string option \<Rightarrow> int \<Rightarrow> int option" where
  "next_occurrence jf rule tz after =
     Option.bind (parse_rule rule) (\<lambda>r.
       case r of
         Interval d \<Rightarrow> Some (after + d)
       | DailyAt h m \<Rightarrow> next_daily jf after tz h m
       | WeeklyAt day h m \<Rightarrow> next_weekly jf after tz day h m
       | MultiCalendar days slots \<Rightarrow> next_multi jf after tz days slots)"

section \<open>The next occurrence lies in the future\<close>

text \<open>
  What jiff documents: zoned times keep the second they were made from; \<open>with\<close> and \<open>checked_add\<close> stay
  in the time zone; wall-clock times built with \<open>second(0)\<close> fall on whole seconds, and adding days
  keeps that; the civil date is kept by \<open>with\<close> and moved on by the days added, or comes out later
  where the clock skips the wall-clock time.
\<close>

definition jiff_ok :: "'z jiff \<Rightarrow> bool" where
  "jiff_ok jf \<longleftrightarrow>
     (\<forall>t name z. jf_in_tz jf t name = Some z \<longrightarrow> jf_timestamp jf z = t * NANOS) \<and>
     (\<forall>t. jf_timestamp jf (jf_system jf t) = t * NANOS) \<and>
     (\<forall>z h m c. jf_at_time jf z h m = Some c \<longrightarrow> jf_timestamp jf c = jf_as_second jf c * NANOS \<and>
        jf_zone jf c = jf_zone jf z \<and> jf_day jf z \<le> jf_day jf c) \<and>
     (\<forall>z c k. jf_add_days jf z k = Some c \<longrightarrow>
        (jf_timestamp jf z = jf_as_second jf z * NANOS \<longrightarrow> jf_timestamp jf c = jf_as_second jf c * NANOS) \<and>
        jf_zone jf c = jf_zone jf z \<and> jf_day jf z + int k \<le> jf_day jf c)"

text \<open>
  A zone whose civil date never goes back as time goes on: wherever its clock is set back, it is not
  set back over midnight.
\<close>

definition dates_advance :: "'z jiff \<Rightarrow> string \<Rightarrow> bool" where
  "dates_advance jf zone \<longleftrightarrow> (\<forall>a b. jf_zone jf a = zone \<longrightarrow> jf_zone jf b = zone \<longrightarrow>
     jf_timestamp jf a \<le> jf_timestamp jf b \<longrightarrow> jf_day jf a \<le> jf_day jf b)"

lemma jiff_okD:
  assumes "jiff_ok jf"
  shows "jf_at_time jf z h m = Some c \<Longrightarrow> jf_timestamp jf c = jf_as_second jf c * NANOS"
    "\<lbrakk>jf_timestamp jf z = jf_as_second jf z * NANOS; jf_add_days jf z k = Some c\<rbrakk> \<Longrightarrow>
      jf_timestamp jf c = jf_as_second jf c * NANOS"
    "jf_at_time jf z h m = Some c \<Longrightarrow> jf_zone jf c = jf_zone jf z \<and> jf_day jf z \<le> jf_day jf c"
    "jf_add_days jf z k = Some c \<Longrightarrow> jf_zone jf c = jf_zone jf z \<and> jf_day jf z + int k \<le> jf_day jf c"
  using assms unfolding jiff_ok_def by blast+

text \<open>The day after has a later date, so it is a later moment where dates advance.\<close>

lemma rolled_over_future:
  assumes "jiff_ok jf" "dates_advance jf (jf_zone jf now)"
    and "jf_at_time jf now h m = Some c" "jf_add_days jf c 1 = Some n"
  shows "jf_timestamp jf now < jf_timestamp jf n"
proof (rule ccontr)
  assume "\<not> jf_timestamp jf now < jf_timestamp jf n"
  moreover have "jf_zone jf n = jf_zone jf now" "jf_day jf now < jf_day jf n"
    using jiff_okD(3) [OF assms(1,3)] jiff_okD(4) [OF assms(1,4)] by simp_all
  ultimately show False
    using assms(2) by (fastforce simp: dates_advance_def)
qed

lemma zoned_from_timestamp:
  assumes "jiff_ok jf" "zoned_from jf after tz = Some z"
  shows "jf_timestamp jf z = unix_timestamp after * NANOS"
  using assms
  by (auto simp: zoned_from_def jiff_ok_def Let_def split: if_splits option.splits)

lemma whole_second_after:
  "\<lbrakk>s * NANOS > unix_timestamp after * NANOS\<rbrakk> \<Longrightarrow> after < s * NANOS"
  by (simp add: unix_timestamp_def NANOS_def)

text \<open>A whole second after the zoned start is after the moment itself.\<close>

lemma future_offset:
  assumes "jiff_ok jf" "zoned_from jf after tz = Some now"
    "jf_timestamp jf z = jf_as_second jf z * NANOS" "jf_timestamp jf now < jf_timestamp jf z"
    "to_offset_datetime jf z = Some next"
  shows "after < next"
proof -
  have "unix_timestamp after * NANOS < jf_as_second jf z * NANOS"
    using assms(3,4) zoned_from_timestamp [OF assms(1,2)] by simp
  then have "after < jf_as_second jf z * NANOS"
    by (rule whole_second_after)
  then show ?thesis
    using assms(5) by (simp add: to_offset_datetime_def split: if_splits)
qed

lemma first_weekday_future:
  assumes ok: "jiff_ok jf" and now: "zoned_from jf after tz = Some now"
  shows "\<lbrakk>jf_timestamp jf c = jf_as_second jf c * NANOS; first_weekday jf now day n c = Some next\<rbrakk> \<Longrightarrow>
    after < next"
proof (induction n arbitrary: c)
  case (Suc n)
  show ?case
  proof (cases "jf_weekday jf c = day \<and> jf_timestamp jf now < jf_timestamp jf c")
    case True
    with Suc.prems show ?thesis
      using future_offset [OF ok now] by simp
  next
    case False
    with Suc.prems(2) obtain c' where "jf_add_days jf c 1 = Some c'"
        "first_weekday jf now day n c' = Some next"
      by (auto simp: bind_eq_Some_conv split: if_splits)
    with Suc.IH Suc.prems(1) show ?thesis
      using jiff_okD(2) [OF ok] by blast
  qed
qed simp

definition candidate :: "'z jiff \<Rightarrow> 'z \<Rightarrow> 'z option \<Rightarrow> bool" where
  "candidate jf now best \<longleftrightarrow>
     pred_option (\<lambda>b. jf_timestamp jf b = jf_as_second jf b * NANOS \<and>
       jf_timestamp jf now < jf_timestamp jf b) best"

lemma best_time_candidate:
  assumes ok: "jiff_ok jf"
  shows "\<lbrakk>candidate jf now best; best_time jf now day slots best = Some best'\<rbrakk> \<Longrightarrow> candidate jf now best'"
proof (induction slots arbitrary: best)
  case (Cons slot slots)
  obtain h m where slot: "slot = (h, m)"
    by (cases slot)
  obtain c where c: "jf_at_time jf day h m = Some c"
    using Cons.prems(2) slot by (auto simp: bind_eq_Some_conv)
  let ?best = "if jf_timestamp jf now < jf_timestamp jf c
      then (case best of
          Some b \<Rightarrow> if jf_timestamp jf b \<le> jf_timestamp jf c then Some b else Some c
        | None \<Rightarrow> Some c)
      else best"
  have "candidate jf now ?best"
    using Cons.prems(1) jiff_okD(1) [OF ok c] by (auto simp: candidate_def split: option.splits)
  with Cons c slot show ?case by simp
qed simp

lemma scan_days_future:
  assumes ok: "jiff_ok jf" and now: "zoned_from jf after tz = Some now"
  shows "scan_days jf now days slots ks = Some next \<Longrightarrow> after < next"
proof (induction ks)
  case (Cons k ks)
  obtain base where base: "jf_add_days jf now k = Some base"
    using Cons.prems by (auto simp: bind_eq_Some_conv)
  show ?case
  proof (cases "days \<noteq> [] \<and> jf_weekday jf base \<notin> set days")
    case True
    with Cons base show ?thesis by simp
  next
    case False
    with Cons.prems base obtain best where best: "best_time jf now base slots None = Some best"
        "(case best of Some b \<Rightarrow> to_offset_datetime jf b | None \<Rightarrow> scan_days jf now days slots ks) = Some next"
      by (auto simp: bind_eq_Some_conv split: if_splits)
    have "candidate jf now best"
      by (rule best_time_candidate [OF ok _ best(1)]) (simp add: candidate_def)
    with best(2) Cons.IH show ?thesis
      using future_offset [OF ok now] by (auto simp: candidate_def split: option.splits)
  qed
qed simp

lemma unit_seconds_pos: "unit_seconds u = Some secs \<Longrightarrow> 0 < secs"
  by (auto simp: unit_seconds_def split: if_splits)

lemma parse_interval_pos: "parse_interval rule = Some d \<Longrightarrow> 0 < d"
  by (auto simp: parse_interval_def Let_def bind_eq_Some_conv unit_seconds_pos split: if_splits)

lemma parse_rule_interval: "parse_rule rule = Some (Interval d) \<Longrightarrow> 0 < d"
  using parse_interval_pos
  by (fastforce simp: parse_rule_def Let_def bind_eq_Some_conv split: option.splits if_splits prod.splits)

text \<open>
  C40: A recurring task never repeats at the moment it just ran, or before it. Whatever the rule,
  interval or calendar, and whatever the time zone, the next occurrence is strictly after the moment it
  is computed from; for a daily rule, in a zone whose clock is never set back over midnight.
\<close>

theorem next_occurrence_after:
  assumes "jiff_ok jf" "next_occurrence jf rule tz after = Some next"
    and "\<And>h m now. parse_rule rule = Some (DailyAt h m) \<Longrightarrow> zoned_from jf after tz = Some now \<Longrightarrow>
      dates_advance jf (jf_zone jf now)"
  shows "after < next"
proof -
  obtain r where r: "parse_rule rule = Some r"
    using assms(2) by (auto simp: next_occurrence_def bind_eq_Some_conv)
  show ?thesis
  proof (cases r)
    case (Interval d)
    with assms(2) r show ?thesis
      using parse_rule_interval [of rule d] by (simp add: next_occurrence_def)
  next
    case (DailyAt h m)
    then obtain now c c' where z: "zoned_from jf after tz = Some now" "jf_at_time jf now h m = Some c"
        "(if jf_timestamp jf c \<le> jf_timestamp jf now then jf_add_days jf c 1 else Some c) = Some c'"
        "to_offset_datetime jf c' = Some next"
      using assms(2) r by (auto simp: next_occurrence_def next_daily_def bind_eq_Some_conv)
    have "jf_timestamp jf c' = jf_as_second jf c' * NANOS \<and> jf_timestamp jf now < jf_timestamp jf c'"
    proof (cases "jf_timestamp jf c \<le> jf_timestamp jf now")
      case True
      then have "jf_add_days jf c 1 = Some c'"
        using z(3) by simp
      with z(2) show ?thesis
        using jiff_okD(1,2) [OF assms(1)] rolled_over_future [OF assms(1) assms(3) [OF _ z(1)] z(2)]
          r DailyAt by blast
    next
      case False
      with z(2,3) show ?thesis
        using jiff_okD(1) [OF assms(1)] by simp
    qed
    then show ?thesis
      using future_offset [OF assms(1) z(1) _ _ z(4)] by blast
  next
    case (WeeklyAt day h m)
    then obtain now c where "zoned_from jf after tz = Some now" "jf_at_time jf now h m = Some c"
        "first_weekday jf now day 8 c = Some next"
      using assms(2) r by (auto simp: next_occurrence_def next_weekly_def bind_eq_Some_conv)
    then show ?thesis
      using first_weekday_future [OF assms(1)] jiff_okD(1) [OF assms(1)] by blast
  next
    case (MultiCalendar days slots)
    then obtain now where "zoned_from jf after tz = Some now"
        "scan_days jf now days slots [0..<8] = Some next"
      using assms(2) r by (auto simp: next_occurrence_def next_multi_def bind_eq_Some_conv)
    then show ?thesis
      by (rule scan_days_future [OF assms(1)])
  qed
qed

text \<open>A calendar without time zones: moments in whole seconds of UTC.\<close>

definition utc_weekday :: "int \<Rightarrow> weekday" where
  "utc_weekday t =
     [Thursday, Friday, Saturday, Sunday, Monday, Tuesday, Wednesday] ! nat ((t div 86400) mod 7)"

definition utc :: "int jiff" where
  "utc = \<lparr>jf_second_ok = (\<lambda>t. True), jf_in_tz = (\<lambda>t name. Some t), jf_system = (\<lambda>t. t),
     jf_at_time = (\<lambda>t h m. if h < 24 \<and> m < 60
       then Some (t div 86400 * 86400 + int h * 3600 + int m * 60) else None),
     jf_add_days = (\<lambda>t k. Some (t + int k * 86400)), jf_weekday = utc_weekday,
     jf_zone = (\<lambda>t. ''UTC''), jf_day = (\<lambda>t. t div 86400),
     jf_timestamp = (\<lambda>t. t * NANOS), jf_as_second = (\<lambda>t. t), tm_second_ok = (\<lambda>t. True)\<rparr>"

lemma civil_day: "h < 24 \<Longrightarrow> m < 60 \<Longrightarrow> (d * 86400 + int h * 3600 + int m * 60) div 86400 = d"
  by (rule int_div_pos_eq [where r = "int h * 3600 + int m * 60"]) simp_all

lemma day_later: "(t + int k * 86400) div 86400 = t div 86400 + int k"
  by simp

lemma utc_ok: "jiff_ok utc"
  by (auto simp: jiff_ok_def utc_def civil_day day_later split: if_splits)

lemma utc_dates: "dates_advance utc zone"
  by (auto simp: dates_advance_def utc_def NANOS_def zdiv_mono1)

lemma daily_rules:
  "parse_rule ''daily@06:00'' = Some (DailyAt 6 0)" "parse_rule ''daily@00:00'' = Some (DailyAt 0 0)"
  by code_simp+

text \<open>At seven in the morning the next six o'clock is tomorrow's.\<close>

theorem next_occurrence_after_witness:
  "\<exists>next. next_occurrence utc ''daily@06:00'' None (7 * 3600 * NANOS) = Some next \<and> 7 * 3600 * NANOS < next"
proof -
  have "next_occurrence utc ''daily@06:00'' None (7 * 3600 * NANOS) = Some (30 * 3600 * NANOS)"
    by (simp add: next_occurrence_def next_daily_def daily_rules zoned_from_def to_offset_datetime_def utc_def
        unix_timestamp_def NANOS_def)
  with next_occurrence_after [OF utc_ok this utc_dates] show ?thesis
    by blast
qed

section \<open>Where a clock is set back over midnight\<close>

text \<open>
  Newfoundland in November 2010: at 00:01 on the 7th the clock was set back to 23:01 on the 6th, from
  two and a half to three and a half hours behind UTC. Moments are seconds of UTC. A wall-clock time
  that comes twice is the first, unless \<open>with\<close> can keep the offset it starts from.
\<close>

definition st_johns_offset :: "int \<Rightarrow> int" where
  "st_johns_offset t = (if t < 1289097060 then - 9000 else - 12600)"

definition st_johns_local :: "int \<Rightarrow> int" where
  "st_johns_local t = t + st_johns_offset t"

definition st_johns_resolve :: "int \<Rightarrow> int" where
  "st_johns_resolve w = (if w + 9000 < 1289097060 then w + 9000 else w + 12600)"

definition st_johns :: "int jiff" where
  "st_johns = \<lparr>jf_second_ok = (\<lambda>t. True), jf_in_tz = (\<lambda>t name. Some t), jf_system = (\<lambda>t. t),
     jf_at_time = (\<lambda>t h m. if h < 24 \<and> m < 60
       then let w = st_johns_local t div 86400 * 86400 + int h * 3600 + int m * 60;
            same = w - st_johns_offset t in
         Some (if st_johns_offset same = st_johns_offset t then same else st_johns_resolve w) else None),
     jf_add_days = (\<lambda>t k. Some (st_johns_resolve (st_johns_local t + int k * 86400))),
     jf_weekday = (\<lambda>t. utc_weekday (st_johns_local t)),
     jf_zone = (\<lambda>t. ''America/St_Johns''), jf_day = (\<lambda>t. st_johns_local t div 86400),
     jf_timestamp = (\<lambda>t. t * NANOS), jf_as_second = (\<lambda>t. t), tm_second_ok = (\<lambda>t. True)\<rparr>"

lemma st_johns_resolved: "st_johns_local (st_johns_resolve w) = w"
  by (simp add: st_johns_local_def st_johns_resolve_def st_johns_offset_def)

lemma st_johns_same: "st_johns_offset (w - st_johns_offset t) = st_johns_offset t \<Longrightarrow>
    st_johns_local (w - st_johns_offset t) = w"
  by (simp add: st_johns_local_def)

lemma st_johns_ok: "jiff_ok st_johns"
  by (auto simp: jiff_ok_def st_johns_def Let_def st_johns_resolved st_johns_same civil_day day_later
      split: if_splits)

text \<open>
  At half past eleven in the evening, the second time, the next midnight of a daily rule is the first
  of the two: a moment half an hour ago.
\<close>

lemma daily_goes_back:
  "jiff_ok st_johns \<and>
   next_occurrence st_johns ''daily@00:00'' (Some ''America/St_Johns'') (1289098800 * NANOS) =
     Some (1289097000 * NANOS)"
proof
  show "next_occurrence st_johns ''daily@00:00'' (Some ''America/St_Johns'') (1289098800 * NANOS) =
     Some (1289097000 * NANOS)"
    by (simp add: next_occurrence_def next_daily_def daily_rules zoned_from_def to_offset_datetime_def
        st_johns_def Let_def st_johns_local_def st_johns_offset_def st_johns_resolve_def
        unix_timestamp_def NANOS_def)
qed (rule st_johns_ok)

end
