(* ===== verification/TaskRuntime.thy ===== *)
theory TaskRuntime
  imports Scheduler Recurrence
begin

text \<open>
  The facade \<open>TaskRuntime\<close>: one round over the ready tasks of a workspace. For each task it
  asks the governor, takes the lease, reserves the resources, runs one step of the executor and
  files the result. The executor is code of the embedding application: a function of the number
  of the step in the round, the task and its checkpoint.
\<close>

section \<open>The next occurrence of a recurring task\<close>

text \<open>The id up to the first \<open>@occ@\<close>.\<close>

fun recurrence_root :: "string \<Rightarrow> string" where
  "recurrence_root [] = []"
| "recurrence_root (c # s) =
     (if take 5 (c # s) = ''@occ@'' then [] else c # recurrence_root s)"

definition next_recurrence :: "'z jiff \<Rightarrow> task_record \<Rightarrow> int \<Rightarrow> task_record option" where
  "next_recurrence jf t now =
     Option.bind (t_recurrence t) (\<lambda>rule.
     Option.bind (next_occurrence jf rule (t_recurrence_tz t) now) (\<lambda>next.
     Some ((clear_lease (t\<lparr>t_task_id := recurrence_root (t_task_id t) @ ''@occ@'' @
           show_int (unix_timestamp next),
         t_status := TQueued, t_not_before := Some next, t_deadline := None, t_expires_at := None,
         t_attempt_count := 0, t_checkpoint_json := None, t_blocked_reason := None\<rparr>))
       \<lparr>t_created_at := now, t_updated_at := now\<rparr>)))"

section \<open>The executor\<close>

datatype executor_result =
  ExCompleted json
| ExCheckpoint json json
| ExWaitUntil int string
| ExNeedsApproval string string string string
| ExRetryableFailure string

type_synonym executor = "nat \<Rightarrow> task_record \<Rightarrow> task_checkpoint option \<Rightarrow> task_error + executor_result"

record run_ready_summary =
  sm_attempted :: nat
  sm_completed :: nat
  sm_checkpointed :: nat
  sm_waiting :: nat
  sm_failed_retryable :: nat
  sm_skipped :: nat

definition empty_summary :: run_ready_summary where
  "empty_summary = \<lparr>sm_attempted = 0, sm_completed = 0, sm_checkpointed = 0, sm_waiting = 0,
     sm_failed_retryable = 0, sm_skipped = 0\<rparr>"

text \<open>What a runtime is made of: its environment, limits and worker, and its executor.\<close>

record 'z task_runtime =
  tr_env :: runtime_env
  tr_jiff :: "'z jiff"
  tr_limits :: resource_limits
  tr_worker :: string
  tr_executor :: executor

definition LEASE_DURATION :: int where
  "LEASE_DURATION = 5 * 60 * NANOS"

section \<open>Filing the result of a step\<close>

definition clear_execution_state :: "task_record \<Rightarrow> int \<Rightarrow> task_record" where
  "clear_execution_state t now = (clear_lease t)\<lparr>t_updated_at := now\<rparr>"

definition finished :: "task_record \<Rightarrow> task_status \<Rightarrow> string option \<Rightarrow> int \<Rightarrow> task_record" where
  "finished t status reason now =
     clear_execution_state (t\<lparr>t_status := status, t_blocked_reason := reason\<rparr>) now"

definition store_released :: "task_record \<Rightarrow> unit rt" where
  "store_released t = rt_bind (release_resources t) (\<lambda>_. insert_task t)"

definition finish_task :: "task_record \<Rightarrow> task_status \<Rightarrow> string option \<Rightarrow> int \<Rightarrow> unit rt" where
  "finish_task t status reason now = store_released (finished t status reason now)"

definition insert_next_recurrence :: "'z jiff \<Rightarrow> task_record \<Rightarrow> int \<Rightarrow> unit rt" where
  "insert_next_recurrence jf t now =
     (case next_recurrence jf t now of None \<Rightarrow> rt_return () | Some u \<Rightarrow> insert_task u)"

definition record_failure_and_insert_next_if_terminal ::
  "'z jiff \<Rightarrow> string \<Rightarrow> string \<Rightarrow> string \<Rightarrow> string \<Rightarrow> int \<Rightarrow> unit rt" where
  "record_failure_and_insert_next_if_terminal jf tid uid wid reason now =
     rt_bind (record_failure tid uid wid reason now) (\<lambda>_.
     rt_bind (get_required_task tid uid wid) (\<lambda>failed.
     if t_status failed = TFailed then insert_next_recurrence jf failed now else rt_return ()))"

definition file_result ::
  "'z task_runtime \<Rightarrow> string \<Rightarrow> string \<Rightarrow> int \<Rightarrow> task_record \<Rightarrow> task_error + executor_result \<Rightarrow>
   run_ready_summary \<Rightarrow> run_ready_summary rt" where
  "file_result r uid wid now leased result summary =
     (case result of
        Inr (ExCompleted output_json) \<Rightarrow>
          rt_bind (finish_task leased TCompleted None now) (\<lambda>_.
          rt_bind (insert_next_recurrence (tr_jiff r) (finished leased TCompleted None now) now) (\<lambda>_.
          rt_return (summary\<lparr>sm_completed := Suc (sm_completed summary)\<rparr>)))
      | Inr (ExCheckpoint payload redacted) \<Rightarrow>
          rt_bind (append_checkpoint (tr_env r) (t_task_id leased) uid wid payload redacted) (\<lambda>_.
          rt_bind (get_required_task (t_task_id leased) uid wid) (\<lambda>reloaded.
          rt_bind (finish_task reloaded TQueued None now) (\<lambda>_.
          rt_return (summary\<lparr>sm_checkpointed := Suc (sm_checkpointed summary)\<rparr>))))
      | Inr (ExWaitUntil not_before reason) \<Rightarrow>
          rt_bind (store_released (clear_execution_state (leased\<lparr>t_status := TWaitingTime,
            t_not_before := Some not_before, t_blocked_reason := Some reason\<rparr>) now)) (\<lambda>_.
          rt_return (summary\<lparr>sm_waiting := Suc (sm_waiting summary)\<rparr>))
      | Inr (ExNeedsApproval action risk boundary explanation) \<Rightarrow>
          rt_bind (store_released (clear_execution_state leased now)) (\<lambda>_.
          rt_bind (request_approval (tr_env r) (t_task_id leased) uid wid action risk boundary
            explanation) (\<lambda>_.
          rt_return (summary\<lparr>sm_waiting := Suc (sm_waiting summary)\<rparr>)))
      | Inr (ExRetryableFailure reason) \<Rightarrow>
          rt_bind (record_failure_and_insert_next_if_terminal (tr_jiff r) (t_task_id leased) uid wid
            reason now) (\<lambda>_.
          rt_return (summary\<lparr>sm_failed_retryable := Suc (sm_failed_retryable summary)\<rparr>))
      | Inl err \<Rightarrow>
          rt_bind (record_failure_and_insert_next_if_terminal (tr_jiff r) (t_task_id leased) uid wid
            (task_error_text err) now) (\<lambda>_.
          rt_return (summary\<lparr>sm_failed_retryable := Suc (sm_failed_retryable summary)\<rparr>)))"

section \<open>One round\<close>

definition skip :: "run_ready_summary \<Rightarrow> run_ready_summary" where
  "skip summary = summary\<lparr>sm_skipped := Suc (sm_skipped summary)\<rparr>"

definition run_task ::
  "'z task_runtime \<Rightarrow> string \<Rightarrow> string \<Rightarrow> int \<Rightarrow> task_record \<Rightarrow> run_ready_summary \<Rightarrow>
   run_ready_summary rt" where
  "run_task r uid wid now t summary =
     rt_bind (mark_waiting_if_unavailable (tr_env r) (tr_limits r) t) (\<lambda>waiting.
     if waiting then rt_return (skip summary)
     else rt_bind (acquire_lease LEASE_DURATION (t_task_id t) uid wid (tr_worker r) now) (\<lambda>acquired.
     if \<not> acquired then rt_return (skip summary)
     else rt_bind (get_task (t_task_id t) uid wid) (\<lambda>found.
     case found of
       None \<Rightarrow> rt_return (skip summary)
     | Some leased \<Rightarrow>
         rt_bind (reserve_resources (tr_env r) leased (tr_worker r)) (\<lambda>_.
         rt_bind (latest_checkpoint (tr_env r) (t_task_id leased) uid wid) (\<lambda>checkpoint.
         file_result r uid wid now leased (tr_executor r (sm_attempted summary) leased checkpoint)
           (summary\<lparr>sm_attempted := Suc (sm_attempted summary)\<rparr>))))))"

definition requeue_waiting_resource_tasks ::
  "runtime_env \<Rightarrow> resource_limits \<Rightarrow> string \<Rightarrow> string \<Rightarrow> nat rt" where
  "requeue_waiting_resource_tasks env limits uid wid =
     rt_bind (list_tasks uid wid) (\<lambda>ts.
     rt_fold (\<lambda>t requeued.
       rt_bind (requeue_waiting_if_available env limits t) (\<lambda>yes.
       rt_return (if yes then Suc requeued else requeued))) ts 0)"

definition run_ready_once ::
  "'z task_runtime \<Rightarrow> string \<Rightarrow> string \<Rightarrow> int \<Rightarrow> run_ready_summary rt" where
  "run_ready_once r uid wid now =
     rt_bind (wake_due now) (\<lambda>_.
     rt_bind (requeue_waiting_resource_tasks (tr_env r) (tr_limits r) uid wid) (\<lambda>_.
     rt_bind (ready_tasks uid wid now None) (\<lambda>ready.
     rt_fold (run_task r uid wid now) ready empty_summary)))"

section \<open>The dispatcher of the gateway\<close>

text \<open>\<open>next_ready_task_across_workspaces\<close> and \<open>acquire_task_for_execution\<close> of the desktop gateway.\<close>

definition next_ready_task_across_workspaces ::
  "runtime_env \<Rightarrow> resource_limits \<Rightarrow> string \<Rightarrow> int \<Rightarrow> task_record option rt" where
  "next_ready_task_across_workspaces env limits uid now =
     rt_bind (non_terminal_workspace_ids uid) (\<lambda>wids.
     rt_bind (rt_fold (\<lambda>wid _.
       rt_bind (recover_stale_leases uid wid now) (\<lambda>_.
       rt_bind (requeue_waiting_resource_tasks env limits uid wid) (\<lambda>_.
       rt_bind (mark_blocked_by_terminal_dependencies env uid wid) (\<lambda>_.
       rt_bind (expire_overdue_tasks env uid wid now) (\<lambda>_. rt_return ()))))) wids ()) (\<lambda>_.
     rt_bind (ready_tasks_for_user uid now (Some 1)) (\<lambda>ts.
     rt_return (case ts of [] \<Rightarrow> None | t # _ \<Rightarrow> Some t))))"

datatype task_acquire_result = Acquired task_record | WaitingResource string | LeaseBusy

definition acquire_task_for_execution ::
  "runtime_env \<Rightarrow> resource_limits \<Rightarrow> int \<Rightarrow> task_record \<Rightarrow> string \<Rightarrow> string \<Rightarrow> string \<Rightarrow> int \<Rightarrow>
   task_acquire_result rt" where
  "acquire_task_for_execution env limits duration t uid wid worker now =
     rt_bind (mark_waiting_if_unavailable env limits t) (\<lambda>waiting.
     if waiting then
       rt_bind (get_task (t_task_id t) uid wid) (\<lambda>found.
       rt_return (WaitingResource (case Option.bind found t_blocked_reason of
           Some reason \<Rightarrow> reason
         | None \<Rightarrow> ''Local resources not available.'')))
     else rt_bind (acquire_lease duration (t_task_id t) uid wid worker now) (\<lambda>acquired.
     if \<not> acquired then rt_return LeaseBusy
     else rt_bind (get_required_task (t_task_id t) uid wid) (\<lambda>leased.
       rt_bind (reserve_resources env leased worker) (\<lambda>_. rt_return (Acquired leased)))))"

end
