(* ===== verification/TaskTheorems.thy ===== *)
theory TaskTheorems
  imports TaskRuntime
begin

text \<open>
  What the scheduler promises: a lease has one owner and an older generation of it is dead, and
  the ready list is exact and ordered. A locale holds the rules by which a computation leaves
  parts of the database alone.
\<close>

section \<open>Computations and what they leave alone\<close>

lemmas rt_simps = rt_bind_def rt_return_def rt_fail_def rt_read_def rt_modify_def rt_lift_def

definition rt_keeps :: "('s \<Rightarrow> 's \<Rightarrow> bool) \<Rightarrow> ('s, 'e, 'a) computation \<Rightarrow> bool" where
  "rt_keeps R m \<longleftrightarrow> (\<forall>s. R s (snd (m s)))"

locale state_frame =
  fixes R :: "'s \<Rightarrow> 's \<Rightarrow> bool"
  assumes refl: "R s s"
    and trans: "\<lbrakk>R s t; R t u\<rbrakk> \<Longrightarrow> R s u"
begin

lemma keeps_pure: "rt_keeps R (rt_return x)" "rt_keeps R (rt_fail e)" "rt_keeps R (rt_read f)"
  "rt_keeps R (rt_lift q)"
  by (simp_all add: rt_keeps_def rt_simps refl)

lemma keeps_at:
  assumes "R s (snd (m s))" "\<And>x s'. m s = (Inr x, s') \<Longrightarrow> R s' (snd (f x s'))"
  shows "R s (snd (rt_bind m f s))"
proof -
  obtain q s' where m: "m s = (q, s')"
    by fastforce
  show ?thesis
  proof (cases q)
    case (Inl e)
    with m assms(1) show ?thesis by (simp add: rt_bind_def)
  next
    case (Inr x)
    with m assms show ?thesis
      by (auto simp: rt_bind_def intro: trans)
  qed
qed

lemma keeps_bind:
  assumes "rt_keeps R m" "\<And>x. rt_keeps R (f x)"
  shows "rt_keeps R (rt_bind m f)"
  using assms unfolding rt_keeps_def by (blast intro: keeps_at)

lemma keeps_read: "(\<And>s. R s (snd (g (f s) s))) \<Longrightarrow> rt_keeps R (rt_bind (rt_read f) g)"
  by (simp add: rt_keeps_def rt_simps)

lemma keeps_fold: "(\<And>x a. x \<in> set xs \<Longrightarrow> rt_keeps R (f x a)) \<Longrightarrow> rt_keeps R (rt_fold f xs a)"
  by (induction xs arbitrary: a) (auto intro: keeps_pure keeps_bind)

end

locale rt_frame = state_frame R for R :: "runtime_db \<Rightarrow> runtime_db \<Rightarrow> bool" +
  assumes ticks: "R s (s\<lparr>rt_ticks := n\<rparr>)"
begin

lemma keeps_clock: "rt_keeps R (now_utc env)" "rt_keeps R (new_uuid env)"
  by (simp_all add: rt_keeps_def now_utc_def new_uuid_def ticks)

lemmas keeps_rules = keeps_pure keeps_clock keeps_bind

end

text \<open>The tasks outside a set of keys, and the reservations.\<close>

definition only_tasks :: "(string \<times> string \<times> string) set \<Rightarrow> runtime_db \<Rightarrow> runtime_db \<Rightarrow> bool" where
  "only_tasks K s s' \<longleftrightarrow> (\<forall>k. k \<notin> K \<longrightarrow> task_at s' k = task_at s k)"

definition same_reservations :: "runtime_db \<Rightarrow> runtime_db \<Rightarrow> bool" where
  "same_reservations s s' \<longleftrightarrow> rt_reservations s' = rt_reservations s"

interpretation ot: rt_frame "only_tasks K" for K
  by unfold_locales (simp_all add: only_tasks_def task_at_def)

interpretation sr: rt_frame same_reservations
  by unfold_locales (simp_all add: same_reservations_def)

lemma task_at_put:
  "task_at (put_task t s) k = (if k = owner_key t then Some t else task_at s k)"
  by (simp add: task_at_def put_task_def task_table.row_of_upsert row_of_task_def task_key_def
      owner_key_def replace_task_def split: option.split)

lemma task_at_frame [simp]:
  "task_at (s\<lparr>rt_ticks := n\<rparr>) k = task_at s k" "task_at (s\<lparr>rt_checkpoints := cs\<rparr>) k = task_at s k"
  "task_at (s\<lparr>rt_approvals := as\<rparr>) k = task_at s k" "task_at (s\<lparr>rt_reservations := rs\<rparr>) k = task_at s k"
  "task_at (s\<lparr>rt_dependencies := ds\<rparr>) k = task_at s k"
  by (simp_all add: task_at_def)

lemma insert_task_only: "owner_key t \<in> K \<Longrightarrow> rt_keeps (only_tasks K) (insert_task t)"
  by (auto simp: rt_keeps_def insert_task_def rt_simps only_tasks_def task_at_put)

lemma insert_task_reservations: "rt_keeps same_reservations (insert_task t)"
  by (simp add: rt_keeps_def insert_task_def rt_simps same_reservations_def put_task_def)

lemma get_task_keeps [intro, simp]:
  "rt_keeps (only_tasks K) (get_task tid uid wid)" "rt_keeps same_reservations (get_task tid uid wid)"
  by (simp_all add: get_task_def ot.keeps_pure sr.keeps_pure)

lemma get_required_keeps [intro, simp]:
  "rt_keeps (only_tasks K) (get_required_task tid uid wid)"
  "rt_keeps same_reservations (get_required_task tid uid wid)"
  by (simp_all add: get_required_task_def ot.keeps_rules sr.keeps_rules)

section \<open>Leases\<close>

lemma get_required_run:
  "get_required_task tid uid wid s =
     (case task_at s (tid, uid, wid) of None \<Rightarrow> (Inl (NotFound tid), s) | Some t \<Rightarrow> (Inr t, s))"
  by (simp add: get_required_task_def get_task_def rt_simps split: option.split)

lemma acquire_run:
  "acquire_lease duration tid uid wid owner now s =
     (case task_at s (tid, uid, wid) of
        None \<Rightarrow> (Inl (NotFound tid), s)
      | Some t \<Rightarrow>
          if (case t_lease_expires_at t of Some e \<Rightarrow> now < e | None \<Rightarrow> False) then (Inr False, s)
          else (case u64_try_from now of
              None \<Rightarrow> (Inl (InvalidTransition ''lease acquisition timestamp cannot be used as a fence''), s)
            | Some fence \<Rightarrow> (Inr True, put_task (t\<lparr>t_status := TRunning, t_lease_owner := Some owner,
                t_last_heartbeat_at := Some now, t_lease_expires_at := Some (now + duration),
                t_lease_fencing_token := Some fence, t_updated_at := now\<rparr>) s)))"
  by (simp add: acquire_lease_def rt_bind_def get_required_run insert_task_def rt_return_def
      rt_lift_def rt_modify_def split: option.split)

text \<open>Stored tasks sit under the key their own fields name.\<close>

definition keyed :: "runtime_db \<Rightarrow> bool" where
  "keyed s \<longleftrightarrow> (\<forall>k t. task_at s k = Some t \<longrightarrow> owner_key t = k)"

lemma keyedD: "\<lbrakk>keyed s; task_at s k = Some t\<rbrakk> \<Longrightarrow> owner_key t = k"
  unfolding keyed_def by blast

lemma keyed_put: "keyed s \<Longrightarrow> keyed (put_task t s)"
  by (auto simp: keyed_def task_at_put)

lemma acquired_state:
  assumes "keyed s" "acquire_lease duration tid uid wid owner now s = (Inr True, s1)"
  obtains t fence where "task_at s (tid, uid, wid) = Some t" "u64_try_from now = Some fence"
    "\<not> (case t_lease_expires_at t of Some e \<Rightarrow> now < e | None \<Rightarrow> False)"
    "task_at s1 (tid, uid, wid) = Some (t\<lparr>t_status := TRunning, t_lease_owner := Some owner,
       t_last_heartbeat_at := Some now, t_lease_expires_at := Some (now + duration),
       t_lease_fencing_token := Some fence, t_updated_at := now\<rparr>)"
    "keyed s1"
proof -
  obtain t fence where t: "task_at s (tid, uid, wid) = Some t" "u64_try_from now = Some fence"
      "\<not> (case t_lease_expires_at t of Some e \<Rightarrow> now < e | None \<Rightarrow> False)"
      "s1 = put_task (t\<lparr>t_status := TRunning, t_lease_owner := Some owner,
       t_last_heartbeat_at := Some now, t_lease_expires_at := Some (now + duration),
       t_lease_fencing_token := Some fence, t_updated_at := now\<rparr>) s"
    using assms(2) by (auto simp: acquire_run split: option.splits if_splits)
  moreover have "owner_key t = (tid, uid, wid)"
    using assms(1) t(1) by (rule keyedD)
  ultimately show thesis
    using keyed_put [OF assms(1)] by (intro that [OF t(1-3)]) (auto simp: task_at_put owner_key_def)
qed

text \<open>
  C38: a lease has one owner. While a lease runs, nobody acquires it, its own holder included,
  and the attempt changes nothing; once it has run out and was taken again, by whomever, the
  former generation's heartbeat is refused, even from a worker of the same name, and the new
  generation's heartbeat is accepted. (Leases last longer than no time.)
\<close>

theorem lease_has_one_owner:
  assumes "keyed s" "acquire_lease duration tid uid wid a t1 s = (Inr True, s1)"
  shows "(t2 < t1 + duration \<longrightarrow> acquire_lease duration' tid uid wid b t2 s1 = (Inr False, s1)) \<and>
    (0 < duration \<longrightarrow> acquire_lease duration' tid uid wid b t2 s1 = (Inr True, s2) \<longrightarrow>
      (\<exists>e. heartbeat duration'' tid uid wid \<lparr>lo_owner = a, lo_fencing_token = word_of_int t1\<rparr> t3 s2 =
         (Inl (LeaseConflict e), s2)) \<and>
      (\<exists>s3. heartbeat duration'' tid uid wid \<lparr>lo_owner = b, lo_fencing_token = word_of_int t2\<rparr> t3 s2 =
         (Inr (), s3)))"
proof (intro conjI impI)
  obtain t f where one: "u64_try_from t1 = Some f" "keyed s1"
    "task_at s1 (tid, uid, wid) = Some (t\<lparr>t_status := TRunning, t_lease_owner := Some a,
       t_last_heartbeat_at := Some t1, t_lease_expires_at := Some (t1 + duration),
       t_lease_fencing_token := Some f, t_updated_at := t1\<rparr>)"
    by (rule acquired_state [OF assms]) blast
  show "acquire_lease duration' tid uid wid b t2 s1 = (Inr False, s1)" if "t2 < t1 + duration"
    using one(3) that by (simp add: acquire_run)
  assume d: "0 < duration" and again: "acquire_lease duration' tid uid wid b t2 s1 = (Inr True, s2)"
  obtain u g where two: "u64_try_from t2 = Some g" "task_at s1 (tid, uid, wid) = Some u"
    "\<not> (case t_lease_expires_at u of Some e \<Rightarrow> t2 < e | None \<Rightarrow> False)"
    "task_at s2 (tid, uid, wid) = Some (u\<lparr>t_status := TRunning, t_lease_owner := Some b,
       t_last_heartbeat_at := Some t2, t_lease_expires_at := Some (t2 + duration'),
       t_lease_fencing_token := Some g, t_updated_at := t2\<rparr>)"
    by (rule acquired_state [OF one(2) again]) blast
  have "t1 \<noteq> t2"
    using one(3) two(2,3) d by auto
  then have "f \<noteq> g"
    using u64_try_from_inject [OF one(1)] two(1) by blast
  moreover have words: "word_of_int t1 = f" "word_of_int t2 = g"
    using one(1) two(1) by (auto simp: u64_try_from_def split: if_splits)
  ultimately show "\<exists>e. heartbeat duration'' tid uid wid
      \<lparr>lo_owner = a, lo_fencing_token = word_of_int t1\<rparr> t3 s2 = (Inl (LeaseConflict e), s2)"
    using two(4) by (simp add: heartbeat_def rt_simps get_required_run effective_lease_fencing_token_def)
  show "\<exists>s3. heartbeat duration'' tid uid wid
      \<lparr>lo_owner = b, lo_fencing_token = word_of_int t2\<rparr> t3 s2 = (Inr (), s3)"
    using two(4) words by (simp add: heartbeat_def rt_simps get_required_run insert_task_def
        effective_lease_fencing_token_def)
qed

text \<open>Two queued tasks, the second waiting for the first.\<close>

definition sample_first :: task_record where
  "sample_first = (new_task ''a'' ''u'' ''w'' ''step'' ''g'' JNull 0)
     \<lparr>t_resource_requirements := [\<lparr>tr_class = BrowserSession, tr_units = 1\<rparr>],
      t_retry_policy := \<lparr>rp_max_attempts = 2, rp_backoff_seconds = 30\<rparr>\<rparr>"

definition sample_second :: task_record where
  "sample_second = new_task ''b'' ''u'' ''w'' ''step'' ''g'' JNull 0"

definition sample_rt :: runtime_db where
  "sample_rt =
     \<lparr>rt_store = empty_db\<lparr>db_tasks := [row_of_task sample_first, row_of_task sample_second]\<rparr>,
      rt_dependencies = [\<lparr>dp_task_id = ''b'', dp_depends_on_task_id = ''a'', dp_user_id = ''u'',
        dp_workspace_id = ''w'', dp_created_at = 0\<rparr>],
      rt_reservations = [], rt_checkpoints = [], rt_approvals = [], rt_ticks = 0\<rparr>"

lemma sample_first_fields [simp]:
  "t_task_id sample_first = ''a''" "t_user_id sample_first = ''u''" "t_workspace_id sample_first = ''w''"
  "t_status sample_first = TQueued" "t_lease_expires_at sample_first = None"
  "t_attempt_count sample_first = 0" "t_not_before sample_first = None" "t_recurrence sample_first = None"
  "t_expires_at sample_first = None" "t_deadline sample_first = None"
  "t_retry_policy sample_first = \<lparr>rp_max_attempts = 2, rp_backoff_seconds = 30\<rparr>"
  "t_resource_requirements sample_first = [\<lparr>tr_class = BrowserSession, tr_units = 1\<rparr>]"
  by (simp_all add: sample_first_def new_task_def)

lemma sample_second_fields [simp]:
  "t_task_id sample_second = ''b''" "t_user_id sample_second = ''u''" "t_workspace_id sample_second = ''w''"
  by (simp_all add: sample_second_def new_task_def)

lemma sample_rt_tasks:
  "task_at sample_rt k = (if k = (''a'', ''u'', ''w'') then Some sample_first
     else if k = (''b'', ''u'', ''w'') then Some sample_second else None)"
  by (auto simp: task_at_def sample_rt_def row_of_Cons row_of_task_def task_key_def)

lemma sample_rt_keyed: "keyed sample_rt"
  by (auto simp: keyed_def sample_rt_tasks owner_key_def split: if_splits)

theorem lease_has_one_owner_witness:
  "\<exists>s1. acquire_lease 10 ''a'' ''u'' ''w'' ''x'' 5 sample_rt = (Inr True, s1) \<and>
     acquire_lease 10 ''a'' ''u'' ''w'' ''y'' 7 s1 = (Inr False, s1)"
proof -
  obtain s1 where "acquire_lease 10 ''a'' ''u'' ''w'' ''x'' 5 sample_rt = (Inr True, s1)"
    by (simp add: acquire_run sample_rt_tasks u64_try_from_def)
  with lease_has_one_owner [OF sample_rt_keyed this, of 7 10 "''y''"] show ?thesis
    by simp
qed

section \<open>The ready list\<close>

lemma all_completed_iff:
  "all_completed s uid wid deps \<longleftrightarrow>
     (\<forall>dep \<in> set deps. \<exists>t. task_at s (dep, uid, wid) = Some t \<and> t_status t = TCompleted)"
  by (induction deps) (auto split: option.splits)

lemma dispatchable_iff: "dispatchable st \<longleftrightarrow> st = TQueued \<or> st = TPending"
  by (cases st) simp_all

lemma not_overdue_iff:
  "overdue_reason t now = None \<longleftrightarrow> \<not> passed (t_expires_at t) now \<and> \<not> passed (t_deadline t) now"
  by (simp add: overdue_reason_def)

lemma ready_rank: "4 - priority_rank p \<le> 4 - priority_rank q \<longleftrightarrow> q \<le> p"
  by (cases p; cases q) (simp_all add: less_eq_task_priority_def)

lemma set_tasks_in:
  "set (tasks_in s uid wid) = tk_json ` {r \<in> set (db_tasks (rt_store s)). tk_user_id r = uid \<and> tk_workspace_id r = wid}"
  by (auto simp: tasks_in_def)

lemma ready_task_sound:
  assumes "is_ready s uid wid now t"
  shows "(t_status t = TQueued \<or> t_status t = TPending) \<and> \<not> passed (t_expires_at t) now \<and>
    \<not> passed (t_deadline t) now \<and> (t_not_before t = None \<or> passed (t_not_before t) now) \<and>
    (\<forall>dep \<in> set (dependencies_of s (t_task_id t) uid wid).
       \<exists>d. task_at s (dep, uid, wid) = Some d \<and> t_status d = TCompleted)"
  using assms
  by (auto simp: is_ready_def dispatchable_iff not_overdue_iff dependencies_completed_def
      all_completed_iff passed_def split: option.splits)

lemma ready_tasks_in_take:
  assumes "ts = ready_tasks_in s uid wid now limit"
  obtains n where "ts = take n (sort_key ready_order (filter (is_ready s uid wid now) (tasks_in s uid wid)))"
    "limit = Some n \<or> n = length (filter (is_ready s uid wid now) (tasks_in s uid wid))"
proof (cases limit)
  case None
  show thesis
    using assms None that [of "length (filter (is_ready s uid wid now) (tasks_in s uid wid))"]
    by (simp add: ready_tasks_in_def)
next
  case (Some n)
  show thesis
    using assms Some that [of n] by (simp add: ready_tasks_in_def Let_def)
qed

lemma sorted_take_best:
  assumes "x \<in> set (take n (sort_key f xs))" "y \<in> set xs" "y \<notin> set (take n (sort_key f xs))"
  shows "f x \<le> f y"
proof -
  have "y \<in> set (drop n (sort_key f xs))"
    using assms(2,3) by (metis Un_iff append_take_drop_id set_append set_sort)
  moreover have "sorted (map f (take n (sort_key f xs)) @ map f (drop n (sort_key f xs)))"
    by (metis append_take_drop_id map_append sorted_sort_key)
  ultimately show ?thesis
    using assms(1) by (auto simp: sorted_append)
qed

text \<open>
  The ready list is right. Every listed task is queued or pending, inside its time window,
  and all its dependencies exist and are completed; the list is ordered by priority, age and
  id; and a ready task is left out only when the limit is used up by tasks that come no later
  in that order.
\<close>

lemma ready_list_exact:
  assumes "ready_tasks uid wid now limit s = (Inr ts, s')"
  shows "s' = s \<and> sorted (map ready_order ts) \<and>
    (\<forall>t \<in> set ts. t \<in> set (tasks_in s uid wid) \<and> (t_status t = TQueued \<or> t_status t = TPending) \<and>
       \<not> passed (t_expires_at t) now \<and> \<not> passed (t_deadline t) now \<and>
       (t_not_before t = None \<or> passed (t_not_before t) now) \<and>
       (\<forall>dep \<in> set (dependencies_of s (t_task_id t) uid wid).
          \<exists>d. task_at s (dep, uid, wid) = Some d \<and> t_status d = TCompleted)) \<and>
    (\<forall>t \<in> set (tasks_in s uid wid). is_ready s uid wid now t \<longrightarrow> t \<notin> set ts \<longrightarrow>
       limit = Some (length ts) \<and> (\<forall>u \<in> set ts. ready_order u \<le> ready_order t))"
proof (intro conjI)
  let ?cs = "filter (is_ready s uid wid now) (tasks_in s uid wid)"
  have eq: "ts = ready_tasks_in s uid wid now limit" and same: "s' = s"
    using assms by (auto simp: ready_tasks_def rt_read_def)
  obtain n where ts: "ts = take n (sort_key ready_order ?cs)"
      and n: "limit = Some n \<or> n = length ?cs"
    by (rule ready_tasks_in_take [OF eq]) blast
  have sub: "t \<in> set (tasks_in s uid wid) \<and> is_ready s uid wid now t" if "t \<in> set ts" for t
    using in_set_takeD [of t n "sort_key ready_order ?cs"] that ts by simp
  show "s' = s"
    by (rule same)
  show "sorted (map ready_order ts)"
    unfolding ts take_map [symmetric] by (simp add: sorted_wrt_take)
  show "\<forall>t \<in> set ts. t \<in> set (tasks_in s uid wid) \<and> (t_status t = TQueued \<or> t_status t = TPending) \<and>
       \<not> passed (t_expires_at t) now \<and> \<not> passed (t_deadline t) now \<and>
       (t_not_before t = None \<or> passed (t_not_before t) now) \<and>
       (\<forall>dep \<in> set (dependencies_of s (t_task_id t) uid wid).
          \<exists>d. task_at s (dep, uid, wid) = Some d \<and> t_status d = TCompleted)"
    using sub by (intro ballI) (metis ready_task_sound)
  show "\<forall>t \<in> set (tasks_in s uid wid). is_ready s uid wid now t \<longrightarrow> t \<notin> set ts \<longrightarrow>
       limit = Some (length ts) \<and> (\<forall>u \<in> set ts. ready_order u \<le> ready_order t)"
  proof (intro ballI impI)
    fix t assume t: "t \<in> set (tasks_in s uid wid)" "is_ready s uid wid now t" "t \<notin> set ts"
    then have "t \<in> set ?cs"
      by simp
    with t(3) have less: "n < length ?cs"
      unfolding ts by (metis length_sort not_le set_sort take_all)
    then have "limit = Some (length ts)"
      using n ts by simp
    moreover have "ready_order u \<le> ready_order t" if "u \<in> set ts" for u
      using that \<open>t \<in> set ?cs\<close> t(3) unfolding ts by (rule sorted_take_best)
    ultimately show "limit = Some (length ts) \<and> (\<forall>u \<in> set ts. ready_order u \<le> ready_order t)"
      by simp
  qed
qed

lemma ready_list_exact_witness:
  "\<exists>ts. ready_tasks ''u'' ''w'' 5 (Some 3) sample_rt = (Inr ts, sample_rt) \<and>
     sorted (map ready_order ts) \<and> sample_second \<notin> set ts"
proof -
  let ?ts = "ready_tasks_in sample_rt ''u'' ''w'' 5 (Some 3)"
  have run: "ready_tasks ''u'' ''w'' 5 (Some 3) sample_rt = (Inr ?ts, sample_rt)"
    by (simp add: ready_tasks_def rt_read_def)
  note r = ready_list_exact [OF run]
  have "\<not> (\<exists>d. task_at sample_rt (''a'', ''u'', ''w'') = Some d \<and> t_status d = TCompleted)"
    by (simp add: sample_rt_tasks)
  moreover have "''a'' \<in> set (dependencies_of sample_rt (t_task_id sample_second) ''u'' ''w'')"
    by (simp add: dependencies_of_def sample_rt_def)
  ultimately have "sample_second \<notin> set ?ts"
    using r by blast
  with run r show ?thesis by blast
qed

end
