(* ===== verification/TaskLimits.thy ===== *)
theory TaskLimits
  imports TaskTheorems
begin

text \<open>
  The limits of the task runtime: a dispatch never takes a resource class over its limit, a
  failing task uses at most its attempts, and a finished step gives back its lease and its
  resources.
\<close>

section \<open>Resource limits\<close>

text \<open>Reservations have their primary key, and no limited class is over its limit.\<close>

definition within_limits :: "resource_limits \<Rightarrow> runtime_db \<Rightarrow> bool" where
  "within_limits limits s \<longleftrightarrow>
     distinct (map reservation_key (rt_reservations s)) \<and>
     (\<forall>uid wid cls limit. limits cls = Some limit \<longrightarrow>
        units_of (class_rows s uid wid cls) \<le> unat limit)"

lemma within_limits_cong:
  "same_reservations s s' \<Longrightarrow> within_limits limits s' = within_limits limits s"
  by (simp add: within_limits_def same_reservations_def class_rows_def)

lemma units_of_partition: "units_of t = units_of (filter P t) + units_of (filter (\<lambda>r. \<not> P r) t)"
  by (induction t) (simp_all add: units_of_def)

lemma units_of_single:
  assumes "distinct (map key t)" "r \<in> set t"
  shows "units_of (filter (\<lambda>q. key q = key r) t) = unat (rs_units r)"
  using assms
proof (induction t)
  case (Cons q t)
  show ?case
  proof (cases "q = r")
    case True
    then have "key r \<notin> key ` set t"
      using Cons.prems(1) by simp
    then have "filter (\<lambda>q. key q = key r) t = []"
      by (metis (mono_tags) filter_False image_eqI)
    with True show ?thesis by (simp add: units_of_def)
  next
    case False
    then have "key q \<noteq> key r"
      using Cons.prems by force
    with False Cons show ?thesis
      by (simp add: units_of_def)
  qed
qed simp

definition usage_besides :: "runtime_db \<Rightarrow> task_record \<Rightarrow> resource_class \<Rightarrow> nat" where
  "usage_besides s t cls =
     units_of (filter (\<lambda>r. \<not> held_by_task t r) (class_rows s (t_user_id t) (t_workspace_id t) cls))"

definition usage_own :: "runtime_db \<Rightarrow> task_record \<Rightarrow> resource_class \<Rightarrow> nat" where
  "usage_own s t cls =
     units_of (filter (held_by_task t) (class_rows s (t_user_id t) (t_workspace_id t) cls))"

lemma usage_split:
  "units_of (class_rows s (t_user_id t) (t_workspace_id t) cls) = usage_own s t cls + usage_besides s t cls"
  unfolding usage_own_def usage_besides_def by (rule units_of_partition)

lemma own_rows:
  "filter (\<lambda>r. rs_task_id r = t_task_id t) (class_rows s (t_user_id t) (t_workspace_id t) cls) =
     filter (held_by_task t) (class_rows s (t_user_id t) (t_workspace_id t) cls)"
  by (simp add: class_rows_def held_by_task_def reservation_key_def owner_key_def) (rule filter_cong; auto)

lemma unat_small: "n \<le> unat (w :: u32) \<Longrightarrow> unat (word_of_nat n :: u32) = n"
  using unsigned_less [where ?'a = nat, of w]
  by (simp add: unat_of_nat take_bit_nat_eq_self)

lemma saturating_sub_exact: "unat (saturating_sub a b) = unat a - unat b"
  by (simp add: saturating_sub_def unat_sub word_le_nat_alt)

text \<open>What the governor's check establishes.\<close>

lemma governor_check:
  assumes "within_limits limits s" "unavailable_among limits t qs s = (Inr None, s')"
    "q \<in> set qs" "limits (tr_class q) = Some limit"
  shows "usage_besides s t (tr_class q) + unat (tr_units q) \<le> unat limit"
  using assms(2,3)
proof (induction qs)
  case (Cons p qs)
  show ?case
  proof (cases "limits (tr_class p)")
    case None
    with Cons assms(4) show ?thesis
      by auto
  next
    case (Some l)
    let ?used = "word_of_nat (units_of (class_rows s (t_user_id t) (t_workspace_id t) (tr_class p))) :: u32"
    let ?own = "word_of_nat (usage_own s t (tr_class p)) :: u32"
    let ?free = "saturating_sub l (saturating_sub ?used ?own)"
    have le: "units_of (class_rows s (t_user_id t) (t_workspace_id t) (tr_class p)) \<le> unat l"
      using assms(1) Some by (simp add: within_limits_def)
    have run: "\<not> ?free < tr_units p" "unavailable_among limits t qs s = (Inr None, s')"
      using Cons.prems(1) Some
      by (auto simp: rt_simps resource_usage_def resource_usage_for_task_def own_rows usage_own_def
          Let_def split: if_splits)
    have "unat ?used = usage_own s t (tr_class p) + usage_besides s t (tr_class p)"
        "unat ?own = usage_own s t (tr_class p)"
      using le unat_small [of _ l] unat_small [of "usage_own s t (tr_class p)" l]
      by (simp_all add: usage_split del: of_nat_add)
    then have "unat ?free = unat l - usage_besides s t (tr_class p)"
      by (simp add: saturating_sub_exact)
    then have "usage_besides s t (tr_class p) + unat (tr_units p) \<le> unat l"
      using run(1) le by (simp add: usage_split word_less_nat_alt)
    with Cons run(2) Some assms(4) show ?thesis
      by auto
  qed
qed simp

section \<open>Reserving\<close>

lemma filter_upsert_other:
  assumes "\<And>q. key q = key r \<Longrightarrow> \<not> P q"
  shows "filter P (upsert key (\<lambda>old new. new) r t) = filter P t"
proof -
  have "filter P (update_where (\<lambda>q. key q = key r) (\<lambda>q. r) t) = filter P t"
    using assms by (induction t) auto
  with assms show ?thesis
    by (simp add: upsert_def)
qed

lemma in_upsert: "r \<in> set (upsert key (\<lambda>old new. new) r t)"
  by (auto simp: upsert_def update_where_def image_iff)

definition reserved :: "task_record \<Rightarrow> string \<Rightarrow> task_resource_requirement \<Rightarrow> int \<Rightarrow> reservation_row" where
  "reserved t owner q now =
     \<lparr>rs_task_id = t_task_id t, rs_user_id = t_user_id t, rs_workspace_id = t_workspace_id t,
      rs_resource_class = resource_class_as_str (tr_class q), rs_units = tr_units q,
      rs_owner = owner, rs_created_at = unix_timestamp now\<rparr>"

lemma reserve_one_run:
  obtains s' now where "reserve_one env t owner q u s = (Inr (), s')"
    "rt_reservations s' = upsert reservation_key (\<lambda>old new. new) (reserved t owner q now) (rt_reservations s)"
    "rt_store s' = rt_store s"
  by (simp add: reserve_one_def rt_simps now_utc_def reserved_def)

lemma own_class_rows:
  "filter (held_by_task t) (class_rows s (t_user_id t) (t_workspace_id t) cls) =
     filter (\<lambda>r. reservation_key r = (owner_key t, resource_class_as_str cls)) (rt_reservations s)"
  by (auto simp: class_rows_def held_by_task_def reservation_key_def owner_key_def intro!: filter_cong)

lemma reserve_one_usage:
  assumes "distinct (map reservation_key (rt_reservations s))" "reserve_one env t owner q u s = (Inr (), s')"
  shows "distinct (map reservation_key (rt_reservations s'))"
    "usage_besides s' t cls = usage_besides s t cls"
    "usage_own s' t (tr_class q) = unat (tr_units q)"
    "(uid, wid, cls) \<noteq> (t_user_id t, t_workspace_id t, tr_class q) \<Longrightarrow>
       class_rows s' uid wid cls = class_rows s uid wid cls"
proof -
  obtain s'' now where "reserve_one env t owner q u s = (Inr (), s'')"
      "rt_reservations s'' = upsert reservation_key (\<lambda>old new. new) (reserved t owner q now) (rt_reservations s)"
      "rt_store s'' = rt_store s"
    by (rule reserve_one_run [of env t owner q u s])
  then have rows: "rt_reservations s' =
      upsert reservation_key (\<lambda>old new. new) (reserved t owner q now) (rt_reservations s)"
    using assms(2) by simp
  have key: "reservation_key (reserved t owner q now) = (owner_key t, resource_class_as_str (tr_class q))"
    by (simp add: reserved_def reservation_key_def owner_key_def)
  show d: "distinct (map reservation_key (rt_reservations s'))"
    unfolding rows by (rule reservation_table.upsert_distinct [OF assms(1)])
  show "usage_besides s' t cls = usage_besides s t cls"
    unfolding usage_besides_def class_rows_def rows filter_filter
    by (subst filter_upsert_other) (auto simp: key held_by_task_def)
  have "reserved t owner q now \<in> set (rt_reservations s')"
    unfolding rows by (rule in_upsert)
  from units_of_single [OF d this] show "usage_own s' t (tr_class q) = unat (tr_units q)"
    unfolding usage_own_def own_class_rows key by (simp add: reserved_def)
  show "class_rows s' uid wid cls = class_rows s uid wid cls"
    if "(uid, wid, cls) \<noteq> (t_user_id t, t_workspace_id t, tr_class q)"
    unfolding class_rows_def rows using that
    by (subst filter_upsert_other) (auto simp: key reserved_def reservation_key_def owner_key_def resource_class_as_str_inject)
qed

lemma reserve_keeps_limits:
  assumes "within_limits limits s"
    "\<And>q limit. q \<in> set qs \<Longrightarrow> limits (tr_class q) = Some limit \<Longrightarrow>
       usage_besides s t (tr_class q) + unat (tr_units q) \<le> unat limit"
    "rt_fold (reserve_one env t owner) qs u s = (r, s')"
  shows "within_limits limits s'"
  using assms
proof (induction qs arbitrary: s u)
  case Nil
  then show ?case by (simp add: rt_simps)
next
  case (Cons q qs)
  obtain s1 where one: "reserve_one env t owner q u s = (Inr (), s1)"
    by (rule reserve_one_run [of env t owner q u s])
  have d: "distinct (map reservation_key (rt_reservations s))"
    using Cons.prems(1) by (simp add: within_limits_def)
  note use = reserve_one_usage [OF d one]
  have "units_of (class_rows s1 uid wid cls) \<le> unat limit" if "limits cls = Some limit" for uid wid cls limit
  proof (cases "(uid, wid, cls) = (t_user_id t, t_workspace_id t, tr_class q)")
    case True
    then show ?thesis
      using use(2,3) Cons.prems(2) [of q] that by (simp add: usage_split)
  next
    case False
    then show ?thesis
      using use(4) [OF False] Cons.prems(1) that by (simp add: within_limits_def)
  qed
  then have "within_limits limits s1"
    using use(1) by (simp add: within_limits_def)
  moreover have "rt_fold (reserve_one env t owner) qs () s1 = (r, s')"
    using Cons.prems(3) one by (simp add: rt_bind_def)
  ultimately show ?case
    using Cons.IH [of s1 "()"] Cons.prems(2) use(2) by simp
qed

lemma reserve_owns:
  assumes "distinct (map reservation_key (rt_reservations s))" "distinct (map tr_class qs)"
    "rt_fold (reserve_one env t owner) qs u s = (r, s')"
  shows "(\<forall>q \<in> set qs. usage_own s' t (tr_class q) = unat (tr_units q)) \<and>
    (\<forall>cls. cls \<notin> tr_class ` set qs \<longrightarrow> usage_own s' t cls = usage_own s t cls)"
  using assms
proof (induction qs arbitrary: s u)
  case Nil
  then show ?case by (simp add: rt_simps)
next
  case (Cons q qs)
  obtain s1 where one: "reserve_one env t owner q u s = (Inr (), s1)"
    by (rule reserve_one_run [of env t owner q u s])
  note use = reserve_one_usage [OF Cons.prems(1) one]
  have rest: "rt_fold (reserve_one env t owner) qs () s1 = (r, s')"
    using Cons.prems(3) one by (simp add: rt_bind_def)
  have other: "usage_own s1 t cls = usage_own s t cls" if "cls \<noteq> tr_class q" for cls
    using use(4) [of "t_user_id t" "t_workspace_id t" cls] that by (simp add: usage_own_def)
  have d: "distinct (map tr_class qs)" "tr_class q \<notin> tr_class ` set qs"
    using Cons.prems(2) by simp_all
  note IH = Cons.IH [OF use(1) d(1) rest]
  show ?case
    using IH d(2) use(3) other by simp
qed

section \<open>A dispatch\<close>

lemma unavailable_reads: "snd (unavailable_among limits t qs s) = s"
  by (induction qs) (simp_all add: rt_simps resource_usage_def resource_usage_for_task_def Let_def
      split: option.split)

lemma update_status_run:
  "update_task_status env tid uid wid status reason s =
     (case task_at s (tid, uid, wid) of
        None \<Rightarrow> (Inl (NotFound tid), s)
      | Some t \<Rightarrow> (Inr (), put_task (t\<lparr>t_status := status, t_blocked_reason := reason,
          t_updated_at := en_now env (rt_ticks s)\<rparr>) (s\<lparr>rt_ticks := Suc (rt_ticks s)\<rparr>)))"
  by (simp add: update_task_status_def rt_bind_def get_required_run now_utc_def insert_task_def
      rt_modify_def split: option.split)

lemma put_task_reservations [simp]: "rt_reservations (put_task t s) = rt_reservations s"
  by (simp add: put_task_def)

lemma usage_cong:
  "rt_reservations s' = rt_reservations s \<Longrightarrow> t_task_id t' = t_task_id t \<Longrightarrow> t_user_id t' = t_user_id t \<Longrightarrow>
   t_workspace_id t' = t_workspace_id t \<Longrightarrow> usage_besides s' t' = usage_besides s t"
  by (rule ext) (simp add: usage_besides_def class_rows_def held_by_task_def owner_key_def)

lemma reserve_fold_total: "\<exists>s'. rt_fold (reserve_one env t owner) qs u s = (Inr (), s')"
proof (induction qs arbitrary: s u)
  case Nil
  then show ?case by (simp add: rt_simps)
next
  case (Cons q qs)
  obtain s1 where "reserve_one env t owner q u s = (Inr (), s1)"
    by (rule reserve_one_run [of env t owner q u s])
  with Cons.IH [of "()" s1] show ?case
    by (auto simp: rt_bind_def)
qed

lemma usage_own_cong:
  assumes "owner_key t' = owner_key t"
  shows "usage_own s t' cls = usage_own s t cls"
proof -
  have "held_by_task t' = held_by_task t"
    by (simp add: fun_eq_iff held_by_task_def assms)
  then show ?thesis
    using assms by (simp add: usage_own_def owner_key_def)
qed

text \<open>
  Either the reservations are as they were, or the governor found room, the lease was taken and
  the reservations of the task were written.
\<close>

lemma acquire_task_cases:
  assumes "keyed s" "task_at s (owner_key t) = Some t0"
    "acquire_task_for_execution env limits duration t (t_user_id t) (t_workspace_id t) worker now s = (r, s')"
  obtains "rt_reservations s' = rt_reservations s" "\<And>u. r \<noteq> Inr (Acquired u)"
  | leased s1 where "r = Inr (Acquired leased)" "t_resource_requirements leased = t_resource_requirements t0"
      "owner_key leased = owner_key t" "rt_reservations s1 = rt_reservations s"
      "unavailable_among limits t (t_resource_requirements t) s = (Inr None, s)"
      "rt_fold (reserve_one env leased worker) (t_resource_requirements leased) () s1 = (Inr (), s')"
proof -
  obtain q where q: "unavailable_among limits t (t_resource_requirements t) s = (q, s)"
    by (metis unavailable_reads prod.collapse)
  show thesis
  proof (cases "q = Inr None")
    case False
    have "rt_reservations s' = rt_reservations s \<and> (\<forall>u. r \<noteq> Inr (Acquired u))"
      using assms(2,3) q False
      by (auto simp: acquire_task_for_execution_def mark_waiting_if_unavailable_def unavailable_reason_def
          rt_bind_def rt_return_def update_status_run owner_key_def get_task_def rt_read_def
          split: sum.splits option.splits)
    with that(1) show thesis by blast
  next
    case True
    have run: "acquire_task_for_execution env limits duration t (t_user_id t) (t_workspace_id t) worker now s =
      rt_bind (acquire_lease duration (t_task_id t) (t_user_id t) (t_workspace_id t) worker now) (\<lambda>acquired.
       if \<not> acquired then rt_return LeaseBusy
       else rt_bind (get_required_task (t_task_id t) (t_user_id t) (t_workspace_id t)) (\<lambda>leased.
         rt_bind (reserve_resources env leased worker) (\<lambda>_. rt_return (Acquired leased)))) s"
      using q True by (simp add: acquire_task_for_execution_def mark_waiting_if_unavailable_def
          unavailable_reason_def rt_bind_def rt_return_def)
    show thesis
    proof (cases "\<exists>s1. acquire_lease duration (t_task_id t) (t_user_id t) (t_workspace_id t) worker now s =
        (Inr True, s1)")
      case False
      then have "rt_reservations s' = rt_reservations s \<and> (\<forall>u. r \<noteq> Inr (Acquired u))"
        using assms(3) unfolding run
        by (auto simp: rt_bind_def rt_return_def acquire_run split: option.splits if_splits)
      with that(1) show thesis by blast
    next
      case True
      then obtain s1 where s1: "acquire_lease duration (t_task_id t) (t_user_id t) (t_workspace_id t)
          worker now s = (Inr True, s1)" ..
      have same: "rt_reservations s1 = rt_reservations s"
        using s1 by (auto simp: acquire_run split: option.splits if_splits)
      obtain u f where at: "task_at s (t_task_id t, t_user_id t, t_workspace_id t) = Some u"
          "task_at s1 (t_task_id t, t_user_id t, t_workspace_id t) = Some (u\<lparr>t_status := TRunning,
             t_lease_owner := Some worker, t_last_heartbeat_at := Some now,
             t_lease_expires_at := Some (now + duration), t_lease_fencing_token := Some f,
             t_updated_at := now\<rparr>)"
        by (rule acquired_state [OF assms(1) s1])
      let ?u = "u\<lparr>t_status := TRunning, t_lease_owner := Some worker, t_last_heartbeat_at := Some now,
         t_lease_expires_at := Some (now + duration), t_lease_fencing_token := Some f,
         t_updated_at := now\<rparr>"
      have u: "u = t0"
        using at(1) assms(2) by (simp add: owner_key_def)
      have "owner_key u = owner_key t"
        using keyedD [OF assms(1) assms(2)] u by simp
      then have key: "owner_key ?u = owner_key t"
        by (simp add: owner_key_def)
      obtain s2 where fold: "rt_fold (reserve_one env ?u worker) (t_resource_requirements ?u) () s1 = (Inr (), s2)"
        using reserve_fold_total by blast
      have "r = Inr (Acquired ?u) \<and> s' = s2"
        using assms(3) fold unfolding run
        by (simp add: rt_bind_def s1 get_required_run at(2) reserve_resources_def rt_return_def)
      with key same q True fold u show thesis
        using that(2) [of ?u s1] \<open>q = Inr None\<close> by simp
    qed
  qed
qed

text \<open>
  C39: a dispatch respects the resource limits. If no class is over its limit before
  \<open>acquire_task_for_execution\<close>, none is after it, whether the task was parked, found the lease
  busy or was acquired; and an acquired task whose requirements name each class once holds
  exactly the units it asked for. (The task handed in is the stored one.)
\<close>

theorem dispatch_respects_limits:
  assumes "keyed s" "within_limits limits s" "task_at s (owner_key t) = Some t"
    "acquire_task_for_execution env limits duration t (t_user_id t) (t_workspace_id t) worker now s = (r, s')"
  shows "within_limits limits s' \<and>
    (\<forall>leased. r = Inr (Acquired leased) \<longrightarrow> distinct (map tr_class (t_resource_requirements t)) \<longrightarrow>
       (\<forall>q \<in> set (t_resource_requirements t). usage_own s' t (tr_class q) = unat (tr_units q)))"
  using assms(1,3,4)
proof (cases rule: acquire_task_cases)
  case 1
  then show ?thesis
    using assms(2) within_limits_cong [of s s' limits] by (simp add: same_reservations_def)
next
  case (2 leased s1)
  have limits: "within_limits limits s1"
    using assms(2) within_limits_cong [of s s1 limits] 2(4) by (simp add: same_reservations_def)
  have "usage_besides s1 leased = usage_besides s t"
    using 2(3,4) by (intro usage_cong) (simp_all add: owner_key_def)
  then have "within_limits limits s'"
    using governor_check [OF assms(2) 2(5)] 2(2)
    by (intro reserve_keeps_limits [OF limits _ 2(6)]) simp
  moreover have "usage_own s' leased cls = usage_own s' t cls" for cls
    using 2(3) by (rule usage_own_cong)
  moreover have "distinct (map reservation_key (rt_reservations s1))"
    using limits by (simp add: within_limits_def)
  ultimately show ?thesis
    using reserve_owns [OF _ _ 2(6)] 2(2) by simp
qed

lemma sample_rt_limits: "within_limits conservative_defaults sample_rt"
  by (simp add: within_limits_def sample_rt_def class_rows_def units_of_def)

theorem dispatch_respects_limits_witness:
  "\<exists>r s'. acquire_task_for_execution \<lparr>en_now = int, en_uuid = (\<lambda>n. ''id''), en_range_error = ''range''\<rparr>
       conservative_defaults 10 sample_first ''u'' ''w'' ''x'' 5 sample_rt = (r, s') \<and>
     within_limits conservative_defaults s'"
proof -
  obtain r s' where run: "acquire_task_for_execution
      \<lparr>en_now = int, en_uuid = (\<lambda>n. ''id''), en_range_error = ''range''\<rparr>
      conservative_defaults 10 sample_first ''u'' ''w'' ''x'' 5 sample_rt = (r, s')"
    by fastforce
  moreover have "task_at sample_rt (owner_key sample_first) = Some sample_first"
    by (simp add: sample_rt_tasks owner_key_def)
  ultimately show ?thesis
    using dispatch_respects_limits [OF sample_rt_keyed sample_rt_limits, of sample_first] by simp
qed

section \<open>Attempts\<close>

lemma record_failure_run:
  assumes "task_at s (tid, uid, wid) = Some t"
  shows "record_failure tid uid wid reason now s =
    (Inr (), put_task (failed_attempt t reason now)
       (s\<lparr>rt_reservations := delete_where (held_by_task (failed_attempt t reason now)) (rt_reservations s)\<rparr>))"
  using assms by (simp add: record_failure_def rt_bind_def get_required_run release_resources_def
      rt_modify_def insert_task_def)

lemma failed_attempt_fields [simp]:
  "owner_key (failed_attempt t reason now) = owner_key t"
  "t_attempt_count (failed_attempt t reason now) = t_attempt_count t + 1"
  "t_retry_policy (failed_attempt t reason now) = t_retry_policy t"
  "t_lease_owner (failed_attempt t reason now) = None"
  "t_lease_expires_at (failed_attempt t reason now) = None"
  "t_status (failed_attempt t reason now) =
     (if t_attempt_count t + 1 < rp_max_attempts (t_retry_policy t) then TWaitingTime else TFailed)"
  "t_not_before (failed_attempt t reason now) =
     (if t_attempt_count t + 1 < rp_max_attempts (t_retry_policy t)
        then Some (now + rp_backoff_seconds (t_retry_policy t) * NANOS) else None)"
  by (simp_all add: failed_attempt_def clear_lease_def owner_key_def Let_def)

lemma keyed_other [simp]: "keyed (s\<lparr>rt_reservations := x\<rparr>) = keyed s" "keyed (s\<lparr>rt_ticks := n\<rparr>) = keyed s"
  by (simp_all add: keyed_def)

text \<open>A task that fails at each of the given times.\<close>

primrec failures :: "string \<Rightarrow> string \<Rightarrow> string \<Rightarrow> string \<Rightarrow> int list \<Rightarrow> unit rt" where
  "failures tid uid wid reason [] = rt_return ()"
| "failures tid uid wid reason (now # nows) =
     rt_bind (record_failure tid uid wid reason now) (\<lambda>_. failures tid uid wid reason nows)"

lemma unat_next: "unat (a :: u32) + 1 < 2 ^ 32 \<Longrightarrow> unat (a + 1) = unat a + 1"
  by (simp add: unat_word_ariths)

text \<open>
  Retries are bounded. A task that fails again and again has used one attempt for each
  failure; below the maximum of its policy it waits for the backoff after the last failure, from
  the maximum on it is failed for good; in both cases it holds neither a lease nor resources.
\<close>

lemma retries_are_bounded:
  assumes "keyed s" "task_at s (tid, uid, wid) = Some t" "nows \<noteq> []"
    "unat (t_attempt_count t) + length nows < 2 ^ 32"
  shows "\<exists>s' u. failures tid uid wid reason nows s = (Inr (), s') \<and> task_at s' (tid, uid, wid) = Some u \<and>
    unat (t_attempt_count u) = unat (t_attempt_count t) + length nows \<and>
    t_retry_policy u = t_retry_policy t \<and> t_lease_owner u = None \<and> t_lease_expires_at u = None \<and>
    \<not> list_ex (held_by_task u) (rt_reservations s') \<and>
    t_status u = (if unat (t_attempt_count t) + length nows < unat (rp_max_attempts (t_retry_policy t))
      then TWaitingTime else TFailed) \<and>
    t_not_before u = (if t_status u = TFailed then None
      else Some (last nows + rp_backoff_seconds (t_retry_policy t) * NANOS))"
  using assms
proof (induction nows arbitrary: s t)
  case (Cons now nows)
  let ?t = "failed_attempt t reason now"
  let ?s = "put_task ?t (s\<lparr>rt_reservations := delete_where (held_by_task ?t) (rt_reservations s)\<rparr>)"
  have run: "record_failure tid uid wid reason now s = (Inr (), ?s)"
    by (rule record_failure_run [OF Cons.prems(2)])
  have key: "owner_key t = (tid, uid, wid)"
    using Cons.prems(1,2) by (rule keyedD)
  have at: "task_at ?s (tid, uid, wid) = Some ?t"
    by (simp add: task_at_put key)
  have count: "unat (t_attempt_count t + 1) = unat (t_attempt_count t) + 1"
    using Cons.prems(4) by (intro unat_next) simp
  show ?case
  proof (cases "nows = []")
    case True
    have "\<not> list_ex (held_by_task ?t) (rt_reservations ?s)"
      by (simp add: list_ex_iff)
    with True run at count show ?thesis
      by (simp add: rt_bind_def rt_return_def word_less_nat_alt)
  next
    case False
    have "keyed ?s"
      using Cons.prems(1) by (intro keyed_put) simp
    note IH = Cons.IH [OF this at False]
    have "unat (t_attempt_count ?t) + length nows < 2 ^ 32"
      using count Cons.prems(4) by simp
    from IH [OF this] show ?thesis
      using run False count by (simp add: rt_bind_def cong: if_cong)
  qed
qed simp

lemma retries_are_bounded_witness:
  "\<exists>s' u. failures ''a'' ''u'' ''w'' ''no'' [7, 40] sample_rt = (Inr (), s') \<and>
     task_at s' (''a'', ''u'', ''w'') = Some u \<and> t_status u = TFailed \<and> t_attempt_count u = 2"
proof -
  have at: "task_at sample_rt (''a'', ''u'', ''w'') = Some sample_first"
    by (simp add: sample_rt_tasks)
  have "x = 2" if "unat x = 2" for x :: u32
    using that by (simp add: word_unat_eq_iff)
  then show ?thesis
    using retries_are_bounded [OF sample_rt_keyed at, of "[7, 40]" "''no''"] by auto
qed

end
