(* ===== verification/TaskRounds.thy ===== *)
theory TaskRounds
  imports TaskLimits
begin

text \<open>
  A round of the runtime: what filing the result of a step leaves behind, and that the summary
  of a round balances. The last section proves where the code does not do what it means to.
\<close>

section \<open>Filing a result\<close>

lemma store_released_run:
  "store_released t s =
     (Inr (), put_task t (s\<lparr>rt_reservations := delete_where (held_by_task t) (rt_reservations s)\<rparr>))"
  by (simp add: store_released_def rt_bind_def release_resources_def rt_modify_def insert_task_def)

text \<open>A task is put down: stored with no lease, and nothing is reserved for it.\<close>

definition put_down :: "runtime_db \<Rightarrow> string \<times> string \<times> string \<Rightarrow> task_status \<Rightarrow> bool" where
  "put_down s k st \<longleftrightarrow>
     (\<exists>u. task_at s k = Some u \<and> t_status u = st \<and> t_lease_owner u = None \<and> t_lease_expires_at u = None) \<and>
     (\<forall>r \<in> set (rt_reservations s). fst (reservation_key r) \<noteq> k)"

lemma put_down_released:
  assumes "owner_key t = k" "t_lease_owner t = None" "t_lease_expires_at t = None" "t_status t = st"
  shows "put_down (put_task t (s\<lparr>rt_reservations := delete_where (held_by_task t) (rt_reservations s)\<rparr>)) k st"
  using assms by (simp add: put_down_def task_at_put held_by_task_def)

lemma put_down_put_other: "\<lbrakk>put_down s k st; owner_key t \<noteq> k\<rbrakk> \<Longrightarrow> put_down (put_task t s) k st"
  by (simp add: put_down_def task_at_put)

lemma finished_fields [simp]:
  "owner_key (finished t status reason now) = owner_key t"
  "t_lease_owner (finished t status reason now) = None"
  "t_lease_expires_at (finished t status reason now) = None"
  "t_status (finished t status reason now) = status"
  "t_task_id (finished t status reason now) = t_task_id t"
  "t_user_id (finished t status reason now) = t_user_id t"
  "t_workspace_id (finished t status reason now) = t_workspace_id t"
  "t_recurrence (finished t status reason now) = t_recurrence t"
  "t_recurrence_tz (finished t status reason now) = t_recurrence_tz t"
  by (simp_all add: finished_def clear_execution_state_def clear_lease_def owner_key_def)

section \<open>The next occurrence\<close>

lemma next_recurrence_alike:
  assumes "next_recurrence jf t now = Some v" "t_task_id t' = t_task_id t" "t_user_id t' = t_user_id t"
    "t_workspace_id t' = t_workspace_id t" "t_recurrence t' = t_recurrence t"
    "t_recurrence_tz t' = t_recurrence_tz t"
  obtains w where "next_recurrence jf t' now = Some w" "owner_key w = owner_key v"
    "t_status w = TQueued" "t_not_before w = t_not_before v" "t_attempt_count w = 0"
    "t_lease_owner w = None"
  using assms by (auto simp: next_recurrence_def clear_lease_def owner_key_def
      split: Option.bind_splits)

lemma next_recurrence_none:
  assumes "next_recurrence jf t now = None" "t_recurrence t' = t_recurrence t"
    "t_recurrence_tz t' = t_recurrence_tz t"
  shows "next_recurrence jf t' now = None"
  using assms by (auto simp: next_recurrence_def split: Option.bind_splits)

lemma next_recurrence_owner:
  "next_recurrence jf t now = Some v \<Longrightarrow> t_user_id v = t_user_id t \<and> t_workspace_id v = t_workspace_id t"
  by (auto simp: next_recurrence_def clear_lease_def split: Option.bind_splits)

text \<open>A queued successor is stored under the id of the next occurrence.\<close>

definition succeeded_by :: "runtime_db \<Rightarrow> task_record \<Rightarrow> bool" where
  "succeeded_by s v \<longleftrightarrow>
     (\<exists>w. task_at s (owner_key v) = Some w \<and> t_status w = TQueued \<and> t_not_before w = t_not_before v \<and>
        t_attempt_count w = 0 \<and> t_lease_owner w = None)"

lemma insert_next_run:
  assumes "put_down s k st" "owner_key t = k"
    "\<And>v. next_recurrence jf t now = Some v \<Longrightarrow> t_task_id v \<noteq> t_task_id t"
    "t_task_id t' = t_task_id t" "t_user_id t' = t_user_id t"
    "t_workspace_id t' = t_workspace_id t" "t_recurrence t' = t_recurrence t"
    "t_recurrence_tz t' = t_recurrence_tz t"
  obtains s' where "insert_next_recurrence jf t' now s = (Inr (), s')" "put_down s' k st"
    "\<forall>v. next_recurrence jf t now = Some v \<longrightarrow> succeeded_by s' v"
proof (cases "next_recurrence jf t now")
  case None
  then have "next_recurrence jf t' now = None"
    using next_recurrence_none assms(7,8) by blast
  with None show thesis
    using that [of s] assms(1) by (simp add: insert_next_recurrence_def rt_return_def)
next
  case (Some v)
  then obtain w where w: "next_recurrence jf t' now = Some w" "owner_key w = owner_key v"
    "t_status w = TQueued" "t_not_before w = t_not_before v" "t_attempt_count w = 0"
    "t_lease_owner w = None"
    by (rule next_recurrence_alike [OF _ assms(4-8)])
  have "owner_key w \<noteq> k"
    using w(2) assms(2) assms(3) [OF Some] by (auto simp: owner_key_def)
  then have "put_down (put_task w s) k st"
    by (rule put_down_put_other [OF assms(1)])
  moreover have "succeeded_by (put_task w s) v"
    using w by (simp add: succeeded_by_def task_at_put)
  ultimately show thesis
    using that [of "put_task w s"] w(1) Some
    by (simp add: insert_next_recurrence_def insert_task_def rt_modify_def)
qed

section \<open>What a filed step leaves\<close>

definition step_status :: "task_record \<Rightarrow> task_error + executor_result \<Rightarrow> task_status" where
  "step_status t result =
     (case result of
        Inr (ExCompleted out) \<Rightarrow> TCompleted
      | Inr (ExCheckpoint payload redacted) \<Rightarrow> TQueued
      | Inr (ExWaitUntil bound reason) \<Rightarrow> TWaitingTime
      | Inr (ExNeedsApproval action risk boundary explanation) \<Rightarrow> TWaitingUserApproval
      | _ \<Rightarrow> if t_attempt_count t + 1 < rp_max_attempts (t_retry_policy t) then TWaitingTime else TFailed)"

lemma record_failure_next:
  assumes "keyed s" "task_at s k = Some t" "k = (tid, uid, wid)"
    "\<And>v. next_recurrence jf t now = Some v \<Longrightarrow> t_task_id v \<noteq> t_task_id t"
    "record_failure_and_insert_next_if_terminal jf tid uid wid reason now s = (Inr x, s')"
  shows "put_down s' k (t_status (failed_attempt t reason now)) \<and>
    (t_status (failed_attempt t reason now) = TFailed \<longrightarrow>
      (\<forall>v. next_recurrence jf t now = Some v \<longrightarrow> succeeded_by s' v))"
proof -
  let ?t = "failed_attempt t reason now"
  let ?s = "put_task ?t (s\<lparr>rt_reservations := delete_where (held_by_task ?t) (rt_reservations s)\<rparr>)"
  have key: "owner_key t = k"
    using assms(1,2) by (rule keyedD)
  have down: "put_down ?s k (t_status ?t)"
    by (rule put_down_released) (simp_all add: key)
  have run: "record_failure tid uid wid reason now s = (Inr (), ?s)"
    using assms(2,3) by (simp add: record_failure_run)
  have at: "task_at ?s (tid, uid, wid) = Some ?t"
    using key assms(3) by (simp add: task_at_put)
  have fields: "t_task_id ?t = t_task_id t" "t_user_id ?t = t_user_id t"
    "t_workspace_id ?t = t_workspace_id t" "t_recurrence ?t = t_recurrence t"
    "t_recurrence_tz ?t = t_recurrence_tz t"
    by (simp_all add: failed_attempt_def clear_lease_def Let_def)
  obtain s2 where succ: "insert_next_recurrence jf ?t now ?s = (Inr (), s2)"
      "put_down s2 k (t_status ?t)" "\<forall>v. next_recurrence jf t now = Some v \<longrightarrow> succeeded_by s2 v"
    by (rule insert_next_run [OF down key assms(4) fields]) simp
  show ?thesis
  proof (cases "t_status ?t = TFailed")
    case True
    then have "s' = s2"
      using assms(5) run at succ(1)
      by (simp add: record_failure_and_insert_next_if_terminal_def rt_bind_def get_required_run
          del: failed_attempt_fields)
    with succ(2,3) show ?thesis by simp
  next
    case False
    then have "s' = ?s"
      using assms(5) run at
      by (simp add: record_failure_and_insert_next_if_terminal_def rt_bind_def get_required_run rt_return_def
          del: failed_attempt_fields)
    with down False show ?thesis by simp
  qed
qed

lemma append_checkpoint_task:
  assumes "task_at s (tid, uid, wid) = Some t" "owner_key t = (tid, uid, wid)"
    "append_checkpoint env tid uid wid payload redacted s = (Inr c, s')"
  obtains now where
    "task_at s' (tid, uid, wid) = Some (t\<lparr>t_checkpoint_json := Some redacted, t_updated_at := now\<rparr>)"
proof -
  have "task_at s' (tid, uid, wid) = Some (t\<lparr>t_checkpoint_json := Some redacted,
      t_updated_at := en_now env (Suc (rt_ticks s))\<rparr>)"
    using assms
    by (auto simp: append_checkpoint_def rt_simps next_checkpoint_sequence_def new_uuid_def now_utc_def
        get_task_def insert_task_def task_at_put owner_key_def Let_def split: if_splits)
  with that show thesis by blast
qed

lemma request_approval_run:
  assumes "put_down s k st" "k = (tid, uid, wid)" "keyed s"
    "request_approval env tid uid wid action risk boundary explanation s = (Inr a, s')"
  shows "put_down s' k TWaitingUserApproval"
proof -
  obtain t where t: "task_at s k = Some t" "t_lease_owner t = None" "t_lease_expires_at t = None"
    using assms(1) by (auto simp: put_down_def)
  have "owner_key t = k"
    using assms(3) t(1) by (rule keyedD)
  then show ?thesis
    using assms(1,2,4) t
    by (auto simp: request_approval_def rt_simps new_uuid_def now_utc_def insert_approval_def
        update_status_run put_down_def task_at_put owner_key_def Let_def
        split: option.splits)
qed

lemma filed_completed:
  assumes "\<And>v. next_recurrence (tr_jiff r) t now = Some v \<Longrightarrow> t_task_id v \<noteq> t_task_id t"
    "file_result r uid wid now t (Inr (ExCompleted out)) summary s = (Inr sm, s')"
  shows "put_down s' (owner_key t) TCompleted \<and>
    (\<forall>v. next_recurrence (tr_jiff r) t now = Some v \<longrightarrow> succeeded_by s' v)"
proof -
  let ?u = "finished t TCompleted None now"
  let ?s = "put_task ?u (s\<lparr>rt_reservations := delete_where (held_by_task ?u) (rt_reservations s)\<rparr>)"
  have down: "put_down ?s (owner_key t) TCompleted"
    by (rule put_down_released) simp_all
  obtain s2 where succ: "insert_next_recurrence (tr_jiff r) ?u now ?s = (Inr (), s2)"
      "put_down s2 (owner_key t) TCompleted"
      "\<forall>v. next_recurrence (tr_jiff r) t now = Some v \<longrightarrow> succeeded_by s2 v"
    by (rule insert_next_run [OF down HOL.refl assms(1) finished_fields(5-9)]) simp
  have "s' = s2"
    using assms(2) succ(1)
    by (simp add: file_result_def finish_task_def rt_bind_def store_released_run rt_return_def)
  with succ(2,3) show ?thesis by simp
qed

lemma filed_checkpoint:
  assumes "task_at s (owner_key t) = Some t"
    "file_result r (t_user_id t) (t_workspace_id t) now t (Inr (ExCheckpoint payload redacted)) summary s =
       (Inr sm, s')"
  shows "put_down s' (owner_key t) TQueued"
proof -
  obtain c s1 u where run: "append_checkpoint (tr_env r) (t_task_id t) (t_user_id t)
      (t_workspace_id t) payload redacted s = (Inr c, s1)"
      "task_at s1 (t_task_id t, t_user_id t, t_workspace_id t) = Some u"
      "finish_task u TQueued None now s1 = (Inr (), s')"
    using assms(2)
    by (auto simp: file_result_def rt_bind_def rt_return_def get_required_run
        split: prod.splits sum.splits option.splits)
  obtain at where "task_at s1 (t_task_id t, t_user_id t, t_workspace_id t) =
      Some (t\<lparr>t_checkpoint_json := Some redacted, t_updated_at := at\<rparr>)"
    by (rule append_checkpoint_task [OF _ owner_key_def run(1)])
      (use assms(1) in \<open>simp add: owner_key_def\<close>)
  with run(2) have "owner_key u = owner_key t"
    by (auto simp: owner_key_def)
  then show ?thesis
    using run(3) put_down_released [of "finished u TQueued None now" "owner_key t" TQueued s1]
    by (simp add: finish_task_def store_released_run)
qed

lemma filed_approval:
  assumes "keyed s"
    "file_result r (t_user_id t) (t_workspace_id t) now t
       (Inr (ExNeedsApproval action risk boundary explanation)) summary s = (Inr sm, s')"
  shows "put_down s' (owner_key t) TWaitingUserApproval"
proof -
  let ?u = "clear_execution_state t now"
  let ?s = "put_task ?u (s\<lparr>rt_reservations := delete_where (held_by_task ?u) (rt_reservations s)\<rparr>)"
  obtain a where run: "request_approval (tr_env r) (t_task_id t) (t_user_id t) (t_workspace_id t)
      action risk boundary explanation ?s = (Inr a, s')"
    using assms(2)
    by (auto simp: file_result_def rt_bind_def store_released_run rt_return_def
        split: prod.splits sum.splits)
  have "put_down ?s (owner_key t) (t_status t)"
    by (rule put_down_released) (simp_all add: clear_execution_state_def clear_lease_def owner_key_def)
  moreover have "keyed ?s"
    using assms(1) by (intro keyed_put) simp
  ultimately show ?thesis
    using request_approval_run [OF _ owner_key_def _ run] by blast
qed

lemma filed_wait:
  assumes "file_result r uid wid now t (Inr (ExWaitUntil bound reason)) summary s = (Inr sm, s')"
  shows "put_down s' (owner_key t) TWaitingTime"
proof -
  let ?u = "clear_execution_state (t\<lparr>t_status := TWaitingTime, t_not_before := Some bound,
    t_blocked_reason := Some reason\<rparr>) now"
  have "put_down (put_task ?u (s\<lparr>rt_reservations := delete_where (held_by_task ?u) (rt_reservations s)\<rparr>))
      (owner_key t) TWaitingTime"
    by (rule put_down_released) (simp_all add: clear_execution_state_def clear_lease_def owner_key_def)
  with assms show ?thesis
    by (simp add: file_result_def rt_bind_def store_released_run rt_return_def)
qed

text \<open>
  A filed step puts its task down. Whatever the executor answered, if the result is filed
  the task has the status that answer asks for, it holds no lease and nothing is reserved for
  it; and when it is over for good, a recurring task has a queued successor, not to be started
  before the next occurrence of its rule.
\<close>

lemma filed_step_puts_down:
  assumes "keyed s" "task_at s (owner_key t) = Some t"
    "\<And>v. next_recurrence (tr_jiff r) t now = Some v \<Longrightarrow> t_task_id v \<noteq> t_task_id t"
    "file_result r (t_user_id t) (t_workspace_id t) now t result summary s = (Inr sm, s')"
  shows "put_down s' (owner_key t) (step_status t result) \<and>
    (step_status t result \<in> {TCompleted, TFailed} \<longrightarrow>
      (\<forall>v. next_recurrence (tr_jiff r) t now = Some v \<longrightarrow> succeeded_by s' v))"
proof (cases result)
  case (Inl err)
  then have "record_failure_and_insert_next_if_terminal (tr_jiff r) (t_task_id t) (t_user_id t)
      (t_workspace_id t) (task_error_text err) now s = (Inr (), s')"
    using assms(4) by (auto simp: file_result_def rt_bind_def rt_return_def split: prod.splits sum.splits)
  from record_failure_next [OF assms(1,2) owner_key_def assms(3) this] Inl show ?thesis
    by (simp add: step_status_def split: if_splits)
next
  case (Inr answer)
  show ?thesis
  proof (cases answer)
    case (ExRetryableFailure reason)
    then have "record_failure_and_insert_next_if_terminal (tr_jiff r) (t_task_id t) (t_user_id t)
        (t_workspace_id t) reason now s = (Inr (), s')"
      using assms(4) Inr
      by (auto simp: file_result_def rt_bind_def rt_return_def split: prod.splits sum.splits)
    from record_failure_next [OF assms(1,2) owner_key_def assms(3) this] Inr ExRetryableFailure
    show ?thesis
      by (simp add: step_status_def split: if_splits)
  next
    case (ExCompleted out)
    with filed_completed [OF assms(3), where out = out] assms(4) Inr show ?thesis
      by (simp add: step_status_def)
  qed (use assms(4) [unfolded Inr] Inr in \<open>auto simp: step_status_def
      dest: filed_checkpoint [OF assms(2)] filed_approval [OF assms(1)] filed_wait\<close>)
qed

definition sample_runtime :: "int task_runtime" where
  "sample_runtime =
     \<lparr>tr_env = \<lparr>en_now = int, en_uuid = (\<lambda>n. ''id''), en_range_error = ''range''\<rparr>,
      tr_jiff = utc, tr_limits = conservative_defaults, tr_worker = ''x'',
      tr_executor = (\<lambda>n t c. Inr (ExWaitUntil 60 ''later''))\<rparr>"

definition sample_recurring :: task_record where
  "sample_recurring = sample_first\<lparr>t_recurrence := Some ''every 6h''\<rparr>"

definition sample_recurring_rt :: runtime_db where
  "sample_recurring_rt = put_task sample_recurring sample_rt"

lemma sample_next:
  "\<exists>v. next_recurrence utc sample_recurring 5 = Some v \<and> t_not_before v = Some 21600000000005"
proof -
  have "parse_rule ''every 6h'' = Some (Interval 21600000000000)"
    by code_simp
  then show ?thesis
    by (simp add: next_recurrence_def next_occurrence_def sample_recurring_def clear_lease_def)
qed

lemma sample_next_id:
  "next_recurrence jf sample_recurring now = Some v \<Longrightarrow> t_task_id v \<noteq> t_task_id sample_recurring"
  by (auto simp: next_recurrence_def sample_recurring_def clear_lease_def split: Option.bind_splits)

lemma filed_step_puts_down_witness:
  "\<exists>sm s' v. file_result sample_runtime ''u'' ''w'' 5 sample_recurring (Inr (ExCompleted JNull))
       empty_summary sample_recurring_rt = (Inr sm, s') \<and> put_down s' (''a'', ''u'', ''w'') TCompleted \<and>
     next_recurrence utc sample_recurring 5 = Some v \<and> succeeded_by s' v"
proof -
  have fields: "owner_key sample_recurring = (''a'', ''u'', ''w'')" "tr_jiff sample_runtime = utc"
    "t_user_id sample_recurring = ''u''" "t_workspace_id sample_recurring = ''w''"
    by (simp_all add: sample_recurring_def sample_runtime_def owner_key_def)
  have at: "task_at sample_recurring_rt (owner_key sample_recurring) = Some sample_recurring"
    by (simp add: sample_recurring_rt_def task_at_put)
  have keyed: "keyed sample_recurring_rt"
    unfolding sample_recurring_rt_def by (rule keyed_put [OF sample_rt_keyed])
  obtain sm s' where run: "file_result sample_runtime (t_user_id sample_recurring)
      (t_workspace_id sample_recurring) 5 sample_recurring (Inr (ExCompleted JNull)) empty_summary
      sample_recurring_rt = (Inr sm, s')"
    by (cases "next_recurrence utc (finished sample_recurring TCompleted None 5) 5")
      (simp_all add: file_result_def finish_task_def rt_bind_def store_released_run rt_return_def
        insert_next_recurrence_def insert_task_def rt_modify_def fields)
  obtain v where v: "next_recurrence utc sample_recurring 5 = Some v"
    using sample_next by blast
  show ?thesis
    using filed_step_puts_down [OF keyed at _ run] sample_next_id run v
    by (simp add: fields step_status_def) blast
qed

section \<open>The summary of a round\<close>

definition balanced :: "run_ready_summary \<Rightarrow> bool" where
  "balanced sm \<longleftrightarrow> sm_attempted sm = sm_completed sm + sm_checkpointed sm + sm_waiting sm + sm_failed_retryable sm"

lemma file_result_counts:
  assumes "file_result r uid wid now t result sm s = (Inr sm', s')"
  shows "sm_completed sm' + sm_checkpointed sm' + sm_waiting sm' + sm_failed_retryable sm' =
      Suc (sm_completed sm + sm_checkpointed sm + sm_waiting sm + sm_failed_retryable sm)"
    "sm_attempted sm' = sm_attempted sm" "sm_skipped sm' = sm_skipped sm"
  using assms
  by (auto simp: file_result_def rt_bind_def rt_return_def split: sum.splits executor_result.splits prod.splits)

lemma run_task_counts:
  assumes "run_task r uid wid now t sm s = (Inr sm', s')" "balanced sm"
  shows "balanced sm' \<and> sm_attempted sm' + sm_skipped sm' = Suc (sm_attempted sm + sm_skipped sm)"
proof -
  consider "sm' = skip sm"
    | leased cp s1 where "file_result r uid wid now leased (tr_executor r (sm_attempted sm) leased cp)
        (sm\<lparr>sm_attempted := Suc (sm_attempted sm)\<rparr>) s1 = (Inr sm', s')"
    using assms(1)
    by (auto simp: run_task_def rt_bind_def rt_return_def split: prod.splits sum.splits option.splits if_splits)
  then show ?thesis
  proof cases
    case 1
    with assms(2) show ?thesis by (simp add: skip_def balanced_def)
  next
    case 2
    from file_result_counts [OF this] assms(2) show ?thesis
      by (simp add: balanced_def)
  qed
qed

lemma run_fold_counts:
  "\<lbrakk>rt_fold (run_task r uid wid now) ts sm s = (Inr sm', s'); balanced sm\<rbrakk> \<Longrightarrow>
   balanced sm' \<and> sm_attempted sm' + sm_skipped sm' = sm_attempted sm + sm_skipped sm + length ts"
proof (induction ts arbitrary: sm s)
  case (Cons t ts)
  obtain sm1 s1 where one: "run_task r uid wid now t sm s = (Inr sm1, s1)"
      "rt_fold (run_task r uid wid now) ts sm1 s1 = (Inr sm', s')"
    using Cons.prems(1) by (auto simp: rt_bind_def split: prod.splits sum.splits)
  with run_task_counts [OF one(1) Cons.prems(2)] Cons.IH [OF one(2)] show ?case
    by simp
qed (simp add: rt_return_def)

lemma run_ready_once_parts:
  assumes "run_ready_once r uid wid now s = (Inr sm, s')"
  obtains n s1 ts where
    "rt_bind (wake_due now) (\<lambda>_. requeue_waiting_resource_tasks (tr_env r) (tr_limits r) uid wid) s = (Inr n, s1)"
    "ready_tasks uid wid now None s1 = (Inr ts, s1)"
    "rt_fold (run_task r uid wid now) ts empty_summary s1 = (Inr sm, s')"
  using assms
  by (auto simp: run_ready_once_def rt_bind_def ready_tasks_def rt_read_def split: prod.splits sum.splits)

text \<open>
  The summary of a round balances. Every task that is ready once due wakes are delivered
  and resource waits are lifted is either attempted or skipped, and every attempted one is
  counted in exactly one of completed, checkpointed, waiting and failed.
\<close>

lemma round_summary_balances:
  assumes "run_ready_once r uid wid now s = (Inr sm, s')"
  shows "\<exists>n s1 ts.
    rt_bind (wake_due now) (\<lambda>_. requeue_waiting_resource_tasks (tr_env r) (tr_limits r) uid wid) s = (Inr n, s1) \<and>
    ready_tasks uid wid now None s1 = (Inr ts, s1) \<and>
    sm_attempted sm + sm_skipped sm = length ts \<and>
    sm_attempted sm = sm_completed sm + sm_checkpointed sm + sm_waiting sm + sm_failed_retryable sm"
proof -
  obtain n s1 ts where ts:
      "rt_bind (wake_due now) (\<lambda>_. requeue_waiting_resource_tasks (tr_env r) (tr_limits r) uid wid) s = (Inr n, s1)"
      "ready_tasks uid wid now None s1 = (Inr ts, s1)"
      "rt_fold (run_task r uid wid now) ts empty_summary s1 = (Inr sm, s')"
    by (rule run_ready_once_parts [OF assms])
  have "balanced empty_summary"
    by (simp add: balanced_def empty_summary_def)
  then have "sm_attempted sm + sm_skipped sm = length ts" "balanced sm"
    using run_fold_counts [OF ts(3)] by (simp_all add: empty_summary_def)
  with ts(1,2) show ?thesis
    unfolding balanced_def by blast
qed

lemma round_summary_balances_witness:
  "\<exists>sm s'. run_ready_once sample_runtime ''u'' ''w'' 5 sample_rt = (Inr sm, s') \<and> sm_attempted sm = 1 \<and> balanced sm"
proof -
  have "case run_ready_once sample_runtime ''u'' ''w'' 5 sample_rt of
      (Inr sm, s') \<Rightarrow> sm_attempted sm = 1 \<and> sm_waiting sm = 1 | _ \<Rightarrow> False"
    by code_simp
  then obtain sm s' where "run_ready_once sample_runtime ''u'' ''w'' 5 sample_rt = (Inr sm, s')"
      "sm_attempted sm = 1"
    by (auto split: prod.splits sum.splits)
  with round_summary_balances [OF this(1)] show ?thesis
    unfolding balanced_def by blast
qed

section \<open>Where the code falls short\<close>

text \<open>A completed task that carries no lease can be acquired: it is set running again.\<close>

lemma completed_task_acquired:
  assumes "task_at s (tid, uid, wid) = Some t" "t_status t = TCompleted" "t_lease_expires_at t = None"
    "u64_try_from now = Some f" "keyed s"
  shows "\<exists>s' u. acquire_lease duration tid uid wid owner now s = (Inr True, s') \<and>
    task_at s' (tid, uid, wid) = Some u \<and> t_status u = TRunning"
proof -
  have "owner_key t = (tid, uid, wid)"
    using assms(5,1) by (rule keyedD)
  then show ?thesis
    using assms by (simp add: acquire_run task_at_put owner_key_def)
qed

text \<open>A task parked after a failed attempt is in no ready list, however long its backoff is over.\<close>

lemma backoff_never_ready:
  assumes "t_status t = TWaitingTime" "ready_tasks uid wid now limit s = (Inr ts, s')"
  shows "t \<notin> set ts"
proof
  assume "t \<in> set ts"
  moreover obtain n where "ts = take n (sort_key ready_order (filter (is_ready s uid wid now) (tasks_in s uid wid)))"
    using ready_tasks_in_take [of ts s uid wid now limit] assms(2)
    by (auto simp: ready_tasks_def rt_read_def)
  ultimately have "is_ready s uid wid now t"
    using in_set_takeD [of t n] by fastforce
  with assms(1) show False
    by (simp add: is_ready_def)
qed

text \<open>Approving sets the task back to queued whatever became of it since.\<close>

lemma approve_revives:
  assumes "row_of ar_approval_id aid (rt_approvals s) = Some r"
    "task_at s (ap_task_id (ar_json r), ap_user_id (ar_json r), ap_workspace_id (ar_json r)) = Some t"
    "t_status t = TCancelled" "keyed s"
  shows "\<exists>s' u. approve env aid who s = (Inr (), s') \<and> task_at s' (owner_key t) = Some u \<and> t_status u = TQueued"
proof -
  have "owner_key t = (ap_task_id (ar_json r), ap_user_id (ar_json r), ap_workspace_id (ar_json r))"
    using assms(4,2) by (rule keyedD)
  then show ?thesis
    using assms(1-3) by (simp add: approve_def rt_simps approval_by_id_def now_utc_def insert_approval_def
        update_status_run task_at_put owner_key_def)
qed

end
