(* ===== verification/ChatStore.thy ===== *)
theory ChatStore
  imports TaskRuntime TurnReducer
begin

text \<open>
  The chat side of \<open>TaskStore\<close> (crates/task-runtime/src/store.rs): the event stream of a turn,
  the agent runs that work on it, the steering a user sends to a running turn, and the turn's
  row in the task table. The chat messages live in the same database file under a schema of the
  embedding application: their content is a parameter \<open>'m\<close>.
\<close>

section \<open>The database and the computations on it\<close>

record new_turn_steering =
  ns_source_message_id :: string
  ns_prompt :: string
  ns_visible_prompt :: string
  ns_images :: "string list"
  ns_attachments :: json
  ns_mode :: "string option"
  ns_model :: "string option"

text \<open>
  A steering row. The record the code returns repeats the fields of the payload; here they stay
  in \<open>sg_payload\<close>. Integer columns are integers; the code reads the revisions back as \<open>u64\<close>.
\<close>

record turn_steering =
  sg_steering_id :: int
  sg_user_id :: string
  sg_workspace_id :: string
  sg_thread_id :: string
  sg_active_turn_id :: string
  sg_source_message_id :: string
  sg_content :: string
  sg_payload :: new_turn_steering
  sg_objective_revision :: int
  sg_status :: turn_steering_status
  sg_revision :: int
  sg_created_at :: int
  sg_updated_at :: int
  sg_claimed_run_id :: "string option"
  sg_claimed_round :: "u32 option"
  sg_claimed_at :: "int option"
  sg_applied_at :: "int option"
  sg_cancelled_at :: "int option"
  sg_consumed_at :: "int option"
  sg_semantic_decision :: "json option"
  sg_interpreted_at :: "int option"
  sg_completed_at :: "int option"
  sg_last_interpretation_error :: "string option"
  sg_next_retry_at :: "int option"
  sg_interpretation_attempts :: int

record new_agent_run =
  nw_run_id :: string
  nw_turn_id :: string
  nw_thread_id :: string
  nw_user_id :: string
  nw_workspace_id :: string
  nw_role :: "string option"
  nw_model :: "string option"
  nw_provider :: "string option"
  nw_prompt_fingerprint :: "string option"

record agent_run =
  ag_run_id :: string
  ag_turn_id :: string
  ag_thread_id :: string
  ag_user_id :: string
  ag_workspace_id :: string
  ag_attempt :: u32
  ag_status :: agent_run_status
  ag_role :: "string option"
  ag_model :: "string option"
  ag_provider :: "string option"
  ag_prompt_fingerprint :: "string option"
  ag_started_at :: int
  ag_completed_at :: "int option"
  ag_terminal_reason :: "string option"
  ag_schema_version :: u32

record agent_run_event =
  ae_event_id :: int
  ae_run_id :: string
  ae_seq :: int
  ae_round :: "int option"
  ae_kind :: string
  ae_payload :: json
  ae_created_at :: int

datatype terminal_write = Inserted turn_event | Existing turn_event

datatype objective_mode = ReadOnlyAnalysis | Mutation | Mixed

record objective_contract =
  oc_user_id :: string
  oc_workspace_id :: string
  oc_thread_id :: string
  oc_source_message_id :: string
  oc_objective :: string
  oc_mode :: objective_mode
  oc_scope_json :: json
  oc_allowed_actions_json :: json
  oc_completion_json :: json
  oc_status :: string
  oc_revision :: u64
  oc_created_at :: int
  oc_updated_at :: int

record 'm chat_db =
  ch_rt :: runtime_db
  ch_events :: "turn_event list"
  ch_next_event :: int
  ch_runs :: "agent_run list"
  ch_run_events :: "agent_run_event list"
  ch_next_run_event :: int
  ch_steering :: "turn_steering list"
  ch_next_steering :: int
  ch_plans :: "runtime_plan_record list"
  ch_objectives :: "objective_contract list"
  ch_messages :: 'm

type_synonym ('m, 'a) chat = "('m chat_db, task_error, 'a) computation"

definition on_rt :: "'a rt \<Rightarrow> ('m, 'a) chat" where
  "on_rt m = (\<lambda>s. case m (ch_rt s) of (r, d) \<Rightarrow> (r, s\<lparr>ch_rt := d\<rparr>))"

text \<open>A transaction that fails is rolled back; the clock is not.\<close>

definition atomic :: "('m chat_db, 'e, 'a) computation \<Rightarrow> ('m chat_db, 'e, 'a) computation" where
  "atomic m =
     (\<lambda>s. case m s of
        (Inl e, s') \<Rightarrow> (Inl e, s\<lparr>ch_rt := (ch_rt s)\<lparr>rt_ticks := rt_ticks (ch_rt s')\<rparr>\<rparr>)
      | (Inr x, s') \<Rightarrow> (Inr x, s'))"

definition unix_now :: "runtime_env \<Rightarrow> ('m, int) chat" where
  "unix_now env = on_rt (rt_bind (now_utc env) (\<lambda>now. rt_return (unix_timestamp now)))"

definition on_tasks :: "(task_row list \<Rightarrow> task_row list) \<Rightarrow> 'm chat_db \<Rightarrow> 'm chat_db" where
  "on_tasks f s = s\<lparr>ch_rt := (ch_rt s)\<lparr>rt_store := (rt_store (ch_rt s))
     \<lparr>db_tasks := f (db_tasks (rt_store (ch_rt s)))\<rparr>\<rparr>\<rparr>"

definition task_rows :: "'m chat_db \<Rightarrow> task_row list" where
  "task_rows s = db_tasks (rt_store (ch_rt s))"

section \<open>Turn events\<close>

definition events_of :: "'m chat_db \<Rightarrow> string \<Rightarrow> turn_event list" where
  "events_of s tid = sort_key te_seq (filter (\<lambda>e. te_turn_id e = tid) (ch_events s))"

definition next_seq :: "int list \<Rightarrow> int" where
  "next_seq seqs = (case seqs of [] \<Rightarrow> 1 | _ \<Rightarrow> foldr max seqs (hd seqs) + 1)"

definition insert_turn_event_on ::
  "runtime_env \<Rightarrow> string \<Rightarrow> turn_event_kind \<Rightarrow> json \<Rightarrow> ('m, turn_event) chat" where
  "insert_turn_event_on env tid knd payload =
     rt_bind (unix_now env) (\<lambda>now s.
       let e = \<lparr>te_event_id = ch_next_event s, te_turn_id = tid,
             te_seq = next_seq (map te_seq (filter (\<lambda>e. te_turn_id e = tid) (ch_events s))),
             te_kind = knd, te_payload = payload, te_created_at = now\<rparr> in
       (Inr e, s\<lparr>ch_events := ch_events s @ [e], ch_next_event := ch_next_event s + 1\<rparr>))"

definition insert_turn_event ::
  "runtime_env \<Rightarrow> string \<Rightarrow> turn_event_kind \<Rightarrow> json \<Rightarrow> ('m, turn_event) chat" where
  "insert_turn_event env tid knd payload = atomic (insert_turn_event_on env tid knd payload)"

definition first_terminal_event_on :: "'m chat_db \<Rightarrow> string \<Rightarrow> turn_event option" where
  "first_terminal_event_on s tid =
     find (\<lambda>e. turn_event_kind_is_terminal (te_kind e)) (events_of s tid)"

definition projection_ref_of :: "json \<Rightarrow> string option" where
  "projection_ref_of payload = Option.bind (json_get payload ''projection_ref'') json_as_str"

definition projection_event_on :: "'m chat_db \<Rightarrow> string \<Rightarrow> string \<Rightarrow> turn_event option" where
  "projection_event_on s tid ref =
     find (\<lambda>e. projection_ref_of (te_payload e) = Some ref) (events_of s tid)"

definition insert_terminal_event_once ::
  "runtime_env \<Rightarrow> string \<Rightarrow> turn_event_kind \<Rightarrow> json \<Rightarrow> ('m, terminal_write) chat" where
  "insert_terminal_event_once env tid knd payload =
     (if \<not> turn_event_kind_is_terminal knd
        then rt_fail (InvalidTransition ''non-terminal turn event kind'')
      else atomic (rt_bind (rt_read (\<lambda>s. first_terminal_event_on s tid)) (\<lambda>found.
        case found of
          Some existing \<Rightarrow> rt_return (Existing existing)
        | None \<Rightarrow> rt_bind (insert_turn_event_on env tid knd payload) (\<lambda>e. rt_return (Inserted e)))))"

definition turn_has_terminal_event :: "string \<Rightarrow> ('m, bool) chat" where
  "turn_has_terminal_event tid = rt_read (\<lambda>s. first_terminal_event_on s tid \<noteq> None)"

definition adopt_terminal :: "turn_event_kind \<Rightarrow> json \<Rightarrow> turn_event \<Rightarrow> ('m, terminal_write) chat" where
  "adopt_terminal knd payload existing =
     (\<lambda>s. let P = (\<lambda>e. te_event_id e = te_event_id existing) in
        if count_where P (ch_events s) \<noteq> 1
          then (Inl (Store ''legacy terminal event disappeared during projection adoption''), s)
        else (Inr (Inserted (existing\<lparr>te_kind := knd, te_payload := payload\<rparr>)),
          s\<lparr>ch_events := update_where P (\<lambda>e. e\<lparr>te_kind := knd, te_payload := payload\<rparr>) (ch_events s)\<rparr>))"

definition insert_turn_projection_event_once ::
  "runtime_env \<Rightarrow> string \<Rightarrow> turn_event_kind \<Rightarrow> string \<Rightarrow> json \<Rightarrow> ('m, terminal_write) chat" where
  "insert_turn_projection_event_once env tid knd ref payload =
     (if is_blank ref \<or> projection_ref_of payload \<noteq> Some ref
        then rt_fail (InvalidTransition ''projection event requires its exact projection reference'')
      else atomic (rt_bind (rt_read (\<lambda>s. (projection_event_on s tid ref, first_terminal_event_on s tid)))
        (\<lambda>(projected, terminal).
        case projected of
          Some existing \<Rightarrow> rt_return (Existing existing)
        | None \<Rightarrow>
            (case (if turn_event_kind_is_terminal knd then terminal else None) of
               Some existing \<Rightarrow>
                 if projection_ref_of (te_payload existing) = None \<and>
                     (te_kind existing = knd \<or> knd = EvCancelled)
                   then adopt_terminal knd payload existing
                 else rt_fail (Conflict
                   ''canonical projection conflicts with an unacknowledged terminal event'')
             | None \<Rightarrow> rt_bind (insert_turn_event_on env tid knd payload) (\<lambda>e.
                 rt_return (Inserted e))))))"

definition read_turn_events :: "string \<Rightarrow> int \<Rightarrow> ('m, turn_event list) chat" where
  "read_turn_events tid since = rt_read (\<lambda>s. filter (\<lambda>e. since < te_seq e) (events_of s tid))"

section \<open>Agent runs\<close>

definition append_run_event ::
  "string \<Rightarrow> int \<Rightarrow> int option \<Rightarrow> string \<Rightarrow> json \<Rightarrow> int \<Rightarrow> ('m, agent_run_event) chat" where
  "append_run_event rid seq round knd payload now =
     (\<lambda>s. if list_ex (\<lambda>e. ae_run_id e = rid \<and> ae_seq e = seq) (ch_run_events s)
        then (Inl (Store ''UNIQUE constraint failed: agent_run_events.run_id, agent_run_events.seq''), s)
      else if \<not> list_ex (\<lambda>r. ag_run_id r = rid) (ch_runs s)
        then (Inl (Store ''FOREIGN KEY constraint failed''), s)
      else let e = \<lparr>ae_event_id = ch_next_run_event s, ae_run_id = rid, ae_seq = seq, ae_round = round,
             ae_kind = knd, ae_payload = payload, ae_created_at = now\<rparr> in
        (Inr e, s\<lparr>ch_run_events := ch_run_events s @ [e], ch_next_run_event := ch_next_run_event s + 1\<rparr>))"

definition next_attempt :: "'m chat_db \<Rightarrow> string \<Rightarrow> nat" where
  "next_attempt s tid =
     foldr max (map (\<lambda>r. unat (ag_attempt r)) (filter (\<lambda>r. ag_turn_id r = tid) (ch_runs s))) 0 + 1"

definition started_run :: "new_agent_run \<Rightarrow> u32 \<Rightarrow> int \<Rightarrow> agent_run" where
  "started_run n attempt now =
     \<lparr>ag_run_id = nw_run_id n, ag_turn_id = nw_turn_id n, ag_thread_id = nw_thread_id n,
      ag_user_id = nw_user_id n, ag_workspace_id = nw_workspace_id n, ag_attempt = attempt,
      ag_status = RunRunning, ag_role = nw_role n, ag_model = nw_model n, ag_provider = nw_provider n,
      ag_prompt_fingerprint = nw_prompt_fingerprint n, ag_started_at = now, ag_completed_at = None,
      ag_terminal_reason = None, ag_schema_version = 1\<rparr>"

definition create_agent_run :: "runtime_env \<Rightarrow> new_agent_run \<Rightarrow> ('m, agent_run) chat" where
  "create_agent_run env n =
     rt_bind (unix_now env) (\<lambda>now.
     atomic (rt_bind (rt_read (\<lambda>s. (next_attempt s (nw_turn_id n),
         list_ex (\<lambda>r. ag_run_id r = nw_run_id n) (ch_runs s)))) (\<lambda>(attempt, taken).
       if 2 ^ 32 \<le> attempt then rt_fail (Store (en_range_error env))
       else if taken then rt_fail (Store ''UNIQUE constraint failed: agent_runs.run_id'')
       else let r = started_run n (word_of_nat attempt) now in
         rt_bind (rt_modify (\<lambda>s. s\<lparr>ch_runs := ch_runs s @ [r]\<rparr>)) (\<lambda>_.
         rt_bind (append_run_event (nw_run_id n) 1 None ''run_started''
           (JObject [(''attempt'', JNumber (show_nat attempt)), (''schema_version'', JNumber ''1'')]) now) (\<lambda>_.
         rt_return r)))))"

definition append_agent_run_event ::
  "runtime_env \<Rightarrow> string \<Rightarrow> int \<Rightarrow> int option \<Rightarrow> string \<Rightarrow> json \<Rightarrow> ('m, agent_run_event) chat" where
  "append_agent_run_event env rid seq round knd payload =
     rt_bind (unix_now env) (\<lambda>now.
     atomic (rt_bind (append_run_event rid seq round knd payload now) (\<lambda>e.
       rt_bind (case (if knd = ''prompt_snapshot''
             then Option.bind (json_get payload ''fingerprint'') json_as_str else None) of
           None \<Rightarrow> rt_return ()
         | Some fingerprint \<Rightarrow> rt_modify (\<lambda>s. s\<lparr>ch_runs := update_where (\<lambda>r. ag_run_id r = rid)
             (\<lambda>r. r\<lparr>ag_prompt_fingerprint := Some fingerprint\<rparr>) (ch_runs s)\<rparr>)) (\<lambda>_.
       rt_return e))))"

definition update_runs ::
  "runtime_env \<Rightarrow> (agent_run \<Rightarrow> bool) \<Rightarrow> agent_run_status \<Rightarrow> string option \<Rightarrow> ('m, nat) chat" where
  "update_runs env P status reason =
     rt_bind (unix_now env) (\<lambda>now s.
       (Inr (count_where P (ch_runs s)), s\<lparr>ch_runs := update_where P (\<lambda>r. r\<lparr>ag_status := status,
          ag_completed_at := Some now, ag_terminal_reason := reason\<rparr>) (ch_runs s)\<rparr>))"

definition finish_agent_run ::
  "runtime_env \<Rightarrow> string \<Rightarrow> agent_run_status \<Rightarrow> string option \<Rightarrow> ('m, unit) chat" where
  "finish_agent_run env rid status reason =
     (if status = RunRunning then rt_fail (Store ''finish_agent_run requires a terminal status'')
      else rt_bind (update_runs env (\<lambda>r. ag_run_id r = rid \<and> ag_status r = RunRunning) status reason)
        (\<lambda>changed. if changed = 0
           then rt_fail (Store (''agent run is missing or already terminal: '' @ rid))
         else rt_return ()))"

definition abort_running_agent_runs :: "runtime_env \<Rightarrow> string \<Rightarrow> ('m, nat) chat" where
  "abort_running_agent_runs env reason =
     update_runs env (\<lambda>r. ag_status r = RunRunning) RunAborted (Some reason)"

definition abort_running_agent_runs_for_turn ::
  "runtime_env \<Rightarrow> string \<Rightarrow> string \<Rightarrow> string \<Rightarrow> string \<Rightarrow> ('m, nat) chat" where
  "abort_running_agent_runs_for_turn env tid uid wid reason =
     update_runs env (\<lambda>r. ag_turn_id r = tid \<and> ag_user_id r = uid \<and> ag_workspace_id r = wid \<and>
       ag_status r = RunRunning) RunAborted (Some reason)"

end
