(* ===== verification/Steering.thy ===== *)
theory Steering
  imports ChatStore
begin

text \<open>
  Steering: what a user sends to a thread while a turn is running on it. A row is claimed by a
  run at a round boundary, interpreted, applied and completed; it can be edited, held, cancelled
  or promoted to a turn of its own. Every update is guarded by the revision its caller read.
  The rest of the theory is the turn's row in the task table: which turn of a thread is active,
  the fence before its end, parking and resuming it.
\<close>

section \<open>Rows\<close>

definition steering_key :: "turn_steering \<Rightarrow> string \<times> string \<times> string \<times> string" where
  "steering_key g = (sg_user_id g, sg_workspace_id g, sg_thread_id g, sg_source_message_id g)"

definition pending_steering ::
  "int \<Rightarrow> string \<Rightarrow> string \<Rightarrow> string \<Rightarrow> string \<Rightarrow> new_turn_steering \<Rightarrow> u64 \<Rightarrow> int \<Rightarrow> turn_steering" where
  "pending_steering sid uid wid thread turn input objective_revision now =
     \<lparr>sg_steering_id = sid, sg_user_id = uid, sg_workspace_id = wid, sg_thread_id = thread,
      sg_active_turn_id = turn, sg_source_message_id = ns_source_message_id input,
      sg_content = ns_prompt input, sg_payload = input,
      sg_objective_revision = sint objective_revision, sg_status = SPending, sg_revision = 1,
      sg_created_at = now, sg_updated_at = now, sg_claimed_run_id = None, sg_claimed_round = None,
      sg_claimed_at = None, sg_applied_at = None, sg_cancelled_at = None, sg_consumed_at = None,
      sg_semantic_decision = None, sg_interpreted_at = None, sg_completed_at = None,
      sg_last_interpretation_error = None, sg_next_retry_at = None,
      sg_interpretation_attempts = 0\<rparr>"

text \<open>\<open>INSERT ... ON CONFLICT DO NOTHING\<close>, then the row of the message.\<close>

definition insert_steering ::
  "string \<Rightarrow> string \<Rightarrow> string \<Rightarrow> string \<Rightarrow> new_turn_steering \<Rightarrow> u64 \<Rightarrow> int \<Rightarrow> 'm chat_db \<Rightarrow> 'm chat_db" where
  "insert_steering uid wid thread turn input objective_revision now s =
     (let g = pending_steering (ch_next_steering s) uid wid thread turn input objective_revision now in
      if steering_key g \<in> steering_key ` set (ch_steering s) then s
      else s\<lparr>ch_steering := ch_steering s @ [g], ch_next_steering := ch_next_steering s + 1\<rparr>)"

definition load_turn_steering_by_source_message ::
  "'m chat_db \<Rightarrow> string \<Rightarrow> string \<Rightarrow> string \<Rightarrow> string \<Rightarrow> turn_steering option" where
  "load_turn_steering_by_source_message s uid wid thread mid =
     row_of steering_key (uid, wid, thread, mid) (ch_steering s)"

definition append_turn_steering ::
  "runtime_env \<Rightarrow> string \<Rightarrow> string \<Rightarrow> string \<Rightarrow> string \<Rightarrow> new_turn_steering \<Rightarrow> u64 \<Rightarrow> ('m, turn_steering) chat" where
  "append_turn_steering env uid wid thread turn input objective_revision =
     rt_bind (unix_now env) (\<lambda>now.
     rt_bind (rt_modify (insert_steering uid wid thread turn input objective_revision now)) (\<lambda>_.
     rt_bind (rt_read (\<lambda>s. load_turn_steering_by_source_message s uid wid thread
         (ns_source_message_id input))) (\<lambda>found.
     rt_lift (ok_or (Store ''steering message disappeared after append'') found))))"

definition steering_rows :: "'m chat_db \<Rightarrow> (turn_steering \<Rightarrow> bool) \<Rightarrow> turn_steering list" where
  "steering_rows s P = sort_key sg_steering_id (filter P (ch_steering s))"

definition due :: "int \<Rightarrow> turn_steering \<Rightarrow> bool" where
  "due now g \<longleftrightarrow> (case sg_next_retry_at g of None \<Rightarrow> True | Some at \<Rightarrow> at \<le> now)"

definition claimed :: "string \<Rightarrow> u32 \<Rightarrow> int \<Rightarrow> turn_steering \<Rightarrow> turn_steering" where
  "claimed rid round now g =
     g\<lparr>sg_status := SClaimed, sg_claimed_run_id := Some rid, sg_claimed_round := Some round,
       sg_claimed_at := Some now, sg_consumed_at := Some now, sg_updated_at := now,
       sg_revision := sg_revision g + 1\<rparr>"

definition claimable_steering :: "string \<Rightarrow> string \<Rightarrow> string \<Rightarrow> string \<Rightarrow> int \<Rightarrow> turn_steering \<Rightarrow> bool" where
  "claimable_steering uid wid thread turn now g \<longleftrightarrow>
     sg_user_id g = uid \<and> sg_workspace_id g = wid \<and> sg_thread_id g = thread \<and>
     sg_active_turn_id g = turn \<and> sg_status g = SPending \<and> due now g"

definition claim_pending_turn_steering ::
  "runtime_env \<Rightarrow> string \<Rightarrow> string \<Rightarrow> string \<Rightarrow> string \<Rightarrow> string \<Rightarrow> u32 \<Rightarrow> ('m, turn_steering list) chat" where
  "claim_pending_turn_steering env uid wid thread turn rid round =
     rt_bind (unix_now env) (\<lambda>now s.
       let P = claimable_steering uid wid thread turn now in
       (Inr (map (claimed rid round now) (steering_rows s P)),
        s\<lparr>ch_steering := update_where P (claimed rid round now) (ch_steering s)\<rparr>))"

definition consume_pending_turn_steering ::
  "runtime_env \<Rightarrow> string \<Rightarrow> string \<Rightarrow> string \<Rightarrow> string \<Rightarrow> ('m, turn_steering list) chat" where
  "consume_pending_turn_steering env uid wid thread turn =
     claim_pending_turn_steering env uid wid thread turn ''legacy'' 0"

definition list_turn_steering :: "string \<Rightarrow> string \<Rightarrow> string \<Rightarrow> ('m, turn_steering list) chat" where
  "list_turn_steering uid wid thread =
     rt_read (\<lambda>s. steering_rows s (\<lambda>g. sg_user_id g = uid \<and> sg_workspace_id g = wid \<and> sg_thread_id g = thread))"

definition list_interpreted_turn_steering ::
  "string \<Rightarrow> string \<Rightarrow> string \<Rightarrow> string \<Rightarrow> string \<Rightarrow> ('m, turn_steering list) chat" where
  "list_interpreted_turn_steering uid wid thread turn rid =
     rt_read (\<lambda>s. steering_rows s (\<lambda>g. sg_user_id g = uid \<and> sg_workspace_id g = wid \<and>
       sg_thread_id g = thread \<and> sg_active_turn_id g = turn \<and> sg_claimed_run_id g = Some rid \<and>
       sg_status g = SInterpreted))"

definition list_due_pending_turn_steering :: "int \<Rightarrow> nat \<Rightarrow> ('m, turn_steering list) chat" where
  "list_due_pending_turn_steering now limit =
     rt_read (\<lambda>s. take limit (steering_rows s (\<lambda>g. sg_status g = SPending \<and> due now g)))"

definition load_turn_steering :: "int \<Rightarrow> string \<Rightarrow> string \<Rightarrow> ('m, turn_steering option) chat" where
  "load_turn_steering sid uid wid =
     rt_read (\<lambda>s. find (\<lambda>g. sg_steering_id g = sid \<and> sg_user_id g = uid \<and> sg_workspace_id g = wid)
       (ch_steering s))"

definition workspace_for_turn_steering :: "int \<Rightarrow> string \<Rightarrow> ('m, string option) chat" where
  "workspace_for_turn_steering sid uid =
     rt_read (\<lambda>s. map_option sg_workspace_id
       (find (\<lambda>g. sg_steering_id g = sid \<and> sg_user_id g = uid) (ch_steering s)))"

section \<open>Guarded updates\<close>

text \<open>
  \<open>UPDATE ... WHERE\<close> one row, guarded; no row changed is a conflict. The row is read back by its id.
\<close>

definition guarded_update ::
  "(turn_steering \<Rightarrow> bool) \<Rightarrow> (int \<Rightarrow> turn_steering \<Rightarrow> turn_steering) \<Rightarrow> string \<Rightarrow> int \<Rightarrow> runtime_env \<Rightarrow>
   ('m, turn_steering) chat" where
  "guarded_update P f refusal sid env =
     rt_bind (unix_now env) (\<lambda>now.
     rt_bind (\<lambda>s. (Inr (count_where P (ch_steering s)),
         s\<lparr>ch_steering := update_where P (f now) (ch_steering s)\<rparr>)) (\<lambda>changed.
     if changed = 0 then rt_fail (Conflict refusal)
     else rt_bind (rt_read (\<lambda>s. find (\<lambda>g. sg_steering_id g = sid) (ch_steering s))) (\<lambda>found.
       rt_lift (ok_or (NotFound ''steering'') found))))"

definition owned_at :: "int \<Rightarrow> string \<Rightarrow> string \<Rightarrow> u64 \<Rightarrow> turn_steering \<Rightarrow> bool" where
  "owned_at sid uid wid expected g \<longleftrightarrow>
     sg_steering_id g = sid \<and> sg_user_id g = uid \<and> sg_workspace_id g = wid \<and>
     sg_revision g = sint expected"

definition update_turn_steering ::
  "runtime_env \<Rightarrow> int \<Rightarrow> string \<Rightarrow> string \<Rightarrow> u64 \<Rightarrow> new_turn_steering \<Rightarrow> ('m, turn_steering) chat" where
  "update_turn_steering env sid uid wid expected input =
     (\<lambda>s. let P = (\<lambda>g. owned_at sid uid wid expected g \<and> sg_status g \<in> {SPending, SHeld}) in
       if list_ex (\<lambda>g. P g \<and> list_ex (\<lambda>q. sg_steering_id q \<noteq> sid \<and>
            steering_key q = steering_key (g\<lparr>sg_source_message_id := ns_source_message_id input\<rparr>))
            (ch_steering s)) (ch_steering s)
         then rt_bind (unix_now env) (\<lambda>_. rt_fail (Store ''UNIQUE constraint failed: turn_steering'')) s
       else guarded_update P
         (\<lambda>now g. g\<lparr>sg_source_message_id := ns_source_message_id input, sg_content := ns_prompt input,
            sg_payload := input, sg_revision := sg_revision g + 1, sg_updated_at := now\<rparr>)
         ''steering changed or is no longer editable'' sid env s)"

definition cancel_turn_steering ::
  "runtime_env \<Rightarrow> int \<Rightarrow> string \<Rightarrow> string \<Rightarrow> u64 \<Rightarrow> ('m, turn_steering) chat" where
  "cancel_turn_steering env sid uid wid expected =
     guarded_update (\<lambda>g. owned_at sid uid wid expected g \<and> sg_status g \<in> {SPending, SHeld})
       (\<lambda>now g. g\<lparr>sg_status := SCancelled, sg_revision := sg_revision g + 1,
          sg_cancelled_at := Some now, sg_updated_at := now\<rparr>)
       ''steering changed or is no longer cancellable'' sid env"

definition promote_turn_steering_on ::
  "runtime_env \<Rightarrow> int \<Rightarrow> string \<Rightarrow> string \<Rightarrow> u64 \<Rightarrow> ('m, turn_steering) chat" where
  "promote_turn_steering_on env sid uid wid expected =
     guarded_update (\<lambda>g. owned_at sid uid wid expected g \<and> sg_status g = SHeld)
       (\<lambda>now g. g\<lparr>sg_status := SPromoted, sg_revision := sg_revision g + 1, sg_updated_at := now\<rparr>)
       ''held steering changed'' sid env"

definition mark_turn_steering_interpreted ::
  "runtime_env \<Rightarrow> int \<Rightarrow> u64 \<Rightarrow> json \<Rightarrow> string \<Rightarrow> ('m, turn_steering) chat" where
  "mark_turn_steering_interpreted env sid expected decision rid =
     guarded_update (\<lambda>g. sg_steering_id g = sid \<and> sg_revision g = sint expected \<and>
         sg_status g = SClaimed \<and> sg_claimed_run_id g = Some rid)
       (\<lambda>now g. g\<lparr>sg_status := SInterpreted, sg_semantic_decision := Some decision,
          sg_interpreted_at := Some now, sg_last_interpretation_error := None,
          sg_next_retry_at := None, sg_revision := sg_revision g + 1, sg_updated_at := now\<rparr>)
       ''steering changed before interpretation'' sid env"

definition transition_interpreted_steering ::
  "runtime_env \<Rightarrow> int \<Rightarrow> u64 \<Rightarrow> string \<Rightarrow> turn_steering_status \<Rightarrow> turn_steering_status \<Rightarrow>
   (int \<Rightarrow> turn_steering \<Rightarrow> turn_steering) \<Rightarrow> ('m, turn_steering) chat" where
  "transition_interpreted_steering env sid expected rid from_status to_status stamp =
     guarded_update (\<lambda>g. sg_steering_id g = sid \<and> sg_revision g = sint expected \<and>
         sg_status g = from_status \<and> sg_claimed_run_id g = Some rid)
       (\<lambda>now g. (stamp now g)\<lparr>sg_status := to_status, sg_revision := sg_revision g + 1,
          sg_updated_at := now\<rparr>)
       (''steering changed before transition to '' @ turn_steering_status_as_str to_status) sid env"

definition mark_turn_steering_applied ::
  "runtime_env \<Rightarrow> int \<Rightarrow> u64 \<Rightarrow> string \<Rightarrow> ('m, turn_steering) chat" where
  "mark_turn_steering_applied env sid expected rid =
     transition_interpreted_steering env sid expected rid SInterpreted SApplied
       (\<lambda>now g. g\<lparr>sg_applied_at := Some now\<rparr>)"

definition mark_turn_steering_completed ::
  "runtime_env \<Rightarrow> int \<Rightarrow> u64 \<Rightarrow> string \<Rightarrow> ('m, turn_steering) chat" where
  "mark_turn_steering_completed env sid expected rid =
     transition_interpreted_steering env sid expected rid SApplied SCompleted
       (\<lambda>now g. g\<lparr>sg_completed_at := Some now\<rparr>)"

definition release_turn_steering_for_retry ::
  "runtime_env \<Rightarrow> int \<Rightarrow> u64 \<Rightarrow> string \<Rightarrow> int \<Rightarrow> ('m, turn_steering) chat" where
  "release_turn_steering_for_retry env sid expected err next_retry_at =
     guarded_update (\<lambda>g. sg_steering_id g = sid \<and> sg_revision g = sint expected \<and> sg_status g = SClaimed)
       (\<lambda>now g. g\<lparr>sg_status := SPending, sg_claimed_run_id := None, sg_claimed_round := None,
          sg_claimed_at := None, sg_semantic_decision := None, sg_interpreted_at := None,
          sg_last_interpretation_error := Some err, sg_next_retry_at := Some next_retry_at,
          sg_interpretation_attempts := sg_interpretation_attempts g + 1,
          sg_revision := sg_revision g + 1, sg_updated_at := now\<rparr>)
       ''steering changed before retry release'' sid env"

definition defer_pending_turn_steering ::
  "runtime_env \<Rightarrow> int \<Rightarrow> u64 \<Rightarrow> string \<Rightarrow> int \<Rightarrow> ('m, turn_steering) chat" where
  "defer_pending_turn_steering env sid expected err next_retry_at =
     guarded_update (\<lambda>g. sg_steering_id g = sid \<and> sg_revision g = sint expected \<and> sg_status g = SPending)
       (\<lambda>now g. g\<lparr>sg_last_interpretation_error := Some err, sg_next_retry_at := Some next_retry_at,
          sg_interpretation_attempts := sg_interpretation_attempts g + 1,
          sg_revision := sg_revision g + 1, sg_updated_at := now\<rparr>)
       ''steering changed before retry defer'' sid env"

section \<open>Updates of all the rows of a turn\<close>

definition of_turn :: "string \<Rightarrow> string \<Rightarrow> string \<Rightarrow> turn_steering \<Rightarrow> bool" where
  "of_turn uid wid turn g \<longleftrightarrow>
     sg_user_id g = uid \<and> sg_workspace_id g = wid \<and> sg_active_turn_id g = turn"

definition sweep_steering ::
  "runtime_env \<Rightarrow> (turn_steering \<Rightarrow> bool) \<Rightarrow> (int \<Rightarrow> turn_steering \<Rightarrow> turn_steering) \<Rightarrow> ('m, nat) chat" where
  "sweep_steering env P f =
     rt_bind (unix_now env) (\<lambda>now s. (Inr (count_where P (ch_steering s)),
       s\<lparr>ch_steering := update_where P (\<lambda>g. (f now g)\<lparr>sg_revision := sg_revision g + 1,
         sg_updated_at := now\<rparr>) (ch_steering s)\<rparr>))"

definition hold_pending_turn_steering ::
  "runtime_env \<Rightarrow> string \<Rightarrow> string \<Rightarrow> string \<Rightarrow> ('m, nat) chat" where
  "hold_pending_turn_steering env uid wid turn =
     sweep_steering env (\<lambda>g. of_turn uid wid turn g \<and> sg_status g \<in> {SPending, SClaimed, SInterpreted})
       (\<lambda>now g. g\<lparr>sg_status := SHeld\<rparr>)"

definition close_unsettled_turn_steering ::
  "runtime_env \<Rightarrow> string \<Rightarrow> string \<Rightarrow> string \<Rightarrow> string \<Rightarrow> ('m, nat) chat" where
  "close_unsettled_turn_steering env uid wid thread turn =
     sweep_steering env (\<lambda>g. of_turn uid wid turn g \<and> sg_thread_id g = thread \<and>
         sg_status g \<in> {SPending, SHeld, SClaimed, SInterpreted, SApplied})
       (\<lambda>now g. g\<lparr>sg_status := SCancelled, sg_cancelled_at :=
          Some (case sg_cancelled_at g of Some at \<Rightarrow> at | None \<Rightarrow> now)\<rparr>)"

section \<open>The turn's row\<close>

definition chat_turn_active :: "string \<Rightarrow> task_row \<Rightarrow> bool" where
  "chat_turn_active thread r \<longleftrightarrow>
     tk_thread_id r = Some thread \<and> tk_kind r = ''chat_turn'' \<and>
     tk_status r \<notin> set ACTIVE_CHAT_TURN_EXCLUDED_SQL_STATUSES"

definition active_chat_turn_on :: "'m chat_db \<Rightarrow> string \<Rightarrow> string option" where
  "active_chat_turn_on s thread = map_option tk_task_id (find (chat_turn_active thread) (task_rows s))"

definition active_chat_turn_for_thread :: "string \<Rightarrow> ('m, string option) chat" where
  "active_chat_turn_for_thread thread = rt_read (\<lambda>s. active_chat_turn_on s thread)"

definition set_thread :: "task_record \<Rightarrow> string \<Rightarrow> 'm chat_db \<Rightarrow> 'm chat_db" where
  "set_thread t thread =
     on_tasks (update_where (\<lambda>r. task_key r = owner_key t) (\<lambda>r. r\<lparr>tk_thread_id := Some thread\<rparr>))"

text \<open>The columns \<open>request_id\<close>, \<open>source\<close> and \<open>approval\<close>, written beside the thread, are read by no statement.\<close>

definition insert_chat_turn :: "task_record \<Rightarrow> string \<Rightarrow> ('m, unit) chat" where
  "insert_chat_turn t thread =
     rt_bind (on_rt (insert_task t)) (\<lambda>_. rt_modify (set_thread t thread))"

definition fence_chat_turn_finalization ::
  "runtime_env \<Rightarrow> string \<Rightarrow> string \<Rightarrow> string \<Rightarrow> ('m, bool) chat" where
  "fence_chat_turn_finalization env uid wid turn =
     atomic (rt_bind (rt_read (\<lambda>s. count_where (\<lambda>g. of_turn uid wid turn g \<and>
         sg_status g \<in> {SPending, SClaimed, SInterpreted}) (ch_steering s))) (\<lambda>pending.
       if pending > 0 then rt_return False
       else rt_bind (unix_now env) (\<lambda>now.
         rt_bind (rt_modify (on_tasks (update_where
           (\<lambda>r. task_key r = (turn, uid, wid) \<and> tk_status r = ''running'')
           (\<lambda>r. r\<lparr>tk_status := ''finalizing'', tk_updated_at := now\<rparr>)))) (\<lambda>_.
         rt_return True))))"

definition stored_turn :: "'m chat_db \<Rightarrow> string \<times> string \<times> string \<Rightarrow> string \<Rightarrow> task_record option" where
  "stored_turn s k status =
     map_option tk_json (find (\<lambda>r. task_key r = k \<and> tk_kind r = ''chat_turn'' \<and> tk_status r = status)
       (task_rows s))"

definition store_turn :: "string \<times> string \<times> string \<Rightarrow> string \<Rightarrow> task_record \<Rightarrow> 'm chat_db \<Rightarrow> 'm chat_db" where
  "store_turn k status t =
     on_tasks (update_where (\<lambda>r. task_key r = k \<and> tk_status r = status)
       (\<lambda>r. r\<lparr>tk_status := task_status_as_str (t_status t),
          tk_updated_at := unix_timestamp (t_updated_at t), tk_json := t\<rparr>))"

definition park_chat_turn :: "runtime_env \<Rightarrow> string \<Rightarrow> string \<Rightarrow> string \<Rightarrow> ('m, unit) chat" where
  "park_chat_turn env turn uid wid =
     rt_bind (abort_running_agent_runs_for_turn env turn uid wid ''parked_waiting_for_model'') (\<lambda>_.
     atomic (rt_bind (rt_read (\<lambda>s. stored_turn s (turn, uid, wid) ''running'')) (\<lambda>found.
       case found of
         None \<Rightarrow> rt_return ()
       | Some t \<Rightarrow>
           rt_bind (on_rt (release_resources t)) (\<lambda>_.
           rt_bind (on_rt (now_utc env)) (\<lambda>now.
           rt_bind (rt_modify (store_turn (turn, uid, wid) ''running''
             ((clear_lease (t\<lparr>t_status := TParked\<rparr>))\<lparr>t_updated_at := now\<rparr>))) (\<lambda>_.
           rt_bind (sweep_steering env (\<lambda>g. of_turn uid wid turn g \<and> sg_status g = SClaimed)
             (\<lambda>now g. g\<lparr>sg_status := SPending, sg_claimed_run_id := None, sg_claimed_round := None,
                sg_claimed_at := None\<rparr>)) (\<lambda>_. rt_return ())))))))"

definition unpark_chat_turn_to_queued :: "runtime_env \<Rightarrow> string \<Rightarrow> string \<Rightarrow> string \<Rightarrow> ('m, bool) chat" where
  "unpark_chat_turn_to_queued env turn uid wid =
     atomic (rt_bind (rt_read (\<lambda>s. stored_turn s (turn, uid, wid) ''parked'')) (\<lambda>found.
       case found of
         None \<Rightarrow> rt_return False
       | Some t \<Rightarrow>
           rt_bind (on_rt (now_utc env)) (\<lambda>now.
           rt_bind (rt_read (\<lambda>s. count_where (\<lambda>r. task_key r = (turn, uid, wid) \<and> tk_status r = ''parked'')
             (task_rows s))) (\<lambda>changed.
           rt_bind (rt_modify (store_turn (turn, uid, wid) ''parked''
             (t\<lparr>t_status := TQueued, t_updated_at := now\<rparr>))) (\<lambda>_.
           if changed \<noteq> 1 then rt_return False
           else rt_bind (sweep_steering env (\<lambda>g. of_turn uid wid turn g \<and> sg_status g = SPending)
             (\<lambda>now g. g\<lparr>sg_interpretation_attempts := 0, sg_next_retry_at := None,
                sg_last_interpretation_error := None\<rparr>)) (\<lambda>_. rt_return True))))))"

end
