(* ===== verification/Objectives.thy ===== *)
theory Objectives
  imports ChatStore
begin

text \<open>
  The objective contract and the runtime plan of a thread (crates/task-runtime/src/store.rs): one
  row each per thread, replaced in place under a revision. An \<open>i64\<close> column that holds a \<open>u64\<close> is a
  word; the revisions stay far below \<open>2 ^ 63\<close>.
\<close>

section \<open>Objective contracts\<close>

definition objective_key :: "objective_contract \<Rightarrow> string \<times> string \<times> string" where
  "objective_key o' = (oc_user_id o', oc_workspace_id o', oc_thread_id o')"

definition replace_objective :: "objective_contract \<Rightarrow> objective_contract \<Rightarrow> objective_contract" where
  "replace_objective old new = new\<lparr>
     oc_revision := (if oc_objective old = oc_objective new \<and> oc_mode old = oc_mode new
       then oc_revision old else oc_revision old + 1),
     oc_created_at := oc_created_at old\<rparr>"

interpretation objective_table: keyed_table objective_key replace_objective
  by unfold_locales (simp add: objective_key_def replace_objective_def)

definition load_objective_contract_on ::
  "'m chat_db \<Rightarrow> string \<Rightarrow> string \<Rightarrow> string \<Rightarrow> objective_contract option" where
  "load_objective_contract_on s uid wid thread = row_of objective_key (uid, wid, thread) (ch_objectives s)"

definition load_objective_contract ::
  "string \<Rightarrow> string \<Rightarrow> string \<Rightarrow> ('m, objective_contract option) chat" where
  "load_objective_contract uid wid thread = rt_read (\<lambda>s. load_objective_contract_on s uid wid thread)"

definition new_objective ::
  "string \<Rightarrow> string \<Rightarrow> string \<Rightarrow> string \<Rightarrow> string \<Rightarrow> objective_mode \<Rightarrow> json \<Rightarrow> json \<Rightarrow> json \<Rightarrow> string \<Rightarrow> int \<Rightarrow>
   objective_contract" where
  "new_objective uid wid thread mid objective mode scope allowed completion status now =
     \<lparr>oc_user_id = uid, oc_workspace_id = wid, oc_thread_id = thread, oc_source_message_id = mid,
      oc_objective = objective, oc_mode = mode, oc_scope_json = scope,
      oc_allowed_actions_json = allowed, oc_completion_json = completion, oc_status = status,
      oc_revision = 1, oc_created_at = now, oc_updated_at = now\<rparr>"

definition upsert_objective_contract ::
  "runtime_env \<Rightarrow> string \<Rightarrow> string \<Rightarrow> string \<Rightarrow> string \<Rightarrow> string \<Rightarrow> objective_mode \<Rightarrow> json \<Rightarrow> json \<Rightarrow> json \<Rightarrow>
   string \<Rightarrow> ('m, objective_contract) chat" where
  "upsert_objective_contract env uid wid thread mid objective mode scope allowed completion status =
     (if status \<notin> {''active'', ''completed'', ''cancelled''}
        then rt_fail (Store (''invalid objective contract status: '' @ status))
      else rt_bind (unix_now env) (\<lambda>now.
        atomic (rt_bind (rt_modify (\<lambda>s. s\<lparr>ch_objectives := upsert objective_key replace_objective
            (new_objective uid wid thread mid objective mode scope allowed completion status now)
            (ch_objectives s)\<rparr>)) (\<lambda>_.
          rt_bind (load_objective_contract uid wid thread) (\<lambda>found.
          rt_lift (ok_or (Store ''objective contract disappeared after upsert'') found))))))"

definition transition_objective_contract_status ::
  "runtime_env \<Rightarrow> string \<Rightarrow> string \<Rightarrow> string \<Rightarrow> u64 \<Rightarrow> string \<Rightarrow> ('m, bool) chat" where
  "transition_objective_contract_status env uid wid thread expected status =
     (if status \<notin> {''completed'', ''cancelled''}
        then rt_fail (Store (''invalid terminal objective contract status: '' @ status))
      else if 2 ^ 63 \<le> unat expected
        then rt_fail (Store ''objective revision exceeds SQLite range'')
      else rt_bind (unix_now env) (\<lambda>now s.
        let P = (\<lambda>o'. objective_key o' = (uid, wid, thread) \<and> oc_revision o' = expected \<and>
              oc_status o' = ''active'') in
        (Inr (count_where P (ch_objectives s) = 1),
         s\<lparr>ch_objectives := update_where P (\<lambda>o'. o'\<lparr>oc_status := status, oc_updated_at := now\<rparr>)
           (ch_objectives s)\<rparr>)))"

section \<open>Runtime plans\<close>

definition plan_key :: "runtime_plan_record \<Rightarrow> string \<times> string \<times> string" where
  "plan_key p = (pl_user_id p, pl_workspace_id p, pl_thread_id p)"

definition replace_plan :: "runtime_plan_record \<Rightarrow> runtime_plan_record \<Rightarrow> runtime_plan_record" where
  "replace_plan old new = old\<lparr>pl_status := pl_status new, pl_plan_json := pl_plan_json new,
     pl_objective_revision := pl_objective_revision new, pl_revision := pl_revision old + 1,
     pl_updated_at := pl_updated_at new\<rparr>"

interpretation plan_table: keyed_table plan_key replace_plan
  by unfold_locales (simp add: plan_key_def replace_plan_def)

definition load_runtime_plan :: "string \<Rightarrow> string \<Rightarrow> string \<Rightarrow> ('m, runtime_plan_record option) chat" where
  "load_runtime_plan uid wid thread = rt_read (\<lambda>s. row_of plan_key (uid, wid, thread) (ch_plans s))"

definition new_plan ::
  "string \<Rightarrow> string \<Rightarrow> string \<Rightarrow> u64 \<Rightarrow> json \<Rightarrow> string \<Rightarrow> int \<Rightarrow> runtime_plan_record" where
  "new_plan uid wid thread objective_revision plan status now =
     \<lparr>pl_user_id = uid, pl_workspace_id = wid, pl_thread_id = thread, pl_status = status,
      pl_plan_json = plan, pl_objective_revision = objective_revision, pl_revision = 1,
      pl_stall_turns = 0, pl_last_resume_done = None, pl_created_at = now, pl_updated_at = now\<rparr>"

definition upsert_runtime_plan ::
  "runtime_env \<Rightarrow> string \<Rightarrow> string \<Rightarrow> string \<Rightarrow> u64 \<Rightarrow> json \<Rightarrow> string \<Rightarrow> ('m, runtime_plan_record) chat" where
  "upsert_runtime_plan env uid wid thread objective_revision plan status =
     (if status \<notin> {''open'', ''settled'', ''blocked''}
        then rt_fail (Store (''invalid runtime plan status: '' @ status))
      else rt_bind (unix_now env) (\<lambda>now.
        atomic (rt_bind (rt_modify (\<lambda>s. s\<lparr>ch_plans := upsert plan_key replace_plan
            (new_plan uid wid thread objective_revision plan status now) (ch_plans s)\<rparr>)) (\<lambda>_.
          rt_bind (load_runtime_plan uid wid thread) (\<lambda>found.
          rt_lift (ok_or (Store ''runtime plan disappeared after upsert'') found))))))"

definition stalled :: "nat \<Rightarrow> int \<Rightarrow> runtime_plan_record \<Rightarrow> runtime_plan_record" where
  "stalled current_done now p = p\<lparr>
     pl_stall_turns := (if pl_last_resume_done p \<noteq> Some current_done then 0 else pl_stall_turns p + 1),
     pl_last_resume_done := Some current_done, pl_updated_at := now\<rparr>"

definition bump_runtime_plan_stall ::
  "runtime_env \<Rightarrow> string \<Rightarrow> string \<Rightarrow> string \<Rightarrow> nat \<Rightarrow> ('m, runtime_plan_record option) chat" where
  "bump_runtime_plan_stall env uid wid thread current_done =
     rt_bind (unix_now env) (\<lambda>now.
     atomic (rt_bind (rt_modify (\<lambda>s. s\<lparr>ch_plans := update_where (\<lambda>p. plan_key p = (uid, wid, thread))
         (stalled current_done now) (ch_plans s)\<rparr>)) (\<lambda>_. load_runtime_plan uid wid thread)))"

definition purge_runtime_plan_for_thread :: "string \<Rightarrow> string \<Rightarrow> string \<Rightarrow> ('m, nat) chat" where
  "purge_runtime_plan_for_thread uid wid thread =
     (\<lambda>s. let P = (\<lambda>p. plan_key p = (uid, wid, thread)) in
        (Inr (count_where P (ch_plans s)), s\<lparr>ch_plans := delete_where P (ch_plans s)\<rparr>))"

end
