(* ===== verification/Text.thy ===== *)
theory Text
  imports Prelude
begin

text \<open>
  Text helpers of the Rust standard library that several crates use: \<open>str::contains\<close>,
  \<open>starts_with\<close>, \<open>lines\<close>, ASCII case folding, splitting at blanks and joining, two more accessors of JSON
  values, and the ordered map \<open>BTreeMap\<close> as the list of its values in key order.
\<close>

section \<open>Strings\<close>

fun contains :: "string \<Rightarrow> string \<Rightarrow> bool" where
  "contains p [] \<longleftrightarrow> p = []"
| "contains p (c # s) \<longleftrightarrow> take (length p) (c # s) = p \<or> contains p s"

definition starts_with :: "string \<Rightarrow> string \<Rightarrow> bool" where
  "starts_with p s \<longleftrightarrow> take (length p) s = p"

definition ascii_lower :: "char \<Rightarrow> char" where
  "ascii_lower c = (if 65 \<le> byte c \<and> byte c \<le> 90 then char_of (byte c + 32) else c)"

definition to_ascii_lowercase :: "string \<Rightarrow> string" where
  "to_ascii_lowercase s = List.map ascii_lower s"

definition is_ascii_alnum :: "char \<Rightarrow> bool" where
  "is_ascii_alnum c \<longleftrightarrow> is_digit c \<or> (65 \<le> byte c \<and> byte c \<le> 90) \<or> (97 \<le> byte c \<and> byte c \<le> 122)"

text \<open>\<open>char::is_ascii_whitespace\<close>: blank, tab, line feed, form feed, carriage return.\<close>

definition is_ascii_blank :: "char \<Rightarrow> bool" where
  "is_ascii_blank c \<longleftrightarrow> byte c = 32 \<or> byte c = 9 \<or> byte c = 10 \<or> byte c = 12 \<or> byte c = 13"

fun split_blanks :: "string \<Rightarrow> string \<Rightarrow> string list" where
  "split_blanks word [] = (if word = [] then [] else [word])"
| "split_blanks word (c # s) =
     (if is_ascii_blank c then (if word = [] then [] else [word]) @ split_blanks [] s
      else split_blanks (word @ [c]) s)"

fun join :: "string \<Rightarrow> string list \<Rightarrow> string" where
  "join sep [] = []"
| "join sep [x] = x"
| "join sep (x # y # r) = x @ sep @ join sep (y # r)"

text \<open>\<open>str::lines\<close>: a line ends at a line feed, a carriage return before it belongs to the end.\<close>

abbreviation LF :: char where
  "LF \<equiv> CHR 0x0A"

abbreviation CR :: char where
  "CR \<equiv> CHR 0x0D"

fun lines_from :: "string \<Rightarrow> string \<Rightarrow> string list" where
  "lines_from cur [] = (if cur = [] then [] else [cur])"
| "lines_from cur (c # s) =
     (if c = LF then (if cur \<noteq> [] \<and> last cur = CR then butlast cur else cur) # lines_from [] s
      else lines_from (cur @ [c]) s)"

definition text_lines :: "string \<Rightarrow> string list" where
  "text_lines s = lines_from [] s"

lemma contains_prefix: "contains p (p @ s)"
  by (cases "p @ s") (auto simp: append_eq_Cons_conv)

lemma contains_append: "contains p s \<Longrightarrow> contains p (r @ s)"
  by (induction r) auto

lemma contains_infix: "contains p (r @ p @ s)"
  by (intro contains_append contains_prefix)

lemma starts_with_append [simp]: "starts_with p (p @ s)"
  by (simp add: starts_with_def)

lemma lines_from_append:
  assumes "LF \<notin> set l"
  shows "lines_from cur (l @ LF # s) =
    (if cur @ l \<noteq> [] \<and> last (cur @ l) = CR then butlast (cur @ l) else cur @ l) # lines_from [] s"
  using assms by (induction l arbitrary: cur) auto

lemma text_lines_concat:
  assumes "\<forall>l \<in> set ls. LF \<notin> set l \<and> (l = [] \<or> last l \<noteq> CR)"
  shows "text_lines (concat (List.map (\<lambda>l. l @ [LF]) ls)) = ls"
  using assms
proof (induction ls)
  case (Cons l ls)
  then show ?case
    using lines_from_append [of l "[]" "concat (List.map (\<lambda>l. l @ [LF]) ls)"]
    by (auto simp: text_lines_def)
qed (simp add: text_lines_def)

lemma join_terminated: "ls \<noteq> [] \<Longrightarrow> join sep ls @ sep = concat (List.map (\<lambda>l. l @ sep) ls)"
  by (induction sep ls rule: join.induct) auto

section \<open>JSON\<close>

fun json_as_bool :: "json \<Rightarrow> bool option" where
  "json_as_bool (JBool b) = Some b"
| "json_as_bool _ = None"

fun json_as_object :: "json \<Rightarrow> (string \<times> json) list option" where
  "json_as_object (JObject m) = Some m"
| "json_as_object _ = None"

text \<open>A chain \<open>get(key).and_then(accessor)\<close>.\<close>

definition json_field :: "(json \<Rightarrow> 'a option) \<Rightarrow> json \<Rightarrow> string \<Rightarrow> 'a option" where
  "json_field accessor v key = Option.bind (json_get v key) accessor"

section \<open>Ordered maps\<close>

text \<open>
  \<open>BTreeMap<String, T>\<close> for values that carry their key: the values in key order. Inserting
  replaces the value of the same key.
\<close>

definition btree_insert :: "('a \<Rightarrow> 'k::linorder) \<Rightarrow> 'a \<Rightarrow> 'a list \<Rightarrow> 'a list" where
  "btree_insert key x xs = insort_key key x (filter (\<lambda>y. key y \<noteq> key x) xs)"

definition btree_get :: "('a \<Rightarrow> 'k) \<Rightarrow> 'a list \<Rightarrow> 'k \<Rightarrow> 'a option" where
  "btree_get key xs k = find (\<lambda>y. key y = k) xs"

lemma btree_get_Nil [simp]: "btree_get key [] k = None"
  by (simp add: btree_get_def)

lemma btree_get_Cons [simp]:
  "btree_get key (x # xs) k = (if key x = k then Some x else btree_get key xs k)"
  by (simp add: btree_get_def)

lemma btree_get_filter:
  "btree_get key (filter (\<lambda>y. key y \<noteq> j) xs) k = (if k = j then None else btree_get key xs k)"
  by (induction xs) auto

lemma btree_get_insort:
  assumes "btree_get key xs (key x) = None"
  shows "btree_get key (insort_key key x xs) k = (if k = key x then Some x else btree_get key xs k)"
  using assms by (induction xs) (auto split: if_splits)

lemma btree_get_insert:
  "btree_get key (btree_insert key x xs) k = (if k = key x then Some x else btree_get key xs k)"
  by (simp add: btree_insert_def btree_get_insort btree_get_filter)

lemma set_btree_insert: "set (btree_insert key x xs) = insert x {y \<in> set xs. key y \<noteq> key x}"
  by (simp add: btree_insert_def set_insort_key)

lemma btree_getD: "btree_get key xs k = Some x \<Longrightarrow> x \<in> set xs \<and> key x = k"
  by (auto simp: btree_get_def find_Some_iff)

lemma btree_get_None: "btree_get key xs k = None \<longleftrightarrow> k \<notin> key ` set xs"
  by (auto simp: btree_get_def find_None_iff)

lemma btree_get_in: "\<lbrakk>distinct (List.map key xs); x \<in> set xs\<rbrakk> \<Longrightarrow> btree_get key xs (key x) = Some x"
  by (induction xs) auto

lemma distinct_insort_key:
  "distinct (List.map key (insort_key key x xs)) \<longleftrightarrow>
     distinct (List.map key xs) \<and> key x \<notin> key ` set xs"
  by (induction xs) (auto simp: set_insort_key)

lemma distinct_btree_insert:
  "distinct (List.map key xs) \<Longrightarrow> distinct (List.map key (btree_insert key x xs))"
  unfolding btree_insert_def distinct_insort_key
  by (auto intro: distinct_map_filter)

text \<open>The order of the list is the order of the keys, so iteration is by ascending key.\<close>

lemma sorted_btree_insert:
  "sorted (List.map key xs) \<Longrightarrow> sorted (List.map key (btree_insert key x xs))"
  by (simp add: btree_insert_def sorted_insort_key sorted_filter)

end
