(* ===== verification/Broker.thy ===== *)
theory Broker
  imports Steering Objectives Text
begin

text \<open>
  The turn broker (crates/task-runtime/src/broker.rs): admitting a turn to a thread, or turning
  it into steering of the turn that is running there, promoting held steering, recovering the
  turns a dead process left behind, and cancelling a turn. The insertion of the chat messages
  is a closure of the caller: a function on the messages that may fail.
\<close>

section \<open>Data\<close>

datatype chat_turn_source = Interactive | Automation | Channel | Connector

fun chat_turn_source_as_str :: "chat_turn_source \<Rightarrow> string" where
  "chat_turn_source_as_str Interactive = ''interactive''"
| "chat_turn_source_as_str Automation = ''automation''"
| "chat_turn_source_as_str Channel = ''channel''"
| "chat_turn_source_as_str Connector = ''connector''"

datatype turn_approval = Full | Confirm | Autonomous | ReadOnly

fun turn_approval_as_str :: "turn_approval \<Rightarrow> string" where
  "turn_approval_as_str Full = ''full''"
| "turn_approval_as_str Confirm = ''confirm''"
| "turn_approval_as_str Autonomous = ''autonomous''"
| "turn_approval_as_str ReadOnly = ''read_only''"

record chat_turn_input =
  ci_thread_id :: string
  ci_request_id :: string
  ci_assistant_message_id :: string
  ci_prompt :: string
  ci_visible_prompt :: "string option"
  ci_images :: "string list"
  ci_attachments :: "json option"
  ci_mode :: "string option"
  ci_model :: "string option"
  ci_source :: chat_turn_source
  ci_approval :: turn_approval

datatype enqueue_error = ThreadBusy string string | EnqueueStore task_error

type_synonym ('m, 'a) broker = "('m chat_db, enqueue_error, 'a) computation"

record enqueued_turn =
  eq_task_id :: string
  eq_thread_id :: string
  eq_position_in_queue :: u32

record promoted_steering =
  ps_steering :: turn_steering
  ps_turn :: enqueued_turn

datatype enqueue_turn_outcome =
  Enqueued enqueued_turn
| SteeringQueued string string turn_steering

text \<open>\<open>EnqueueError::Store\<close> around the errors of the store.\<close>

definition of_store :: "('m, 'a) chat \<Rightarrow> ('m, 'a) broker" where
  "of_store m = (\<lambda>s. case m s of (r, s') \<Rightarrow> (map_err EnqueueStore r, s'))"

section \<open>Retrying\<close>

fun is_transient_store_contention :: "task_error \<Rightarrow> bool" where
  "is_transient_store_contention (Store m) \<longleftrightarrow>
     contains ''database is locked'' m \<or> contains ''database is busy'' m \<or>
     contains ''database table is locked'' m"
| "is_transient_store_contention _ \<longleftrightarrow> False"

definition TRANSIENT_ENQUEUE_ATTEMPTS :: nat where
  "TRANSIENT_ENQUEUE_ATTEMPTS = 5"

primrec retry_left :: "nat \<Rightarrow> ('m, 'a) broker \<Rightarrow> ('m, 'a) broker" where
  "retry_left 0 operation = operation"
| "retry_left (Suc n) operation =
     (\<lambda>s. case operation s of
        (Inl (EnqueueStore e), s') \<Rightarrow>
          if is_transient_store_contention e then retry_left n operation s'
          else (Inl (EnqueueStore e), s')
      | r \<Rightarrow> r)"

definition retry_transient_enqueue :: "('m, 'a) broker \<Rightarrow> ('m, 'a) broker" where
  "retry_transient_enqueue operation = retry_left (TRANSIENT_ENQUEUE_ATTEMPTS - 1) operation"

section \<open>The task of a turn\<close>

definition chat_turn_task_id :: "string \<Rightarrow> string" where
  "chat_turn_task_id request_id = ''turn_'' @ request_id"

fun chat_turn_retry_policy :: "chat_turn_source \<Rightarrow> retry_policy" where
  "chat_turn_retry_policy Interactive = \<lparr>rp_max_attempts = 2, rp_backoff_seconds = 15\<rparr>"
| "chat_turn_retry_policy Channel = \<lparr>rp_max_attempts = 3, rp_backoff_seconds = 30\<rparr>"
| "chat_turn_retry_policy _ = \<lparr>rp_max_attempts = 3, rp_backoff_seconds = 60\<rparr>"

definition chat_turn_resource_requirements :: "task_resource_requirement list" where
  "chat_turn_resource_requirements = [\<lparr>tr_class = BrowserSession, tr_units = 1\<rparr>]"

fun chat_turn_priority :: "chat_turn_source \<Rightarrow> task_priority" where
  "chat_turn_priority Interactive = High"
| "chat_turn_priority Channel = Low"
| "chat_turn_priority _ = Background"

definition json_opt :: "string option \<Rightarrow> json" where
  "json_opt x = (case x of None \<Rightarrow> JNull | Some s \<Rightarrow> JString s)"

definition turn_input_json :: "chat_turn_input \<Rightarrow> json" where
  "turn_input_json i = JObject
     [(''approval'', JString (turn_approval_as_str (ci_approval i))),
      (''assistant_message_id'', JString (ci_assistant_message_id i)),
      (''attachments'', case ci_attachments i of None \<Rightarrow> JNull | Some v \<Rightarrow> v),
      (''images'', JArray (map JString (ci_images i))),
      (''mode'', json_opt (ci_mode i)),
      (''model'', json_opt (ci_model i)),
      (''prompt'', JString (ci_prompt i)),
      (''request_id'', JString (ci_request_id i)),
      (''source'', JString (chat_turn_source_as_str (ci_source i))),
      (''thread_id'', JString (ci_thread_id i)),
      (''visible_prompt'', json_opt (ci_visible_prompt i))]"

definition queued_chat_turn_task :: "string \<Rightarrow> string \<Rightarrow> chat_turn_input \<Rightarrow> int \<Rightarrow> task_record" where
  "queued_chat_turn_task uid wid i now =
     (new_task (chat_turn_task_id (ci_request_id i)) uid wid ''chat_turn'' (ci_prompt i)
        (turn_input_json i) now)
     \<lparr>t_status := TQueued, t_priority := chat_turn_priority (ci_source i),
      t_retry_policy := chat_turn_retry_policy (ci_source i),
      t_resource_requirements := chat_turn_resource_requirements\<rparr>"

definition insert_chat_turn_on :: "task_record \<Rightarrow> chat_turn_input \<Rightarrow> ('m, unit) chat" where
  "insert_chat_turn_on t i =
     rt_bind (rt_read (\<lambda>s. task_at (ch_rt s) (owner_key t))) (\<lambda>found.
       case found of
         Some existing \<Rightarrow>
           if t_kind existing = ''chat_turn'' \<and> t_input_json existing = t_input_json t then rt_return ()
           else rt_fail (Store (''chat turn task id collision for '' @ t_task_id t))
       | None \<Rightarrow> rt_modify (on_tasks (\<lambda>rows. rows @
           [(row_of_task t)\<lparr>tk_blocked_reason := None, tk_thread_id := Some (ci_thread_id i)\<rparr>])))"

definition insert_messages :: "('m \<Rightarrow> task_error + 'm) \<Rightarrow> ('m, unit) chat" where
  "insert_messages f =
     (\<lambda>s. case f (ch_messages s) of
        Inl e \<Rightarrow> (Inl e, s)
      | Inr m \<Rightarrow> (Inr (), s\<lparr>ch_messages := m\<rparr>))"

section \<open>Admission\<close>

definition refuse_busy :: "string \<Rightarrow> ('m, unit) broker" where
  "refuse_busy thread =
     rt_bind (of_store (active_chat_turn_for_thread thread)) (\<lambda>active.
       case active of
         Some turn \<Rightarrow> rt_fail (ThreadBusy thread turn)
       | None \<Rightarrow> rt_return ())"

definition enqueued :: "chat_turn_input \<Rightarrow> enqueued_turn" where
  "enqueued i = \<lparr>eq_task_id = chat_turn_task_id (ci_request_id i), eq_thread_id = ci_thread_id i,
     eq_position_in_queue = 0\<rparr>"

definition enqueue_chat_turn ::
  "runtime_env \<Rightarrow> string \<Rightarrow> string \<Rightarrow> chat_turn_input \<Rightarrow> ('m, enqueued_turn) broker" where
  "enqueue_chat_turn env uid wid i =
     rt_bind (refuse_busy (ci_thread_id i)) (\<lambda>_.
     rt_bind (of_store (on_rt (now_utc env))) (\<lambda>now.
     let t = queued_chat_turn_task uid wid i now in
     rt_bind (of_store (insert_chat_turn t (ci_thread_id i))) (\<lambda>_.
     rt_bind (of_store (active_chat_turn_for_thread (ci_thread_id i))) (\<lambda>active.
       case (case active of Some a \<Rightarrow> if a \<noteq> t_task_id t then Some a else None | None \<Rightarrow> None) of
         Some a \<Rightarrow>
           rt_bind (of_store (on_rt (update_task_status env (t_task_id t) uid wid TCancelled
             (Some ''race lost on thread enqueue'')))) (\<lambda>_.
           rt_fail (ThreadBusy (ci_thread_id i) a))
       | None \<Rightarrow> rt_return (enqueued i)))))"

text \<open>One transaction: busy, or the messages and the turn.\<close>

definition admit ::
  "task_record \<Rightarrow> chat_turn_input \<Rightarrow> ('m \<Rightarrow> task_error + 'm) \<Rightarrow> ('m, unit) chat \<Rightarrow>
   ('m, string option) chat" where
  "admit t i messages after =
     atomic (rt_bind (rt_read (\<lambda>s. active_chat_turn_on s (ci_thread_id i))) (\<lambda>active.
       case active of
         Some turn \<Rightarrow> rt_return (Some turn)
       | None \<Rightarrow>
           rt_bind (insert_messages messages) (\<lambda>_.
           rt_bind (insert_chat_turn_on t i) (\<lambda>_.
           rt_bind after (\<lambda>_. rt_return None)))))"

definition enqueue_chat_turn_atomic ::
  "runtime_env \<Rightarrow> string \<Rightarrow> string \<Rightarrow> chat_turn_input \<Rightarrow> ('m \<Rightarrow> task_error + 'm) \<Rightarrow>
   ('m, enqueued_turn) broker" where
  "enqueue_chat_turn_atomic env uid wid i messages =
     retry_transient_enqueue (
       rt_bind (refuse_busy (ci_thread_id i)) (\<lambda>_.
       rt_bind (of_store (on_rt (now_utc env))) (\<lambda>now.
       rt_bind (of_store (admit (queued_chat_turn_task uid wid i now) i messages (rt_return ()))) (\<lambda>active.
         case active of
           Some turn \<Rightarrow> rt_fail (ThreadBusy (ci_thread_id i) turn)
         | None \<Rightarrow> rt_return (enqueued i)))))"

record terminal_chat_turn =
  tt_status :: task_status
  tt_event_kind :: turn_event_kind
  tt_event_payload :: json

definition close_turn :: "runtime_env \<Rightarrow> string \<Rightarrow> terminal_chat_turn \<Rightarrow> ('m, unit) chat" where
  "close_turn env tid terminal =
     rt_bind (rt_read (\<lambda>s. first_terminal_event_on s tid)) (\<lambda>found.
       case found of
         Some e \<Rightarrow> rt_return ()
       | None \<Rightarrow> rt_bind (insert_turn_event_on env tid (tt_event_kind terminal)
           (tt_event_payload terminal)) (\<lambda>_. rt_return ()))"

definition complete_chat_turn_atomic ::
  "runtime_env \<Rightarrow> string \<Rightarrow> string \<Rightarrow> chat_turn_input \<Rightarrow> terminal_chat_turn \<Rightarrow> ('m \<Rightarrow> task_error + 'm) \<Rightarrow>
   ('m, enqueued_turn) broker" where
  "complete_chat_turn_atomic env uid wid i terminal messages =
     retry_transient_enqueue (
       rt_bind (refuse_busy (ci_thread_id i)) (\<lambda>_.
       rt_bind (of_store (on_rt (now_utc env))) (\<lambda>now.
       let t = (queued_chat_turn_task uid wid i now)
             \<lparr>t_status := tt_status terminal, t_resource_requirements := []\<rparr> in
       rt_bind (of_store (admit t i messages (close_turn env (t_task_id t) terminal))) (\<lambda>active.
         case active of
           Some turn \<Rightarrow> rt_fail (ThreadBusy (ci_thread_id i) turn)
         | None \<Rightarrow> rt_return (enqueued i)))))"

definition steering_input :: "chat_turn_input \<Rightarrow> new_turn_steering" where
  "steering_input i =
     \<lparr>ns_source_message_id = ''local_user_'' @ ci_request_id i, ns_prompt = ci_prompt i,
      ns_visible_prompt = (case ci_visible_prompt i of Some p \<Rightarrow> p | None \<Rightarrow> ci_prompt i),
      ns_images = ci_images i,
      ns_attachments = (case ci_attachments i of Some v \<Rightarrow> v | None \<Rightarrow> JArray []),
      ns_mode = ci_mode i, ns_model = ci_model i\<rparr>"

datatype steer_outcome = SteerOutcome enqueue_turn_outcome | SteerBusy string

definition steer_or_admit ::
  "task_record \<Rightarrow> chat_turn_input \<Rightarrow> u64 \<Rightarrow> int \<Rightarrow> ('m \<Rightarrow> task_error + 'm) \<Rightarrow> ('m, steer_outcome) chat" where
  "steer_or_admit t i objective_revision now messages =
     atomic (rt_bind (rt_read (\<lambda>s. active_chat_turn_on s (ci_thread_id i))) (\<lambda>active.
       case active of
         None \<Rightarrow>
           rt_bind (insert_messages messages) (\<lambda>_.
           rt_bind (insert_chat_turn_on t i) (\<lambda>_.
           rt_return (SteerOutcome (Enqueued (enqueued i)))))
       | Some turn \<Rightarrow>
           if ci_source i \<noteq> Interactive then rt_return (SteerBusy turn)
           else rt_bind (rt_modify (insert_steering (t_user_id t) (t_workspace_id t) (ci_thread_id i)
               turn (steering_input i) objective_revision now)) (\<lambda>_.
             rt_bind (rt_read (\<lambda>s. load_turn_steering_by_source_message s (t_user_id t)
               (t_workspace_id t) (ci_thread_id i) (ns_source_message_id (steering_input i)))) (\<lambda>found.
             rt_bind (rt_lift (ok_or (Store ''steering disappeared after append'') found)) (\<lambda>g.
             rt_return (SteerOutcome (SteeringQueued (ci_thread_id i) turn g)))))))"

definition enqueue_or_steer_chat_turn_atomic ::
  "runtime_env \<Rightarrow> string \<Rightarrow> string \<Rightarrow> chat_turn_input \<Rightarrow> ('m \<Rightarrow> task_error + 'm) \<Rightarrow>
   ('m, enqueue_turn_outcome) broker" where
  "enqueue_or_steer_chat_turn_atomic env uid wid i messages =
     retry_transient_enqueue (
       rt_bind (of_store (load_objective_contract uid wid (ci_thread_id i))) (\<lambda>objective.
       rt_bind (of_store (unix_now env)) (\<lambda>now.
       rt_bind (of_store (on_rt (now_utc env))) (\<lambda>created.
       rt_bind (of_store (steer_or_admit (queued_chat_turn_task uid wid i created) i
         (case objective of Some ob \<Rightarrow> oc_revision ob | None \<Rightarrow> 0) now messages)) (\<lambda>answer.
         case answer of
           SteerOutcome x \<Rightarrow> rt_return x
         | SteerBusy turn \<Rightarrow> rt_fail (ThreadBusy (ci_thread_id i) turn))))))"

definition promoted_input :: "turn_steering \<Rightarrow> chat_turn_input" where
  "promoted_input g =
     (let request_id = ''steering_'' @ show_int (sg_steering_id g) @ ''_'' @
            show_u64 (word_of_int (sg_revision g)); p = sg_payload g in
      \<lparr>ci_thread_id = sg_thread_id g, ci_request_id = request_id,
       ci_assistant_message_id = ''local_assistant_'' @ request_id, ci_prompt = ns_prompt p,
       ci_visible_prompt = Some (ns_visible_prompt p), ci_images = ns_images p,
       ci_attachments = Some (ns_attachments p), ci_mode = ns_mode p, ci_model = ns_model p,
       ci_source = Interactive, ci_approval = Full\<rparr>)"

definition promote_held_turn_steering ::
  "runtime_env \<Rightarrow> string \<Rightarrow> string \<Rightarrow> int \<Rightarrow> u64 \<Rightarrow> (chat_turn_input \<Rightarrow> 'm \<Rightarrow> task_error + 'm) \<Rightarrow>
   ('m, promoted_steering) broker" where
  "promote_held_turn_steering env uid wid sid expected messages =
     of_store (atomic (
       rt_bind (load_turn_steering sid uid wid) (\<lambda>found.
       rt_bind (rt_lift (ok_or (NotFound ''steering'') found)) (\<lambda>g.
       if sg_status g \<noteq> SHeld \<or> sg_revision g \<noteq> int (unat expected)
         then rt_fail (Conflict ''held steering changed'')
       else rt_bind (active_chat_turn_for_thread (sg_thread_id g)) (\<lambda>active.
         if active \<noteq> None then rt_fail (Conflict ''thread already has an active turn'')
         else let i = promoted_input g in
           rt_bind (on_rt (now_utc env)) (\<lambda>now.
           let t = queued_chat_turn_task uid wid i now in
           rt_bind (insert_messages (messages i)) (\<lambda>_.
           rt_bind (insert_chat_turn_on t i) (\<lambda>_.
           rt_bind (promote_turn_steering_on env sid uid wid expected) (\<lambda>g'.
           rt_return \<lparr>ps_steering = g', ps_turn = enqueued i\<rparr>)))))))))"

section \<open>Recovery at boot\<close>

definition str_field :: "json \<Rightarrow> string \<Rightarrow> string \<Rightarrow> string" where
  "str_field j k fallback = (case Option.bind (json_get j k) json_as_str of Some s \<Rightarrow> s | None \<Rightarrow> fallback)"

definition holds_lease :: "task_record \<Rightarrow> bool" where
  "holds_lease t \<longleftrightarrow> t_lease_owner t \<noteq> None \<or> t_lease_expires_at t \<noteq> None \<or> t_last_heartbeat_at t \<noteq> None"

definition restore_turn :: "task_record \<Rightarrow> ('m, unit) chat" where
  "restore_turn t = insert_chat_turn t (str_field (t_input_json t) ''thread_id'' [])"

definition boot_payload :: "string \<Rightarrow> u64 \<Rightarrow> json" where
  "boot_payload reason generation =
     JObject [(''generation'', JNumber (show_u64 generation)), (''reason'', JString reason)]"

definition requeue_turn ::
  "runtime_env \<Rightarrow> string \<Rightarrow> string \<Rightarrow> task_record \<Rightarrow> string \<Rightarrow> string \<Rightarrow> u64 \<Rightarrow> ('m, unit) chat" where
  "requeue_turn env uid wid t blocked reason generation =
     rt_bind (abort_running_agent_runs_for_turn env (t_task_id t) uid wid ''gateway_restart'') (\<lambda>_.
     rt_bind (on_rt (release_resources t)) (\<lambda>_.
     rt_bind (on_rt (now_utc env)) (\<lambda>now.
     rt_bind (restore_turn ((clear_lease (t\<lparr>t_status := TQueued\<rparr>))
       \<lparr>t_blocked_reason := Some blocked, t_updated_at := now\<rparr>)) (\<lambda>_.
     rt_bind (insert_turn_event env (t_task_id t) EvAborted (boot_payload reason generation)) (\<lambda>_.
     rt_return ())))))"

text \<open>\<open>str::parse::<u64>\<close>: digits after an optional plus sign.\<close>

definition parse_u64 :: "string \<Rightarrow> u64 option" where
  "parse_u64 s =
     (if take 1 s = ''-'' then None
      else map_option word_of_int (parse_int 0 18446744073709551615 s))"

definition owned_by_generation :: "u64 \<Rightarrow> task_record \<Rightarrow> bool" where
  "owned_by_generation generation t \<longleftrightarrow>
     (case t_lease_owner t of
        None \<Rightarrow> False
      | Some owner \<Rightarrow> parse_u64 (takeWhile (\<lambda>c. c \<noteq> CHR '':'') owner) = Some generation)"

definition recover_turn ::
  "runtime_env \<Rightarrow> string \<Rightarrow> string \<Rightarrow> u64 \<Rightarrow> task_record \<Rightarrow> string list \<Rightarrow> ('m, string list) chat" where
  "recover_turn env uid wid generation t recovered =
     (if t_kind t \<noteq> ''chat_turn'' then rt_return recovered
      else if task_status_is_terminal (t_status t)
        then rt_bind (on_rt (release_resources t)) (\<lambda>_.
          rt_bind (if holds_lease t
              then rt_bind (on_rt (now_utc env)) (\<lambda>now.
                restore_turn ((clear_lease t)\<lparr>t_updated_at := now\<rparr>))
              else rt_return ()) (\<lambda>_.
          rt_return recovered))
      else if t_status t \<noteq> TRunning
        then rt_bind (on_rt (has_resource_reservation t)) (\<lambda>reserved.
          if t_status t = TWaitingResource \<and> (reserved \<or> holds_lease t)
            then rt_bind (requeue_turn env uid wid t ''recovered at boot (stale resource reservation)''
                ''stale_resource_reservation_at_boot'' generation) (\<lambda>_.
              rt_return (recovered @ [t_task_id t]))
          else rt_return recovered)
      else if owned_by_generation generation t then rt_return recovered
      else rt_bind (requeue_turn env uid wid t ''recovered at boot (stale lease)''
          ''lease_expired_at_boot'' generation) (\<lambda>_.
        rt_return (recovered @ [t_task_id t])))"

definition recover_chat_turns_at_boot ::
  "runtime_env \<Rightarrow> string \<Rightarrow> string \<Rightarrow> u64 \<Rightarrow> ('m, string list) chat" where
  "recover_chat_turns_at_boot env uid wid generation =
     rt_bind (on_rt (list_tasks uid wid)) (\<lambda>ts. rt_fold (recover_turn env uid wid generation) ts [])"

section \<open>Cancelling\<close>

record cancel_chat_turn_outcome =
  cc_cancelled :: bool
  cc_terminal_event :: "turn_event option"

text \<open>
  \<open>CancelNotify\<close> only tells the executor of this process; the text of a validation error is a
  parameter of the environment.
\<close>

definition commit_cancelled :: "runtime_env \<Rightarrow> string \<Rightarrow> ('m, unit) chat" where
  "commit_cancelled env tid =
     rt_bind (on_rt (rt_transaction (\<lambda>d. execution d tid))) (\<lambda>found.
       case found of
         None \<Rightarrow> rt_return ()
       | Some record \<Rightarrow>
           if er_outcome record \<noteq> None then rt_return ()
           else case new_validated_outcome (OutCancelled CancelUser) (er_contract record) of
               Inl e \<Rightarrow> rt_fail (Store (''cancelled execution outcome is invalid: '' @ en_range_error env))
             | Inr v \<Rightarrow>
                 rt_bind (unix_now env) (\<lambda>now.
                 rt_bind (on_rt (rt_transaction (\<lambda>d. commit_execution_outcome d v now))) (\<lambda>_.
                 rt_return ())))"

definition cancelled_turn :: "task_record \<Rightarrow> int \<Rightarrow> task_record" where
  "cancelled_turn t now =
     (let u = t\<lparr>t_status := TCancelled, t_blocked_reason := Some ''cancelled by user/server'',
            t_updated_at := now\<rparr> in
      if t_status t = TRunning then u else clear_lease u)"

definition cancel_chat_turn ::
  "runtime_env \<Rightarrow> string \<Rightarrow> string \<Rightarrow> string \<Rightarrow> ('m, cancel_chat_turn_outcome) chat" where
  "cancel_chat_turn env uid wid tid =
     rt_bind (on_rt (get_task tid uid wid)) (\<lambda>found.
       case found of
         None \<Rightarrow> rt_return \<lparr>cc_cancelled = False, cc_terminal_event = None\<rparr>
       | Some t \<Rightarrow>
           if t_status t \<in> {TCompleted, TFailed, TCancelled}
             then rt_return \<lparr>cc_cancelled = False, cc_terminal_event = None\<rparr>
           else rt_bind (on_rt (now_utc env)) (\<lambda>now.
             let u = cancelled_turn t now in
             rt_bind (on_rt (release_resources u)) (\<lambda>_.
             rt_bind (hold_pending_turn_steering env uid wid tid) (\<lambda>_.
             rt_bind (restore_turn u) (\<lambda>_.
             rt_bind (insert_terminal_event_once env tid EvCancelled
               (JObject [(''at'', JNumber (show_int (unix_timestamp now))),
                         (''reason'', JString ''user_cancel'')])) (\<lambda>written.
             rt_bind (on_rt (rt_transaction (\<lambda>d. discard_pending_execution_wakes d tid))) (\<lambda>_.
             rt_bind (commit_cancelled env tid) (\<lambda>_.
             rt_return \<lparr>cc_cancelled = True, cc_terminal_event =
               (case written of Inserted e \<Rightarrow> Some e | Existing _ \<Rightarrow> None)\<rparr>)))))))
     )"

end
