(* ===== verification/ChatTurns.thy ===== *)
theory ChatTurns
  imports Broker TaskTheorems WakeDelivery
begin

text \<open>
  The turns of a thread: whatever the broker does, a thread has at most one active turn. Where the
  code loses this at the fence before a turn's end is shown in ChatSystem.
\<close>

section \<open>What leaves the turns alone\<close>

lemma rt_keepsD: "rt_keeps R m \<Longrightarrow> R s (snd (m s))"
  by (simp add: rt_keeps_def)

locale chat_frame = state_frame R for R :: "'m chat_db \<Rightarrow> 'm chat_db \<Rightarrow> bool" +
  assumes ticks: "R s (s\<lparr>ch_rt := (ch_rt s)\<lparr>rt_ticks := n\<rparr>\<rparr>)"
begin

lemma keeps_clock: "rt_keeps R (on_rt (now_utc env))" "rt_keeps R (unix_now env)"
  by (simp_all add: rt_keeps_def on_rt_def unix_now_def now_utc_def rt_simps ticks)

lemma keeps_atomic:
  assumes "rt_keeps R m"
  shows "rt_keeps R (atomic m)"
  using assms by (auto simp: rt_keeps_def atomic_def ticks split: prod.split sum.split) (metis snd_conv)

lemma keeps_store: "rt_keeps R m \<Longrightarrow> rt_keeps R (of_store m)"
  by (auto simp: rt_keeps_def of_store_def split: prod.split) (metis snd_conv)

lemma keeps_retry_left: "rt_keeps R m \<Longrightarrow> rt_keeps R (retry_left n m)"
proof (induction n)
  case (Suc n)
  have "R s (snd (retry_left (Suc n) m s))" for s
  proof -
    obtain r s' where m: "m s = (r, s')"
      by fastforce
    have first: "R s s'"
      using Suc.prems m by (metis rt_keeps_def snd_conv)
    have "R s' (snd (retry_left n m s'))"
      using Suc by (simp add: rt_keeps_def)
    with first m show ?thesis
      by (auto split: sum.split enqueue_error.split intro: trans)
  qed
  then show ?case by (simp add: rt_keeps_def)
qed simp

lemma keeps_retry: "rt_keeps R m \<Longrightarrow> rt_keeps R (retry_transient_enqueue m)"
  unfolding retry_transient_enqueue_def by (rule keeps_retry_left)

lemmas keeps_rules = keeps_pure keeps_clock keeps_bind keeps_atomic keeps_store keeps_retry

end

definition same_rows :: "'m chat_db \<Rightarrow> 'm chat_db \<Rightarrow> bool" where
  "same_rows s s' \<longleftrightarrow> task_rows s' = task_rows s"

interpretation sw: chat_frame same_rows
  by unfold_locales (simp_all add: same_rows_def task_rows_def)

lemma same_rows_modify:
  "(\<And>s. ch_rt (f s) = ch_rt s) \<Longrightarrow> rt_keeps same_rows (rt_modify f)"
  by (simp add: rt_keeps_def rt_simps same_rows_def task_rows_def)

lemma same_rows_update:
  "(\<And>s. ch_rt (snd (m s)) = ch_rt s) \<Longrightarrow> rt_keeps same_rows m"
  by (simp add: rt_keeps_def same_rows_def task_rows_def)

lemma insert_messages_rows: "rt_keeps same_rows (insert_messages f)"
  by (rule same_rows_update) (simp add: insert_messages_def split: sum.split)

lemma insert_event_rows: "rt_keeps same_rows (insert_turn_event_on env tid knd payload)"
  unfolding insert_turn_event_on_def
  by (intro sw.keeps_rules same_rows_update) (simp add: Let_def)

lemma adopt_rows: "rt_keeps same_rows (adopt_terminal knd payload e)"
  by (rule same_rows_update) (simp add: adopt_terminal_def Let_def)

lemma terminal_once_rows: "rt_keeps same_rows (insert_terminal_event_once env tid knd payload)"
  unfolding insert_terminal_event_once_def
  by (auto intro!: sw.keeps_rules insert_event_rows split: option.split)

lemma guarded_rows: "rt_keeps same_rows (guarded_update P f refusal sid env)"
  unfolding guarded_update_def
  by (rule sw.keeps_bind [OF sw.keeps_clock(2)], rule sw.keeps_bind, rule same_rows_update, simp)
    (simp add: sw.keeps_rules)

lemma sweep_rows: "rt_keeps same_rows (sweep_steering env P f)"
  unfolding sweep_steering_def by (intro sw.keeps_rules same_rows_update) simp

lemma update_runs_rows: "rt_keeps same_rows (update_runs env P status reason)"
  unfolding update_runs_def by (intro sw.keeps_rules same_rows_update) simp

lemma release_rows: "rt_keeps same_rows (on_rt (release_resources t))"
  by (simp add: rt_keeps_def same_rows_def task_rows_def on_rt_def release_resources_def rt_simps)

lemma get_rows: "rt_keeps same_rows (on_rt (get_task tid uid wid))"
  "rt_keeps same_rows (on_rt (list_tasks uid wid))"
  "rt_keeps same_rows (on_rt (has_resource_reservation t))"
  by (simp_all add: rt_keeps_def same_rows_def task_rows_def on_rt_def get_task_def list_tasks_def
      has_resource_reservation_def rt_simps)

lemma commit_tasks:
  assumes "commit_execution_outcome_with_requirement d v running now = Inr (d', c)"
  shows "db_tasks d' = db_tasks d"
  using assms
proof (cases rule: commit_cases)
  case (existing evs rs f t)
  then show ?thesis
    using arg_cong [OF enqueue_frame [OF existing(7)], of db_tasks] by simp
next
  case (inserted evs rs d1 d2 d3 r)
  have "db_tasks d' = db_tasks d2"
    using arg_cong [OF enqueue_frame [OF inserted(11)], of db_tasks] refresh_wakes [OF inserted(10)]
    by simp
  moreover have "db_tasks d2 = db_tasks d1"
    using arg_cong [OF register_frame [OF inserted(9)], of db_tasks] by simp
  ultimately show ?thesis
    using append_frame [OF inserted(8)] by simp
qed

lemma execution_tasks: "execution d eid = Inr (d', r) \<Longrightarrow> db_tasks d' = db_tasks d"
  by (erule execution_cases) (auto simp: write_projection_def res_bind_Inr)

lemma transaction_rows:
  assumes "\<And>d d' x. f d = Inr (d', x) \<Longrightarrow> db_tasks d' = db_tasks d"
  shows "rt_keeps same_rows (on_rt (rt_transaction f))"
  using assms by (auto simp: rt_keeps_def same_rows_def task_rows_def on_rt_def rt_transaction_def
      split: sum.split prod.split)

lemma discard_rows: "rt_keeps same_rows (on_rt (rt_transaction (\<lambda>d. discard_pending_execution_wakes d tid)))"
  by (rule transaction_rows) (auto simp: discard_pending_execution_wakes_def res_bind_Inr Let_def)

lemma commit_cancelled_rows: "rt_keeps same_rows (commit_cancelled env tid)"
  unfolding commit_cancelled_def commit_execution_outcome_def
  by (auto intro!: sw.keeps_rules transaction_rows dest: execution_tasks commit_tasks
      split: option.split sum.split)

section \<open>One active turn per thread\<close>

definition one_turn :: "task_row list \<Rightarrow> bool" where
  "one_turn rows \<longleftrightarrow> distinct (map task_key rows) \<and>
     (\<forall>thread. \<forall>r \<in> set rows. \<forall>q \<in> set rows.
        chat_turn_active thread r \<longrightarrow> chat_turn_active thread q \<longrightarrow> r = q)"

definition keeps_turns :: "'m chat_db \<Rightarrow> 'm chat_db \<Rightarrow> bool" where
  "keeps_turns s s' \<longleftrightarrow> (one_turn (task_rows s) \<longrightarrow> one_turn (task_rows s'))"

interpretation kt: chat_frame keeps_turns
  by unfold_locales (simp_all add: keeps_turns_def task_rows_def)

lemma keeps_turns_same: "rt_keeps same_rows m \<Longrightarrow> rt_keeps keeps_turns m"
  by (simp add: rt_keeps_def same_rows_def keeps_turns_def)

lemma one_turnI:
  assumes "distinct (map task_key rows)"
    "\<And>thread r q. \<lbrakk>r \<in> set rows; q \<in> set rows; chat_turn_active thread r; chat_turn_active thread q\<rbrakk> \<Longrightarrow>
       task_key r = task_key q"
  shows "one_turn rows"
  unfolding one_turn_def using assms by (metis distinct_map inj_on_eq_iff)

lemma one_turn_update:
  assumes "one_turn rows" "\<And>r. P r \<Longrightarrow> task_key (f r) = task_key r"
    "\<And>r thread. \<lbrakk>P r; chat_turn_active thread (f r)\<rbrakk> \<Longrightarrow> chat_turn_active thread r"
  shows "one_turn (update_where P f rows)"
proof (rule one_turnI)
  show "distinct (map task_key (update_where P f rows))"
    using assms(1,2) by (simp add: map_key_update_where one_turn_def)
  fix thread r q
  assume rq: "r \<in> set (update_where P f rows)" "q \<in> set (update_where P f rows)"
    "chat_turn_active thread r" "chat_turn_active thread q"
  obtain r0 q0 where old: "r0 \<in> set rows" "r = (if P r0 then f r0 else r0)"
      "q0 \<in> set rows" "q = (if P q0 then f q0 else q0)"
    using rq(1,2) by (auto simp: update_where_def)
  have "chat_turn_active thread r0" "chat_turn_active thread q0"
    using old rq(3,4) assms(3) by (auto split: if_splits)
  then have "r0 = q0"
    using assms(1) old(1,3) unfolding one_turn_def by blast
  with old show "task_key r = task_key q" by simp
qed

interpretation upsert_new: keyed_table task_key "\<lambda>old new. new"
  by unfold_locales simp

lemma set_upsert_new:
  "set (upsert key (\<lambda>old new. new) r t) = insert r {q \<in> set t. key q \<noteq> key r}"
  by (auto simp: upsert_def update_where_def image_iff)

lemma one_turn_upsert:
  assumes "one_turn rows"
    "\<And>thread q. \<lbrakk>chat_turn_active thread r; q \<in> set rows; chat_turn_active thread q\<rbrakk> \<Longrightarrow> task_key q = task_key r"
  shows "one_turn (upsert task_key (\<lambda>old new. new) r rows)"
proof (rule one_turnI)
  show "distinct (map task_key (upsert task_key (\<lambda>old new. new) r rows))"
    using assms(1) upsert_new.upsert_distinct by (simp add: one_turn_def)
  fix thread p q
  assume "p \<in> set (upsert task_key (\<lambda>old new. new) r rows)" "q \<in> set (upsert task_key (\<lambda>old new. new) r rows)"
    "chat_turn_active thread p" "chat_turn_active thread q"
  then show "task_key p = task_key q"
    using assms unfolding set_upsert_new one_turn_def by (metis (no_types, lifting) insertE mem_Collect_eq)
qed

lemma active_none: "active_chat_turn_on s thread = None \<longleftrightarrow> (\<forall>r \<in> set (task_rows s). \<not> chat_turn_active thread r)"
  by (auto simp: active_chat_turn_on_def find_None_iff)

lemma terminal_inactive:
  "task_status_is_terminal (t_status t) \<Longrightarrow> tk_status r = task_status_as_str (t_status t) \<Longrightarrow>
   \<not> chat_turn_active thread r"
  by (cases "t_status t") (simp_all add: chat_turn_active_def ACTIVE_CHAT_TURN_EXCLUDED_SQL_STATUSES_def)

lemma chat_turn_active_cong:
  "\<lbrakk>tk_kind r = tk_kind q; tk_thread_id r = tk_thread_id q; tk_status r = tk_status q\<rbrakk> \<Longrightarrow>
   chat_turn_active thread r = chat_turn_active thread q"
  by (simp add: chat_turn_active_def)

definition turn_row :: "task_record \<Rightarrow> string \<Rightarrow> task_row" where
  "turn_row t thread = (row_of_task t)\<lparr>tk_thread_id := Some thread\<rparr>"

lemma turn_row_simps [simp]:
  "task_key (turn_row t thread) = owner_key t" "tk_thread_id (turn_row t thread) = Some thread"
  "tk_status (turn_row t thread) = task_status_as_str (t_status t)" "tk_kind (turn_row t thread) = t_kind t"
  "tk_json (turn_row t thread) = t"
  by (simp_all add: turn_row_def row_of_task_def task_key_def owner_key_def)

lemma update_where_twice:
  "(\<And>r. P r \<Longrightarrow> P (g r)) \<Longrightarrow> update_where P f (update_where P g t) = update_where P (\<lambda>r. f (g r)) t"
  by (induction t) simp_all

lemma insert_chat_turn_run:
  "fst (insert_chat_turn t thread s) = Inr ()"
  "task_rows (snd (insert_chat_turn t thread s)) =
     upsert task_key (\<lambda>old new. new) (turn_row t thread) (task_rows s)"
proof -
  show "fst (insert_chat_turn t thread s) = Inr ()"
    by (simp add: insert_chat_turn_def rt_bind_def rt_modify_def on_rt_def insert_task_def)
  have key: "task_key (row_of_task t) = owner_key t"
    by (simp add: row_of_task_def task_key_def owner_key_def)
  have rows: "task_rows (snd (insert_chat_turn t thread s)) =
      update_where (\<lambda>r. task_key r = owner_key t) (\<lambda>r. r\<lparr>tk_thread_id := Some thread\<rparr>)
        (upsert task_key replace_task (row_of_task t) (task_rows s))"
    by (simp add: insert_chat_turn_def rt_bind_def rt_modify_def on_rt_def insert_task_def put_task_def
        set_thread_def on_tasks_def task_rows_def)
  show "task_rows (snd (insert_chat_turn t thread s)) =
     upsert task_key (\<lambda>old new. new) (turn_row t thread) (task_rows s)"
  proof (cases "owner_key t \<in> task_key ` set (task_rows s)")
    case True
    have "update_where (\<lambda>r. task_key r = owner_key t) (\<lambda>r. r\<lparr>tk_thread_id := Some thread\<rparr>)
        (update_where (\<lambda>r. task_key r = owner_key t) (\<lambda>r. replace_task r (row_of_task t)) (task_rows s)) =
        update_where (\<lambda>r. task_key r = owner_key t) (\<lambda>r. turn_row t thread) (task_rows s)"
      by (subst update_where_twice) (simp_all add: turn_row_def replace_task_def task_key_def owner_key_def row_of_task_def)
    with True show ?thesis
      unfolding rows by (simp add: upsert_def key)
  next
    case False
    then have "update_where (\<lambda>r. task_key r = owner_key t) (\<lambda>r. r\<lparr>tk_thread_id := Some thread\<rparr>)
        (task_rows s) = task_rows s"
      by (intro update_where_none) (metis image_eqI)
    moreover have "upsert task_key (\<lambda>old new. new) (turn_row t thread) (task_rows s) =
        task_rows s @ [turn_row t thread]"
      using False by (simp add: upsert_def)
    ultimately show ?thesis
      using False unfolding rows by (simp add: upsert_def key turn_row_def update_where_def)
  qed
qed

lemma insert_chat_turn_turns:
  assumes "task_status_is_terminal (t_status t) \<or> active_chat_turn_on s thread = None"
  shows "keeps_turns s (snd (insert_chat_turn t thread s))"
  using assms
proof
  assume "task_status_is_terminal (t_status t)"
  then have "\<not> chat_turn_active th (turn_row t thread)" for th
    by (rule terminal_inactive) simp
  then show ?thesis
    by (auto simp: keeps_turns_def insert_chat_turn_run intro: one_turn_upsert)
next
  assume "active_chat_turn_on s thread = None"
  then have "\<not> (q \<in> set (task_rows s) \<and> chat_turn_active th (turn_row t thread) \<and> chat_turn_active th q)" for q th
    by (auto simp: active_none chat_turn_active_def)
  then show ?thesis
    by (auto simp: keeps_turns_def insert_chat_turn_run intro!: one_turn_upsert)
qed

lemma insert_chat_turn_on_turns:
  assumes "active_chat_turn_on s (ci_thread_id i) = None"
  shows "keeps_turns s (snd (insert_chat_turn_on t i s))"
proof (cases "task_at (ch_rt s) (owner_key t)")
  case (Some existing)
  then show ?thesis
    by (simp add: insert_chat_turn_on_def rt_simps kt.refl)
next
  case None
  let ?r = "(row_of_task t)\<lparr>tk_blocked_reason := None, tk_thread_id := Some (ci_thread_id i)\<rparr>"
  have key: "task_key ?r = owner_key t"
    by (simp add: row_of_task_def task_key_def owner_key_def)
  have fresh: "task_key ?r \<notin> task_key ` set (task_rows s)"
    using None unfolding key by (simp add: task_at_def row_of_None task_rows_def)
  have rows: "task_rows (snd (insert_chat_turn_on t i s)) = upsert task_key (\<lambda>old new. new) ?r (task_rows s)"
    using None fresh by (simp add: insert_chat_turn_on_def rt_simps upsert_def on_tasks_def task_rows_def)
  have "\<not> (q \<in> set (task_rows s) \<and> chat_turn_active th ?r \<and> chat_turn_active th q)" for q th
    using assms by (auto simp: active_none chat_turn_active_def)
  then show ?thesis
    unfolding keeps_turns_def rows by (auto intro!: one_turn_upsert)
qed

lemma admit_turns:
  assumes "rt_keeps keeps_turns after"
  shows "rt_keeps keeps_turns (admit t i messages after)"
  unfolding admit_def
proof (rule kt.keeps_atomic, rule kt.keeps_read)
  fix s
  show "keeps_turns s (snd ((case active_chat_turn_on s (ci_thread_id i) of
      Some turn \<Rightarrow> rt_return (Some turn)
    | None \<Rightarrow> rt_bind (insert_messages messages) (\<lambda>_. rt_bind (insert_chat_turn_on t i) (\<lambda>_.
        rt_bind after (\<lambda>_. rt_return None)))) s))"
  proof (cases "active_chat_turn_on s (ci_thread_id i)")
    case (Some turn)
    then show ?thesis by (simp add: rt_return_def kt.refl)
  next
    case None
    have messages: "rt_keeps keeps_turns (insert_messages messages)"
      by (rule keeps_turns_same [OF insert_messages_rows])
    have rest: "keeps_turns s' (snd (rt_bind (insert_chat_turn_on t i) (\<lambda>_. rt_bind after (\<lambda>_. rt_return None)) s'))"
      if "insert_messages messages s = (Inr x, s')" for x s'
    proof (rule kt.keeps_at)
      have "active_chat_turn_on s' (ci_thread_id i) = None"
        using that None by (auto simp: insert_messages_def active_none task_rows_def split: sum.splits)
      then show "keeps_turns s' (snd (insert_chat_turn_on t i s'))"
        by (rule insert_chat_turn_on_turns)
      show "keeps_turns s'' (snd (rt_bind after (\<lambda>_. rt_return None) s''))" for s''
        using assms by (intro kt.keeps_at) (simp_all add: rt_keeps_def rt_return_def kt.refl)
    qed
    have "keeps_turns s (snd (rt_bind (insert_messages messages) (\<lambda>_. rt_bind (insert_chat_turn_on t i) (\<lambda>_.
        rt_bind after (\<lambda>_. rt_return None))) s))"
      by (rule kt.keeps_at) (use messages rest in \<open>simp_all add: rt_keeps_def\<close>)
    with None show ?thesis by simp
  qed
qed

lemma snd_of_store [simp]: "snd (of_store m s) = snd (m s)"
  by (simp add: of_store_def split: prod.split)

lemma refuse_busy_run:
  "refuse_busy thread s =
     (case active_chat_turn_on s thread of
        Some turn \<Rightarrow> (Inl (ThreadBusy thread turn), s) | None \<Rightarrow> (Inr (), s))"
  by (simp add: refuse_busy_def of_store_def active_chat_turn_for_thread_def rt_simps split: option.split)

lemma refuse_busy_turns: "rt_keeps keeps_turns (refuse_busy thread)"
  by (simp add: rt_keeps_def refuse_busy_run kt.refl split: option.split)

lemma close_turn_turns: "rt_keeps keeps_turns (close_turn env tid terminal)"
  unfolding close_turn_def
  by (auto intro!: keeps_turns_same sw.keeps_rules insert_event_rows split: option.split)

lemma enqueue_atomic_turns: "rt_keeps keeps_turns (enqueue_chat_turn_atomic env uid wid i messages)"
  unfolding enqueue_chat_turn_atomic_def
  by (auto intro!: kt.keeps_rules refuse_busy_turns admit_turns split: option.split)

lemma complete_turns: "rt_keeps keeps_turns (complete_chat_turn_atomic env uid wid i terminal messages)"
  unfolding complete_chat_turn_atomic_def
  by (auto intro!: kt.keeps_rules refuse_busy_turns admit_turns close_turn_turns simp: Let_def
      split: option.split)

lemma put_terminal_turns:
  assumes "task_status_is_terminal (t_status t)"
  shows "rt_keeps keeps_turns (on_rt (insert_task t))"
proof -
  have inactive: "\<not> chat_turn_active th (replace_task q (row_of_task t))" "\<not> chat_turn_active th (row_of_task t)" for th q
    using terminal_inactive [OF assms] by (simp_all add: replace_task_def row_of_task_def)
  have key: "task_key (replace_task q (row_of_task t)) = task_key (row_of_task t)" for q
    by (simp add: replace_task_def task_key_def)
  have "one_turn (upsert task_key replace_task (row_of_task t) rows)" if one: "one_turn rows" for rows
  proof (cases "task_key (row_of_task t) \<in> task_key ` set rows")
    case True
    then show ?thesis
      using one key inactive by (auto simp: upsert_def intro!: one_turn_update)
  next
    case False
    have "one_turn (upsert task_key (\<lambda>old new. new) (row_of_task t) rows)"
      using one inactive by (auto intro!: one_turn_upsert)
    with False show ?thesis
      by (simp add: upsert_def)
  qed
  then show ?thesis
    by (simp add: rt_keeps_def keeps_turns_def on_rt_def insert_task_def rt_modify_def put_task_def task_rows_def)
qed

lemma cancel_status_turns:
  "rt_keeps keeps_turns (on_rt (update_task_status env tid uid wid TCancelled reason))"
proof -
  have run: "on_rt (update_task_status env tid uid wid TCancelled reason) s =
      (case task_at (ch_rt s) (tid, uid, wid) of
        None \<Rightarrow> (Inl (NotFound tid), s)
      | Some t \<Rightarrow> on_rt (insert_task (t\<lparr>t_status := TCancelled, t_blocked_reason := reason,
          t_updated_at := en_now env (rt_ticks (ch_rt s))\<rparr>))
          (s\<lparr>ch_rt := (ch_rt s)\<lparr>rt_ticks := Suc (rt_ticks (ch_rt s))\<rparr>\<rparr>))" for s
    by (simp add: on_rt_def update_task_status_def rt_bind_def get_required_run now_utc_def
        insert_task_def rt_modify_def split: option.split)
  have put: "keeps_turns s (snd (on_rt (insert_task (t\<lparr>t_status := TCancelled, t_blocked_reason := reason,
      t_updated_at := now\<rparr>)) (s\<lparr>ch_rt := (ch_rt s)\<lparr>rt_ticks := n\<rparr>\<rparr>)))" for s t now n
    by (rule kt.trans [OF kt.ticks rt_keepsD [OF put_terminal_turns]]) simp
  show ?thesis
    unfolding rt_keeps_def
  proof
    fix s
    show "keeps_turns s (snd (on_rt (update_task_status env tid uid wid TCancelled reason) s))"
      by (cases "task_at (ch_rt s) (tid, uid, wid)") (simp_all only: run option.case kt.refl put snd_conv)
  qed
qed

lemma enqueue_turns: "rt_keeps keeps_turns (enqueue_chat_turn env uid wid i)"
  unfolding rt_keeps_def
proof
  fix s
  show "keeps_turns s (snd (enqueue_chat_turn env uid wid i s))"
  proof (cases "active_chat_turn_on s (ci_thread_id i)")
    case (Some turn)
    then show ?thesis
      by (simp add: enqueue_chat_turn_def rt_bind_def refuse_busy_run kt.refl)
  next
    case None
    let ?s = "s\<lparr>ch_rt := (ch_rt s)\<lparr>rt_ticks := Suc (rt_ticks (ch_rt s))\<rparr>\<rparr>"
    let ?t = "queued_chat_turn_task uid wid i (en_now env (rt_ticks (ch_rt s)))"
    let ?rest = "\<lambda>_. rt_bind (of_store (active_chat_turn_for_thread (ci_thread_id i))) (\<lambda>active.
       case (case active of Some a \<Rightarrow> if a \<noteq> t_task_id ?t then Some a else None | None \<Rightarrow> None) of
         Some a \<Rightarrow>
           rt_bind (of_store (on_rt (update_task_status env (t_task_id ?t) uid wid TCancelled
             (Some ''race lost on thread enqueue'')))) (\<lambda>_.
           rt_fail (ThreadBusy (ci_thread_id i) a))
       | None \<Rightarrow> rt_return (enqueued i))"
    have run: "enqueue_chat_turn env uid wid i s =
        rt_bind (of_store (insert_chat_turn ?t (ci_thread_id i))) ?rest ?s"
      using None by (simp add: enqueue_chat_turn_def rt_bind_def refuse_busy_run of_store_def on_rt_def
          now_utc_def map_err_def Let_def)
    have "active_chat_turn_on ?s (ci_thread_id i) = None"
      using None by (simp add: active_chat_turn_on_def task_rows_def)
    from insert_chat_turn_turns [OF disjI2 [OF this]]
    have insert: "keeps_turns ?s (snd (of_store (insert_chat_turn ?t (ci_thread_id i)) ?s))"
      by simp
    have rest: "rt_keeps keeps_turns (?rest x)" for x
      by (auto intro!: kt.keeps_rules cancel_status_turns simp: active_chat_turn_for_thread_def
          split: option.split)
    have "keeps_turns ?s (snd (rt_bind (of_store (insert_chat_turn ?t (ci_thread_id i))) ?rest ?s))"
    proof (rule kt.keeps_at)
      show "keeps_turns ?s (snd (of_store (insert_chat_turn ?t (ci_thread_id i)) ?s))"
        by (rule insert)
      show "keeps_turns s' (snd (?rest x s'))" for x s'
        by (rule rt_keepsD [OF rest])
    qed
    then show ?thesis
      unfolding run by (rule kt.trans [OF kt.ticks])
  qed
qed

lemma admit_free_turns:
  assumes "active_chat_turn_on s (ci_thread_id i) = None"
    "\<And>u. rt_keeps same_rows (after u)"
  shows "keeps_turns s (snd (rt_bind (insert_messages messages) (\<lambda>_.
    rt_bind (insert_chat_turn_on t i) after) s))"
proof (rule kt.keeps_at)
  show "keeps_turns s (snd (insert_messages messages s))"
    by (rule rt_keepsD [OF keeps_turns_same [OF insert_messages_rows]])
  fix x s'
  assume "insert_messages messages s = (Inr x, s')"
  then have free: "active_chat_turn_on s' (ci_thread_id i) = None"
    using assms(1) by (auto simp: insert_messages_def active_none task_rows_def split: sum.splits)
  show "keeps_turns s' (snd (rt_bind (insert_chat_turn_on t i) after s'))"
  proof (rule kt.keeps_at)
    show "keeps_turns s' (snd (insert_chat_turn_on t i s'))"
      by (rule insert_chat_turn_on_turns [OF free])
    show "keeps_turns s'' (snd (after y s''))" for y s''
      by (rule rt_keepsD [OF keeps_turns_same [OF assms(2)]])
  qed
qed

lemma steering_rows_same: "rt_keeps same_rows (rt_modify (insert_steering uid wid thread turn input rv now))"
  by (rule same_rows_modify) (simp add: insert_steering_def Let_def)

lemma steer_turns: "rt_keeps keeps_turns (steer_or_admit t i rv now messages)"
  unfolding steer_or_admit_def
proof (rule kt.keeps_atomic, rule kt.keeps_read)
  fix s
  let ?go = "\<lambda>active. case active of
         None \<Rightarrow>
           rt_bind (insert_messages messages) (\<lambda>_.
           rt_bind (insert_chat_turn_on t i) (\<lambda>_.
           rt_return (SteerOutcome (Enqueued (enqueued i)))))
       | Some turn \<Rightarrow>
           if ci_source i \<noteq> Interactive then rt_return (SteerBusy turn)
           else rt_bind (rt_modify (insert_steering (t_user_id t) (t_workspace_id t) (ci_thread_id i)
               turn (steering_input i) rv now)) (\<lambda>_.
             rt_bind (rt_read (\<lambda>s. load_turn_steering_by_source_message s (t_user_id t)
               (t_workspace_id t) (ci_thread_id i) (ns_source_message_id (steering_input i)))) (\<lambda>found.
             rt_bind (rt_lift (ok_or (Store ''steering disappeared after append'') found)) (\<lambda>g.
             rt_return (SteerOutcome (SteeringQueued (ci_thread_id i) turn g)))))"
  have busy: "rt_keeps same_rows (?go (Some turn))" for turn
    by (auto intro!: sw.keeps_rules steering_rows_same)
  show "keeps_turns s (snd (?go (active_chat_turn_on s (ci_thread_id i)) s))"
  proof (cases "active_chat_turn_on s (ci_thread_id i)")
    case None
    show ?thesis
      unfolding None option.case by (rule admit_free_turns [OF None]) (rule sw.keeps_pure)
  next
    case (Some turn)
    show ?thesis
      unfolding Some by (rule rt_keepsD [OF keeps_turns_same [OF busy]])
  qed
qed

lemma enqueue_or_steer_turns:
  "rt_keeps keeps_turns (enqueue_or_steer_chat_turn_atomic env uid wid i messages)"
  unfolding enqueue_or_steer_chat_turn_atomic_def
  by (auto intro!: kt.keeps_rules steer_turns simp: load_objective_contract_def split: steer_outcome.split)


lemma promote_on_rows: "rt_keeps same_rows (promote_turn_steering_on env sid uid wid expected)"
  unfolding promote_turn_steering_on_def by (rule guarded_rows)

lemma clock_active:
  "active_chat_turn_on (snd (on_rt (now_utc env) s)) thread = active_chat_turn_on s thread"
  by (simp add: on_rt_def now_utc_def active_chat_turn_on_def task_rows_def)

lemma promote_turns: "rt_keeps keeps_turns (promote_held_turn_steering env uid wid sid expected messages)"
proof -
  let ?free = "\<lambda>g active.
        if active \<noteq> None then rt_fail (Conflict ''thread already has an active turn'')
         else let i = promoted_input g in
           rt_bind (on_rt (now_utc env)) (\<lambda>now.
           let t = queued_chat_turn_task uid wid i now in
           rt_bind (insert_messages (messages i)) (\<lambda>_.
           rt_bind (insert_chat_turn_on t i) (\<lambda>_.
           rt_bind (promote_turn_steering_on env sid uid wid expected) (\<lambda>g'.
           rt_return \<lparr>ps_steering = g', ps_turn = enqueued i\<rparr>))))"
  have go: "keeps_turns s (snd (?free g (active_chat_turn_on s (sg_thread_id g)) s))" for s g
  proof (cases "active_chat_turn_on s (sg_thread_id g)")
    case (Some turn)
    then show ?thesis by (simp add: rt_fail_def kt.refl)
  next
    case None
    have thread: "ci_thread_id (promoted_input g) = sg_thread_id g"
      by (simp add: promoted_input_def Let_def)
    have "keeps_turns s (snd (rt_bind (on_rt (now_utc env)) (\<lambda>now.
        rt_bind (insert_messages (messages (promoted_input g))) (\<lambda>_.
        rt_bind (insert_chat_turn_on (queued_chat_turn_task uid wid (promoted_input g) now) (promoted_input g)) (\<lambda>_.
        rt_bind (promote_turn_steering_on env sid uid wid expected) (\<lambda>g'.
        rt_return \<lparr>ps_steering = g', ps_turn = enqueued (promoted_input g)\<rparr>)))) s))"
    proof (rule kt.keeps_at)
      show "keeps_turns s (snd (on_rt (now_utc env) s))"
        by (rule rt_keepsD [OF kt.keeps_clock(1)])
      fix now s'
      assume "on_rt (now_utc env) s = (Inr now, s')"
      then have free: "active_chat_turn_on s' (ci_thread_id (promoted_input g)) = None"
        using None clock_active [of env s "sg_thread_id g"] by (simp add: thread)
      show "keeps_turns s' (snd (rt_bind (insert_messages (messages (promoted_input g))) (\<lambda>_.
          rt_bind (insert_chat_turn_on (queued_chat_turn_task uid wid (promoted_input g) now) (promoted_input g)) (\<lambda>_.
          rt_bind (promote_turn_steering_on env sid uid wid expected) (\<lambda>g'.
          rt_return \<lparr>ps_steering = g', ps_turn = enqueued (promoted_input g)\<rparr>))) s'))"
        by (rule admit_free_turns [OF free]) (intro sw.keeps_bind promote_on_rows sw.keeps_pure)
    qed
    with None show ?thesis by (simp add: Let_def)
  qed
  have "rt_keeps keeps_turns (rt_bind (active_chat_turn_for_thread (sg_thread_id g)) (?free g))" for g
    unfolding active_chat_turn_for_thread_def by (rule kt.keeps_read) (rule go)
  then show ?thesis
    unfolding promote_held_turn_steering_def
    by (intro kt.keeps_store kt.keeps_atomic kt.keeps_bind kt.keeps_pure)
      (auto simp: load_turn_steering_def intro: kt.keeps_pure)
qed

lemma on_tasks_turns:
  assumes "\<And>r. P r \<Longrightarrow> task_key (f r) = task_key r"
    "\<And>r thread. \<lbrakk>P r; chat_turn_active thread (f r)\<rbrakk> \<Longrightarrow> chat_turn_active thread r"
  shows "rt_keeps keeps_turns (rt_modify (on_tasks (update_where P f)))"
  using assms by (auto simp: rt_keeps_def rt_modify_def keeps_turns_def on_tasks_def task_rows_def
      intro!: one_turn_update)

lemma fence_turns: "rt_keeps keeps_turns (fence_chat_turn_finalization env uid wid turn)"
proof -
  have set: "rt_keeps keeps_turns (rt_modify (on_tasks (update_where
      (\<lambda>r. task_key r = (turn, uid, wid) \<and> tk_status r = ''running'')
      (\<lambda>r. r\<lparr>tk_status := ''finalizing'', tk_updated_at := now\<rparr>))))" for now
    by (rule on_tasks_turns)
      (simp_all add: task_key_def chat_turn_active_def ACTIVE_CHAT_TURN_EXCLUDED_SQL_STATUSES_def)
  show ?thesis
    unfolding fence_chat_turn_finalization_def by (auto intro!: kt.keeps_rules set)
qed

lemma store_turn_turns:
  assumes "status \<notin> set ACTIVE_CHAT_TURN_EXCLUDED_SQL_STATUSES"
  shows "rt_keeps keeps_turns (rt_modify (store_turn k status t))"
  unfolding store_turn_def
  by (rule on_tasks_turns) (use assms in \<open>auto simp: task_key_def chat_turn_active_def\<close>)

lemma park_turns: "rt_keeps keeps_turns (park_chat_turn env turn uid wid)"
  unfolding park_chat_turn_def abort_running_agent_runs_for_turn_def
  by (auto intro!: kt.keeps_rules store_turn_turns keeps_turns_same [OF update_runs_rows]
      keeps_turns_same [OF release_rows] keeps_turns_same [OF sweep_rows] split: option.split
      simp: ACTIVE_CHAT_TURN_EXCLUDED_SQL_STATUSES_def)

lemma unpark_turns: "rt_keeps keeps_turns (unpark_chat_turn_to_queued env turn uid wid)"
  unfolding unpark_chat_turn_to_queued_def
  by (auto intro!: kt.keeps_rules store_turn_turns keeps_turns_same [OF sweep_rows] split: option.split
      simp: ACTIVE_CHAT_TURN_EXCLUDED_SQL_STATUSES_def)

lemma cancel_turns: "rt_keeps keeps_turns (cancel_chat_turn env uid wid tid)"
proof -
  have restore: "rt_keeps keeps_turns (restore_turn (cancelled_turn t now))" for t now
    unfolding rt_keeps_def restore_turn_def
    by (intro allI insert_chat_turn_turns disjI1) (simp add: cancelled_turn_def clear_lease_def Let_def)
  show ?thesis
    unfolding cancel_chat_turn_def hold_pending_turn_steering_def
    by (auto intro!: kt.keeps_rules restore keeps_turns_same [OF release_rows] keeps_turns_same [OF sweep_rows]
        keeps_turns_same [OF terminal_once_rows] keeps_turns_same [OF discard_rows]
        keeps_turns_same [OF commit_cancelled_rows] keeps_turns_same [OF get_rows(1)]
        split: option.split simp: Let_def)
qed

end
