(* ===== verification/ChatSystem.thy ===== *)
theory ChatSystem
  imports ChatTurns
begin

text \<open>
  The requests that reach the chat side of the store, as one step relation: the broker, the
  executor that reports events of a turn, the steering of the running turn and the agent runs.
  Every request is one computation of the store; a run is a sequence of them in the order in
  which they take the lock of the store.
\<close>

section \<open>Emitting events\<close>

text \<open>
  \<open>emit_turn_event\<close> (crates/desktop-gateway/src/turn_executor.rs). The event it returns is the one
  it broadcasts to the connected clients.
\<close>

definition written_event :: "terminal_write \<Rightarrow> turn_event option" where
  "written_event w = (case w of Inserted e \<Rightarrow> Some e | Existing _ \<Rightarrow> None)"

definition persist_turn_event ::
  "runtime_env \<Rightarrow> string \<Rightarrow> turn_event_kind \<Rightarrow> json \<Rightarrow> ('m, turn_event option) chat" where
  "persist_turn_event env tid knd payload =
     (case projection_ref_of payload of
        Some ref \<Rightarrow> rt_bind (insert_turn_projection_event_once env tid knd ref payload)
          (\<lambda>w. rt_return (written_event w))
      | None \<Rightarrow>
          if turn_event_kind_is_terminal knd
            then rt_bind (insert_terminal_event_once env tid knd payload) (\<lambda>w. rt_return (written_event w))
          else rt_bind (insert_turn_event env tid knd payload) (\<lambda>e. rt_return (Some e)))"

definition emit_turn_event ::
  "runtime_env \<Rightarrow> string \<Rightarrow> turn_event_kind \<Rightarrow> json \<Rightarrow> ('m, turn_event option) chat" where
  "emit_turn_event env tid knd payload =
     (if turn_event_kind_is_terminal knd then persist_turn_event env tid knd payload
      else rt_bind (turn_has_terminal_event tid) (\<lambda>ended.
        if ended then rt_return None else persist_turn_event env tid knd payload))"

section \<open>Requests\<close>

text \<open>
  \<open>NoteWaiting\<close> and \<open>NoteRetry\<close> are the two events the task executor of the gateway writes
  without \<open>emit_turn_event\<close>.
\<close>

datatype 'm chat_command =
  EnqueueTurn chat_turn_input
| EnqueueTurnAtomic chat_turn_input "'m \<Rightarrow> task_error + 'm"
| CompleteTurn chat_turn_input terminal_chat_turn "'m \<Rightarrow> task_error + 'm"
| EnqueueOrSteer chat_turn_input "'m \<Rightarrow> task_error + 'm"
| PromoteHeld int u64 "chat_turn_input \<Rightarrow> 'm \<Rightarrow> task_error + 'm"
| CancelTurn string
| FenceTurn string
| ParkTurn string
| UnparkTurn string
| EmitEvent string turn_event_kind json
| NoteWaiting string json
| NoteRetry string json
| AppendSteering string string new_turn_steering u64
| ClaimSteering string string string u32
| UpdateSteering int u64 new_turn_steering
| CancelSteering int u64
| MarkInterpreted int u64 json string
| MarkApplied int u64 string
| MarkCompleted int u64 string
| ReleaseSteering int u64 string int
| DeferSteering int u64 string int
| HoldSteering string
| CloseSteering string string
| CreateRun new_agent_run
| AppendRunEvent string int "int option" string json
| FinishRun string agent_run_status "string option"
| AbortRuns string

primrec chat_do ::
  "runtime_env \<Rightarrow> string \<Rightarrow> string \<Rightarrow> 'm chat_command \<Rightarrow> 'm chat_db \<Rightarrow> 'm chat_db" where
  "chat_do env uid wid (EnqueueTurn i) s = snd (enqueue_chat_turn env uid wid i s)"
| "chat_do env uid wid (EnqueueTurnAtomic i ms) s = snd (enqueue_chat_turn_atomic env uid wid i ms s)"
| "chat_do env uid wid (CompleteTurn i final ms) s =
     snd (complete_chat_turn_atomic env uid wid i final ms s)"
| "chat_do env uid wid (EnqueueOrSteer i ms) s =
     snd (enqueue_or_steer_chat_turn_atomic env uid wid i ms s)"
| "chat_do env uid wid (PromoteHeld sid expected ms) s =
     snd (promote_held_turn_steering env uid wid sid expected ms s)"
| "chat_do env uid wid (CancelTurn tid) s = snd (cancel_chat_turn env uid wid tid s)"
| "chat_do env uid wid (FenceTurn tid) s = snd (fence_chat_turn_finalization env uid wid tid s)"
| "chat_do env uid wid (ParkTurn tid) s = snd (park_chat_turn env tid uid wid s)"
| "chat_do env uid wid (UnparkTurn tid) s = snd (unpark_chat_turn_to_queued env tid uid wid s)"
| "chat_do env uid wid (EmitEvent tid knd payload) s = snd (emit_turn_event env tid knd payload s)"
| "chat_do env uid wid (NoteWaiting tid payload) s = snd (insert_turn_event env tid EvQueued payload s)"
| "chat_do env uid wid (NoteRetry tid payload) s = snd (insert_turn_event env tid Retry payload s)"
| "chat_do env uid wid (AppendSteering thread turn input rv) s =
     snd (append_turn_steering env uid wid thread turn input rv s)"
| "chat_do env uid wid (ClaimSteering thread turn rid round) s =
     snd (claim_pending_turn_steering env uid wid thread turn rid round s)"
| "chat_do env uid wid (UpdateSteering sid expected input) s =
     snd (update_turn_steering env sid uid wid expected input s)"
| "chat_do env uid wid (CancelSteering sid expected) s =
     snd (cancel_turn_steering env sid uid wid expected s)"
| "chat_do env uid wid (MarkInterpreted sid expected decision rid) s =
     snd (mark_turn_steering_interpreted env sid expected decision rid s)"
| "chat_do env uid wid (MarkApplied sid expected rid) s =
     snd (mark_turn_steering_applied env sid expected rid s)"
| "chat_do env uid wid (MarkCompleted sid expected rid) s =
     snd (mark_turn_steering_completed env sid expected rid s)"
| "chat_do env uid wid (ReleaseSteering sid expected err at) s =
     snd (release_turn_steering_for_retry env sid expected err at s)"
| "chat_do env uid wid (DeferSteering sid expected err at) s =
     snd (defer_pending_turn_steering env sid expected err at s)"
| "chat_do env uid wid (HoldSteering turn) s = snd (hold_pending_turn_steering env uid wid turn s)"
| "chat_do env uid wid (CloseSteering thread turn) s =
     snd (close_unsettled_turn_steering env uid wid thread turn s)"
| "chat_do env uid wid (CreateRun n) s = snd (create_agent_run env n s)"
| "chat_do env uid wid (AppendRunEvent rid seq round knd payload) s =
     snd (append_agent_run_event env rid seq round knd payload s)"
| "chat_do env uid wid (FinishRun rid status reason) s = snd (finish_agent_run env rid status reason s)"
| "chat_do env uid wid (AbortRuns reason) s = snd (abort_running_agent_runs env reason s)"

definition chat_step ::
  "runtime_env \<Rightarrow> string \<times> string \<times> 'm chat_command \<Rightarrow> 'm chat_db \<Rightarrow> 'm chat_db" where
  "chat_step env c s = (case c of (uid, wid, k) \<Rightarrow> chat_do env uid wid k s)"

definition chat_run ::
  "runtime_env \<Rightarrow> (string \<times> string \<times> 'm chat_command) list \<Rightarrow> 'm chat_db \<Rightarrow> 'm chat_db" where
  "chat_run env cs s = fold (chat_step env) cs s"

lemma chat_run_induct:
  assumes "P s" "\<And>c s. c \<in> set cs \<Longrightarrow> P s \<Longrightarrow> P (chat_step env c s)"
  shows "P (chat_run env cs s)"
  using assms unfolding chat_run_def by (induction cs arbitrary: s) auto

lemma chat_run_append: "chat_run env (cs @ ds) s = chat_run env ds (chat_run env cs s)"
  by (simp add: chat_run_def)

text \<open>The locale of a relation between states that every request keeps.\<close>

locale chat_relation = state_frame R for R :: "'m chat_db \<Rightarrow> 'm chat_db \<Rightarrow> bool" +
  fixes env :: runtime_env
  assumes step: "R s (chat_step env c s)"
begin

lemma run: "R s (chat_run env cs s)"
  by (rule chat_run_induct) (auto intro: refl trans step)

end

section \<open>One active turn per thread\<close>

lemma persist_rows: "rt_keeps same_rows (persist_turn_event env tid knd payload)"
proof -
  have projected: "rt_keeps same_rows (insert_turn_projection_event_once env tid knd ref payload)" for ref
    unfolding insert_turn_projection_event_once_def
    by (auto intro!: sw.keeps_rules insert_event_rows adopt_rows split: option.split prod.split)
  have plain: "rt_keeps same_rows (insert_turn_event env tid knd payload)"
    unfolding insert_turn_event_def by (intro sw.keeps_atomic insert_event_rows)
  show ?thesis
    unfolding persist_turn_event_def
    by (auto intro!: sw.keeps_rules projected plain terminal_once_rows split: option.split)
qed

lemma emit_rows: "rt_keeps same_rows (emit_turn_event env tid knd payload)"
  unfolding emit_turn_event_def turn_has_terminal_event_def
  by (auto intro!: sw.keeps_rules persist_rows)

lemma event_rows: "rt_keeps same_rows (insert_turn_event env tid knd payload)"
  unfolding insert_turn_event_def by (intro sw.keeps_atomic insert_event_rows)

lemma append_steering_rows: "rt_keeps same_rows (append_turn_steering env uid wid thread turn input rv)"
  unfolding append_turn_steering_def by (intro sw.keeps_rules steering_rows_same)

lemma claim_rows: "rt_keeps same_rows (claim_pending_turn_steering env uid wid thread turn rid round)"
  unfolding claim_pending_turn_steering_def
  by (intro sw.keeps_rules same_rows_update) (simp add: Let_def)

lemma keeps_if: "\<lbrakk>rt_keeps R m; rt_keeps R n\<rbrakk> \<Longrightarrow> rt_keeps R (\<lambda>s. if b s then m s else n s)"
  by (simp add: rt_keeps_def)

lemma update_steering_rows: "rt_keeps same_rows (update_turn_steering env sid uid wid expected input)"
  unfolding update_turn_steering_def Let_def by (intro keeps_if sw.keeps_rules guarded_rows)

lemma run_event_rows: "rt_keeps same_rows (append_run_event rid seq round knd payload now)"
  by (rule same_rows_update) (simp add: append_run_event_def Let_def)

lemma append_run_rows: "rt_keeps same_rows (append_agent_run_event env rid seq round knd payload)"
  unfolding append_agent_run_event_def
  by (auto intro!: sw.keeps_rules run_event_rows same_rows_modify split: option.split)

lemma create_run_rows: "rt_keeps same_rows (create_agent_run env n)"
  unfolding create_agent_run_def
  by (auto intro!: sw.keeps_rules run_event_rows same_rows_modify simp: Let_def split: prod.split)

lemma finish_run_rows: "rt_keeps same_rows (finish_agent_run env rid status reason)"
  unfolding finish_agent_run_def by (auto intro!: sw.keeps_rules update_runs_rows)

lemma quiet_rows:
  "rt_keeps same_rows (cancel_turn_steering env sid uid wid expected)"
  "rt_keeps same_rows (mark_turn_steering_interpreted env sid expected decision rid)"
  "rt_keeps same_rows (mark_turn_steering_applied env sid expected rid)"
  "rt_keeps same_rows (mark_turn_steering_completed env sid expected rid)"
  "rt_keeps same_rows (release_turn_steering_for_retry env sid expected err at)"
  "rt_keeps same_rows (defer_pending_turn_steering env sid expected err at)"
  "rt_keeps same_rows (hold_pending_turn_steering env uid wid turn)"
  "rt_keeps same_rows (close_unsettled_turn_steering env uid wid thread turn)"
  "rt_keeps same_rows (abort_running_agent_runs env rsn)"
  unfolding cancel_turn_steering_def mark_turn_steering_interpreted_def mark_turn_steering_applied_def
    mark_turn_steering_completed_def release_turn_steering_for_retry_def defer_pending_turn_steering_def
    hold_pending_turn_steering_def close_unsettled_turn_steering_def abort_running_agent_runs_def
    transition_interpreted_steering_def
  by (rule guarded_rows sweep_rows update_runs_rows)+

lemmas same_rows_operations =
  emit_rows event_rows append_steering_rows claim_rows update_steering_rows append_run_rows
  create_run_rows finish_run_rows quiet_rows

lemmas turn_operations =
  enqueue_turns enqueue_atomic_turns complete_turns enqueue_or_steer_turns promote_turns cancel_turns
  fence_turns park_turns unpark_turns same_rows_operations [THEN keeps_turns_same]

interpretation kr: chat_relation keeps_turns env for env
proof unfold_locales
  fix s :: "'m chat_db" and c :: "string \<times> string \<times> 'm chat_command"
  obtain uid wid k where c: "c = (uid, wid, k)"
    by (cases c)
  show "keeps_turns s (chat_step env c s)"
    unfolding c chat_step_def prod.case by (cases k) (simp_all add: turn_operations [THEN rt_keepsD])
qed

definition active_turns :: "'m chat_db \<Rightarrow> string \<Rightarrow> task_row list" where
  "active_turns s thread = filter (chat_turn_active thread) (task_rows s)"

lemma one_turn_length: "one_turn (task_rows s) \<Longrightarrow> length (active_turns s thread) \<le> 1"
proof -
  assume one: "one_turn (task_rows s)"
  have same: "p = q" if "p \<in> set (active_turns s thread)" "q \<in> set (active_turns s thread)" for p q
    using that one unfolding active_turns_def one_turn_def by auto
  have "distinct (active_turns s thread)"
    using one unfolding active_turns_def one_turn_def by (simp add: distinct_map)
  moreover have "p = q" if "active_turns s thread = p # q # rest" for p q rest
    by (rule same) (simp_all add: that)
  ultimately show ?thesis
    by (cases "active_turns s thread" rule: remdups_adj.cases) auto
qed

text \<open>
  C7: whatever requests reach the store and in whatever order, a thread never gets a second
  active turn: enqueueing in each of its forms, promoting held steering, parking and resuming,
  fencing and cancelling all keep at most one turn of a thread active, and no request duplicates
  the row of a turn. (The writes of the task scheduler and the recovery at boot, which may queue a
  fenced turn again, are not among the requests.)
\<close>

theorem one_turn_per_thread:
  assumes "one_turn (task_rows s)"
  shows "length (active_turns (chat_run env cs s) thread) \<le> 1 \<and>
    distinct (map task_key (task_rows (chat_run env cs s)))"
proof -
  have "one_turn (task_rows (chat_run env cs s))"
    using assms kr.run [of s env cs] by (simp add: keeps_turns_def)
  then show ?thesis
    using one_turn_length unfolding one_turn_def by blast
qed

definition sample_input :: "string \<Rightarrow> chat_turn_input" where
  "sample_input request =
     \<lparr>ci_thread_id = ''th'', ci_request_id = request, ci_assistant_message_id = ''m'', ci_prompt = ''p'',
      ci_visible_prompt = None, ci_images = [], ci_attachments = None, ci_mode = None, ci_model = None,
      ci_source = Interactive, ci_approval = Full\<rparr>"

definition sample_env :: runtime_env where
  "sample_env = \<lparr>en_now = (\<lambda>n. int n), en_uuid = (\<lambda>n. show_nat n), en_range_error = []\<rparr>"

definition empty_rt :: runtime_db where
  "empty_rt = \<lparr>rt_store = empty_db, rt_dependencies = [], rt_reservations = [], rt_checkpoints = [],
     rt_approvals = [], rt_ticks = 0\<rparr>"

definition empty_chat :: "unit chat_db" where
  "empty_chat = \<lparr>ch_rt = empty_rt, ch_events = [], ch_next_event = 1, ch_runs = [], ch_run_events = [],
     ch_next_run_event = 1, ch_steering = [], ch_next_steering = 1, ch_plans = [], ch_objectives = [],
     ch_messages = ()\<rparr>"

definition sample_requests :: "(string \<times> string \<times> unit chat_command) list" where
  "sample_requests =
     [(''u'', ''w'', EnqueueTurn (sample_input ''a'')),
      (''u'', ''w'', EnqueueOrSteer (sample_input ''b'') Inr),
      (''u'', ''w'', EnqueueTurnAtomic (sample_input ''c'') Inr)]"

lemma one_turn_empty: "one_turn (task_rows empty_chat)"
  by (simp add: one_turn_def task_rows_def empty_chat_def empty_rt_def empty_db_def)

theorem one_turn_per_thread_witness:
  "map tk_task_id (active_turns (chat_run sample_env sample_requests empty_chat) ''th'') =
     [''turn_a''] \<and>
   distinct (map task_key (task_rows (chat_run sample_env sample_requests empty_chat)))"
proof
  show "map tk_task_id (active_turns (chat_run sample_env sample_requests empty_chat) ''th'') =
      [''turn_a'']"
    by code_simp
  show "distinct (map task_key (task_rows (chat_run sample_env sample_requests empty_chat)))"
    using one_turn_per_thread [OF one_turn_empty, of sample_env sample_requests "''th''"] by (rule conjunct2)
qed

section \<open>Where the code falls short\<close>

text \<open>
  The fence marks the row of the turn \<open>finalizing\<close> but leaves its stored task \<open>Running\<close>. The
  watchdog of the executor renews the lease by writing the stored task back, and with it the
  status: the fenced turn is active again beside the turn admitted in between.
\<close>

definition queued_chat :: "unit chat_db" where
  "queued_chat = chat_step sample_env (''u'', ''w'', EnqueueTurn (sample_input ''a'')) empty_chat"

definition running_chat :: "unit chat_db" where
  "running_chat = snd (on_rt (acquire_lease 100 ''turn_a'' ''u'' ''w'' ''1:x'' 5) queued_chat)"

definition fenced_chat :: "unit chat_db" where
  "fenced_chat = chat_step sample_env (''u'', ''w'', FenceTurn ''turn_a'') running_chat"

definition next_chat :: "unit chat_db" where
  "next_chat = chat_step sample_env (''u'', ''w'', EnqueueTurnAtomic (sample_input ''b'') Inr) fenced_chat"

definition beaten_chat :: "unit chat_db" where
  "beaten_chat = snd (on_rt (heartbeat 100 ''turn_a'' ''u'' ''w''
     \<lparr>lo_owner = ''1:x'', lo_fencing_token = 5\<rparr> 9) next_chat)"

lemma fence_admits_next: "length (active_turns next_chat ''th'') = 1"
  by code_simp

lemma heartbeat_reopens_fence: "length (active_turns beaten_chat ''th'') = 2"
  by code_simp

text \<open>A retry of a request whose own turn is active becomes steering of that turn.\<close>

lemma retry_steers_itself:
  "case fst (enqueue_or_steer_chat_turn_atomic sample_env ''u'' ''w'' (sample_input ''a'') Inr
      queued_chat) of
     Inr (SteeringQueued thread turn g) \<Rightarrow> turn = ''turn_a'' \<and> sg_source_message_id g = ''local_user_a''
   | _ \<Rightarrow> False"
  by code_simp

end
