(* ===== verification/TurnStream.thy ===== *)
theory TurnStream
  imports ChatSystem
begin

text \<open>
  The event stream of a turn: numbered without gaps, never rewritten except for the one adoption
  of a terminal event, ended once and quiet afterwards. With the reducer of the turn events this
  gives that no run of the store produces a stream the reducer complains about.
\<close>

section \<open>Logs\<close>

definition turn_log :: "'m chat_db \<Rightarrow> string \<Rightarrow> turn_event list" where
  "turn_log s tid = filter (\<lambda>e. te_turn_id e = tid) (ch_events s)"

definition quiet_kind :: "turn_event_kind \<Rightarrow> bool" where
  "quiet_kind k \<longleftrightarrow> \<not> turn_event_kind_is_terminal k \<and> \<not> reported_after_terminal k"

text \<open>One terminal event at most, and nothing the reducer reports after it.\<close>

primrec ends_once :: "turn_event list \<Rightarrow> bool" where
  "ends_once [] \<longleftrightarrow> True"
| "ends_once (e # es) \<longleftrightarrow>
     (if is_terminal_event e then \<forall>x \<in> set es. quiet_kind (te_kind x) else ends_once es)"

definition stream_ok :: "'m chat_db \<Rightarrow> bool" where
  "stream_ok s \<longleftrightarrow>
     distinct (map te_event_id (ch_events s)) \<and> (\<forall>e \<in> set (ch_events s). te_event_id e < ch_next_event s) \<and>
     (\<forall>tid. map te_seq (turn_log s tid) = [1..int (length (turn_log s tid))] \<and> ends_once (turn_log s tid))"

text \<open>What of an event never changes once it is written.\<close>

definition event_position :: "turn_event \<Rightarrow> int \<times> string \<times> int \<times> int" where
  "event_position e = (te_event_id e, te_turn_id e, te_seq e, te_created_at e)"

definition log_keeps :: "'m chat_db \<Rightarrow> 'm chat_db \<Rightarrow> bool" where
  "log_keeps s s' \<longleftrightarrow> (stream_ok s \<longrightarrow> stream_ok s') \<and>
     (\<exists>new. map event_position (ch_events s') = map event_position (ch_events s) @ new)"

lemma ends_once_append:
  "\<lbrakk>ends_once es; quiet_kind (te_kind e) \<or> (\<forall>x \<in> set es. \<not> is_terminal_event x)\<rbrakk> \<Longrightarrow> ends_once (es @ [e])"
  by (induction es) (auto split: if_splits)

lemma ends_once_map:
  assumes "\<And>e. e \<in> set es \<Longrightarrow> is_terminal_event (f e) = is_terminal_event e"
    "\<And>e. e \<in> set es \<Longrightarrow> \<not> is_terminal_event e \<Longrightarrow> te_kind (f e) = te_kind e"
    "ends_once es"
  shows "ends_once (map f es)"
  using assms by (induction es) (auto simp: quiet_kind_def is_terminal_event_def split: if_splits)

lemma ends_once_terminals: "ends_once es \<Longrightarrow> length (filter is_terminal_event es) \<le> 1"
proof (induction es)
  case (Cons e es)
  then show ?case
    by (auto simp: quiet_kind_def is_terminal_event_def filter_empty_conv split: if_splits)
qed simp

lemma ends_once_well_formed:
  "\<lbrakk>ends_once es; \<forall>e \<in> set es. te_kind e = EvError \<longrightarrow> nonempty_trimmed (te_payload e) ''text'' \<noteq> None\<rbrakk> \<Longrightarrow>
   well_formed_log es"
  by (induction es) (auto simp: well_formed_log_def quiet_kind_def is_terminal_event_def split: if_splits)

lemma foldr_max: "foldr max xs (a :: int) = Max (insert a (set xs))"
  by (induction xs) (simp_all add: insert_commute)

lemma next_seq_upto: "next_seq [1..int n] = int n + 1"
proof (cases n)
  case (Suc m)
  then obtain rest where rest: "[1..int n] = 1 # rest"
    by (simp add: upto.simps [of 1])
  then have "next_seq [1..int n] = foldr max [1..int n] 1 + 1"
    by (simp add: next_seq_def)
  also have "foldr max [1..int n] 1 = Max (insert 1 {1..int n})"
    by (simp add: foldr_max)
  also have "insert 1 {1..int n} = {1..int n}"
    using Suc by auto
  also have "Max {1..int n} = int n"
    by (rule Max_eqI) (use Suc in auto)
  finally show ?thesis by simp
qed (simp add: next_seq_def)

lemma turn_log_snoc:
  "ch_events s' = ch_events s @ [e] \<Longrightarrow>
   turn_log s' tid = turn_log s tid @ (if te_turn_id e = tid then [e] else [])"
  by (simp add: turn_log_def)

lemma upto_snoc: "[1..int (Suc n)] = [1..int n] @ [int n + 1]"
  by (simp add: upto_rec2 add.commute)

section \<open>What leaves the events alone\<close>

definition same_events :: "'m chat_db \<Rightarrow> 'm chat_db \<Rightarrow> bool" where
  "same_events s s' \<longleftrightarrow> ch_events s' = ch_events s \<and> ch_next_event s' = ch_next_event s"

interpretation se: chat_frame same_events
  by unfold_locales (simp_all add: same_events_def)

interpretation lk: chat_frame log_keeps
proof unfold_locales
  show "log_keeps s u" if "log_keeps s t" "log_keeps t u" for s t u :: "'m chat_db"
    using that unfolding log_keeps_def by (metis append.assoc)
qed (auto simp: log_keeps_def stream_ok_def turn_log_def)

lemma log_keeps_same: "rt_keeps same_events m \<Longrightarrow> rt_keeps log_keeps m"
  by (auto simp: rt_keeps_def same_events_def log_keeps_def stream_ok_def turn_log_def)

lemma on_rt_events: "rt_keeps same_events (on_rt m)"
  by (simp add: rt_keeps_def same_events_def on_rt_def split: prod.split)

lemma same_events_update:
  "(\<And>s. ch_events (snd (m s)) = ch_events s \<and> ch_next_event (snd (m s)) = ch_next_event s) \<Longrightarrow>
   rt_keeps same_events m"
  by (simp add: rt_keeps_def same_events_def)

lemma same_events_modify:
  "(\<And>s. ch_events (f s) = ch_events s \<and> ch_next_event (f s) = ch_next_event s) \<Longrightarrow>
   rt_keeps same_events (rt_modify f)"
  by (rule same_events_update) (simp add: rt_modify_def)

lemmas quiet_rules = se.keeps_rules on_rt_events same_events_modify same_events_update

lemma tasks_events: "rt_keeps same_events (rt_modify (on_tasks f))"
  "rt_keeps same_events (rt_modify (set_thread t thread))"
  "rt_keeps same_events (rt_modify (store_turn k status t))"
  by (simp_all add: rt_keeps_def rt_modify_def same_events_def on_tasks_def set_thread_def store_turn_def)

lemma guarded_events: "rt_keeps same_events (guarded_update P f refusal sid env)"
  unfolding guarded_update_def
  by (rule se.keeps_bind [OF se.keeps_clock(2)], rule se.keeps_bind, rule same_events_update, simp)
    (simp add: se.keeps_rules)

lemma sweep_events: "rt_keeps same_events (sweep_steering env P f)"
  unfolding sweep_steering_def by (intro se.keeps_rules same_events_update) simp

lemma runs_events: "rt_keeps same_events (update_runs env P status rsn)"
  unfolding update_runs_def by (intro se.keeps_rules same_events_update) simp

lemma run_event_events: "rt_keeps same_events (append_run_event rid seq round knd payload now)"
  by (rule same_events_update) (simp add: append_run_event_def Let_def)

lemma messages_events: "rt_keeps same_events (insert_messages f)"
  by (rule same_events_update) (simp add: insert_messages_def split: sum.split)

lemma steering_events: "rt_keeps same_events (rt_modify (insert_steering uid wid thread turn input rv now))"
  by (rule same_events_modify) (simp add: insert_steering_def Let_def)

lemma turn_events: "rt_keeps same_events (insert_chat_turn t thread)"
  "rt_keeps same_events (insert_chat_turn_on t i)"
  unfolding insert_chat_turn_def insert_chat_turn_on_def
  by (auto intro!: se.keeps_rules on_rt_events tasks_events split: option.split)

lemma busy_events: "rt_keeps same_events (refuse_busy thread)"
  unfolding refuse_busy_def active_chat_turn_for_thread_def
  by (auto intro!: se.keeps_rules split: option.split)

section \<open>Writing an event\<close>

lemma insert_event_run:
  "\<exists>e t. insert_turn_event_on env tid knd payload s =
      (Inr e, s\<lparr>ch_rt := t, ch_events := ch_events s @ [e], ch_next_event := ch_next_event s + 1\<rparr>) \<and>
    te_event_id e = ch_next_event s \<and> te_turn_id e = tid \<and> te_kind e = knd \<and> te_payload e = payload \<and>
    te_seq e = next_seq (map te_seq (turn_log s tid))"
  by (simp add: insert_turn_event_on_def rt_bind_def unix_now_def on_rt_def now_utc_def rt_return_def
      turn_log_def Let_def) (rule exI, rule refl)

lemma stream_ok_snoc:
  assumes "stream_ok s" "ch_events s' = ch_events s @ [e]" "ch_next_event s' = ch_next_event s + 1"
    "te_event_id e = ch_next_event s" "te_seq e = next_seq (map te_seq (turn_log s (te_turn_id e)))"
    "quiet_kind (te_kind e) \<or> (\<forall>x \<in> set (turn_log s (te_turn_id e)). \<not> is_terminal_event x)"
  shows "stream_ok s'"
proof -
  have "map te_seq (turn_log s' tid) = [1..int (length (turn_log s' tid))]" for tid
  proof (cases "te_turn_id e = tid")
    case True
    have log: "map te_seq (turn_log s tid) = [1..int (length (turn_log s tid))]"
      using assms(1) by (simp add: stream_ok_def)
    then have "te_seq e = int (length (turn_log s tid)) + 1"
      using assms(5) True by (simp add: next_seq_upto)
    with True log show ?thesis
      by (simp add: turn_log_snoc [OF assms(2)] upto_snoc [symmetric])
  next
    case False
    with assms(1) show ?thesis
      by (simp add: turn_log_snoc [OF assms(2)] stream_ok_def)
  qed
  moreover have "ends_once (turn_log s' tid)" for tid
    using assms(1,6) by (auto simp: turn_log_snoc [OF assms(2)] stream_ok_def intro: ends_once_append)
  ultimately show ?thesis
    using assms(1-4) by (auto simp: stream_ok_def)
qed

lemma insert_event_log:
  assumes "quiet_kind knd \<or> (\<forall>x \<in> set (turn_log s tid). \<not> is_terminal_event x)"
  shows "log_keeps s (snd (insert_turn_event_on env tid knd payload s))"
proof -
  obtain e t where run: "insert_turn_event_on env tid knd payload s =
      (Inr e, s\<lparr>ch_rt := t, ch_events := ch_events s @ [e], ch_next_event := ch_next_event s + 1\<rparr>)"
    and e: "te_event_id e = ch_next_event s" "te_turn_id e = tid" "te_kind e = knd"
      "te_seq e = next_seq (map te_seq (turn_log s tid))"
    using insert_event_run [of env tid knd payload s] by auto
  have "stream_ok s \<Longrightarrow> stream_ok (s\<lparr>ch_rt := t, ch_events := ch_events s @ [e],
      ch_next_event := ch_next_event s + 1\<rparr>)"
    by (rule stream_ok_snoc [where e = e]) (use e assms in simp_all)
  then show ?thesis
    by (simp add: log_keeps_def run)
qed

lemma first_terminal_iff:
  "first_terminal_event_on s tid = None \<longleftrightarrow> (\<forall>e \<in> set (turn_log s tid). \<not> is_terminal_event e)"
  by (auto simp: first_terminal_event_on_def find_None_iff events_of_def turn_log_def is_terminal_event_def)

lemma first_terminal_Some:
  assumes "first_terminal_event_on s tid = Some e"
  shows "e \<in> set (ch_events s)" "is_terminal_event e"
proof -
  obtain i where "i < length (events_of s tid)" "e = events_of s tid ! i" "turn_event_kind_is_terminal (te_kind e)"
    using assms by (auto simp: first_terminal_event_on_def find_Some_iff)
  then have "e \<in> set (events_of s tid)" "is_terminal_event e"
    by (simp_all add: is_terminal_event_def)
  then show "e \<in> set (ch_events s)" "is_terminal_event e"
    by (simp_all add: events_of_def)
qed

lemma adopt_log:
  assumes "first_terminal_event_on s tid = Some e" "turn_event_kind_is_terminal knd"
  shows "log_keeps s (snd (adopt_terminal knd payload e s))"
proof -
  let ?P = "\<lambda>x. te_event_id x = te_event_id e" and ?f = "\<lambda>x. x\<lparr>te_kind := knd, te_payload := payload\<rparr>"
  let ?g = "\<lambda>x. if ?P x then ?f x else x"
  have positions: "map event_position (map ?g es) = map event_position es" for es
    by (simp add: event_position_def)
  have same: "map te_event_id (map ?g es) = map te_event_id es" "map te_seq (map ?g es) = map te_seq es" for es
    by simp_all
  have log: "turn_log (s\<lparr>ch_events := map ?g (ch_events s)\<rparr>) u = map ?g (turn_log s u)" for u
    by (simp add: turn_log_def filter_map comp_def if_distrib [of te_turn_id] cong: if_cong)
  have "stream_ok (s\<lparr>ch_events := map ?g (ch_events s)\<rparr>)" if ok: "stream_ok s"
  proof -
    have only: "x = e" if "x \<in> set (ch_events s)" "?P x" for x
      using ok that first_terminal_Some(1) [OF assms(1)] by (auto simp: stream_ok_def dest: inj_onD [of te_event_id] simp: distinct_map)
    have "ends_once (map ?g (turn_log s u))" for u
    proof (rule ends_once_map)
      fix x assume "x \<in> set (turn_log s u)"
      then have x: "?P x \<Longrightarrow> x = e"
        using only by (simp add: turn_log_def)
      show "is_terminal_event (?g x) = is_terminal_event x"
        using x assms(2) first_terminal_Some(2) [OF assms(1)] by (auto simp: is_terminal_event_def)
      show "te_kind (?g x) = te_kind x" if "\<not> is_terminal_event x"
        using x that first_terminal_Some(2) [OF assms(1)] by auto
    qed (use ok in \<open>simp add: stream_ok_def\<close>)
    then show ?thesis
      using ok unfolding stream_ok_def by (auto simp: log same simp del: map_map)
  qed
  then show ?thesis
    using positions [of "ch_events s"]
    by (auto simp: log_keeps_def adopt_terminal_def update_where_def Let_def simp del: map_map)
qed

section \<open>Every request\<close>

lemma keeps_read_at:
  "(\<And>s. R s (snd (g (f s) s))) \<Longrightarrow> rt_keeps R (rt_bind (rt_read f) g)"
  by (simp add: rt_keeps_def rt_simps)

lemma snd_pure: "snd (rt_return x s) = s" "snd (rt_fail e s) = s"
  by (simp_all add: rt_return_def rt_fail_def)

lemma insert_event_quiet: "quiet_kind knd \<Longrightarrow> rt_keeps log_keeps (insert_turn_event env tid knd payload)"
  unfolding insert_turn_event_def
  by (intro lk.keeps_atomic) (simp add: rt_keeps_def insert_event_log)

lemma insert_event_new:
  assumes "first_terminal_event_on s tid = None"
  shows "log_keeps s (snd (rt_bind (insert_turn_event_on env tid knd payload) (\<lambda>e. rt_return (f e)) s))"
  by (rule lk.keeps_at) (use assms in \<open>auto simp: first_terminal_iff snd_pure lk.refl intro!: insert_event_log\<close>)

lemma terminal_once_log: "rt_keeps log_keeps (insert_terminal_event_once env tid knd payload)"
proof (cases "turn_event_kind_is_terminal knd")
  case True
  have "rt_keeps log_keeps (atomic (rt_bind (rt_read (\<lambda>s. first_terminal_event_on s tid)) (\<lambda>found.
        case found of
          Some existing \<Rightarrow> rt_return (Existing existing)
        | None \<Rightarrow> rt_bind (insert_turn_event_on env tid knd payload) (\<lambda>e. rt_return (Inserted e)))))"
  proof (rule lk.keeps_atomic, rule keeps_read_at)
    fix s
    show "log_keeps s (snd ((case first_terminal_event_on s tid of
        Some existing \<Rightarrow> rt_return (Existing existing)
      | None \<Rightarrow> rt_bind (insert_turn_event_on env tid knd payload) (\<lambda>e. rt_return (Inserted e))) s))"
      by (cases "first_terminal_event_on s tid") (simp_all add: insert_event_new snd_pure lk.refl)
  qed
  with True show ?thesis
    by (simp add: insert_terminal_event_once_def)
next
  case False
  then show ?thesis
    by (simp add: insert_terminal_event_once_def lk.keeps_pure)
qed

lemma atomic_log: "log_keeps s (snd (m s)) \<Longrightarrow> log_keeps s (snd (atomic m s))"
  using lk.ticks by (auto simp: atomic_def split: prod.split sum.split)

lemma projection_log:
  assumes "turn_event_kind_is_terminal knd \<or> first_terminal_event_on s tid = None"
  shows "log_keeps s (snd (insert_turn_projection_event_once env tid knd ref payload s))"
proof -
  let ?put = "\<lambda>(projected, terminal).
        case projected of
          Some existing \<Rightarrow> rt_return (Existing existing)
        | None \<Rightarrow>
            (case (if turn_event_kind_is_terminal knd then terminal else None) of
               Some existing \<Rightarrow>
                 if projection_ref_of (te_payload existing) = None \<and>
                     (te_kind existing = knd \<or> knd = EvCancelled)
                   then adopt_terminal knd payload existing
                 else rt_fail (Conflict
                   ''canonical projection conflicts with an unacknowledged terminal event'')
             | None \<Rightarrow> rt_bind (insert_turn_event_on env tid knd payload) (\<lambda>e.
                 rt_return (Inserted e)))"
  have "log_keeps s (snd (?put (projection_event_on s tid ref, first_terminal_event_on s tid) s))"
    using assms
    by (cases "first_terminal_event_on s tid"; cases "projection_event_on s tid ref")
      (auto simp: insert_event_new adopt_log snd_pure lk.refl)
  then have "log_keeps s (snd (atomic (rt_bind (rt_read (\<lambda>s. (projection_event_on s tid ref,
      first_terminal_event_on s tid))) ?put) s))"
    by (intro atomic_log) (simp add: rt_bind_def rt_read_def)
  then show ?thesis
    by (auto simp: insert_turn_projection_event_once_def snd_pure lk.refl)
qed

lemma persist_log:
  assumes "turn_event_kind_is_terminal knd \<or> first_terminal_event_on s tid = None"
  shows "log_keeps s (snd (persist_turn_event env tid knd payload s))"
proof (cases "projection_ref_of payload")
  case (Some ref)
  then show ?thesis
    unfolding persist_turn_event_def option.case
    using projection_log [OF assms] by (auto intro!: lk.keeps_at simp: snd_pure lk.refl)
next
  case None
  show ?thesis
  proof (cases "turn_event_kind_is_terminal knd")
    case True
    have "log_keeps s (snd (rt_bind (insert_terminal_event_once env tid knd payload)
        (\<lambda>w. rt_return (written_event w)) s))"
      by (rule rt_keepsD) (intro lk.keeps_bind terminal_once_log lk.keeps_pure)
    with None True show ?thesis
      by (simp add: persist_turn_event_def)
  next
    case False
    with assms have "log_keeps s (snd (insert_turn_event env tid knd payload s))"
      unfolding insert_turn_event_def by (intro atomic_log insert_event_log) (simp add: first_terminal_iff)
    with None False show ?thesis
      by (auto simp: persist_turn_event_def snd_pure lk.refl intro!: lk.keeps_at)
  qed
qed

lemma emit_log: "rt_keeps log_keeps (emit_turn_event env tid knd payload)"
  unfolding rt_keeps_def
proof
  fix s
  show "log_keeps s (snd (emit_turn_event env tid knd payload s))"
    by (cases "first_terminal_event_on s tid")
      (auto simp: emit_turn_event_def turn_has_terminal_event_def rt_bind_def rt_read_def snd_pure
        lk.refl intro: persist_log)
qed

lemma close_log: "rt_keeps log_keeps (close_turn env tid final)"
  unfolding close_turn_def
proof (rule keeps_read_at)
  fix s
  show "log_keeps s (snd ((case first_terminal_event_on s tid of
      Some e \<Rightarrow> rt_return ()
    | None \<Rightarrow> rt_bind (insert_turn_event_on env tid (tt_event_kind final) (tt_event_payload final))
        (\<lambda>_. rt_return ())) s))"
    by (cases "first_terminal_event_on s tid") (simp_all add: insert_event_new snd_pure lk.refl)
qed

lemma admit_log: "rt_keeps log_keeps after \<Longrightarrow> rt_keeps log_keeps (admit t i messages after)"
  unfolding admit_def
  by (auto intro!: lk.keeps_rules messages_events [THEN log_keeps_same] turn_events [THEN log_keeps_same]
      split: option.split)

lemma status_events: "rt_keeps same_events (of_store (on_rt m))"
  by (intro se.keeps_store on_rt_events)

lemma enqueue_log:
  "rt_keeps same_events (enqueue_chat_turn env uid wid i)"
  unfolding enqueue_chat_turn_def active_chat_turn_for_thread_def
  by (auto intro!: se.keeps_rules busy_events status_events turn_events simp: Let_def split: option.split)

lemma atomic_forms_log:
  "rt_keeps log_keeps (enqueue_chat_turn_atomic env uid wid i messages)"
  "rt_keeps log_keeps (complete_chat_turn_atomic env uid wid i final messages)"
  unfolding enqueue_chat_turn_atomic_def complete_chat_turn_atomic_def
  by (auto intro!: lk.keeps_rules busy_events [THEN log_keeps_same] admit_log close_log
      simp: Let_def split: option.split)

lemma steer_events:
  "rt_keeps same_events (enqueue_or_steer_chat_turn_atomic env uid wid i messages)"
  unfolding enqueue_or_steer_chat_turn_atomic_def steer_or_admit_def load_objective_contract_def
  by (auto intro!: se.keeps_rules messages_events turn_events steering_events
      split: option.split steer_outcome.split)

lemma promote_events:
  "rt_keeps same_events (promote_held_turn_steering env uid wid sid expected messages)"
  unfolding promote_held_turn_steering_def promote_turn_steering_on_def load_turn_steering_def
    active_chat_turn_for_thread_def
  by (auto intro!: se.keeps_rules messages_events turn_events guarded_events simp: Let_def)

lemma cancel_log: "rt_keeps log_keeps (cancel_chat_turn env uid wid tid)"
  unfolding cancel_chat_turn_def hold_pending_turn_steering_def restore_turn_def commit_cancelled_def
  by (auto intro!: lk.keeps_rules on_rt_events [THEN log_keeps_same] sweep_events [THEN log_keeps_same]
      turn_events [THEN log_keeps_same] terminal_once_log simp: Let_def split: option.split sum.split)

lemma park_events:
  "rt_keeps same_events (fence_chat_turn_finalization env uid wid turn)"
  "rt_keeps same_events (park_chat_turn env turn uid wid)"
  "rt_keeps same_events (unpark_chat_turn_to_queued env turn uid wid)"
  unfolding fence_chat_turn_finalization_def park_chat_turn_def unpark_chat_turn_to_queued_def
    abort_running_agent_runs_for_turn_def
  by (auto intro!: se.keeps_rules on_rt_events tasks_events sweep_events runs_events split: option.split)

lemma steering_operations_events:
  "rt_keeps same_events (append_turn_steering env uid wid thread turn input rv)"
  "rt_keeps same_events (claim_pending_turn_steering env uid wid thread turn rid round)"
  "rt_keeps same_events (update_turn_steering env sid uid wid expected input)"
  "rt_keeps same_events (cancel_turn_steering env sid uid wid expected)"
  "rt_keeps same_events (mark_turn_steering_interpreted env sid expected decision rid)"
  "rt_keeps same_events (mark_turn_steering_applied env sid expected rid)"
  "rt_keeps same_events (mark_turn_steering_completed env sid expected rid)"
  "rt_keeps same_events (release_turn_steering_for_retry env sid expected err at)"
  "rt_keeps same_events (defer_pending_turn_steering env sid expected err at)"
  "rt_keeps same_events (hold_pending_turn_steering env uid wid turn)"
  "rt_keeps same_events (close_unsettled_turn_steering env uid wid thread turn)"
  unfolding append_turn_steering_def claim_pending_turn_steering_def update_turn_steering_def Let_def
    cancel_turn_steering_def mark_turn_steering_interpreted_def mark_turn_steering_applied_def
    mark_turn_steering_completed_def release_turn_steering_for_retry_def defer_pending_turn_steering_def
    hold_pending_turn_steering_def close_unsettled_turn_steering_def transition_interpreted_steering_def
  by (intro keeps_if se.keeps_rules steering_events guarded_events sweep_events same_events_update; simp)+

lemma run_operations_events:
  "rt_keeps same_events (create_agent_run env n)"
  "rt_keeps same_events (append_agent_run_event env rid seq round knd payload)"
  "rt_keeps same_events (finish_agent_run env rid status rsn)"
  "rt_keeps same_events (abort_running_agent_runs env cause)"
  unfolding create_agent_run_def append_agent_run_event_def finish_agent_run_def abort_running_agent_runs_def
  by (auto intro!: se.keeps_rules run_event_events runs_events same_events_modify simp: Let_def
      split: option.split prod.split)

lemmas log_operations =
  enqueue_log [THEN log_keeps_same] atomic_forms_log steer_events [THEN log_keeps_same]
  promote_events [THEN log_keeps_same] cancel_log park_events [THEN log_keeps_same] emit_log
  steering_operations_events [THEN log_keeps_same] run_operations_events [THEN log_keeps_same]

interpretation ls: chat_relation log_keeps env for env
proof unfold_locales
  fix s :: "'m chat_db" and c :: "string \<times> string \<times> 'm chat_command"
  obtain uid wid k where c: "c = (uid, wid, k)"
    by (cases c)
  have waits: "rt_keeps log_keeps (insert_turn_event env tid EvQueued payload)"
    "rt_keeps log_keeps (insert_turn_event env tid Retry payload)" for tid payload
    by (simp_all add: insert_event_quiet quiet_kind_def)
  show "log_keeps s (chat_step env c s)"
    unfolding c chat_step_def prod.case
    by (cases k) (simp_all add: log_operations [THEN rt_keepsD] waits [THEN rt_keepsD])
qed

section \<open>Resuming a stream\<close>

lemma read_events: "read_turn_events tid since s = (Inr (filter (\<lambda>e. since < te_seq e) (events_of s tid)), s)"
  by (simp add: read_turn_events_def rt_read_def)

lemma events_of_ok:
  assumes "stream_ok s"
  shows "events_of s tid = turn_log s tid"
  unfolding events_of_def turn_log_def [symmetric]
  by (rule sort_key_id_if_sorted) (use assms in \<open>simp add: stream_ok_def\<close>)

lemma filter_after:
  "map f es = [1..int (length es)] \<Longrightarrow> filter (\<lambda>e. int k < f e) es = drop k es"
proof (induction es rule: rev_induct)
  case (snoc e es)
  then have "map f es @ [f e] = [1..int (length es)] @ [int (length es) + 1]"
    by (metis length_append_singleton map_append list.map upto_snoc)
  then have "map f es = [1..int (length es)]" "f e = int (length es) + 1"
    by simp_all
  with snoc.IH show ?case
    by (cases "k \<le> length es") auto
qed simp

text \<open>
  C10: a client that has read a turn's stream and comes back later, after whatever requests in
  between, asks for the events after the last one it saw and gets exactly those it misses: what
  it had is still there under the same ids, positions and times, the new part continues it, and
  the whole is numbered 1, 2, 3 without a gap.
\<close>

theorem turn_stream_resumes:
  assumes "stream_ok s" "fst (read_turn_events tid 0 s) = Inr old"
  shows "\<exists>new whole.
    fst (read_turn_events tid (int (length old)) (chat_run env cs s)) = Inr new \<and>
    fst (read_turn_events tid 0 (chat_run env cs s)) = Inr whole \<and>
    map event_position whole = map event_position (old @ new) \<and>
    map te_seq whole = [1..int (length whole)]"
proof -
  let ?s = "chat_run env cs s"
  have run: "log_keeps s ?s"
    by (rule ls.run)
  with assms(1) have ok: "stream_ok ?s"
    by (simp add: log_keeps_def)
  have numbered: "map te_seq (turn_log t u) = [1..int (length (turn_log t u))]" if "stream_ok t" for t :: "'a chat_db" and u
    using that by (simp add: stream_ok_def)
  have old: "old = turn_log s tid"
    using assms(2) filter_after [OF numbered [OF assms(1)], where k = 0]
    by (simp add: read_events events_of_ok [OF assms(1)])
  obtain new where "map event_position (ch_events ?s) = map event_position (ch_events s) @ new"
    using run by (auto simp: log_keeps_def)
  then have "filter (\<lambda>p. fst (snd p) = tid) (map event_position (ch_events ?s)) =
      filter (\<lambda>p. fst (snd p) = tid) (map event_position (ch_events s)) @ filter (\<lambda>p. fst (snd p) = tid) new"
    by simp
  then have grown: "map event_position (turn_log ?s tid) = map event_position (turn_log s tid) @
      filter (\<lambda>p. fst (snd p) = tid) new"
    by (simp add: filter_map comp_def event_position_def turn_log_def)
  have "map event_position (take (length old) (turn_log ?s tid)) = map event_position old"
    using arg_cong [OF grown, of "take (length old)"] by (simp add: take_map old)
  then have "map event_position (turn_log ?s tid) =
      map event_position (old @ drop (length old) (turn_log ?s tid))"
    by (metis append_take_drop_id map_append)
  then show ?thesis
    using filter_after [OF numbered [OF ok], where k = "length old"] filter_after [OF numbered [OF ok], where k = 0]
      numbered [OF ok] by (auto simp: read_events events_of_ok [OF ok])
qed

lemma empty_stream_ok: "stream_ok empty_chat"
  by (simp add: stream_ok_def empty_chat_def turn_log_def)

definition sample_emit :: "turn_event_kind \<Rightarrow> string \<times> string \<times> unit chat_command" where
  "sample_emit k = (''u'', ''w'', EmitEvent ''t'' k JNull)"

definition sample_stream :: "unit chat_db" where
  "sample_stream = chat_run sample_env [sample_emit Delta, sample_emit Tool] empty_chat"

lemma sample_stream_ok: "stream_ok sample_stream"
  using empty_stream_ok ls.run [of empty_chat sample_env "[sample_emit Delta, sample_emit Tool]"]
  by (simp add: log_keeps_def sample_stream_def)

theorem turn_stream_resumes_witness:
  "\<exists>new whole.
    fst (read_turn_events ''t'' 2 (chat_run sample_env [sample_emit EvDone, sample_emit Delta] sample_stream)) =
      Inr new \<and>
    fst (read_turn_events ''t'' 0 (chat_run sample_env [sample_emit EvDone, sample_emit Delta] sample_stream)) =
      Inr whole \<and>
    map te_seq whole = [1..int (length whole)]"
proof -
  let ?old = "turn_log sample_stream ''t''"
  have "length ?old = 2"
    by code_simp
  moreover have "fst (read_turn_events ''t'' 0 sample_stream) = Inr ?old"
    by code_simp
  ultimately show ?thesis
    using turn_stream_resumes [OF sample_stream_ok, of "''t''" ?old sample_env
        "[sample_emit EvDone, sample_emit Delta]"]
    by auto
qed

section \<open>One ending\<close>

text \<open>
  C11: no run of requests gives a turn a second terminal event or visible activity after its
  end, so the reducer of the turn events finds no contradiction in what the store has written, as
  long as every failure carries its text.
\<close>

theorem streams_never_contradict:
  assumes "stream_ok s"
    "\<And>e. \<lbrakk>e \<in> set (turn_log (chat_run env cs s) tid); te_kind e = EvError\<rbrakk> \<Longrightarrow>
       nonempty_trimmed (te_payload e) ''text'' \<noteq> None"
  shows "length (filter is_terminal_event (turn_log (chat_run env cs s) tid)) \<le> 1 \<and>
    sn_contradictions (reduce_turn_events (turn_log (chat_run env cs s) tid)) = []"
proof -
  let ?log = "turn_log (chat_run env cs s) tid"
  have ok: "stream_ok (chat_run env cs s)"
    using assms(1) ls.run [of s env cs] by (simp add: log_keeps_def)
  then have ends: "ends_once ?log" and seqs: "map te_seq ?log = [1..int (length ?log)]"
    by (simp_all add: stream_ok_def)
  have "sorted_wrt (<) (map te_seq ?log)"
    unfolding seqs by (simp add: sorted_wrt_upto)
  then have "sorted (map event_order ?log)"
    unfolding sorted_wrt_map by (rule sorted_wrt_mono_rel [rotated]) (simp add: event_order_def less_eq_prod_def)
  then have "ordered_events ?log = ?log"
    unfolding ordered_events_def by (rule sort_key_id_if_sorted)
  then show ?thesis
    using ends_once_terminals [OF ends] ends_once_well_formed [OF ends] assms(2)
    by (simp add: contradictions_iff_malformed)
qed

theorem streams_never_contradict_witness:
  "length (filter is_terminal_event (turn_log (chat_run sample_env
      [sample_emit EvDone, sample_emit EvCancelled, sample_emit Activity] sample_stream) ''t'')) = 1 \<and>
   sn_contradictions (reduce_turn_events (turn_log (chat_run sample_env
      [sample_emit EvDone, sample_emit EvCancelled, sample_emit Activity] sample_stream) ''t'')) = []"
proof
  show "length (filter is_terminal_event (turn_log (chat_run sample_env
      [sample_emit EvDone, sample_emit EvCancelled, sample_emit Activity] sample_stream) ''t'')) = 1"
    by code_simp
  have "list_all (\<lambda>e. te_kind e \<noteq> EvError) (turn_log (chat_run sample_env
      [sample_emit EvDone, sample_emit EvCancelled, sample_emit Activity] sample_stream) ''t'')"
    by code_simp
  then have "te_kind e \<noteq> EvError" if "e \<in> set (turn_log (chat_run sample_env
      [sample_emit EvDone, sample_emit EvCancelled, sample_emit Activity] sample_stream) ''t'')" for e
    using that by (simp add: list_all_iff)
  then show "sn_contradictions (reduce_turn_events (turn_log (chat_run sample_env
      [sample_emit EvDone, sample_emit EvCancelled, sample_emit Activity] sample_stream) ''t'')) = []"
    using streams_never_contradict [OF sample_stream_ok] by blast
qed

end
