(* ===== verification/SteeringTheorems.thy ===== *)
theory SteeringTheorems
  imports TurnStream
begin

text \<open>
  The life of a steering row. Whatever the store does to a row is one of a few moves, and every
  move counts its revision up by one: a writer that guards its update by the revision it read
  never overwrites a change it has not seen.
\<close>

section \<open>Moves\<close>

fun status_move :: "turn_steering_status \<Rightarrow> turn_steering_status \<Rightarrow> bool" where
  "status_move SPending b \<longleftrightarrow> b \<in> {SPending, SClaimed, SHeld, SCancelled}"
| "status_move SHeld b \<longleftrightarrow> b \<in> {SHeld, SPromoted, SCancelled}"
| "status_move SClaimed b \<longleftrightarrow> b \<in> {SPending, SInterpreted, SHeld, SCancelled}"
| "status_move SInterpreted b \<longleftrightarrow> b \<in> {SApplied, SHeld, SCancelled}"
| "status_move SApplied b \<longleftrightarrow> b \<in> {SCompleted, SCancelled}"
| "status_move _ b \<longleftrightarrow> False"

definition row_identity :: "turn_steering \<Rightarrow> int \<times> string \<times> string \<times> string \<times> string \<times> int \<times> int" where
  "row_identity g = (sg_steering_id g, sg_user_id g, sg_workspace_id g, sg_thread_id g,
     sg_active_turn_id g, sg_objective_revision g, sg_created_at g)"

definition message_of :: "turn_steering \<Rightarrow> string \<times> string \<times> new_turn_steering" where
  "message_of g = (sg_source_message_id g, sg_content g, sg_payload g)"

definition steering_move :: "turn_steering \<Rightarrow> turn_steering \<Rightarrow> bool" where
  "steering_move g g' \<longleftrightarrow>
     sg_revision g' = sg_revision g + 1 \<and> status_move (sg_status g) (sg_status g') \<and>
     row_identity g' = row_identity g \<and>
     (message_of g' = message_of g \<or> sg_status g \<in> {SPending, SHeld} \<and> sg_status g' = sg_status g)"

definition moved :: "turn_steering \<Rightarrow> turn_steering \<Rightarrow> bool" where
  "moved g g' \<longleftrightarrow> (\<exists>n. (steering_move ^^ n) g g')"

text \<open>A row enters the table pending, at revision 1.\<close>

definition entered :: "turn_steering \<Rightarrow> bool" where
  "entered g \<longleftrightarrow> (\<exists>g0. sg_status g0 = SPending \<and> sg_revision g0 = 1 \<and> moved g0 g)"

definition steering_ids_ok :: "'m chat_db \<Rightarrow> bool" where
  "steering_ids_ok s \<longleftrightarrow> distinct (map sg_steering_id (ch_steering s)) \<and>
     (\<forall>g \<in> set (ch_steering s). sg_steering_id g < ch_next_steering s)"

definition steering_grows :: "'m chat_db \<Rightarrow> 'm chat_db \<Rightarrow> bool" where
  "steering_grows s s' \<longleftrightarrow> (steering_ids_ok s \<longrightarrow> steering_ids_ok s') \<and>
     (\<exists>rows new. ch_steering s' = rows @ new \<and> list_all2 moved (ch_steering s) rows \<and>
       (\<forall>g \<in> set new. entered g))"

lemma moved_refl [simp]: "moved g g"
  unfolding moved_def by (rule exI [of _ 0]) simp

lemma moved_step: "steering_move g g' \<Longrightarrow> moved g g'"
  unfolding moved_def by (rule exI [of _ 1]) auto

lemma moved_trans: "\<lbrakk>moved f g; moved g h\<rbrakk> \<Longrightarrow> moved f h"
  unfolding moved_def by (metis relpowp_trans)

lemma entered_moved: "\<lbrakk>entered g; moved g h\<rbrakk> \<Longrightarrow> entered h"
  unfolding entered_def using moved_trans by blast

lemma entered_rows: "\<lbrakk>list_all2 moved xs ys; \<forall>g \<in> set xs. entered g\<rbrakk> \<Longrightarrow> \<forall>g \<in> set ys. entered g"
  by (induction rule: list_all2_induct) (auto intro: entered_moved)

lemma moves_revision: "(steering_move ^^ n) g h \<Longrightarrow> sg_revision h = sg_revision g + int n"
  by (induction n arbitrary: h) (auto simp: steering_move_def)

lemma moved_identity: "moved g h \<Longrightarrow> row_identity h = row_identity g"
proof -
  have "row_identity h = row_identity g" if "(steering_move ^^ n) g h" for n
    using that by (induction n arbitrary: h) (auto simp: steering_move_def)
  then show "moved g h \<Longrightarrow> row_identity h = row_identity g"
    unfolding moved_def by blast
qed

lemma moved_id: "moved g h \<Longrightarrow> sg_steering_id h = sg_steering_id g"
  using moved_identity by (simp add: row_identity_def)

lemma moved_revision: "moved g h \<Longrightarrow> sg_revision g \<le> sg_revision h"
  unfolding moved_def using moves_revision by fastforce

lemma moved_same_revision: "\<lbrakk>moved g h; sg_revision h = sg_revision g\<rbrakk> \<Longrightarrow> h = g"
  unfolding moved_def using moves_revision by fastforce

lemma moved_final:
  assumes "moved g h" "sg_status g \<in> {SCompleted, SCancelled, SPromoted}"
  shows "h = g"
proof -
  have "\<not> steering_move g k" for k
    using assms(2) by (auto simp: steering_move_def)
  moreover obtain n where "(steering_move ^^ n) g h"
    using assms(1) by (auto simp: moved_def)
  ultimately show ?thesis
    by (metis relpowp_E2)
qed

section \<open>What leaves the rows alone\<close>

definition same_steering :: "'m chat_db \<Rightarrow> 'm chat_db \<Rightarrow> bool" where
  "same_steering s s' \<longleftrightarrow> ch_steering s' = ch_steering s \<and> ch_next_steering s' = ch_next_steering s"

interpretation ss: chat_frame same_steering
  by unfold_locales (simp_all add: same_steering_def)

lemma steering_grows_eq:
  assumes "ch_steering s' = ch_steering s" "ch_next_steering s' = ch_next_steering s"
  shows "steering_grows s s'"
  unfolding steering_grows_def steering_ids_ok_def assms
  by (intro conjI impI exI [of _ "ch_steering s"] exI [of _ "[]"]) (simp_all add: list_all2_refl)

interpretation sg: chat_frame steering_grows
proof unfold_locales
  show "steering_grows s s" for s :: "'m chat_db"
    by (rule steering_grows_eq) simp_all
  show "steering_grows s (s\<lparr>ch_rt := (ch_rt s)\<lparr>rt_ticks := n\<rparr>\<rparr>)" for s :: "'m chat_db" and n
    by (rule steering_grows_eq) simp_all
  fix s t u :: "'m chat_db"
  assume st: "steering_grows s t" and tu: "steering_grows t u"
  obtain r1 n1 where 1: "ch_steering t = r1 @ n1" "list_all2 moved (ch_steering s) r1" "\<forall>g \<in> set n1. entered g"
    using st by (auto simp: steering_grows_def)
  obtain r2 n2 where 2: "ch_steering u = r2 @ n2" "list_all2 moved (r1 @ n1) r2" "\<forall>g \<in> set n2. entered g"
    using tu 1(1) by (auto simp: steering_grows_def)
  obtain ra rb where ab: "r2 = ra @ rb" "list_all2 moved r1 ra" "list_all2 moved n1 rb"
    using 2(2) by (auto simp: list_all2_append1)
  have "list_all2 moved (ch_steering s) ra"
    using 1(2) ab(2) moved_trans by (rule list_all2_trans [rotated]) 
  moreover have "\<forall>g \<in> set (rb @ n2). entered g"
    using entered_rows [OF ab(3) 1(3)] 2(3) by auto
  moreover have "ch_steering u = ra @ rb @ n2"
    using 2(1) ab(1) by simp
  ultimately show "steering_grows s u"
    using st tu unfolding steering_grows_def by blast
qed

lemma steering_grows_same: "rt_keeps same_steering m \<Longrightarrow> rt_keeps steering_grows m"
  unfolding rt_keeps_def same_steering_def by (blast intro: steering_grows_eq)

lemma same_steering_update:
  "(\<And>s. ch_steering (snd (m s)) = ch_steering s \<and> ch_next_steering (snd (m s)) = ch_next_steering s) \<Longrightarrow>
   rt_keeps same_steering m"
  by (simp add: rt_keeps_def same_steering_def)

lemma same_steering_modify:
  "(\<And>s. ch_steering (f s) = ch_steering s \<and> ch_next_steering (f s) = ch_next_steering s) \<Longrightarrow>
   rt_keeps same_steering (rt_modify f)"
  by (rule same_steering_update) (simp add: rt_modify_def)

lemma quiet_steering:
  "rt_keeps same_steering (on_rt m)" "rt_keeps same_steering (rt_modify (on_tasks f))"
  "rt_keeps same_steering (rt_modify (set_thread t thread))"
  "rt_keeps same_steering (rt_modify (store_turn k status t))"
  "rt_keeps same_steering (insert_messages g)"
  "rt_keeps same_steering (update_runs env P rstatus rsn)"
  "rt_keeps same_steering (append_run_event rid seq round knd payload now)"
  "rt_keeps same_steering (insert_turn_event_on env tid ek payload)"
  "rt_keeps same_steering (adopt_terminal ek payload e)"
  by (simp_all add: rt_keeps_def same_steering_def on_rt_def rt_modify_def on_tasks_def set_thread_def
      store_turn_def insert_messages_def update_runs_def rt_bind_def unix_now_def now_utc_def rt_return_def
      append_run_event_def insert_turn_event_on_def adopt_terminal_def Let_def split: prod.split sum.split)

section \<open>Writing rows\<close>

lemma update_where_moves:
  assumes "\<And>g. P g \<Longrightarrow> steering_move g (f g)"
  shows "list_all2 moved rows (update_where P f rows)"
  unfolding update_where_def
  by (simp add: list.rel_map list_all2_refl moved_step assms)

lemma steering_ids_list: "list_all2 moved rows rows' \<Longrightarrow> map sg_steering_id rows' = map sg_steering_id rows"
  by (induction rule: list_all2_induct) (simp_all add: moved_id)

lemma grows_update:
  assumes "\<And>g. P g \<Longrightarrow> steering_move g (f g)"
    "ch_steering s' = update_where P f (ch_steering s)" "ch_next_steering s' = ch_next_steering s"
  shows "steering_grows s s'"
proof -
  have rows: "list_all2 moved (ch_steering s) (ch_steering s')"
    unfolding assms(2) by (rule update_where_moves) (rule assms(1))
  then have "map sg_steering_id (ch_steering s') = map sg_steering_id (ch_steering s)"
    by (rule steering_ids_list)
  then have "steering_ids_ok s \<longrightarrow> steering_ids_ok s'"
    unfolding steering_ids_ok_def assms(3) by (metis (mono_tags, lifting) image_eqI image_iff set_map)
  with rows show ?thesis
    unfolding steering_grows_def by (intro conjI exI [of _ "ch_steering s'"] exI [of _ "[]"]) simp_all
qed

lemma keeps_update:
  assumes "\<And>now g. P g \<Longrightarrow> steering_move g (f now g)"
  shows "rt_keeps steering_grows
    (rt_bind (unix_now env) (\<lambda>now s. (h now s, s\<lparr>ch_steering := update_where P (f now) (ch_steering s)\<rparr>)))"
proof (rule sg.keeps_bind [OF sg.keeps_clock(2)])
  show "rt_keeps steering_grows (\<lambda>s. (h now s, s\<lparr>ch_steering := update_where P (f now) (ch_steering s)\<rparr>))" for now
    unfolding rt_keeps_def snd_conv by (intro allI grows_update [where P = P and f = "f now"]) (simp_all add: assms)
qed

lemma sweep_grows:
  assumes "\<And>now g. P g \<Longrightarrow> steering_move g ((f now g)\<lparr>sg_revision := sg_revision g + 1, sg_updated_at := now\<rparr>)"
  shows "rt_keeps steering_grows (sweep_steering env P f)"
  unfolding sweep_steering_def using assms by (rule keeps_update)

lemma guarded_grows:
  assumes "\<And>now g. P g \<Longrightarrow> steering_move g (f now g)"
  shows "rt_keeps steering_grows (guarded_update P f refusal sid env)"
proof -
  have table: "rt_keeps steering_grows (\<lambda>s. (Inr (count_where P (ch_steering s)),
      s\<lparr>ch_steering := update_where P (f now) (ch_steering s)\<rparr>))" for now
    unfolding rt_keeps_def snd_conv by (intro allI grows_update [where P = P and f = "f now"]) (simp_all add: assms)
  show ?thesis
    unfolding guarded_update_def
    by (rule sg.keeps_bind [OF sg.keeps_clock(2)], rule sg.keeps_bind [OF table]) (simp add: sg.keeps_rules)
qed

lemma insert_steering_at: "steering_grows s (insert_steering uid wid thread turn input rv now s)"
proof -
  let ?g = "pending_steering (ch_next_steering s) uid wid thread turn input rv now"
  have "entered ?g"
    unfolding entered_def by (rule exI [of _ ?g]) (simp add: pending_steering_def)
  moreover have "steering_ids_ok s \<longrightarrow> steering_ids_ok (s\<lparr>ch_steering := ch_steering s @ [?g],
      ch_next_steering := ch_next_steering s + 1\<rparr>)"
    by (auto simp: steering_ids_ok_def pending_steering_def)
  ultimately have "steering_grows s (s\<lparr>ch_steering := ch_steering s @ [?g],
      ch_next_steering := ch_next_steering s + 1\<rparr>)"
    unfolding steering_grows_def
    by (intro conjI exI [of _ "ch_steering s"] exI [of _ "[?g]"]) (simp_all add: list_all2_refl)
  then show ?thesis
    by (simp add: insert_steering_def Let_def sg.refl)
qed

lemma insert_steering_grows: "rt_keeps steering_grows (rt_modify (insert_steering uid wid thread turn input rv now))"
  by (simp add: rt_keeps_def rt_modify_def insert_steering_at)

section \<open>Every request\<close>

lemmas steering_quiet = quiet_steering [THEN steering_grows_same]

lemma busy_steering: "rt_keeps steering_grows (refuse_busy thread)"
  unfolding refuse_busy_def active_chat_turn_for_thread_def
  by (auto intro!: sg.keeps_rules split: option.split)

lemma turn_steering_quiet:
  "rt_keeps steering_grows (insert_chat_turn t thread)" "rt_keeps steering_grows (insert_chat_turn_on t i)"
  "rt_keeps steering_grows (close_turn env tid final)"
  unfolding insert_chat_turn_def insert_chat_turn_on_def close_turn_def
  by (auto intro!: sg.keeps_rules steering_quiet split: option.split)

lemma admit_steering: "rt_keeps steering_grows after \<Longrightarrow> rt_keeps steering_grows (admit t i messages after)"
  unfolding admit_def
  by (auto intro!: sg.keeps_rules steering_quiet turn_steering_quiet split: option.split)

lemma enqueue_forms_steering:
  "rt_keeps steering_grows (enqueue_chat_turn env uid wid i)"
  "rt_keeps steering_grows (enqueue_chat_turn_atomic env uid wid i messages)"
  "rt_keeps steering_grows (complete_chat_turn_atomic env uid wid i final messages)"
  "rt_keeps steering_grows (enqueue_or_steer_chat_turn_atomic env uid wid i messages)"
  unfolding enqueue_chat_turn_def active_chat_turn_for_thread_def enqueue_chat_turn_atomic_def
    complete_chat_turn_atomic_def enqueue_or_steer_chat_turn_atomic_def steer_or_admit_def
    load_objective_contract_def Let_def
  by (auto intro!: sg.keeps_rules busy_steering steering_quiet turn_steering_quiet admit_steering
      insert_steering_grows split: option.split steer_outcome.split)

lemmas move_simps = steering_move_def row_identity_def message_of_def owned_at_def of_turn_def

lemma guarded_operations_steering:
  "rt_keeps steering_grows (cancel_turn_steering env sid uid wid expected)"
  "rt_keeps steering_grows (promote_turn_steering_on env sid uid wid expected)"
  "rt_keeps steering_grows (mark_turn_steering_interpreted env sid expected decision rid)"
  "rt_keeps steering_grows (release_turn_steering_for_retry env sid expected err at)"
  "rt_keeps steering_grows (defer_pending_turn_steering env sid expected err at)"
  unfolding cancel_turn_steering_def promote_turn_steering_on_def mark_turn_steering_interpreted_def
    release_turn_steering_for_retry_def defer_pending_turn_steering_def
  by (rule guarded_grows; auto simp: move_simps)+

lemma applied_steering:
  "rt_keeps steering_grows (mark_turn_steering_applied env sid expected rid)"
  "rt_keeps steering_grows (mark_turn_steering_completed env sid expected rid)"
  unfolding mark_turn_steering_applied_def mark_turn_steering_completed_def transition_interpreted_steering_def
  by (rule guarded_grows; auto simp: move_simps)+

lemma update_steering_grows:
  "rt_keeps steering_grows (update_turn_steering env sid uid wid expected input)"
  unfolding update_turn_steering_def Let_def
  by (intro keeps_if sg.keeps_rules guarded_grows) (auto simp: move_simps)

lemma sweeps_steering:
  "rt_keeps steering_grows (hold_pending_turn_steering env uid wid turn)"
  "rt_keeps steering_grows (close_unsettled_turn_steering env uid wid thread turn)"
  unfolding hold_pending_turn_steering_def close_unsettled_turn_steering_def
  by (rule sweep_grows; auto simp: move_simps)+

lemma claim_steering: "rt_keeps steering_grows (claim_pending_turn_steering env uid wid thread turn rid round)"
  unfolding claim_pending_turn_steering_def Let_def
proof (rule sg.keeps_bind [OF sg.keeps_clock(2)])
  fix now
  show "rt_keeps steering_grows (\<lambda>s. (Inr (map (claimed rid round now)
      (steering_rows s (claimable_steering uid wid thread turn now))),
      s\<lparr>ch_steering := update_where (claimable_steering uid wid thread turn now) (claimed rid round now) (ch_steering s)\<rparr>))"
    unfolding rt_keeps_def snd_conv
    by (intro allI grows_update [where P = "claimable_steering uid wid thread turn now" and f = "claimed rid round now"])
      (auto simp: claimable_steering_def claimed_def move_simps)
qed

lemma park_steering:
  "rt_keeps steering_grows (park_chat_turn env turn uid wid)"
  "rt_keeps steering_grows (unpark_chat_turn_to_queued env turn uid wid)"
  "rt_keeps steering_grows (fence_chat_turn_finalization env uid wid turn)"
  unfolding park_chat_turn_def unpark_chat_turn_to_queued_def fence_chat_turn_finalization_def
    abort_running_agent_runs_for_turn_def
  by (auto intro!: sg.keeps_rules steering_quiet sweep_grows simp: move_simps split: option.split)

lemma promote_steering:
  "rt_keeps steering_grows (promote_held_turn_steering env uid wid sid expected messages)"
  unfolding promote_held_turn_steering_def load_turn_steering_def active_chat_turn_for_thread_def Let_def
  by (auto intro!: sg.keeps_rules steering_quiet turn_steering_quiet guarded_operations_steering)

lemma events_steering:
  "rt_keeps steering_grows (insert_turn_event env tid knd payload)"
  "rt_keeps steering_grows (insert_terminal_event_once env tid knd payload)"
  "rt_keeps steering_grows (insert_turn_projection_event_once env tid knd ref payload)"
  unfolding insert_turn_event_def insert_terminal_event_once_def insert_turn_projection_event_once_def
  by (auto intro!: sg.keeps_rules steering_quiet split: option.split prod.split)

lemma emit_steering: "rt_keeps steering_grows (emit_turn_event env tid knd payload)"
  unfolding emit_turn_event_def persist_turn_event_def turn_has_terminal_event_def
  by (auto intro!: sg.keeps_rules events_steering split: option.split)

lemma cancel_steering: "rt_keeps steering_grows (cancel_chat_turn env uid wid tid)"
  unfolding cancel_chat_turn_def restore_turn_def commit_cancelled_def
  by (auto intro!: sg.keeps_rules steering_quiet turn_steering_quiet sweeps_steering events_steering
      simp: Let_def split: option.split sum.split)

lemma append_steering: "rt_keeps steering_grows (append_turn_steering env uid wid thread turn input rv)"
  unfolding append_turn_steering_def by (intro sg.keeps_rules insert_steering_grows)

lemma runs_steering:
  "rt_keeps steering_grows (create_agent_run env n)"
  "rt_keeps steering_grows (append_agent_run_event env rid seq round knd payload)"
  "rt_keeps steering_grows (finish_agent_run env rid status rsn)"
  "rt_keeps steering_grows (abort_running_agent_runs env cause)"
  unfolding create_agent_run_def append_agent_run_event_def finish_agent_run_def abort_running_agent_runs_def
  by (auto intro!: sg.keeps_rules steering_quiet same_steering_modify [THEN steering_grows_same] simp: Let_def
      split: option.split prod.split)

lemmas steering_operations =
  enqueue_forms_steering promote_steering cancel_steering park_steering emit_steering events_steering(1)
  append_steering claim_steering update_steering_grows guarded_operations_steering applied_steering
  sweeps_steering runs_steering

interpretation gs: chat_relation steering_grows env for env
proof unfold_locales
  fix s :: "'m chat_db" and c :: "string \<times> string \<times> 'm chat_command"
  obtain uid wid k where c: "c = (uid, wid, k)"
    by (cases c)
  show "steering_grows s (chat_step env c s)"
    unfolding c chat_step_def prod.case by (cases k) (simp_all add: steering_operations [THEN rt_keepsD])
qed

section \<open>The life of a row\<close>

lemma moved_nth:
  assumes "steering_grows s t" "i < length (ch_steering s)"
  shows "i < length (ch_steering t)" "moved (ch_steering s ! i) (ch_steering t ! i)"
proof -
  obtain rows new where "ch_steering t = rows @ new" "list_all2 moved (ch_steering s) rows"
    using assms(1) by (auto simp: steering_grows_def)
  with assms(2) show "i < length (ch_steering t)" "moved (ch_steering s ! i) (ch_steering t ! i)"
    by (auto simp: nth_append dest: list_all2_lengthD list_all2_nthD)
qed

text \<open>
  C12: through any run of requests a steering row keeps its place and its identity and changes
  only by the moves of its life cycle, pending, claimed, interpreted, applied, completed, or held,
  cancelled, promoted on the way; its revision counts exactly these moves, so an unchanged revision
  means an unchanged row, and a completed, cancelled or promoted row never changes again.
\<close>

theorem steering_lifecycle:
  assumes "i < length (ch_steering s)"
  shows "i < length (ch_steering (chat_run env cs s)) \<and>
    (\<exists>n. (steering_move ^^ n) (ch_steering s ! i) (ch_steering (chat_run env cs s) ! i) \<and>
       sg_revision (ch_steering (chat_run env cs s) ! i) = sg_revision (ch_steering s ! i) + int n) \<and>
    (sg_status (ch_steering s ! i) \<in> {SCompleted, SCancelled, SPromoted} \<longrightarrow>
       ch_steering (chat_run env cs s) ! i = ch_steering s ! i)"
proof -
  have "steering_grows s (chat_run env cs s)"
    by (rule gs.run)
  note row = moved_nth [OF this assms]
  from row(2) obtain n where "(steering_move ^^ n) (ch_steering s ! i) (ch_steering (chat_run env cs s) ! i)"
    by (auto simp: moved_def)
  with row moves_revision [OF this] moved_final [OF row(2)] show ?thesis
    by blast
qed

definition sample_steered :: "unit chat_db" where
  "sample_steered = chat_run sample_env
     [(''u'', ''w'', AppendSteering ''th'' ''turn_a'' (steering_input (sample_input ''b'')) 0)] empty_chat"

theorem steering_lifecycle_witness:
  "\<exists>n. (steering_move ^^ n) (ch_steering sample_steered ! 0)
     (ch_steering (chat_run sample_env [(''u'', ''w'', HoldSteering ''turn_a''), (''u'', ''w'', CancelSteering 1 2)]
        sample_steered) ! 0) \<and> n = 2"
proof -
  have "length (ch_steering sample_steered) = 1" "sg_revision (ch_steering sample_steered ! 0) = 1"
    by code_simp+
  moreover have "sg_revision (ch_steering (chat_run sample_env
      [(''u'', ''w'', HoldSteering ''turn_a''), (''u'', ''w'', CancelSteering 1 2)] sample_steered) ! 0) = 3"
    by code_simp
  ultimately show ?thesis
    using steering_lifecycle [of 0 sample_steered sample_env
        "[(''u'', ''w'', HoldSteering ''turn_a''), (''u'', ''w'', CancelSteering 1 2)]"] by auto
qed

section \<open>One writer per revision\<close>

text \<open>The edits a user asks for, each with the revision the user has seen.\<close>

datatype steering_edit = EditMessage new_turn_steering | EditCancel | EditPromote

primrec edit_steering ::
  "runtime_env \<Rightarrow> string \<Rightarrow> string \<Rightarrow> int \<Rightarrow> u64 \<Rightarrow> steering_edit \<Rightarrow> ('m, turn_steering) chat" where
  "edit_steering env uid wid sid expected (EditMessage input) = update_turn_steering env sid uid wid expected input"
| "edit_steering env uid wid sid expected EditCancel = cancel_turn_steering env sid uid wid expected"
| "edit_steering env uid wid sid expected EditPromote = promote_turn_steering_on env sid uid wid expected"

definition passed :: "int \<Rightarrow> int \<Rightarrow> 'm chat_db \<Rightarrow> bool" where
  "passed sid rv s \<longleftrightarrow> (\<exists>g \<in> set (ch_steering s). sg_steering_id g = sid \<and> rv < sg_revision g)"

lemma passed_grows:
  assumes "passed sid rv s" "steering_grows s t"
  shows "passed sid rv t"
proof -
  obtain i where i: "i < length (ch_steering s)" "sg_steering_id (ch_steering s ! i) = sid"
      "rv < sg_revision (ch_steering s ! i)"
    using assms(1) by (auto simp: passed_def in_set_conv_nth)
  note row = moved_nth [OF assms(2) i(1)]
  have "sg_steering_id (ch_steering t ! i) = sid" "rv < sg_revision (ch_steering t ! i)"
    using i(2,3) moved_id [OF row(2)] moved_revision [OF row(2)] by simp_all
  with row(1) show ?thesis
    unfolding passed_def by (metis nth_mem)
qed

lemma passed_unowned:
  assumes "steering_ids_ok s" "passed sid (sint expected) s" "g \<in> set (ch_steering s)"
  shows "\<not> owned_at sid uid wid expected g"
proof
  assume own: "owned_at sid uid wid expected g"
  obtain h where h: "h \<in> set (ch_steering s)" "sg_steering_id h = sid" "sint expected < sg_revision h"
    using assms(2) by (auto simp: passed_def)
  have "h = g"
    using assms(1,3) h(1,2) own by (auto simp: steering_ids_ok_def owned_at_def distinct_map dest: inj_onD)
  with h(3) own show False
    by (simp add: owned_at_def)
qed

lemma guarded_run:
  "\<exists>now n. guarded_update P f refusal sid env s =
     (let s1 = s\<lparr>ch_rt := (ch_rt s)\<lparr>rt_ticks := n\<rparr>\<rparr>; rows = update_where P (f now) (ch_steering s) in
      if count_where P (ch_steering s) = 0 then (Inl (Conflict refusal), s1\<lparr>ch_steering := rows\<rparr>)
      else (ok_or (NotFound ''steering'') (find (\<lambda>g. sg_steering_id g = sid) rows), s1\<lparr>ch_steering := rows\<rparr>))"
  by (intro exI [of _ "unix_timestamp (en_now env (rt_ticks (ch_rt s)))"] exI [of _ "Suc (rt_ticks (ch_rt s))"])
    (simp add: guarded_update_def unix_now_def on_rt_def now_utc_def rt_simps Let_def)

lemma guarded_refused:
  assumes "\<And>g. g \<in> set (ch_steering s) \<Longrightarrow> \<not> P g"
  shows "fst (guarded_update P f refusal sid env s) = Inl (Conflict refusal)"
    "ch_steering (snd (guarded_update P f refusal sid env s)) = ch_steering s"
proof -
  have "count_where P (ch_steering s) = 0" "update_where P h (ch_steering s) = ch_steering s" for h
    using assms by (auto simp: count_where_def update_where_none filter_empty_conv)
  then show "fst (guarded_update P f refusal sid env s) = Inl (Conflict refusal)"
    "ch_steering (snd (guarded_update P f refusal sid env s)) = ch_steering s"
    using guarded_run [of P f refusal sid env s] by (auto simp: Let_def)
qed

lemma guarded_passes:
  assumes "fst (guarded_update P f refusal sid env s) = Inr g"
    "\<And>now r. P r \<Longrightarrow> sg_steering_id r = sid \<and> sg_revision r = rv \<and> steering_move r (f now r)"
  shows "passed sid rv (snd (guarded_update P f refusal sid env s))"
proof -
  obtain now n where run: "guarded_update P f refusal sid env s =
     (let s1 = s\<lparr>ch_rt := (ch_rt s)\<lparr>rt_ticks := n\<rparr>\<rparr>; rows = update_where P (f now) (ch_steering s) in
      if count_where P (ch_steering s) = 0 then (Inl (Conflict refusal), s1\<lparr>ch_steering := rows\<rparr>)
      else (ok_or (NotFound ''steering'') (find (\<lambda>g. sg_steering_id g = sid) rows), s1\<lparr>ch_steering := rows\<rparr>))"
    using guarded_run [of P f refusal sid env s] by blast
  have "count_where P (ch_steering s) \<noteq> 0"
    using assms(1) run by (auto simp: Let_def split: if_splits)
  then obtain r where r: "r \<in> set (ch_steering s)" "P r"
    by (auto simp: count_where_def filter_empty_conv)
  have "f now r \<in> set (update_where P (f now) (ch_steering s))"
    using r by (auto simp: update_where_def image_iff intro!: bexI [of _ r])
  moreover have "sg_steering_id (f now r) = sid" "rv < sg_revision (f now r)"
    using assms(2) [OF r(2), of now] by (auto simp: steering_move_def row_identity_def)
  ultimately show ?thesis
    using run by (auto simp: passed_def Let_def)
qed

lemma clock_fails: "fst (rt_bind (unix_now env) (\<lambda>_. rt_fail e) s) = Inl e"
  by (simp add: rt_simps unix_now_def on_rt_def now_utc_def)

text \<open>An update is refused by the index of the messages, or it is a guarded update.\<close>

lemma update_split:
  obtains (taken) g where "g \<in> set (ch_steering s)" "owned_at sid uid wid expected g"
      "fst (update_turn_steering env sid uid wid expected input s) =
        Inl (Store ''UNIQUE constraint failed: turn_steering'')"
    | (guarded) "update_turn_steering env sid uid wid expected input s =
        guarded_update (\<lambda>g. owned_at sid uid wid expected g \<and> sg_status g \<in> {SPending, SHeld})
          (\<lambda>now g. g\<lparr>sg_source_message_id := ns_source_message_id input, sg_content := ns_prompt input,
             sg_payload := input, sg_revision := sg_revision g + 1, sg_updated_at := now\<rparr>)
          ''steering changed or is no longer editable'' sid env s"
proof (cases "list_ex (\<lambda>g. (owned_at sid uid wid expected g \<and> sg_status g \<in> {SPending, SHeld}) \<and>
    list_ex (\<lambda>q. sg_steering_id q \<noteq> sid \<and>
      steering_key q = steering_key (g\<lparr>sg_source_message_id := ns_source_message_id input\<rparr>)) (ch_steering s))
    (ch_steering s)")
  case True
  have "fst (update_turn_steering env sid uid wid expected input s) =
      Inl (Store ''UNIQUE constraint failed: turn_steering'')"
    unfolding update_turn_steering_def Let_def if_P [OF True] by (rule clock_fails)
  moreover obtain g where "g \<in> set (ch_steering s)" "owned_at sid uid wid expected g"
    using True by (auto simp: list_ex_iff)
  ultimately show thesis
    by (rule taken [rotated 2])
next
  case False
  show thesis
    by (rule guarded) (simp only: update_turn_steering_def Let_def if_not_P [OF False])
qed

lemma edit_passes:
  assumes "fst (edit_steering env uid wid sid expected e s) = Inr g"
  shows "passed sid (sint expected) (snd (edit_steering env uid wid sid expected e s))"
proof (cases e)
  case (EditMessage input)
  show ?thesis
  proof (cases rule: update_split [of s sid uid wid expected env input])
    case (taken g)
    with assms EditMessage show ?thesis by simp
  next
    case guarded
    show ?thesis
      using assms unfolding EditMessage edit_steering.simps guarded
      by (elim guarded_passes) (auto simp: move_simps)
  qed
next
  case EditCancel
  show ?thesis
    using assms unfolding EditCancel edit_steering.simps cancel_turn_steering_def
    by (elim guarded_passes) (auto simp: move_simps)
next
  case EditPromote
  show ?thesis
    using assms unfolding EditPromote edit_steering.simps promote_turn_steering_on_def
    by (elim guarded_passes) (auto simp: move_simps)
qed

lemma edit_refused:
  assumes "\<And>g. g \<in> set (ch_steering s) \<Longrightarrow> \<not> owned_at sid uid wid expected g"
  shows "(\<exists>m. fst (edit_steering env uid wid sid expected e s) = Inl (Conflict m)) \<and>
    ch_steering (snd (edit_steering env uid wid sid expected e s)) = ch_steering s"
proof (cases e)
  case (EditMessage input)
  show ?thesis
  proof (cases rule: update_split [of s sid uid wid expected env input])
    case (taken g)
    with assms show ?thesis by blast
  next
    case guarded
    show ?thesis
      unfolding EditMessage edit_steering.simps guarded
      by (intro conjI exI; rule guarded_refused) (simp_all add: assms)
  qed
next
  case EditCancel
  show ?thesis
    unfolding EditCancel edit_steering.simps cancel_turn_steering_def
    by (intro conjI exI; rule guarded_refused) (simp_all add: assms)
next
  case EditPromote
  show ?thesis
    unfolding EditPromote edit_steering.simps promote_turn_steering_on_def
    by (intro conjI exI; rule guarded_refused) (simp_all add: assms)
qed

lemma edit_grows: "rt_keeps steering_grows (edit_steering env uid wid sid expected e)"
  by (cases e) (simp_all add: update_steering_grows guarded_operations_steering)

text \<open>
  C13: two edits of a steering row that were both made from the same revision never both succeed:
  after the first one, whatever else happens in between, the second is answered with a conflict
  and changes no row.
\<close>

theorem one_writer_per_revision:
  assumes "steering_ids_ok s" "fst (edit_steering env uid wid sid expected e s) = Inr g"
  shows "let t = chat_run env cs (snd (edit_steering env uid wid sid expected e s)) in
    (\<exists>m. fst (edit_steering env' uid' wid' sid expected e' t) = Inl (Conflict m)) \<and>
    ch_steering (snd (edit_steering env' uid' wid' sid expected e' t)) = ch_steering t"
proof -
  let ?s = "snd (edit_steering env uid wid sid expected e s)"
  have edit: "steering_grows s ?s"
    by (rule rt_keepsD [OF edit_grows])
  have run: "steering_grows ?s (chat_run env cs ?s)"
    by (rule gs.run)
  have "steering_ids_ok (chat_run env cs ?s)"
    using assms(1) edit run by (simp add: steering_grows_def)
  moreover have "passed sid (sint expected) (chat_run env cs ?s)"
    by (rule passed_grows [OF edit_passes [OF assms(2)] run])
  ultimately have "\<not> owned_at sid uid' wid' expected h" if "h \<in> set (ch_steering (chat_run env cs ?s))" for h
    using that by (rule passed_unowned)
  then show ?thesis
    unfolding Let_def by (rule edit_refused)
qed

lemma empty_ids_ok: "steering_ids_ok empty_chat"
  by (simp add: steering_ids_ok_def empty_chat_def)

lemma sample_steered_ids: "steering_ids_ok sample_steered"
  using gs.run empty_ids_ok unfolding sample_steered_def steering_grows_def by blast

theorem one_writer_per_revision_witness:
  "\<exists>m. fst (edit_steering sample_env ''u'' ''w'' 1 1 EditCancel
     (chat_run sample_env [(''u'', ''w'', HoldSteering ''turn_a'')]
       (snd (edit_steering sample_env ''u'' ''w'' 1 1 (EditMessage (steering_input (sample_input ''c''))) sample_steered)))) =
     Inl (Conflict m)"
proof -
  have "case fst (edit_steering sample_env ''u'' ''w'' 1 1 (EditMessage (steering_input (sample_input ''c'')))
      sample_steered) of Inr g \<Rightarrow> True | Inl e \<Rightarrow> False"
    by code_simp
  then obtain g where "fst (edit_steering sample_env ''u'' ''w'' 1 1
      (EditMessage (steering_input (sample_input ''c''))) sample_steered) = Inr g"
    by (auto split: sum.splits)
  from one_writer_per_revision [OF sample_steered_ids this, unfolded Let_def] show ?thesis
    by (rule conjunct1)
qed

end
