(* ===== verification/TurnEndings.thy ===== *)
theory TurnEndings
  imports SteeringTheorems
begin

text \<open>
  How a turn ends. The fence before its end and the admission of a message are ordered by the
  store, and in either order the message has a turn; cancelling a turn leaves nothing of it that
  could run again; parking a turn and resuming it gives it back as it was.
\<close>

section \<open>Retrying\<close>

lemma retry_Inr: "fst (operation s) = Inr x \<Longrightarrow> retry_left n operation s = operation s"
  by (cases n) (auto split: prod.split sum.split)

lemma retry_transient_Inr: "fst (operation s) = Inr x \<Longrightarrow> retry_transient_enqueue operation s = operation s"
  unfolding retry_transient_enqueue_def by (rule retry_Inr)

section \<open>The fence\<close>

definition unsettled :: "string \<Rightarrow> string \<Rightarrow> string \<Rightarrow> turn_steering \<Rightarrow> bool" where
  "unsettled uid wid turn g \<longleftrightarrow> of_turn uid wid turn g \<and> sg_status g \<in> {SPending, SClaimed, SInterpreted}"

definition ticked :: "nat \<Rightarrow> 'm chat_db \<Rightarrow> 'm chat_db" where
  "ticked n s = s\<lparr>ch_rt := (ch_rt s)\<lparr>rt_ticks := rt_ticks (ch_rt s) + n\<rparr>\<rparr>"

lemma ticked_simps [simp]:
  "task_rows (ticked n s) = task_rows s" "ch_steering (ticked n s) = ch_steering s"
  "ch_messages (ticked n s) = ch_messages s" "ch_objectives (ticked n s) = ch_objectives s"
  "ch_next_steering (ticked n s) = ch_next_steering s"
  "active_chat_turn_on (ticked n s) thread = active_chat_turn_on s thread"
  "task_at (ch_rt (ticked n s)) k = task_at (ch_rt s) k"
  by (simp_all add: ticked_def task_rows_def active_chat_turn_on_def task_at_def)

lemma ticked_more [simp]:
  "rt_ticks (ch_rt (ticked n s)) = rt_ticks (ch_rt s) + n" "ticked m (ticked n s) = ticked (m + n) s"
  "load_objective_contract_on (ticked n s) uid wid thread = load_objective_contract_on s uid wid thread"
  by (simp_all add: ticked_def load_objective_contract_on_def add.commute)

lemma clock_run:
  "on_rt (now_utc env) s = (Inr (en_now env (rt_ticks (ch_rt s))), ticked 1 s)"
  "unix_now env s = (Inr (unix_timestamp (en_now env (rt_ticks (ch_rt s)))), ticked 1 s)"
  by (simp_all add: on_rt_def now_utc_def unix_now_def rt_simps ticked_def)

lemma fence_run:
  "fence_chat_turn_finalization env uid wid turn s =
     (if \<exists>g \<in> set (ch_steering s). unsettled uid wid turn g then (Inr False, s)
      else (Inr True, on_tasks (update_where (\<lambda>r. task_key r = (turn, uid, wid) \<and> tk_status r = ''running'')
        (\<lambda>r. r\<lparr>tk_status := ''finalizing'', tk_updated_at := unix_timestamp (en_now env (rt_ticks (ch_rt s)))\<rparr>))
        (ticked 1 s)))"
proof -
  have "0 < count_where (unsettled uid wid turn) (ch_steering s) \<longleftrightarrow>
      (\<exists>g \<in> set (ch_steering s). unsettled uid wid turn g)"
    by (auto simp: count_where_def filter_empty_conv)
  then show ?thesis
    by (simp add: fence_chat_turn_finalization_def atomic_def rt_simps clock_run unsettled_def [abs_def])
qed

lemma active_row:
  assumes "one_turn (task_rows s)" "r \<in> set (task_rows s)" "chat_turn_active thread r"
  shows "active_chat_turn_on s thread = Some (tk_task_id r)"
proof -
  obtain q where q: "find (chat_turn_active thread) (task_rows s) = Some q"
    using assms(2,3) by (cases "find (chat_turn_active thread) (task_rows s)") (auto simp: find_None_iff)
  then have "q \<in> set (task_rows s)" "chat_turn_active thread q"
    by (auto simp: find_Some_iff)
  then have "q = r"
    using assms unfolding one_turn_def by blast
  with q show ?thesis
    by (simp add: active_chat_turn_on_def)
qed

lemma find_snoc: "\<lbrakk>\<And>y. y \<in> set xs \<Longrightarrow> \<not> P y; P x\<rbrakk> \<Longrightarrow> find P (xs @ [x]) = Some x"
  by (induction xs) auto

lemma steer_or_admit_free:
  assumes "active_chat_turn_on s (ci_thread_id i) = None" "messages (ch_messages s) = Inr m"
    "task_at (ch_rt s) (owner_key t) = None"
  shows "fst (steer_or_admit t i rv now messages s) = Inr (SteerOutcome (Enqueued (enqueued i)))"
  using assms by (simp add: steer_or_admit_def atomic_def rt_simps insert_messages_def insert_chat_turn_on_def)

lemma steer_or_admit_active:
  assumes "active_chat_turn_on s (ci_thread_id i) = Some turn" "ci_source i = Interactive"
    "load_turn_steering_by_source_message s (t_user_id t) (t_workspace_id t) (ci_thread_id i)
       (ns_source_message_id (steering_input i)) = None"
    "g = pending_steering (ch_next_steering s) (t_user_id t) (t_workspace_id t) (ci_thread_id i) turn
       (steering_input i) rv now"
  shows "steer_or_admit t i rv now messages s =
    (Inr (SteerOutcome (SteeringQueued (ci_thread_id i) turn g)),
     s\<lparr>ch_steering := ch_steering s @ [g], ch_next_steering := ch_next_steering s + 1\<rparr>)"
proof -
  have key: "steering_key g = (t_user_id t, t_workspace_id t, ci_thread_id i, ns_source_message_id (steering_input i))"
    by (simp add: assms(4) steering_key_def pending_steering_def)
  have fresh: "steering_key g \<notin> steering_key ` set (ch_steering s)"
    using assms(3) unfolding key load_turn_steering_by_source_message_def by (simp add: row_of_None)
  then have insert: "insert_steering (t_user_id t) (t_workspace_id t) (ci_thread_id i) turn (steering_input i) rv now s =
      s\<lparr>ch_steering := ch_steering s @ [g], ch_next_steering := ch_next_steering s + 1\<rparr>"
    by (simp add: insert_steering_def assms(4) Let_def)
  have "row_of steering_key (steering_key g) (ch_steering s @ [g]) = Some g"
    unfolding row_of_def by (rule find_snoc) (use fresh in \<open>metis image_eqI\<close>, simp)
  then have found: "load_turn_steering_by_source_message
      (s\<lparr>ch_steering := ch_steering s @ [g], ch_next_steering := ch_next_steering s + 1\<rparr>)
      (t_user_id t) (t_workspace_id t) (ci_thread_id i) (ns_source_message_id (steering_input i)) = Some g"
    by (simp add: load_turn_steering_by_source_message_def key)
  show ?thesis
    using assms(1,2) by (simp add: steer_or_admit_def atomic_def rt_simps insert found ok_or_def)
qed

lemma enqueue_or_steer_run:
  assumes "fst (steer_or_admit (queued_chat_turn_task uid wid i (en_now env (rt_ticks (ch_rt s) + 1))) i rv
      (unix_timestamp (en_now env (rt_ticks (ch_rt s)))) messages (ticked 2 s)) = Inr (SteerOutcome x)"
    "rv = (case load_objective_contract_on s uid wid (ci_thread_id i) of Some ob \<Rightarrow> oc_revision ob | None \<Rightarrow> 0)"
  shows "enqueue_or_steer_chat_turn_atomic env uid wid i messages s =
    (Inr x, snd (steer_or_admit (queued_chat_turn_task uid wid i (en_now env (rt_ticks (ch_rt s) + 1))) i rv
      (unix_timestamp (en_now env (rt_ticks (ch_rt s)))) messages (ticked 2 s)))"
proof -
  obtain s' where go: "steer_or_admit (queued_chat_turn_task uid wid i (en_now env (rt_ticks (ch_rt s) + 1))) i rv
      (unix_timestamp (en_now env (rt_ticks (ch_rt s)))) messages (ticked 2 s) = (Inr (SteerOutcome x), s')"
    using assms(1) by (metis prod.collapse)
  show ?thesis
    unfolding enqueue_or_steer_chat_turn_atomic_def go snd_conv
    by (subst retry_transient_Inr [where x = x])
      (use go assms(2) in \<open>simp_all add: rt_bind_def of_store_def load_objective_contract_def rt_read_def clock_run
        numeral_2_eq_2 map_err_def rt_return_def\<close>)
qed

lemma fenced_free:
  assumes "one_turn (task_rows s)" "r \<in> set (task_rows s)" "task_key r = k" "chat_turn_active thread r"
    "tk_status r = ''running''"
  shows "active_chat_turn_on (on_tasks (update_where (\<lambda>q. task_key q = k \<and> tk_status q = ''running'')
    (\<lambda>q. q\<lparr>tk_status := ''finalizing'', tk_updated_at := now\<rparr>)) s) thread = None"
proof -
  have "\<not> chat_turn_active thread p"
    if p: "p \<in> set (update_where (\<lambda>q. task_key q = k \<and> tk_status q = ''running'')
      (\<lambda>q. q\<lparr>tk_status := ''finalizing'', tk_updated_at := now\<rparr>) (task_rows s))" for p
  proof
    assume active: "chat_turn_active thread p"
    obtain q where q: "q \<in> set (task_rows s)" "p = (if task_key q = k \<and> tk_status q = ''running''
        then q\<lparr>tk_status := ''finalizing'', tk_updated_at := now\<rparr> else q)"
      using p by (auto simp: update_where_def)
    have "\<not> (task_key q = k \<and> tk_status q = ''running'')"
      using active q(2) by (auto simp: chat_turn_active_def ACTIVE_CHAT_TURN_EXCLUDED_SQL_STATUSES_def split: if_splits)
    then have "p = q" "q = r"
      using q active assms(1,2,4) unfolding one_turn_def by (auto split: if_splits)
    with \<open>\<not> (task_key q = k \<and> tk_status q = ''running'')\<close> assms(3,5) show False
      by simp
  qed
  then show ?thesis
    by (simp add: active_none on_tasks_def task_rows_def)
qed

lemma on_tasks_frame [simp]:
  "ch_steering (on_tasks f s) = ch_steering s" "ch_messages (on_tasks f s) = ch_messages s"
  "rt_ticks (ch_rt (on_tasks f s)) = rt_ticks (ch_rt s)" "task_rows (on_tasks f s) = f (task_rows s)"
  by (simp_all add: on_tasks_def task_rows_def)

lemma task_at_rows: "task_at (ch_rt s) k = map_option tk_json (row_of task_key k (task_rows s))"
  by (simp add: task_at_def task_rows_def)

lemma task_at_None: "task_at (ch_rt s) k = None \<longleftrightarrow> k \<notin> task_key ` set (task_rows s)"
  by (simp add: task_at_rows row_of_None)

lemma fence_then_message:
  assumes "one_turn (task_rows s)" "r \<in> set (task_rows s)" "task_key r = (turn, uid, wid)"
    "chat_turn_active (ci_thread_id i) r" "tk_status r = ''running''"
    "task_at (ch_rt s) (chat_turn_task_id (ci_request_id i), uid, wid) = None" "messages (ch_messages s) = Inr m"
    "fst (fence_chat_turn_finalization env uid wid turn s) = Inr True"
  shows "(\<forall>g \<in> set (ch_steering (snd (fence_chat_turn_finalization env uid wid turn s))). \<not> unsettled uid wid turn g) \<and>
      fst (enqueue_or_steer_chat_turn_atomic env uid wid i messages
        (snd (fence_chat_turn_finalization env uid wid turn s))) = Inr (Enqueued (enqueued i))"
proof -
  have none: "\<not> (\<exists>g \<in> set (ch_steering s). unsettled uid wid turn g)"
    using assms(8) by (auto simp: fence_run split: if_splits)
  let ?s = "on_tasks (update_where (\<lambda>r. task_key r = (turn, uid, wid) \<and> tk_status r = ''running'')
        (\<lambda>r. r\<lparr>tk_status := ''finalizing'', tk_updated_at := unix_timestamp (en_now env (rt_ticks (ch_rt s)))\<rparr>))
        (ticked 1 s)"
  have fenced: "snd (fence_chat_turn_finalization env uid wid turn s) = ?s"
    using none by (simp add: fence_run)
  have free: "active_chat_turn_on ?s (ci_thread_id i) = None"
    by (rule fenced_free [where r = r]) (use assms(1-5) in simp_all)
  have key: "task_key (q\<lparr>tk_status := a, tk_updated_at := b\<rparr>) = task_key q" for q a b
    by (simp add: task_key_def)
  have "task_key ` set (task_rows ?s) = task_key ` set (task_rows s)"
    unfolding on_tasks_frame ticked_simps set_map [symmetric]
    by (subst map_key_update_where) (simp_all add: key)
  then have new: "task_at (ch_rt ?s) (owner_key (queued_chat_turn_task uid wid i now)) = None" for now
    using assms(6) by (simp add: task_at_None queued_chat_turn_task_def new_task_def owner_key_def)
  have "fst (enqueue_or_steer_chat_turn_atomic env uid wid i messages ?s) = Inr (Enqueued (enqueued i))"
    by (subst enqueue_or_steer_run [OF steer_or_admit_free refl])
      (use free assms(7) new in simp_all)
  then show ?thesis
    unfolding fenced using none by simp
qed

lemma message_then_fence:
  assumes "one_turn (task_rows s)" "r \<in> set (task_rows s)" "task_key r = (turn, uid, wid)"
    "chat_turn_active (ci_thread_id i) r" "ci_source i = Interactive"
    "load_turn_steering_by_source_message s uid wid (ci_thread_id i) (''local_user_'' @ ci_request_id i) = None"
  shows "\<exists>g s'. enqueue_or_steer_chat_turn_atomic env uid wid i messages s =
        (Inr (SteeringQueued (ci_thread_id i) turn g), s') \<and> sg_payload g = steering_input i \<and>
      fst (fence_chat_turn_finalization env uid wid turn s') = Inr False"
proof -
  have owner: "t_user_id (queued_chat_turn_task uid wid i now) = uid" "t_workspace_id (queued_chat_turn_task uid wid i now) = wid" for now
    by (simp_all add: queued_chat_turn_task_def new_task_def)
  have id: "tk_task_id r = turn"
    using assms(3) by (simp add: task_key_def)
  let ?rv = "case load_objective_contract_on s uid wid (ci_thread_id i) of Some ob \<Rightarrow> oc_revision ob | None \<Rightarrow> 0"
  let ?t = "queued_chat_turn_task uid wid i (en_now env (rt_ticks (ch_rt s) + 1))"
  let ?g = "pending_steering (ch_next_steering s) uid wid (ci_thread_id i) turn (steering_input i) ?rv
      (unix_timestamp (en_now env (rt_ticks (ch_rt s))))"
  let ?s = "(ticked 2 s)\<lparr>ch_steering := ch_steering s @ [?g], ch_next_steering := ch_next_steering s + 1\<rparr>"
  have "active_chat_turn_on (ticked 2 s) (ci_thread_id i) = Some turn"
    using active_row [OF assms(1,2,4)] id by simp
  moreover have "load_turn_steering_by_source_message (ticked 2 s) (t_user_id ?t) (t_workspace_id ?t) (ci_thread_id i)
      (ns_source_message_id (steering_input i)) = None"
    using assms(6) by (simp add: load_turn_steering_by_source_message_def owner steering_input_def)
  ultimately have steer: "steer_or_admit ?t i ?rv (unix_timestamp (en_now env (rt_ticks (ch_rt s)))) messages (ticked 2 s) =
      (Inr (SteerOutcome (SteeringQueued (ci_thread_id i) turn ?g)), ?s)"
    by (subst steer_or_admit_active [OF _ assms(5) _ refl]) (simp_all add: owner)
  then have run: "enqueue_or_steer_chat_turn_atomic env uid wid i messages s =
      (Inr (SteeringQueued (ci_thread_id i) turn ?g), ?s)"
    by (subst enqueue_or_steer_run [OF _ refl]) simp_all
  have "unsettled uid wid turn ?g"
    by (simp add: unsettled_def of_turn_def pending_steering_def)
  then have "fst (fence_chat_turn_finalization env uid wid turn ?s) = Inr False"
    by (simp add: fence_run)
  with run show ?thesis
    by (simp add: pending_steering_def)
qed

text \<open>
  C8: a message a user sends to a thread is never lost between the end of one turn and the start
  of the next. If the fence of the running turn comes first and succeeds, no steering of it is
  left unsettled and the message starts a turn of its own; if the message comes first, it is
  steering of the running turn, and the fence is refused while that steering is unsettled.
\<close>

theorem fence_loses_no_message:
  assumes "one_turn (task_rows s)" "r \<in> set (task_rows s)" "task_key r = (turn, uid, wid)"
    "chat_turn_active (ci_thread_id i) r" "tk_status r = ''running''" "ci_source i = Interactive"
    "task_at (ch_rt s) (chat_turn_task_id (ci_request_id i), uid, wid) = None"
    "load_turn_steering_by_source_message s uid wid (ci_thread_id i) (''local_user_'' @ ci_request_id i) = None"
    "messages (ch_messages s) = Inr m"
  shows "(fst (fence_chat_turn_finalization env uid wid turn s) = Inr True \<longrightarrow>
      (\<forall>g \<in> set (ch_steering (snd (fence_chat_turn_finalization env uid wid turn s))). \<not> unsettled uid wid turn g) \<and>
      fst (enqueue_or_steer_chat_turn_atomic env uid wid i messages
        (snd (fence_chat_turn_finalization env uid wid turn s))) = Inr (Enqueued (enqueued i))) \<and>
    (\<exists>g s'. enqueue_or_steer_chat_turn_atomic env uid wid i messages s =
        (Inr (SteeringQueued (ci_thread_id i) turn g), s') \<and> sg_payload g = steering_input i \<and>
      fst (fence_chat_turn_finalization env uid wid turn s') = Inr False)"
  using fence_then_message [where messages = messages, OF assms(1-5,7,9)] message_then_fence [OF assms(1-4,6,8)] by blast

lemma one_turn_single: "length rows = 1 \<Longrightarrow> one_turn rows"
  by (auto simp: one_turn_def length_Suc_conv)

theorem fence_loses_no_message_witness:
  "fst (fence_chat_turn_finalization sample_env ''u'' ''w'' ''turn_a'' running_chat) = Inr True \<and>
   fst (enqueue_or_steer_chat_turn_atomic sample_env ''u'' ''w'' (sample_input ''b'') Inr
     (snd (fence_chat_turn_finalization sample_env ''u'' ''w'' ''turn_a'' running_chat))) =
     Inr (Enqueued (enqueued (sample_input ''b'')))"
proof -
  let ?r = "hd (task_rows running_chat)"
  have rows: "length (task_rows running_chat) = 1"
    by code_simp
  then have "?r \<in> set (task_rows running_chat)"
    by (cases "task_rows running_chat") simp_all
  moreover have "task_key ?r = (''turn_a'', ''u'', ''w'')" "chat_turn_active ''th'' ?r" "tk_status ?r = ''running''"
    by code_simp+
  moreover have "task_at (ch_rt running_chat) (''turn_b'', ''u'', ''w'') = None"
    "load_turn_steering_by_source_message running_chat ''u'' ''w'' ''th'' ''local_user_b'' = None"
    by code_simp+
  moreover have fields: "ci_thread_id (sample_input ''b'') = ''th''" "ci_request_id (sample_input ''b'') = ''b''"
    "ci_source (sample_input ''b'') = Interactive" "chat_turn_task_id ''b'' = ''turn_b''"
    by (simp_all add: sample_input_def chat_turn_task_id_def)
  moreover have fence: "fst (fence_chat_turn_finalization sample_env ''u'' ''w'' ''turn_a'' running_chat) = Inr True"
    by code_simp
  ultimately show ?thesis
    using fence_loses_no_message [OF one_turn_single [OF rows], of ?r "''turn_a''" "''u''" "''w''"
        "sample_input ''b''" Inr "()" sample_env]
    by simp
qed

section \<open>Cancelling\<close>

lemma rt_bind_InrE:
  assumes "rt_bind m f s = (Inr x, s')"
  obtains y s1 where "m s = (Inr y, s1)" "f y s1 = (Inr x, s')"
  using assms by (auto simp: rt_bind_def split: prod.splits sum.splits)

text \<open>What the writes after the turn's row leave alone.\<close>

definition same_turn :: "'m chat_db \<Rightarrow> 'm chat_db \<Rightarrow> bool" where
  "same_turn s s' \<longleftrightarrow> task_rows s' = task_rows s \<and> ch_steering s' = ch_steering s \<and>
     rt_reservations (ch_rt s') = rt_reservations (ch_rt s)"

interpretation ft: chat_frame same_turn
  by unfold_locales (simp_all add: same_turn_def task_rows_def)

lemma insert_event_turn: "rt_keeps same_turn (insert_turn_event_on env tid knd payload)"
  by (simp add: rt_keeps_def same_turn_def task_rows_def insert_turn_event_on_def rt_bind_def unix_now_def on_rt_def
      now_utc_def rt_return_def Let_def)

lemma terminal_once_turn: "rt_keeps same_turn (insert_terminal_event_once env tid knd payload)"
  unfolding insert_terminal_event_once_def
  by (auto intro!: ft.keeps_rules insert_event_turn split: option.split)

lemma transaction_turn:
  assumes "\<And>d d' x. f d = Inr (d', x) \<Longrightarrow> db_tasks d' = db_tasks d"
  shows "rt_keeps same_turn (on_rt (rt_transaction f))"
  using assms by (auto simp: rt_keeps_def same_turn_def task_rows_def on_rt_def rt_transaction_def
      split: sum.split prod.split)

lemma discard_turn: "rt_keeps same_turn (on_rt (rt_transaction (\<lambda>d. discard_pending_execution_wakes d tid)))"
  by (rule transaction_turn) (auto simp: discard_pending_execution_wakes_def res_bind_Inr Let_def)

lemma commit_cancelled_turn: "rt_keeps same_turn (commit_cancelled env tid)"
  unfolding commit_cancelled_def commit_execution_outcome_def
  by (auto intro!: ft.keeps_rules transaction_turn dest: execution_tasks commit_tasks
      split: option.split sum.split)

lemma commit_cancelled_events: "rt_keeps same_events (commit_cancelled env tid)"
  unfolding commit_cancelled_def by (auto intro!: se.keeps_rules on_rt_events split: option.split sum.split)

text \<open>Committing a cancellation registers no wake.\<close>

definition same_wakes :: "'m chat_db \<Rightarrow> 'm chat_db \<Rightarrow> bool" where
  "same_wakes s s' \<longleftrightarrow> db_wakes (rt_store (ch_rt s')) = db_wakes (rt_store (ch_rt s))"

interpretation fw: chat_frame same_wakes
  by unfold_locales (simp_all add: same_wakes_def)

lemma commit_cancels_no_wake:
  assumes "commit_execution_outcome_with_requirement d v running now = Inr (d', c)"
    "vo_outcome v = OutCancelled why"
  shows "db_wakes d' = db_wakes d"
  using assms(1)
proof (cases rule: commit_cases)
  case (existing evs rs f t)
  then show ?thesis
    using arg_cong [OF enqueue_frame [OF existing(7)], of db_wakes] by simp
next
  case (inserted evs rs d1 d2 d3 r)
  have "db_wakes d' = db_wakes d2"
    using arg_cong [OF enqueue_frame [OF inserted(11)], of db_wakes] refresh_wakes [OF inserted(10)] by simp
  moreover have "d2 = d1"
    using inserted(9) assms(2) by (simp add: register_suspended_wake_def)
  ultimately show ?thesis
    using append_frame [OF inserted(8)] by simp
qed

lemma execution_keeps_wakes: "execution d eid = Inr (d', r) \<Longrightarrow> db_wakes d' = db_wakes d"
  by (erule execution_cases) (auto simp: write_projection_def res_bind_Inr)

lemma transaction_wakes:
  assumes "\<And>d d' x. f d = Inr (d', x) \<Longrightarrow> db_wakes d' = db_wakes d"
  shows "rt_keeps same_wakes (on_rt (rt_transaction f))"
  using assms by (auto simp: rt_keeps_def same_wakes_def on_rt_def rt_transaction_def split: sum.split prod.split)

lemma validated_outcome_kept: "new_validated_outcome out c = Inr v \<Longrightarrow> vo_outcome v = out"
  by (auto simp: new_validated_outcome_def res_bind_Inr split: if_splits)

lemma commit_cancelled_wakes: "rt_keeps same_wakes (commit_cancelled env tid)"
  unfolding commit_cancelled_def commit_execution_outcome_def
  by (auto intro!: fw.keeps_rules transaction_wakes dest: execution_keeps_wakes commit_cancels_no_wake [OF _ validated_outcome_kept]
      split: option.split sum.split)

lemma get_turn_run: "on_rt (get_task tid uid wid) s = (Inr (task_at (ch_rt s) (tid, uid, wid)), s)"
  by (simp add: on_rt_def get_task_def rt_read_def)

lemma bind_at: "m s = (Inr y, s1) \<Longrightarrow> rt_bind m f s = f y s1"
  by (simp add: rt_bind_def)

lemma cancel_steps:
  assumes "cancel_chat_turn env uid wid tid s = (Inr out, s')" "cc_cancelled out"
  obtains t now payload written y1 s1 y2 s2 y3 s3 s4 y5 s5 y6 where
    "task_at (ch_rt s) (tid, uid, wid) = Some t"
    "on_rt (release_resources (cancelled_turn t now)) (ticked 1 s) = (Inr y1, s1)"
    "hold_pending_turn_steering env uid wid tid s1 = (Inr y2, s2)"
    "restore_turn (cancelled_turn t now) s2 = (Inr y3, s3)"
    "insert_terminal_event_once env tid EvCancelled payload s3 = (Inr written, s4)"
    "on_rt (rt_transaction (\<lambda>d. discard_pending_execution_wakes d tid)) s4 = (Inr y5, s5)"
    "commit_cancelled env tid s5 = (Inr y6, s')"
proof -
  obtain t where t: "task_at (ch_rt s) (tid, uid, wid) = Some t" "t_status t \<notin> {TCompleted, TFailed, TCancelled}"
    using assms by (auto simp: cancel_chat_turn_def bind_at [OF get_turn_run] rt_return_def
        split: option.splits if_splits)
  have run: "cancel_chat_turn env uid wid tid s = rt_bind (on_rt (now_utc env)) (\<lambda>now.
      let u = cancelled_turn t now in
      rt_bind (on_rt (release_resources u)) (\<lambda>_.
      rt_bind (hold_pending_turn_steering env uid wid tid) (\<lambda>_.
      rt_bind (restore_turn u) (\<lambda>_.
      rt_bind (insert_terminal_event_once env tid EvCancelled
        (JObject [(''at'', JNumber (show_int (unix_timestamp now))), (''reason'', JString ''user_cancel'')])) (\<lambda>written.
      rt_bind (on_rt (rt_transaction (\<lambda>d. discard_pending_execution_wakes d tid))) (\<lambda>_.
      rt_bind (commit_cancelled env tid) (\<lambda>_.
      rt_return \<lparr>cc_cancelled = True, cc_terminal_event =
        (case written of Inserted e \<Rightarrow> Some e | Existing _ \<Rightarrow> None)\<rparr>))))))) s"
    unfolding cancel_chat_turn_def bind_at [OF get_turn_run] t(1) option.case if_not_P [OF t(2)] ..
  show thesis
    using assms(1) unfolding run Let_def bind_at [OF clock_run(1)]
  proof (elim rt_bind_InrE, goal_cases)
    case (1 y1 s1 y2 s2 y3 s3 written s4 y5 s5 y6 s6)
    then have "s6 = s'"
      by (simp add: rt_return_def)
    show thesis
      by (rule that [OF t(1) 1(1-6) [unfolded \<open>s6 = s'\<close>]])
  qed
qed

lemma release_run:
  "on_rt (release_resources u) s = (Inr (), s\<lparr>ch_rt := (ch_rt s)\<lparr>rt_reservations :=
     delete_where (held_by_task u) (rt_reservations (ch_rt s))\<rparr>\<rparr>)"
  by (simp add: on_rt_def release_resources_def rt_modify_def)

lemma settled_by_hold: "\<not> unsettled uid wid tid (g\<lparr>sg_status := SHeld, sg_revision := n, sg_updated_at := at\<rparr>)"
  by (simp add: unsettled_def)

lemma held_turn:
  assumes "hold_pending_turn_steering env uid wid tid s = (Inr n, s')"
  shows "task_rows s' = task_rows s" "rt_reservations (ch_rt s') = rt_reservations (ch_rt s)"
    "\<forall>g \<in> set (ch_steering s'). \<not> unsettled uid wid tid g"
proof -
  have s': "s' = (ticked 1 s)\<lparr>ch_steering := update_where
      (\<lambda>g. of_turn uid wid tid g \<and> sg_status g \<in> {SPending, SClaimed, SInterpreted})
      (\<lambda>g. g\<lparr>sg_status := SHeld, sg_revision := sg_revision g + 1,
        sg_updated_at := unix_timestamp (en_now env (rt_ticks (ch_rt s)))\<rparr>) (ch_steering s)\<rparr>"
    using assms by (simp add: hold_pending_turn_steering_def sweep_steering_def bind_at [OF clock_run(2)])
  show "task_rows s' = task_rows s" "rt_reservations (ch_rt s') = rt_reservations (ch_rt s)"
    by (simp_all add: s' ticked_def task_rows_def)
  have "ch_steering s' = update_where (unsettled uid wid tid)
      (\<lambda>g. g\<lparr>sg_status := SHeld, sg_revision := sg_revision g + 1,
        sg_updated_at := unix_timestamp (en_now env (rt_ticks (ch_rt s)))\<rparr>) (ch_steering s)"
    by (simp add: s' unsettled_def [abs_def])
  then show "\<forall>g \<in> set (ch_steering s'). \<not> unsettled uid wid tid g"
    by (auto simp: update_where_def settled_by_hold)
qed

lemma restored_turn:
  assumes "restore_turn u s = (Inr x, s')"
  shows "task_at (ch_rt s') (owner_key u) = Some u" "ch_steering s' = ch_steering s"
    "rt_reservations (ch_rt s') = rt_reservations (ch_rt s)"
proof -
  have rows: "task_rows s' = upsert task_key (\<lambda>old new. new) (turn_row u (str_field (t_input_json u) ''thread_id'' []))
      (task_rows s)"
    using insert_chat_turn_run(2) [of u "str_field (t_input_json u) ''thread_id'' []" s] assms
    by (simp add: restore_turn_def)
  show "task_at (ch_rt s') (owner_key u) = Some u"
    by (simp add: task_at_rows rows upsert_new.row_of_upsert split: option.split)
  show "ch_steering s' = ch_steering s" "rt_reservations (ch_rt s') = rt_reservations (ch_rt s)"
    using assms by (auto simp: restore_turn_def insert_chat_turn_def rt_bind_def rt_modify_def on_rt_def insert_task_def
        put_task_def set_thread_def on_tasks_def)
qed

lemma terminal_written:
  assumes "insert_terminal_event_once env tid knd payload s = (Inr w, s')"
  shows "first_terminal_event_on s' tid \<noteq> None"
proof (cases "first_terminal_event_on s tid")
  case (Some e)
  with assms show ?thesis
    by (auto simp: insert_terminal_event_once_def atomic_def rt_simps split: if_splits)
next
  case None
  obtain e t where run: "insert_turn_event_on env tid knd payload s =
      (Inr e, s\<lparr>ch_rt := t, ch_events := ch_events s @ [e], ch_next_event := ch_next_event s + 1\<rparr>)"
    and e: "te_turn_id e = tid" "te_kind e = knd"
    using insert_event_run [of env tid knd payload s] by auto
  have "turn_event_kind_is_terminal knd"
    using assms by (auto simp: insert_terminal_event_once_def rt_fail_def split: if_splits)
  moreover have "e \<in> set (turn_log s' tid)"
    using assms None run e by (auto simp: insert_terminal_event_once_def atomic_def rt_simps turn_log_def split: if_splits)
  ultimately show ?thesis
    using e(2) unfolding first_terminal_iff by (auto simp: is_terminal_event_def)
qed

lemma discarded_wakes:
  assumes "on_rt (rt_transaction (\<lambda>d. discard_pending_execution_wakes d tid)) s = (Inr n, s')"
  shows "\<forall>w \<in> set (db_wakes (rt_store (ch_rt s'))). wk_execution_id w = tid \<longrightarrow> wk_status w \<noteq> WkPending"
  using assms by (auto simp: on_rt_def rt_transaction_def discard_pending_execution_wakes_def res_bind_Inr Let_def
      delete_where_def split: prod.splits sum.splits)

lemma cancel_idle:
  assumes "task_at (ch_rt s) (tid, uid, wid) = Some t" "t_status t = TCancelled"
  shows "cancel_chat_turn env uid wid tid s = (Inr \<lparr>cc_cancelled = False, cc_terminal_event = None\<rparr>, s)"
  using assms by (simp add: cancel_chat_turn_def bind_at [OF get_turn_run] rt_return_def)

text \<open>
  C9: after a cancellation that took effect the stored turn is cancelled, it holds no resource, no
  steering of it waits to be interpreted, its stream has its terminal event and no wake is pending
  that could resume it; cancelling it again, or any number of times, changes nothing.
\<close>

theorem cancelled_turn_is_over:
  assumes "keyed (ch_rt s)" "cancel_chat_turn env uid wid tid s = (Inr out, s')" "cc_cancelled out"
  shows "(\<exists>t. task_at (ch_rt s') (tid, uid, wid) = Some t \<and> t_status t = TCancelled) \<and>
    (\<forall>r \<in> set (rt_reservations (ch_rt s')). fst (reservation_key r) \<noteq> (tid, uid, wid)) \<and>
    (\<forall>g \<in> set (ch_steering s'). \<not> unsettled uid wid tid g) \<and>
    first_terminal_event_on s' tid \<noteq> None \<and>
    (\<forall>w \<in> set (db_wakes (rt_store (ch_rt s'))). wk_execution_id w = tid \<longrightarrow> wk_status w \<noteq> WkPending) \<and>
    cancel_chat_turn env' uid wid tid s' = (Inr \<lparr>cc_cancelled = False, cc_terminal_event = None\<rparr>, s')"
proof -
  obtain t now payload written y1 s1 y2 s2 y3 s3 s4 y5 s5 y6 where
    t: "task_at (ch_rt s) (tid, uid, wid) = Some t" and steps:
      "on_rt (release_resources (cancelled_turn t now)) (ticked 1 s) = (Inr y1, s1)"
      "hold_pending_turn_steering env uid wid tid s1 = (Inr y2, s2)"
      "restore_turn (cancelled_turn t now) s2 = (Inr y3, s3)"
      "insert_terminal_event_once env tid EvCancelled payload s3 = (Inr written, s4)"
      "on_rt (rt_transaction (\<lambda>d. discard_pending_execution_wakes d tid)) s4 = (Inr y5, s5)"
      "commit_cancelled env tid s5 = (Inr y6, s')"
    by (rule cancel_steps [OF assms(2,3)])
  have "same_turn s3 s4" "same_turn s4 s5" "same_turn s5 s'"
    using rt_keepsD [OF terminal_once_turn, of s3 env tid EvCancelled payload] rt_keepsD [OF discard_turn, of s4 tid]
      rt_keepsD [OF commit_cancelled_turn, of s5 env tid] by (simp_all add: steps(4-6))
  then have kept: "task_rows s' = task_rows s3" "ch_steering s' = ch_steering s3"
      "rt_reservations (ch_rt s') = rt_reservations (ch_rt s3)"
    by (simp_all add: same_turn_def)
  have owner: "owner_key (cancelled_turn t now) = (tid, uid, wid)"
    using keyedD [OF assms(1) t] by (simp add: cancelled_turn_def clear_lease_def owner_key_def Let_def)
  have over: "task_at (ch_rt s') (tid, uid, wid) = Some (cancelled_turn t now)"
    using restored_turn(1) [OF steps(3)] by (simp add: task_at_rows kept owner)
  have status: "t_status (cancelled_turn t now) = TCancelled"
    by (simp add: cancelled_turn_def clear_lease_def Let_def)
  have "rt_reservations (ch_rt s') = delete_where (held_by_task (cancelled_turn t now)) (rt_reservations (ch_rt s))"
    using steps(1) by (auto simp: kept restored_turn(3) [OF steps(3)] held_turn(2) [OF steps(2)] release_run ticked_def)
  then have "\<forall>r \<in> set (rt_reservations (ch_rt s')). fst (reservation_key r) \<noteq> (tid, uid, wid)"
    by (auto simp: delete_where_def held_by_task_def owner)
  moreover have "\<forall>g \<in> set (ch_steering s'). \<not> unsettled uid wid tid g"
    using held_turn(3) [OF steps(2)] by (simp add: kept restored_turn(2) [OF steps(3)])
  moreover have "same_events s4 s5" "same_events s5 s'" "same_wakes s5 s'"
    using rt_keepsD [OF on_rt_events, of s4 "rt_transaction (\<lambda>d. discard_pending_execution_wakes d tid)"]
      rt_keepsD [OF commit_cancelled_events, of s5 env tid] rt_keepsD [OF commit_cancelled_wakes, of s5 env tid]
    by (simp_all add: steps(5,6))
  then have "first_terminal_event_on s' tid \<noteq> None"
      "\<forall>w \<in> set (db_wakes (rt_store (ch_rt s'))). wk_execution_id w = tid \<longrightarrow> wk_status w \<noteq> WkPending"
    using terminal_written [OF steps(4)] discarded_wakes [OF steps(5)]
    by (simp_all add: first_terminal_iff turn_log_def same_events_def same_wakes_def)
  ultimately show ?thesis
    using over status cancel_idle [OF over status] by blast
qed

lemma keyed_rows: "list_all (\<lambda>r. owner_key (tk_json r) = task_key r) (task_rows s) \<Longrightarrow> keyed (ch_rt s)"
  by (auto simp: keyed_def task_at_rows list_all_iff dest!: row_of_Some_in)

definition steered_chat :: "unit chat_db" where
  "steered_chat = chat_step sample_env (''u'', ''w'', EnqueueOrSteer (sample_input ''b'') Inr) running_chat"

theorem cancelled_turn_is_over_witness:
  "case cancel_chat_turn sample_env ''u'' ''w'' ''turn_a'' steered_chat of
     (Inr out, s') \<Rightarrow> first_terminal_event_on s' ''turn_a'' \<noteq> None \<and>
       (\<forall>g \<in> set (ch_steering s'). \<not> unsettled ''u'' ''w'' ''turn_a'' g) | _ \<Rightarrow> False"
proof -
  have "case fst (cancel_chat_turn sample_env ''u'' ''w'' ''turn_a'' steered_chat) of
      Inr out \<Rightarrow> cc_cancelled out | Inl e \<Rightarrow> False"
    by code_simp
  then obtain out s' where run: "cancel_chat_turn sample_env ''u'' ''w'' ''turn_a'' steered_chat = (Inr out, s')"
      and out: "cc_cancelled out"
    by (cases "cancel_chat_turn sample_env ''u'' ''w'' ''turn_a'' steered_chat") (auto split: sum.splits)
  have "keyed (ch_rt steered_chat)"
    by (rule keyed_rows) code_simp
  from cancelled_turn_is_over [OF this run out] show ?thesis
    by (simp add: run)
qed

section \<open>Recovery at boot\<close>

definition unreserved :: "'m chat_db \<Rightarrow> string \<times> string \<times> string \<Rightarrow> bool" where
  "unreserved s k \<longleftrightarrow> (\<forall>r \<in> set (rt_reservations (ch_rt s)). fst (reservation_key r) \<noteq> k)"

text \<open>A turn the new process can rely on: if it runs, this process runs it.\<close>

definition at_rest :: "u64 \<Rightarrow> 'm chat_db \<Rightarrow> task_record \<Rightarrow> bool" where
  "at_rest generation s t \<longleftrightarrow> (t_kind t = ''chat_turn'' \<longrightarrow>
     (t_status t = TRunning \<longrightarrow> owned_by_generation generation t) \<and>
     (task_status_is_terminal (t_status t) \<or> t_status t = TWaitingResource \<longrightarrow>
        \<not> holds_lease t \<and> unreserved s (owner_key t)))"

text \<open>A step on one task leaves the other tasks and their reservations alone.\<close>

definition touches_only :: "string \<times> string \<times> string \<Rightarrow> 'm chat_db \<Rightarrow> 'm chat_db \<Rightarrow> bool" where
  "touches_only k s s' \<longleftrightarrow> (\<forall>k'. k' \<noteq> k \<longrightarrow> task_at (ch_rt s') k' = task_at (ch_rt s) k') \<and>
     filter (\<lambda>r. fst (reservation_key r) \<noteq> k) (rt_reservations (ch_rt s')) =
     filter (\<lambda>r. fst (reservation_key r) \<noteq> k) (rt_reservations (ch_rt s))"

interpretation to: chat_frame "touches_only k" for k
  by unfold_locales (simp_all add: touches_only_def)

lemma touchesD: "\<lbrakk>touches_only k s s'; k' \<noteq> k\<rbrakk> \<Longrightarrow> task_at (ch_rt s') k' = task_at (ch_rt s) k'"
  unfolding touches_only_def by blast

lemma unreserved_other:
  "k' \<noteq> k \<Longrightarrow> unreserved s k' \<longleftrightarrow>
     (\<forall>r \<in> set (filter (\<lambda>r. fst (reservation_key r) \<noteq> k) (rt_reservations (ch_rt s))). fst (reservation_key r) \<noteq> k')"
  by (auto simp: unreserved_def)

lemma touches_unreserved: "\<lbrakk>touches_only k s s'; k' \<noteq> k\<rbrakk> \<Longrightarrow> unreserved s' k' = unreserved s k'"
  by (simp only: unreserved_other touches_only_def)

lemma touches_same: "same_turn s s' \<Longrightarrow> touches_only k s s'"
  by (simp add: same_turn_def touches_only_def task_at_rows)

lemma release_touches: "owner_key t = k \<Longrightarrow> rt_keeps (touches_only k) (on_rt (release_resources t))"
  by (auto simp: rt_keeps_def touches_only_def release_run task_at_def delete_where_def held_by_task_def
      intro: filter_cong)

lemma restore_touches: "owner_key t = k \<Longrightarrow> rt_keeps (touches_only k) (restore_turn t)"
  unfolding rt_keeps_def
proof
  fix s
  assume k: "owner_key t = k"
  obtain x s' where run: "restore_turn t s = (Inr x, s')"
    using insert_chat_turn_run(1) [of t "str_field (t_input_json t) ''thread_id'' []" s]
    by (metis restore_turn_def prod.collapse)
  have "task_rows s' = upsert task_key (\<lambda>old new. new) (turn_row t (str_field (t_input_json t) ''thread_id'' []))
      (task_rows s)"
    using insert_chat_turn_run(2) [of t "str_field (t_input_json t) ''thread_id'' []" s] run
    by (simp add: restore_turn_def)
  then have "touches_only k s s'"
    using k restored_turn(3) [OF run] by (auto simp: touches_only_def task_at_rows upsert_new.row_of_upsert)
  then show "touches_only k s (snd (restore_turn t s))"
    by (simp add: run)
qed

lemma runs_turn: "rt_keeps same_turn (update_runs env P status rsn)"
  by (simp add: rt_keeps_def same_turn_def task_rows_def update_runs_def rt_bind_def unix_now_def on_rt_def
      now_utc_def rt_return_def)

lemma event_turn: "rt_keeps same_turn (insert_turn_event env tid knd payload)"
  unfolding insert_turn_event_def by (intro ft.keeps_atomic insert_event_turn)

lemma same_turn_touches: "rt_keeps same_turn m \<Longrightarrow> rt_keeps (touches_only k) m"
  by (simp add: rt_keeps_def touches_same)

lemma restore_total: "\<exists>s'. restore_turn t s = (Inr (), s')"
  using insert_chat_turn_run(1) [of t "str_field (t_input_json t) ''thread_id'' []" s]
  by (metis restore_turn_def prod.collapse)

lemma insert_event_total: "\<exists>e s'. insert_turn_event env tid knd payload s = (Inr e, s')"
  using insert_event_run [of env tid knd payload s] by (auto simp: insert_turn_event_def atomic_def)

lemma update_runs_total: "\<exists>n s'. update_runs env P status rsn s = (Inr n, s')"
  by (simp add: update_runs_def bind_at [OF clock_run(2)])

lemma requeue_run:
  assumes "owner_key t = (tid, uid, wid)"
  shows "\<exists>s' u. requeue_turn env uid wid t blocked why generation s = (Inr (), s') \<and> touches_only (tid, uid, wid) s s' \<and>
    task_at (ch_rt s') (tid, uid, wid) = Some u \<and> owner_key u = (tid, uid, wid) \<and> t_kind u = t_kind t \<and>
    t_status u = TQueued \<and> \<not> holds_lease u \<and> unreserved s' (tid, uid, wid)"
proof -
  have id: "t_task_id t = tid"
    using assms by (simp add: owner_key_def)
  obtain n s1 where 1: "abort_running_agent_runs_for_turn env tid uid wid ''gateway_restart'' s = (Inr n, s1)"
    unfolding abort_running_agent_runs_for_turn_def using update_runs_total by blast
  let ?s2 = "s1\<lparr>ch_rt := (ch_rt s1)\<lparr>rt_reservations := delete_where (held_by_task t) (rt_reservations (ch_rt s1))\<rparr>\<rparr>"
  define u where "u = (clear_lease (t\<lparr>t_status := TQueued\<rparr>))
      \<lparr>t_blocked_reason := Some blocked, t_updated_at := en_now env (rt_ticks (ch_rt ?s2))\<rparr>"
  have u: "owner_key u = (tid, uid, wid)" "t_kind u = t_kind t" "t_status u = TQueued" "\<not> holds_lease u"
    using assms by (simp_all add: u_def clear_lease_def owner_key_def holds_lease_def)
  obtain s4 where 4: "restore_turn u (ticked 1 ?s2) = (Inr (), s4)"
    using restore_total by blast
  obtain e s5 where 5: "insert_turn_event env tid EvAborted (boot_payload why generation) s4 = (Inr e, s5)"
    using insert_event_total by blast
  have run: "requeue_turn env uid wid t blocked why generation s = (Inr (), s5)"
    unfolding requeue_turn_def id bind_at [where m = "abort_running_agent_runs_for_turn env tid uid wid r" for r, OF 1]
      bind_at [OF release_run] bind_at [OF clock_run(1)] u_def [symmetric]
      bind_at [where m = "restore_turn u", OF 4] bind_at [where m = "insert_turn_event env tid k p" for k p, OF 5]
    by (simp add: rt_return_def)
  have after: "task_at (ch_rt s5) k = task_at (ch_rt s4) k" "rt_reservations (ch_rt s5) = rt_reservations (ch_rt s4)" for k
    using rt_keepsD [OF event_turn, of s4 env tid EvAborted "boot_payload why generation"]
    by (simp_all add: 5 same_turn_def task_at_rows)
  have "rt_keeps (touches_only (tid, uid, wid)) (requeue_turn env uid wid t blocked why generation)"
    unfolding requeue_turn_def abort_running_agent_runs_for_turn_def
    using assms by (intro to.keeps_rules release_touches restore_touches same_turn_touches [OF runs_turn]
        same_turn_touches [OF event_turn]) (simp_all add: owner_key_def clear_lease_def)
  then have "touches_only (tid, uid, wid) s s5"
    by (metis rt_keepsD run snd_conv)
  moreover have "task_at (ch_rt s5) (tid, uid, wid) = Some u"
    using restored_turn(1) [OF 4] u(1) by (simp add: after)
  moreover have "unreserved s5 (tid, uid, wid)"
    using assms by (auto simp: unreserved_def after restored_turn(3) [OF 4] ticked_def delete_where_def held_by_task_def)
  ultimately show ?thesis
    using run u by blast
qed

text \<open>One task of the list, with what it added to the list of the recovered.\<close>

definition recovered_to :: "u64 \<Rightarrow> task_record \<Rightarrow> string list \<Rightarrow> 'm chat_db \<Rightarrow> bool" where
  "recovered_to generation t r s' \<longleftrightarrow> (\<exists>u. task_at (ch_rt s') (owner_key t) = Some u \<and> owner_key u = owner_key t \<and>
     at_rest generation s' u \<and>
     (r = [] \<and> t_status u = t_status t \<or> r = [t_task_id t] \<and> t_status u = TQueued \<and> t_status t \<noteq> TQueued))"

lemma requeue_recovers:
  assumes "owner_key t = (tid, uid, wid)" "t_status t \<noteq> TQueued"
  shows "\<exists>s'. rt_bind (requeue_turn env uid wid t blocked why generation) (\<lambda>_. rt_return (acc @ [t_task_id t])) s =
      (Inr (acc @ [t_task_id t]), s') \<and> touches_only (owner_key t) s s' \<and> recovered_to generation t [t_task_id t] s'"
proof -
  obtain s' u where run: "requeue_turn env uid wid t blocked why generation s = (Inr (), s')"
    and u: "touches_only (tid, uid, wid) s s'" "task_at (ch_rt s') (tid, uid, wid) = Some u"
      "owner_key u = (tid, uid, wid)" "t_status u = TQueued"
    using requeue_run [OF assms(1), of env blocked why generation s] by auto
  have "at_rest generation s' u"
    using u(4) by (simp add: at_rest_def)
  then have "recovered_to generation t [t_task_id t] s'"
    using u assms by (simp add: recovered_to_def)
  with run u(1) assms(1) show ?thesis
    by (simp add: rt_bind_def rt_return_def)
qed

lemma idle_recovers:
  assumes "task_at (ch_rt s) (owner_key t) = Some t" "at_rest generation s t"
  shows "touches_only (owner_key t) s s \<and> recovered_to generation t [] s"
  using assms by (simp add: recovered_to_def to.refl)

lemma terminal_recovers:
  assumes "task_at (ch_rt s) (owner_key t) = Some t" "task_status_is_terminal (t_status t)"
  shows "\<exists>s'. rt_bind (on_rt (release_resources t)) (\<lambda>_.
      rt_bind (if holds_lease t then rt_bind (on_rt (now_utc env)) (\<lambda>now. restore_turn ((clear_lease t)\<lparr>t_updated_at := now\<rparr>))
        else rt_return ()) (\<lambda>_. rt_return acc)) s = (Inr acc, s') \<and>
    touches_only (owner_key t) s s' \<and> recovered_to generation t [] s'"
proof -
  let ?s1 = "s\<lparr>ch_rt := (ch_rt s)\<lparr>rt_reservations := delete_where (held_by_task t) (rt_reservations (ch_rt s))\<rparr>\<rparr>"
  have free: "unreserved ?s1 (owner_key t)" and at: "task_at (ch_rt ?s1) (owner_key t) = Some t"
    using assms(1) by (auto simp: unreserved_def delete_where_def held_by_task_def)
  have rel: "touches_only (owner_key t) s ?s1"
    using rt_keepsD [OF release_touches [OF refl], of t s] by (simp add: release_run)
  show ?thesis
  proof (cases "holds_lease t")
    case False
    then have "recovered_to generation t [] ?s1"
      using at free assms(2) by (cases "t_status t") (simp_all add: recovered_to_def at_rest_def)
    with False rel show ?thesis
      by (simp add: release_run rt_return_def rt_bind_def)
  next
    case True
    let ?u = "(clear_lease t)\<lparr>t_updated_at := en_now env (rt_ticks (ch_rt ?s1))\<rparr>"
    have u: "owner_key ?u = owner_key t" "t_status ?u = t_status t" "\<not> holds_lease ?u"
      by (simp_all add: owner_key_def clear_lease_def holds_lease_def)
    obtain s2 where 2: "restore_turn ?u (ticked 1 ?s1) = (Inr (), s2)"
      using restore_total by blast
    have "task_at (ch_rt s2) (owner_key t) = Some ?u" "unreserved s2 (owner_key t)"
      using restored_turn(1,3) [OF 2] u(1) free by (simp_all add: unreserved_def ticked_def)
    then have "recovered_to generation t [] s2"
      using u assms(2) by (cases "t_status t") (simp_all add: recovered_to_def at_rest_def)
    moreover have "touches_only (owner_key t) ?s1 (ticked 1 ?s1)"
      by (simp add: touches_only_def ticked_def task_at_def)
    moreover have "touches_only (owner_key t) (ticked 1 ?s1) s2"
      using rt_keepsD [OF restore_touches [OF u(1)], of "ticked 1 ?s1"] by (simp only: 2 snd_conv)
    ultimately have "recovered_to generation t [] s2" "touches_only (owner_key t) s s2"
      using to.trans [OF rel to.trans] by blast+
    then show ?thesis
      unfolding rt_bind_def release_run if_P [OF True] clock_run(1) prod.case sum.case 2 rt_return_def
      by blast
  qed
qed

lemma recover_turn_run:
  assumes "task_at (ch_rt s) (owner_key t) = Some t" "owner_key t = (tid, uid, wid)"
  shows "\<exists>r s'. recover_turn env uid wid generation t acc s = (Inr (acc @ r), s') \<and>
    touches_only (owner_key t) s s' \<and> recovered_to generation t r s'"
proof -
  have idle: ?thesis if "recover_turn env uid wid generation t acc s = (Inr acc, s)" "at_rest generation s t"
    using that idle_recovers [OF assms(1)] by (metis append_Nil2)
  have requeued: ?thesis if "recover_turn env uid wid generation t acc s =
      rt_bind (requeue_turn env uid wid t b w generation) (\<lambda>_. rt_return (acc @ [t_task_id t])) s"
      "t_status t \<noteq> TQueued" for b w
    using that requeue_recovers [OF assms(2)] by metis
  have reserved: "fst (on_rt (has_resource_reservation t) s) = Inr (\<not> unreserved s (owner_key t))"
      "snd (on_rt (has_resource_reservation t) s) = s"
    by (auto simp: on_rt_def has_resource_reservation_def rt_read_def unreserved_def held_by_task_def list_ex_iff)
  consider (other) "t_kind t \<noteq> ''chat_turn''" | (over) "t_kind t = ''chat_turn''" "task_status_is_terminal (t_status t)"
    | (waits) "t_kind t = ''chat_turn''" "\<not> task_status_is_terminal (t_status t)" "t_status t \<noteq> TRunning"
    | (ours) "t_kind t = ''chat_turn''" "t_status t = TRunning" "owned_by_generation generation t"
    | (stale) "t_kind t = ''chat_turn''" "t_status t = TRunning" "\<not> owned_by_generation generation t"
    by blast
  then show ?thesis
  proof cases
    case other
    then show ?thesis by (intro idle) (simp_all add: recover_turn_def rt_return_def at_rest_def)
  next
    case over
    then show ?thesis
      using terminal_recovers [OF assms(1), of env acc generation] by (auto simp: recover_turn_def)
  next
    case waits
    have step: "recover_turn env uid wid generation t acc s =
        (if t_status t = TWaitingResource \<and> (\<not> unreserved s (owner_key t) \<or> holds_lease t)
          then rt_bind (requeue_turn env uid wid t ''recovered at boot (stale resource reservation)''
            ''stale_resource_reservation_at_boot'' generation) (\<lambda>_. rt_return (acc @ [t_task_id t]))
         else rt_return acc) s"
      using waits reserved by (cases "on_rt (has_resource_reservation t) s") (simp add: recover_turn_def rt_bind_def)
    show ?thesis
    proof (cases "t_status t = TWaitingResource \<and> (\<not> unreserved s (owner_key t) \<or> holds_lease t)")
      case True
      then show ?thesis
        by (intro requeued) (simp_all only: step if_True simp_thms, simp)
    next
      case False
      then show ?thesis
        using waits by (intro idle) (auto simp: step rt_return_def at_rest_def)
    qed
  next
    case ours
    then show ?thesis by (intro idle) (simp_all add: recover_turn_def rt_return_def at_rest_def)
  next
    case stale
    then show ?thesis
      by (intro requeued) (simp_all add: recover_turn_def)
  qed
qed

definition settled_to :: "u64 \<Rightarrow> string list \<Rightarrow> 'm chat_db \<Rightarrow> task_record \<Rightarrow> bool" where
  "settled_to generation r s' t \<longleftrightarrow> (\<exists>u. task_at (ch_rt s') (owner_key t) = Some u \<and> owner_key u = owner_key t \<and>
     at_rest generation s' u \<and> t_status u = (if t_task_id t \<in> set r then TQueued else t_status t))"

lemma recover_fold:
  assumes "distinct (map owner_key ts)"
    "\<And>t. t \<in> set ts \<Longrightarrow> task_at (ch_rt s) (owner_key t) = Some t \<and> t_user_id t = uid \<and> t_workspace_id t = wid"
  shows "\<exists>r s'. rt_fold (recover_turn env uid wid generation) ts acc s = (Inr (acc @ r), s') \<and>
    set r \<subseteq> t_task_id ` set ts \<and>
    (\<forall>k. k \<notin> owner_key ` set ts \<longrightarrow> task_at (ch_rt s') k = task_at (ch_rt s) k \<and> unreserved s' k = unreserved s k) \<and>
    (\<forall>t \<in> set ts. settled_to generation r s' t)"
  using assms
proof (induction ts arbitrary: acc s)
  case (Cons t ts)
  have t: "task_at (ch_rt s) (owner_key t) = Some t" "owner_key t = (t_task_id t, uid, wid)"
    using Cons.prems(2) [of t] by (auto simp: owner_key_def)
  obtain r1 s1 where 1: "recover_turn env uid wid generation t acc s = (Inr (acc @ r1), s1)"
      "touches_only (owner_key t) s s1" "recovered_to generation t r1 s1"
    using recover_turn_run [OF t] by blast
  have other: "owner_key q \<noteq> owner_key t" if "q \<in> set ts" for q
    using Cons.prems(1) that by (metis distinct.simps(2) image_eqI list.map(2) set_map)
  have apart: "distinct (map owner_key ts)"
    using Cons.prems(1) by simp
  have stored: "task_at (ch_rt s1) (owner_key q) = Some q \<and> t_user_id q = uid \<and> t_workspace_id q = wid"
    if "q \<in> set ts" for q
    using touchesD [OF 1(2) other [OF that]] Cons.prems(2) [of q] that by simp
  obtain r2 s2 where 2: "rt_fold (recover_turn env uid wid generation) ts (acc @ r1) s1 = (Inr ((acc @ r1) @ r2), s2)"
      "set r2 \<subseteq> t_task_id ` set ts"
      "\<forall>k. k \<notin> owner_key ` set ts \<longrightarrow> task_at (ch_rt s2) k = task_at (ch_rt s1) k \<and> unreserved s2 k = unreserved s1 k"
      "\<forall>q \<in> set ts. settled_to generation r2 s2 q"
    using Cons.IH [OF apart stored, of "acc @ r1"] by blast
  have ids: "t_task_id t \<notin> set r2"
    using 2(2) other t(2) Cons.prems(2) by (force simp: owner_key_def)
  have first: "set r1 \<subseteq> {t_task_id t}"
    using 1(3) by (auto simp: recovered_to_def)
  have ne: "t_task_id q \<noteq> t_task_id t" if "q \<in> set ts" for q
    using other [OF that] Cons.prems(2) [of q] that t(2) by (auto simp: owner_key_def)
  obtain u where u: "task_at (ch_rt s1) (owner_key t) = Some u" "owner_key u = owner_key t" "at_rest generation s1 u"
      "r1 = [] \<and> t_status u = t_status t \<or> r1 = [t_task_id t] \<and> t_status u = TQueued \<and> t_status t \<noteq> TQueued"
    using 1(3) by (auto simp: recovered_to_def)
  have "owner_key t \<notin> owner_key ` set ts"
    using other by force
  then have "task_at (ch_rt s2) (owner_key t) = Some u" "unreserved s2 (owner_key t) = unreserved s1 (owner_key t)"
    using 2(3) u(1) by metis+
  then have "settled_to generation (r1 @ r2) s2 t"
    unfolding settled_to_def using u ids by (intro exI [of _ u]) (auto simp: at_rest_def)
  moreover have "settled_to generation (r1 @ r2) s2 q" if "q \<in> set ts" for q
    using bspec [OF 2(4) that] ne [OF that] first by (auto simp: settled_to_def)
  moreover have "task_at (ch_rt s2) k = task_at (ch_rt s) k \<and> unreserved s2 k = unreserved s k"
    if "k \<noteq> owner_key t" "k \<notin> owner_key ` set ts" for k
    using 2(3) that(2) touchesD [OF 1(2) that(1)] touches_unreserved [OF 1(2) that(1)] by metis
  moreover have "rt_fold (recover_turn env uid wid generation) (t # ts) acc s = (Inr (acc @ r1 @ r2), s2)"
    using 1(1) 2(1) by (simp add: rt_bind_def)
  moreover have "set (r1 @ r2) \<subseteq> t_task_id ` set (t # ts)"
    using first 2(2) by auto
  ultimately show ?case
    by (intro exI [of _ "r1 @ r2"] exI [of _ s2]) auto
qed (simp add: rt_return_def)

text \<open>
  C14: recovery at boot always comes to its end and reaches every stored turn of the workspace: a
  turn still marked running belongs to this process, a finished turn, or one that waits for a
  resource, holds neither a lease nor a resource of the dead process, and exactly the turns it
  reports are queued again while every other keeps its status.
\<close>

theorem recovery_reclaims_every_turn:
  assumes "keyed (ch_rt s)" "distinct (map task_key (task_rows s))"
  shows "\<exists>ids s'. recover_chat_turns_at_boot env uid wid generation s = (Inr ids, s') \<and>
    (\<forall>tid t. task_at (ch_rt s) (tid, uid, wid) = Some t \<longrightarrow>
       (\<exists>u. task_at (ch_rt s') (tid, uid, wid) = Some u \<and> at_rest generation s' u \<and>
          t_status u = (if tid \<in> set ids then TQueued else t_status t)))"
proof -
  let ?rows = "filter (\<lambda>r. tk_user_id r = uid \<and> tk_workspace_id r = wid) (task_rows s)"
  let ?sorted = "sort_key (\<lambda>r. (tk_created_at r, tk_task_id r)) ?rows"
  let ?ts = "tasks_in (ch_rt s) uid wid"
  have at: "task_at (ch_rt s) (task_key r) = Some (tk_json r)" if "r \<in> set (task_rows s)" for r
    using row_of_unique [OF assms(2), of "task_key r" r] that by (simp add: task_at_rows)
  have own: "owner_key (tk_json r) = task_key r" if "r \<in> set (task_rows s)" for r
    using keyedD [OF assms(1) at [OF that]] .
  have ts: "?ts = map tk_json ?sorted"
    by (simp add: tasks_in_def task_rows_def)
  have "map owner_key ?ts = map task_key ?sorted"
    by (simp add: ts own)
  moreover have "distinct (map task_key ?sorted)"
    using assms(2) by (simp add: distinct_map inj_on_def distinct_sort)
  ultimately have distinct: "distinct (map owner_key ?ts)"
    by simp
  have stored: "task_at (ch_rt s) (owner_key t) = Some t \<and> t_user_id t = uid \<and> t_workspace_id t = wid" if t: "t \<in> set ?ts" for t
    using t own at by (auto simp: ts owner_key_def task_key_def)
  obtain r s' where run: "rt_fold (recover_turn env uid wid generation) ?ts [] s = (Inr r, s')"
    and settled: "\<forall>t \<in> set ?ts. settled_to generation r s' t"
    using recover_fold [OF distinct stored, of env generation "[]"] by auto
  have "\<exists>u. task_at (ch_rt s') (tid, uid, wid) = Some u \<and> at_rest generation s' u \<and>
      t_status u = (if tid \<in> set r then TQueued else t_status t)"
    if t: "task_at (ch_rt s) (tid, uid, wid) = Some t" for tid t
  proof -
    have key: "owner_key t = (tid, uid, wid)"
      by (rule keyedD [OF assms(1) t])
    obtain q where "q \<in> set (task_rows s)" "task_key q = (tid, uid, wid)" "tk_json q = t"
      using t by (auto simp: task_at_rows dest!: row_of_Some_in)
    then have "t \<in> set ?ts"
      by (auto simp: ts task_key_def)
    with settled key show ?thesis
      by (auto simp: settled_to_def owner_key_def)
  qed
  with run show ?thesis
    by (auto simp: recover_chat_turns_at_boot_def on_rt_def list_tasks_def rt_bind_def rt_read_def)
qed

theorem recovery_reclaims_every_turn_witness:
  "\<exists>ids s' u. recover_chat_turns_at_boot sample_env ''u'' ''w'' 2 running_chat = (Inr ids, s') \<and>
     task_at (ch_rt s') (''turn_a'', ''u'', ''w'') = Some u \<and> at_rest 2 s' u"
proof -
  have "keyed (ch_rt running_chat)"
    by (rule keyed_rows) code_simp
  moreover have "distinct (map task_key (task_rows running_chat))"
    by code_simp
  moreover have "task_at (ch_rt running_chat) (''turn_a'', ''u'', ''w'') \<noteq> None"
    by code_simp
  ultimately show ?thesis
    using recovery_reclaims_every_turn [of running_chat sample_env "''u''" "''w''" 2] by fast
qed

end
