(* ===== verification/ObjectiveTheorems.thy ===== *)
theory ObjectiveTheorems
  imports TurnEndings
begin

text \<open>
  The revision of an objective contract against its reference: how often the objective of the
  thread really changed. Steering and plans carry this revision, so it must move with the
  substance and with nothing else.
\<close>

section \<open>Writing a thread's objective\<close>

record objective_write =
  ow_message :: string
  ow_objective :: string
  ow_mode :: objective_mode
  ow_scope :: json
  ow_allowed :: json
  ow_completion :: json
  ow_status :: string

datatype objective_step = PutObjective objective_write | CloseObjective u64 string

primrec run_objective ::
  "runtime_env \<Rightarrow> string \<Rightarrow> string \<Rightarrow> string \<Rightarrow> objective_step \<Rightarrow> 'm chat_db \<Rightarrow> 'm chat_db" where
  "run_objective env uid wid thread (PutObjective w) s =
     snd (upsert_objective_contract env uid wid thread (ow_message w) (ow_objective w) (ow_mode w) (ow_scope w)
       (ow_allowed w) (ow_completion w) (ow_status w) s)"
| "run_objective env uid wid thread (CloseObjective expected status) s =
     snd (transition_objective_contract_status env uid wid thread expected status s)"

text \<open>What was put, in order, and how often it changed.\<close>

primrec substance :: "objective_step \<Rightarrow> (string \<times> objective_mode) list" where
  "substance (PutObjective w) =
     (if ow_status w \<in> {''active'', ''completed'', ''cancelled''} then [(ow_objective w, ow_mode w)] else [])"
| "substance (CloseObjective expected status) = []"

fun changes :: "'a list \<Rightarrow> nat" where
  "changes (x # y # xs) = (if x = y then 0 else 1) + changes (y # xs)"
| "changes _ = 0"

lemma changes_snoc: "xs \<noteq> [] \<Longrightarrow> changes (xs @ [y]) = changes xs + (if last xs = y then 0 else 1)"
  by (induction xs rule: changes.induct) auto

definition objective_follows :: "(string \<times> objective_mode) list \<Rightarrow> objective_contract option \<Rightarrow> bool" where
  "objective_follows xs found \<longleftrightarrow>
     (case found of
        None \<Rightarrow> xs = []
      | Some ob \<Rightarrow> xs \<noteq> [] \<and> (oc_objective ob, oc_mode ob) = last xs \<and>
          oc_revision ob = word_of_nat (1 + changes xs))"

lemma replace_follows:
  assumes "objective_follows xs (Some old)" "objective_key old = objective_key new"
  shows "objective_follows (xs @ [(oc_objective new, oc_mode new)]) (Some (replace_objective old new))"
  using assms by (auto simp: objective_follows_def replace_objective_def changes_snoc)

lemma upsert_run:
  assumes "status \<in> {''active'', ''completed'', ''cancelled''}"
  shows "\<exists>now. ch_objectives (snd (upsert_objective_contract env uid wid thread mid objective mode scope allowed
      completion status s)) = upsert objective_key replace_objective
        (new_objective uid wid thread mid objective mode scope allowed completion status now) (ch_objectives s)"
proof -
  have key: "objective_key (new_objective uid wid thread mid objective mode scope allowed completion status now) =
      (uid, wid, thread)" for now
    by (simp add: objective_key_def new_objective_def)
  show ?thesis
    using assms by (intro exI [of _ "unix_timestamp (en_now env (rt_ticks (ch_rt s)))"])
      (simp add: upsert_objective_contract_def clock_run(2) atomic_def rt_simps load_objective_contract_def
        load_objective_contract_on_def objective_table.row_of_upsert key ok_or_def ticked_def)
qed

lemma close_keeps:
  "map_option (\<lambda>o'. (oc_objective o', oc_mode o', oc_revision o'))
     (load_objective_contract_on (snd (transition_objective_contract_status env uid wid thread expected status s))
       uid wid thread) =
   map_option (\<lambda>o'. (oc_objective o', oc_mode o', oc_revision o')) (load_objective_contract_on s uid wid thread)"
proof -
  have "ch_objectives (snd (transition_objective_contract_status env uid wid thread expected status s)) = ch_objectives s \<or>
      (\<exists>P now. ch_objectives (snd (transition_objective_contract_status env uid wid thread expected status s)) =
        update_where P (\<lambda>o'. o'\<lparr>oc_status := status, oc_updated_at := now\<rparr>) (ch_objectives s))"
    by (auto simp: transition_objective_contract_status_def rt_fail_def bind_at [OF clock_run(2)] Let_def)
  then show ?thesis
    by (cases "row_of objective_key (uid, wid, thread) (ch_objectives s)")
      (auto simp: load_objective_contract_on_def row_of_update_where objective_key_def)
qed

lemma step_follows:
  assumes "objective_follows xs (load_objective_contract_on s uid wid thread)"
  shows "objective_follows (xs @ substance st) (load_objective_contract_on (run_objective env uid wid thread st s) uid wid thread)"
proof (cases st)
  case (PutObjective w)
  show ?thesis
  proof (cases "ow_status w \<in> {''active'', ''completed'', ''cancelled''}")
    case True
    let ?n = "\<lambda>now. new_objective uid wid thread (ow_message w) (ow_objective w) (ow_mode w) (ow_scope w) (ow_allowed w)
        (ow_completion w) (ow_status w) now"
    obtain now where rows: "ch_objectives (run_objective env uid wid thread st s) =
        upsert objective_key replace_objective (?n now) (ch_objectives s)"
      using upsert_run [OF True, of env uid wid thread "ow_message w" "ow_objective w" "ow_mode w" "ow_scope w"
          "ow_allowed w" "ow_completion w" s] unfolding PutObjective run_objective.simps by blast
    have key: "objective_key (?n now) = (uid, wid, thread)"
      by (simp add: objective_key_def new_objective_def)
    have found: "load_objective_contract_on (run_objective env uid wid thread st s) uid wid thread =
        Some (case load_objective_contract_on s uid wid thread of None \<Rightarrow> ?n now | Some old \<Rightarrow> replace_objective old (?n now))"
      by (simp add: load_objective_contract_on_def rows objective_table.row_of_upsert key)
    have sub: "substance st = [(oc_objective (?n now), oc_mode (?n now))]"
      using True by (simp add: PutObjective new_objective_def)
    show ?thesis
    proof (cases "load_objective_contract_on s uid wid thread")
      case None
      with assms have "xs = []"
        by (simp add: objective_follows_def)
      with None found sub show ?thesis
        by (simp add: objective_follows_def new_objective_def)
    next
      case (Some old)
      then have "objective_key old = objective_key (?n now)"
        unfolding key load_objective_contract_on_def by (auto dest: row_of_Some_in)
      then show ?thesis
        using replace_follows assms Some found sub by simp
    qed
  next
    case False
    with assms show ?thesis
      by (simp add: PutObjective upsert_objective_contract_def rt_fail_def)
  qed
next
  case (CloseObjective expected status)
  have "map_option (\<lambda>o'. (oc_objective o', oc_mode o', oc_revision o'))
      (load_objective_contract_on (run_objective env uid wid thread st s) uid wid thread) =
    map_option (\<lambda>o'. (oc_objective o', oc_mode o', oc_revision o')) (load_objective_contract_on s uid wid thread)"
    unfolding CloseObjective run_objective.simps by (rule close_keeps)
  then show ?thesis
    using assms by (auto simp: objective_follows_def CloseObjective split: option.splits)
qed

text \<open>
  C30: the revision of a thread's objective contract is one more than the number of times its text
  or its mode changed from one write to the next; rewriting the same objective, and closing it, leave
  the revision as it is, and the stored objective is always the last one written.
\<close>

theorem objective_revision_counts_changes:
  assumes "load_objective_contract_on s uid wid thread = None"
  shows "objective_follows (concat (map substance steps))
    (load_objective_contract_on (fold (run_objective env uid wid thread) steps s) uid wid thread)"
proof (induction steps rule: rev_induct)
  case Nil
  with assms show ?case by (simp add: objective_follows_def)
next
  case (snoc st steps)
  from step_follows [OF this, where env = env and st = st] show ?case by simp
qed

definition sample_objective :: "string \<Rightarrow> objective_step" where
  "sample_objective txt =
     PutObjective \<lparr>ow_message = ''m'', ow_objective = txt, ow_mode = Mixed, ow_scope = JNull, ow_allowed = JNull,
       ow_completion = JNull, ow_status = ''active''\<rparr>"

theorem objective_revision_counts_changes_witness:
  "\<exists>ob. load_objective_contract_on (fold (run_objective sample_env ''u'' ''w'' ''th'')
     [sample_objective ''a'', sample_objective ''a'', CloseObjective 1 ''completed'', sample_objective ''b'']
     empty_chat) ''u'' ''w'' ''th'' = Some ob \<and> oc_revision ob = 2"
proof -
  have "load_objective_contract_on empty_chat ''u'' ''w'' ''th'' = None"
    by (simp add: load_objective_contract_on_def empty_chat_def row_of_def)
  from objective_revision_counts_changes [OF this, of "[sample_objective ''a'', sample_objective ''a'',
      CloseObjective 1 ''completed'', sample_objective ''b'']" sample_env]
  show ?thesis
    by (simp add: objective_follows_def sample_objective_def split: option.splits)
qed

end
