(* ===== verification/Subagents.thy ===== *)
theory Subagents
  imports Text
begin

text \<open>
  Subagents (crates/subagents/src: types.rs, agents.rs, permissions.rs, prompt_guard.rs,
  tool_access.rs, error.rs, runner.rs): who a subagent is, what its task may do, and one call of
  the model for a task.

  The model service behind \<open>JsonRuntime\<close> and the clocks are parameters (\<open>sub_env\<close>): the reply to
  the \<open>n\<close>-th request and the \<open>n\<close>-th reading. What a run has sent, read and slept is recorded in
  \<open>sub_world\<close>. Floating-point fields are opaque tokens.
\<close>

section \<open>Types\<close>

datatype agent_id =
  PlannerAgent | MemoryAgent | ToolAgent | VisionAgent | RiskAgent | AutomationAgent | ReviewAgent

datatype allowed_action = AllowRead | AllowDraft | AllowWriteWithConfirmation | AllowApprovedAutomation

datatype agent_tier = TierChat | TierReasoning | TierWorker

datatype tool_scope = ScopeNone | ScopeReadOnly | ScopeDraftOnly | ScopeWriteWithConfirmation

record tool_definition =
  td_name :: string
  td_connector :: string
  td_action :: allowed_action
  td_description :: string

record tool_access_plan =
  tp_visible_tools :: "tool_definition list"
  tp_executable_tools :: "tool_definition list"

datatype task_complexity = Simple | Moderate | Complex

datatype delegation_decision =
  ReplyDirectly | UseDirectTool | SpawnInlineSubagent | SpawnWorkerThread

record delegation_input =
  dl_needs_tool :: bool
  dl_needs_specialist :: bool
  dl_complexity :: task_complexity
  dl_estimated_turns :: u32
  dl_large_transcript :: bool

record agent_definition =
  ad_id :: string
  ad_display_name :: string
  ad_when_to_use :: string
  ad_tier :: agent_tier
  ad_tool_scope :: tool_scope
  ad_subagents :: "string list"
  ad_max_iterations :: u32
  ad_max_result_chars :: "nat option"
  ad_timeout_seconds :: "u64 option"

record permission_envelope =
  pe_connectors :: "string list"
  pe_max_autonomy_level :: "8 word"
  pe_allowed_actions :: "allowed_action list"
  pe_requires_user_approval :: bool

record task_budgets =
  tb_timeout_seconds :: u64
  tb_max_tokens :: u32

record subagent_task =
  sa_task_id :: string
  sa_parent_task_id :: "string option"
  sa_agent_id :: agent_id
  sa_goal :: string
  sa_input :: json
  sa_contract :: string
  sa_permission_envelope :: permission_envelope
  sa_budgets :: task_budgets

datatype subagent_status = SubSucceeded | SubFailed | SubCancelled | SubTimedOut

record agent_audit =
  aa_model :: string
  aa_contract :: string
  aa_started_at :: string
  aa_finished_at :: string

record token_metrics =
  tm_prompt_tokens :: u32
  tm_generation_tokens :: u32
  tm_prompt_tps :: string
  tm_generation_tps :: string
  tm_peak_memory_gb :: string
  tm_elapsed_seconds :: string

definition zero_metrics :: token_metrics where
  "zero_metrics = \<lparr>tm_prompt_tokens = 0, tm_generation_tokens = 0, tm_prompt_tps = ''0.0'',
     tm_generation_tps = ''0.0'', tm_peak_memory_gb = ''0.0'', tm_elapsed_seconds = ''0.0''\<rparr>"

record subagent_result =
  sr_task_id :: string
  sr_agent_id :: agent_id
  sr_status :: subagent_status
  sr_output :: json
  sr_errors :: "string list"
  sr_metrics :: token_metrics
  sr_audit :: agent_audit

datatype inference_purpose =
  ChatResponse | TitleGeneration | IntentRouting | Planning | MemoryExtraction | MemoryRecall
| MemoryCompaction | Embedding | SubagentPurpose | AutomationPurpose | ArtifactGeneration
| VisionAnalysis | Evaluation | OtherPurpose

record usage_context =
  uc_call_id :: string
  uc_purpose :: inference_purpose
  uc_purpose_detail :: "string option"
  uc_user_id :: string
  uc_workspace_id :: "string option"
  uc_thread_id :: "string option"
  uc_turn_id :: "string option"
  uc_run_id :: "string option"
  uc_task_id :: "string option"
  uc_round :: "u32 option"

text \<open>\<open>gq_temperature\<close> is the number as written; \<open>gq_request_timeout_seconds\<close> before the cast to \<open>f64\<close>.\<close>

record generate_json_request =
  gq_usage :: usage_context
  gq_prompt :: string
  gq_max_tokens :: u32
  gq_temperature :: string
  gq_wait_if_busy :: bool
  gq_request_timeout_seconds :: "u64 option"
  gq_json_schema :: "json option"
  gq_required_keys :: "string list"
  gq_repair :: bool

record generate_json_response =
  gr_valid :: bool
  gr_errors :: "string list"
  gr_json :: json
  gr_raw_output :: string
  gr_repaired :: bool
  gr_metrics :: token_metrics

section \<open>Delegation and agent definitions\<close>

definition decide_delegation :: "delegation_input \<Rightarrow> delegation_decision" where
  "decide_delegation d =
     (if \<not> dl_needs_tool d \<and> \<not> dl_needs_specialist d then ReplyDirectly
      else if dl_needs_tool d \<and> \<not> dl_needs_specialist d then UseDirectTool
      else if dl_large_transcript d \<or> 5 < dl_estimated_turns d \<or> dl_complexity d = Complex
        then SpawnWorkerThread
      else SpawnInlineSubagent)"

text \<open>The map by id keeps the last definition of an id, as collecting into a map does.\<close>

definition definition_by_id :: "agent_definition list \<Rightarrow> string \<Rightarrow> agent_definition option" where
  "definition_by_id ds i = find (\<lambda>d. ad_id d = i) (rev ds)"

definition subagent_errors :: "agent_definition list \<Rightarrow> agent_definition \<Rightarrow> string \<Rightarrow> string list" where
  "subagent_errors ds d sub = (case definition_by_id ds sub of
     None \<Rightarrow> [''agent '' @ ad_id d @ '' references missing subagent '' @ sub]
   | Some target \<Rightarrow>
       (if ad_tier d = TierChat \<and> ad_tier target = TierChat
        then [''chat agent '' @ ad_id d @ '' must not delegate to chat agent '' @ ad_id target] else []) @
       (if ad_tier d = TierReasoning \<and> ad_tier target = TierReasoning
        then [''reasoning agent '' @ ad_id d @ '' must not delegate to reasoning agent '' @ ad_id target]
        else []))"

definition definition_errors :: "agent_definition list \<Rightarrow> agent_definition \<Rightarrow> string list" where
  "definition_errors ds d =
     (if is_blank (ad_id d) then [''agent id must not be empty''] else []) @
     (if is_blank (ad_when_to_use d) then [''agent '' @ ad_id d @ '' must describe when_to_use''] else []) @
     (if ad_max_iterations d = 0 then [''agent '' @ ad_id d @ '' max_iterations must be > 0''] else []) @
     (if ad_tier d = TierWorker \<and> ad_subagents d \<noteq> []
      then [''worker agent '' @ ad_id d @ '' must not list subagents'']
      else concat (List.map (subagent_errors ds d) (ad_subagents d)))"

definition validate_agent_definitions :: "agent_definition list \<Rightarrow> string list" where
  "validate_agent_definitions ds = concat (List.map (definition_errors ds) ds)"

section \<open>Permissions\<close>

fun action_as_str :: "allowed_action \<Rightarrow> string" where
  "action_as_str AllowRead = ''read''"
| "action_as_str AllowDraft = ''draft''"
| "action_as_str AllowWriteWithConfirmation = ''write_with_confirmation''"
| "action_as_str AllowApprovedAutomation = ''approved_automation''"

fun required_autonomy_level :: "allowed_action \<Rightarrow> 8 word" where
  "required_autonomy_level AllowRead = 0"
| "required_autonomy_level AllowDraft = 2"
| "required_autonomy_level AllowWriteWithConfirmation = 3"
| "required_autonomy_level AllowApprovedAutomation = 4"

definition validate_task_permissions :: "subagent_task \<Rightarrow> string list" where
  "validate_task_permissions task = (let env = sa_permission_envelope task in
     List.map (\<lambda>a. ''action '' @ action_as_str a @ '' requires autonomy level '' @
         show_nat (unat (required_autonomy_level a)) @ '', task allows '' @
         show_nat (unat (pe_max_autonomy_level env)))
       (filter (\<lambda>a. pe_max_autonomy_level env < required_autonomy_level a) (pe_allowed_actions env)))"

definition connector_is_allowed :: "subagent_task \<Rightarrow> string \<Rightarrow> bool" where
  "connector_is_allowed task connector \<longleftrightarrow>
     connector = [] \<or> connector \<in> set (pe_connectors (sa_permission_envelope task))"

definition task_allows_action :: "subagent_task \<Rightarrow> allowed_action \<Rightarrow> bool" where
  "task_allows_action task action \<longleftrightarrow>
     action \<in> set (pe_allowed_actions (sa_permission_envelope task)) \<and>
     required_autonomy_level action \<le> pe_max_autonomy_level (sa_permission_envelope task)"

fun scope_shows :: "tool_scope \<Rightarrow> allowed_action \<Rightarrow> bool" where
  "scope_shows ScopeNone a \<longleftrightarrow> False"
| "scope_shows ScopeReadOnly a \<longleftrightarrow> a = AllowRead"
| "scope_shows ScopeDraftOnly a \<longleftrightarrow> a \<in> {AllowRead, AllowDraft, AllowWriteWithConfirmation}"
| "scope_shows ScopeWriteWithConfirmation a \<longleftrightarrow> a \<in> {AllowRead, AllowDraft, AllowWriteWithConfirmation}"

fun scope_executes :: "tool_scope \<Rightarrow> allowed_action \<Rightarrow> bool" where
  "scope_executes ScopeNone a \<longleftrightarrow> False"
| "scope_executes ScopeReadOnly a \<longleftrightarrow> a = AllowRead"
| "scope_executes ScopeDraftOnly a \<longleftrightarrow> a \<in> {AllowRead, AllowDraft}"
| "scope_executes ScopeWriteWithConfirmation a \<longleftrightarrow>
     a \<in> {AllowRead, AllowDraft, AllowWriteWithConfirmation}"

definition tool_is_visible :: "agent_definition \<Rightarrow> allowed_action \<Rightarrow> bool" where
  "tool_is_visible agent action \<longleftrightarrow> scope_shows (ad_tool_scope agent) action"

definition tool_is_executable :: "agent_definition \<Rightarrow> allowed_action \<Rightarrow> bool" where
  "tool_is_executable agent action \<longleftrightarrow> scope_executes (ad_tool_scope agent) action"

definition plan_tool_access ::
    "agent_definition \<Rightarrow> subagent_task \<Rightarrow> tool_definition list \<Rightarrow> tool_access_plan" where
  "plan_tool_access agent task tools = (let
     visible = filter (\<lambda>t. connector_is_allowed task (td_connector t) \<and>
       tool_is_visible agent (td_action t)) tools in
     \<lparr>tp_visible_tools = sort_key td_name visible,
      tp_executable_tools = sort_key td_name (filter (\<lambda>t. tool_is_executable agent (td_action t) \<and>
        task_allows_action task (td_action t)) visible)\<rparr>)"

section \<open>The prompt guard\<close>

definition normalize_prompt_for_guard :: "string \<Rightarrow> string" where
  "normalize_prompt_for_guard prompt = join '' '' (split_blanks [] (List.map (\<lambda>c.
     if is_ascii_alnum c \<or> is_ascii_blank c then ascii_lower c else CHR '' '') prompt))"

definition guard_prompt :: "string \<Rightarrow> string list" where
  "guard_prompt prompt = (let n = normalize_prompt_for_guard prompt in
     (if contains ''ignore previous instructions'' n \<or> contains ''disregard previous instructions'' n \<or>
         contains ''forget previous instructions'' n \<or> contains ''you are now'' n \<or>
         contains ''developer mode'' n then [''instruction_override''] else []) @
     (if contains ''reveal the system prompt'' n \<or> contains ''show the system prompt'' n \<or>
         contains ''print the system prompt'' n \<or> contains ''developer instructions'' n
      then [''prompt_exfiltration''] else []) @
     (if contains ''api key'' n \<or> contains ''access token'' n \<or> contains ''password'' n \<or>
         contains ''secret'' n then [''secret_exfiltration''] else []))"

section \<open>Errors\<close>

datatype subagent_error =
  PermissionDenied string
| PromptBlocked string
| RuntimeError string
| TimeoutError string
| CancelledError string
| CircuitOpenError string

fun error_as_str :: "subagent_error \<Rightarrow> string" where
  "error_as_str (PermissionDenied m) = m"
| "error_as_str (PromptBlocked m) = m"
| "error_as_str (RuntimeError m) = m"
| "error_as_str (TimeoutError m) = m"
| "error_as_str (CancelledError m) = m"
| "error_as_str (CircuitOpenError m) = m"

definition is_transient_runtime_message :: "string \<Rightarrow> bool" where
  "is_transient_runtime_message m = (let l = to_ascii_lowercase m in
     contains ''status(5'' l \<or> contains ''status: 5'' l \<or> contains ''timeout'' l \<or>
     contains ''timed out'' l \<or> contains ''connection'' l \<or> contains ''dns'' l \<or>
     contains ''unavailable'' l)"

fun is_transient :: "subagent_error \<Rightarrow> bool" where
  "is_transient (TimeoutError m) \<longleftrightarrow> True"
| "is_transient (CircuitOpenError m) \<longleftrightarrow> True"
| "is_transient (RuntimeError m) \<longleftrightarrow> is_transient_runtime_message m"
| "is_transient (PermissionDenied m) \<longleftrightarrow> False"
| "is_transient (PromptBlocked m) \<longleftrightarrow> False"
| "is_transient (CancelledError m) \<longleftrightarrow> False"

definition parse_error :: "string \<Rightarrow> subagent_error" where
  "parse_error m =
     (if contains ''circuit open'' m then CircuitOpenError m
      else if contains ''timeout'' m \<or> contains ''timed out'' m then TimeoutError m
      else RuntimeError m)"

section \<open>The runner\<close>

record sub_env =
  se_reply :: "nat \<Rightarrow> generate_json_request \<Rightarrow> string + generate_json_response"
  se_system_seconds :: "nat \<Rightarrow> nat"
  se_instant :: "nat \<Rightarrow> nat"

record sub_world =
  sw_requests :: "generate_json_request list"
  sw_reads :: nat
  sw_sleeps :: "u32 list"

definition audit_timestamp :: "sub_env \<Rightarrow> sub_world \<Rightarrow> string \<times> sub_world" where
  "audit_timestamp env w =
     (''unix:'' @ show_nat (se_system_seconds env (sw_reads w)), w\<lparr>sw_reads := Suc (sw_reads w)\<rparr>)"

definition now_instant :: "sub_env \<Rightarrow> sub_world \<Rightarrow> nat \<times> sub_world" where
  "now_instant env w = (se_instant env (sw_reads w), w\<lparr>sw_reads := Suc (sw_reads w)\<rparr>)"

definition generate_json ::
    "sub_env \<Rightarrow> generate_json_request \<Rightarrow> sub_world \<Rightarrow> (string + generate_json_response) \<times> sub_world" where
  "generate_json env req w =
     (se_reply env (length (sw_requests w)) req, w\<lparr>sw_requests := sw_requests w @ [req]\<rparr>)"

fun agent_id_debug :: "agent_id \<Rightarrow> string" where
  "agent_id_debug PlannerAgent = ''planner''"
| "agent_id_debug MemoryAgent = ''memory''"
| "agent_id_debug ToolAgent = ''tool''"
| "agent_id_debug VisionAgent = ''vision''"
| "agent_id_debug RiskAgent = ''risk''"
| "agent_id_debug AutomationAgent = ''automation''"
| "agent_id_debug ReviewAgent = ''review''"

definition steered_prompt :: "subagent_task \<Rightarrow> string" where
  "steered_prompt task = (let
     prompt = (case json_field json_as_str (sa_input task) ''prompt'' of Some p \<Rightarrow> p | None \<Rightarrow> sa_goal task)
     in case json_field json_as_str (sa_input task) ''language'' of
       None \<Rightarrow> prompt
     | Some lang \<Rightarrow> if \<not> is_blank lang \<and> \<not> contains ''Reply in'' prompt
         then prompt @ [CHR 0x0A, CHR 0x0A] @ ''Reply in '' @ lang @ ''.'' else prompt)"

fun json_number_token :: "json \<Rightarrow> string option" where
  "json_number_token (JNumber t) = Some t"
| "json_number_token _ = None"

definition generate_json_request_from_task :: "subagent_task \<Rightarrow> generate_json_request" where
  "generate_json_request_from_task task = (let i = sa_input task in
     \<lparr>gq_usage =
        \<lparr>uc_call_id = ''subagent:'' @ sa_task_id task, uc_purpose = SubagentPurpose,
         uc_purpose_detail = Some (agent_id_debug (sa_agent_id task)),
         uc_user_id = (case json_field json_as_str i ''user_id'' of Some u \<Rightarrow> u | None \<Rightarrow> ''local''),
         uc_workspace_id = json_field json_as_str i ''workspace_id'',
         uc_thread_id = json_field json_as_str i ''thread_id'',
         uc_turn_id = json_field json_as_str i ''turn_id'',
         uc_run_id = json_field json_as_str i ''run_id'',
         uc_task_id = Some (sa_task_id task), uc_round = None\<rparr>,
      gq_prompt = steered_prompt task,
      gq_max_tokens = tb_max_tokens (sa_budgets task),
      gq_temperature = (case json_field json_number_token i ''temperature'' of Some t \<Rightarrow> t | None \<Rightarrow> ''0.0''),
      gq_wait_if_busy = (case json_field json_as_bool i ''wait_if_busy'' of Some b \<Rightarrow> b | None \<Rightarrow> True),
      gq_request_timeout_seconds = Some (tb_timeout_seconds (sa_budgets task)),
      gq_json_schema = json_get i ''schema'',
      gq_required_keys = (case json_field json_as_array i ''required_keys'' of
         Some ks \<Rightarrow> List.map_filter json_as_str ks | None \<Rightarrow> []),
      gq_repair = (case json_field json_as_bool i ''repair'' of Some b \<Rightarrow> b | None \<Rightarrow> True)\<rparr>)"

definition task_cancelled :: "subagent_task \<Rightarrow> bool" where
  "task_cancelled task \<longleftrightarrow> json_field json_as_bool (sa_input task) ''cancelled'' = Some True"

definition status_result ::
    "sub_env \<Rightarrow> string \<Rightarrow> subagent_task \<Rightarrow> subagent_status \<Rightarrow> subagent_error list \<Rightarrow> string \<Rightarrow> sub_world
     \<Rightarrow> subagent_result \<times> sub_world" where
  "status_result env model task status errs started w = (case audit_timestamp env w of (finished, w') \<Rightarrow>
     (\<lparr>sr_task_id = sa_task_id task, sr_agent_id = sa_agent_id task, sr_status = status,
       sr_output = JNull, sr_errors = List.map error_as_str errs, sr_metrics = zero_metrics,
       sr_audit = \<lparr>aa_model = model, aa_contract = sa_contract task, aa_started_at = started,
         aa_finished_at = finished\<rparr>\<rparr>, w'))"

definition reply_result ::
    "sub_env \<Rightarrow> string \<Rightarrow> subagent_task \<Rightarrow> generate_json_response \<Rightarrow> string \<Rightarrow> sub_world
     \<Rightarrow> subagent_result \<times> sub_world" where
  "reply_result env model task reply started w = (case audit_timestamp env w of (finished, w') \<Rightarrow>
     (\<lparr>sr_task_id = sa_task_id task, sr_agent_id = sa_agent_id task,
       sr_status = (if gr_valid reply then SubSucceeded else SubFailed),
       sr_output = gr_json reply, sr_errors = (if gr_valid reply then [] else gr_errors reply),
       sr_metrics = gr_metrics reply,
       sr_audit = \<lparr>aa_model = model, aa_contract = sa_contract task, aa_started_at = started,
         aa_finished_at = finished\<rparr>\<rparr>, w'))"

definition run_generate_json ::
    "sub_env \<Rightarrow> string \<Rightarrow> subagent_task \<Rightarrow> sub_world \<Rightarrow> subagent_result \<times> sub_world" where
  "run_generate_json env model task w = (case audit_timestamp env w of (started, w) \<Rightarrow>
     if task_cancelled task
       then status_result env model task SubCancelled
         [CancelledError ''task cancelled before runtime call''] started w
     else if tb_timeout_seconds (sa_budgets task) = 0
       then status_result env model task SubTimedOut
         [TimeoutError ''task timeout budget expired before runtime call''] started w
     else if validate_task_permissions task \<noteq> []
       then status_result env model task SubFailed
         (List.map PermissionDenied (validate_task_permissions task)) started w
     else let request = generate_json_request_from_task task; reasons = guard_prompt (gq_prompt request) in
       if reasons \<noteq> []
         then status_result env model task SubFailed
           [PromptBlocked (''prompt injection blocked: '' @ join '', '' reasons)] started w
       else case generate_json env request w of
           (Inr reply, w) \<Rightarrow> reply_result env model task reply started w
         | (Inl e, w) \<Rightarrow> status_result env model task SubFailed [RuntimeError e] started w)"

section \<open>What the runner guarantees\<close>

text \<open>A task may reach the model: it is live, has a budget, asks for no more than its level, and
  its prompt passes the guard.\<close>

definition may_call_model :: "subagent_task \<Rightarrow> bool" where
  "may_call_model task \<longleftrightarrow> \<not> task_cancelled task \<and> tb_timeout_seconds (sa_budgets task) \<noteq> 0 \<and>
     (\<forall>a \<in> set (pe_allowed_actions (sa_permission_envelope task)).
        required_autonomy_level a \<le> pe_max_autonomy_level (sa_permission_envelope task)) \<and>
     guard_prompt (steered_prompt task) = []"

lemma validate_permissions_Nil:
  "validate_task_permissions task = [] \<longleftrightarrow>
     (\<forall>a \<in> set (pe_allowed_actions (sa_permission_envelope task)).
        required_autonomy_level a \<le> pe_max_autonomy_level (sa_permission_envelope task))"
  by (auto simp: validate_task_permissions_def Let_def filter_empty_conv not_less)

lemma request_prompt [simp]: "gq_prompt (generate_json_request_from_task task) = steered_prompt task"
  by (simp add: generate_json_request_from_task_def Let_def)

lemma status_result_frame:
  assumes "status_result env model task status errs started w = (r, w')"
  shows "sr_task_id r = sa_task_id task" "sr_status r = status" "sw_requests w' = sw_requests w"
    "sw_sleeps w' = sw_sleeps w" "sr_errors r = List.map error_as_str errs"
  using assms by (auto simp: status_result_def audit_timestamp_def)

lemma reply_result_frame:
  assumes "reply_result env model task reply started w = (r, w')"
  shows "sr_task_id r = sa_task_id task" "sw_requests w' = sw_requests w" "sw_sleeps w' = sw_sleeps w"
    "sr_status r = (if gr_valid reply then SubSucceeded else SubFailed)"
  using assms by (auto simp: reply_result_def audit_timestamp_def)

lemma audit_timestamp_frame:
  "audit_timestamp env w = (t, w') \<Longrightarrow> sw_requests w' = sw_requests w \<and> sw_sleeps w' = sw_sleeps w"
  by (auto simp: audit_timestamp_def)

text \<open>One run sends the request of the task or none, and none for a task that may not call.\<close>

lemma run_generate_json_requests:
  assumes "run_generate_json env model task w = (r, w')"
  shows "sr_task_id r = sa_task_id task" "sw_sleeps w' = sw_sleeps w"
    "sw_requests w' = sw_requests w @
       (if may_call_model task then [generate_json_request_from_task task] else [])"
    "\<not> may_call_model task \<Longrightarrow> sr_status r \<noteq> SubSucceeded"
  using assms
  by (auto simp: run_generate_json_def Let_def generate_json_def may_call_model_def
      validate_permissions_Nil [symmetric] status_result_frame reply_result_frame
      dest!: audit_timestamp_frame split: prod.splits sum.splits if_splits
      dest: status_result_frame reply_result_frame)

end
