(* ===== verification/Workflows.thy ===== *)
theory Workflows
  imports Subagents
begin

text \<open>
  Workflows of subagents (crates/subagents/src: graph.rs, resilience.rs, orchestrator.rs,
  workflow.rs, audit.rs): the graph of tasks with their states, the circuit breaker and the
  retries of one task, the sequential rounds of the orchestrator and the audit store.

  The graph and the task table are ordered maps. The breaker's map is a partial function; its
  clock is the monotone one of \<open>sub_env\<close>, in nanoseconds. The counters are 32-bit words.
\<close>

section \<open>The execution graph\<close>

datatype node_state = NodePending | NodeRunning | NodeSucceeded | NodeFailed | NodeCancelled

record task_node =
  nd_task_id :: string
  nd_agent_id :: agent_id
  nd_depends_on :: "string list"
  nd_state :: node_state

type_synonym graph = "task_node list"

definition new_node :: "string \<Rightarrow> agent_id \<Rightarrow> string list \<Rightarrow> task_node" where
  "new_node i agent deps =
     \<lparr>nd_task_id = i, nd_agent_id = agent, nd_depends_on = deps, nd_state = NodePending\<rparr>"

abbreviation graph_node :: "graph \<Rightarrow> string \<Rightarrow> task_node option" where
  "graph_node \<equiv> btree_get nd_task_id"

definition add_node :: "graph \<Rightarrow> task_node \<Rightarrow> string + graph" where
  "add_node g n =
     (if graph_node g (nd_task_id n) \<noteq> None
      then Inl (''task '' @ nd_task_id n @ '' already exists'')
      else case find (\<lambda>d. graph_node g d = None) (nd_depends_on n) of
        Some d \<Rightarrow> Inl (''task '' @ nd_task_id n @ '' depends on missing task '' @ d)
      | None \<Rightarrow> Inr (btree_insert nd_task_id n g))"

definition set_state :: "graph \<Rightarrow> string \<Rightarrow> node_state \<Rightarrow> string + graph" where
  "set_state g i st =
     (if graph_node g i = None then Inl (''task '' @ i @ '' does not exist'')
      else Inr (List.map (\<lambda>n. if nd_task_id n = i then n\<lparr>nd_state := st\<rparr> else n) g))"

definition node_state_of :: "graph \<Rightarrow> string \<Rightarrow> node_state option" where
  "node_state_of g i = map_option nd_state (graph_node g i)"

definition node_ready :: "graph \<Rightarrow> task_node \<Rightarrow> bool" where
  "node_ready g n \<longleftrightarrow> nd_state n = NodePending \<and>
     list_all (\<lambda>d. node_state_of g d = Some NodeSucceeded) (nd_depends_on n)"

definition ready_task_ids :: "graph \<Rightarrow> string list" where
  "ready_task_ids g = List.map nd_task_id (filter (node_ready g) g)"

definition node_blocked :: "graph \<Rightarrow> task_node \<Rightarrow> bool" where
  "node_blocked g n \<longleftrightarrow> nd_state n = NodePending \<and>
     list_ex (\<lambda>d. node_state_of g d = Some NodeFailed \<or> node_state_of g d = Some NodeCancelled)
       (nd_depends_on n)"

definition blocked_task_ids :: "graph \<Rightarrow> string list" where
  "blocked_task_ids g = List.map nd_task_id (filter (node_blocked g) g)"

section \<open>The circuit breaker\<close>

datatype circuit_state = CircuitClosed | CircuitOpen | CircuitHalfOpen

record provider_state =
  ps_state :: circuit_state
  ps_consecutive_failures :: u32
  ps_last_failure_time :: "nat option"

definition default_provider_state :: provider_state where
  "default_provider_state =
     \<lparr>ps_state = CircuitClosed, ps_consecutive_failures = 0, ps_last_failure_time = None\<rparr>"

record circuit_breaker =
  cb_states :: "string \<Rightarrow> provider_state option"
  cb_failure_threshold :: u32
  cb_cooldown_seconds :: u64

definition new_breaker :: "u32 \<Rightarrow> u64 \<Rightarrow> circuit_breaker" where
  "new_breaker threshold cooldown =
     \<lparr>cb_states = Map.empty, cb_failure_threshold = threshold, cb_cooldown_seconds = cooldown\<rparr>"

definition default_breaker :: circuit_breaker where
  "default_breaker = new_breaker 5 60"

definition provider_entry :: "circuit_breaker \<Rightarrow> string \<Rightarrow> provider_state" where
  "provider_entry cb p = (case cb_states cb p of Some e \<Rightarrow> e | None \<Rightarrow> default_provider_state)"

definition put_entry :: "circuit_breaker \<Rightarrow> string \<Rightarrow> provider_state \<Rightarrow> circuit_breaker" where
  "put_entry cb p e = cb\<lparr>cb_states := (cb_states cb)(p \<mapsto> e)\<rparr>"

definition allow_request ::
    "sub_env \<Rightarrow> string \<Rightarrow> circuit_breaker \<Rightarrow> sub_world \<Rightarrow> bool \<times> circuit_breaker \<times> sub_world" where
  "allow_request env p cb w = (let e = provider_entry cb p; kept = put_entry cb p e in
     case ps_state e of
       CircuitClosed \<Rightarrow> (True, kept, w)
     | CircuitHalfOpen \<Rightarrow> (True, kept, w)
     | CircuitOpen \<Rightarrow> (case ps_last_failure_time e of
         None \<Rightarrow> (False, kept, w)
       | Some failed \<Rightarrow> (case now_instant env w of (now, w') \<Rightarrow>
           if unat (cb_cooldown_seconds cb) * 1000000000 \<le> now - failed
           then (True, put_entry cb p (e\<lparr>ps_state := CircuitHalfOpen\<rparr>), w')
           else (False, kept, w'))))"

definition record_success :: "string \<Rightarrow> circuit_breaker \<Rightarrow> circuit_breaker" where
  "record_success p cb = put_entry cb p
     ((provider_entry cb p)\<lparr>ps_state := CircuitClosed, ps_consecutive_failures := 0\<rparr>)"

definition record_failure ::
    "sub_env \<Rightarrow> string \<Rightarrow> circuit_breaker \<Rightarrow> sub_world \<Rightarrow> circuit_breaker \<times> sub_world" where
  "record_failure env p cb w = (case now_instant env w of (now, w') \<Rightarrow>
     let e = (provider_entry cb p)\<lparr>ps_consecutive_failures := ps_consecutive_failures (provider_entry cb p) + 1,
           ps_last_failure_time := Some now\<rparr> in
     (put_entry cb p (case ps_state e of
        CircuitHalfOpen \<Rightarrow> e\<lparr>ps_state := CircuitOpen\<rparr>
      | CircuitClosed \<Rightarrow> if cb_failure_threshold cb \<le> ps_consecutive_failures e
          then e\<lparr>ps_state := CircuitOpen\<rparr> else e
      | CircuitOpen \<Rightarrow> e), w'))"

definition breaker_state :: "circuit_breaker \<Rightarrow> string \<Rightarrow> circuit_state" where
  "breaker_state cb p = (case cb_states cb p of Some e \<Rightarrow> ps_state e | None \<Rightarrow> CircuitClosed)"

definition consecutive_failures :: "circuit_breaker \<Rightarrow> string \<Rightarrow> u32" where
  "consecutive_failures cb p =
     (case cb_states cb p of Some e \<Rightarrow> ps_consecutive_failures e | None \<Rightarrow> 0)"

section \<open>One task with retries\<close>

text \<open>Of \<open>RetryConfig\<close> only \<open>max_retries\<close> decides anything; the back-off is slept.\<close>

definition last_or_run ::
    "sub_env \<Rightarrow> string \<Rightarrow> subagent_task \<Rightarrow> nat \<Rightarrow> subagent_result option \<Rightarrow> sub_world
     \<Rightarrow> subagent_result \<times> sub_world" where
  "last_or_run env model task max_attempts prev w = (case prev of
     Some r \<Rightarrow> (r\<lparr>sr_errors := sr_errors r @
       [''retry budget exhausted after '' @ show_nat max_attempts @ '' attempts'']\<rparr>, w)
   | None \<Rightarrow> run_generate_json env model task w)"

text \<open>\<open>remaining\<close> attempts of \<open>max_attempts\<close> are left.\<close>

primrec resilience_loop ::
    "sub_env \<Rightarrow> string \<Rightarrow> subagent_task \<Rightarrow> nat \<Rightarrow> nat \<Rightarrow> subagent_result option
     \<Rightarrow> circuit_breaker \<Rightarrow> sub_world \<Rightarrow> subagent_result \<times> circuit_breaker \<times> sub_world" where
  "resilience_loop env model task max_attempts 0 prev cb w =
     (case last_or_run env model task max_attempts prev w of (r, w) \<Rightarrow> (r, cb, w))"
| "resilience_loop env model task max_attempts (Suc remaining) prev cb w =
     (case allow_request env model cb w of
        (False, cb, w) \<Rightarrow> (case run_generate_json env model task w of
           (r, w) \<Rightarrow> (r\<lparr>sr_status := SubFailed,
             sr_errors := [''circuit open for provider '' @ model]\<rparr>, cb, w))
      | (True, cb, w) \<Rightarrow> (case run_generate_json env model task w of (r, w) \<Rightarrow>
           if sr_status r = SubSucceeded then (r, record_success model cb, w)
           else case record_failure env model cb w of (cb, w) \<Rightarrow>
             if list_ex (\<lambda>e. is_transient (parse_error e)) (sr_errors r)
             then resilience_loop env model task max_attempts remaining (Some r) cb
               (if 0 < remaining then w\<lparr>sw_sleeps := sw_sleeps w @
                  [of_nat (max_attempts - Suc remaining)]\<rparr> else w)
             else (r, cb, w)))"

definition execute_task_resilience ::
    "sub_env \<Rightarrow> string \<Rightarrow> u32 \<Rightarrow> subagent_task \<Rightarrow> circuit_breaker \<Rightarrow> sub_world
     \<Rightarrow> subagent_result \<times> circuit_breaker \<times> sub_world" where
  "execute_task_resilience env model max_retries task cb w = (let max_attempts = unat (max_retries + 1) in
     resilience_loop env model task max_attempts max_attempts None cb w)"

section \<open>The orchestrator\<close>

record orchestrator =
  or_model :: string
  or_graph :: graph
  or_tasks :: "subagent_task list"
  or_max_retries :: u32
  or_circuit :: circuit_breaker

definition new_orchestrator :: "string \<Rightarrow> orchestrator" where
  "new_orchestrator model = \<lparr>or_model = model, or_graph = [], or_tasks = [],
     or_max_retries = 3, or_circuit = default_breaker\<rparr>"

definition add_task :: "orchestrator \<Rightarrow> subagent_task \<Rightarrow> string list \<Rightarrow> string + orchestrator" where
  "add_task oc task deps =
     (case add_node (or_graph oc) (new_node (sa_task_id task) (sa_agent_id task) deps) of
        Inl e \<Rightarrow> Inl e
      | Inr g \<Rightarrow> Inr (oc\<lparr>or_graph := g, or_tasks := btree_insert sa_task_id task (or_tasks oc)\<rparr>))"

text \<open>The specs before a refused one stay added.\<close>

fun add_workflow ::
    "orchestrator \<Rightarrow> (subagent_task \<times> string list) list \<Rightarrow> (string + unit) \<times> orchestrator" where
  "add_workflow oc [] = (Inr (), oc)"
| "add_workflow oc ((task, deps) # specs) =
     (case add_task oc task deps of Inl e \<Rightarrow> (Inl e, oc) | Inr oc' \<Rightarrow> add_workflow oc' specs)"

fun state_of_status :: "subagent_status \<Rightarrow> node_state" where
  "state_of_status SubSucceeded = NodeSucceeded"
| "state_of_status SubCancelled = NodeCancelled"
| "state_of_status SubFailed = NodeFailed"
| "state_of_status SubTimedOut = NodeFailed"

text \<open>\<open>let _ = graph.set_state(..)\<close>: a refusal leaves the graph as it is.\<close>

definition put_state :: "orchestrator \<Rightarrow> string \<Rightarrow> node_state \<Rightarrow> orchestrator" where
  "put_state oc i st = (case set_state (or_graph oc) i st of
     Inl _ \<Rightarrow> oc | Inr g \<Rightarrow> oc\<lparr>or_graph := g\<rparr>)"

definition run_ready_task ::
    "sub_env \<Rightarrow> string \<Rightarrow> orchestrator \<Rightarrow> sub_world
     \<Rightarrow> subagent_result list \<times> orchestrator \<times> sub_world" where
  "run_ready_task env i oc w = (case set_state (or_graph oc) i NodeRunning of
     Inl _ \<Rightarrow> ([], oc, w)
   | Inr g \<Rightarrow> (let oc = oc\<lparr>or_graph := g\<rparr> in
       case btree_get sa_task_id (or_tasks oc) i of
         None \<Rightarrow> ([], put_state oc i NodeFailed, w)
       | Some task \<Rightarrow>
           (case execute_task_resilience env (or_model oc) (or_max_retries oc) task (or_circuit oc) w of
              (r, cb, w) \<Rightarrow>
                ([r], put_state (oc\<lparr>or_circuit := cb\<rparr>) i (state_of_status (sr_status r)), w))))"

fun run_ready_tasks ::
    "sub_env \<Rightarrow> string list \<Rightarrow> orchestrator \<Rightarrow> sub_world
     \<Rightarrow> subagent_result list \<times> orchestrator \<times> sub_world" where
  "run_ready_tasks env [] oc w = ([], oc, w)"
| "run_ready_tasks env (i # ids) oc w = (case run_ready_task env i oc w of (rs, oc, w) \<Rightarrow>
     case run_ready_tasks env ids oc w of (rs', oc, w) \<Rightarrow> (rs @ rs', oc, w))"

definition run_ready_once ::
    "sub_env \<Rightarrow> orchestrator \<Rightarrow> sub_world \<Rightarrow> subagent_result list \<times> orchestrator \<times> sub_world" where
  "run_ready_once env oc w = run_ready_tasks env (ready_task_ids (or_graph oc)) oc w"

subsection \<open>A round uses up pending tasks\<close>

definition pending_count :: "graph \<Rightarrow> nat" where
  "pending_count g = length (filter (\<lambda>n. nd_state n = NodePending) g)"

lemma set_state_pending:
  assumes "set_state g i st = Inr g'" "st \<noteq> NodePending"
  shows "pending_count g' \<le> pending_count g"
proof -
  have "length (filter (\<lambda>n. nd_state n = NodePending)
      (List.map (\<lambda>n. if nd_task_id n = i then n\<lparr>nd_state := st\<rparr> else n) xs)) \<le>
    length (filter (\<lambda>n. nd_state n = NodePending) xs)" for xs
    using assms(2) by (induction xs) auto
  then show ?thesis
    using assms(1) by (auto simp: set_state_def pending_count_def split: if_splits)
qed

lemma set_state_pending_less:
  assumes "set_state g i st = Inr g'" "st \<noteq> NodePending" "n \<in> set g" "nd_task_id n = i"
    "nd_state n = NodePending"
  shows "pending_count g' < pending_count g"
proof -
  let ?up = "\<lambda>n. if nd_task_id n = i then n\<lparr>nd_state := st\<rparr> else n"
  obtain xs ys where g: "g = xs @ n # ys"
    using assms(3) split_list by fast
  have le: "length (filter (\<lambda>n. nd_state n = NodePending) (List.map ?up zs)) \<le>
      length (filter (\<lambda>n. nd_state n = NodePending) zs)" for zs
    using assms(2) by (induction zs) auto
  show ?thesis
    using le [of xs] le [of ys] assms
    by (auto simp: set_state_def pending_count_def g split: if_splits)
qed

lemma put_state_pending:
  "st \<noteq> NodePending \<Longrightarrow> pending_count (or_graph (put_state oc i st)) \<le> pending_count (or_graph oc)"
  by (auto simp: put_state_def dest: set_state_pending split: sum.split)

lemma state_of_status_not_pending [simp]: "state_of_status st \<noteq> NodePending"
  by (cases st) auto

lemma run_ready_task_pending:
  assumes "run_ready_task env i oc w = (rs, oc', w')"
  shows "pending_count (or_graph oc') \<le> pending_count (or_graph oc)"
proof (cases "set_state (or_graph oc) i NodeRunning")
  case (Inl e)
  with assms show ?thesis by (simp add: run_ready_task_def)
next
  case (Inr g)
  then have "pending_count g \<le> pending_count (or_graph oc)"
    by (rule set_state_pending) simp
  moreover have "pending_count (or_graph oc') \<le> pending_count g"
    using assms Inr put_state_pending
    by (auto simp: run_ready_task_def Let_def split: option.splits prod.splits)
      (metis orchestrator.select_convs(2) orchestrator.surjective orchestrator.update_convs(2,5)
        put_state_pending node_state.distinct(5) state_of_status_not_pending)+
  ultimately show ?thesis by simp
qed

lemma run_ready_task_pending_less:
  assumes "run_ready_task env i oc w = (rs, oc', w')" "n \<in> set (or_graph oc)" "nd_task_id n = i"
    "nd_state n = NodePending"
  shows "pending_count (or_graph oc') < pending_count (or_graph oc)"
proof (cases "set_state (or_graph oc) i NodeRunning")
  case (Inl e)
  then have "graph_node (or_graph oc) i = None"
    by (simp add: set_state_def split: if_splits)
  with assms(2,3) show ?thesis by (auto simp: btree_get_None)
next
  case (Inr g)
  have "pending_count (or_graph (put_state oc' i st)) \<le> pending_count g"
    if "st \<noteq> NodePending" "or_graph oc' = g" for st oc'
    using put_state_pending [of st oc' i] that by simp
  then have "pending_count (or_graph oc') \<le> pending_count g"
    using assms(1) Inr
    by (auto simp: run_ready_task_def Let_def split: option.splits prod.splits)
  with set_state_pending_less [OF Inr _ assms(2-)] show ?thesis by simp
qed

lemma run_ready_tasks_pending:
  "run_ready_tasks env ids oc w = (rs, oc', w') \<Longrightarrow>
     pending_count (or_graph oc') \<le> pending_count (or_graph oc)"
proof (induction ids arbitrary: oc w rs)
  case (Cons i ids)
  obtain r1 oc1 w1 where 1: "run_ready_task env i oc w = (r1, oc1, w1)"
    by (metis prod_cases3)
  obtain r2 where 2: "run_ready_tasks env ids oc1 w1 = (r2, oc', w')"
    using Cons.prems 1 by (auto split: prod.splits)
  show ?case
    using run_ready_task_pending [OF 1] Cons.IH [OF 2] by simp
qed simp

lemma run_ready_once_progress:
  assumes "run_ready_once env oc w = (rs, oc', w')" "rs \<noteq> []"
  shows "pending_count (or_graph oc') < pending_count (or_graph oc)"
proof (cases "ready_task_ids (or_graph oc)")
  case Nil
  with assms show ?thesis by (simp add: run_ready_once_def)
next
  case (Cons i ids)
  then have "i \<in> set (ready_task_ids (or_graph oc))"
    by simp
  then obtain n where n: "n \<in> set (or_graph oc)" "nd_task_id n = i" "nd_state n = NodePending"
    by (auto simp: ready_task_ids_def node_ready_def)
  obtain r1 oc1 w1 where 1: "run_ready_task env i oc w = (r1, oc1, w1)"
    by (metis prod_cases3)
  obtain r2 where 2: "run_ready_tasks env ids oc1 w1 = (r2, oc', w')"
    using assms(1) 1 Cons by (auto simp: run_ready_once_def split: prod.splits)
  show ?thesis
    using run_ready_task_pending_less [OF 1 n] run_ready_tasks_pending [OF 2] by simp
qed

subsection \<open>Rounds until nothing is ready\<close>

function run_until_blocked ::
    "sub_env \<Rightarrow> orchestrator \<Rightarrow> sub_world \<Rightarrow> subagent_result list \<times> orchestrator \<times> sub_world" where
  "run_until_blocked env oc w = (case run_ready_once env oc w of (rs, oc, w) \<Rightarrow>
     if rs = [] then ([], oc, w)
     else case run_until_blocked env oc w of (later, oc, w) \<Rightarrow> (rs @ later, oc, w))"
  by pat_completeness auto
termination
  by (relation "measure (\<lambda>(env, oc, w). pending_count (or_graph oc))")
    (auto dest!: run_ready_once_progress [OF sym])

declare run_until_blocked.simps [simp del]

section \<open>The audit store\<close>

fun agent_id_name :: "agent_id \<Rightarrow> string" where
  "agent_id_name PlannerAgent = ''PlannerAgent''"
| "agent_id_name MemoryAgent = ''MemoryAgent''"
| "agent_id_name ToolAgent = ''ToolAgent''"
| "agent_id_name VisionAgent = ''VisionAgent''"
| "agent_id_name RiskAgent = ''RiskAgent''"
| "agent_id_name AutomationAgent = ''AutomationAgent''"
| "agent_id_name ReviewAgent = ''ReviewAgent''"

definition agent_id_from_name :: "string \<Rightarrow> string + agent_id" where
  "agent_id_from_name s =
     (if s = ''PlannerAgent'' then Inr PlannerAgent
      else if s = ''MemoryAgent'' then Inr MemoryAgent
      else if s = ''ToolAgent'' then Inr ToolAgent
      else if s = ''VisionAgent'' then Inr VisionAgent
      else if s = ''RiskAgent'' then Inr RiskAgent
      else if s = ''AutomationAgent'' then Inr AutomationAgent
      else if s = ''ReviewAgent'' then Inr ReviewAgent
      else Inl (''unknown agent id '' @ s))"

fun status_name :: "subagent_status \<Rightarrow> string" where
  "status_name SubSucceeded = ''succeeded''"
| "status_name SubFailed = ''failed''"
| "status_name SubCancelled = ''cancelled''"
| "status_name SubTimedOut = ''timed_out''"

definition status_from_name :: "string \<Rightarrow> string + subagent_status" where
  "status_from_name s =
     (if s = ''succeeded'' then Inr SubSucceeded
      else if s = ''failed'' then Inr SubFailed
      else if s = ''cancelled'' then Inr SubCancelled
      else if s = ''timed_out'' then Inr SubTimedOut
      else Inl (''unknown subagent status '' @ s))"

datatype risk_level = RiskLow | RiskMedium | RiskHigh | RiskCritical

fun risk_level_name :: "risk_level \<Rightarrow> string" where
  "risk_level_name RiskLow = ''low''"
| "risk_level_name RiskMedium = ''medium''"
| "risk_level_name RiskHigh = ''high''"
| "risk_level_name RiskCritical = ''critical''"

definition risk_level_from_name :: "string \<Rightarrow> string + risk_level" where
  "risk_level_from_name s =
     (if s = ''low'' then Inr RiskLow
      else if s = ''medium'' then Inr RiskMedium
      else if s = ''high'' then Inr RiskHigh
      else if s = ''critical'' then Inr RiskCritical
      else Inl (''unknown risk level '' @ s))"

datatype finding_severity = FindingInfo | FindingWarning | FindingError

record finding =
  fi_severity :: finding_severity
  fi_message :: string

record subagent_review =
  sv_task_id :: string
  sv_reviewer_agent_id :: agent_id
  sv_approved :: bool
  sv_risk_level :: risk_level
  sv_requires_user_approval :: bool
  sv_findings :: "finding list"

datatype workflow_run_status = RunRunning | RunSucceeded | RunFailed | RunBlocked | RunCancelled

fun workflow_run_status_name :: "workflow_run_status \<Rightarrow> string" where
  "workflow_run_status_name RunRunning = ''running''"
| "workflow_run_status_name RunSucceeded = ''succeeded''"
| "workflow_run_status_name RunFailed = ''failed''"
| "workflow_run_status_name RunBlocked = ''blocked''"
| "workflow_run_status_name RunCancelled = ''cancelled''"

definition workflow_run_status_from_name :: "string \<Rightarrow> string + workflow_run_status" where
  "workflow_run_status_from_name s =
     (if s = ''running'' then Inr RunRunning
      else if s = ''succeeded'' then Inr RunSucceeded
      else if s = ''failed'' then Inr RunFailed
      else if s = ''blocked'' then Inr RunBlocked
      else if s = ''cancelled'' then Inr RunCancelled
      else Inl (''unknown workflow run status '' @ s))"

interpretation agent_names: strict_token_codec agent_id_name agent_id_from_name Inr
proof
  show "agent_id_from_name (agent_id_name x) = Inr x" for x
    by (cases x) (simp_all add: agent_id_from_name_def)
qed (auto simp: agent_id_from_name_def split: if_splits)

interpretation status_names: strict_token_codec status_name status_from_name Inr
proof
  show "status_from_name (status_name x) = Inr x" for x
    by (cases x) (simp_all add: status_from_name_def)
qed (auto simp: status_from_name_def split: if_splits)

interpretation risk_names: strict_token_codec risk_level_name risk_level_from_name Inr
proof
  show "risk_level_from_name (risk_level_name x) = Inr x" for x
    by (cases x) (simp_all add: risk_level_from_name_def)
qed (auto simp: risk_level_from_name_def split: if_splits)

interpretation run_status_names:
  strict_token_codec workflow_run_status_name workflow_run_status_from_name Inr
proof
  show "workflow_run_status_from_name (workflow_run_status_name x) = Inr x" for x
    by (cases x) (simp_all add: workflow_run_status_from_name_def)
qed (auto simp: workflow_run_status_from_name_def split: if_splits)

text \<open>
  The rows hold the names; the JSON columns their values. \<open>created_at\<close> is not read. SQLite's
  \<open>current_timestamp\<close> is an argument \<open>now\<close>.
\<close>

record audit_row =
  ar_workflow_run_id :: "string option"
  ar_task_id :: string
  ar_agent_id :: string
  ar_status :: string
  ar_output :: json
  ar_errors :: "string list"
  ar_metrics :: token_metrics
  ar_audit :: agent_audit

record run_row =
  rr_run_id :: string
  rr_workflow_name :: string
  rr_status :: string
  rr_task_count :: u32
  rr_started_at :: string
  rr_finished_at :: "string option"

record review_row =
  rv_task_id :: string
  rv_reviewer_agent_id :: string
  rv_approved :: bool
  rv_risk_level :: string
  rv_requires_user_approval :: bool
  rv_findings :: "finding list"

record audit_store =
  as_results :: "audit_row list"
  as_reviews :: "review_row list"
  as_runs :: "run_row list"

definition empty_audit :: audit_store where
  "empty_audit = \<lparr>as_results = [], as_reviews = [], as_runs = []\<rparr>"

record workflow_run_summary =
  ws_run_id :: string
  ws_workflow_name :: string
  ws_status :: workflow_run_status
  ws_task_count :: u32
  ws_recorded_result_count :: nat
  ws_started_at :: string
  ws_finished_at :: "string option"

definition record_result_with_workflow_run ::
    "string option \<Rightarrow> subagent_result \<Rightarrow> audit_store \<Rightarrow> audit_store" where
  "record_result_with_workflow_run run r a = a\<lparr>as_results := as_results a @
     [\<lparr>ar_workflow_run_id = run, ar_task_id = sr_task_id r, ar_agent_id = agent_id_name (sr_agent_id r),
       ar_status = status_name (sr_status r), ar_output = sr_output r, ar_errors = sr_errors r,
       ar_metrics = sr_metrics r, ar_audit = sr_audit r\<rparr>]\<rparr>"

definition record_review :: "subagent_review \<Rightarrow> audit_store \<Rightarrow> audit_store" where
  "record_review v a = a\<lparr>as_reviews := as_reviews a @
     [\<lparr>rv_task_id = sv_task_id v, rv_reviewer_agent_id = agent_id_name (sv_reviewer_agent_id v),
       rv_approved = sv_approved v, rv_risk_level = risk_level_name (sv_risk_level v),
       rv_requires_user_approval = sv_requires_user_approval v, rv_findings = sv_findings v\<rparr>]\<rparr>"

definition start_workflow_run ::
    "string \<Rightarrow> string \<Rightarrow> string \<Rightarrow> u32 \<Rightarrow> audit_store \<Rightarrow> audit_store" where
  "start_workflow_run now run name count a = a\<lparr>as_runs :=
     filter (\<lambda>r. rr_run_id r \<noteq> run) (as_runs a) @
     [\<lparr>rr_run_id = run, rr_workflow_name = name, rr_status = workflow_run_status_name RunRunning,
       rr_task_count = count, rr_started_at = now, rr_finished_at = None\<rparr>]\<rparr>"

definition finish_workflow_run ::
    "string \<Rightarrow> string \<Rightarrow> workflow_run_status \<Rightarrow> audit_store \<Rightarrow> audit_store" where
  "finish_workflow_run now run st a = a\<lparr>as_runs := List.map (\<lambda>r. if rr_run_id r = run
     then r\<lparr>rr_status := workflow_run_status_name st, rr_finished_at := Some now\<rparr> else r) (as_runs a)\<rparr>"

definition result_count_for_run :: "audit_store \<Rightarrow> string \<Rightarrow> nat" where
  "result_count_for_run a run = length (filter (\<lambda>r. ar_workflow_run_id r = Some run) (as_results a))"

definition workflow_run_status_of :: "audit_store \<Rightarrow> string \<Rightarrow> string + workflow_run_summary option" where
  "workflow_run_status_of a run = (case find (\<lambda>r. rr_run_id r = run) (as_runs a) of
     None \<Rightarrow> Inr None
   | Some r \<Rightarrow> res_bind (workflow_run_status_from_name (rr_status r)) (\<lambda>st. Inr (Some
       \<lparr>ws_run_id = rr_run_id r, ws_workflow_name = rr_workflow_name r, ws_status = st,
        ws_task_count = rr_task_count r, ws_recorded_result_count = result_count_for_run a run,
        ws_started_at = rr_started_at r, ws_finished_at = rr_finished_at r\<rparr>)))"

definition result_from_audit_row :: "audit_row \<Rightarrow> string + subagent_result" where
  "result_from_audit_row row = res_bind (agent_id_from_name (ar_agent_id row)) (\<lambda>agent.
     res_bind (status_from_name (ar_status row)) (\<lambda>st. Inr
       \<lparr>sr_task_id = ar_task_id row, sr_agent_id = agent, sr_status = st, sr_output = ar_output row,
        sr_errors = ar_errors row, sr_metrics = ar_metrics row, sr_audit = ar_audit row\<rparr>))"

text \<open>\<open>ORDER BY id DESC LIMIT 1\<close>: the last row of the task.\<close>

definition latest_result :: "audit_store \<Rightarrow> string \<Rightarrow> string + subagent_result option" where
  "latest_result a task = (case find (\<lambda>r. ar_task_id r = task) (rev (as_results a)) of
     None \<Rightarrow> Inr None
   | Some row \<Rightarrow> res_bind (result_from_audit_row row) (\<lambda>r. Inr (Some r)))"

definition result_status :: "audit_store \<Rightarrow> string \<Rightarrow> string option" where
  "result_status a task = map_option ar_status (find (\<lambda>r. ar_task_id r = task) (rev (as_results a)))"

definition review_from_audit_row :: "review_row \<Rightarrow> string + subagent_review" where
  "review_from_audit_row row = res_bind (agent_id_from_name (rv_reviewer_agent_id row)) (\<lambda>agent.
     res_bind (risk_level_from_name (rv_risk_level row)) (\<lambda>risk. Inr
       \<lparr>sv_task_id = rv_task_id row, sv_reviewer_agent_id = agent, sv_approved = rv_approved row,
        sv_risk_level = risk, sv_requires_user_approval = rv_requires_user_approval row,
        sv_findings = rv_findings row\<rparr>))"

definition latest_review :: "audit_store \<Rightarrow> string \<Rightarrow> string + subagent_review option" where
  "latest_review a task = (case find (\<lambda>r. rv_task_id r = task) (rev (as_reviews a)) of
     None \<Rightarrow> Inr None
   | Some row \<Rightarrow> res_bind (review_from_audit_row row) (\<lambda>v. Inr (Some v)))"

fun read_rows :: "audit_row list \<Rightarrow> string + subagent_result list" where
  "read_rows [] = Inr []"
| "read_rows (row # rows) = res_bind (result_from_audit_row row) (\<lambda>r.
     res_bind (read_rows rows) (\<lambda>rs. Inr (r # rs)))"

definition recent_results_by_status ::
    "audit_store \<Rightarrow> subagent_status \<Rightarrow> u32 \<Rightarrow> string + subagent_result list" where
  "recent_results_by_status a st limit =
     read_rows (take (unat limit) (filter (\<lambda>r. ar_status r = status_name st) (rev (as_results a))))"

text \<open>What is recorded last about a task is what is read back.\<close>

lemma latest_result_recorded:
  "latest_result (record_result_with_workflow_run run r a) (sr_task_id r) = Inr (Some r)"
  by (simp add: latest_result_def record_result_with_workflow_run_def result_from_audit_row_def
      agent_names.parse_as_str status_names.parse_as_str)

lemma latest_review_recorded: "latest_review (record_review v a) (sv_task_id v) = Inr (Some v)"
  by (simp add: latest_review_def record_review_def review_from_audit_row_def
      agent_names.parse_as_str risk_names.parse_as_str)

section \<open>A recorded workflow\<close>

definition workflow_outcome :: "subagent_result list \<Rightarrow> graph \<Rightarrow> workflow_run_status" where
  "workflow_outcome rs g =
     (if list_ex (\<lambda>r. sr_status r = SubCancelled) rs then RunCancelled
      else if list_ex (\<lambda>r. sr_status r = SubFailed \<or> sr_status r = SubTimedOut) rs then RunFailed
      else if blocked_task_ids g \<noteq> [] then RunBlocked
      else RunSucceeded)"

text \<open>The rounds of \<open>run_workflow_recording\<close>: each batch is recorded before the next one starts.\<close>

function workflow_rounds ::
    "sub_env \<Rightarrow> string option \<Rightarrow> orchestrator \<Rightarrow> sub_world \<Rightarrow> audit_store
     \<Rightarrow> subagent_result list \<times> orchestrator \<times> sub_world \<times> audit_store" where
  "workflow_rounds env run oc w a = (case run_ready_once env oc w of (rs, oc, w) \<Rightarrow>
     if rs = [] then ([], oc, w, a)
     else case workflow_rounds env run oc w (fold (record_result_with_workflow_run run) rs a) of
       (later, oc, w, a) \<Rightarrow> (rs @ later, oc, w, a))"
  by pat_completeness auto
termination
  by (relation "measure (\<lambda>(env, run, oc, w, a). pending_count (or_graph oc))")
    (auto dest!: run_ready_once_progress [OF sym])

declare workflow_rounds.simps [simp del]

definition run_until_blocked_recording ::
    "sub_env \<Rightarrow> orchestrator \<Rightarrow> sub_world \<Rightarrow> audit_store
     \<Rightarrow> subagent_result list \<times> orchestrator \<times> sub_world \<times> audit_store" where
  "run_until_blocked_recording env oc w a = workflow_rounds env None oc w a"

definition run_workflow_recording ::
    "(nat \<Rightarrow> string) \<Rightarrow> sub_env \<Rightarrow> string \<Rightarrow> string \<Rightarrow> orchestrator \<Rightarrow> sub_world \<Rightarrow> audit_store
     \<Rightarrow> subagent_result list \<times> orchestrator \<times> sub_world \<times> audit_store" where
  "run_workflow_recording now env run name oc w a =
     (case workflow_rounds env (Some run) oc w
         (start_workflow_run (now 0) run name (of_nat (length (or_tasks oc))) a) of
        (rs, oc, w, a) \<Rightarrow>
          (rs, oc, w, finish_workflow_run (now 1) run (workflow_outcome rs (or_graph oc)) a))"

end
