(* ===== verification/WorkflowTheorems.thy ===== *)
theory WorkflowTheorems
  imports Workflows
begin

text \<open>
  What the orchestrator of subagents promises: a task runs once, after the tasks it depends on
  have succeeded; the rounds end with nothing ready; the recorded status of a workflow tells the
  truth; the model is only called for tasks that may call it.
\<close>

section \<open>States of a graph\<close>

definition graph_set :: "graph \<Rightarrow> string \<Rightarrow> node_state \<Rightarrow> graph" where
  "graph_set g i st = List.map (\<lambda>n. if nd_task_id n = i then n\<lparr>nd_state := st\<rparr> else n) g"

lemma set_state_graph: "set_state g i st =
    (if graph_node g i = None then Inl (''task '' @ i @ '' does not exist'') else Inr (graph_set g i st))"
  by (simp add: set_state_def graph_set_def)

lemma graph_set_twice [simp]: "graph_set (graph_set g i a) i b = graph_set g i b"
  by (simp add: graph_set_def)

lemma graph_set_ids [simp]: "List.map nd_task_id (graph_set g i st) = List.map nd_task_id g"
  by (simp add: graph_set_def)

lemma graph_set_id_set [simp]: "nd_task_id ` set (graph_set g i st) = nd_task_id ` set g"
  by (metis graph_set_ids list.set_map)

lemma graph_node_set: "graph_node (graph_set g i st) j =
    map_option (\<lambda>n. if j = i then n\<lparr>nd_state := st\<rparr> else n) (graph_node g j)"
  by (induction g) (auto simp: graph_set_def)

definition deps_of :: "graph \<Rightarrow> string \<Rightarrow> string list" where
  "deps_of g i = (case graph_node g i of Some n \<Rightarrow> nd_depends_on n | None \<Rightarrow> [])"

lemma deps_of_set [simp]: "deps_of (graph_set g i st) j = deps_of g j"
  by (auto simp: deps_of_def graph_node_set split: option.split)

lemma node_state_set: "node_state_of (graph_set g i st) j =
    (if j = i \<and> graph_node g j \<noteq> None then Some st else node_state_of g j)"
  by (auto simp: node_state_of_def graph_node_set map_option_case split: option.split)

lemma ready_iff:
  assumes "distinct (List.map nd_task_id g)"
  shows "i \<in> set (ready_task_ids g) \<longleftrightarrow> node_state_of g i = Some NodePending \<and>
    (\<forall>d \<in> set (deps_of g i). node_state_of g d = Some NodeSucceeded)"
proof
  assume "i \<in> set (ready_task_ids g)"
  then obtain n where n: "n \<in> set g" "nd_task_id n = i" "node_ready g n"
    by (auto simp: ready_task_ids_def)
  then have "graph_node g i = Some n"
    using btree_get_in [OF assms] by blast
  with n show "node_state_of g i = Some NodePending \<and>
      (\<forall>d \<in> set (deps_of g i). node_state_of g d = Some NodeSucceeded)"
    by (auto simp: node_ready_def deps_of_def node_state_of_def list_all_iff)
next
  assume *: "node_state_of g i = Some NodePending \<and>
      (\<forall>d \<in> set (deps_of g i). node_state_of g d = Some NodeSucceeded)"
  then obtain n where n: "graph_node g i = Some n" "nd_state n = NodePending"
    by (auto simp: node_state_of_def)
  with * have "node_ready g n"
    by (auto simp: node_ready_def deps_of_def list_all_iff)
  with n btree_getD [of nd_task_id g i n] show "i \<in> set (ready_task_ids g)"
    by (auto simp: ready_task_ids_def)
qed

lemma distinct_ready: "distinct (List.map nd_task_id g) \<Longrightarrow> distinct (ready_task_ids g)"
  by (simp add: ready_task_ids_def distinct_map_filter)

lemma ready_in_graph: "set (ready_task_ids g) \<subseteq> nd_task_id ` set g"
  by (auto simp: ready_task_ids_def)

section \<open>What one round does\<close>

text \<open>An orchestrator as \<open>add_task\<close> builds it: distinct nodes, each with its task.\<close>

definition wf_orchestrator :: "orchestrator \<Rightarrow> bool" where
  "wf_orchestrator oc \<longleftrightarrow> distinct (List.map nd_task_id (or_graph oc)) \<and>
     (\<forall>i \<in> nd_task_id ` set (or_graph oc). \<exists>t. btree_get sa_task_id (or_tasks oc) i = Some t)"

lemma resilience_id:
  assumes "\<forall>r. prev = Some r \<longrightarrow> sr_task_id r = sa_task_id task"
    and "resilience_loop env model task m k prev cb w = (r, cb', w')"
  shows "sr_task_id r = sa_task_id task"
  using assms
proof (induction k arbitrary: prev cb w)
  case 0
  then show ?case
    by (auto simp: last_or_run_def dest: run_generate_json_requests(1) split: option.splits prod.splits)
next
  case (Suc k)
  obtain ok cb1 w1 where allow: "allow_request env model cb w = (ok, cb1, w1)"
    by (metis prod_cases3)
  obtain r1 w2 where run: "run_generate_json env model task w1 = (r1, w2)"
    by fastforce
  obtain cb3 w3 where failed: "record_failure env model cb1 w2 = (cb3, w3)"
    by fastforce
  note id = run_generate_json_requests(1) [OF run]
  show ?case
    using Suc.prems(2) allow run failed id
    by (auto split: bool.splits if_splits intro: Suc.IH [rotated])
qed

lemma run_ready_task_eq:
  assumes "wf_orchestrator oc" "i \<in> nd_task_id ` set (or_graph oc)"
    and "run_ready_task env i oc w = (rs, oc', w')"
  shows "\<exists>r cb. rs = [r] \<and> sr_task_id r = i \<and>
    oc' = oc\<lparr>or_circuit := cb, or_graph := graph_set (or_graph oc) i (state_of_status (sr_status r))\<rparr>"
proof -
  obtain n where n: "graph_node (or_graph oc) i = Some n"
    using assms(2) btree_get_None by (metis not_Some_eq)
  obtain t where t: "btree_get sa_task_id (or_tasks oc) i = Some t"
    using assms(1,2) by (auto simp: wf_orchestrator_def)
  obtain r cb v where run: "execute_task_resilience env (or_model oc) (or_max_retries oc) t
      (or_circuit oc) w = (r, cb, v)"
    by (metis prod_cases3)
  have "sr_task_id r = i"
    using run btree_getD [OF t] by (auto simp: execute_task_resilience_def Let_def dest: resilience_id [rotated])
  then show ?thesis
    using assms(3) n t run
    by (auto simp: run_ready_task_def set_state_graph put_state_def graph_node_set split: prod.splits)
qed

text \<open>The effect of results on a graph.\<close>

definition apply_results :: "subagent_result list \<Rightarrow> graph \<Rightarrow> graph" where
  "apply_results rs g = fold (\<lambda>r g. graph_set g (sr_task_id r) (state_of_status (sr_status r))) rs g"

lemma apply_results_simps [simp]:
  "apply_results [] g = g"
  "apply_results (r # rs) g = apply_results rs (graph_set g (sr_task_id r) (state_of_status (sr_status r)))"
  "apply_results (rs @ qs) g = apply_results qs (apply_results rs g)"
  by (simp_all add: apply_results_def)

lemma apply_results_ids [simp]: "List.map nd_task_id (apply_results rs g) = List.map nd_task_id g"
  by (induction rs arbitrary: g) auto

lemma apply_results_id_set [simp]: "nd_task_id ` set (apply_results rs g) = nd_task_id ` set g"
  by (metis apply_results_ids list.set_map)

lemma apply_results_deps [simp]: "deps_of (apply_results rs g) i = deps_of g i"
  by (induction rs arbitrary: g) auto

lemma graph_node_None_set [simp]:
  "graph_node (graph_set g i st) j = None \<longleftrightarrow> graph_node g j = None"
  by (simp add: btree_get_None)

lemma node_state_None [simp]: "graph_node g i = None \<Longrightarrow> node_state_of g i = None"
  by (simp add: node_state_of_def)

lemma find_key_None: "find (\<lambda>r. key r = i) rs = None \<longleftrightarrow> i \<notin> key ` set rs"
  by (auto simp: find_None_iff)

lemma apply_results_state:
  assumes "distinct (List.map sr_task_id rs)"
  shows "node_state_of (apply_results rs g) i =
    (case find (\<lambda>r. sr_task_id r = i) rs of
       Some r \<Rightarrow> if graph_node g i = None then None else Some (state_of_status (sr_status r))
     | None \<Rightarrow> node_state_of g i)"
  using assms
proof (induction rs arbitrary: g)
  case (Cons r rs)
  then have "sr_task_id r = i \<Longrightarrow> find (\<lambda>r. sr_task_id r = i) rs = None"
    by (auto simp: find_key_None)
  with Cons show ?case
    by (auto simp: node_state_set split: option.split)
qed simp

lemma wf_step:
  "wf_orchestrator oc \<Longrightarrow>
     wf_orchestrator (oc\<lparr>or_circuit := cb, or_graph := graph_set (or_graph oc) i st\<rparr>)"
  by (simp add: wf_orchestrator_def)

lemma run_ready_tasks_eq:
  assumes "wf_orchestrator oc" "set ids \<subseteq> nd_task_id ` set (or_graph oc)"
    and "run_ready_tasks env ids oc w = (rs, oc', w')"
  shows "List.map sr_task_id rs = ids \<and> wf_orchestrator oc' \<and>
    or_graph oc' = apply_results rs (or_graph oc) \<and> or_tasks oc' = or_tasks oc"
  using assms
proof (induction ids arbitrary: oc w rs)
  case (Cons i ids)
  obtain r1 oc1 w1 where 1: "run_ready_task env i oc w = (r1, oc1, w1)"
    by (metis prod_cases3)
  obtain r2 where 2: "run_ready_tasks env ids oc1 w1 = (r2, oc', w')" "rs = r1 @ r2"
    using Cons.prems(3) 1 by (auto split: prod.splits)
  obtain r cb where r: "r1 = [r]" "sr_task_id r = i" "oc1 = oc\<lparr>or_circuit := cb,
      or_graph := graph_set (or_graph oc) i (state_of_status (sr_status r))\<rparr>"
    using run_ready_task_eq [OF Cons.prems(1) _ 1] Cons.prems(2) by auto
  have "wf_orchestrator oc1" "set ids \<subseteq> nd_task_id ` set (or_graph oc1)"
    using wf_step [OF Cons.prems(1)] Cons.prems(2) r by auto
  from Cons.IH [OF this 2(1)] show ?case
    by (simp add: 2(2) r)
qed simp

lemma run_ready_once_eq:
  assumes "wf_orchestrator oc" "run_ready_once env oc w = (rs, oc', w')"
  shows "List.map sr_task_id rs = ready_task_ids (or_graph oc) \<and> wf_orchestrator oc' \<and>
    or_graph oc' = apply_results rs (or_graph oc) \<and> or_tasks oc' = or_tasks oc"
  using run_ready_tasks_eq [OF assms(1) ready_in_graph] assms(2) by (simp add: run_ready_once_def)

section \<open>Rounds\<close>

text \<open>
  What the results so far say about a graph whose tasks were all pending: each ran once, each
  after its dependencies had succeeded.
\<close>

definition in_order :: "graph \<Rightarrow> subagent_result list \<Rightarrow> bool" where
  "in_order g rs \<longleftrightarrow> (\<forall>xs r ys. rs = xs @ r # ys \<longrightarrow>
     (\<forall>d \<in> set (deps_of g (sr_task_id r)). \<exists>q \<in> set xs. sr_task_id q = d \<and> sr_status q = SubSucceeded))"

definition rounds_inv :: "graph \<Rightarrow> subagent_result list \<Rightarrow> graph \<Rightarrow> bool" where
  "rounds_inv g0 rs g \<longleftrightarrow> g = apply_results rs g0 \<and> distinct (List.map sr_task_id rs) \<and>
     sr_task_id ` set rs \<subseteq> nd_task_id ` set g0 \<and> in_order g0 rs"

definition all_pending :: "graph \<Rightarrow> bool" where
  "all_pending g \<longleftrightarrow> (\<forall>n \<in> set g. nd_state n = NodePending)"

lemma in_order_append:
  assumes "in_order g rs"
    and "\<forall>b \<in> set bs. \<forall>d \<in> set (deps_of g (sr_task_id b)).
      \<exists>q \<in> set rs. sr_task_id q = d \<and> sr_status q = SubSucceeded"
  shows "in_order g (rs @ bs)"
  unfolding in_order_def
proof (intro allI impI)
  fix xs r ys
  assume "rs @ bs = xs @ r # ys"
  then consider us where "rs = xs @ r # us" | us where "xs = rs @ us" "r \<in> set bs"
    by (auto simp: append_eq_append_conv2 append_eq_Cons_conv Cons_eq_append_conv)
  then show "\<forall>d \<in> set (deps_of g (sr_task_id r)). \<exists>q \<in> set xs. sr_task_id q = d \<and> sr_status q = SubSucceeded"
  proof cases
    case 1
    with assms(1) show ?thesis by (auto simp: in_order_def)
  next
    case 2
    with assms(2) show ?thesis by auto
  qed
qed

lemma state_of_status_Succeeded [simp]: "state_of_status st = NodeSucceeded \<longleftrightarrow> st = SubSucceeded"
  by (cases st) auto

lemma all_pending_state: "all_pending g \<Longrightarrow> node_state_of g i \<in> {None, Some NodePending}"
  by (cases "graph_node g i") (auto simp: all_pending_def node_state_of_def dest!: btree_getD)

lemma find_result: "find (\<lambda>r. sr_task_id r = i) rs = Some r \<Longrightarrow> r \<in> set rs \<and> sr_task_id r = i"
  by (auto simp: find_Some_iff)

lemma rounds_inv_step:
  assumes "all_pending g0" "distinct (List.map nd_task_id g0)" "rounds_inv g0 rs g"
    and "List.map sr_task_id bs = ready_task_ids g"
  shows "rounds_inv g0 (rs @ bs) (apply_results bs g)"
proof -
  have g: "g = apply_results rs g0" and dist: "distinct (List.map sr_task_id rs)"
    using assms(3) by (auto simp: rounds_inv_def)
  have dg: "distinct (List.map nd_task_id g)"
    using assms(2) by (simp add: g)
  note state = apply_results_state [OF dist, of g0, folded g]
  have ready: "node_state_of g i = Some NodePending \<and>
      (\<forall>d \<in> set (deps_of g0 i). node_state_of g d = Some NodeSucceeded)"
    if "i \<in> sr_task_id ` set bs" for i
  proof -
    have "i \<in> set (ready_task_ids g)"
      using that assms(4) by (metis list.set_map)
    then show ?thesis
      using ready_iff [OF dg] by (simp add: g)
  qed
  have fresh: "i \<notin> sr_task_id ` set rs" if "i \<in> sr_task_id ` set bs" for i
  proof
    assume "i \<in> sr_task_id ` set rs"
    then obtain r where "find (\<lambda>r. sr_task_id r = i) rs = Some r"
      by (metis find_key_None not_None_eq)
    then show False
      using ready [OF that] state [of i] by (auto split: if_splits)
  qed
  have succ: "\<exists>q \<in> set rs. sr_task_id q = d \<and> sr_status q = SubSucceeded"
    if "node_state_of g d = Some NodeSucceeded" for d
    using that state [of d] all_pending_state [OF assms(1), of d]
    by (auto dest!: find_result split: option.splits if_splits)
  have "in_order g0 (rs @ bs)"
    using assms(3) ready succ by (intro in_order_append) (auto simp: rounds_inv_def)
  moreover have "distinct (List.map sr_task_id bs)"
    using distinct_ready [OF dg] assms(4) by simp
  then have "distinct (List.map sr_task_id (rs @ bs))"
    using dist fresh by auto
  moreover have "sr_task_id ` set bs \<subseteq> nd_task_id ` set g0"
    using ready_in_graph [of g] assms(4) by (metis apply_results_id_set g list.set_map)
  ultimately show ?thesis
    using assms(3) by (auto simp: rounds_inv_def)
qed

lemma run_until_blocked_inv:
  assumes "wf_orchestrator oc" "all_pending g0" "distinct (List.map nd_task_id g0)"
    and "rounds_inv g0 rs0 (or_graph oc)" "run_until_blocked env oc w = (rs, oc', w')"
  shows "rounds_inv g0 (rs0 @ rs) (or_graph oc') \<and> ready_task_ids (or_graph oc') = [] \<and>
    wf_orchestrator oc' \<and> or_tasks oc' = or_tasks oc"
  using assms(1,4,5)
proof (induction env oc w arbitrary: rs0 rs rule: run_until_blocked.induct)
  case (1 env oc w)
  obtain bs oc1 w1 where once: "run_ready_once env oc w = (bs, oc1, w1)"
    by (metis prod_cases3)
  note eq = run_ready_once_eq [OF 1(2) once]
  show ?case
  proof (cases "bs = []")
    case True
    then show ?thesis
      using 1(3,4) once eq by (auto simp: run_until_blocked.simps [of env oc w])
  next
    case False
    obtain later where later: "run_until_blocked env oc1 w1 = (later, oc', w')" "rs = bs @ later"
      using 1(4) once False by (auto simp: run_until_blocked.simps [of env oc w] split: prod.splits)
    have "rounds_inv g0 (rs0 @ bs) (or_graph oc1)"
      using rounds_inv_step [OF assms(2,3) 1(3)] eq by simp
    from 1(1) [OF once [symmetric] refl False _ this later(1)] show ?thesis
      using eq later(2) by simp
  qed
qed

section \<open>A workflow as it was added\<close>

type_synonym task_spec = "subagent_task \<times> string list"

abbreviation spec_id :: "task_spec \<Rightarrow> string" where
  "spec_id s \<equiv> sa_task_id (fst s)"

definition built_from :: "task_spec list \<Rightarrow> orchestrator \<Rightarrow> bool" where
  "built_from specs oc \<longleftrightarrow> wf_orchestrator oc \<and> all_pending (or_graph oc) \<and>
     nd_task_id ` set (or_graph oc) = spec_id ` set specs \<and> distinct (List.map spec_id specs) \<and>
     (\<forall>xs s ys. specs = xs @ s # ys \<longrightarrow>
        deps_of (or_graph oc) (spec_id s) = snd s \<and> set (snd s) \<subseteq> spec_id ` set xs)"

lemma built_fromD:
  "\<lbrakk>built_from specs oc; specs = xs @ s # ys\<rbrakk> \<Longrightarrow>
     deps_of (or_graph oc) (spec_id s) = snd s \<and> set (snd s) \<subseteq> spec_id ` set xs"
  unfolding built_from_def by blast

lemma add_task_ok:
  assumes "add_task oc task deps = Inr oc'"
  shows "graph_node (or_graph oc) (sa_task_id task) = None"
    "set deps \<subseteq> nd_task_id ` set (or_graph oc)"
    "oc' = oc\<lparr>or_graph := btree_insert nd_task_id (new_node (sa_task_id task) (sa_agent_id task) deps)
       (or_graph oc), or_tasks := btree_insert sa_task_id task (or_tasks oc)\<rparr>"
  using assms
  by (auto simp: add_task_def add_node_def new_node_def find_None_iff btree_get_None
      split: sum.splits option.splits if_splits)

lemma built_from_add:
  assumes "built_from specs oc" "add_task oc task deps = Inr oc'"
  shows "built_from (specs @ [(task, deps)]) oc'"
proof -
  note ok = add_task_ok [OF assms(2)]
  let ?n = "new_node (sa_task_id task) (sa_agent_id task) deps"
  have new: "sa_task_id task \<notin> spec_id ` set specs"
    using ok(1) assms(1) by (simp add: btree_get_None built_from_def)
  have deps: "deps_of (or_graph oc') j = (if j = sa_task_id task then deps else deps_of (or_graph oc) j)" for j
    by (simp add: ok(3) deps_of_def btree_get_insert new_node_def)
  have wf: "wf_orchestrator oc'"
    using assms(1)
    by (auto simp: built_from_def wf_orchestrator_def ok(3) distinct_btree_insert set_btree_insert
        btree_get_insert new_node_def)
  have pend: "all_pending (or_graph oc')"
    using assms(1) by (auto simp: built_from_def all_pending_def ok(3) set_btree_insert new_node_def)
  have "{y \<in> set (or_graph oc). nd_task_id y \<noteq> sa_task_id task} = set (or_graph oc)"
    using ok(1) by (force simp: btree_get_None)
  then have ids: "nd_task_id ` set (or_graph oc') = spec_id ` set (specs @ [(task, deps)])"
    using assms(1) by (simp add: built_from_def ok(3) set_btree_insert new_node_def)
  have "deps_of (or_graph oc') (spec_id s) = snd s \<and> set (snd s) \<subseteq> spec_id ` set xs"
    if *: "specs @ [(task, deps)] = xs @ s # ys" for xs s ys
  proof (cases ys rule: rev_cases)
    case Nil
    with * ok(2) assms(1) show ?thesis by (auto simp: deps built_from_def)
  next
    case (snoc zs z)
    with * have specs: "specs = xs @ s # zs" by simp
    then have "spec_id s \<noteq> sa_task_id task"
      using new by auto
    with built_fromD [OF assms(1) specs] show ?thesis
      by (simp add: deps)
  qed
  then show ?thesis
    using wf pend ids new assms(1) by (simp add: built_from_def)
qed

lemma built_from_workflow:
  assumes "add_workflow oc specs = (Inr (), oc')" "built_from pre oc"
  shows "built_from (pre @ specs) oc'"
  using assms
proof (induction oc specs arbitrary: pre rule: add_workflow.induct)
  case (2 oc task deps specs)
  then obtain oc1 where 1: "add_task oc task deps = Inr oc1" "add_workflow oc1 specs = (Inr (), oc')"
    by (auto split: sum.splits)
  show ?case
    using "2.IH" [OF 1 built_from_add [OF "2.prems"(2) 1(1)]] by simp
qed simp

lemma built_from_empty:
  assumes "or_graph oc = []" "or_tasks oc = []" "add_workflow oc specs = (Inr (), oc')"
  shows "built_from specs oc'"
proof -
  have "built_from [] oc"
    using assms(1,2) by (simp add: built_from_def wf_orchestrator_def all_pending_def)
  from built_from_workflow [OF assms(3) this] show ?thesis by simp
qed

text \<open>Running it.\<close>

lemma workflow_run:
  assumes "built_from specs oc" "run_until_blocked env oc w = (rs, oc', w')"
  shows "rounds_inv (or_graph oc) rs (or_graph oc')" "ready_task_ids (or_graph oc') = []"
proof -
  have "rounds_inv (or_graph oc) [] (or_graph oc)"
    by (simp add: rounds_inv_def in_order_def)
  then show "rounds_inv (or_graph oc) rs (or_graph oc')" "ready_task_ids (or_graph oc') = []"
    using run_until_blocked_inv [OF _ _ _ _ assms(2), of "or_graph oc" "[]"] assms(1)
    by (auto simp: built_from_def wf_orchestrator_def)
qed

lemma workflow_state:
  assumes "built_from specs oc" "run_until_blocked env oc w = (rs, oc', w')" "s \<in> set specs"
  shows "node_state_of (or_graph oc') (spec_id s) =
    Some (case find (\<lambda>r. sr_task_id r = spec_id s) rs of
            Some r \<Rightarrow> state_of_status (sr_status r) | None \<Rightarrow> NodePending)"
proof -
  have in_graph: "spec_id s \<in> nd_task_id ` set (or_graph oc)"
    using assms(1,3) by (auto simp: built_from_def)
  then have "graph_node (or_graph oc) (spec_id s) \<noteq> None"
    by (simp add: btree_get_None)
  moreover from this have "node_state_of (or_graph oc) (spec_id s) = Some NodePending"
    using all_pending_state [of "or_graph oc" "spec_id s"] assms(1)
    by (auto simp: built_from_def node_state_of_def)
  ultimately show ?thesis
    using workflow_run(1) [OF assms(1,2)]
    by (auto simp: rounds_inv_def apply_results_state split: option.split)
qed

text \<open>When nothing has failed, nothing is left: the dependencies of a task were added before it.\<close>

lemma workflow_all_succeeded:
  assumes "built_from specs oc" "run_until_blocked env oc w = (rs, oc', w')"
    and "\<forall>r \<in> set rs. sr_status r = SubSucceeded" "specs = xs @ ys" "s \<in> set xs"
  shows "node_state_of (or_graph oc') (spec_id s) = Some NodeSucceeded"
  using assms(4,5)
proof (induction xs arbitrary: ys s rule: rev_induct)
  case (snoc x xs)
  have before: "node_state_of (or_graph oc') (spec_id s) = Some NodeSucceeded" if "s \<in> set xs" for s
    using snoc.IH [of "x # ys" s] snoc.prems(1) that by simp
  have x: "x \<in> set specs" "deps_of (or_graph oc) (spec_id x) = snd x" "set (snd x) \<subseteq> spec_id ` set xs"
    using built_fromD [OF assms(1), of xs x ys] snoc.prems(1) by auto
  have inv: "or_graph oc' = apply_results rs (or_graph oc)"
    using workflow_run(1) [OF assms(1,2)] by (simp add: rounds_inv_def)
  have dist: "distinct (List.map nd_task_id (or_graph oc'))"
    using assms(1) by (simp add: inv built_from_def wf_orchestrator_def)
  have "spec_id x \<notin> set (ready_task_ids (or_graph oc'))"
    using workflow_run(2) [OF assms(1,2)] by simp
  moreover have "\<forall>d \<in> set (deps_of (or_graph oc') (spec_id x)).
      node_state_of (or_graph oc') d = Some NodeSucceeded"
    using x(2,3) before by (auto simp: inv)
  ultimately have "node_state_of (or_graph oc') (spec_id x) \<noteq> Some NodePending"
    using ready_iff [OF dist] by blast
  then have "node_state_of (or_graph oc') (spec_id x) = Some NodeSucceeded"
    using workflow_state [OF assms(1,2) x(1)] assms(3)
    by (auto dest: find_result split: option.splits)
  with snoc.prems(2) before show ?case
    by (cases "s = x") auto
qed simp

section \<open>Requests to the model\<close>

definition requests_for :: "subagent_task set \<Rightarrow> nat \<Rightarrow> sub_world \<Rightarrow> sub_world \<Rightarrow> bool" where
  "requests_for ts n w w' \<longleftrightarrow> (\<exists>qs. sw_requests w' = sw_requests w @ qs \<and> length qs \<le> n \<and>
     (\<forall>q \<in> set qs. \<exists>t \<in> ts. may_call_model t \<and> q = generate_json_request_from_task t))"

lemma requests_for_none: "sw_requests w' = sw_requests w \<Longrightarrow> requests_for ts n w w'"
  by (simp add: requests_for_def)

lemma requests_for_trans:
  assumes "requests_for ts m u v" "requests_for ts' n v w"
  shows "requests_for (ts \<union> ts') (m + n) u w"
proof -
  obtain ps qs where "sw_requests v = sw_requests u @ ps" "length ps \<le> m"
      "\<forall>q \<in> set ps. \<exists>t \<in> ts. may_call_model t \<and> q = generate_json_request_from_task t"
      "sw_requests w = sw_requests v @ qs" "length qs \<le> n"
      "\<forall>q \<in> set qs. \<exists>t \<in> ts'. may_call_model t \<and> q = generate_json_request_from_task t"
    using assms by (auto simp: requests_for_def)
  then show ?thesis
    by (intro requests_for_def [THEN iffD2] exI [of _ "ps @ qs"]) auto
qed

lemma requests_for_mono: "\<lbrakk>requests_for ts m u v; ts \<subseteq> ts'; m \<le> n\<rbrakk> \<Longrightarrow> requests_for ts' n u v"
  unfolding requests_for_def by (meson order_trans subsetD)

lemma run_requests:
  "run_generate_json env model task w = (r, w') \<Longrightarrow> requests_for {task} 1 w w'"
  using run_generate_json_requests(3) [of env model task w r w'] by (auto simp: requests_for_def)

lemma allow_request_requests:
  "allow_request env model cb w = (ok, cb', w') \<Longrightarrow> sw_requests w' = sw_requests w"
  by (auto simp: allow_request_def Let_def now_instant_def
      split: circuit_state.splits option.splits if_splits)

lemma record_failure_requests:
  "record_failure env model cb w = (cb', w') \<Longrightarrow> sw_requests w' = sw_requests w"
  by (auto simp: record_failure_def now_instant_def Let_def)

lemma resilience_requests:
  assumes "resilience_loop env model task m k prev cb w = (r, cb', w')"
  shows "requests_for {task} (if prev = None then max 1 k else k) w w'"
  using assms
proof (induction k arbitrary: prev cb w)
  case 0
  then show ?case
    by (auto simp: last_or_run_def requests_for_none dest: run_requests split: option.splits prod.splits)
next
  case (Suc k)
  obtain ok cb1 w1 where allow: "allow_request env model cb w = (ok, cb1, w1)"
    by (metis prod_cases3)
  obtain r1 w2 where run: "run_generate_json env model task w1 = (r1, w2)"
    by fastforce
  obtain cb3 w3 where failed: "record_failure env model cb1 w2 = (cb3, w3)"
    by fastforce
  have one: "requests_for {task} 1 w w2"
    using run_requests [OF run] allow_request_requests [OF allow] by (simp add: requests_for_def)
  show ?case
  proof (cases "ok \<and> sr_status r1 \<noteq> SubSucceeded \<and> list_ex (\<lambda>e. is_transient (parse_error e)) (sr_errors r1)")
    case False
    with Suc.prems allow run failed have "sw_requests w' = sw_requests w2"
      by (auto dest!: record_failure_requests split: bool.splits if_splits)
    with one have "requests_for {task} 1 w w'"
      by (simp add: requests_for_def)
    then show ?thesis
      by (rule requests_for_mono) auto
  next
    case True
    define v where "v = (if 0 < k then w3\<lparr>sw_sleeps := sw_sleeps w3 @ [of_nat (m - Suc k)]\<rparr> else w3)"
    have "resilience_loop env model task m k (Some r1) cb3 v = (r, cb', w')"
      using Suc.prems allow run failed True by (auto simp: v_def)
    from Suc.IH [OF this] have "requests_for {task} k v w'" by simp
    moreover have "sw_requests v = sw_requests w2"
      using record_failure_requests [OF failed] by (simp add: v_def)
    ultimately have "requests_for {task} k w2 w'"
      by (simp add: requests_for_def)
    from requests_for_trans [OF one this] show ?thesis
      by (rule requests_for_mono) auto
  qed
qed

lemma run_ready_task_requests:
  assumes "run_ready_task env i oc w = (rs, oc', w')"
  shows "requests_for (set (or_tasks oc)) (length rs * max 1 (unat (or_max_retries oc + 1))) w w' \<and>
    or_tasks oc' = or_tasks oc \<and> or_max_retries oc' = or_max_retries oc"
  using assms
  by (auto simp: run_ready_task_def put_state_def execute_task_resilience_def Let_def requests_for_none
      dest!: btree_getD resilience_requests intro: requests_for_mono
      split: sum.splits option.splits prod.splits)

lemma run_ready_tasks_requests:
  assumes "run_ready_tasks env ids oc w = (rs, oc', w')"
  shows "requests_for (set (or_tasks oc)) (length rs * max 1 (unat (or_max_retries oc + 1))) w w' \<and>
    or_tasks oc' = or_tasks oc \<and> or_max_retries oc' = or_max_retries oc"
  using assms
proof (induction ids arbitrary: oc w rs)
  case Nil
  then show ?case by (simp add: requests_for_none)
next
  case (Cons i ids)
  obtain r1 oc1 w1 where 1: "run_ready_task env i oc w = (r1, oc1, w1)"
    by (metis prod_cases3)
  obtain r2 where 2: "run_ready_tasks env ids oc1 w1 = (r2, oc', w')" "rs = r1 @ r2"
    using Cons.prems 1 by (auto split: prod.splits)
  show ?case
    using run_ready_task_requests [OF 1] Cons.IH [OF 2(1)]
    by (auto simp: 2(2) add_mult_distrib dest: requests_for_trans)
qed

lemma run_until_blocked_requests:
  assumes "run_until_blocked env oc w = (rs, oc', w')"
  shows "requests_for (set (or_tasks oc)) (length rs * max 1 (unat (or_max_retries oc + 1))) w w'"
  using assms
proof (induction env oc w arbitrary: rs rule: run_until_blocked.induct)
  case (1 env oc w)
  obtain bs oc1 w1 where once: "run_ready_once env oc w = (bs, oc1, w1)"
    by (metis prod_cases3)
  note first = run_ready_tasks_requests [OF once [unfolded run_ready_once_def]]
  show ?case
  proof (cases "bs = []")
    case True
    then show ?thesis
      using 1(2) once first by (auto simp: run_until_blocked.simps [of env oc w])
  next
    case False
    obtain later where later: "run_until_blocked env oc1 w1 = (later, oc', w')" "rs = bs @ later"
      using 1(2) once False by (auto simp: run_until_blocked.simps [of env oc w] split: prod.splits)
    from 1(1) [OF once [symmetric] refl False later(1)] first show ?thesis
      by (auto simp: later(2) add_mult_distrib dest: requests_for_trans)
  qed
qed

section \<open>The rounds are recorded\<close>

lemma workflow_rounds_eq:
  "workflow_rounds env run oc w a = (case run_until_blocked env oc w of (rs, oc', w') \<Rightarrow>
     (rs, oc', w', fold (record_result_with_workflow_run run) rs a))"
proof (induction env run oc w a rule: workflow_rounds.induct)
  case (1 env run oc w a)
  obtain bs oc1 w1 where once: "run_ready_once env oc w = (bs, oc1, w1)"
    by (metis prod_cases3)
  show ?case
  proof (cases "bs = []")
    case True
    then show ?thesis
      using once by (simp add: workflow_rounds.simps [of env run oc] run_until_blocked.simps [of env oc])
  next
    case False
    note IH = 1 [OF once [symmetric] refl False]
    show ?thesis
      using once False IH
      by (simp add: workflow_rounds.simps [of env run oc] run_until_blocked.simps [of env oc]
          split: prod.split)
  qed
qed

lemma record_fold:
  "as_runs (fold (record_result_with_workflow_run (Some run)) rs a) = as_runs a"
  "result_count_for_run (fold (record_result_with_workflow_run (Some run)) rs a) run =
     result_count_for_run a run + length rs"
  by (induction rs arbitrary: a)
    (simp_all add: record_result_with_workflow_run_def result_count_for_run_def)

lemma finished_run:
  assumes "as_runs a = as_runs (start_workflow_run t0 run name count a0)"
  shows "workflow_run_status_of (finish_workflow_run t1 run st a) run = Inr (Some
    \<lparr>ws_run_id = run, ws_workflow_name = name, ws_status = st, ws_task_count = count,
     ws_recorded_result_count = result_count_for_run a run, ws_started_at = t0,
     ws_finished_at = Some t1\<rparr>)"
proof -
  have "find (\<lambda>r. rr_run_id r = run) (List.map (\<lambda>r. if rr_run_id r = run then f r else r)
        (filter (\<lambda>r. rr_run_id r \<noteq> run) rows) @ [x]) = (if rr_run_id x = run then Some x else None)"
    for rows :: "run_row list" and f x
    by (induction rows) auto
  then show ?thesis
    using assms
    by (simp add: workflow_run_status_of_def finish_workflow_run_def start_workflow_run_def
        run_status_names.parse_as_str result_count_for_run_def)
qed

lemma pending_not_blocked:
  assumes "built_from specs oc" "run_until_blocked env oc w = (rs, oc', w')"
    and "\<forall>r \<in> set rs. sr_status r = SubSucceeded"
  shows "blocked_task_ids (or_graph oc') = []"
proof -
  have "nd_state n \<noteq> NodePending" if "n \<in> set (or_graph oc')" for n
  proof -
    have inv: "or_graph oc' = apply_results rs (or_graph oc)"
      using workflow_run(1) [OF assms(1,2)] by (simp add: rounds_inv_def)
    then have "distinct (List.map nd_task_id (or_graph oc'))"
      using assms(1) by (simp add: built_from_def wf_orchestrator_def)
    then have "graph_node (or_graph oc') (nd_task_id n) = Some n"
      using that by (rule btree_get_in)
    moreover have "nd_task_id n \<in> spec_id ` set specs"
      using that assms(1) inv by (metis apply_results_id_set built_from_def imageI)
    ultimately show ?thesis
      using workflow_all_succeeded [OF assms, of specs "[]"] by (force simp: node_state_of_def)
  qed
  then show ?thesis
    by (auto simp: blocked_task_ids_def node_blocked_def filter_empty_conv)
qed

lemma workflow_outcome_cases:
  assumes "\<forall>r \<in> set rs. sr_status r = SubSucceeded \<Longrightarrow> blocked_task_ids g = []"
  shows "workflow_outcome rs g = RunSucceeded \<longleftrightarrow> (\<forall>r \<in> set rs. sr_status r = SubSucceeded)"
    "workflow_outcome rs g = RunCancelled \<longleftrightarrow> (\<exists>r \<in> set rs. sr_status r = SubCancelled)"
    "workflow_outcome rs g \<in> {RunSucceeded, RunCancelled, RunFailed}"
proof -
  have *: "sr_status r \<noteq> SubSucceeded \<longleftrightarrow> sr_status r = SubCancelled \<or> sr_status r = SubFailed \<or>
      sr_status r = SubTimedOut" for r
    by (cases "sr_status r") auto
  have "(\<exists>r \<in> set rs. sr_status r \<noteq> SubSucceeded) \<longleftrightarrow> (\<exists>r \<in> set rs. sr_status r = SubCancelled) \<or>
      (\<exists>r \<in> set rs. sr_status r = SubFailed \<or> sr_status r = SubTimedOut)"
    unfolding * by blast
  with assms show "workflow_outcome rs g = RunSucceeded \<longleftrightarrow> (\<forall>r \<in> set rs. sr_status r = SubSucceeded)"
    "workflow_outcome rs g = RunCancelled \<longleftrightarrow> (\<exists>r \<in> set rs. sr_status r = SubCancelled)"
    "workflow_outcome rs g \<in> {RunSucceeded, RunCancelled, RunFailed}"
    unfolding workflow_outcome_def list_ex_iff by (simp_all, meson+)
qed

section \<open>Properties\<close>

text \<open>
  C15: However the model answers, running a workflow until nothing is ready ends; no task runs
  twice; a task runs only after every task it depends on has succeeded; afterwards nothing is
  ready, and every task has the state its result says, or is still pending because it never ran.
\<close>

theorem workflow_runs_in_order:
  assumes "or_graph oc0 = []" "or_tasks oc0 = []" "add_workflow oc0 specs = (Inr (), oc)"
    and "run_until_blocked env oc w = (rs, oc', w')"
  shows "distinct (List.map sr_task_id rs) \<and>
    (\<forall>xs r ys. rs = xs @ r # ys \<longrightarrow> (\<exists>s \<in> set specs. spec_id s = sr_task_id r \<and>
      (\<forall>d \<in> set (snd s). \<exists>q \<in> set xs. sr_task_id q = d \<and> sr_status q = SubSucceeded))) \<and>
    ready_task_ids (or_graph oc') = [] \<and>
    (\<forall>s \<in> set specs. node_state_of (or_graph oc') (spec_id s) =
      Some (case find (\<lambda>r. sr_task_id r = spec_id s) rs of
        Some r \<Rightarrow> state_of_status (sr_status r) | None \<Rightarrow> NodePending))"
proof (intro conjI allI ballI impI)
  note built = built_from_empty [OF assms(1-3)]
  note inv = workflow_run [OF built assms(4)]
  show "distinct (List.map sr_task_id rs)" "ready_task_ids (or_graph oc') = []"
    using inv by (simp_all add: rounds_inv_def)
  show "s \<in> set specs \<Longrightarrow> node_state_of (or_graph oc') (spec_id s) =
      Some (case find (\<lambda>r. sr_task_id r = spec_id s) rs of
        Some r \<Rightarrow> state_of_status (sr_status r) | None \<Rightarrow> NodePending)" for s
    by (rule workflow_state [OF built assms(4)])
  fix xs r ys assume rs: "rs = xs @ r # ys"
  then have "sr_task_id r \<in> spec_id ` set specs"
    using inv(1) built by (auto simp: rounds_inv_def built_from_def)
  then obtain us s vs where s: "specs = us @ s # vs" "spec_id s = sr_task_id r"
    by (metis (no_types, lifting) imageE split_list)
  with built_fromD [OF built s(1)] inv(1) rs
  show "\<exists>s \<in> set specs. spec_id s = sr_task_id r \<and>
      (\<forall>d \<in> set (snd s). \<exists>q \<in> set xs. sr_task_id q = d \<and> sr_status q = SubSucceeded)"
    by (intro bexI [of _ s]) (auto simp: rounds_inv_def in_order_def)
qed

text \<open>
  C16: The status recorded for a workflow run is the truth about it: it is succeeded exactly when
  every task of the workflow has succeeded, cancelled when some task was cancelled, failed
  otherwise; and every result of the run is recorded under it.
\<close>

theorem recorded_workflow_status:
  assumes "or_graph oc0 = []" "or_tasks oc0 = []" "add_workflow oc0 specs = (Inr (), oc)"
    and "run_workflow_recording now env run name oc w a = (rs, oc', w', a')"
  shows "\<exists>s. workflow_run_status_of a' run = Inr (Some s) \<and> ws_workflow_name s = name \<and>
    (ws_status s = RunSucceeded \<longleftrightarrow>
       (\<forall>t \<in> set specs. node_state_of (or_graph oc') (spec_id t) = Some NodeSucceeded)) \<and>
    (ws_status s = RunCancelled \<longleftrightarrow> (\<exists>r \<in> set rs. sr_status r = SubCancelled)) \<and>
    ws_status s \<in> {RunSucceeded, RunCancelled, RunFailed} \<and>
    ws_recorded_result_count s = result_count_for_run a run + length rs"
proof -
  note built = built_from_empty [OF assms(1-3)]
  let ?a0 = "start_workflow_run (now 0) run name (of_nat (length (or_tasks oc))) a"
  have run: "run_until_blocked env oc w = (rs, oc', w')"
    and a': "a' = finish_workflow_run (now 1) run (workflow_outcome rs (or_graph oc'))
      (fold (record_result_with_workflow_run (Some run)) rs ?a0)"
    using assms(4) by (auto simp: run_workflow_recording_def workflow_rounds_eq split: prod.splits)
  let ?st = "workflow_outcome rs (or_graph oc')"
  let ?ok = "\<forall>r \<in> set rs. sr_status r = SubSucceeded"
  note st = workflow_outcome_cases [of rs "or_graph oc'", OF pending_not_blocked [OF built run]]
  have all: "(\<forall>t \<in> set specs. node_state_of (or_graph oc') (spec_id t) = Some NodeSucceeded) \<longleftrightarrow> ?ok"
  proof
    assume all: "\<forall>t \<in> set specs. node_state_of (or_graph oc') (spec_id t) = Some NodeSucceeded"
    show ?ok
    proof
      fix r assume r: "r \<in> set rs"
      have dist: "distinct (List.map sr_task_id rs)" "sr_task_id r \<in> spec_id ` set specs"
        using workflow_run(1) [OF built run] built r by (auto simp: rounds_inv_def built_from_def)
      then obtain t where t: "t \<in> set specs" "spec_id t = sr_task_id r" by auto
      have "find (\<lambda>q. sr_task_id q = sr_task_id r) rs = Some r"
        using btree_get_in [OF dist(1) r] by (simp add: btree_get_def)
      then show "sr_status r = SubSucceeded"
        using bspec [OF all t(1)] t(2) workflow_state [OF built run t(1)]
        by (simp add: eq_commute [of NodeSucceeded])
    qed
  next
    assume ?ok
    then show "\<forall>t \<in> set specs. node_state_of (or_graph oc') (spec_id t) = Some NodeSucceeded"
      using workflow_all_succeeded [OF built run, of specs "[]"] by simp
  qed
  have count: "result_count_for_run ?a0 run = result_count_for_run a run"
    by (simp add: start_workflow_run_def result_count_for_run_def)
  have "workflow_run_status_of a' run = Inr (Some \<lparr>ws_run_id = run, ws_workflow_name = name,
      ws_status = ?st, ws_task_count = of_nat (length (or_tasks oc)),
      ws_recorded_result_count = result_count_for_run a run + length rs, ws_started_at = now 0,
      ws_finished_at = Some (now 1)\<rparr>)"
    unfolding a' by (subst finished_run [OF record_fold(1)]) (simp add: record_fold count)
  then show ?thesis
    using st all by simp
qed

text \<open>
  C17: Whatever tasks a run executes and however often it retries them, the model is only ever
  asked for a task of the workflow that is not cancelled, has time left, asks for no action above
  its autonomy level, and whose prompt the guard lets through; and it is asked at most
  \<open>max_retries + 1\<close> times for each result (once when that sum wraps to zero).
\<close>

theorem model_asked_only_when_allowed:
  assumes "run_until_blocked env oc w = (rs, oc', w')"
  shows "\<exists>qs. sw_requests w' = sw_requests w @ qs \<and>
    length qs \<le> length rs * max 1 (unat (or_max_retries oc + 1)) \<and>
    (\<forall>q \<in> set qs. \<exists>t \<in> set (or_tasks oc). q = generate_json_request_from_task t \<and>
       \<not> task_cancelled t \<and> tb_timeout_seconds (sa_budgets t) \<noteq> 0 \<and>
       (\<forall>a \<in> set (pe_allowed_actions (sa_permission_envelope t)).
          required_autonomy_level a \<le> pe_max_autonomy_level (sa_permission_envelope t)) \<and>
       guard_prompt (gq_prompt q) = [])"
proof -
  have "requests_for (set (or_tasks oc)) (length rs * max 1 (unat (or_max_retries oc + 1))) w w'"
    using assms by (rule run_until_blocked_requests)
  then show ?thesis
    by (force simp: requests_for_def may_call_model_def)
qed

section \<open>A sample\<close>

text \<open>Two tasks, the second after the first, and a model that answers every request.\<close>

definition sample_task :: "string \<Rightarrow> u64 \<Rightarrow> subagent_task" where
  "sample_task i seconds = \<lparr>sa_task_id = i, sa_parent_task_id = None, sa_agent_id = PlannerAgent,
     sa_goal = ''Return JSON'', sa_input = JObject [], sa_contract = ''TestContract'',
     sa_permission_envelope = \<lparr>pe_connectors = [], pe_max_autonomy_level = 2,
       pe_allowed_actions = [AllowDraft], pe_requires_user_approval = True\<rparr>,
     sa_budgets = \<lparr>tb_timeout_seconds = seconds, tb_max_tokens = 512\<rparr>\<rparr>"

definition sample_specs :: "task_spec list" where
  "sample_specs = [(sample_task ''plan'' 30, []), (sample_task ''risk'' 30, [''plan''])]"

definition sample_sub_env :: sub_env where
  "sample_sub_env = \<lparr>se_reply = (\<lambda>n q. Inr \<lparr>gr_valid = True, gr_errors = [], gr_json = JNull,
     gr_raw_output = [], gr_repaired = False, gr_metrics = zero_metrics\<rparr>),
     se_system_seconds = (\<lambda>n. n), se_instant = (\<lambda>n. n)\<rparr>"

definition sample_world :: sub_world where
  "sample_world = \<lparr>sw_requests = [], sw_reads = 0, sw_sleeps = []\<rparr>"

definition sample_orchestrator :: orchestrator where
  "sample_orchestrator = snd (add_workflow (new_orchestrator ''local-model'') sample_specs)"

lemma sample_added:
  "or_graph (new_orchestrator ''local-model'') = []" "or_tasks (new_orchestrator ''local-model'') = []"
  "add_workflow (new_orchestrator ''local-model'') sample_specs = (Inr (), sample_orchestrator)"
proof -
  have "fst (add_workflow (new_orchestrator ''local-model'') sample_specs) = Inr ()"
    by code_simp
  then show "add_workflow (new_orchestrator ''local-model'') sample_specs = (Inr (), sample_orchestrator)"
    unfolding sample_orchestrator_def by (metis prod.collapse)
qed (simp_all add: new_orchestrator_def)

theorem workflow_runs_in_order_witness:
  "\<exists>rs oc' w'. run_until_blocked sample_sub_env sample_orchestrator sample_world = (rs, oc', w') \<and>
     distinct (List.map sr_task_id rs) \<and> ready_task_ids (or_graph oc') = []"
proof -
  obtain rs oc' w' where run: "run_until_blocked sample_sub_env sample_orchestrator sample_world = (rs, oc', w')"
    by (metis prod_cases3)
  then show ?thesis
    using workflow_runs_in_order [OF sample_added run] by blast
qed

theorem recorded_workflow_status_witness:
  "\<exists>rs oc' w' a' s. run_workflow_recording (\<lambda>n. ''now'') sample_sub_env ''run'' ''wf''
       sample_orchestrator sample_world empty_audit = (rs, oc', w', a') \<and>
     workflow_run_status_of a' ''run'' = Inr (Some s) \<and>
     ws_recorded_result_count s = result_count_for_run empty_audit ''run'' + length rs"
proof -
  obtain rs oc' w' a' where run: "run_workflow_recording (\<lambda>n. ''now'') sample_sub_env ''run'' ''wf''
      sample_orchestrator sample_world empty_audit = (rs, oc', w', a')"
    by (metis prod_cases4)
  then show ?thesis
    using recorded_workflow_status [OF sample_added run] by blast
qed

theorem model_asked_only_when_allowed_witness:
  "\<exists>rs oc' w' qs. run_until_blocked sample_sub_env sample_orchestrator sample_world = (rs, oc', w') \<and>
     sw_requests w' = sw_requests sample_world @ qs \<and> length qs \<le> length rs * max 1 (unat (4 :: u32))"
proof -
  obtain rs oc' w' where run: "run_until_blocked sample_sub_env sample_orchestrator sample_world = (rs, oc', w')"
    by (metis prod_cases3)
  have "or_max_retries sample_orchestrator + 1 = 4"
    by code_simp
  then show ?thesis
    using model_asked_only_when_allowed [OF run] run by (metis (no_types, lifting))
qed

section \<open>Where the code falls short\<close>

text \<open>An open breaker does not keep the request from the model: the task is run all the same, and
  its result is then overwritten with a failure.\<close>

lemma open_circuit_still_calls:
  assumes "allow_request env model cb w = (False, cb1, w1)" "may_call_model task" "max_retries \<noteq> - 1"
    and "execute_task_resilience env model max_retries task cb w = (r, cb', w')"
  shows "sr_status r = SubFailed \<and> sw_requests w' = sw_requests w @ [generate_json_request_from_task task]"
proof -
  have "max_retries + 1 \<noteq> 0"
    using assms(3) by (metis add.commute add_eq_0_iff2)
  then have "unat (max_retries + 1) \<noteq> 0"
    by (simp add: unat_eq_0)
  then obtain k where k: "unat (max_retries + 1) = Suc k"
    by (cases "unat (max_retries + 1)") auto
  obtain r1 w2 where run: "run_generate_json env model task w1 = (r1, w2)"
    by fastforce
  show ?thesis
    using assms(1,2,4) run run_generate_json_requests(3) [OF run] allow_request_requests [OF assms(1)]
    by (auto simp: execute_task_resilience_def k Let_def)
qed

text \<open>A task whose time budget is zero is never sent, and still slept over and tried again: the
  text of its error contains \<open>timeout\<close>, which counts as transient.\<close>

lemma expired_budget_is_retried:
  "\<exists>r cb w. execute_task_resilience sample_sub_env ''m'' 3 (sample_task ''t'' 0) default_breaker
      sample_world = (r, cb, w) \<and> sw_requests w = [] \<and> sw_sleeps w = [0, 1, 2] \<and>
      consecutive_failures cb ''m'' = 4"
proof -
  let ?x = "execute_task_resilience sample_sub_env ''m'' 3 (sample_task ''t'' 0) default_breaker sample_world"
  have "sw_requests (snd (snd ?x)) = []" "sw_sleeps (snd (snd ?x)) = [0, 1, 2]"
    "consecutive_failures (fst (snd ?x)) ''m'' = 4"
    by code_simp+
  then show ?thesis
    by (metis prod.collapse)
qed

end
