(* ===== verification/Compression.thy ===== *)
theory Compression
  imports Text
begin

text \<open>
  Context compression (crates/context-compression/src/lib.rs): what is cut and blanked out of a
  tool output, a page or a chat history before it enters a prompt.

  The budget counts characters, so a text is cut between its UTF-8 characters (\<open>chars\<close>). Parsing
  and printing JSON is \<open>serde_json\<close>'s, a parameter (\<open>json_text\<close>). The floating-point ratio of the
  metrics is left out.
\<close>

section \<open>Characters, lines and tokens\<close>

definition is_continuation :: "char \<Rightarrow> bool" where
  "is_continuation c \<longleftrightarrow> 128 \<le> byte c \<and> byte c < 192"

fun chars :: "string \<Rightarrow> string list" where
  "chars [] = []"
| "chars (c # s) = (case chars s of
     [] \<Rightarrow> [[c]]
   | x # xs \<Rightarrow> if is_continuation (hd x) then (c # x) # xs else [c] # x # xs)"

definition char_count :: "string \<Rightarrow> nat" where
  "char_count s = length (chars s)"

definition take_chars :: "nat \<Rightarrow> string \<Rightarrow> string" where
  "take_chars n s = concat (take n (chars s))"

definition last_chars :: "nat \<Rightarrow> string \<Rightarrow> string" where
  "last_chars n s = concat (rev (take n (rev (chars s))))"

function split_ws :: "string \<Rightarrow> string \<Rightarrow> string list" where
  "split_ws word s =
     (if s = [] then (if word = [] then [] else [word])
      else if ws_len s = 0 then split_ws (word @ [hd s]) (tl s)
      else (if word = [] then [] else [word]) @ split_ws [] (drop (ws_len s) s))"
  by pat_completeness auto
termination
  by (relation "measure (\<lambda>(word, s). length s)") auto

declare split_ws.simps [simp del]

section \<open>Redaction\<close>

definition is_sensitive_key :: "string \<Rightarrow> bool" where
  "is_sensitive_key key \<longleftrightarrow> to_ascii_lowercase key \<in>
     {''token'', ''access_token'', ''refresh_token'', ''api_key'', ''apikey'', ''password'',
      ''secret'', ''authorization'', ''email''}"

definition is_sensitive_key_value :: "string \<Rightarrow> bool" where
  "is_sensitive_key_value lower \<longleftrightarrow> list_ex (\<lambda>needle. contains needle lower)
     [''password='', ''token='', ''access_token='', ''refresh_token='', ''secret='', ''api_key='',
      ''apikey='', ''authorization='']"

definition trim_chars :: "char set \<Rightarrow> string \<Rightarrow> string" where
  "trim_chars cs s = rev (dropWhile (\<lambda>c. c \<in> cs) (rev (dropWhile (\<lambda>c. c \<in> cs) s)))"

definition looks_like_email :: "string \<Rightarrow> bool" where
  "looks_like_email token = (let
     trimmed = trim_chars {CHR '','', CHR '';'', CHR '':'', CHR '')'', CHR ''('', CHR 0x22, CHR 0x27,
       CHR ''['', CHR '']''} token;
     name = takeWhile (\<lambda>c. c \<noteq> CHR ''@'') trimmed;
     domain = drop (Suc (length name)) trimmed in
     CHR ''@'' \<in> set trimmed \<and> name \<noteq> [] \<and> CHR ''.'' \<in> set domain \<and> last domain \<noteq> CHR ''.'')"

text \<open>A token with the number of redactions, which is 0 or 1.\<close>

definition redact_token :: "string \<Rightarrow> string \<times> nat" where
  "redact_token token =
     (if starts_with ''http://'' token \<or> starts_with ''https://'' token
      then let sanitized = rev (dropWhile (\<lambda>c. c \<in> {CHR '','', CHR '';'', CHR '')'', CHR '']''})
               (rev (takeWhile (\<lambda>c. c \<noteq> CHR ''?'' \<and> c \<noteq> CHR ''#'') token)))
           in (sanitized, if sanitized \<noteq> token then 1 else 0)
      else let lower = to_ascii_lowercase token in
        if is_sensitive_key_value lower \<or> contains ''bearer'' lower \<or> contains ''sk-'' lower \<or>
            looks_like_email token
        then (''[REDACTED]'', 1) else (token, 0))"

definition redact_line :: "string \<Rightarrow> string \<times> nat" where
  "redact_line line = (let tokens = List.map redact_token (split_ws [] line) in
     (join '' '' (List.map fst tokens), sum_list (List.map snd tokens)))"

definition redact_text :: "string \<Rightarrow> string \<times> nat" where
  "redact_text input = (let ls = List.map redact_line (text_lines input) in
     (join [LF] (List.map fst ls), sum_list (List.map snd ls)))"

fun redact_json_value :: "json \<Rightarrow> json \<times> nat"
  and redact_members :: "(string \<times> json) list \<Rightarrow> (string \<times> json) list \<times> nat"
  and redact_values :: "json list \<Rightarrow> json list \<times> nat" where
  "redact_json_value (JObject m) = (case redact_members m of (m', n) \<Rightarrow> (JObject m', n))"
| "redact_json_value (JArray vs) = (case redact_values vs of (vs', n) \<Rightarrow> (JArray vs', n))"
| "redact_json_value (JString s) = (case redact_text s of (s', n) \<Rightarrow>
     if 0 < n then (JString s', n) else (JString s, 0))"
| "redact_json_value JNull = (JNull, 0)"
| "redact_json_value (JBool b) = (JBool b, 0)"
| "redact_json_value (JNumber t) = (JNumber t, 0)"
| "redact_members [] = ([], 0)"
| "redact_members ((k, v) # m) = (case redact_members m of (m', n) \<Rightarrow>
     if is_sensitive_key k then ((k, JString ''[REDACTED]'') # m', Suc n)
     else case redact_json_value v of (v', i) \<Rightarrow> ((k, v') # m', i + n))"
| "redact_values [] = ([], 0)"
| "redact_values (v # vs) = (case redact_json_value v of (v', i) \<Rightarrow>
     case redact_values vs of (vs', n) \<Rightarrow> (v' # vs', i + n))"

record json_text =
  jt_parse :: "string \<Rightarrow> json option"
  jt_print :: "json \<Rightarrow> string"

definition redact_json_or_text :: "json_text \<Rightarrow> string \<Rightarrow> string \<times> nat" where
  "redact_json_or_text jt input = (case jt_parse jt input of
     Some v \<Rightarrow> (case redact_json_value v of (v', n) \<Rightarrow> (jt_print jt v', n))
   | None \<Rightarrow> redact_text input)"

text \<open>Escape sequences of a terminal: from \<open>ESC [\<close> to the next letter.\<close>

definition is_ascii_alpha :: "char \<Rightarrow> bool" where
  "is_ascii_alpha c \<longleftrightarrow> (65 \<le> byte c \<and> byte c \<le> 90) \<or> (97 \<le> byte c \<and> byte c \<le> 122)"

fun ansi_scan :: "bool \<Rightarrow> string \<Rightarrow> string" where
  "ansi_scan True [] = []"
| "ansi_scan True (c # s) = ansi_scan (\<not> is_ascii_alpha c) s"
| "ansi_scan False [] = []"
| "ansi_scan False [c] = [c]"
| "ansi_scan False (c # d # s) =
     (if c = CHR 0x1B \<and> d = CHR ''['' then ansi_scan True s else c # ansi_scan False (d # s))"

definition strip_ansi :: "string \<Rightarrow> string" where
  "strip_ansi s = ansi_scan False s"

section \<open>Repeated lines\<close>

definition flush_repeated :: "string option \<Rightarrow> nat \<Rightarrow> string list" where
  "flush_repeated previous repeated =
     (if 0 < repeated then [''[... repeated '' @ show_nat repeated @ '' more times: '' @
        (case previous of Some p \<Rightarrow> p | None \<Rightarrow> []) @ '']''] else [])"

fun dedupe_from :: "string option \<Rightarrow> nat \<Rightarrow> string list \<Rightarrow> string list" where
  "dedupe_from previous repeated [] = flush_repeated previous repeated"
| "dedupe_from previous repeated (line # ls) =
     (if Some line = previous then dedupe_from previous (Suc repeated) ls
      else flush_repeated previous repeated @ line # dedupe_from (Some line) 0 ls)"

definition dedupe_adjacent_lines :: "string \<Rightarrow> string" where
  "dedupe_adjacent_lines input = join [LF] (dedupe_from None 0 (text_lines input))"

section \<open>The budget\<close>

datatype context_kind = ShellOutput | BrowserText | ChatHistory | ToolJson | GenericToolOutput

record compression_policy =
  cy_kind :: context_kind
  cy_max_chars :: nat
  cy_preserve_head_lines :: nat
  cy_preserve_tail_lines :: nat
  cy_dedupe_adjacent_lines :: bool

fun policy_for_kind :: "context_kind \<Rightarrow> compression_policy" where
  "policy_for_kind ShellOutput = \<lparr>cy_kind = ShellOutput, cy_max_chars = 4000,
     cy_preserve_head_lines = 4, cy_preserve_tail_lines = 8, cy_dedupe_adjacent_lines = True\<rparr>"
| "policy_for_kind BrowserText = \<lparr>cy_kind = BrowserText, cy_max_chars = 5000,
     cy_preserve_head_lines = 6, cy_preserve_tail_lines = 8, cy_dedupe_adjacent_lines = True\<rparr>"
| "policy_for_kind ChatHistory = \<lparr>cy_kind = ChatHistory, cy_max_chars = 6000,
     cy_preserve_head_lines = 0, cy_preserve_tail_lines = 8, cy_dedupe_adjacent_lines = False\<rparr>"
| "policy_for_kind ToolJson = \<lparr>cy_kind = ToolJson, cy_max_chars = 4000,
     cy_preserve_head_lines = 4, cy_preserve_tail_lines = 6, cy_dedupe_adjacent_lines = True\<rparr>"
| "policy_for_kind GenericToolOutput = \<lparr>cy_kind = GenericToolOutput, cy_max_chars = 3000,
     cy_preserve_head_lines = 4, cy_preserve_tail_lines = 6, cy_dedupe_adjacent_lines = True\<rparr>"

definition is_important_line :: "string \<Rightarrow> bool" where
  "is_important_line line = (let lower = to_ascii_lowercase line in
     list_ex (\<lambda>needle. contains needle lower)
       [''error'', ''failed'', ''failure'', ''warning'', ''http://'', ''https://'', ''result:'', ''summary''])"

definition compression_marker :: "nat \<Rightarrow> nat \<Rightarrow> string" where
  "compression_marker input_chars max_chars = ''[context compressed: input_chars='' @
     show_nat input_chars @ '', budget_chars='' @ show_nat max_chars @
     ''; rerun with a narrower query for full output]''"

definition clamp_marker :: string where
  "clamp_marker = [LF] @ ''[... context compressed ...]'' @ [LF]"

definition clamp_middle :: "string \<Rightarrow> nat \<Rightarrow> string" where
  "clamp_middle input max_chars =
     (if char_count input \<le> max_chars then input
      else if max_chars \<le> 32 then take_chars max_chars input
      else let side = (max_chars - char_count clamp_marker) div 2 in
        take_chars side input @ clamp_marker @ last_chars side input)"

definition clamp_end :: "string \<Rightarrow> nat \<Rightarrow> string" where
  "clamp_end input max_chars =
     (if char_count input \<le> max_chars then input
      else if max_chars \<le> 4 then take_chars max_chars input
      else take_chars (max_chars - 3) input @ ''...'')"

definition compress_text :: "string \<Rightarrow> compression_policy \<Rightarrow> string \<times> bool" where
  "compress_text input policy =
     (if char_count input \<le> cy_max_chars policy \<or> cy_max_chars policy = 0 then (input, False)
      else let
        ls = text_lines input;
        selected = remdups_adj (take (cy_preserve_head_lines policy) ls @ filter is_important_line ls @
          drop (length ls - cy_preserve_tail_lines policy) ls);
        marker = compression_marker (char_count input) (cy_max_chars policy);
        candidate = join [LF] selected;
        combined = (if candidate = [] then marker else candidate @ [LF] @ marker) in
        if char_count combined \<le> cy_max_chars policy then (combined, True)
        else (clamp_middle combined (cy_max_chars policy), True))"

definition compress_chat_history :: "string \<Rightarrow> nat \<Rightarrow> string \<times> bool" where
  "compress_chat_history input max_chars =
     (if char_count input \<le> max_chars \<or> max_chars = 0 then (input, False)
      else let ls = filter (\<lambda>l. \<not> is_blank l) (text_lines input) in
        if length ls \<le> 2 then (clamp_middle input max_chars, True)
        else let
          older_count = length ls - 2;
          recent = join [LF] (drop older_count ls);
          seed = (case find (starts_with ''User:'') (take older_count ls) of Some l \<Rightarrow> l | None \<Rightarrow> hd ls);
          summary = ''[Earlier context: '' @ show_nat older_count @
            '' older turns compressed. Key starting point: '' @ clamp_end seed 90 @ '']'';
          candidate = summary @ [LF] @ recent in
          if char_count candidate \<le> max_chars then (candidate, True)
          else (clamp_end summary (max_chars div 2) @ [LF] @ clamp_end recent (max_chars div 2), True))"

definition estimate_tokens :: "nat \<Rightarrow> nat" where
  "estimate_tokens n = max ((n + 3) div 4) 1"

record compression_result =
  cz_kind :: context_kind
  cz_text :: string
  cz_compressed :: bool
  cz_redacted :: bool
  cz_input_chars :: nat
  cz_output_chars :: nat
  cz_removed_chars :: nat
  cz_estimated_input_tokens :: nat
  cz_estimated_output_tokens :: nat
  cz_redaction_count :: nat

definition normalized_text :: "json_text \<Rightarrow> context_kind \<Rightarrow> string \<Rightarrow> compression_policy \<Rightarrow> string \<times> nat" where
  "normalized_text jt kind text policy =
     (case (if kind = ToolJson then redact_json_or_text jt text else redact_text (strip_ansi text)) of
        (redacted, n) \<Rightarrow>
          (if cy_dedupe_adjacent_lines policy then dedupe_adjacent_lines redacted else redacted, n))"

definition compress :: "json_text \<Rightarrow> context_kind \<Rightarrow> string \<Rightarrow> compression_policy \<Rightarrow> compression_result" where
  "compress jt kind input policy =
     (case normalized_text jt kind input policy of (normalized, redactions) \<Rightarrow>
      case (if kind = ChatHistory then compress_chat_history normalized (cy_max_chars policy)
            else compress_text normalized policy) of (body, budget_compressed) \<Rightarrow>
      let input_chars = char_count input;
          normalized_compressed = char_count normalized < input_chars;
          output = (if normalized_compressed \<and> \<not> budget_compressed \<and>
              \<not> contains ''context compressed'' body
            then body @ [LF] @ compression_marker input_chars (cy_max_chars policy) else body);
          output_chars = char_count output in
      \<lparr>cz_kind = kind, cz_text = output, cz_compressed = (budget_compressed \<or> normalized_compressed),
       cz_redacted = (0 < redactions), cz_input_chars = input_chars, cz_output_chars = output_chars,
       cz_removed_chars = input_chars - output_chars,
       cz_estimated_input_tokens = estimate_tokens input_chars,
       cz_estimated_output_tokens = estimate_tokens output_chars, cz_redaction_count = redactions\<rparr>)"

section \<open>Counting characters\<close>

lemma chars_concat [simp]: "concat (chars s) = s"
  by (induction s) (auto split: list.split)

lemma chars_nonempty: "x \<in> set (chars s) \<Longrightarrow> x \<noteq> []"
  by (induction s arbitrary: x) (auto split: list.splits if_splits)

lemma char_count_Nil [simp]: "char_count [] = 0"
  by (simp add: char_count_def)

lemma hd_chars: "s \<noteq> [] \<Longrightarrow> \<exists>x xs. chars s = x # xs \<and> x \<noteq> [] \<and> hd x = hd s"
  by (induction s) (auto split: list.split)

lemma char_count_closed:
  "char_count s = (if s = [] then 0 else Suc (length (filter (\<lambda>c. \<not> is_continuation c) (tl s))))"
proof (induction s)
  case (Cons c s)
  show ?case
  proof (cases s)
    case Nil
    then show ?thesis by (simp add: char_count_def)
  next
    case (Cons d t)
    then obtain x xs where "chars s = x # xs" "hd x = d"
      using hd_chars [of s] by auto
    with Cons.IH Cons show ?thesis by (simp add: char_count_def)
  qed
qed simp

lemma char_count_append: "char_count (s @ t) \<le> char_count s + char_count t"
  by (cases s; cases t) (auto simp: char_count_closed)

lemma char_count_concat: "char_count (concat xs) \<le> sum_list (List.map char_count xs)"
proof (induction xs)
  case (Cons x xs)
  then show ?case
    using char_count_append [of x "concat xs"] by simp
qed simp

lemma char_count_le_length: "char_count s \<le> length s"
  by (induction s) (auto simp: char_count_def split: list.split)

lemma char_of_chars: "x \<in> set (chars s) \<Longrightarrow> char_count x = 1"
proof -
  have "x \<noteq> [] \<and> (\<forall>c \<in> set (tl x). is_continuation c)" if "x \<in> set (chars s)" for x
    using that
  proof (induction s arbitrary: x)
    case (Cons c s)
    show ?case
    proof (cases "chars s")
      case Nil
      with Cons.prems show ?thesis by simp
    next
      case (Cons y ys)
      have y: "y \<noteq> [] \<and> (\<forall>c \<in> set (tl y). is_continuation c)"
        using Cons.IH [of y] Cons by simp
      then have "set y = insert (hd y) (set (tl y))"
        by (metis list.collapse list.simps(15))
      with y Cons.IH Cons.prems Cons show ?thesis
        by (auto split: if_splits)
    qed
  qed simp
  then show "x \<in> set (chars s) \<Longrightarrow> char_count x = 1"
    by (auto simp: char_count_closed filter_empty_conv)
qed

lemma char_count_pieces:
  assumes "set xs \<subseteq> set (chars s)"
  shows "char_count (concat xs) \<le> length xs"
proof -
  have "sum_list (List.map char_count xs) = length xs"
    using assms by (induction xs) (auto simp: char_of_chars)
  with char_count_concat [of xs] show ?thesis by simp
qed

lemma take_chars_count: "char_count (take_chars n s) \<le> n"
  using char_count_pieces [of "take n (chars s)" s] by (auto simp: take_chars_def dest: in_set_takeD)

lemma last_chars_count: "char_count (last_chars n s) \<le> n"
proof -
  have "set (rev (take n (rev (chars s)))) \<subseteq> set (chars s)"
    by (auto dest: in_set_takeD)
  from char_count_pieces [OF this] show ?thesis
    by (simp add: last_chars_def)
qed

lemma clamp_middle_count: "char_count (clamp_middle s n) \<le> n"
proof -
  have m: "char_count clamp_marker = 30"
    by code_simp
  let ?side = "(n - 30) div 2"
  have "char_count (take_chars ?side s @ clamp_marker @ last_chars ?side s) \<le> ?side + (30 + ?side)"
    using char_count_append [of "take_chars ?side s" "clamp_marker @ last_chars ?side s"]
      char_count_append [of clamp_marker "last_chars ?side s"]
      take_chars_count [of ?side s] last_chars_count [of ?side s] m by simp
  moreover have "32 < n \<Longrightarrow> ?side + (30 + ?side) \<le> n"
    by linarith
  ultimately show ?thesis
    using take_chars_count [of n s] by (auto simp: clamp_middle_def m Let_def)
qed

lemma clamp_end_count: "char_count (clamp_end s n) \<le> n"
proof -
  have "char_count ''...'' = 3"
    by code_simp
  then have "char_count (take_chars (n - 3) s @ ''...'') \<le> n - 3 + 3"
    using char_count_append [of "take_chars (n - 3) s" "''...''"] take_chars_count [of "n - 3" s] by simp
  then show ?thesis
    using take_chars_count [of n s] by (auto simp: clamp_end_def)
qed

lemma compress_text_count: "compress_text s p = (t, True) \<Longrightarrow> char_count t \<le> cy_max_chars p"
  using clamp_middle_count by (auto simp: compress_text_def Let_def split: if_splits)

lemma compress_text_untouched:
  "compress_text s p = (t, False) \<Longrightarrow> t = s \<and> (char_count s \<le> cy_max_chars p \<or> cy_max_chars p = 0)"
  by (auto simp: compress_text_def Let_def split: if_splits)

lemma chat_count: "compress_chat_history s n = (t, True) \<Longrightarrow> char_count t \<le> Suc n"
proof -
  have one: "char_count [LF] = 1"
    by code_simp
  have "char_count (clamp_end a (n div 2) @ [LF] @ clamp_end b (n div 2)) \<le> Suc n" for a b
    using char_count_append [of "clamp_end a (n div 2)" "[LF] @ clamp_end b (n div 2)"]
      char_count_append [of "[LF]" "clamp_end b (n div 2)"] one
      clamp_end_count [of a "n div 2"] clamp_end_count [of b "n div 2"] by linarith
  then show "compress_chat_history s n = (t, True) \<Longrightarrow> char_count t \<le> Suc n"
    using clamp_middle_count [of s n]
    by (auto simp: compress_chat_history_def Let_def le_SucI split: if_splits)
qed

lemma chat_untouched:
  "compress_chat_history s n = (t, False) \<Longrightarrow> t = s \<and> (char_count s \<le> n \<or> n = 0)"
  by (auto simp: compress_chat_history_def Let_def split: if_splits)

section \<open>Properties\<close>

text \<open>
  C20: A compressed text fits the budget of its policy: what compression keeps of it has at most
  \<open>max_chars\<close> characters, one more for a chat history; the note that something was removed may
  follow it. A policy with \<open>max_chars = 0\<close> has no budget: what is kept is the whole text as it is after
  redaction and the removal of repeated lines.
\<close>

theorem compression_fits_budget:
  "\<exists>body. (if cy_max_chars policy = 0 then body = fst (normalized_text jt kind input policy)
      else char_count body \<le> cy_max_chars policy + (if kind = ChatHistory then 1 else 0)) \<and>
    (cz_text (compress jt kind input policy) = body \<or>
     cz_text (compress jt kind input policy) =
       body @ [LF] @ compression_marker (char_count input) (cy_max_chars policy))"
proof -
  obtain n r where n: "normalized_text jt kind input policy = (n, r)" by fastforce
  obtain body b where body: "(if kind = ChatHistory then compress_chat_history n (cy_max_chars policy)
      else compress_text n policy) = (body, b)" by fastforce
  have "cy_max_chars policy \<noteq> 0 \<Longrightarrow>
      char_count body \<le> cy_max_chars policy + (if kind = ChatHistory then 1 else 0)"
    using body compress_text_count [of n policy body] compress_text_untouched [of n policy body]
      chat_count [of n "cy_max_chars policy" body] chat_untouched [of n "cy_max_chars policy" body]
    by (cases b) (auto split: if_splits)
  moreover have "cy_max_chars policy = 0 \<Longrightarrow> body = n"
    using body by (simp add: compress_chat_history_def compress_text_def split: if_splits)
  ultimately show ?thesis
    using n body by (intro exI [of _ body]) (simp add: compress_def Let_def)
qed

definition sample_json_text :: json_text where
  "sample_json_text = \<lparr>jt_parse = (\<lambda>s. None), jt_print = (\<lambda>v. [])\<rparr>"

text \<open>No member of an object has a sensitive key and another value than the mark of redaction.\<close>

fun clean_json :: "json \<Rightarrow> bool" and clean_members :: "(string \<times> json) list \<Rightarrow> bool"
  and clean_values :: "json list \<Rightarrow> bool" where
  "clean_json (JObject m) \<longleftrightarrow> clean_members m"
| "clean_json (JArray vs) \<longleftrightarrow> clean_values vs"
| "clean_json (JString s) \<longleftrightarrow> True"
| "clean_json JNull \<longleftrightarrow> True"
| "clean_json (JBool b) \<longleftrightarrow> True"
| "clean_json (JNumber t) \<longleftrightarrow> True"
| "clean_members [] \<longleftrightarrow> True"
| "clean_members ((k, v) # m) \<longleftrightarrow>
     (if is_sensitive_key k then v = JString ''[REDACTED]'' else clean_json v) \<and> clean_members m"
| "clean_values [] \<longleftrightarrow> True"
| "clean_values (v # vs) \<longleftrightarrow> clean_json v \<and> clean_values vs"

text \<open>The keys and the shape stay: only values are replaced.\<close>

fun same_shape :: "json \<Rightarrow> json \<Rightarrow> bool" and same_members :: "(string \<times> json) list \<Rightarrow> (string \<times> json) list \<Rightarrow> bool"
  and same_values :: "json list \<Rightarrow> json list \<Rightarrow> bool" where
  "same_shape (JObject m) v \<longleftrightarrow> (case v of JObject m' \<Rightarrow> same_members m m' | _ \<Rightarrow> False)"
| "same_shape (JArray vs) v \<longleftrightarrow> (case v of JArray vs' \<Rightarrow> same_values vs vs' | _ \<Rightarrow> False)"
| "same_shape (JString s) v \<longleftrightarrow> (case v of JString s' \<Rightarrow> True | _ \<Rightarrow> False)"
| "same_shape JNull v \<longleftrightarrow> v = JNull"
| "same_shape (JBool b) v \<longleftrightarrow> v = JBool b"
| "same_shape (JNumber t) v \<longleftrightarrow> v = JNumber t"
| "same_members [] m' \<longleftrightarrow> m' = []"
| "same_members ((k, v) # m) m' \<longleftrightarrow> (case m' of [] \<Rightarrow> False
     | (k', v') # m'' \<Rightarrow> k' = k \<and> (is_sensitive_key k \<or> same_shape v v') \<and> same_members m m'')"
| "same_values [] vs' \<longleftrightarrow> vs' = []"
| "same_values (v # vs) vs' \<longleftrightarrow> (case vs' of [] \<Rightarrow> False | v' # vs'' \<Rightarrow> same_shape v v' \<and> same_values vs vs'')"

lemma redact_clean:
  "clean_json (fst (redact_json_value v)) \<and> same_shape v (fst (redact_json_value v))"
  "clean_members (fst (redact_members m)) \<and> same_members m (fst (redact_members m))"
  "clean_values (fst (redact_values vs)) \<and> same_values vs (fst (redact_values vs))"
  by (induction v and m and vs rule: redact_json_value_redact_members_redact_values.induct)
    (auto split: prod.split)

text \<open>
  C21: When a JSON tool output is parsed for a prompt, the value that is printed back has the same
  keys and the same shape, and at every depth the value under a sensitive key (a token, a
  password, an address) is the mark of redaction.
\<close>

theorem json_secrets_are_redacted:
  assumes "jt_parse jt input = Some v"
  shows "\<exists>v'. fst (redact_json_or_text jt input) = jt_print jt v' \<and> clean_json v' \<and> same_shape v v'"
  using assms redact_clean(1) [of v] by (auto simp: redact_json_or_text_def split: prod.split)

definition secret_json :: json where
  "secret_json = JObject [(''password'', JString ''x''), (''rows'', JArray [JNull])]"

theorem json_secrets_are_redacted_witness:
  "\<exists>v'. fst (redact_json_or_text \<lparr>jt_parse = (\<lambda>s. Some secret_json), jt_print = (\<lambda>v. [])\<rparr> ''input'') = [] \<and>
     clean_json v' \<and> same_shape secret_json v'"
  using json_secrets_are_redacted [of "\<lparr>jt_parse = (\<lambda>s. Some secret_json), jt_print = (\<lambda>v. [])\<rparr>"
      "''input''" secret_json] by auto

text \<open>The two halves of a chat history and the line break between them exceed an even budget by one.\<close>

definition long_chat :: string where
  "long_chat = concat (List.map (\<lambda>c. replicate 8 c @ [LF]) [CHR ''a'', CHR ''b'', CHR ''c''])"

lemma chat_history_over_budget:
  "compress_chat_history long_chat 16 = (t, b) \<Longrightarrow> b \<and> char_count t = 17"
proof -
  have "snd (compress_chat_history long_chat 16)" "char_count (fst (compress_chat_history long_chat 16)) = 17"
    by code_simp+
  then show "compress_chat_history long_chat 16 = (t, b) \<Longrightarrow> b \<and> char_count t = 17"
    by simp
qed

end
