(* ===== verification/Capabilities.thy ===== *)
theory Capabilities
  imports Compression
begin

text \<open>
  Capabilities (crates/capabilities/src: types.rs, policy.rs, registry.rs, facade.rs, audit.rs,
  provider.rs, cached_provider.rs, workflow_routing.rs): the tools that providers offer, the
  grants that say who may use them, the policy that decides on one tool, the facade that calls it
  and the audit of the calls.

  A provider behind the trait object is the record \<open>provider\<close> of what its methods answer; the two
  providers of the crate are built by \<open>fake_provider\<close> and \<open>cached_tool_provider\<close>. The registry's
  tables are lists of their rows in the order of insertion.
\<close>

section \<open>Types\<close>

datatype provider_kind = KindNative | KindMcp | KindManaged | KindBrowser | KindSkill

datatype action_class = ActRead | ActDraft | ActWriteWithConfirmation | ActApprovedAutomation

record capability_tool =
  ct_name :: string
  ct_provider_id :: string
  ct_provider_kind :: provider_kind
  ct_action :: action_class
  ct_description :: string
  ct_privacy_domains :: "string list"
  ct_sensitivity :: string
  ct_input_schema :: json

datatype connection_status = ConnActive | ConnExpired | ConnFailed | ConnDisabled

record capability_connection =
  cn_id :: string
  cn_provider_id :: string
  cn_user_id :: string
  cn_workspace_id :: string
  cn_status :: connection_status
  cn_display_name :: string
  cn_privacy_domains :: "string list"

record capability_call =
  cl_provider_id :: string
  cl_tool_name :: string
  cl_arguments :: json

record capability_call_result =
  cv_provider_id :: string
  cv_tool_name :: string
  cv_output :: json

datatype capability_error =
  ProviderUnavailable string | ProviderNotEnabled string | ConnectionRequired string
| AuthorizationRequired string | CapPermissionDenied string | PolicyDenied string
| SchemaValidationFailed string | ToolExecutionFailed string | TriggerFailed string
| SecretUnavailable string | ManagedProviderBoundary string

record policy_context =
  pc_user_id :: string
  pc_workspace_id :: string
  pc_enabled_providers :: "string list"
  pc_privacy_domains :: "string list"
  pc_allowed_actions :: "action_class list"
  pc_max_autonomy_level :: "8 word"
  pc_allow_managed_cloud :: bool

record tool_access_decision =
  ta_model_visible :: bool
  ta_executable :: bool
  ta_reasons :: "string list"

section \<open>The policy\<close>

fun action_autonomy :: "action_class \<Rightarrow> 8 word" where
  "action_autonomy ActRead = 0"
| "action_autonomy ActDraft = 2"
| "action_autonomy ActWriteWithConfirmation = 3"
| "action_autonomy ActApprovedAutomation = 4"

fun action_name :: "action_class \<Rightarrow> string" where
  "action_name ActRead = ''read''"
| "action_name ActDraft = ''draft''"
| "action_name ActWriteWithConfirmation = ''write_with_confirmation''"
| "action_name ActApprovedAutomation = ''approved_automation''"

definition boundary_reasons :: "policy_context \<Rightarrow> capability_tool \<Rightarrow> string list" where
  "boundary_reasons c t =
     (if ct_provider_id t \<in> set (pc_enabled_providers c) then []
      else [''provider_not_enabled:'' @ ct_provider_id t]) @
     (if ct_provider_kind t = KindManaged \<and> \<not> pc_allow_managed_cloud c
      then [''managed_cloud_not_allowed:'' @ ct_provider_id t] else []) @
     List.map (\<lambda>d. ''privacy_domain_denied:'' @ d)
       (filter (\<lambda>d. d \<notin> set (pc_privacy_domains c)) (ct_privacy_domains t))"

definition is_boundary_reason :: "string \<Rightarrow> bool" where
  "is_boundary_reason r \<longleftrightarrow> starts_with ''provider_not_enabled:'' r \<or>
     starts_with ''managed_cloud_not_allowed:'' r \<or> starts_with ''privacy_domain_denied:'' r"

definition tool_access :: "policy_context \<Rightarrow> capability_tool \<Rightarrow> tool_access_decision" where
  "tool_access c t = (let reasons = boundary_reasons c t in
     if list_ex is_boundary_reason reasons
     then \<lparr>ta_model_visible = False, ta_executable = False, ta_reasons = reasons\<rparr>
     else let
       allowed = (ct_action t \<in> set (pc_allowed_actions c));
       autonomous = (action_autonomy (ct_action t) \<le> pc_max_autonomy_level c) in
       \<lparr>ta_model_visible = True, ta_executable = (allowed \<and> autonomous),
        ta_reasons = reasons @
          (if allowed then [] else [''action_not_allowed:'' @ action_name (ct_action t)]) @
          (if autonomous then [] else
             [''autonomy_too_low:'' @ show_nat (unat (action_autonomy (ct_action t)))])\<rparr>)"

section \<open>The registry\<close>

record provider_grant =
  gt_provider_id :: string
  gt_user_id :: string
  gt_workspace_id :: string
  gt_enabled :: bool
  gt_allow_managed_cloud :: bool
  gt_privacy_domains :: "string list"
  gt_allowed_actions :: "action_class list"
  gt_max_autonomy_level :: "8 word"

definition new_grant :: "string \<Rightarrow> string \<Rightarrow> string \<Rightarrow> provider_grant" where
  "new_grant p u w = \<lparr>gt_provider_id = p, gt_user_id = u, gt_workspace_id = w, gt_enabled = True,
     gt_allow_managed_cloud = False, gt_privacy_domains = [], gt_allowed_actions = [ActRead],
     gt_max_autonomy_level = 0\<rparr>"

record connection_config =
  cf_connection_id :: string
  cf_provider_id :: string
  cf_user_id :: string
  cf_workspace_id :: string
  cf_status :: connection_status
  cf_display_name :: string
  cf_privacy_domains :: "string list"
  cf_secret_ref :: string
  cf_metadata :: json

record provider_config =
  pg_provider_id :: string
  pg_provider_kind :: provider_kind
  pg_display_name :: string
  pg_enabled_by_default :: bool

record registry =
  rg_configs :: "provider_config list"
  rg_grants :: "provider_grant list"
  rg_connections :: "connection_config list"
  rg_tools :: "capability_tool list"

text \<open>\<open>INSERT .. ON CONFLICT(key) DO UPDATE\<close>: in place when the key exists.\<close>

definition upsert_row :: "('a \<Rightarrow> 'k) \<Rightarrow> 'a \<Rightarrow> 'a list \<Rightarrow> 'a list" where
  "upsert_row key x xs = (if key x \<in> key ` set xs
     then List.map (\<lambda>y. if key y = key x then x else y) xs else xs @ [x])"

definition grant_key :: "provider_grant \<Rightarrow> string \<times> string \<times> string" where
  "grant_key g = (gt_provider_id g, gt_user_id g, gt_workspace_id g)"

definition upsert_provider_config :: "provider_config \<Rightarrow> registry \<Rightarrow> registry" where
  "upsert_provider_config c r = r\<lparr>rg_configs := upsert_row pg_provider_id c (rg_configs r)\<rparr>"

definition upsert_provider_grant :: "provider_grant \<Rightarrow> registry \<Rightarrow> registry" where
  "upsert_provider_grant g r = r\<lparr>rg_grants := upsert_row grant_key g (rg_grants r)\<rparr>"

definition provider_grants :: "registry \<Rightarrow> string \<Rightarrow> string \<Rightarrow> provider_grant list" where
  "provider_grants r u w = sort_key gt_provider_id
     (filter (\<lambda>g. gt_user_id g = u \<and> gt_workspace_id g = w) (rg_grants r))"

definition is_secret_metadata_key :: "string \<Rightarrow> bool" where
  "is_secret_metadata_key key \<longleftrightarrow> to_ascii_lowercase key \<in>
     {''access_token'', ''refresh_token'', ''api_key'', ''password'', ''secret'', ''token''}"

fun strip_secret_metadata :: "json \<Rightarrow> json"
  and strip_members :: "(string \<times> json) list \<Rightarrow> (string \<times> json) list"
  and strip_values :: "json list \<Rightarrow> json list" where
  "strip_secret_metadata (JObject m) = JObject (strip_members m)"
| "strip_secret_metadata (JArray vs) = JArray (strip_values vs)"
| "strip_secret_metadata (JString s) = JString s"
| "strip_secret_metadata JNull = JNull"
| "strip_secret_metadata (JBool b) = JBool b"
| "strip_secret_metadata (JNumber t) = JNumber t"
| "strip_members [] = []"
| "strip_members ((k, v) # m) =
     (if is_secret_metadata_key k then strip_members m else (k, strip_secret_metadata v) # strip_members m)"
| "strip_values [] = []"
| "strip_values (v # vs) = strip_secret_metadata v # strip_values vs"

definition sanitized :: "connection_config \<Rightarrow> connection_config" where
  "sanitized c = c\<lparr>cf_metadata := strip_secret_metadata (cf_metadata c)\<rparr>"

definition upsert_connection_config :: "connection_config \<Rightarrow> registry \<Rightarrow> registry" where
  "upsert_connection_config c r =
     r\<lparr>rg_connections := upsert_row cf_connection_id (sanitized c) (rg_connections r)\<rparr>"

text \<open>The secret goes to the store of secrets (\<open>put\<close>, a parameter), its reference to the row.\<close>

definition upsert_connection_config_with_secret ::
    "('s \<Rightarrow> string + 's) \<Rightarrow> string \<Rightarrow> connection_config \<Rightarrow> 's \<Rightarrow> registry
     \<Rightarrow> (capability_error + unit) \<times> 's \<times> registry" where
  "upsert_connection_config_with_secret put reference c secrets r = (case put secrets of
     Inl e \<Rightarrow> (Inl (SecretUnavailable e), secrets, r)
   | Inr secrets' \<Rightarrow>
       (Inr (), secrets', upsert_connection_config (c\<lparr>cf_secret_ref := reference\<rparr>) r))"

definition upsert_cached_tool :: "capability_tool \<Rightarrow> registry \<Rightarrow> registry" where
  "upsert_cached_tool t r =
     r\<lparr>rg_tools := upsert_row (\<lambda>t. (ct_provider_id t, ct_name t)) t (rg_tools r)\<rparr>"

definition clear_cached_tools :: "string \<Rightarrow> registry \<Rightarrow> nat \<times> registry" where
  "clear_cached_tools p r = (length (filter (\<lambda>t. ct_provider_id t = p) (rg_tools r)),
     r\<lparr>rg_tools := filter (\<lambda>t. ct_provider_id t \<noteq> p) (rg_tools r)\<rparr>)"

definition cached_tools :: "registry \<Rightarrow> string \<Rightarrow> capability_tool list" where
  "cached_tools r p = sort_key ct_name (filter (\<lambda>t. ct_provider_id t = p) (rg_tools r))"

definition connection_configs :: "registry \<Rightarrow> string \<Rightarrow> string \<Rightarrow> connection_config list" where
  "connection_configs r u w = sort_key (\<lambda>c. [cf_provider_id c, cf_display_name c, cf_connection_id c])
     (filter (\<lambda>c. cf_user_id c = u \<and> cf_workspace_id c = w) (rg_connections r))"

definition remove_provider :: "string \<Rightarrow> registry \<Rightarrow> nat \<times> registry" where
  "remove_provider p r = (length (filter (\<lambda>c. pg_provider_id c = p) (rg_configs r)),
     \<lparr>rg_configs = filter (\<lambda>c. pg_provider_id c \<noteq> p) (rg_configs r),
      rg_grants = filter (\<lambda>g. gt_provider_id g \<noteq> p) (rg_grants r),
      rg_connections = filter (\<lambda>c. cf_provider_id c \<noteq> p) (rg_connections r),
      rg_tools = filter (\<lambda>t. ct_provider_id t \<noteq> p) (rg_tools r)\<rparr>)"

text \<open>The loop of \<open>policy_context\<close>: one enabled grant folded into the context.\<close>

definition add_new :: "'a list \<Rightarrow> 'a list \<Rightarrow> 'a list" where
  "add_new old xs = fold (\<lambda>x acc. if x \<in> set acc then acc else acc @ [x]) xs old"

definition merge_grant :: "provider_grant \<Rightarrow> policy_context \<Rightarrow> policy_context" where
  "merge_grant g c = c\<lparr>
     pc_enabled_providers := pc_enabled_providers c @ [gt_provider_id g],
     pc_privacy_domains := fold (btree_insert id) (gt_privacy_domains g) (pc_privacy_domains c),
     pc_allowed_actions := add_new (pc_allowed_actions c) (gt_allowed_actions g),
     pc_max_autonomy_level := max (pc_max_autonomy_level c) (gt_max_autonomy_level g),
     pc_allow_managed_cloud := (pc_allow_managed_cloud c \<or> gt_allow_managed_cloud g)\<rparr>"

definition policy_context_for :: "registry \<Rightarrow> string \<Rightarrow> string \<Rightarrow> policy_context" where
  "policy_context_for r u w = fold merge_grant (filter gt_enabled (provider_grants r u w))
     \<lparr>pc_user_id = u, pc_workspace_id = w, pc_enabled_providers = [], pc_privacy_domains = [],
      pc_allowed_actions = [], pc_max_autonomy_level = 0, pc_allow_managed_cloud = False\<rparr>"

section \<open>Arguments\<close>

fun json_has_type :: "string \<Rightarrow> json \<Rightarrow> bool" where
  "json_has_type t (JString s) \<longleftrightarrow> t = ''string''"
| "json_has_type t (JNumber n) \<longleftrightarrow> t = ''number''"
| "json_has_type t (JBool b) \<longleftrightarrow> t = ''boolean''"
| "json_has_type t (JArray vs) \<longleftrightarrow> t = ''array''"
| "json_has_type t (JObject m) \<longleftrightarrow> t = ''object''"
| "json_has_type t JNull \<longleftrightarrow> False"

definition checked_types :: "string list" where
  "checked_types = [''string'', ''number'', ''boolean'', ''array'', ''object'']"

definition property_error :: "json \<Rightarrow> string \<times> json \<Rightarrow> string option" where
  "property_error args p = (case json_get args (fst p) of
     None \<Rightarrow> None
   | Some v \<Rightarrow> (case json_field json_as_str (snd p) ''type'' of
       None \<Rightarrow> None
     | Some t \<Rightarrow> if t \<in> set checked_types \<and> \<not> json_has_type t v
         then Some (fst p @ '' must be '' @ t) else None))"

fun properties_error :: "json \<Rightarrow> (string \<times> json) list \<Rightarrow> string option" where
  "properties_error args [] = None"
| "properties_error args (p # ps) = (case property_error args p of
     Some e \<Rightarrow> Some e | None \<Rightarrow> properties_error args ps)"

definition required_error :: "json \<Rightarrow> json \<Rightarrow> string option" where
  "required_error schema args = (case json_field json_as_array schema ''required'' of
     None \<Rightarrow> None
   | Some fs \<Rightarrow> map_option (\<lambda>f. f @ '' is required'')
       (find (\<lambda>f. json_get args f = None) (List.map_filter json_as_str fs)))"

text \<open>The branches of \<open>anyOf\<close> in order: the first that accepts ends the search.\<close>

fun any_branch :: "string list \<Rightarrow> (capability_error + unit) list \<Rightarrow> capability_error + unit" where
  "any_branch errors [] = Inl (SchemaValidationFailed (''arguments must match one schema branch: '' @
     (if errors = [] then ''no schema branch matched'' else join ''; '' errors)))"
| "any_branch errors (Inr u # bs) = Inr ()"
| "any_branch errors (Inl e # bs) = (case e of
     SchemaValidationFailed m \<Rightarrow> any_branch (errors @ [m]) bs | _ \<Rightarrow> Inl e)"

lemma json_branch_smaller:
  assumes "json_field json_as_array schema key = Some bs" "b \<in> set bs"
  shows "size b < size (schema :: json)"
proof -
  obtain v where v: "json_get schema key = Some v" "json_as_array v = Some bs"
    using assms(1) by (cases "json_get schema key") (auto simp: json_field_def)
  have "v = JArray bs"
    using v(2) by (cases v) auto
  then have "size b < size v"
    using assms(2) size_list_estimation' [of b bs "size b" size] by simp
  moreover have "size v \<le> size schema"
  proof (cases schema)
    case (JObject m)
    then have "(key, v) \<in> set m"
      using v(1) by (simp add: map_of_SomeD)
    then have "size_prod (\<lambda>x. 0) size (key, v) \<le> size_list (size_prod (\<lambda>x. 0) size) m"
      by (rule size_list_estimation') simp
    with JObject show ?thesis by simp
  qed (use v(1) in auto)
  ultimately show ?thesis by simp
qed

function validate_arguments :: "json \<Rightarrow> json \<Rightarrow> capability_error + unit" where
  "validate_arguments schema args =
     (if json_field json_as_str schema ''type'' = Some ''object'' \<and> json_as_object args = None
      then Inl (SchemaValidationFailed ''arguments must be object'')
      else case required_error schema args of
        Some e \<Rightarrow> Inl (SchemaValidationFailed e)
      | None \<Rightarrow>
          (case (case json_field json_as_array schema ''anyOf'' of
               None \<Rightarrow> Inr ()
             | Some bs \<Rightarrow> any_branch [] (List.map (\<lambda>b. validate_arguments b args) bs)) of
             Inl e \<Rightarrow> Inl e
           | Inr u \<Rightarrow> (case json_field json_as_object schema ''properties'' of
               None \<Rightarrow> Inr ()
             | Some ps \<Rightarrow> (case properties_error args ps of
                 Some e \<Rightarrow> Inl (SchemaValidationFailed e) | None \<Rightarrow> Inr ()))))"
  by pat_completeness auto
termination
  by (relation "measure (\<lambda>(schema, args). size schema)") (auto intro: json_branch_smaller)

declare validate_arguments.simps [simp del]

section \<open>The audit\<close>

record audit_event =
  ae_user_id :: string
  ae_workspace_id :: string
  ae_operation :: string
  ae_provider_id :: "string option"
  ae_tool_name :: "string option"
  ae_decision :: string
  ae_payload :: json

definition is_secret_key :: "string \<Rightarrow> bool" where
  "is_secret_key key \<longleftrightarrow> to_ascii_lowercase key \<in>
     {''access_token'', ''refresh_token'', ''api_key'', ''password'', ''secret''}"

fun redact_secrets :: "json \<Rightarrow> json"
  and redact_secret_members :: "(string \<times> json) list \<Rightarrow> (string \<times> json) list"
  and redact_secret_values :: "json list \<Rightarrow> json list" where
  "redact_secrets (JObject m) = JObject (redact_secret_members m)"
| "redact_secrets (JArray vs) = JArray (redact_secret_values vs)"
| "redact_secrets (JString s) = JString s"
| "redact_secrets JNull = JNull"
| "redact_secrets (JBool b) = JBool b"
| "redact_secrets (JNumber t) = JNumber t"
| "redact_secret_members [] = []"
| "redact_secret_members ((k, v) # m) =
     (k, if is_secret_key k then JString ''[redacted]'' else redact_secrets v) # redact_secret_members m"
| "redact_secret_values [] = []"
| "redact_secret_values (v # vs) = redact_secrets v # redact_secret_values vs"

definition record_audit :: "audit_event \<Rightarrow> audit_event list \<Rightarrow> audit_event list" where
  "record_audit e events = events @ [e\<lparr>ae_payload := redact_secrets (ae_payload e)\<rparr>]"

section \<open>Providers and the facade\<close>

text \<open>\<open>pv_call n\<close> answers the \<open>n\<close>-th executed call of the facade.\<close>

record provider =
  pv_id :: string
  pv_enabled :: bool
  pv_tools :: "capability_error + capability_tool list"
  pv_connections :: "capability_error + capability_connection list"
  pv_call :: "nat \<Rightarrow> capability_call \<Rightarrow> capability_error + capability_call_result"

definition fake_provider ::
    "string \<Rightarrow> bool \<Rightarrow> capability_tool list \<Rightarrow> capability_connection list \<Rightarrow> (string \<Rightarrow> json option)
     \<Rightarrow> provider" where
  "fake_provider i enabled tools conns responses =
     \<lparr>pv_id = i, pv_enabled = enabled, pv_tools = Inr tools, pv_connections = Inr conns,
      pv_call = (\<lambda>n call. if \<not> list_ex (\<lambda>t. ct_name t = cl_tool_name call) tools
        then Inl (ToolExecutionFailed (''tool_not_found:'' @ cl_tool_name call))
        else Inr \<lparr>cv_provider_id = i, cv_tool_name = cl_tool_name call,
          cv_output = (case responses (cl_tool_name call) of
            Some v \<Rightarrow> v | None \<Rightarrow> JObject [(''ok'', JBool True)])\<rparr>)\<rparr>"

definition cached_tool_provider :: "string \<Rightarrow> capability_tool list \<Rightarrow> provider" where
  "cached_tool_provider i tools =
     \<lparr>pv_id = i, pv_enabled = True, pv_tools = Inr tools, pv_connections = Inr [],
      pv_call = (\<lambda>n call. Inl (ProviderUnavailable (''cached planning-only provider cannot execute '' @
        cl_tool_name call @ ''; route through a live executor'')))\<rparr>"

record facade =
  fc_providers :: "provider list"
  fc_audit :: "audit_event list"
  fc_calls :: "capability_call list"

record cap_access_plan =
  cx_visible_tools :: "capability_tool list"
  cx_executable_tools :: "capability_tool list"

fun gather_tools :: "provider list \<Rightarrow> capability_error + capability_tool list" where
  "gather_tools [] = Inr []"
| "gather_tools (p # ps) =
     (if \<not> pv_enabled p then gather_tools ps
      else res_bind (pv_tools p) (\<lambda>ts. res_bind (gather_tools ps) (\<lambda>us. Inr (ts @ us))))"

definition list_tools :: "facade \<Rightarrow> policy_context \<Rightarrow> capability_error + cap_access_plan" where
  "list_tools f c = res_bind (gather_tools (fc_providers f)) (\<lambda>ts. Inr
     \<lparr>cx_visible_tools = sort_key ct_name (filter (\<lambda>t. ta_model_visible (tool_access c t)) ts),
      cx_executable_tools = sort_key ct_name (filter (\<lambda>t. ta_executable (tool_access c t)) ts)\<rparr>)"

fun gather_connections :: "provider list \<Rightarrow> capability_error + capability_connection list" where
  "gather_connections [] = Inr []"
| "gather_connections (p # ps) = res_bind (pv_connections p) (\<lambda>cs.
     res_bind (gather_connections ps) (\<lambda>ds. Inr (cs @ ds)))"

definition list_connections ::
    "facade \<Rightarrow> string \<Rightarrow> string \<Rightarrow> capability_error + capability_connection list" where
  "list_connections f u w = res_bind (gather_connections (fc_providers f)) (\<lambda>cs. Inr (sort_key cn_id
     (filter (\<lambda>c. cn_user_id c = u \<and> cn_workspace_id c = w) cs)))"

definition error_from_denial :: "string list \<Rightarrow> capability_error" where
  "error_from_denial reasons = (let first = (case reasons of [] \<Rightarrow> ''policy_denied'' | r # rs \<Rightarrow> r) in
     if starts_with ''managed_cloud_not_allowed:'' first then ManagedProviderBoundary first
     else PolicyDenied first)"

text \<open>The metrics of a compressed payload are left out of the audited value.\<close>

definition audit_tool_result_payload :: "json_text \<Rightarrow> json \<Rightarrow> json" where
  "audit_tool_result_payload jt output = (let raw = jt_print jt output in
     if char_count raw \<le> 2000 then output
     else JObject [(''compressed'', JBool True), (''text'', JString (cz_text (compress jt ToolJson raw
       ((policy_for_kind ToolJson)\<lparr>cy_max_chars := 2000\<rparr>))))])"

definition call_event :: "policy_context \<Rightarrow> capability_call \<Rightarrow> string \<Rightarrow> json \<Rightarrow> audit_event" where
  "call_event c call decision payload =
     \<lparr>ae_user_id = pc_user_id c, ae_workspace_id = pc_workspace_id c, ae_operation = ''call_tool'',
      ae_provider_id = Some (cl_provider_id call), ae_tool_name = Some (cl_tool_name call),
      ae_decision = decision, ae_payload = payload\<rparr>"

definition call_tool ::
    "json_text \<Rightarrow> policy_context \<Rightarrow> capability_call \<Rightarrow> facade
     \<Rightarrow> (capability_error + capability_call_result) \<times> facade" where
  "call_tool jt c call f = (case find (\<lambda>p. pv_id p = cl_provider_id call) (fc_providers f) of
     None \<Rightarrow> (Inl (ProviderUnavailable (''provider_not_found:'' @ cl_provider_id call)), f)
   | Some p \<Rightarrow> (case pv_tools p of
       Inl e \<Rightarrow> (Inl e, f)
     | Inr tools \<Rightarrow> (case find (\<lambda>t. ct_name t = cl_tool_name call) tools of
         None \<Rightarrow> (Inl (ToolExecutionFailed (''tool_not_found:'' @ cl_tool_name call)), f)
       | Some tool \<Rightarrow> (let decision = tool_access c tool in
           if \<not> ta_executable decision
           then (Inl (error_from_denial (ta_reasons decision)),
             f\<lparr>fc_audit := record_audit (call_event c call ''denied'' (JObject
               [(''arguments'', cl_arguments call),
                (''reasons'', JArray (List.map JString (ta_reasons decision)))])) (fc_audit f)\<rparr>)
           else case validate_arguments (ct_input_schema tool) (cl_arguments call) of
             Inl e \<Rightarrow> (Inl e, f)
           | Inr u \<Rightarrow> (let f' = f\<lparr>fc_calls := fc_calls f @ [call]\<rparr> in
               case pv_call p (length (fc_calls f)) call of
                 Inl e \<Rightarrow> (Inl e, f')
               | Inr result \<Rightarrow> (Inr result,
                   f'\<lparr>fc_audit := record_audit (call_event c call ''allowed'' (JObject
                     [(''arguments'', cl_arguments call),
                      (''result'', audit_tool_result_payload jt (cv_output result))])) (fc_audit f)\<rparr>))))))"

section \<open>Routing of plugins\<close>

text \<open>A pattern that ends in \<open>*\<close> denies by prefix.\<close>

definition tool_matches_deny :: "string list \<Rightarrow> string \<Rightarrow> bool" where
  "tool_matches_deny deny tool \<longleftrightarrow> list_ex (\<lambda>pattern.
     if pattern \<noteq> [] \<and> last pattern = CHR ''*'' then starts_with (butlast pattern) tool
     else pattern = tool) deny"

end
