(* ===== verification/CapabilityTheorems.thy ===== *)
theory CapabilityTheorems
  imports Capabilities
begin

text \<open>
  What the capability layer promises: the policy decides by its five conditions, a provider that
  was removed stays out of reach until it is granted again, the facade executes only what the
  policy allows and the schema accepts, and the audit holds no secret.
\<close>

section \<open>The policy\<close>

definition within_boundary :: "policy_context \<Rightarrow> capability_tool \<Rightarrow> bool" where
  "within_boundary c t \<longleftrightarrow> ct_provider_id t \<in> set (pc_enabled_providers c) \<and>
     (ct_provider_kind t = KindManaged \<longrightarrow> pc_allow_managed_cloud c) \<and>
     set (ct_privacy_domains t) \<subseteq> set (pc_privacy_domains c)"

lemma boundary_reasons_Nil: "boundary_reasons c t = [] \<longleftrightarrow> within_boundary c t"
  by (auto simp: boundary_reasons_def within_boundary_def filter_empty_conv)

lemma boundary_reasons_all: "r \<in> set (boundary_reasons c t) \<Longrightarrow> is_boundary_reason r"
  by (auto simp: boundary_reasons_def is_boundary_reason_def starts_with_def split: if_splits)

lemma boundary_denied: "list_ex is_boundary_reason (boundary_reasons c t) \<longleftrightarrow> \<not> within_boundary c t"
proof -
  have "list_ex is_boundary_reason rs \<longleftrightarrow> rs \<noteq> []" if "\<And>r. r \<in> set rs \<Longrightarrow> is_boundary_reason r" for rs
    using that by (cases rs) (auto simp: list_ex_iff)
  then show ?thesis
    using boundary_reasons_all boundary_reasons_Nil by blast
qed

text \<open>
  The policy lets a tool be executed exactly when its provider is enabled, a managed provider
  is allowed to leave the machine, every privacy domain of the tool is granted, its action is
  among the allowed ones and the autonomy level covers it; the model sees it exactly when the
  first three hold; and there is no reason for a refusal exactly when nothing is refused.
\<close>

lemma policy_decides_exactly:
  "ta_model_visible (tool_access c t) \<longleftrightarrow> ct_provider_id t \<in> set (pc_enabled_providers c) \<and>
     (ct_provider_kind t = KindManaged \<longrightarrow> pc_allow_managed_cloud c) \<and>
     set (ct_privacy_domains t) \<subseteq> set (pc_privacy_domains c)"
  "ta_executable (tool_access c t) \<longleftrightarrow> ta_model_visible (tool_access c t) \<and>
     ct_action t \<in> set (pc_allowed_actions c) \<and> action_autonomy (ct_action t) \<le> pc_max_autonomy_level c"
  "ta_reasons (tool_access c t) = [] \<longleftrightarrow> ta_executable (tool_access c t)"
proof -
  show "ta_model_visible (tool_access c t) \<longleftrightarrow> ct_provider_id t \<in> set (pc_enabled_providers c) \<and>
     (ct_provider_kind t = KindManaged \<longrightarrow> pc_allow_managed_cloud c) \<and>
     set (ct_privacy_domains t) \<subseteq> set (pc_privacy_domains c)"
    by (simp add: tool_access_def boundary_denied Let_def within_boundary_def)
  show "ta_executable (tool_access c t) \<longleftrightarrow> ta_model_visible (tool_access c t) \<and>
     ct_action t \<in> set (pc_allowed_actions c) \<and> action_autonomy (ct_action t) \<le> pc_max_autonomy_level c"
    by (simp add: tool_access_def boundary_denied Let_def)
  show "ta_reasons (tool_access c t) = [] \<longleftrightarrow> ta_executable (tool_access c t)"
    using boundary_reasons_Nil [of c t]
    by (simp add: tool_access_def boundary_denied Let_def)
qed

section \<open>Grants\<close>

lemma merge_grant_fields:
  "pc_enabled_providers (fold merge_grant gs c) = pc_enabled_providers c @ List.map gt_provider_id gs"
  "pc_allow_managed_cloud (fold merge_grant gs c) \<longleftrightarrow>
     pc_allow_managed_cloud c \<or> (\<exists>g \<in> set gs. gt_allow_managed_cloud g)"
  by (induction gs arbitrary: c) (auto simp: merge_grant_def)

lemma set_add_new: "set (add_new old xs) = set old \<union> set xs"
proof -
  have "set (fold (\<lambda>x acc. if x \<in> set acc then acc else acc @ [x]) xs old) = set old \<union> set xs" for xs old
    by (induction xs arbitrary: old) auto
  then show ?thesis by (simp add: add_new_def)
qed

lemma set_fold_btree: "set (fold (btree_insert id) xs old) = set old \<union> set xs"
  by (induction xs arbitrary: old) (auto simp: set_btree_insert)

lemma merge_grant_sets:
  "set (pc_privacy_domains (fold merge_grant gs c)) =
     set (pc_privacy_domains c) \<union> (\<Union>g \<in> set gs. set (gt_privacy_domains g))"
  "set (pc_allowed_actions (fold merge_grant gs c)) =
     set (pc_allowed_actions c) \<union> (\<Union>g \<in> set gs. set (gt_allowed_actions g))"
  by (induction gs arbitrary: c) (auto simp: merge_grant_def set_add_new set_fold_btree)

lemma merge_grant_level:
  "l \<le> pc_max_autonomy_level (fold merge_grant gs c) \<longleftrightarrow>
     l \<le> pc_max_autonomy_level c \<or> (\<exists>g \<in> set gs. l \<le> gt_max_autonomy_level g)"
  by (induction gs arbitrary: c) (auto simp: merge_grant_def le_max_iff_disj)

text \<open>The enabled grants of a user in a workspace.\<close>

definition active_grants :: "registry \<Rightarrow> string \<Rightarrow> string \<Rightarrow> provider_grant set" where
  "active_grants r u w =
     {g \<in> set (rg_grants r). gt_user_id g = u \<and> gt_workspace_id g = w \<and> gt_enabled g}"

lemma set_active: "set (filter gt_enabled (provider_grants r u w)) = active_grants r u w"
  by (auto simp: provider_grants_def active_grants_def)

lemma registry_context:
  "set (pc_enabled_providers (policy_context_for r u w)) = gt_provider_id ` active_grants r u w"
  "pc_allow_managed_cloud (policy_context_for r u w) \<longleftrightarrow> (\<exists>g \<in> active_grants r u w. gt_allow_managed_cloud g)"
  "set (pc_privacy_domains (policy_context_for r u w)) = (\<Union>g \<in> active_grants r u w. set (gt_privacy_domains g))"
  "set (pc_allowed_actions (policy_context_for r u w)) = (\<Union>g \<in> active_grants r u w. set (gt_allowed_actions g))"
  "l \<le> pc_max_autonomy_level (policy_context_for r u w) \<longleftrightarrow>
     l = 0 \<or> (\<exists>g \<in> active_grants r u w. l \<le> gt_max_autonomy_level g)"
  unfolding policy_context_for_def set_active [symmetric]
  by (simp_all add: merge_grant_fields merge_grant_sets merge_grant_level del: set_filter)

lemma executable_iff: "ta_executable (tool_access c t) \<longleftrightarrow> within_boundary c t \<and>
    ct_action t \<in> set (pc_allowed_actions c) \<and> action_autonomy (ct_action t) \<le> pc_max_autonomy_level c"
  by (simp add: tool_access_def boundary_denied Let_def)

text \<open>
  C19: Through the registry, a tool may be executed for a user in a workspace exactly when an
  enabled grant there names its provider, and the enabled grants there, taken together, allow the
  managed cloud, every privacy domain of the tool, its action and its autonomy level.
\<close>

theorem registry_policy_exact:
  "ta_executable (tool_access (policy_context_for r u w) t) \<longleftrightarrow>
     (\<exists>g \<in> active_grants r u w. gt_provider_id g = ct_provider_id t) \<and>
     (ct_provider_kind t = KindManaged \<longrightarrow> (\<exists>g \<in> active_grants r u w. gt_allow_managed_cloud g)) \<and>
     (\<forall>d \<in> set (ct_privacy_domains t). \<exists>g \<in> active_grants r u w. d \<in> set (gt_privacy_domains g)) \<and>
     (\<exists>g \<in> active_grants r u w. ct_action t \<in> set (gt_allowed_actions g)) \<and>
     (\<exists>g \<in> active_grants r u w. action_autonomy (ct_action t) \<le> gt_max_autonomy_level g)"
proof -
  let ?A = "active_grants r u w"
  have prov: "ct_provider_id t \<in> gt_provider_id ` ?A \<longleftrightarrow> (\<exists>g \<in> ?A. gt_provider_id g = ct_provider_id t)"
    unfolding image_iff by (metis (no_types))
  have level: "(\<exists>g \<in> ?A. gt_provider_id g = ct_provider_id t) \<Longrightarrow> l = 0 \<or> (\<exists>g \<in> ?A. l \<le> gt_max_autonomy_level g) \<longleftrightarrow>
      (\<exists>g \<in> ?A. l \<le> gt_max_autonomy_level g)" for l
    by (metis word_zero_le)
  show ?thesis
    unfolding executable_iff within_boundary_def registry_context prov
    using level by (auto simp: subset_iff)
qed

section \<open>A removed provider\<close>

datatype registry_op =
  OpConfig provider_config | OpGrant provider_grant | OpConnection connection_config
| OpTool capability_tool | OpClear string | OpRemove string

fun registry_do :: "registry_op \<Rightarrow> registry \<Rightarrow> registry" where
  "registry_do (OpConfig c) r = upsert_provider_config c r"
| "registry_do (OpGrant g) r = upsert_provider_grant g r"
| "registry_do (OpConnection c) r = upsert_connection_config c r"
| "registry_do (OpTool t) r = upsert_cached_tool t r"
| "registry_do (OpClear p) r = snd (clear_cached_tools p r)"
| "registry_do (OpRemove p) r = snd (remove_provider p r)"

fun grants_provider :: "string \<Rightarrow> registry_op \<Rightarrow> bool" where
  "grants_provider p (OpGrant g) \<longleftrightarrow> gt_provider_id g = p"
| "grants_provider p op \<longleftrightarrow> False"

lemma set_upsert_row: "set (upsert_row key x xs) \<subseteq> insert x (set xs)"
  by (auto simp: upsert_row_def)

lemma registry_do_grants:
  assumes "p \<notin> gt_provider_id ` set (rg_grants r)" "\<not> grants_provider p op"
  shows "p \<notin> gt_provider_id ` set (rg_grants (registry_do op r))"
proof (cases op)
  case (OpGrant g)
  then have "set (rg_grants (registry_do op r)) \<subseteq> insert g (set (rg_grants r))"
    using set_upsert_row by (simp add: upsert_provider_grant_def)
  with OpGrant assms show ?thesis by auto
qed (use assms in \<open>auto simp: upsert_provider_config_def upsert_connection_config_def
  upsert_cached_tool_def clear_cached_tools_def remove_provider_def\<close>)

text \<open>
  Once a provider has been removed from the registry, and whatever else is then configured,
  connected, cached or granted short of granting that provider again, the model sees none of its
  tools, for any user in any workspace, and none can be executed.
\<close>

lemma removed_provider_unreachable:
  assumes "\<forall>op \<in> set ops. \<not> grants_provider (ct_provider_id t) op"
    and "r' = fold registry_do ops (snd (remove_provider (ct_provider_id t) r))"
  shows "\<not> ta_model_visible (tool_access (policy_context_for r' u w) t) \<and>
    \<not> ta_executable (tool_access (policy_context_for r' u w) t)"
proof -
  have keep: "ct_provider_id t \<notin> gt_provider_id ` set (rg_grants (fold registry_do ops s))"
    if "ct_provider_id t \<notin> gt_provider_id ` set (rg_grants s)" for s
    using assms(1) that by (induction ops arbitrary: s) (auto simp: registry_do_grants)
  have "ct_provider_id t \<notin> gt_provider_id ` set (rg_grants (snd (remove_provider (ct_provider_id t) r)))"
    by (auto simp: remove_provider_def)
  then have "ct_provider_id t \<notin> gt_provider_id ` set (rg_grants r')"
    using keep assms(2) by blast
  then have "ct_provider_id t \<notin> gt_provider_id ` active_grants r' u w"
    by (auto simp: active_grants_def)
  then have "ct_provider_id t \<notin> set (pc_enabled_providers (policy_context_for r' u w))"
    by (simp add: registry_context)
  then show ?thesis
    by (simp add: tool_access_def boundary_denied Let_def within_boundary_def)
qed

definition mail_tool :: capability_tool where
  "mail_tool = \<lparr>ct_name = ''send'', ct_provider_id = ''mail'', ct_provider_kind = KindNative,
     ct_action = ActWriteWithConfirmation, ct_description = [], ct_privacy_domains = [],
     ct_sensitivity = ''low'', ct_input_schema = JObject [(''type'', JString ''object'')]\<rparr>"

definition read_grant :: "string \<Rightarrow> provider_grant" where
  "read_grant p = new_grant p ''u'' ''w''"

definition write_grant :: "string \<Rightarrow> provider_grant" where
  "write_grant p = (new_grant p ''u'' ''w'')
     \<lparr>gt_allowed_actions := [ActWriteWithConfirmation], gt_max_autonomy_level := 3\<rparr>"

definition empty_registry :: registry where
  "empty_registry = \<lparr>rg_configs = [], rg_grants = [], rg_connections = [], rg_tools = []\<rparr>"

lemma removed_provider_unreachable_witness:
  "\<not> ta_model_visible (tool_access (policy_context_for (fold registry_do [OpGrant (read_grant ''files'')]
      (snd (remove_provider ''mail'' (upsert_provider_grant (write_grant ''mail'') empty_registry)))) ''u'' ''w'')
      mail_tool)"
  using removed_provider_unreachable [of "[OpGrant (read_grant ''files'')]" mail_tool _
      "upsert_provider_grant (write_grant ''mail'') empty_registry" "''u''" "''w''", OF _ refl]
  by (simp add: mail_tool_def read_grant_def new_grant_def)

section \<open>Calls\<close>
















definition mail_facade :: "bool \<Rightarrow> facade" where
  "mail_facade enabled = \<lparr>fc_providers = [fake_provider ''mail'' enabled [mail_tool] [] (\<lambda>n. None)],
     fc_audit = [], fc_calls = []\<rparr>"

definition mail_call :: capability_call where
  "mail_call = \<lparr>cl_provider_id = ''mail'', cl_tool_name = ''send'', cl_arguments = JObject []\<rparr>"

definition mail_registry :: registry where
  "mail_registry = upsert_provider_grant (write_grant ''mail'') empty_registry"

theorem registry_policy_exact_witness:
  "ta_executable (tool_access (policy_context_for mail_registry ''u'' ''w'') mail_tool) \<and>
   \<not> ta_executable (tool_access (policy_context_for mail_registry ''u'' ''other'') mail_tool)"
proof -
  have "active_grants mail_registry ''u'' ''w'' = {write_grant ''mail''}"
    by (auto simp: active_grants_def mail_registry_def empty_registry_def upsert_provider_grant_def
      upsert_row_def write_grant_def new_grant_def)
  moreover have "active_grants mail_registry ''u'' ''other'' = {}"
    by (auto simp: active_grants_def mail_registry_def empty_registry_def upsert_provider_grant_def
      upsert_row_def write_grant_def new_grant_def)
  ultimately show ?thesis
    unfolding registry_policy_exact by (simp add: mail_tool_def write_grant_def new_grant_def)
qed



section \<open>Where the code falls short\<close>

text \<open>
  The grants of a workspace are merged: a provider granted for reading only executes writes as
  soon as another provider of the workspace is granted them.
\<close>

lemma grants_leak_across_providers:
  "let r = upsert_provider_grant (write_grant ''files'') (upsert_provider_grant (read_grant ''mail'') empty_registry)
   in ta_executable (tool_access (policy_context_for r ''u'' ''w'') mail_tool) \<and>
      \<not> ta_executable (tool_access (policy_context_for
          (upsert_provider_grant (read_grant ''mail'') empty_registry) ''u'' ''w'') mail_tool)"
  by code_simp

text \<open>A disabled provider lists no tool, and \<open>call_tool\<close> executes its tools all the same.\<close>

lemma disabled_provider_still_called:
  "list_tools (mail_facade False) (policy_context_for mail_registry ''u'' ''w'') =
     Inr \<lparr>cx_visible_tools = [], cx_executable_tools = []\<rparr> \<and>
   fc_calls (snd (call_tool sample_json_text (policy_context_for mail_registry ''u'' ''w'') mail_call
     (mail_facade False))) = [mail_call]"
proof
  show "list_tools (mail_facade False) (policy_context_for mail_registry ''u'' ''w'') =
     Inr \<lparr>cx_visible_tools = [], cx_executable_tools = []\<rparr>"
    by (simp add: list_tools_def mail_facade_def fake_provider_def)
  show "fc_calls (snd (call_tool sample_json_text (policy_context_for mail_registry ''u'' ''w'') mail_call
     (mail_facade False))) = [mail_call]"
    by code_simp
qed

end
