(* ===== verification/Processes.thy ===== *)
theory Processes
  imports Text
begin

text \<open>
  The process manager (crates/process-manager): what it knows of a process (types.rs), its registry
  (store.rs), health checks (health.rs) and the logs of a process (log_buffer.rs, supervisor.rs).

  A row of the registry holds the JSON of its value and is read back as the value itself. Unicode
  case folding (\<open>lower\<close>) and the JSON of a log entry (\<open>log_text\<close>) are parameters; a percentage of the
  processor is kept as its text.
\<close>

section \<open>Types\<close>

datatype process_kind =
  LlmRuntime | BrowserSidecar | McpServer | SkillRunner | PluginHost | OtherProcess

datatype health_check = NoHealthCheck | ProcessAlive | HttpGet string u64

text \<open>\<open>Bounded max_restarts backoff_ms backoff_max_ms uptime_reset_ms\<close>.\<close>

datatype restart_policy = NoRestart | Bounded u32 u64 u64 u64

datatype process_status =
  PsConfigured | PsStarting | PsRunning | PsHealthy | PsUnhealthy | PsExited | PsFailed | PsStopped
| PsRestarting

record process_spec =
  sc_id :: string
  sc_kind :: process_kind
  sc_command :: string
  sc_args :: "string list"
  sc_env :: "(string \<times> string) list"
  sc_cwd :: "string option"
  sc_health_check :: health_check
  sc_restart_policy :: restart_policy
  sc_log_capacity :: nat
  sc_graceful_shutdown_ms :: u64

definition new_process_spec :: "string \<Rightarrow> process_kind \<Rightarrow> string \<Rightarrow> process_spec" where
  "new_process_spec i kind command = \<lparr>sc_id = i, sc_kind = kind, sc_command = command, sc_args = [],
     sc_env = [], sc_cwd = None, sc_health_check = ProcessAlive, sc_restart_policy = NoRestart,
     sc_log_capacity = 500, sc_graceful_shutdown_ms = 1000\<rparr>"

record process_snapshot =
  pn_process_id :: string
  pn_kind :: process_kind
  pn_status :: process_status
  pn_pid :: "u32 option"
  pn_started_at :: "string option"
  pn_finished_at :: "string option"
  pn_last_health_at :: "string option"
  pn_restart_count :: u32
  pn_exit_code :: "int option"
  pn_message :: "string option"

definition new_snapshot :: "string \<Rightarrow> process_kind \<Rightarrow> process_status \<Rightarrow> process_snapshot" where
  "new_snapshot i kind st = \<lparr>pn_process_id = i, pn_kind = kind, pn_status = st, pn_pid = None,
     pn_started_at = None, pn_finished_at = None, pn_last_health_at = None, pn_restart_count = 0,
     pn_exit_code = None, pn_message = None\<rparr>"

definition configured_snapshot :: "process_spec \<Rightarrow> process_snapshot" where
  "configured_snapshot spec = new_snapshot (sc_id spec) (sc_kind spec) PsConfigured"

datatype pm_error =
  PmSqlite string | PmJson string | PmNotFound string | PmInvalidSpec string | PmIo string
| PmHealth string

section \<open>The registry\<close>

text \<open>Both tables have the id as primary key; an upsert replaces the row.\<close>

record process_registry =
  py_specs :: "process_spec list"
  py_snapshots :: "process_snapshot list"

definition upsert_spec :: "process_spec \<Rightarrow> process_registry \<Rightarrow> process_registry" where
  "upsert_spec spec r = r\<lparr>py_specs := btree_insert sc_id spec (py_specs r)\<rparr>"

definition get_spec :: "process_registry \<Rightarrow> string \<Rightarrow> process_spec option" where
  "get_spec r i = btree_get sc_id (py_specs r) i"

definition list_specs :: "process_registry \<Rightarrow> process_spec list" where
  "list_specs r = py_specs r"

definition record_snapshot :: "process_snapshot \<Rightarrow> process_registry \<Rightarrow> process_registry" where
  "record_snapshot s r = r\<lparr>py_snapshots := btree_insert pn_process_id s (py_snapshots r)\<rparr>"

definition latest_snapshot :: "process_registry \<Rightarrow> string \<Rightarrow> process_snapshot option" where
  "latest_snapshot r i = btree_get pn_process_id (py_snapshots r) i"

lemma get_spec_upsert [row_simps]:
  "get_spec (upsert_spec spec r) i = (if i = sc_id spec then Some spec else get_spec r i)"
  by (simp add: get_spec_def upsert_spec_def btree_get_insert)

lemma latest_snapshot_record [row_simps]:
  "latest_snapshot (record_snapshot s r) i = (if i = pn_process_id s then Some s else latest_snapshot r i)"
  by (simp add: latest_snapshot_def record_snapshot_def btree_get_insert)

lemma registry_frame [row_simps]:
  "get_spec (record_snapshot s r) = get_spec r" "latest_snapshot (upsert_spec spec r) = latest_snapshot r"
  by (auto simp: get_spec_def record_snapshot_def latest_snapshot_def upsert_spec_def)

section \<open>Health\<close>

record health_probe_result =
  hp_healthy :: bool
  hp_message :: string

definition evaluate_health ::
    "(string \<Rightarrow> u64 \<Rightarrow> health_probe_result) \<Rightarrow> process_spec \<Rightarrow> process_snapshot \<Rightarrow> health_probe_result" where
  "evaluate_health http_get spec s = (case sc_health_check spec of
     NoHealthCheck \<Rightarrow> \<lparr>hp_healthy = True, hp_message = ''health check disabled''\<rparr>
   | ProcessAlive \<Rightarrow> (if pn_status s \<in> {PsRunning, PsHealthy}
       then \<lparr>hp_healthy = True, hp_message = ''process alive''\<rparr>
       else \<lparr>hp_healthy = False, hp_message = ''process is not running''\<rparr>)
   | HttpGet url timeout_ms \<Rightarrow> http_get url timeout_ms)"

section \<open>Logs\<close>

datatype log_stream = Stdout | Stderr

record log_entry =
  ly_stream :: log_stream
  ly_line :: string

text \<open>A buffer of bounded capacity: the oldest entries leave.\<close>

record log_buffer =
  lb_capacity :: nat
  lb_entries :: "log_entry list"

definition new_log_buffer :: "nat \<Rightarrow> log_buffer" where
  "new_log_buffer capacity = \<lparr>lb_capacity = capacity, lb_entries = []\<rparr>"

definition push_log :: "log_entry \<Rightarrow> log_buffer \<Rightarrow> log_buffer" where
  "push_log e b = (if lb_capacity b = 0 then b
     else b\<lparr>lb_entries := drop (Suc (length (lb_entries b)) - lb_capacity b) (lb_entries b) @ [e]\<rparr>)"

text \<open>
  A line is redacted after the first marker of the list that occurs in it. The position is found
  in the folded text and cut in the original: \<open>None\<close> is the panic of \<open>truncate\<close> within a character.
\<close>

definition log_markers :: "string list" where
  "log_markers = [''sk-'', ''sk_proj_'', ''token='', ''Authorization:'', ''Bearer '', ''password='', ''secret='']"

fun find_at :: "nat \<Rightarrow> string \<Rightarrow> string \<Rightarrow> nat option" where
  "find_at i p [] = (if p = [] then Some i else None)"
| "find_at i p (c # s) = (if starts_with p (c # s) then Some i else find_at (Suc i) p s)"

definition is_char_boundary :: "string \<Rightarrow> nat \<Rightarrow> bool" where
  "is_char_boundary s i \<longleftrightarrow> i = 0 \<or> i = length s \<or>
     i < length s \<and> \<not> (128 \<le> byte (s ! i) \<and> byte (s ! i) < 192)"

definition truncate_at :: "nat \<Rightarrow> string \<Rightarrow> string option" where
  "truncate_at i s = (if length s \<le> i then Some s
     else if is_char_boundary s i then Some (take i s) else None)"

fun redact_markers :: "(string \<Rightarrow> string) \<Rightarrow> string list \<Rightarrow> string \<Rightarrow> string option" where
  "redact_markers lower [] s = Some s"
| "redact_markers lower (m # ms) s = (case find_at 0 (lower m) (lower s) of
     None \<Rightarrow> redact_markers lower ms s
   | Some i \<Rightarrow> map_option (\<lambda>t. t @ ''[REDACTED]'') (truncate_at (i + length m) s))"

definition redact_sensitive_log_line :: "(string \<Rightarrow> string) \<Rightarrow> string \<Rightarrow> string option" where
  "redact_sensitive_log_line lower s = redact_markers lower log_markers s"

text \<open>The persistent log of a process is a file of JSON lines, trimmed after each entry.\<close>

record log_text =
  lt_print :: "log_entry \<Rightarrow> string"
  lt_parse :: "string \<Rightarrow> log_entry option"

definition trim_persistent_log :: "nat \<Rightarrow> string \<Rightarrow> string" where
  "trim_persistent_log capacity content = (let ls = text_lines content in
     if length ls \<le> capacity then content
     else join [LF] (drop (length ls - capacity) ls) @ [LF])"

definition push_persistent ::
    "log_text \<Rightarrow> (string \<Rightarrow> string) \<Rightarrow> nat \<Rightarrow> log_entry \<Rightarrow> string \<Rightarrow> string option" where
  "push_persistent lt lower capacity e content = (if capacity = 0 then Some content
     else map_option (\<lambda>line. trim_persistent_log capacity
         (content @ lt_print lt \<lparr>ly_stream = ly_stream e, ly_line = line\<rparr> @ [LF]))
       (redact_sensitive_log_line lower (ly_line e)))"

definition read_persistent_log :: "log_text \<Rightarrow> string \<Rightarrow> log_entry list" where
  "read_persistent_log lt content = List.map_filter (lt_parse lt) (text_lines content)"

definition persistent_log_name :: "string \<Rightarrow> string" where
  "persistent_log_name i = List.map (\<lambda>c. if is_ascii_alnum c \<or> c = CHR ''-'' \<or> c = CHR ''_'' then c
     else CHR ''_'') i @ ''.jsonl''"

subsection \<open>What logs keep\<close>

lemma log_buffer_keeps_last:
  "lb_entries (fold push_log es (new_log_buffer capacity)) = drop (length es - capacity) es"
proof -
  have keep: "lb_capacity (fold push_log es b) = lb_capacity b" for b es
    by (induction es arbitrary: b) (simp_all add: push_log_def)
  have push: "lb_entries (push_log e b) = drop (length es + 1 - lb_capacity b) (es @ [e])"
    if "lb_entries b = drop (length es - lb_capacity b) es" for e b es
    using that
    by (cases "lb_capacity b = 0"; cases "length es \<le> lb_capacity b") (auto simp: push_log_def Suc_diff_le)
  show ?thesis
  proof (induction es rule: rev_induct)
    case (snoc e es)
    then show ?case
      using push [of "fold push_log es (new_log_buffer capacity)" es e] keep [of es "new_log_buffer capacity"]
      by (simp add: new_log_buffer_def)
  qed (simp add: new_log_buffer_def)
qed

text \<open>The persistent log: what is read back after any entries have been appended.\<close>

definition clean_line :: "string \<Rightarrow> bool" where
  "clean_line l \<longleftrightarrow> LF \<notin> set l \<and> (l = [] \<or> last l \<noteq> CR)"

definition log_file :: "string list \<Rightarrow> string" where
  "log_file ls = concat (List.map (\<lambda>l. l @ [LF]) ls)"

lemma text_lines_log_file: "list_all clean_line ls \<Longrightarrow> text_lines (log_file ls) = ls"
  by (auto simp: log_file_def list_all_iff clean_line_def intro!: text_lines_concat)

lemma join_log_file: "ls \<noteq> [] \<Longrightarrow> join [LF] ls @ [LF] = log_file ls"
  by (simp add: join_terminated log_file_def)

lemma trim_log_file:
  assumes "list_all clean_line ls" "capacity \<noteq> 0"
  shows "trim_persistent_log capacity (log_file ls) = log_file (drop (length ls - capacity) ls)"
proof (cases "length ls \<le> capacity")
  case False
  with assms(2) have "drop (length ls - capacity) ls \<noteq> []" by auto
  with False assms(1) show ?thesis
    by (simp add: trim_persistent_log_def Let_def text_lines_log_file join_log_file)
qed (simp add: trim_persistent_log_def Let_def text_lines_log_file assms)

definition redacted_entry :: "(string \<Rightarrow> string) \<Rightarrow> log_entry \<Rightarrow> log_entry option" where
  "redacted_entry lower e =
     map_option (\<lambda>l. \<lparr>ly_stream = ly_stream e, ly_line = l\<rparr>) (redact_sensitive_log_line lower (ly_line e))"

fun push_all ::
    "log_text \<Rightarrow> (string \<Rightarrow> string) \<Rightarrow> nat \<Rightarrow> log_entry list \<Rightarrow> string \<Rightarrow> string option" where
  "push_all lt lower capacity [] content = Some content"
| "push_all lt lower capacity (e # es) content =
     Option.bind (push_persistent lt lower capacity e content) (push_all lt lower capacity es)"

lemma push_persistent_file:
  assumes "list_all clean_line ls" "clean_line (lt_print lt r)" "capacity \<noteq> 0"
    "redacted_entry lower e = Some r"
  shows "push_persistent lt lower capacity e (log_file ls) =
    Some (log_file (drop (Suc (length ls) - capacity) (ls @ [lt_print lt r])))"
proof -
  have "log_file ls @ lt_print lt r @ [LF] = log_file (ls @ [lt_print lt r])"
    by (simp add: log_file_def)
  then show ?thesis
    using assms trim_log_file [of "ls @ [lt_print lt r]" capacity]
    by (auto simp: push_persistent_def redacted_entry_def)
qed

lemma drop_drop_append:
  "drop (length (drop (length xs - n) xs @ ys) - n) (drop (length xs - n) xs @ ys) =
     drop (length (xs @ ys) - n) (xs @ ys)"
  by (cases "length xs \<le> n") (auto simp: add.commute)

lemma push_all_file:
  assumes "list_all clean_line ls" "\<forall>r \<in> set rs. clean_line (lt_print lt r)" "capacity \<noteq> 0"
    "List.map (redacted_entry lower) es = List.map Some rs"
  shows "push_all lt lower capacity es (log_file (drop (length ls - capacity) ls)) =
    Some (log_file (drop (length ls + length rs - capacity) (ls @ List.map (lt_print lt) rs)))"
  using assms
proof (induction es arbitrary: ls rs)
  case (Cons e es)
  then obtain r rs' where rs: "rs = r # rs'" "redacted_entry lower e = Some r"
    "List.map (redacted_entry lower) es = List.map Some rs'"
    by (cases rs) auto
  have "list_all clean_line (drop (length ls - capacity) ls)"
    using Cons.prems(1) by (auto simp: list_all_iff dest: in_set_dropD)
  then show ?case
    using Cons.IH [of "ls @ [lt_print lt r]" rs'] Cons.prems rs
      drop_drop_append [of ls capacity "[lt_print lt r]"]
    by (simp add: push_persistent_file [OF _ _ _ rs(2)])
qed simp

lemma read_log_file:
  assumes "\<forall>r \<in> set rs. lt_parse lt (lt_print lt r) = Some r \<and> clean_line (lt_print lt r)"
  shows "read_persistent_log lt (log_file (List.map (lt_print lt) rs)) = rs"
proof -
  have "List.map_filter (lt_parse lt) (List.map (lt_print lt) rs) = rs"
    using assms by (induction rs) (auto simp: List.map_filter_simps)
  moreover have "list_all clean_line (List.map (lt_print lt) rs)"
    using assms by (auto simp: list_all_iff)
  ultimately show ?thesis
    by (simp add: read_persistent_log_def text_lines_log_file)
qed

text \<open>
  C25: The persistent log of a process holds, after any entries have been appended to it, the last
  \<open>capacity\<close> of them in order, each redacted: reading the file gives exactly these back.
\<close>

theorem persistent_log_keeps_last:
  assumes "\<forall>r \<in> set rs. lt_parse lt (lt_print lt r) = Some r \<and> clean_line (lt_print lt r)"
    and "capacity \<noteq> 0" "List.map (redacted_entry lower) es = List.map Some rs"
  shows "\<exists>content. push_all lt lower capacity es [] = Some content \<and>
    read_persistent_log lt content = drop (length rs - capacity) rs"
proof -
  have "push_all lt lower capacity es [] = Some (log_file (List.map (lt_print lt) (drop (length rs - capacity) rs)))"
    using push_all_file [of "[]" rs lt capacity lower es] assms by (simp add: log_file_def drop_map)
  then show ?thesis
    using read_log_file [of "drop (length rs - capacity) rs" lt] assms(1) by (auto dest: in_set_dropD)
qed

definition plain_log :: log_text where
  "plain_log = \<lparr>lt_print = ly_line, lt_parse = (\<lambda>s. Some \<lparr>ly_stream = Stdout, ly_line = s\<rparr>)\<rparr>"

theorem persistent_log_keeps_last_witness:
  "\<exists>content. push_all plain_log to_ascii_lowercase 1
     [\<lparr>ly_stream = Stdout, ly_line = ''ready''\<rparr>, \<lparr>ly_stream = Stdout, ly_line = ''Token=abc''\<rparr>] [] = Some content \<and>
   read_persistent_log plain_log content = [\<lparr>ly_stream = Stdout, ly_line = ''Token=[REDACTED]''\<rparr>]"
proof -
  let ?es = "[\<lparr>ly_stream = Stdout, ly_line = ''ready''\<rparr>, \<lparr>ly_stream = Stdout, ly_line = ''Token=abc''\<rparr>]"
  let ?rs = "[\<lparr>ly_stream = Stdout, ly_line = ''ready''\<rparr>, \<lparr>ly_stream = Stdout, ly_line = ''Token=[REDACTED]''\<rparr>]"
  have "List.map (redacted_entry to_ascii_lowercase) ?es = List.map Some ?rs"
    by code_simp
  moreover have "\<forall>r \<in> set ?rs. lt_parse plain_log (lt_print plain_log r) = Some r \<and>
      clean_line (lt_print plain_log r)"
    by code_simp
  ultimately show ?thesis
    using persistent_log_keeps_last [of ?rs plain_log 1 to_ascii_lowercase ?es] by simp
qed

subsection \<open>Where redaction falls short\<close>

text \<open>Only the first marker of the list is looked at: a secret before it stays in the line.\<close>

lemma earlier_secret_stays:
  "redact_sensitive_log_line to_ascii_lowercase ''password=hunter2 sk-abc'' =
     Some ''password=hunter2 sk-[REDACTED]''"
  by code_simp

lemma redact_markers_cong:
  assumes "lower t = fold_case t" "\<forall>m \<in> set ms. lower m = fold_case m"
  shows "redact_markers lower ms t = redact_markers fold_case ms t"
  using assms by (induction ms) (simp_all split: option.split)

text \<open>
  A capital dotted I (two bytes) folds to three bytes: the position found in the folded text is
  then past the marker, and within a character the thread that reads the log panics.
\<close>

definition dotted_line :: string where
  "dotted_line = [CHR 0xC4, CHR 0xB0] @ ''token='' @ [CHR 0xC3, CHR 0xA9]"

definition dotted_folded :: string where
  "dotted_folded = [CHR ''i'', CHR 0xCC, CHR 0x87] @ ''token='' @ [CHR 0xC3, CHR 0xA9]"

definition dotted_fold :: "string \<Rightarrow> string" where
  "dotted_fold t = (if t = dotted_line then dotted_folded else to_ascii_lowercase t)"

lemma folded_position_panics:
  assumes "\<forall>m \<in> set log_markers. lower m = to_ascii_lowercase m" "lower dotted_line = dotted_folded"
  shows "redact_sensitive_log_line lower dotted_line = None"
proof -
  have "dotted_line \<notin> set log_markers"
    by code_simp
  then have "\<forall>m \<in> set log_markers. lower m = dotted_fold m"
    using assms(1) by (auto simp: dotted_fold_def)
  then have "redact_sensitive_log_line lower dotted_line = redact_markers dotted_fold log_markers dotted_line"
    unfolding redact_sensitive_log_line_def using assms(2)
    by (intro redact_markers_cong) (simp_all add: dotted_fold_def)
  also have "\<dots> = None"
    by code_simp
  finally show ?thesis .
qed

text \<open>Two processes may share one log file.\<close>

lemma log_files_collide: "persistent_log_name ''mcp-a.b'' = persistent_log_name ''mcp-a_b''"
  by code_simp

end
