(* ===== verification/Supervisor.thy ===== *)
theory Supervisor
  imports Processes
begin

text \<open>
  The supervisor of child processes (crates/process-manager/src/supervisor.rs): the monitor that
  restarts a child within bounds, and \<open>LocalProcessSupervisor\<close> over children and monitors.

  The operating system and the clock are the parameter \<open>os_env\<close>: the \<open>n\<close>-th call answers what the
  environment says. \<open>ow_live\<close> is ghost state, the children started and not yet reaped with the id
  they were started for, \<open>ow_failures\<close> counts the calls that failed after a child existed, and
  \<open>ow_spawns\<close> lists the ids children were started for. A monitor runs in a thread of its own: one
  \<open>monitor_step\<close> is one round of its polling loops, at any moment.
\<close>

section \<open>The operating system\<close>

record os_env =
  oe_spawn :: "nat \<Rightarrow> process_spec \<Rightarrow> string + u32"
  oe_log_dir :: "nat \<Rightarrow> string + unit"
  oe_try_wait :: "nat \<Rightarrow> u32 \<Rightarrow> string + int option option"
  oe_kill :: "nat \<Rightarrow> u32 \<Rightarrow> string + unit"
  oe_wait :: "nat \<Rightarrow> u32 \<Rightarrow> string + int option"
  oe_now :: "nat \<Rightarrow> nat"

record os_world =
  ow_calls :: nat
  ow_live :: "(string \<times> u32) list"
  ow_failures :: nat
  ow_spawns :: "string list"
  ow_time :: nat

text \<open>A child keeps the status it was reaped with.\<close>

record os_child =
  oc_pid :: u32
  oc_status :: "int option option"

definition tick :: "os_world \<Rightarrow> os_world" where
  "tick w = w\<lparr>ow_calls := Suc (ow_calls w)\<rparr>"

definition reaped :: "string \<Rightarrow> u32 \<Rightarrow> os_world \<Rightarrow> os_world" where
  "reaped i pid w = w\<lparr>ow_live := remove1 (i, pid) (ow_live w)\<rparr>"

definition os_failed :: "os_world \<Rightarrow> os_world" where
  "os_failed w = w\<lparr>ow_failures := Suc (ow_failures w)\<rparr>"

definition read_clock :: "os_env \<Rightarrow> os_world \<Rightarrow> nat \<times> os_world" where
  "read_clock env w = (oe_now env (ow_calls w), (tick w)\<lparr>ow_time := oe_now env (ow_calls w)\<rparr>)"

definition try_wait ::
    "os_env \<Rightarrow> string \<Rightarrow> os_child \<Rightarrow> os_world \<Rightarrow> (string + int option option) \<times> os_child \<times> os_world" where
  "try_wait env i c w = (case oc_status c of
     Some code \<Rightarrow> (Inr (Some code), c, w)
   | None \<Rightarrow> (case oe_try_wait env (ow_calls w) (oc_pid c) of
       Inl e \<Rightarrow> (Inl e, c, os_failed (tick w))
     | Inr None \<Rightarrow> (Inr None, c, tick w)
     | Inr (Some code) \<Rightarrow> (Inr (Some code), c\<lparr>oc_status := Some code\<rparr>, reaped i (oc_pid c) (tick w))))"

definition kill :: "os_env \<Rightarrow> os_child \<Rightarrow> os_world \<Rightarrow> (string + unit) \<times> os_world" where
  "kill env c w = (if oc_status c \<noteq> None then (Inr (), w)
     else case oe_kill env (ow_calls w) (oc_pid c) of
       Inl e \<Rightarrow> (Inl e, os_failed (tick w)) | Inr u \<Rightarrow> (Inr u, tick w))"

text \<open>The blocking \<open>wait\<close>.\<close>

definition wait :: "os_env \<Rightarrow> string \<Rightarrow> os_child \<Rightarrow> os_world \<Rightarrow> os_child \<times> os_world" where
  "wait env i c w = (if oc_status c \<noteq> None then (c, w)
     else case oe_wait env (ow_calls w) (oc_pid c) of
       Inl e \<Rightarrow> (c, os_failed (tick w))
     | Inr code \<Rightarrow> (c\<lparr>oc_status := Some code\<rparr>, reaped i (oc_pid c) (tick w)))"

text \<open>The directory of the logs is made after the child has been started.\<close>

definition spawn_child ::
    "os_env \<Rightarrow> bool \<Rightarrow> process_spec \<Rightarrow> os_world \<Rightarrow> (string + os_child) \<times> os_world" where
  "spawn_child env log_dir spec w = (case oe_spawn env (ow_calls w) spec of
     Inl e \<Rightarrow> (Inl e, tick w)
   | Inr pid \<Rightarrow> (let
       w' = (tick w)\<lparr>ow_live := (sc_id spec, pid) # ow_live w, ow_spawns := ow_spawns w @ [sc_id spec]\<rparr>;
       started = (Inr \<lparr>oc_pid = pid, oc_status = None\<rparr>, w') in
       if log_dir then (case oe_log_dir env (ow_calls w') of
         Inl e \<Rightarrow> (Inl e, os_failed (tick w')) | Inr u \<Rightarrow> (fst started, tick w'))
       else started))"

section \<open>The restart monitor\<close>

record monitor_shared =
  ms_pid :: "u32 option"
  ms_status :: process_status
  ms_exit_code :: "int option"
  ms_restart_count :: u32

text \<open>\<open>Backoff code sleep_end\<close>: asleep before the next restart after an exit with \<open>code\<close>.\<close>

datatype monitor_phase = Polling | Backoff "int option" nat | MonitorDone

record monitor =
  mo_phase :: monitor_phase
  mo_child :: os_child
  mo_restart_count :: u32
  mo_started_at :: nat
  mo_shutdown :: bool
  mo_shared :: monitor_shared

definition set_status :: "process_status \<Rightarrow> int option \<Rightarrow> u32 option \<Rightarrow> monitor_shared \<Rightarrow> monitor_shared" where
  "set_status st exit_code pid s = s\<lparr>
     ms_status := st,
     ms_exit_code := (if exit_code \<noteq> None then exit_code else ms_exit_code s),
     ms_pid := (if pid \<noteq> None then pid
       else if st \<in> {PsStopped, PsExited, PsFailed} then None else ms_pid s)\<rparr>"

definition end_monitor :: "(monitor_shared \<Rightarrow> monitor_shared) \<Rightarrow> monitor \<Rightarrow> monitor" where
  "end_monitor f m = m\<lparr>mo_phase := MonitorDone, mo_shared := f (mo_shared m)\<rparr>"

definition failed_shared :: "int option \<Rightarrow> u32 \<Rightarrow> monitor_shared \<Rightarrow> monitor_shared" where
  "failed_shared code n s = s\<lparr>ms_status := PsFailed, ms_exit_code := code, ms_restart_count := n, ms_pid := None\<rparr>"

definition millis :: "u64 \<Rightarrow> nat" where
  "millis ms = unat ms * 1000000"

text \<open>\<open>1u64.checked_shl\<close> and the saturating product.\<close>

definition backoff_multiplier :: "u32 \<Rightarrow> u64" where
  "backoff_multiplier n = (if unat n < 64 then push_bit (unat n) 1 else - 1)"

definition saturating_mul :: "u64 \<Rightarrow> u64 \<Rightarrow> u64" where
  "saturating_mul a b = (if unat a * unat b < 2 ^ 64 then a * b else - 1)"

definition backoff_delay :: "u64 \<Rightarrow> u64 \<Rightarrow> u32 \<Rightarrow> u64" where
  "backoff_delay backoff_ms backoff_max_ms n =
     min (saturating_mul backoff_ms (backoff_multiplier n)) backoff_max_ms"

definition after_exit ::
    "os_env \<Rightarrow> process_spec \<Rightarrow> int option \<Rightarrow> monitor \<Rightarrow> os_world \<Rightarrow> monitor \<times> os_world" where
  "after_exit env spec code m w =
     (if code = Some 0 then (end_monitor (set_status PsExited code None) m, w)
      else case sc_restart_policy spec of
        NoRestart \<Rightarrow> (end_monitor (set_status PsExited code None) m, w)
      | Bounded max_restarts backoff_ms backoff_max_ms uptime_reset_ms \<Rightarrow>
          (case read_clock env w of (now, w) \<Rightarrow>
           let count = (if 0 < uptime_reset_ms \<and> millis uptime_reset_ms \<le> now - mo_started_at m
             then 0 else mo_restart_count m) in
           if max_restarts \<le> count
           then (end_monitor (failed_shared code count) (m\<lparr>mo_restart_count := count\<rparr>), w)
           else case read_clock env w of (now, w) \<Rightarrow>
             (m\<lparr>mo_restart_count := count,
                mo_phase := Backoff code (now + millis (backoff_delay backoff_ms backoff_max_ms count)),
                mo_shared := (mo_shared m)\<lparr>ms_status := PsRestarting, ms_restart_count := count,
                  ms_pid := None\<rparr>\<rparr>, w)))"

definition respawn ::
    "os_env \<Rightarrow> bool \<Rightarrow> process_spec \<Rightarrow> int option \<Rightarrow> monitor \<Rightarrow> os_world \<Rightarrow> monitor \<times> os_world" where
  "respawn env log_dir spec code m w = (let m = m\<lparr>mo_restart_count := mo_restart_count m + 1\<rparr> in
     case spawn_child env log_dir spec w of
       (Inl e, w) \<Rightarrow> (end_monitor (failed_shared code (mo_restart_count m)) m, w)
     | (Inr child, w) \<Rightarrow> (case read_clock env w of (now, w) \<Rightarrow>
         (m\<lparr>mo_phase := Polling, mo_child := child, mo_started_at := now,
            mo_shared := (mo_shared m)\<lparr>ms_pid := Some (oc_pid child), ms_status := PsRunning,
              ms_restart_count := mo_restart_count m\<rparr>\<rparr>, w)))"

definition monitor_step :: "os_env \<Rightarrow> bool \<Rightarrow> process_spec \<Rightarrow> monitor \<Rightarrow> os_world \<Rightarrow> monitor \<times> os_world" where
  "monitor_step env log_dir spec m w = (case mo_phase m of
     MonitorDone \<Rightarrow> (m, w)
   | Polling \<Rightarrow>
       (if mo_shutdown m
        then (case kill env (mo_child m) w of (_, w) \<Rightarrow>
          case wait env (sc_id spec) (mo_child m) w of (c, w) \<Rightarrow>
            (end_monitor (set_status PsStopped None None) (m\<lparr>mo_child := c\<rparr>), w))
        else case try_wait env (sc_id spec) (mo_child m) w of
          (Inl e, c, w) \<Rightarrow> (end_monitor (set_status PsFailed None None) m, w)
        | (Inr None, c, w) \<Rightarrow> (m, w)
        | (Inr (Some code), c, w) \<Rightarrow> after_exit env spec code (m\<lparr>mo_child := c\<rparr>) w)
   | Backoff code sleep_end \<Rightarrow>
       (if mo_shutdown m then (end_monitor (set_status PsStopped code None) m, w)
        else case read_clock env w of (now, w) \<Rightarrow>
          if now < sleep_end then (m, w) else respawn env log_dir spec code m w))"

section \<open>The supervisor\<close>

datatype process_handle = Direct os_child "int option" | Monitored process_spec monitor

record local_process =
  lp_id :: string
  lp_kind :: process_kind
  lp_handle :: process_handle

record supervisor =
  sv_children :: "local_process list"
  sv_log_dir :: bool

type_synonym sup_state = "supervisor \<times> os_world"

definition with_handle :: "process_handle \<Rightarrow> local_process \<Rightarrow> supervisor \<Rightarrow> supervisor" where
  "with_handle h p s = s\<lparr>sv_children := btree_insert lp_id (p\<lparr>lp_handle := h\<rparr>) (sv_children s)\<rparr>"

definition without :: "string \<Rightarrow> supervisor \<Rightarrow> supervisor" where
  "without i s = s\<lparr>sv_children := filter (\<lambda>p. lp_id p \<noteq> i) (sv_children s)\<rparr>"

definition snapshot_for_state ::
    "os_env \<Rightarrow> local_process \<Rightarrow> sup_state \<Rightarrow> (pm_error + process_snapshot) \<times> sup_state" where
  "snapshot_for_state env p st = (case st of (s, w) \<Rightarrow> (case lp_handle p of
     Direct child exit_code \<Rightarrow> (case try_wait env (lp_id p) child w of
       (Inl e, c, w) \<Rightarrow> (Inl (PmIo e), s, w)
     | (Inr (Some code), c, w) \<Rightarrow>
         (Inr ((new_snapshot (lp_id p) (lp_kind p) PsExited)\<lparr>pn_pid := Some (oc_pid c), pn_exit_code := code\<rparr>),
          with_handle (Direct c code) p s, w)
     | (Inr None, c, w) \<Rightarrow>
         (Inr ((new_snapshot (lp_id p) (lp_kind p) PsRunning)\<lparr>pn_pid := Some (oc_pid c)\<rparr>), s, w))
   | Monitored spec m \<Rightarrow> (let sh = mo_shared m in
       (Inr ((new_snapshot (lp_id p) (lp_kind p) (ms_status sh))\<lparr>pn_pid := ms_pid sh,
          pn_exit_code := ms_exit_code sh, pn_restart_count := ms_restart_count sh\<rparr>), s, w))))"

definition running_snapshot :: "process_spec \<Rightarrow> os_child \<Rightarrow> process_snapshot" where
  "running_snapshot spec c = (new_snapshot (sc_id spec) (sc_kind spec) PsRunning)\<lparr>pn_pid := Some (oc_pid c)\<rparr>"

definition start_direct ::
    "os_env \<Rightarrow> process_spec \<Rightarrow> sup_state \<Rightarrow> (pm_error + process_snapshot) \<times> sup_state" where
  "start_direct env spec st = (case st of (s, w) \<Rightarrow> (case spawn_child env (sv_log_dir s) spec w of
     (Inl e, w) \<Rightarrow> (Inl (PmIo e), s, w)
   | (Inr c, w) \<Rightarrow> (Inr (running_snapshot spec c),
       with_handle (Direct c None) \<lparr>lp_id = sc_id spec, lp_kind = sc_kind spec, lp_handle = Direct c None\<rparr> s, w)))"

definition start_monitored ::
    "os_env \<Rightarrow> process_spec \<Rightarrow> sup_state \<Rightarrow> (pm_error + process_snapshot) \<times> sup_state" where
  "start_monitored env spec st = (case st of (s, w) \<Rightarrow> (case spawn_child env (sv_log_dir s) spec w of
     (Inl e, w) \<Rightarrow> (Inl (PmIo e), s, w)
   | (Inr c, w) \<Rightarrow> (case read_clock env w of (now, w) \<Rightarrow>
       let m = \<lparr>mo_phase = Polling, mo_child = c, mo_restart_count = 0, mo_started_at = now,
         mo_shutdown = False, mo_shared = \<lparr>ms_pid = Some (oc_pid c), ms_status = PsRunning,
           ms_exit_code = None, ms_restart_count = 0\<rparr>\<rparr> in
       (Inr (running_snapshot spec c), with_handle (Monitored spec m)
          \<lparr>lp_id = sc_id spec, lp_kind = sc_kind spec, lp_handle = Monitored spec m\<rparr> s, w))))"

definition start_process ::
    "os_env \<Rightarrow> process_spec \<Rightarrow> sup_state \<Rightarrow> (pm_error + process_snapshot) \<times> sup_state" where
  "start_process env spec st = (let
     spawn = (\<lambda>st. case sc_restart_policy spec of
       NoRestart \<Rightarrow> start_direct env spec st | Bounded _ _ _ _ \<Rightarrow> start_monitored env spec st) in
     case btree_get lp_id (sv_children (fst st)) (sc_id spec) of
       None \<Rightarrow> spawn st
     | Some p \<Rightarrow> (case snapshot_for_state env p st of
         (Inl e, st) \<Rightarrow> (Inl e, st)
       | (Inr snapshot, st) \<Rightarrow>
           if pn_status snapshot = PsRunning \<or> pn_status snapshot = PsRestarting then (Inr snapshot, st)
           else spawn (without (sc_id spec) (fst st), snd st)))"

text \<open>\<open>join\<close> waits for the monitor, which ends at its next round.\<close>

definition stop_process ::
    "os_env \<Rightarrow> process_spec \<Rightarrow> sup_state \<Rightarrow> (pm_error + process_snapshot) \<times> sup_state" where
  "stop_process env spec st = (case st of (s, w) \<Rightarrow>
     let stopped = new_snapshot (sc_id spec) (sc_kind spec) PsStopped in
     case btree_get lp_id (sv_children s) (sc_id spec) of
       None \<Rightarrow> (Inr stopped, s, w)
     | Some p \<Rightarrow> (let s = without (sc_id spec) s in
         case lp_handle p of
           Direct child exit_code \<Rightarrow> (case try_wait env (lp_id p) child w of
             (Inl e, c, w) \<Rightarrow> (Inl (PmIo e), s, w)
           | (Inr (Some code), c, w) \<Rightarrow> (Inr stopped, s, w)
           | (Inr None, c, w) \<Rightarrow> (case kill env c w of
               (Inl e, w) \<Rightarrow> (Inl (PmIo e), s, w)
             | (Inr u, w) \<Rightarrow> (Inr stopped, s, snd (wait env (lp_id p) c w))))
         | Monitored mspec m \<Rightarrow>
             (Inr stopped, s, snd (monitor_step env (sv_log_dir s) mspec (m\<lparr>mo_shutdown := True\<rparr>) w))))"

definition snapshot_process ::
    "os_env \<Rightarrow> process_spec \<Rightarrow> sup_state \<Rightarrow> (pm_error + process_snapshot) \<times> sup_state" where
  "snapshot_process env spec st = (case btree_get lp_id (sv_children (fst st)) (sc_id spec) of
     None \<Rightarrow> (Inl (PmNotFound (sc_id spec)), st)
   | Some p \<Rightarrow> snapshot_for_state env p st)"

text \<open>One round of the monitor of a process.\<close>

definition monitor_round :: "os_env \<Rightarrow> string \<Rightarrow> sup_state \<Rightarrow> sup_state" where
  "monitor_round env i st = (case st of (s, w) \<Rightarrow> (case btree_get lp_id (sv_children s) i of
     None \<Rightarrow> (s, w)
   | Some p \<Rightarrow> (case lp_handle p of
       Direct c e \<Rightarrow> (s, w)
     | Monitored spec m \<Rightarrow> (case monitor_step env (sv_log_dir s) spec m w of
         (m, w) \<Rightarrow> (with_handle (Monitored spec m) p s, w)))))"

end
