(* ===== verification/SupervisorTheorems.thy ===== *)
theory SupervisorTheorems
  imports Supervisor
begin

text \<open>
  What the supervisor guarantees: the delays of the back-off, a bound on the restarts of a monitor
  over any time, and that it never keeps two children of one process alive.
\<close>

section \<open>The back-off\<close>

lemma unat_max_word: "unat (- 1 :: u64) = 2 ^ 64 - 1"
  by (simp add: unsigned_minus_1_eq_mask mask_eq_exp_minus_1)

lemma unat_le_max: "unat (x :: u64) \<le> 2 ^ 64 - 1"
proof -
  have "unat x < 2 ^ LENGTH(64)"
    by (rule unsigned_less)
  then show ?thesis by simp
qed

lemma unat_backoff_multiplier:
  assumes "unat n < 64"
  shows "unat (backoff_multiplier n) = 2 ^ unat n"
proof -
  have less: "(2 :: nat) ^ unat n < 2 ^ 64"
    using assms by (intro power_strict_increasing) auto
  have "backoff_multiplier n = of_nat (2 ^ unat n)"
    using assms by (simp add: backoff_multiplier_def push_bit_eq_mult)
  then show ?thesis
    using less assms by (simp add: unsigned_of_nat take_bit_nat_eq_self del: of_nat_power)
qed

lemma unat_saturating_mul: "unat (saturating_mul a b) = min (unat a * unat b) (2 ^ 64 - 1)"
  by (auto simp: saturating_mul_def unat_max_word unat_mult_lem [THEN iffD1])

lemma unat_min_word: "unat (min a b) = min (unat a) (unat (b :: u64))"
  by (simp add: min_def word_le_nat_alt)

text \<open>
  The delay before a restart is exactly the configured delay doubled for every restart so far,
  capped at the configured maximum: neither the shift nor the product ever wraps.
\<close>

lemma backoff_doubles_up_to_cap:
  "unat (backoff_delay backoff_ms backoff_max_ms n) =
     min (unat backoff_ms * 2 ^ unat n) (unat backoff_max_ms)"
proof -
  have cap: "unat backoff_max_ms \<le> 2 ^ 64 - 1"
    by (rule unat_le_max)
  have min: "unat (backoff_delay backoff_ms backoff_max_ms n) =
      min (unat backoff_ms * unat (backoff_multiplier n)) (unat backoff_max_ms)"
    using cap by (simp add: backoff_delay_def unat_min_word unat_saturating_mul min.assoc min_absorb2)
  show ?thesis
  proof (cases "unat n < 64")
    case True
    with min show ?thesis by (simp add: unat_backoff_multiplier)
  next
    case False
    show ?thesis
    proof (cases "unat backoff_ms = 0")
      case False
      have "(2 :: nat) ^ 64 \<le> 2 ^ unat n"
        using \<open>\<not> unat n < 64\<close> by (intro power_increasing) auto
      with cap have "unat backoff_max_ms \<le> 2 ^ unat n"
        by linarith
      with False have "unat backoff_max_ms \<le> unat backoff_ms * 2 ^ unat n"
        by (metis le_trans mult_le_mono1 nat_mult_1 One_nat_def Suc_leI neq0_conv)
      moreover have "unat backoff_max_ms \<le> unat backoff_ms * (2 ^ 64 - 1)"
        using cap False by (metis le_trans mult_le_mono1 nat_mult_1 One_nat_def Suc_leI neq0_conv)
      ultimately show ?thesis
        using min \<open>\<not> unat n < 64\<close> by (simp add: backoff_multiplier_def unat_max_word min_absorb2)
    qed (simp add: min)
  qed
qed

section \<open>Restarts over time\<close>

definition clock_ok :: "os_env \<Rightarrow> os_world \<Rightarrow> bool" where
  "clock_ok env w \<longleftrightarrow> (\<forall>k \<ge> ow_calls w. ow_time w \<le> oe_now env k)"

text \<open>Between two rounds of a monitor others use the operating system, and time passes.\<close>

definition others_act :: "os_env \<Rightarrow> os_world \<Rightarrow> os_world \<Rightarrow> bool" where
  "others_act env w w' \<longleftrightarrow> ow_time w \<le> ow_time w' \<and> clock_ok env w'"

inductive rounds :: "os_env \<Rightarrow> bool \<Rightarrow> process_spec \<Rightarrow> monitor \<Rightarrow> os_world \<Rightarrow> nat \<Rightarrow> monitor \<Rightarrow> os_world \<Rightarrow> bool"
  for env log_dir spec m0 w0 where
  begin_rounds: "rounds env log_dir spec m0 w0 0 m0 w0"
| one_round: "\<lbrakk>rounds env log_dir spec m0 w0 k m w; others_act env w w1;
     monitor_step env log_dir spec m w1 = (m', w')\<rbrakk>
     \<Longrightarrow> rounds env log_dir spec m0 w0 (k + (length (ow_spawns w') - length (ow_spawns w1))) m' w'"
| ask_shutdown: "rounds env log_dir spec m0 w0 k m w \<Longrightarrow>
     rounds env log_dir spec m0 w0 k (m\<lparr>mo_shutdown := True\<rparr>) w"

text \<open>\<open>k\<close> restarts so far, \<open>r\<close> of them-or-more lives long enough to reset the counter.\<close>

definition restarts_inv :: "u32 \<Rightarrow> u64 \<Rightarrow> nat \<Rightarrow> nat \<Rightarrow> nat \<Rightarrow> monitor \<Rightarrow> os_world \<Rightarrow> bool" where
  "restarts_inv mx reset t0 k r m w \<longleftrightarrow>
     k \<le> unat (mo_restart_count m) + unat mx * r \<and> mo_restart_count m \<le> mx \<and>
     t0 + r * millis reset \<le> ow_time w \<and> (reset = 0 \<longrightarrow> r = 0) \<and>
     (mo_phase m = Polling \<longrightarrow> t0 + r * millis reset \<le> mo_started_at m) \<and>
     (\<forall>code e. mo_phase m = Backoff code e \<longrightarrow> mo_restart_count m < mx)"

definition quiet :: "os_world \<Rightarrow> os_world \<Rightarrow> bool" where
  "quiet w w' \<longleftrightarrow> ow_spawns w' = ow_spawns w \<and> ow_time w' = ow_time w \<and> ow_calls w \<le> ow_calls w'"

lemma quiet_refl [simp]: "quiet w w"
  by (simp add: quiet_def)

lemma quiet_clock: "quiet w w' \<Longrightarrow> clock_ok env w \<Longrightarrow> clock_ok env w'"
  by (auto simp: quiet_def clock_ok_def)

lemma quiet_os:
  "try_wait env i c w = (r, c', w') \<Longrightarrow> quiet w w'"
  "kill env c w = (r', w') \<Longrightarrow> quiet w w'"
  "wait env i c w = (c', w') \<Longrightarrow> quiet w w'"
  by (auto simp: try_wait_def kill_def wait_def tick_def reaped_def os_failed_def quiet_def
    split: option.splits sum.splits if_splits)

lemma quiet_trans: "quiet a b \<Longrightarrow> quiet b c \<Longrightarrow> quiet a c"
  by (simp add: quiet_def)

lemma read_clock_ok:
  assumes "read_clock env w = (now, w')" "clock_ok env w" "mono (oe_now env)"
  shows "clock_ok env w'" "ow_time w \<le> now" "ow_time w' = now" "ow_spawns w' = ow_spawns w"
  using assms by (auto simp: read_clock_def clock_ok_def tick_def mono_def)

lemma spawn_child_spawns:
  assumes "spawn_child env log_dir spec w = (r, w')"
  shows "length (ow_spawns w') - length (ow_spawns w) \<le> 1" "ow_time w' = ow_time w"
    "ow_calls w \<le> ow_calls w'"
  using assms by (auto simp: spawn_child_def Let_def tick_def os_failed_def split: sum.splits if_splits)

lemma millis_pos: "0 < ms \<Longrightarrow> 0 < millis ms"
  by (simp add: millis_def word_gt_0_no unat_gt_0 word_neq_0_conv)

lemma restarts_inv_end:
  assumes "restarts_inv mx reset t0 k r m w" "k' \<le> k" "ow_time w \<le> ow_time w'"
    "mo_restart_count m' = mo_restart_count m" "mo_phase m' = MonitorDone"
  shows "restarts_inv mx reset t0 k' r m' w'"
  using assms by (auto simp: restarts_inv_def)

lemma restarts_inv_later:
  "restarts_inv mx reset t0 k r m w \<Longrightarrow> ow_time w \<le> ow_time w' \<Longrightarrow> restarts_inv mx reset t0 k r m w'"
  by (auto simp: restarts_inv_def)

lemma unat_restart_next:
  assumes "(n :: u32) < m"
  shows "unat (n + 1) = Suc (unat n)"
proof -
  have "n \<noteq> - 1"
    using assms word_n1_ge [of m] by auto
  then have "1 + n \<noteq> 0"
    by (metis add_eq_0_iff)
  then show ?thesis
    using unatSuc [of n] by (simp add: add.commute)
qed

lemma after_exit_restarts:
  assumes step: "after_exit env spec code m w = (m', w')"
    and policy: "sc_restart_policy spec = Bounded mx backoff_ms backoff_max_ms reset"
    and clock: "mono (oe_now env)" "clock_ok env w"
    and inv: "restarts_inv mx reset t0 k r m w" "mo_phase m = Polling"
  shows "clock_ok env w' \<and> ow_spawns w' = ow_spawns w \<and> (\<exists>r'. restarts_inv mx reset t0 k r' m' w')"
proof (cases "code = Some 0")
  case True
  then show ?thesis
    using step inv clock by (auto simp: after_exit_def end_monitor_def restarts_inv_def)
next
  case False
  obtain now1 w1 where r1: "read_clock env w = (now1, w1)" by fastforce
  obtain now2 w2 where r2: "read_clock env w1 = (now2, w2)" by fastforce
  note c1 = read_clock_ok [OF r1 clock(2,1)]
  note c2 = read_clock_ok [OF r2 c1(1) clock(1)]
  let ?reset = "0 < reset \<and> millis reset \<le> now1 - mo_started_at m"
  define count where "count = (if ?reset then 0 else mo_restart_count m)"
  define r' where "r' = (if ?reset then Suc r else r)"
  have k: "k \<le> unat (mo_restart_count m) + unat mx * r" "unat (mo_restart_count m) \<le> unat mx"
    "t0 + r * millis reset \<le> ow_time w" "t0 + r * millis reset \<le> mo_started_at m"
    using inv by (auto simp: restarts_inv_def word_le_nat_alt)
  have count: "count \<le> mx" "k \<le> unat count + unat mx * r'" "t0 + r' * millis reset \<le> now1"
    "reset = 0 \<longrightarrow> r' = 0"
    using k inv c1(2) millis_pos [of reset]
    by (auto simp: count_def r'_def restarts_inv_def word_le_nat_alt)
  show ?thesis
  proof (cases "mx \<le> count")
    case True
    then have "w' = w1" "mo_restart_count m' = count" "mo_phase m' = MonitorDone"
      using step False r1 policy by (auto simp: after_exit_def Let_def count_def end_monitor_def)
    then show ?thesis
      using count c1 by (auto simp: restarts_inv_def)
  next
    case less: False
    then have "w' = w2" "mo_restart_count m' = count" "\<exists>e. mo_phase m' = Backoff code e"
      using step False r1 r2 policy by (auto simp: after_exit_def Let_def count_def end_monitor_def)
    moreover have "t0 + r' * millis reset \<le> now2"
      using count(3) c1(3) c2(2) by linarith
    ultimately show ?thesis
      using count c1 c2 less by (auto simp: restarts_inv_def)
  qed
qed

lemma respawn_restarts:
  assumes step: "respawn env log_dir spec code m w = (m', w')"
    and clock: "mono (oe_now env)" "clock_ok env w"
    and inv: "restarts_inv mx reset t0 k r m w" "mo_phase m = Backoff code e"
  shows "clock_ok env w' \<and>
    restarts_inv mx reset t0 (k + (length (ow_spawns w') - length (ow_spawns w))) r m' w'"
proof -
  obtain res w1 where sp: "spawn_child env log_dir spec w = (res, w1)" by fastforce
  note s1 = spawn_child_spawns [OF sp]
  have clock1: "clock_ok env w1"
    using clock(2) s1 by (auto simp: clock_ok_def)
  have less: "mo_restart_count m < mx"
    using inv by (auto simp: restarts_inv_def)
  then have suc: "unat (mo_restart_count m + 1) = Suc (unat (mo_restart_count m))"
    "mo_restart_count m + 1 \<le> mx"
    using unat_restart_next [of "mo_restart_count m" mx] by (simp_all add: word_le_nat_alt word_less_nat_alt)
  show ?thesis
  proof (cases res)
    case (Inl err)
    then show ?thesis
      using step sp inv s1 clock1 suc by (auto simp: respawn_def end_monitor_def restarts_inv_def)
  next
    case (Inr child)
    obtain now w2 where rd: "read_clock env w1 = (now, w2)" by fastforce
    note c2 = read_clock_ok [OF rd clock1 clock(1)]
    have "t0 + r * millis reset \<le> now"
      using inv(1) c2(2) s1(2) by (auto simp: restarts_inv_def)
    then show ?thesis
      using step sp Inr rd inv s1 c2 suc by (auto simp: respawn_def restarts_inv_def Let_def)
  qed
qed

lemma monitor_step_restarts:
  assumes step: "monitor_step env log_dir spec m w = (m', w')"
    and policy: "sc_restart_policy spec = Bounded mx backoff_ms backoff_max_ms reset"
    and clock: "mono (oe_now env)" "clock_ok env w"
    and inv: "restarts_inv mx reset t0 k r m w"
  shows "clock_ok env w' \<and>
    (\<exists>r'. restarts_inv mx reset t0 (k + (length (ow_spawns w') - length (ow_spawns w))) r' m' w')"
proof (cases "mo_phase m")
  case Polling
  show ?thesis
  proof (cases "mo_shutdown m")
    case True
    obtain kr w1 where k1: "kill env (mo_child m) w = (kr, w1)" by fastforce
    obtain c w2 where k2: "wait env (sc_id spec) (mo_child m) w1 = (c, w2)" by fastforce
    have q: "quiet w w2"
      using quiet_os(2) [OF k1] quiet_os(3) [OF k2] by (rule quiet_trans)
    have "w' = w2" "mo_restart_count m' = mo_restart_count m" "mo_phase m' = MonitorDone"
      using step Polling True k1 k2 by (auto simp: monitor_step_def end_monitor_def)
    then show ?thesis
      using restarts_inv_end [OF inv order_refl, of w2 m'] quiet_clock [OF q clock(2)] q
      by (auto simp: quiet_def)
  next
    case False
    obtain res c w1 where t1: "try_wait env (sc_id spec) (mo_child m) w = (res, c, w1)"
      by (metis prod_cases3)
    note q = quiet_os(1) [OF t1]
    note clock1 = quiet_clock [OF q clock(2)]
    have inv1: "restarts_inv mx reset t0 k r m w1" "restarts_inv mx reset t0 k r (m\<lparr>mo_child := c\<rparr>) w1"
      using inv q by (auto simp: restarts_inv_def quiet_def)
    show ?thesis
    proof (cases res)
      case (Inl err)
      then have "w' = w1" "mo_restart_count m' = mo_restart_count m" "mo_phase m' = MonitorDone"
        using step Polling False t1 by (auto simp: monitor_step_def end_monitor_def)
      then show ?thesis
        using restarts_inv_end [OF inv1(1) order_refl, of w1 m'] clock1 q by (auto simp: quiet_def)
    next
      case (Inr found)
      show ?thesis
      proof (cases found)
        case None
        then show ?thesis
          using step Polling False t1 Inr inv1 clock1 q by (auto simp: monitor_step_def quiet_def)
      next
        case (Some code)
        then have "after_exit env spec code (m\<lparr>mo_child := c\<rparr>) w1 = (m', w')"
          using step Polling False t1 Inr by (auto simp: monitor_step_def)
        from after_exit_restarts [OF this policy clock(1) clock1 inv1(2)] Polling q
        show ?thesis by (auto simp: quiet_def)
      qed
    qed
  qed
next
  case (Backoff code e)
  show ?thesis
  proof (cases "mo_shutdown m")
    case True
    then have "w' = w" "mo_restart_count m' = mo_restart_count m" "mo_phase m' = MonitorDone"
      using step Backoff by (auto simp: monitor_step_def end_monitor_def)
    then show ?thesis
      using restarts_inv_end [OF inv order_refl, of w m'] clock by auto
  next
    case False
    obtain now w1 where rd: "read_clock env w = (now, w1)" by fastforce
    note c1 = read_clock_ok [OF rd clock(2,1)]
    have inv1: "restarts_inv mx reset t0 k r m w1"
      using inv c1 by (auto simp: restarts_inv_def)
    show ?thesis
    proof (cases "now < e")
      case True
      then show ?thesis
        using step Backoff False rd c1 inv1 by (auto simp: monitor_step_def)
    next
      case later: False
      then have "respawn env log_dir spec code m w1 = (m', w')"
        using step Backoff False rd by (simp add: monitor_step_def)
      from respawn_restarts [OF this clock(1) c1(1) inv1 Backoff] c1(4) show ?thesis by auto
    qed
  qed
next
  case MonitorDone
  then show ?thesis
    using step inv clock by (auto simp: monitor_step_def)
qed

lemma rounds_restarts:
  assumes "rounds env log_dir spec m0 w0 k m w"
    and "sc_restart_policy spec = Bounded mx backoff_ms backoff_max_ms reset"
    and "mono (oe_now env)" "clock_ok env w0" "restarts_inv mx reset t0 0 0 m0 w0"
  shows "clock_ok env w \<and> (\<exists>r. restarts_inv mx reset t0 k r m w)"
  using assms(1)
proof (induction rule: rounds.induct)
  case (one_round k m w w1 m' w')
  then obtain r where "restarts_inv mx reset t0 k r m w1" "clock_ok env w1"
    by (auto simp: others_act_def dest: restarts_inv_later)
  with one_round(3) assms(2,3) show ?case
    using monitor_step_restarts by blast
next
  case begin_rounds
  then show ?case using assms by blast
next
  case (ask_shutdown k m w)
  then show ?case by (auto simp: restarts_inv_def)
qed

text \<open>
  C23: However a child keeps crashing, whatever the operating system answers, and whatever others do
  in between: a monitor that began at time \<open>t0\<close> has restarted its child at most \<open>max_restarts\<close> times,
  and as many times again for every full \<open>uptime_reset_ms\<close> that has passed since; never more than
  \<open>max_restarts\<close> times when the counter is never reset.
\<close>

theorem restarts_bounded_over_time:
  assumes "sc_restart_policy spec = Bounded max_restarts backoff_ms backoff_max_ms uptime_reset_ms"
    and "rounds env log_dir spec m0 w0 k m w" "mono (oe_now env)" "clock_ok env w0"
    and "mo_phase m0 = Polling" "mo_restart_count m0 = 0" "mo_started_at m0 = ow_time w0"
  shows "k \<le> unat max_restarts * (1 + (ow_time w - ow_time w0) div millis uptime_reset_ms)"
proof -
  have "restarts_inv max_restarts uptime_reset_ms (ow_time w0) 0 0 m0 w0"
    using assms(5-7) by (simp add: restarts_inv_def)
  then obtain r where r: "restarts_inv max_restarts uptime_reset_ms (ow_time w0) k r m w"
    using rounds_restarts [OF assms(2,1,3,4)] by blast
  then have k: "k \<le> unat max_restarts * (1 + r)"
    by (auto simp: restarts_inv_def word_le_nat_alt)
  have "r \<le> (ow_time w - ow_time w0) div millis uptime_reset_ms"
  proof (cases "uptime_reset_ms = 0")
    case False
    then have pos: "0 < millis uptime_reset_ms"
      by (intro millis_pos) (simp add: word_neq_0_conv)
    have "r * millis uptime_reset_ms \<le> ow_time w - ow_time w0"
      using r by (auto simp: restarts_inv_def)
    with pos show ?thesis
      by (simp add: less_eq_div_iff_mult_less_eq)
  qed (use r in \<open>simp add: restarts_inv_def\<close>)
  then have "unat max_restarts * (1 + r) \<le>
      unat max_restarts * (1 + (ow_time w - ow_time w0) div millis uptime_reset_ms)"
    by (intro mult_le_mono2) simp
  with k show ?thesis by (rule le_trans)
qed

text \<open>A child that crashes at once and is restarted once, by an operating system whose clock ticks
  with every call.\<close>

definition crashing_os :: os_env where
  "crashing_os = \<lparr>oe_spawn = (\<lambda>n spec. Inr (of_nat n)), oe_log_dir = (\<lambda>n. Inr ()),
     oe_try_wait = (\<lambda>n pid. Inr (Some (Some 1))), oe_kill = (\<lambda>n pid. Inr ()),
     oe_wait = (\<lambda>n pid. Inr (Some 1)), oe_now = (\<lambda>n. n)\<rparr>"

definition crash_spec :: process_spec where
  "crash_spec = (new_process_spec ''p'' OtherProcess ''false'')\<lparr>sc_restart_policy := Bounded 1 0 0 0\<rparr>"

definition fresh_monitor :: monitor where
  "fresh_monitor = \<lparr>mo_phase = Polling, mo_child = \<lparr>oc_pid = 1, oc_status = None\<rparr>, mo_restart_count = 0,
     mo_started_at = 0, mo_shutdown = False, mo_shared = \<lparr>ms_pid = Some 1, ms_status = PsRunning,
       ms_exit_code = None, ms_restart_count = 0\<rparr>\<rparr>"

definition fresh_world :: os_world where
  "fresh_world = \<lparr>ow_calls = 0, ow_live = [(''p'', 1)], ow_failures = 0, ow_spawns = [], ow_time = 0\<rparr>"

lemma crashing_clock: "ow_time w \<le> ow_calls w \<Longrightarrow> clock_ok crashing_os w"
  by (auto simp: clock_ok_def crashing_os_def)

lemma crash_rounds: "\<exists>m w. rounds crashing_os False crash_spec fresh_monitor fresh_world 1 m w"
proof -
  obtain m1 w1 where s1: "monitor_step crashing_os False crash_spec fresh_monitor fresh_world = (m1, w1)"
    by fastforce
  obtain m2 w2 where s2: "monitor_step crashing_os False crash_spec m1 w1 = (m2, w2)"
    by fastforce
  have m1: "ow_spawns w1 = [] \<and> ow_time w1 \<le> ow_calls w1 \<and>
      mo_phase m1 = Backoff (Some 1) (ow_time w1) \<and> \<not> mo_shutdown m1"
    using s1 by (auto simp: crashing_os_def crash_spec_def fresh_monitor_def fresh_world_def
      monitor_step_def try_wait_def tick_def after_exit_def read_clock_def reaped_def millis_def
      backoff_delay_def saturating_mul_def)
  then have "length (ow_spawns w2) = 1"
    using s2 by (auto simp: crashing_os_def monitor_step_def read_clock_def tick_def respawn_def
      spawn_child_def Let_def)
  with m1 have "clock_ok crashing_os w1" "ow_spawns w1 = []" "length (ow_spawns w2) = 1"
    by (auto intro: crashing_clock)
  moreover have "clock_ok crashing_os fresh_world"
    by (rule crashing_clock) (simp add: fresh_world_def)
  ultimately show ?thesis
    using one_round [OF one_round [OF begin_rounds _ s1] _ s2] by (auto simp: others_act_def)
qed

theorem restarts_bounded_over_time_witness:
  "\<exists>m w. rounds crashing_os False crash_spec fresh_monitor fresh_world 1 m w \<and>
     1 \<le> unat (1 :: u32) * (1 + (ow_time w - ow_time fresh_world) div millis 0)"
proof -
  obtain m w where run: "rounds crashing_os False crash_spec fresh_monitor fresh_world 1 m w"
    using crash_rounds by blast
  have "sc_restart_policy crash_spec = Bounded 1 0 0 0"
    by (simp add: crash_spec_def)
  moreover have "mono (oe_now crashing_os)"
    by (simp add: crashing_os_def mono_def)
  moreover have "clock_ok crashing_os fresh_world"
    by (rule crashing_clock) (simp add: fresh_world_def)
  ultimately show ?thesis
    using restarts_bounded_over_time [OF _ run] run
    by (auto simp: fresh_monitor_def fresh_world_def)
qed

section \<open>One child for a process\<close>

definition live_count :: "string \<Rightarrow> os_world \<Rightarrow> nat" where
  "live_count i w = length (filter (\<lambda>x. fst x = i) (ow_live w))"

text \<open>\<open>owns i co w\<close>: of the children of \<open>i\<close> that are alive, all but the one held (\<open>co\<close>) were lost to a
  failing call.\<close>

definition holds :: "os_child option \<Rightarrow> bool" where
  "holds co \<longleftrightarrow> (case co of Some c \<Rightarrow> oc_status c = None | None \<Rightarrow> False)"

definition owns :: "string \<Rightarrow> os_child option \<Rightarrow> os_world \<Rightarrow> bool" where
  "owns i co w \<longleftrightarrow> live_count i w \<le> of_bool (holds co) + ow_failures w \<and>
     (holds co \<longrightarrow> (i, oc_pid (the co)) \<in> set (ow_live w))"

definition others_keep :: "string \<Rightarrow> os_world \<Rightarrow> os_world \<Rightarrow> bool" where
  "others_keep i w w' \<longleftrightarrow> ow_failures w \<le> ow_failures w' \<and>
     (\<forall>j. j \<noteq> i \<longrightarrow> filter (\<lambda>x. fst x = j) (ow_live w') = filter (\<lambda>x. fst x = j) (ow_live w))"

lemma others_keep_refl [simp]: "others_keep i w w"
  by (simp add: others_keep_def)

lemma others_keep_trans: "others_keep i a b \<Longrightarrow> others_keep i b c \<Longrightarrow> others_keep i a c"
  by (auto simp: others_keep_def)

lemma others_keep_owns:
  assumes "others_keep i w w'" "owns j co w" "j \<noteq> i"
  shows "owns j co w'"
proof -
  have same: "filter (\<lambda>x. fst x = j) (ow_live w') = filter (\<lambda>x. fst x = j) (ow_live w)"
    "ow_failures w \<le> ow_failures w'"
    using assms(1,3) by (auto simp: others_keep_def)
  have "(j, p) \<in> set (ow_live w') \<longleftrightarrow> (j, p) \<in> set (ow_live w)" for p
  proof -
    have "(j, p) \<in> set l \<longleftrightarrow> (j, p) \<in> set (filter (\<lambda>x. fst x = j) l)" for l
      by simp
    from this [of "ow_live w'"] this [of "ow_live w"] show ?thesis
      unfolding same(1) by blast
  qed
  then show ?thesis
    using assms(2) same by (auto simp: owns_def live_count_def)
qed

lemma filter_remove1_other: "i \<noteq> j \<Longrightarrow> filter (\<lambda>x. fst x = j) (remove1 (i, p) xs) = filter (\<lambda>x. fst x = j) xs"
  by (induction xs) auto

lemma filter_remove1_own:
  "(i, p) \<in> set xs \<Longrightarrow>
    Suc (length (filter (\<lambda>x. fst x = i) (remove1 (i, p) xs))) = length (filter (\<lambda>x. fst x = i) xs)"
  by (induction xs) auto

lemma owns_tick [simp]: "owns i co (tick w) \<longleftrightarrow> owns i co w"
  by (simp add: owns_def live_count_def tick_def)

lemma owns_failed: "owns i co w \<Longrightarrow> owns i co (os_failed w) \<and> owns i None (os_failed w)"
  by (cases "holds co") (simp_all add: owns_def live_count_def os_failed_def holds_def)

lemma owns_reaped:
  assumes "owns i (Some c) w" "oc_status c = None"
  shows "owns i None (reaped i (oc_pid c) w) \<and> owns i (Some (c\<lparr>oc_status := Some code\<rparr>)) (reaped i (oc_pid c) w)"
  using assms filter_remove1_own [of i "oc_pid c" "ow_live w"]
  by (auto simp: owns_def holds_def live_count_def reaped_def)

lemma owns_dead: "oc_status c \<noteq> None \<Longrightarrow> owns i (Some c) w \<longleftrightarrow> owns i None w"
  by (auto simp: owns_def holds_def)

lemma others_keep_os [simp]:
  "others_keep i w (tick w)" "others_keep i w (os_failed (tick w))" "others_keep i w (reaped i p (tick w))"
  by (auto simp: others_keep_def tick_def os_failed_def reaped_def filter_remove1_other)

lemma try_wait_owns:
  assumes "try_wait env i c w = (r, c', w')" "owns i (Some c) w"
  shows "owns i (Some c') w'" "others_keep i w w'"
    "\<exists>e. r = Inl e \<Longrightarrow> owns i None w'" "r = Inr None \<Longrightarrow> c' = c \<and> oc_status c = None"
    "r = Inr (Some code) \<Longrightarrow> owns i None w' \<and> oc_status c' \<noteq> None"
  using assms owns_failed [of i "Some c" "tick w"] owns_reaped [of i c "tick w"] owns_dead [of c]
  by (auto simp: try_wait_def split: option.splits sum.splits)

lemma kill_owns:
  assumes "kill env c w = (r, w')" "owns i (Some c) w"
  shows "owns i (Some c) w' \<and> others_keep i w w' \<and> (\<forall>e. r = Inl e \<longrightarrow> owns i None w')"
  using assms owns_failed [of i "Some c" "tick w"]
  by (cases "oe_kill env (ow_calls w) (oc_pid c)"; cases "oc_status c") (auto simp: kill_def)

lemma wait_owns:
  assumes "wait env i c w = (c', w')" "owns i (Some c) w"
  shows "owns i None w' \<and> others_keep i w w'"
  using assms owns_failed [of i "Some c" "tick w"] owns_reaped [of i c "tick w"] owns_dead [of c i w]
  by (auto simp: wait_def split: sum.splits if_splits)

lemma owns_spawned:
  assumes "owns i None w"
  shows "owns i (Some \<lparr>oc_pid = pid, oc_status = None\<rparr>)
    ((tick w)\<lparr>ow_live := (i, pid) # ow_live w, ow_spawns := ss\<rparr>)"
  using assms by (auto simp: owns_def holds_def live_count_def tick_def)

lemma spawn_child_owns:
  assumes "spawn_child env log_dir spec w = (r, w')" "owns (sc_id spec) None w"
  shows "owns (sc_id spec) (case r of Inl _ \<Rightarrow> None | Inr c \<Rightarrow> Some c) w' \<and> others_keep (sc_id spec) w w'"
proof (cases "oe_spawn env (ow_calls w) spec")
  case (Inl e)
  with assms show ?thesis by (auto simp: spawn_child_def)
next
  case (Inr pid)
  let ?w = "(tick w)\<lparr>ow_live := (sc_id spec, pid) # ow_live w, ow_spawns := ow_spawns w @ [sc_id spec]\<rparr>"
  let ?c = "\<lparr>oc_pid = pid, oc_status = None\<rparr>"
  have own: "owns (sc_id spec) (Some ?c) (tick ?w)" "owns (sc_id spec) (Some ?c) ?w"
    using owns_spawned [OF assms(2)] by simp_all
  have keep: "others_keep (sc_id spec) w ?w"
    by (auto simp: others_keep_def tick_def)
  show ?thesis
  proof (cases "log_dir")
    case False
    with assms Inr own keep show ?thesis by (auto simp: spawn_child_def Let_def)
  next
    case True
    with assms(1) Inr own keep owns_failed [OF own(1)] show ?thesis
      by (cases "oe_log_dir env (ow_calls ?w)")
        (auto simp: spawn_child_def Let_def intro: others_keep_trans [OF keep])
  qed
qed

lemma read_clock_owns:
  assumes "read_clock env w = (now, w')"
  shows "others_keep i w w'" "owns j co w' \<longleftrightarrow> owns j co w"
  using assms by (auto simp: read_clock_def others_keep_def tick_def owns_def live_count_def)

definition monitor_child :: "monitor \<Rightarrow> os_child option" where
  "monitor_child m = (if mo_phase m = Polling then Some (mo_child m) else None)"

lemma monitor_child_end [simp]: "monitor_child (end_monitor f m) = None"
  by (simp add: monitor_child_def end_monitor_def)

lemma after_exit_owns:
  assumes "after_exit env spec code m w = (m', w')" "owns (sc_id spec) None w"
  shows "owns (sc_id spec) (monitor_child m') w' \<and> others_keep (sc_id spec) w w'"
proof -
  obtain now1 w1 where r1: "read_clock env w = (now1, w1)" by fastforce
  obtain now2 w2 where r2: "read_clock env w1 = (now2, w2)" by fastforce
  have w1: "owns (sc_id spec) None w1" "others_keep (sc_id spec) w w1"
    and w2: "owns (sc_id spec) None w2" "others_keep (sc_id spec) w w2"
    using read_clock_owns [OF r1] read_clock_owns [OF r2] assms(2) others_keep_trans by blast+
  have "(\<exists>f m1. m' = end_monitor f m1 \<and> w' \<in> {w, w1}) \<or> (mo_phase m' \<noteq> Polling \<and> w' = w2)"
    using assms(1) r1 r2
    by (cases "sc_restart_policy spec") (auto simp: after_exit_def Let_def split: if_splits)
  then have "monitor_child m' = None \<and> w' \<in> {w, w1, w2}"
    by (auto simp: monitor_child_def end_monitor_def)
  then show ?thesis
    using w1 w2 assms(2) by auto
qed

lemma respawn_owns:
  assumes "respawn env log_dir spec code m w = (m', w')" "owns (sc_id spec) None w"
  shows "owns (sc_id spec) (monitor_child m') w' \<and> others_keep (sc_id spec) w w'"
proof -
  obtain r w1 where sp: "spawn_child env log_dir spec w = (r, w1)" by fastforce
  note s1 = spawn_child_owns [OF sp assms(2)]
  show ?thesis
  proof (cases r)
    case (Inl e)
    then show ?thesis using assms(1) sp s1 by (auto simp: respawn_def)
  next
    case (Inr c)
    obtain now w2 where rd: "read_clock env w1 = (now, w2)" by fastforce
    show ?thesis
      using assms(1) sp s1 Inr rd read_clock_owns [OF rd] others_keep_trans
      by (fastforce simp: respawn_def monitor_child_def Let_def)
  qed
qed

lemma owns_cases: "owns i co w \<Longrightarrow> (\<And>c. co = Some c \<Longrightarrow> owns i (Some c) w \<Longrightarrow> P) \<Longrightarrow> (co = None \<Longrightarrow> owns i None w \<Longrightarrow> P) \<Longrightarrow> P"
  by (cases co) auto

lemma monitor_step_owns:
  assumes step: "monitor_step env log_dir spec m w = (m', w')"
    and own: "owns (sc_id spec) (monitor_child m) w"
  shows "owns (sc_id spec) (monitor_child m') w' \<and> others_keep (sc_id spec) w w' \<and>
    (mo_shutdown m \<longrightarrow> monitor_child m' = None)"
proof (cases "mo_phase m")
  case Polling
  then have own: "owns (sc_id spec) (Some (mo_child m)) w"
    using own by (simp add: monitor_child_def)
  show ?thesis
  proof (cases "mo_shutdown m")
    case True
    obtain kr w1 where k1: "kill env (mo_child m) w = (kr, w1)" by fastforce
    obtain c w2 where k2: "wait env (sc_id spec) (mo_child m) w1 = (c, w2)" by fastforce
    have k: "owns (sc_id spec) (Some (mo_child m)) w1" "others_keep (sc_id spec) w w1"
      using kill_owns [OF k1 own] by simp_all
    have "w' = w2" "monitor_child m' = None"
      using step Polling True k1 k2 by (auto simp: monitor_step_def)
    then show ?thesis
      using wait_owns [OF k2 k(1)] others_keep_trans [OF k(2)] by simp
  next
    case False
    obtain res c w1 where t1: "try_wait env (sc_id spec) (mo_child m) w = (res, c, w1)"
      by (metis prod_cases3)
    note t = try_wait_owns [OF t1 own]
    show ?thesis
    proof (cases res)
      case (Inl err)
      then have "w' = w1" "monitor_child m' = None"
        using step Polling False t1 by (auto simp: monitor_step_def)
      then show ?thesis using t(2,3) Inl False by simp
    next
      case (Inr found)
      show ?thesis
      proof (cases found)
        case None
        then show ?thesis
          using step Polling False t1 Inr t(1,2,4) by (auto simp: monitor_step_def monitor_child_def)
      next
        case (Some code)
        then have "after_exit env spec code (m\<lparr>mo_child := c\<rparr>) w1 = (m', w')"
          using step Polling False t1 Inr by (auto simp: monitor_step_def)
        from after_exit_owns [OF this] t(2,5) Some Inr False show ?thesis
          by (blast intro: others_keep_trans)
      qed
    qed
  qed
next
  case (Backoff code e)
  then have own: "owns (sc_id spec) None w"
    using own by (simp add: monitor_child_def)
  show ?thesis
  proof (cases "mo_shutdown m")
    case True
    then show ?thesis
      using step Backoff own by (auto simp: monitor_step_def)
  next
    case False
    obtain now w1 where rd: "read_clock env w = (now, w1)" by fastforce
    have w1: "owns (sc_id spec) None w1" "others_keep (sc_id spec) w w1"
      using read_clock_owns [OF rd] own by blast+
    show ?thesis
    proof (cases "now < e")
      case True
      then show ?thesis
        using step Backoff False rd w1 by (auto simp: monitor_step_def monitor_child_def)
    next
      case later: False
      then have "respawn env log_dir spec code m w1 = (m', w')"
        using step Backoff False rd by (simp add: monitor_step_def)
      from respawn_owns [OF this w1(1)] others_keep_trans [OF w1(2)] False show ?thesis by blast
    qed
  qed
next
  case MonitorDone
  then show ?thesis
    using step own by (auto simp: monitor_step_def monitor_child_def)
qed

definition status_ok :: "monitor \<Rightarrow> bool" where
  "status_ok m \<longleftrightarrow> (mo_phase m = Polling \<longrightarrow> ms_status (mo_shared m) = PsRunning)"

lemma status_ok_end [simp]: "status_ok (end_monitor f m)"
  by (simp add: status_ok_def end_monitor_def)

lemma after_exit_status: "after_exit env spec code m w = (m', w') \<Longrightarrow> status_ok m'"
  by (cases "sc_restart_policy spec")
    (auto simp: after_exit_def status_ok_def end_monitor_def Let_def split: prod.splits if_splits)

lemma respawn_status: "respawn env log_dir spec code m w = (m', w') \<Longrightarrow> status_ok m'"
  by (auto simp: respawn_def status_ok_def end_monitor_def Let_def split: prod.splits sum.splits)

lemma monitor_step_status: "monitor_step env log_dir spec m w = (m', w') \<Longrightarrow> status_ok m \<Longrightarrow> status_ok m'"
  by (auto simp: monitor_step_def split: monitor_phase.splits if_splits prod.splits sum.splits option.splits
    dest: after_exit_status respawn_status)

subsection \<open>The supervisor keeps track\<close>

fun handle_child :: "process_handle \<Rightarrow> os_child option" where
  "handle_child (Direct c e) = Some c"
| "handle_child (Monitored spec m) = monitor_child m"

fun handle_names :: "string \<Rightarrow> process_handle \<Rightarrow> bool" where
  "handle_names i (Direct c e) \<longleftrightarrow> True"
| "handle_names i (Monitored spec m) \<longleftrightarrow> sc_id spec = i \<and> status_ok m"

definition entry :: "supervisor \<Rightarrow> string \<Rightarrow> local_process option" where
  "entry s i = btree_get lp_id (sv_children s) i"

definition held :: "supervisor \<Rightarrow> string \<Rightarrow> os_child option" where
  "held s i = (case entry s i of None \<Rightarrow> None | Some p \<Rightarrow> handle_child (lp_handle p))"

definition tracks :: "sup_state \<Rightarrow> bool" where
  "tracks st \<longleftrightarrow> (\<forall>i. owns i (held (fst st) i) (snd st)) \<and>
     (\<forall>i p. entry (fst st) i = Some p \<longrightarrow> lp_id p = i \<and> handle_names i (lp_handle p))"

lemma entry_with_handle [simp]:
  "entry (with_handle h p s) i = (if i = lp_id p then Some (p\<lparr>lp_handle := h\<rparr>) else entry s i)"
  by (simp add: entry_def with_handle_def btree_get_insert)

lemma entry_without [simp]: "entry (without j s) i = (if i = j then None else entry s i)"
  by (simp add: entry_def without_def btree_get_filter)

lemma log_dir_keep [simp]: "sv_log_dir (without j s) = sv_log_dir s" "sv_log_dir (with_handle h p s) = sv_log_dir s"
  by (simp_all add: without_def with_handle_def)

lemma held_with_handle [simp]:
  "held (with_handle h p s) i = (if i = lp_id p then handle_child h else held s i)"
  by (simp add: held_def)

lemma held_without [simp]: "held (without j s) i = (if i = j then None else held s i)"
  by (simp add: held_def)

lemma entry_id: "entry s i = Some p \<Longrightarrow> lp_id p = i"
  by (auto simp: entry_def dest: btree_getD)

lemma tracks_owns: "tracks (s, w) \<Longrightarrow> owns i (held s i) w"
  by (simp add: tracks_def)

lemma tracks_names: "tracks (s, w) \<Longrightarrow> entry s i = Some p \<Longrightarrow> handle_names i (lp_handle p)"
  by (simp add: tracks_def)

text \<open>An operation on \<open>i\<close> keeps the rest.\<close>

lemma tracks_step:
  assumes "tracks (s, w)" "others_keep i w w'" "owns i (held s' i) w'"
    and "\<And>j. j \<noteq> i \<Longrightarrow> entry s' j = entry s j"
    and "\<And>p. entry s' i = Some p \<Longrightarrow> handle_names i (lp_handle p)"
  shows "tracks (s', w')"
proof -
  have "owns j (held s' j) w'" if "j \<noteq> i" for j
    using others_keep_owns [OF assms(2) tracks_owns [OF assms(1)] that] assms(4) [OF that] by (simp add: held_def)
  moreover have "lp_id p = j \<and> handle_names j (lp_handle p)" if "entry s' j = Some p" for j p
    using that assms(4,5) tracks_names [OF assms(1)] entry_id [OF that] by (cases "j = i") auto
  ultimately show ?thesis
    using assms(3) unfolding tracks_def fst_conv snd_conv by metis
qed

lemma tracks_same: "tracks (s, w) \<Longrightarrow> others_keep i w w' \<Longrightarrow> owns i (held s i) w' \<Longrightarrow> tracks (s, w')"
  by (rule tracks_step) (auto simp: tracks_names)

lemma snapshot_for_state_tracks:
  assumes "snapshot_for_state env p (s, w) = (r, st')" "tracks (s, w)" "entry s i = Some p"
  shows "tracks st' \<and>
    (\<forall>snap. r = Inr snap \<longrightarrow> pn_status snap \<notin> {PsRunning, PsRestarting} \<longrightarrow> owns i None (snd st'))"
proof (cases "lp_handle p")
  case (Direct c e)
  have i: "lp_id p = i" using assms(3) by (rule entry_id)
  obtain res c' w1 where t1: "try_wait env i c w = (res, c', w1)"
    by (metis prod_cases3)
  have own: "owns i (Some c) w"
    using tracks_owns [OF assms(2), of i] assms(3) Direct by (simp add: held_def)
  note t = try_wait_owns [OF t1 own]
  show ?thesis
  proof (cases res)
    case (Inl err)
    have "owns i (held s i) w1"
      using t(1) t1 Inl assms(3) Direct by (auto simp: held_def try_wait_def split: option.splits sum.splits)
    then show ?thesis
      using assms(1) Direct t1 Inl i tracks_same [OF assms(2) t(2)] by (auto simp: snapshot_for_state_def)
  next
    case (Inr found)
    show ?thesis
    proof (cases found)
      case None
      then have "c' = c" using t(4) Inr by simp
      then have "owns i (held s i) w1"
        using t(1) assms(3) Direct by (simp add: held_def)
      then show ?thesis
        using assms(1) Direct t1 Inr None i tracks_same [OF assms(2) t(2)]
        by (auto simp: snapshot_for_state_def new_snapshot_def)
    next
      case (Some code)
      have "tracks (with_handle (Direct c' code) p s, w1)"
        using t(1) i assms(3) by (intro tracks_step [OF assms(2) t(2)]) auto
      then show ?thesis
        using assms(1) Direct t1 Inr Some i t(5) by (auto simp: snapshot_for_state_def)
    qed
  qed
next
  case (Monitored spec m)
  have "owns i (monitor_child m) w" "status_ok m"
    using tracks_owns [OF assms(2), of i] tracks_names [OF assms(2,3)] assms(3) Monitored
    by (simp_all add: held_def)
  then have "ms_status (mo_shared m) \<noteq> PsRunning \<Longrightarrow> owns i None w"
    by (auto simp: monitor_child_def status_ok_def split: if_splits)
  then show ?thesis
    using assms(1,2) Monitored by (auto simp: snapshot_for_state_def Let_def new_snapshot_def)
qed

lemma spawned_tracks:
  assumes "tracks (s, w)" "owns (sc_id spec) None w" "spawn_child env (sv_log_dir s) spec w = (res, w1)"
  shows "\<exists>e. res = Inl e \<Longrightarrow> held s (sc_id spec) = None \<Longrightarrow> tracks (s, w1)"
    and "res = Inr c \<Longrightarrow> handle_child h = Some c \<Longrightarrow> handle_names (sc_id spec) h \<Longrightarrow>
      others_keep (sc_id spec) w1 w2 \<Longrightarrow> owns (sc_id spec) (Some c) w2 \<Longrightarrow> lp_id p = sc_id spec \<Longrightarrow>
      tracks (with_handle h p s, w2)"
proof -
  note sp = spawn_child_owns [OF assms(3,2)]
  show "\<exists>e. res = Inl e \<Longrightarrow> held s (sc_id spec) = None \<Longrightarrow> tracks (s, w1)"
    using tracks_same [OF assms(1)] sp by auto
  assume h: "res = Inr c" "handle_child h = Some c" "handle_names (sc_id spec) h"
    "others_keep (sc_id spec) w1 w2" "owns (sc_id spec) (Some c) w2" "lp_id p = sc_id spec"
  have "others_keep (sc_id spec) w w2"
    using sp h(4) others_keep_trans by blast
  then show "tracks (with_handle h p s, w2)"
    by (rule tracks_step [OF assms(1)]) (use h in auto)
qed

lemma start_direct_tracks:
  assumes "tracks (s, w)" "held s (sc_id spec) = None"
  shows "tracks (snd (start_direct env spec (s, w)))"
proof -
  obtain res w1 where sp: "spawn_child env (sv_log_dir s) spec w = (res, w1)" by fastforce
  have own: "owns (sc_id spec) None w"
    using tracks_owns [OF assms(1)] assms(2) by metis
  note t = spawned_tracks [OF assms(1) own sp]
  show ?thesis
    using t(1) t(2) [where h = "Direct _ None"] assms(2) sp spawn_child_owns [OF sp own]
    by (cases res) (auto simp: start_direct_def)
qed

lemma start_monitored_tracks:
  assumes "tracks (s, w)" "held s (sc_id spec) = None"
  shows "tracks (snd (start_monitored env spec (s, w)))"
proof -
  obtain res w1 where sp: "spawn_child env (sv_log_dir s) spec w = (res, w1)" by fastforce
  obtain now w2 where rd: "read_clock env w1 = (now, w2)" by fastforce
  have own: "owns (sc_id spec) None w"
    using tracks_owns [OF assms(1)] assms(2) by metis
  note t = spawned_tracks [OF assms(1) own sp]
  show ?thesis
    using t(1) t(2) [where h = "Monitored spec _" and ?w2.0 = w2] assms(2) sp rd
      spawn_child_owns [OF sp own] read_clock_owns [OF rd]
    by (cases res) (auto simp: start_monitored_def Let_def monitor_child_def status_ok_def)
qed

lemma start_process_tracks:
  assumes "tracks st"
  shows "tracks (snd (start_process env spec st))"
proof -
  obtain s w where st: "st = (s, w)" by fastforce
  have spawn: "tracks (snd (case sc_restart_policy spec of NoRestart \<Rightarrow> start_direct env spec (s, w)
      | Bounded _ _ _ _ \<Rightarrow> start_monitored env spec (s, w)))"
    if "tracks (s, w)" "held s (sc_id spec) = None" for s w
    using start_direct_tracks [OF that] start_monitored_tracks [OF that]
    by (simp split: restart_policy.split)
  show ?thesis
  proof (cases "entry s (sc_id spec)")
    case None
    then show ?thesis
      using spawn [of s w] assms st by (auto simp: start_process_def held_def entry_def)
  next
    case (Some p)
    obtain r s1 w1 where sn: "snapshot_for_state env p (s, w) = (r, s1, w1)"
      by (metis prod_cases3)
    note t = snapshot_for_state_tracks [OF sn assms [unfolded st] Some]
    have t1: "tracks (s1, w1)"
      using t by (rule conjunct1)
    have "tracks (without (sc_id spec) s1, w1)" if "owns (sc_id spec) None w1"
      by (rule tracks_step [OF t1 others_keep_refl [of "sc_id spec"]]) (simp_all add: that)
    then have again: "tracks (snd (case sc_restart_policy spec of
        NoRestart \<Rightarrow> start_direct env spec (without (sc_id spec) s1, w1)
      | Bounded _ _ _ _ \<Rightarrow> start_monitored env spec (without (sc_id spec) s1, w1)))"
      if "owns (sc_id spec) None w1"
      using that by (intro spawn) simp_all
    have at: "btree_get lp_id (sv_children s) (sc_id spec) = Some p"
      using Some by (simp add: entry_def)
    show ?thesis
    proof (cases r)
      case (Inl e)
      with t st at sn show ?thesis by (simp add: start_process_def Let_def)
    next
      case (Inr snap)
      show ?thesis
      proof (cases "pn_status snap = PsRunning \<or> pn_status snap = PsRestarting")
        case True
        with Inr t st at sn show ?thesis by (simp add: start_process_def Let_def)
      next
        case False
        with t Inr have "owns (sc_id spec) None w1" by simp
        from again [OF this] False Inr st at sn show ?thesis
          by (simp add: start_process_def Let_def)
      qed
    qed
  qed
qed

lemma without_tracks:
  "tracks (s, w) \<Longrightarrow> others_keep i w w' \<Longrightarrow> owns i None w' \<Longrightarrow> tracks (without i s, w')"
  by (rule tracks_step [where i = i]) simp_all

lemma stop_process_tracks:
  assumes "tracks st"
  shows "tracks (snd (stop_process env spec st))"
proof -
  obtain s w where st: "st = (s, w)" by fastforce
  note tr = assms [unfolded st]
  show ?thesis
  proof (cases "entry s (sc_id spec)")
    case None
    then show ?thesis using tr st by (simp add: stop_process_def entry_def Let_def)
  next
    case (Some p)
    let ?i = "sc_id spec"
    have i: "lp_id p = ?i" using Some by (rule entry_id)
    have at: "btree_get lp_id (sv_children s) ?i = Some p"
      using Some by (simp add: entry_def)
    have own: "owns ?i (handle_child (lp_handle p)) w"
      using tracks_owns [OF tr, of ?i] Some by (simp add: held_def)
    show ?thesis
    proof (cases "lp_handle p")
      case (Direct c e)
      obtain res c1 w1 where t1: "try_wait env ?i c w = (res, c1, w1)" by (metis prod_cases3)
      obtain kr w2 where k1: "kill env c1 w1 = (kr, w2)" by fastforce
      obtain c2 w3 where k2: "wait env ?i c1 w2 = (c2, w3)" by fastforce
      note t = try_wait_owns [OF t1 own [unfolded Direct handle_child.simps]]
      note k = kill_owns [OF k1 t(1)]
      have k': "owns ?i (Some c1) w2" "others_keep ?i w w2"
        using k others_keep_trans [OF t(2)] by blast+
      note x = wait_owns [OF k2 k'(1)]
      have "snd (stop_process env spec st) = (without ?i s, w1) \<and> owns ?i None w1 \<or>
          snd (stop_process env spec st) = (without ?i s, w2) \<and> owns ?i None w2 \<or>
          snd (stop_process env spec st) = (without ?i s, w3)"
        using st at Direct i t1 k1 k2 t(3-5) k
        by (cases res; cases kr) (auto simp: stop_process_def Let_def split: option.split)
      then show ?thesis
        using without_tracks [OF tr] t(2) k' x others_keep_trans [OF k'(2)] by auto
    next
      case (Monitored mspec m)
      then have id: "sc_id mspec = ?i"
        using tracks_names [OF tr Some] by simp
      obtain m' w' where ms: "monitor_step env (sv_log_dir s) mspec (m\<lparr>mo_shutdown := True\<rparr>) w = (m', w')"
        by fastforce
      have "owns (sc_id mspec) (monitor_child (m\<lparr>mo_shutdown := True\<rparr>)) w"
        using own Monitored id by (auto simp: monitor_child_def split: if_splits)
      from monitor_step_owns [OF ms this] id have "owns ?i None w'" "others_keep ?i w w'"
        by auto
      then show ?thesis
        using st at Monitored ms without_tracks [OF tr] by (simp add: stop_process_def Let_def)
    qed
  qed
qed

lemma snapshot_process_tracks:
  assumes "tracks st"
  shows "tracks (snd (snapshot_process env spec st))"
proof (cases "entry (fst st) (sc_id spec)")
  case (Some p)
  obtain r st' where sn: "snapshot_for_state env p (fst st, snd st) = (r, st')"
    by (metis surj_pair)
  show ?thesis
    using snapshot_for_state_tracks [OF sn _ Some] assms Some sn by (simp add: snapshot_process_def entry_def)
qed (use assms in \<open>simp add: snapshot_process_def entry_def\<close>)

lemma monitor_round_tracks:
  assumes "tracks st"
  shows "tracks (monitor_round env i st)"
proof -
  obtain s w where st: "st = (s, w)" by fastforce
  note tr = assms [unfolded st]
  show ?thesis
  proof (cases "entry s i")
    case None
    then show ?thesis using tr st by (simp add: monitor_round_def entry_def)
  next
    case (Some p)
    have i: "lp_id p = i" using Some by (rule entry_id)
    show ?thesis
    proof (cases "lp_handle p")
      case (Direct c e)
      then show ?thesis using tr st Some by (simp add: monitor_round_def entry_def)
    next
      case (Monitored spec m)
      obtain m' w' where ms: "monitor_step env (sv_log_dir s) spec m w = (m', w')" by fastforce
      have names: "sc_id spec = i" "status_ok m"
        using tracks_names [OF tr Some] Monitored by simp_all
      then have "owns (sc_id spec) (monitor_child m) w"
        using tracks_owns [OF tr, of i] Some Monitored by (simp add: held_def)
      note own = monitor_step_owns [OF ms this]
      have "tracks (with_handle (Monitored spec m') p s, w')"
        by (rule tracks_step [OF tr, of i]) (use own names i monitor_step_status [OF ms] in auto)
      then show ?thesis
        using st Some Monitored ms by (simp add: monitor_round_def entry_def)
    qed
  qed
qed

datatype sup_op =
  SupStart process_spec | SupStop process_spec | SupSnapshot process_spec | SupMonitorRound string

fun sup_do :: "os_env \<Rightarrow> sup_op \<Rightarrow> sup_state \<Rightarrow> sup_state" where
  "sup_do env (SupStart spec) st = snd (start_process env spec st)"
| "sup_do env (SupStop spec) st = snd (stop_process env spec st)"
| "sup_do env (SupSnapshot spec) st = snd (snapshot_process env spec st)"
| "sup_do env (SupMonitorRound i) st = monitor_round env i st"

definition new_supervisor :: "bool \<Rightarrow> sup_state" where
  "new_supervisor log_dir = (\<lparr>sv_children = [], sv_log_dir = log_dir\<rparr>,
     \<lparr>ow_calls = 0, ow_live = [], ow_failures = 0, ow_spawns = [], ow_time = 0\<rparr>)"

lemma tracks_new: "tracks (new_supervisor log_dir)"
  by (simp add: tracks_def new_supervisor_def entry_def held_def owns_def holds_def live_count_def)

lemma tracks_ops: "tracks st \<Longrightarrow> tracks (fold (sup_do env) ops st)"
proof (induction ops arbitrary: st)
  case (Cons op ops)
  have "tracks (sup_do env op st)"
    using Cons.prems by (cases op)
      (simp_all add: start_process_tracks stop_process_tracks snapshot_process_tracks monitor_round_tracks)
  then show ?case using Cons.IH by simp
qed simp

lemma tracked_children:
  assumes "tracks (s, w)"
  shows "live_count i w \<le> (if i \<in> lp_id ` set (sv_children s) then 1 else 0) + ow_failures w"
proof -
  have "live_count i w \<le> of_bool (holds (held s i)) + ow_failures w"
    using tracks_owns [OF assms] by (auto simp: owns_def)
  moreover have "holds (held s i) \<Longrightarrow> i \<in> lp_id ` set (sv_children s)"
    by (auto simp: holds_def held_def entry_def split: option.splits dest: btree_getD)
  ultimately show ?thesis
    by (cases "holds (held s i)") (simp_all split: if_split)
qed

section \<open>Where the code falls short\<close>

text \<open>
  The child is started before the directory of its logs is made: when that fails, the caller gets an
  error, the child runs on unsupervised, and the next start makes another one.
\<close>

definition no_log_dir_os :: os_env where
  "no_log_dir_os = crashing_os\<lparr>oe_log_dir := (\<lambda>n. Inl ''read-only''),
     oe_try_wait := (\<lambda>n pid. Inr None)\<rparr>"

lemma failed_start_leaves_child:
  "fst (start_process no_log_dir_os (new_process_spec ''p'' OtherProcess ''serve'') (new_supervisor True)) =
     Inl (PmIo ''read-only'')"
  "live_count ''p'' (snd (fold (sup_do no_log_dir_os)
     (replicate 2 (SupStart (new_process_spec ''p'' OtherProcess ''serve''))) (new_supervisor True))) = 2"
  by (simp_all add: start_process_def start_direct_def new_supervisor_def new_process_spec_def
    spawn_child_def no_log_dir_os_def crashing_os_def tick_def os_failed_def live_count_def numeral_2_eq_2)

text \<open>\<open>stop\<close> forgets the child before it is killed: when the kill fails, it can no longer be stopped.\<close>

definition no_kill_os :: os_env where
  "no_kill_os = crashing_os\<lparr>oe_kill := (\<lambda>n pid. Inl ''denied''), oe_try_wait := (\<lambda>n pid. Inr None)\<rparr>"

lemma failed_stop_forgets_child:
  "(case fold (sup_do no_kill_os) [SupStart (new_process_spec ''p'' OtherProcess ''serve''),
       SupStop (new_process_spec ''p'' OtherProcess ''serve'')] (new_supervisor False) of (s, w) \<Rightarrow>
     live_count ''p'' w = 1 \<and> sv_children s = [])"
  by (simp add: start_process_def start_direct_def new_supervisor_def new_process_spec_def
    spawn_child_def no_kill_os_def crashing_os_def tick_def os_failed_def live_count_def
    stop_process_def try_wait_def kill_def with_handle_def btree_insert_def without_def)

end
