(* ===== verification/ProcessManager.thy ===== *)
theory ProcessManager
  imports SupervisorTheorems
begin

text \<open>
  The process manager (crates/process-manager/src/manager.rs, sidecars.rs): the operations of
  \<open>ProcessManager\<close> over a registry and a supervisor.

  The trait \<open>ProcessSupervisor\<close> is the record \<open>supervisor_ops\<close>; its laws are the locale
  \<open>process_supervisor\<close>, with \<open>FakeProcessSupervisor\<close> and \<open>LocalProcessSupervisor\<close> as its two
  interpretations. The probes of health and of running processes are parameters.
\<close>

section \<open>Supervisors\<close>

record 's supervisor_ops =
  so_start :: "process_spec \<Rightarrow> 's \<Rightarrow> (pm_error + process_snapshot) \<times> 's"
  so_stop :: "process_spec \<Rightarrow> 's \<Rightarrow> (pm_error + process_snapshot) \<times> 's"
  so_snapshot :: "process_spec \<Rightarrow> 's \<Rightarrow> (pm_error + process_snapshot) \<times> 's"

definition local_supervisor :: "os_env \<Rightarrow> sup_state supervisor_ops" where
  "local_supervisor env = \<lparr>so_start = start_process env, so_stop = stop_process env,
     so_snapshot = snapshot_process env\<rparr>"

record fake_state =
  fk_running :: "string list"
  fk_pids :: "(string \<times> u32) list"
  fk_next_pid :: u32

definition fake_start :: "process_spec \<Rightarrow> fake_state \<Rightarrow> (pm_error + process_snapshot) \<times> fake_state" where
  "fake_start spec s = (let
     next_id = (if fk_next_pid s = 0 then 10001 else fk_next_pid s);
     running = List.insert (sc_id spec) (fk_running s);
     snap = (\<lambda>pid. (new_snapshot (sc_id spec) (sc_kind spec) PsRunning)\<lparr>pn_pid := Some pid\<rparr>) in
     case map_of (fk_pids s) (sc_id spec) of
       Some pid \<Rightarrow> (Inr (snap pid), s\<lparr>fk_running := running, fk_next_pid := next_id\<rparr>)
     | None \<Rightarrow> (Inr (snap next_id), \<lparr>fk_running = running, fk_pids = (sc_id spec, next_id) # fk_pids s,
         fk_next_pid = next_id + 1\<rparr>))"

definition fake_stop :: "process_spec \<Rightarrow> fake_state \<Rightarrow> (pm_error + process_snapshot) \<times> fake_state" where
  "fake_stop spec s = (Inr (new_snapshot (sc_id spec) (sc_kind spec) PsStopped),
     s\<lparr>fk_running := removeAll (sc_id spec) (fk_running s)\<rparr>)"

definition fake_snapshot :: "process_spec \<Rightarrow> fake_state \<Rightarrow> (pm_error + process_snapshot) \<times> fake_state" where
  "fake_snapshot spec s = (if sc_id spec \<in> set (fk_running s)
     then (Inr ((new_snapshot (sc_id spec) (sc_kind spec) PsRunning)\<lparr>pn_pid :=
       Some (case map_of (fk_pids s) (sc_id spec) of Some pid \<Rightarrow> pid | None \<Rightarrow> 10001)\<rparr>), s)
     else (Inl (PmNotFound (sc_id spec)), s))"

definition fake_supervisor :: "fake_state supervisor_ops" where
  "fake_supervisor = \<lparr>so_start = fake_start, so_stop = fake_stop, so_snapshot = fake_snapshot\<rparr>"

section \<open>The manager\<close>

record 's process_manager =
  pz_registry :: process_registry
  pz_supervisor :: 's

type_synonym ('s, 'a) pm = "'s process_manager \<Rightarrow> (pm_error + 'a) \<times> 's process_manager"

record process_detail =
  pd_spec :: process_spec
  pd_snapshot :: process_snapshot

definition pm_return :: "'a \<Rightarrow> ('s, 'a) pm" where
  "pm_return x m = (Inr x, m)"

definition pm_bind :: "('s, 'a) pm \<Rightarrow> ('a \<Rightarrow> ('s, 'b) pm) \<Rightarrow> ('s, 'b) pm" where
  "pm_bind f g m = (case f m of (Inl e, m) \<Rightarrow> (Inl e, m) | (Inr x, m) \<Rightarrow> g x m)"

text \<open>A call of the supervisor, and a snapshot written to the registry.\<close>

definition pm_call :: "('s \<Rightarrow> (pm_error + 'a) \<times> 's) \<Rightarrow> ('s, 'a) pm" where
  "pm_call f m = (case f (pz_supervisor m) of (r, s) \<Rightarrow> (r, m\<lparr>pz_supervisor := s\<rparr>))"

definition pm_record :: "process_snapshot \<Rightarrow> ('s, process_snapshot) pm" where
  "pm_record s m = (Inr s, m\<lparr>pz_registry := record_snapshot s (pz_registry m)\<rparr>)"

definition require_spec :: "string \<Rightarrow> ('s, process_spec) pm" where
  "require_spec i m = (ok_or (PmNotFound i) (get_spec (pz_registry m) i), m)"

definition register_process :: "process_spec \<Rightarrow> ('s, unit) pm" where
  "register_process spec m = (Inr (), m\<lparr>pz_registry :=
     record_snapshot (configured_snapshot spec) (upsert_spec spec (pz_registry m))\<rparr>)"

definition pm_start :: "'s supervisor_ops \<Rightarrow> string \<Rightarrow> ('s, process_snapshot) pm" where
  "pm_start ops i = pm_bind (require_spec i) (\<lambda>spec. pm_bind (pm_call (so_start ops spec)) pm_record)"

definition pm_stop :: "'s supervisor_ops \<Rightarrow> string \<Rightarrow> ('s, process_snapshot) pm" where
  "pm_stop ops i = pm_bind (require_spec i) (\<lambda>spec. pm_bind (pm_call (so_stop ops spec)) pm_record)"

definition pm_restart :: "'s supervisor_ops \<Rightarrow> string \<Rightarrow> ('s, process_snapshot) pm" where
  "pm_restart ops i = pm_bind (require_spec i) (\<lambda>spec.
     pm_bind (pm_record (new_snapshot (sc_id spec) (sc_kind spec) PsRestarting)) (\<lambda>_.
     pm_bind (pm_call (so_stop ops spec)) (\<lambda>_.
     pm_bind (pm_call (so_start ops spec)) pm_record)))"

definition pm_check_health ::
    "'s supervisor_ops \<Rightarrow> (string \<Rightarrow> u64 \<Rightarrow> health_probe_result) \<Rightarrow> string \<Rightarrow> ('s, process_snapshot) pm" where
  "pm_check_health ops http_get i = pm_bind (require_spec i) (\<lambda>spec.
     pm_bind (\<lambda>m. case so_snapshot ops spec (pz_supervisor m) of
         (Inr s, sv) \<Rightarrow> (Inr s, m\<lparr>pz_supervisor := sv\<rparr>)
       | (Inl e, sv) \<Rightarrow>
           (ok_or (PmNotFound i) (latest_snapshot (pz_registry m) i), m\<lparr>pz_supervisor := sv\<rparr>)) (\<lambda>current.
     let health = evaluate_health http_get spec current in
     pm_record (current\<lparr>pn_status := (if hp_healthy health then PsHealthy else PsUnhealthy),
       pn_message := Some (hp_message health)\<rparr>)))"

definition stored_snapshot :: "process_registry \<Rightarrow> process_spec \<Rightarrow> string \<Rightarrow> process_snapshot" where
  "stored_snapshot r spec i = (case latest_snapshot r i of Some s \<Rightarrow> s | None \<Rightarrow> configured_snapshot spec)"

definition detail :: "process_registry \<Rightarrow> string \<Rightarrow> process_detail option" where
  "detail r i = map_option (\<lambda>spec. \<lparr>pd_spec = spec, pd_snapshot = stored_snapshot r spec i\<rparr>) (get_spec r i)"

section \<open>What is already running\<close>

record discovered_process =
  dp_pid :: u32
  dp_command :: string
  dp_cwd :: "string option"
  dp_port :: "16 word option"

record resource_snapshot =
  rx_total_memory_mb :: "u64 option"
  rx_available_memory_mb :: "u64 option"
  rx_process_memory_mb :: "u64 option"
  rx_process_cpu_percent :: "string option"

definition no_resources :: resource_snapshot where
  "no_resources = \<lparr>rx_total_memory_mb = None, rx_available_memory_mb = None,
     rx_process_memory_mb = None, rx_process_cpu_percent = None\<rparr>"

record discovery =
  di_listeners :: "16 word \<Rightarrow> discovered_process list"
  di_matching :: "string \<Rightarrow> discovered_process list"
  di_resources :: "u32 \<Rightarrow> resource_snapshot option"

datatype runtime_control_status =
  RcConfigured | RcManagedRunning | RcExternalRunning | RcReady | RcUnhealthy | RcDuplicateConflict
| RcStopped

record runtime_control =
  rc_process_id :: string
  rc_status :: runtime_control_status
  rc_managed :: process_snapshot
  rc_port :: "16 word option"
  rc_port_owner :: "discovered_process option"
  rc_duplicates :: "discovered_process list"
  rc_resources :: resource_snapshot
  rc_message :: string

text \<open>\<open>str::parse::<u16>\<close>: an optional plus sign, then digits, without overflow.\<close>

definition parse_u16 :: "string \<Rightarrow> 16 word option" where
  "parse_u16 s = (let ds = (case s of c # r \<Rightarrow> if c = CHR ''+'' then r else s | [] \<Rightarrow> []);
     n = fold (\<lambda>c n. n * 10 + (byte c - 48)) ds 0 in
     if ds \<noteq> [] \<and> list_all is_digit ds \<and> n < 65536 then Some (of_nat n) else None)"

text \<open>What follows the last colon of the address, up to the next slash.\<close>

definition runtime_port :: "process_spec \<Rightarrow> 16 word option" where
  "runtime_port spec = (case sc_health_check spec of
     HttpGet url timeout_ms \<Rightarrow> (if CHR '':'' \<in> set url
       then parse_u16 (takeWhile (\<lambda>c. c \<noteq> CHR ''/'') (rev (takeWhile (\<lambda>c. c \<noteq> CHR '':'') (rev url))))
       else None)
   | _ \<Rightarrow> None)"

definition runtime_needle :: "process_spec \<Rightarrow> string" where
  "runtime_needle spec = (case find (contains ''server.py'') (sc_args spec) of
     Some arg \<Rightarrow> arg | None \<Rightarrow> sc_command spec)"

definition runtime_control_status_of ::
    "process_snapshot \<Rightarrow> discovered_process option \<Rightarrow> discovered_process list \<Rightarrow> runtime_control_status" where
  "runtime_control_status_of managed owner duplicates =
     (if 1 < length duplicates then RcDuplicateConflict
      else case pn_status managed of
        PsHealthy \<Rightarrow> RcReady
      | PsRunning \<Rightarrow> RcManagedRunning | PsStarting \<Rightarrow> RcManagedRunning | PsRestarting \<Rightarrow> RcManagedRunning
      | PsUnhealthy \<Rightarrow> RcUnhealthy | PsFailed \<Rightarrow> RcUnhealthy
      | PsStopped \<Rightarrow> (if owner \<noteq> None then RcExternalRunning else RcStopped)
      | PsExited \<Rightarrow> (if owner \<noteq> None then RcExternalRunning else RcStopped)
      | PsConfigured \<Rightarrow> (if owner \<noteq> None then RcExternalRunning else RcConfigured))"

fun runtime_control_message :: "runtime_control_status \<Rightarrow> string" where
  "runtime_control_message RcConfigured = ''runtime configured, not running''"
| "runtime_control_message RcManagedRunning = ''managed runtime process is running''"
| "runtime_control_message RcExternalRunning = ''runtime port is already served by an external process''"
| "runtime_control_message RcReady = ''runtime is healthy''"
| "runtime_control_message RcUnhealthy = ''runtime health check failed''"
| "runtime_control_message RcDuplicateConflict =
     ''multiple runtime processes detected; resolve duplicates before starting''"
| "runtime_control_message RcStopped = ''runtime stopped''"

definition control_snapshot :: "discovery \<Rightarrow> process_registry \<Rightarrow> process_spec \<Rightarrow> string \<Rightarrow> runtime_control" where
  "control_snapshot d r spec i = (let
     managed = stored_snapshot r spec i;
     port = runtime_port spec;
     owner = Option.bind port (\<lambda>p. case di_listeners d p of [] \<Rightarrow> None | x # _ \<Rightarrow> Some x);
     duplicates = di_matching d (runtime_needle spec);
     pid = (case pn_pid managed of Some p \<Rightarrow> Some p | None \<Rightarrow> map_option dp_pid owner);
     resources = (case Option.bind pid (di_resources d) of Some x \<Rightarrow> x | None \<Rightarrow> no_resources);
     status = runtime_control_status_of managed owner duplicates in
     \<lparr>rc_process_id = i, rc_status = status, rc_managed = managed, rc_port = port, rc_port_owner = owner,
      rc_duplicates = duplicates, rc_resources = resources, rc_message = runtime_control_message status\<rparr>)"

definition runtime_control_snapshot :: "discovery \<Rightarrow> string \<Rightarrow> ('s, runtime_control) pm" where
  "runtime_control_snapshot d i = pm_bind (require_spec i) (\<lambda>spec m.
     (Inr (control_snapshot d (pz_registry m) spec i), m))"

definition ensure_managed ::
    "'s supervisor_ops \<Rightarrow> runtime_control \<Rightarrow> process_spec \<Rightarrow> string \<Rightarrow> ('s, process_snapshot) pm" where
  "ensure_managed ops control spec i m = (case so_snapshot ops spec (pz_supervisor m) of
     (Inr snap, sv) \<Rightarrow> (case pm_record snap (m\<lparr>pz_supervisor := sv\<rparr>) of (_, m) \<Rightarrow>
       if pn_status snap = PsRunning \<or> rc_port_owner control \<noteq> None then (Inr snap, m)
       else pm_start ops i m)
   | (Inl e, sv) \<Rightarrow> (let m = m\<lparr>pz_supervisor := sv\<rparr> in
       if rc_port_owner control \<noteq> None then (Inr (rc_managed control), m)
       else pm_start ops i (snd (pm_record (new_snapshot (sc_id spec) (sc_kind spec) PsStopped) m))))"

definition ensure_runtime_started ::
    "'s supervisor_ops \<Rightarrow> discovery \<Rightarrow> string \<Rightarrow> ('s, process_snapshot) pm" where
  "ensure_runtime_started ops d i = pm_bind (require_spec i) (\<lambda>spec.
     pm_bind (runtime_control_snapshot d i) (\<lambda>control.
     if rc_status control \<in> {RcConfigured, RcStopped, RcUnhealthy} then pm_start ops i
     else if rc_status control = RcManagedRunning then ensure_managed ops control spec i
     else pm_return (rc_managed control)))"

section \<open>Sidecars\<close>

record mcp_process_config =
  mp_id :: string
  mp_command :: string
  mp_args :: "string list"
  mp_env :: "(string \<times> string) list"
  mp_cwd :: "string option"
  mp_log_capacity :: nat

definition mcp_stdio :: "mcp_process_config \<Rightarrow> process_spec" where
  "mcp_stdio c = (new_process_spec (''mcp-'' @ mp_id c) McpServer (mp_command c))
     \<lparr>sc_health_check := ProcessAlive, sc_log_capacity := mp_log_capacity c, sc_args := mp_args c,
      sc_env := fold (btree_insert fst) (mp_env c) [], sc_cwd := mp_cwd c\<rparr>"

definition browser_sidecar :: "string \<Rightarrow> string \<Rightarrow> process_spec" where
  "browser_sidecar node_command browser_runtime_dir =
     (new_process_spec ''browser-automation'' BrowserSidecar node_command)
     \<lparr>sc_args := [''node_modules/tsx/dist/cli.mjs'', ''src/server.ts''], sc_cwd := Some browser_runtime_dir,
      sc_env := [(''BROWSER_AUTOMATION_HEADLESS'', ''1'')], sc_health_check := ProcessAlive,
      sc_log_capacity := 1000\<rparr>"

end
