(* ===== verification/ProcessTheorems.thy ===== *)
theory ProcessTheorems
  imports ProcessManager
begin

text \<open>
  What the process manager guarantees: the contract of a supervisor as a locale with its two
  implementations, what the registry shows after each operation, when a runtime is started, and
  that no run of the manager has two children of one process alive.
\<close>

section \<open>The contract of a supervisor\<close>

locale process_supervisor =
  fixes ops :: "'s supervisor_ops"
  assumes start_names: "so_start ops spec s = (Inr snap, s') \<Longrightarrow>
      pn_process_id snap = sc_id spec \<and> pn_status snap \<in> {PsRunning, PsRestarting}"
    and stop_names: "so_stop ops spec s = (Inr snap, s') \<Longrightarrow>
      pn_process_id snap = sc_id spec \<and> pn_status snap = PsStopped"
    and snapshot_names: "so_snapshot ops spec s = (Inr snap, s') \<Longrightarrow> pn_process_id snap = sc_id spec"
    and stop_forgets: "so_stop ops spec s = (r, s') \<Longrightarrow>
      so_snapshot ops spec s' = (Inl (PmNotFound (sc_id spec)), s')"

lemma get_spec_id: "get_spec r i = Some spec \<Longrightarrow> sc_id spec = i"
  by (auto simp: get_spec_def dest: btree_getD)

lemma latest_snapshot_id: "latest_snapshot r i = Some s \<Longrightarrow> pn_process_id s = i"
  by (auto simp: latest_snapshot_def dest: btree_getD)

text \<open>\<open>shows m i snap m'\<close>: the registry now shows \<open>snap\<close> for \<open>i\<close>, and the rest as before.\<close>

definition shows_snapshot :: "'s process_manager \<Rightarrow> string \<Rightarrow> process_snapshot \<Rightarrow> 's process_manager \<Rightarrow> bool" where
  "shows_snapshot m i snap m' \<longleftrightarrow> pn_process_id snap = i \<and>
     get_spec (pz_registry m') = get_spec (pz_registry m) \<and>
     latest_snapshot (pz_registry m') = (latest_snapshot (pz_registry m))(i := Some snap)"

lemma latest_snapshot_upd:
  "latest_snapshot (record_snapshot s r) = (latest_snapshot r)(pn_process_id s := Some s)"
  by (auto simp: row_simps)

lemmas manager_simps = pm_bind_def pm_call_def pm_record_def pm_return_def require_spec_def
  latest_snapshot_upd registry_frame

lemma require_spec_Inr: "require_spec i m = (Inr spec, m') \<longleftrightarrow> get_spec (pz_registry m) i = Some spec \<and> m' = m"
  by (auto simp: require_spec_def)

lemma pm_bind_Inr:
  "pm_bind f g m = (Inr y, m') \<longleftrightarrow> (\<exists>x m1. f m = (Inr x, m1) \<and> g x m1 = (Inr y, m'))"
  by (auto simp: pm_bind_def split: prod.splits sum.splits)

lemma pm_call_Inr:
  "pm_call f m = (Inr x, m') \<longleftrightarrow> (\<exists>s. f (pz_supervisor m) = (Inr x, s) \<and> m' = m\<lparr>pz_supervisor := s\<rparr>)"
  by (auto simp: pm_call_def split: prod.splits)

lemma pm_record_Inr:
  "pm_record s m = (Inr x, m') \<longleftrightarrow> x = s \<and> m' = m\<lparr>pz_registry := record_snapshot s (pz_registry m)\<rparr>"
  by (auto simp: pm_record_def)

lemmas pm_Inr = pm_bind_Inr require_spec_Inr pm_call_Inr pm_record_Inr

context process_supervisor
begin

lemma start_shows:
  assumes "pm_start ops i m = (Inr snap, m')"
  shows "shows_snapshot m i snap m' \<and> pn_status snap \<in> {PsRunning, PsRestarting}"
proof -
  obtain spec s where *: "get_spec (pz_registry m) i = Some spec" "so_start ops spec (pz_supervisor m) = (Inr snap, s)"
    "m' = m\<lparr>pz_supervisor := s, pz_registry := record_snapshot snap (pz_registry m)\<rparr>"
    using assms by (auto simp: pm_start_def pm_Inr)
  then show ?thesis
    using start_names [OF *(2)] get_spec_id [OF *(1)]
    by (auto simp: shows_snapshot_def latest_snapshot_upd registry_frame)
qed

lemma stop_shows:
  assumes "pm_stop ops i m = (Inr snap, m')"
  shows "shows_snapshot m i snap m' \<and> pn_status snap = PsStopped"
proof -
  obtain spec s where *: "get_spec (pz_registry m) i = Some spec" "so_stop ops spec (pz_supervisor m) = (Inr snap, s)"
    "m' = m\<lparr>pz_supervisor := s, pz_registry := record_snapshot snap (pz_registry m)\<rparr>"
    using assms by (auto simp: pm_stop_def pm_Inr)
  then show ?thesis
    using stop_names [OF *(2)] get_spec_id [OF *(1)]
    by (auto simp: shows_snapshot_def latest_snapshot_upd registry_frame)
qed

lemma restart_shows:
  assumes "pm_restart ops i m = (Inr snap, m')"
  shows "shows_snapshot m i snap m' \<and> pn_status snap \<in> {PsRunning, PsRestarting}"
proof -
  obtain spec s1 s2 where *: "get_spec (pz_registry m) i = Some spec"
    "so_start ops spec s1 = (Inr snap, s2)"
    "pz_registry m' = record_snapshot snap (record_snapshot
      (new_snapshot (sc_id spec) (sc_kind spec) PsRestarting) (pz_registry m))"
    using assms by (auto simp: pm_restart_def pm_Inr)
  then show ?thesis
    using start_names [OF *(2)] get_spec_id [OF *(1)]
    by (auto simp: shows_snapshot_def latest_snapshot_upd registry_frame new_snapshot_def)
qed

lemma check_health_shows:
  assumes "pm_check_health ops http_get i m = (Inr snap, m')"
  shows "shows_snapshot m i snap m' \<and> pn_status snap \<in> {PsHealthy, PsUnhealthy}"
proof -
  obtain spec current m1 where *: "get_spec (pz_registry m) i = Some spec"
    "(case so_snapshot ops spec (pz_supervisor m) of
         (Inr s, sv) \<Rightarrow> (Inr s, m\<lparr>pz_supervisor := sv\<rparr>)
       | (Inl e, sv) \<Rightarrow> (ok_or (PmNotFound i) (latest_snapshot (pz_registry m) i), m\<lparr>pz_supervisor := sv\<rparr>)) =
       (Inr current, m1)"
    "snap = current\<lparr>pn_status := (if hp_healthy (evaluate_health http_get spec current) then PsHealthy
       else PsUnhealthy), pn_message := Some (hp_message (evaluate_health http_get spec current))\<rparr>"
    "m' = m1\<lparr>pz_registry := record_snapshot snap (pz_registry m1)\<rparr>"
    using assms unfolding pm_check_health_def pm_Inr Let_def by blast
  have "pn_process_id current = i \<and> pz_registry m1 = pz_registry m"
    using *(2) snapshot_names [of spec "pz_supervisor m" current] get_spec_id [OF *(1)]
      latest_snapshot_id [of "pz_registry m" i current]
    by (auto split: prod.splits sum.splits)
  with * have "pn_process_id snap = i" "pz_registry m' = record_snapshot snap (pz_registry m)"
    "pn_status snap \<in> {PsHealthy, PsUnhealthy}"
    by simp_all
  then show ?thesis
    by (auto simp: shows_snapshot_def latest_snapshot_upd registry_frame)
qed

text \<open>A process that has been stopped is found unhealthy.\<close>

lemma stopped_is_unhealthy:
  assumes "pm_stop ops i m = (Inr snap, m')" "get_spec (pz_registry m) i = Some spec"
    "sc_health_check spec = ProcessAlive"
  shows "\<exists>s m''. pm_check_health ops http_get i m' = (Inr s, m'') \<and> pn_status s = PsUnhealthy"
proof -
  note sh = stop_shows [OF assms(1)]
  obtain r where r: "so_stop ops spec (pz_supervisor m) = (r, pz_supervisor m')"
    using assms(1,2) by (auto simp: pm_stop_def pm_Inr)
  have "so_snapshot ops spec (pz_supervisor m') = (Inl (PmNotFound (sc_id spec)), pz_supervisor m')"
    by (rule stop_forgets [OF r])
  then show ?thesis
    using sh assms(2,3)
    by (simp add: pm_check_health_def pm_bind_def require_spec_def shows_snapshot_def pm_record_def
      evaluate_health_def)
qed

end

lemma snapshot_for_state_names:
  "snapshot_for_state env p st = (Inr snap, st') \<Longrightarrow> pn_process_id snap = lp_id p"
  by (auto simp: snapshot_for_state_def new_snapshot_def Let_def
    split: prod.splits process_handle.splits sum.splits option.splits)

lemma start_spawned_names:
  "start_direct env spec st = (Inr snap, st') \<or> start_monitored env spec st = (Inr snap, st') \<Longrightarrow>
    pn_process_id snap = sc_id spec \<and> pn_status snap = PsRunning"
  by (auto simp: start_direct_def start_monitored_def running_snapshot_def new_snapshot_def Let_def
    split: prod.splits sum.splits)

lemma start_process_names:
  assumes "start_process env spec st = (Inr snap, st')"
  shows "pn_process_id snap = sc_id spec \<and> pn_status snap \<in> {PsRunning, PsRestarting}"
proof (cases "entry (fst st) (sc_id spec)")
  case None
  then show ?thesis
    using assms
    by (auto simp: start_process_def entry_def Let_def split: restart_policy.splits
      dest: start_spawned_names [OF disjI1] start_spawned_names [OF disjI2])
next
  case (Some p)
  obtain r st1 where sn: "snapshot_for_state env p st = (r, st1)"
    by (metis surj_pair)
  show ?thesis
    using assms Some sn snapshot_for_state_names [of env p st snap] entry_id [OF Some]
    by (auto simp: start_process_def entry_def Let_def split: restart_policy.splits sum.splits if_splits
      dest: start_spawned_names [OF disjI1] start_spawned_names [OF disjI2])
qed

lemma stop_process_names:
  assumes "stop_process env spec st = (r, st')"
  shows "entry (fst st') (sc_id spec) = None"
    "r = Inr snap \<Longrightarrow> pn_process_id snap = sc_id spec \<and> pn_status snap = PsStopped"
  using assms
  by (auto simp: stop_process_def entry_def [symmetric] new_snapshot_def Let_def
    split: prod.splits option.splits process_handle.splits sum.splits)

interpretation local: process_supervisor "local_supervisor env" for env
proof
  show "so_start (local_supervisor env) spec s = (Inr snap, s') \<Longrightarrow>
      pn_process_id snap = sc_id spec \<and> pn_status snap \<in> {PsRunning, PsRestarting}" for spec s snap s'
    by (auto simp: local_supervisor_def dest: start_process_names)
  show "so_stop (local_supervisor env) spec s = (Inr snap, s') \<Longrightarrow>
      pn_process_id snap = sc_id spec \<and> pn_status snap = PsStopped" for spec s snap s'
    by (auto simp: local_supervisor_def dest: stop_process_names(2))
  show "so_snapshot (local_supervisor env) spec s = (Inr snap, s') \<Longrightarrow> pn_process_id snap = sc_id spec"
    for spec s snap s'
    using snapshot_for_state_names [of env _ s snap s']
    by (auto simp: local_supervisor_def snapshot_process_def entry_def [symmetric]
      split: option.splits dest: entry_id)
  show "so_stop (local_supervisor env) spec s = (r, s') \<Longrightarrow>
      so_snapshot (local_supervisor env) spec s' = (Inl (PmNotFound (sc_id spec)), s')" for spec s r s'
    by (auto simp: local_supervisor_def snapshot_process_def entry_def [symmetric] dest: stop_process_names(1))
qed

interpretation fake: process_supervisor fake_supervisor
  by unfold_locales
    (auto simp: fake_supervisor_def fake_start_def fake_stop_def fake_snapshot_def new_snapshot_def Let_def
      split: option.splits if_splits)

section \<open>What the registry shows\<close>

datatype manager_op =
  MgStart string | MgStop string | MgRestart string | MgHealth string | MgEnsure discovery string

fun op_process :: "manager_op \<Rightarrow> string" where
  "op_process (MgStart i) = i"
| "op_process (MgStop i) = i"
| "op_process (MgRestart i) = i"
| "op_process (MgHealth i) = i"
| "op_process (MgEnsure d i) = i"

fun manager_do ::
    "'s supervisor_ops \<Rightarrow> (string \<Rightarrow> u64 \<Rightarrow> health_probe_result) \<Rightarrow> manager_op \<Rightarrow> ('s, process_snapshot) pm" where
  "manager_do ops http_get (MgStart i) = pm_start ops i"
| "manager_do ops http_get (MgStop i) = pm_stop ops i"
| "manager_do ops http_get (MgRestart i) = pm_restart ops i"
| "manager_do ops http_get (MgHealth i) = pm_check_health ops http_get i"
| "manager_do ops http_get (MgEnsure d i) = ensure_runtime_started ops d i"

text \<open>The registry shows \<open>snap\<close> for \<open>i\<close>, perhaps as it did before.\<close>

definition detail_shows :: "'s process_manager \<Rightarrow> string \<Rightarrow> process_snapshot \<Rightarrow> 's process_manager \<Rightarrow> bool" where
  "detail_shows m i snap m' \<longleftrightarrow> pn_process_id snap = i \<and>
     (\<exists>spec. detail (pz_registry m') i = Some \<lparr>pd_spec = spec, pd_snapshot = snap\<rparr>) \<and>
     get_spec (pz_registry m') = get_spec (pz_registry m) \<and>
     (\<forall>j. j \<noteq> i \<longrightarrow> detail (pz_registry m') j = detail (pz_registry m) j)"

lemma shows_detail:
  assumes "shows_snapshot m i snap m'" "get_spec (pz_registry m) i = Some spec"
  shows "detail_shows m i snap m'"
  using assms by (auto simp: shows_snapshot_def detail_shows_def detail_def stored_snapshot_def)

lemma detail_shows_stored:
  assumes "get_spec (pz_registry m) i = Some spec" "pz_registry m' = pz_registry m"
  shows "detail_shows m i (stored_snapshot (pz_registry m) spec i) m'"
  using assms latest_snapshot_id [of "pz_registry m" i] get_spec_id [OF assms(1)]
  by (auto simp: detail_shows_def detail_def stored_snapshot_def configured_snapshot_def new_snapshot_def
    split: option.split)

lemma detail_shows_trans:
  assumes "shows_snapshot m i s1 m1" "detail_shows m1 i snap m'"
  shows "detail_shows m i snap m'"
  using assms by (auto simp: shows_snapshot_def detail_shows_def detail_def stored_snapshot_def)

lemma shows_snapshot_record:
  "pn_process_id s = i \<Longrightarrow> pz_registry m' = record_snapshot s (pz_registry m) \<Longrightarrow> shows_snapshot m i s m'"
  by (auto simp: shows_snapshot_def latest_snapshot_upd registry_frame)

lemma pm_start_known: "pm_start ops i m = (Inr snap, m') \<Longrightarrow> \<exists>spec. get_spec (pz_registry m) i = Some spec"
  by (auto simp: pm_start_def pm_Inr)

context process_supervisor
begin

lemma start_detail: "pm_start ops i m = (Inr snap, m') \<Longrightarrow> detail_shows m i snap m'"
  using start_shows pm_start_known shows_detail by metis

lemma ensure_managed_detail:
  assumes "ensure_managed ops (control_snapshot d (pz_registry m) spec i) spec i m = (Inr snap, m')"
    "get_spec (pz_registry m) i = Some spec"
  shows "detail_shows m i snap m'"
proof -
  let ?c = "control_snapshot d (pz_registry m) spec i"
  have managed: "rc_managed ?c = stored_snapshot (pz_registry m) spec i"
    by (simp add: control_snapshot_def Let_def)
  obtain r sv where sn: "so_snapshot ops spec (pz_supervisor m) = (r, sv)" by fastforce
  note id = get_spec_id [OF assms(2)]
  show ?thesis
  proof (cases r)
    case (Inr s1)
    let ?m1 = "m\<lparr>pz_supervisor := sv, pz_registry := record_snapshot s1 (pz_registry m)\<rparr>"
    have s1: "shows_snapshot m i s1 ?m1"
      using snapshot_names [OF sn [unfolded Inr]] id by (intro shows_snapshot_record) simp_all
    show ?thesis
      using assms(1) sn Inr shows_detail [OF s1 assms(2)] detail_shows_trans [OF s1 start_detail]
      by (auto simp: ensure_managed_def pm_record_def split: if_splits)
  next
    case (Inl e)
    let ?s0 = "new_snapshot (sc_id spec) (sc_kind spec) PsStopped"
    let ?m1 = "m\<lparr>pz_supervisor := sv, pz_registry := record_snapshot ?s0 (pz_registry m)\<rparr>"
    have s1: "shows_snapshot m i ?s0 ?m1"
      using id by (intro shows_snapshot_record) (simp_all add: new_snapshot_def)
    show ?thesis
      using assms sn Inl managed detail_shows_stored [OF assms(2)] detail_shows_trans [OF s1 start_detail]
      by (auto simp: ensure_managed_def pm_record_def Let_def split: if_splits)
  qed
qed

lemma ensure_detail:
  assumes "ensure_runtime_started ops d i m = (Inr snap, m')"
  shows "detail_shows m i snap m'"
proof -
  obtain spec where spec: "get_spec (pz_registry m) i = Some spec"
    using assms by (auto simp: ensure_runtime_started_def pm_Inr)
  have "rc_managed (control_snapshot d (pz_registry m) spec i) = stored_snapshot (pz_registry m) spec i"
    by (simp add: control_snapshot_def Let_def)
  then show ?thesis
    using assms spec start_detail ensure_managed_detail [OF _ spec] detail_shows_stored [OF spec]
    by (auto simp: ensure_runtime_started_def runtime_control_snapshot_def pm_bind_def require_spec_def
      pm_return_def split: if_splits)
qed

lemma manager_detail:
  assumes "manager_do ops http_get op m = (Inr snap, m')"
  shows "detail_shows m (op_process op) snap m'"
proof (cases op)
  case (MgStop i)
  then obtain spec where "get_spec (pz_registry m) i = Some spec"
    using assms by (auto simp: pm_stop_def pm_Inr)
  then show ?thesis
    using assms unfolding MgStop manager_do.simps op_process.simps by (metis stop_shows shows_detail)
next
  case (MgRestart i)
  then obtain spec where "get_spec (pz_registry m) i = Some spec"
    using assms by (auto simp: pm_restart_def pm_Inr)
  then show ?thesis
    using assms unfolding MgRestart manager_do.simps op_process.simps by (metis restart_shows shows_detail)
next
  case (MgHealth i)
  then obtain spec where "get_spec (pz_registry m) i = Some spec"
    using assms by (auto simp: pm_check_health_def pm_Inr)
  then show ?thesis
    using assms unfolding MgHealth manager_do.simps op_process.simps by (metis check_health_shows shows_detail)
qed (use assms start_detail ensure_detail in auto)

end

text \<open>
  Whatever operation of the manager succeeds on a process, the registry afterwards shows exactly
  the snapshot the caller got, under that process, and for every other process what it showed before.
\<close>

lemma registry_shows_last_operation:
  assumes "manager_do (local_supervisor env) http_get op m = (Inr snap, m')"
  shows "pn_process_id snap = op_process op \<and>
    (\<exists>spec. get_spec (pz_registry m) (op_process op) = Some spec \<and>
      detail (pz_registry m') (op_process op) = Some \<lparr>pd_spec = spec, pd_snapshot = snap\<rparr>) \<and>
    (\<forall>j. j \<noteq> op_process op \<longrightarrow> detail (pz_registry m') j = detail (pz_registry m) j)"
  using local.manager_detail [OF assms] by (auto simp: detail_shows_def detail_def)

definition sample_process :: process_spec where
  "sample_process = (new_process_spec ''llm'' LlmRuntime ''serve'')
     \<lparr>sc_health_check := HttpGet ''http://localhost:8080/health'' 500\<rparr>"

definition sample_manager :: "sup_state process_manager" where
  "sample_manager = snd (register_process sample_process \<lparr>pz_registry = \<lparr>py_specs = [], py_snapshots = []\<rparr>,
     pz_supervisor = new_supervisor False\<rparr>)"

lemma registry_shows_last_operation_witness:
  "\<exists>snap m'. manager_do (local_supervisor crashing_os) (\<lambda>url ms. \<lparr>hp_healthy = True, hp_message = []\<rparr>)
      (MgStop ''llm'') sample_manager = (Inr snap, m') \<and> pn_process_id snap = ''llm''"
proof -
  obtain m' where run: "manager_do (local_supervisor crashing_os)
      (\<lambda>url ms. \<lparr>hp_healthy = True, hp_message = []\<rparr>) (MgStop ''llm'') sample_manager =
      (Inr (new_snapshot ''llm'' LlmRuntime PsStopped), m')"
    by (auto simp: pm_stop_def pm_bind_def require_spec_def pm_call_def pm_record_def sample_manager_def
      register_process_def row_simps sample_process_def new_process_spec_def local_supervisor_def
      stop_process_def new_supervisor_def)
  from registry_shows_last_operation [OF run] run show ?thesis by auto
qed

section \<open>When a runtime is started\<close>

text \<open>
  C24: A runtime that is already served is never started a second time: when more than one process
  matches it, or its port has an owner and it is not known to be unhealthy, making sure that it
  runs at most looks at the supervisor, whichever supervisor that is.
\<close>

theorem served_runtime_is_not_started:
  assumes "get_spec (pz_registry m) i = Some spec"
    and "1 < length (di_matching d (runtime_needle spec)) \<or>
      rc_port_owner (control_snapshot d (pz_registry m) spec i) \<noteq> None \<and>
      pn_status (stored_snapshot (pz_registry m) spec i) \<notin> {PsUnhealthy, PsFailed}"
  shows "pz_supervisor (snd (ensure_runtime_started ops d i m)) \<in>
    {pz_supervisor m, snd (so_snapshot ops spec (pz_supervisor m))}"
proof -
  let ?c = "control_snapshot d (pz_registry m) spec i"
  have status: "rc_status ?c = runtime_control_status_of (stored_snapshot (pz_registry m) spec i)
      (rc_port_owner ?c) (di_matching d (runtime_needle spec))"
    by (simp add: control_snapshot_def Let_def)
  have cases: "rc_status ?c \<in> {RcDuplicateConflict, RcExternalRunning, RcReady} \<or>
      rc_status ?c = RcManagedRunning \<and> rc_port_owner ?c \<noteq> None"
    using assms(2) unfolding status runtime_control_status_of_def
    by (auto split: process_status.splits)
  have run: "ensure_runtime_started ops d i m = (if rc_status ?c \<in> {RcConfigured, RcStopped, RcUnhealthy}
      then pm_start ops i m else if rc_status ?c = RcManagedRunning then ensure_managed ops ?c spec i m
      else (Inr (rc_managed ?c), m))"
    using assms(1) by (simp add: ensure_runtime_started_def runtime_control_snapshot_def pm_bind_def
      require_spec_def pm_return_def)
  show ?thesis
  proof (cases "rc_status ?c = RcManagedRunning")
    case True
    then have "rc_port_owner ?c \<noteq> None" using cases by auto
    then show ?thesis
      unfolding run using True
      by (auto simp: ensure_managed_def pm_record_def Let_def split: prod.split sum.split)
  qed (use cases in \<open>auto simp: run\<close>)
qed

definition two_running :: discovery where
  "two_running = (let p = (\<lambda>n. \<lparr>dp_pid = n, dp_command = ''serve'', dp_cwd = None, dp_port = None\<rparr>) in
     \<lparr>di_listeners = (\<lambda>port. []), di_matching = (\<lambda>needle. [p 1, p 2]), di_resources = (\<lambda>pid. None)\<rparr>)"

theorem served_runtime_is_not_started_witness:
  "pz_supervisor (snd (ensure_runtime_started (local_supervisor crashing_os) two_running ''llm'' sample_manager)) \<in>
     {pz_supervisor sample_manager,
      snd (so_snapshot (local_supervisor crashing_os) sample_process (pz_supervisor sample_manager))}"
proof (rule served_runtime_is_not_started)
  show "get_spec (pz_registry sample_manager) ''llm'' = Some sample_process"
    by (simp add: sample_manager_def register_process_def row_simps sample_process_def new_process_spec_def)
qed (simp add: two_running_def)

section \<open>Manager, supervisor and monitors together\<close>

definition keeps_track :: "(sup_state, 'a) pm \<Rightarrow> bool" where
  "keeps_track f \<longleftrightarrow> (\<forall>m. tracks (pz_supervisor m) \<longrightarrow> tracks (pz_supervisor (snd (f m))))"

lemma keeps_track_bind:
  assumes "keeps_track f" "\<And>x. keeps_track (g x)"
  shows "keeps_track (pm_bind f g)"
  unfolding keeps_track_def
proof (intro allI impI)
  fix m :: "sup_state process_manager"
  assume "tracks (pz_supervisor m)"
  then have "tracks (pz_supervisor (snd (f m)))"
    using assms(1) by (simp add: keeps_track_def)
  then show "tracks (pz_supervisor (snd (pm_bind f g m)))"
    using assms(2) by (auto simp: pm_bind_def keeps_track_def split: prod.split sum.split)
qed

lemma keeps_track_call:
  assumes "\<And>st. tracks st \<Longrightarrow> tracks (snd (f st))"
  shows "keeps_track (pm_call f)"
proof -
  have "pz_supervisor (snd (pm_call f m)) = snd (f (pz_supervisor m))" for m
    by (simp add: pm_call_def split: prod.split)
  then show ?thesis using assms by (simp add: keeps_track_def)
qed

lemma keeps_track_pure [simp, intro]:
  "keeps_track (pm_record s)" "keeps_track (require_spec i)" "keeps_track (pm_return x)"
  "keeps_track (runtime_control_snapshot d i)"
  by (auto simp: keeps_track_def pm_record_def require_spec_def pm_return_def
    runtime_control_snapshot_def pm_bind_def split: prod.split sum.split)

lemma keeps_track_local [intro]:
  "keeps_track (pm_call (so_start (local_supervisor env) spec))"
  "keeps_track (pm_call (so_stop (local_supervisor env) spec))"
  by (simp_all add: local_supervisor_def keeps_track_call start_process_tracks stop_process_tracks)

lemma keeps_track_start: "keeps_track (pm_start (local_supervisor env) i)"
  unfolding pm_start_def by (intro keeps_track_bind keeps_track_local keeps_track_pure)

lemma snapshot_keeps:
  "so_snapshot (local_supervisor env) spec st = (r, st') \<Longrightarrow> tracks st \<Longrightarrow> tracks st'"
  using snapshot_process_tracks [of st env spec] by (simp add: local_supervisor_def)

lemma keeps_track_health: "keeps_track (pm_check_health (local_supervisor env) http_get i)"
  unfolding pm_check_health_def Let_def
  by (intro keeps_track_bind keeps_track_pure)
    (auto simp: keeps_track_def split: prod.split sum.split dest: snapshot_keeps)

lemma keeps_track_ensure: "keeps_track (ensure_runtime_started (local_supervisor env) d i)"
proof -
  have "keeps_track (ensure_managed (local_supervisor env) control spec i)" for control spec
    unfolding keeps_track_def
  proof (intro allI impI)
    fix m :: "sup_state process_manager"
    assume tr: "tracks (pz_supervisor m)"
    obtain r sv where sn: "so_snapshot (local_supervisor env) spec (pz_supervisor m) = (r, sv)"
      by (metis surj_pair)
    have "tracks sv" by (rule snapshot_keeps [OF sn tr])
    then show "tracks (pz_supervisor (snd (ensure_managed (local_supervisor env) control spec i m)))"
      using sn keeps_track_start [of env i]
      by (cases r) (auto simp: ensure_managed_def pm_record_def Let_def keeps_track_def)
  qed
  then show ?thesis
    unfolding ensure_runtime_started_def
    by (intro keeps_track_bind keeps_track_pure) (simp add: keeps_track_start)
qed

lemma keeps_track_manager: "keeps_track (manager_do (local_supervisor env) http_get op)"
proof (cases op)
  case (MgStop i)
  then show ?thesis
    unfolding MgStop manager_do.simps pm_stop_def by (intro keeps_track_bind keeps_track_local keeps_track_pure)
next
  case (MgRestart i)
  then show ?thesis
    unfolding MgRestart manager_do.simps pm_restart_def
    by (intro keeps_track_bind keeps_track_local keeps_track_pure)
qed (simp_all add: keeps_track_start keeps_track_health keeps_track_ensure)

datatype system_op = SysRegister process_spec | SysManager manager_op | SysMonitorRound string

fun system_do ::
    "os_env \<Rightarrow> (string \<Rightarrow> u64 \<Rightarrow> health_probe_result) \<Rightarrow> system_op \<Rightarrow> sup_state process_manager
     \<Rightarrow> sup_state process_manager" where
  "system_do env http_get (SysRegister spec) m = snd (register_process spec m)"
| "system_do env http_get (SysManager op) m = snd (manager_do (local_supervisor env) http_get op m)"
| "system_do env http_get (SysMonitorRound i) m =
     m\<lparr>pz_supervisor := monitor_round env i (pz_supervisor m)\<rparr>"

definition new_manager :: "bool \<Rightarrow> sup_state process_manager" where
  "new_manager log_dir = \<lparr>pz_registry = \<lparr>py_specs = [], py_snapshots = []\<rparr>,
     pz_supervisor = new_supervisor log_dir\<rparr>"

lemma system_tracks:
  "tracks (pz_supervisor m) \<Longrightarrow> tracks (pz_supervisor (fold (system_do env http_get) ops m))"
proof (induction ops arbitrary: m)
  case (Cons op ops)
  have "tracks (pz_supervisor (system_do env http_get op m))"
    using Cons.prems keeps_track_manager [of env http_get]
    by (cases op) (auto simp: register_process_def monitor_round_tracks keeps_track_def)
  then show ?case using Cons.IH by simp
qed simp

text \<open>
  C22: Whatever is registered, started, stopped, restarted, checked and made sure of, in any order,
  with the rounds of the restart monitors anywhere in between: a process never has two children
  alive at once, and none when the supervisor does not know it, short of one for every call of the
  operating system that failed after a child had been started.
\<close>

theorem one_child_per_process:
  "live_count i (snd (pz_supervisor (fold (system_do env http_get) ops (new_manager log_dir)))) \<le>
     (if i \<in> lp_id ` set (sv_children (fst (pz_supervisor
        (fold (system_do env http_get) ops (new_manager log_dir))))) then 1 else 0) +
     ow_failures (snd (pz_supervisor (fold (system_do env http_get) ops (new_manager log_dir))))"
proof -
  obtain s w where sw: "pz_supervisor (fold (system_do env http_get) ops (new_manager log_dir)) = (s, w)"
    by fastforce
  have "tracks (s, w)"
    using system_tracks [of "new_manager log_dir" env http_get ops] tracks_new sw
    by (simp add: new_manager_def)
  from tracked_children [OF this] sw show ?thesis by simp
qed

section \<open>Where the code falls short\<close>

text \<open>
  A process that was healthy when it was last looked at counts as ready: making sure that it runs
  returns the old snapshot and starts nothing, even when the supervisor has no such process.
\<close>

lemma dead_healthy_process_not_started:
  assumes "get_spec (pz_registry m) i = Some spec" "latest_snapshot (pz_registry m) i = Some s"
    "pn_status s = PsHealthy" "di_matching d (runtime_needle spec) = []"
  shows "ensure_runtime_started ops d i m = (Inr s, m)"
  using assms by (simp add: ensure_runtime_started_def runtime_control_snapshot_def pm_bind_def
    require_spec_def pm_return_def control_snapshot_def runtime_control_status_of_def stored_snapshot_def Let_def)

end
