(* ===== verification/HostComputer.thy ===== *)
theory HostComputer
  imports Compression
begin

text \<open>
  The control of applications of the host (crates/host-computer): grants of applications
  (grants.rs), the policy of actions (policy.rs), what a snapshot of an application discloses
  (redaction.rs), the frames of the socket (framing.rs) and the coordinator of sessions and their
  approvals (session.rs).

  Times are Unix milliseconds. The counters \<open>sequence\<close> and \<open>generation\<close> (u64) count transitions and
  are \<open>nat\<close>; the hash of a random token that an approval keeps and nobody reads is left out; a
  floating-point rectangle is kept as its text. Fields of a snapshot and of its elements that no
  operation of the model reads (focus, selection, parents, tree mode) are left out.
\<close>

section \<open>Grants\<close>

record grant_scope =
  gs_user_id :: string
  gs_workspace_id :: string

record signed_app =
  ap_bundle_id :: string
  ap_team_id :: string
  ap_requirement :: string

datatype grant_level = GrantObserve | GrantControl

record app_grant =
  ag_grant_id :: string
  ag_scope :: grant_scope
  ag_app :: signed_app
  ag_level :: grant_level
  ag_expires_at :: "int option"

definition same_app :: "app_grant \<Rightarrow> app_grant \<Rightarrow> bool" where
  "same_app g h \<longleftrightarrow> ag_scope g = ag_scope h \<and> ag_app g = ag_app h"

text \<open>
  The row of the same application and scope keeps its id and takes the level and the expiry; a new
  row must not reuse an id, which is the primary key.
\<close>

definition upsert_grant :: "app_grant \<Rightarrow> app_grant list \<Rightarrow> string + app_grant list" where
  "upsert_grant g gs = (if list_ex (same_app g) gs
     then Inr (List.map (\<lambda>h. if same_app g h
       then h\<lparr>ag_level := ag_level g, ag_expires_at := ag_expires_at g\<rparr> else h) gs)
     else if list_ex (\<lambda>h. ag_grant_id h = ag_grant_id g) gs
     then Inl ''UNIQUE constraint failed: host_computer_app_grants.grant_id''
     else Inr (gs @ [g]))"

definition unexpired :: "int \<Rightarrow> app_grant \<Rightarrow> bool" where
  "unexpired now g \<longleftrightarrow> (case ag_expires_at g of None \<Rightarrow> True | Some e \<Rightarrow> now < e)"

definition resolve_grant :: "grant_scope \<Rightarrow> signed_app \<Rightarrow> int \<Rightarrow> app_grant list \<Rightarrow> grant_level option" where
  "resolve_grant s a now gs =
     map_option ag_level (find (\<lambda>g. ag_scope g = s \<and> ag_app g = a \<and> unexpired now g) gs)"

definition revoke_grant :: "string \<Rightarrow> grant_scope \<Rightarrow> app_grant list \<Rightarrow> bool \<times> app_grant list" where
  "revoke_grant i s gs = (list_ex (\<lambda>g. ag_grant_id g = i \<and> ag_scope g = s) gs,
     filter (\<lambda>g. \<not> (ag_grant_id g = i \<and> ag_scope g = s)) gs)"

definition list_grants :: "grant_scope \<Rightarrow> int \<Rightarrow> app_grant list \<Rightarrow> app_grant list" where
  "list_grants s now gs = sort_key (\<lambda>g. [ap_bundle_id (ag_app g), ag_grant_id g])
     (filter (\<lambda>g. ag_scope g = s \<and> unexpired now g) gs)"

section \<open>The policy of actions\<close>

definition PROTECTED_BUNDLE_IDS :: "string list" where
  "PROTECTED_BUNDLE_IDS = [''com.apple.loginwindow'', ''com.apple.SecurityAgent'',
     ''com.apple.LocalAuthentication.UIAgent'', ''com.1password.1password'',
     ''com.agilebits.onepassword7'', ''com.bitwarden.desktop'', ''com.lastpass.LastPass'',
     ''com.dashlane.Dashlane'']"

definition TERMINAL_BUNDLE_IDS :: "string list" where
  "TERMINAL_BUNDLE_IDS = [''com.apple.Terminal'', ''com.googlecode.iterm2'', ''dev.warp.Warp-Stable'',
     ''dev.warp.Warp'']"

definition is_protected_bundle_id :: "string \<Rightarrow> bool" where
  "is_protected_bundle_id b \<longleftrightarrow> b \<in> set PROTECTED_BUNDLE_IDS \<or>
     list_ex (\<lambda>m. contains m (to_ascii_lowercase b))
       [''1password'', ''bitwarden'', ''lastpass'', ''dashlane'']"

definition is_terminal_bundle_id :: "string \<Rightarrow> bool" where
  "is_terminal_bundle_id b \<longleftrightarrow> b \<in> set TERMINAL_BUNDLE_IDS"

datatype action_category =
  CatObserve | CatReversible | CatInteraction | CatTextEntry | CatFileWrite
| CatExternalCommunication | CatPurchase | CatSystemSettings | CatDestructive | CatCredentialInput
| CatTerminalInput

datatype hard_deny = DenyCredentialInput | DenyTerminalInput | DenyProtectedTarget

datatype policy_decision =
  HostAllowed | GrantRequired grant_level | ApprovalRequired action_category | HardDenied hard_deny

record policy_request =
  pq_category :: action_category
  pq_protected_target :: bool
  pq_low_risk_typing_enabled :: bool
  pq_approval_matches :: bool

definition required_level :: "action_category \<Rightarrow> grant_level" where
  "required_level c = (if c = CatObserve then GrantObserve else GrantControl)"

definition sufficient_grant :: "grant_level option \<Rightarrow> grant_level \<Rightarrow> bool" where
  "sufficient_grant g required \<longleftrightarrow> g = Some GrantControl \<or> g = Some GrantObserve \<and> required = GrantObserve"

text \<open>The two inputs that are denied before never reach this match.\<close>

fun approval_required :: "bool \<Rightarrow> action_category \<Rightarrow> bool" where
  "approval_required low_risk CatObserve = False"
| "approval_required low_risk CatReversible = False"
| "approval_required low_risk CatTextEntry = (\<not> low_risk)"
| "approval_required low_risk _ = True"

definition decide_action :: "grant_level option \<Rightarrow> policy_request \<Rightarrow> policy_decision" where
  "decide_action g q =
     (if pq_protected_target q then HardDenied DenyProtectedTarget
      else if pq_category q = CatCredentialInput then HardDenied DenyCredentialInput
      else if pq_category q = CatTerminalInput then HardDenied DenyTerminalInput
      else if \<not> sufficient_grant g (required_level (pq_category q))
        then GrantRequired (required_level (pq_category q))
      else if approval_required (pq_low_risk_typing_enabled q) (pq_category q) \<and> \<not> pq_approval_matches q
        then ApprovalRequired (pq_category q)
      else HostAllowed)"

section \<open>What a snapshot discloses\<close>

datatype semantic_action =
  Press | SetValue | ShowMenu | Increment | Decrement | Confirm | CancelAction | Raise | ScrollUp
| ScrollDown

record host_element =
  he_index :: u32
  he_role :: string
  he_label :: "string option"
  he_value :: "string option"
  he_bounds :: "string option"
  he_enabled :: bool
  he_sensitive :: bool
  he_actions :: "semantic_action list"

record app_snapshot =
  as_snapshot_id :: string
  as_generation :: u64
  as_captured_at :: int
  as_elements :: "host_element list"
  as_screenshot_ref :: "string option"
  as_truncated :: bool

datatype provider_disclosure = ProviderLocal | ProviderRemote | ProviderUnknown

definition looks_private :: "string \<Rightarrow> bool" where
  "looks_private v = (let lower = to_ascii_lowercase v in
     CHR ''@'' \<in> set v \<or> contains ''bearer '' lower \<or> contains ''token='' lower \<or>
     contains ''password'' lower \<or> starts_with ''/Users/'' v \<or> 8 \<le> length (filter is_digit v))"

definition project_element :: "provider_disclosure \<Rightarrow> host_element \<Rightarrow> host_element" where
  "project_element provider e =
     (if he_sensitive e then e\<lparr>he_value := None, he_actions := []\<rparr>
      else case he_value e of
        None \<Rightarrow> e
      | Some v \<Rightarrow> if provider \<noteq> ProviderLocal \<or> looks_private v then e\<lparr>he_value := Some ''[redacted]''\<rparr>
          else if 512 < char_count v then e\<lparr>he_value := Some (take_chars 512 v)\<rparr> else e)"

definition project_snapshot :: "provider_disclosure \<Rightarrow> bool \<Rightarrow> app_snapshot \<Rightarrow> app_snapshot" where
  "project_snapshot provider disclose_screenshot_reference s =
     s\<lparr>as_elements := List.map (project_element provider) (as_elements s),
       as_screenshot_ref := (if disclose_screenshot_reference then as_screenshot_ref s else None)\<rparr>"

section \<open>Frames\<close>

type_synonym bytes = "8 word list"

datatype framing_error = FrameIo | FrameEmpty | FrameTooLarge nat nat

definition MAX_FRAME_BYTES :: nat where
  "MAX_FRAME_BYTES = 8 * 1024 * 1024"

definition u32_be :: "u32 \<Rightarrow> bytes" where
  "u32_be n = [of_nat (unat n div 2 ^ 24), of_nat (unat n div 2 ^ 16), of_nat (unat n div 2 ^ 8),
     of_nat (unat n)]"

definition be_u32 :: "8 word \<Rightarrow> 8 word \<Rightarrow> 8 word \<Rightarrow> 8 word \<Rightarrow> u32" where
  "be_u32 a b c d = of_nat (unat a * 2 ^ 24 + unat b * 2 ^ 16 + unat c * 2 ^ 8 + unat d)"

definition write_frame :: "bytes \<Rightarrow> framing_error + bytes" where
  "write_frame payload =
     (if payload = [] then Inl FrameEmpty
      else if MAX_FRAME_BYTES < length payload then Inl (FrameTooLarge (length payload) MAX_FRAME_BYTES)
      else Inr (u32_be (of_nat (length payload)) @ payload))"

text \<open>A stream that ends early is an I/O error.\<close>

fun read_frame :: "bytes \<Rightarrow> framing_error + bytes \<times> bytes" where
  "read_frame (a # b # c # d # s) = (let n = unat (be_u32 a b c d) in
     if n = 0 then Inl FrameEmpty
     else if MAX_FRAME_BYTES < n then Inl (FrameTooLarge n MAX_FRAME_BYTES)
     else if length s < n then Inl FrameIo
     else Inr (take n s, drop n s))"
| "read_frame _ = Inl FrameIo"

section \<open>Sessions and approvals\<close>

definition APPROVAL_TTL_MS :: int where
  "APPROVAL_TTL_MS = 5 * 60 * 1000"

datatype host_phase =
  PhObserving | PhAwaitingApproval | PhActing | PhPausedByUser | PhSuspended | PhDone | PhFailed
| PhCancelled

definition is_terminal_phase :: "host_phase \<Rightarrow> bool" where
  "is_terminal_phase p \<longleftrightarrow> p \<in> {PhDone, PhFailed, PhCancelled}"

record pending_approval =
  pa_category :: action_category
  pa_summary :: string
  pa_action_digest :: string
  pa_expires_at :: int

record host_snapshot =
  hs_session_id :: string
  hs_sequence :: nat
  hs_generation :: nat
  hs_phase :: host_phase
  hs_app :: string
  hs_pending_approval :: "pending_approval option"
  hs_error_code :: "string option"
  hs_updated_at :: int

record approval_grant =
  ax_action_digest :: string
  ax_expires_at :: int

record host_session =
  hx_snapshot :: host_snapshot
  hx_approved :: "approval_grant option"

datatype session_error =
  SessNotFound | SessAlreadyExists | ActiveSessionExists | TerminalSession | NoPendingApproval
| ActionDigestMismatch | ApprovalExpired | GenerationMismatch | NotPaused

record coordinator =
  co_sessions :: "string \<rightharpoonup> host_session"
  co_active :: "string option"

definition new_coordinator :: coordinator where
  "new_coordinator = \<lparr>co_sessions = Map.empty, co_active = None\<rparr>"

type_synonym 'a co_result = "(session_error + 'a) \<times> coordinator"

definition start_session :: "string \<Rightarrow> string \<Rightarrow> int \<Rightarrow> coordinator \<Rightarrow> host_snapshot co_result" where
  "start_session i app now c =
     (if co_active c \<noteq> None then (Inl ActiveSessionExists, c)
      else if co_sessions c i \<noteq> None then (Inl SessAlreadyExists, c)
      else let s = \<lparr>hs_session_id = i, hs_sequence = 1, hs_generation = 1, hs_phase = PhObserving,
          hs_app = app, hs_pending_approval = None, hs_error_code = None, hs_updated_at = now\<rparr> in
        (Inr s, \<lparr>co_sessions = (co_sessions c)(i \<mapsto> \<lparr>hx_snapshot = s, hx_approved = None\<rparr>),
           co_active = Some i\<rparr>))"

definition session_mut :: "coordinator \<Rightarrow> string \<Rightarrow> session_error + host_session" where
  "session_mut c i = (case co_sessions c i of
     None \<Rightarrow> Inl SessNotFound
   | Some s \<Rightarrow> if is_terminal_phase (hs_phase (hx_snapshot s)) then Inl TerminalSession else Inr s)"

definition snapshot_of :: "coordinator \<Rightarrow> string \<Rightarrow> session_error + host_snapshot" where
  "snapshot_of c i = ok_or SessNotFound (map_option hx_snapshot (co_sessions c i))"

definition active_snapshot :: "coordinator \<Rightarrow> host_snapshot option" where
  "active_snapshot c = Option.bind (co_active c) (\<lambda>i. map_option hx_snapshot (co_sessions c i))"

definition touch :: "int \<Rightarrow> host_snapshot \<Rightarrow> host_snapshot" where
  "touch now s = s\<lparr>hs_sequence := Suc (hs_sequence s), hs_updated_at := now\<rparr>"

text \<open>The session is written back and its snapshot returned.\<close>

definition write_session :: "string \<Rightarrow> host_session \<Rightarrow> coordinator \<Rightarrow> host_snapshot co_result" where
  "write_session i s c = (Inr (hx_snapshot s), c\<lparr>co_sessions := (co_sessions c)(i \<mapsto> s)\<rparr>)"

definition with_session :: "string \<Rightarrow> (host_session \<Rightarrow> 'a co_result) \<Rightarrow> coordinator \<Rightarrow> 'a co_result" where
  "with_session i f c = (case session_mut c i of Inl e \<Rightarrow> (Inl e, c) | Inr s \<Rightarrow> f s)"

definition request_approval ::
    "string \<Rightarrow> string \<Rightarrow> action_category \<Rightarrow> string \<Rightarrow> int \<Rightarrow> coordinator \<Rightarrow> host_snapshot co_result" where
  "request_approval i digest category summary now c = with_session i (\<lambda>s.
     write_session i \<lparr>hx_snapshot = touch now ((hx_snapshot s)\<lparr>hs_phase := PhAwaitingApproval,
         hs_pending_approval := Some \<lparr>pa_category = category, pa_summary = summary,
           pa_action_digest = digest, pa_expires_at = now + APPROVAL_TTL_MS\<rparr>\<rparr>),
       hx_approved = None\<rparr> c) c"

definition approve :: "string \<Rightarrow> string \<Rightarrow> int \<Rightarrow> coordinator \<Rightarrow> host_snapshot co_result" where
  "approve i digest now c = with_session i (\<lambda>s.
     case hs_pending_approval (hx_snapshot s) of
       None \<Rightarrow> (Inl NoPendingApproval, c)
     | Some p \<Rightarrow>
         if pa_action_digest p \<noteq> digest then (Inl ActionDigestMismatch, c)
         else if pa_expires_at p < now then (Inl ApprovalExpired, c)
         else write_session i \<lparr>hx_snapshot = touch now ((hx_snapshot s)\<lparr>hs_pending_approval := None,
             hs_phase := PhObserving\<rparr>),
           hx_approved = Some \<lparr>ax_action_digest = digest, ax_expires_at = pa_expires_at p\<rparr>\<rparr> c) c"

definition consume_approval :: "string \<Rightarrow> string \<Rightarrow> int \<Rightarrow> coordinator \<Rightarrow> bool co_result" where
  "consume_approval i digest now c = with_session i (\<lambda>s.
     case hx_approved s of
       None \<Rightarrow> (Inr False, c)
     | Some g \<Rightarrow>
         if ax_action_digest g \<noteq> digest \<or> ax_expires_at g < now then (Inr False, c)
         else (Inr True, snd (write_session i \<lparr>hx_snapshot = touch now ((hx_snapshot s)\<lparr>hs_phase := PhActing\<rparr>),
           hx_approved = None\<rparr> c))) c"

definition transition_terminal ::
    "string \<Rightarrow> host_phase \<Rightarrow> string option \<Rightarrow> int \<Rightarrow> coordinator \<Rightarrow> host_snapshot co_result" where
  "transition_terminal i phase error_code now c = with_session i (\<lambda>s.
     case write_session i \<lparr>hx_snapshot = touch now ((hx_snapshot s)\<lparr>hs_pending_approval := None,
         hs_phase := phase, hs_error_code := error_code\<rparr>), hx_approved = None\<rparr> c of
       (r, c) \<Rightarrow> (r, if co_active c = Some i then c\<lparr>co_active := None\<rparr> else c)) c"

definition deny :: "string \<Rightarrow> string \<Rightarrow> int \<Rightarrow> coordinator \<Rightarrow> host_snapshot co_result" where
  "deny i digest now c = with_session i (\<lambda>s.
     case hs_pending_approval (hx_snapshot s) of
       None \<Rightarrow> (Inl NoPendingApproval, c)
     | Some p \<Rightarrow> if pa_action_digest p \<noteq> digest then (Inl ActionDigestMismatch, c)
         else transition_terminal i PhFailed (Some ''approval_denied'') now c) c"

definition pause_session :: "string \<Rightarrow> int \<Rightarrow> coordinator \<Rightarrow> host_snapshot co_result" where
  "pause_session i now c = with_session i (\<lambda>s.
     write_session i \<lparr>hx_snapshot = touch now ((hx_snapshot s)\<lparr>hs_pending_approval := None,
         hs_phase := PhPausedByUser, hs_generation := Suc (hs_generation (hx_snapshot s))\<rparr>),
       hx_approved = None\<rparr> c) c"

definition resume_session :: "string \<Rightarrow> nat \<Rightarrow> int \<Rightarrow> coordinator \<Rightarrow> host_snapshot co_result" where
  "resume_session i generation now c = with_session i (\<lambda>s.
     if hs_phase (hx_snapshot s) \<noteq> PhPausedByUser then (Inl NotPaused, c)
     else if hs_generation (hx_snapshot s) \<noteq> generation then (Inl GenerationMismatch, c)
     else write_session i (s\<lparr>hx_snapshot := touch now ((hx_snapshot s)\<lparr>hs_phase := PhObserving\<rparr>)\<rparr>) c) c"

definition cancel_session :: "string \<Rightarrow> int \<Rightarrow> coordinator \<Rightarrow> host_snapshot co_result" where
  "cancel_session i now c = transition_terminal i PhCancelled None now c"

definition cancel_active :: "int \<Rightarrow> coordinator \<Rightarrow> host_snapshot option co_result" where
  "cancel_active now c = (case co_active c of
     None \<Rightarrow> (Inr None, c)
   | Some i \<Rightarrow> (case cancel_session i now c of (Inl e, c) \<Rightarrow> (Inl e, c) | (Inr s, c) \<Rightarrow> (Inr (Some s), c)))"

definition done_session :: "string \<Rightarrow> int \<Rightarrow> coordinator \<Rightarrow> host_snapshot co_result" where
  "done_session i now c = transition_terminal i PhDone None now c"

definition fail_session :: "string \<Rightarrow> string \<Rightarrow> int \<Rightarrow> coordinator \<Rightarrow> host_snapshot co_result" where
  "fail_session i code now c = transition_terminal i PhFailed (Some code) now c"

definition mark_observing :: "string \<Rightarrow> int \<Rightarrow> coordinator \<Rightarrow> host_snapshot co_result" where
  "mark_observing i now c = with_session i (\<lambda>s.
     write_session i (s\<lparr>hx_snapshot := touch now ((hx_snapshot s)\<lparr>hs_phase := PhObserving\<rparr>)\<rparr>) c) c"

definition mark_observing_app :: "string \<Rightarrow> string \<Rightarrow> int \<Rightarrow> coordinator \<Rightarrow> host_snapshot co_result" where
  "mark_observing_app i app now c = with_session i (\<lambda>s.
     write_session i (s\<lparr>hx_snapshot := touch now ((hx_snapshot s)\<lparr>hs_app := app, hs_phase := PhObserving\<rparr>)\<rparr>) c) c"

end
