(* ===== verification/HostGateway.thy ===== *)
theory HostGateway
  imports HostComputer
begin

text \<open>
  The worker that acts on applications of the host, with the user beside it
  (crates/desktop-gateway/src/host_computer_gateway.rs).

  \<open>worker_execute_action\<close> and \<open>worker_get_state\<close> hold a lock only around single accesses, so the
  user may act between any two of them: a worker is a program counter (\<open>worker_pc\<close>), and one
  \<open>worker_step\<close> is the code up to its next access. The helper process, the digest of an action
  (SHA-256 over its JSON) and the list of applications are the parameter \<open>host_env\<close>. Ghost state:
  the actions handed to the helper (\<open>hy_executed\<close>), the approvals the user gave (\<open>hy_approvals\<close>) and
  the grants of control the user made (\<open>hy_granted\<close>). Publishing events is left out, and the texts
  of two refusals are shortened to their codes. The helper gives \<open>create_grant\<close> the signature of the
  application; shutting the helper down when a grant is revoked is left out.
\<close>

record action_request =
  ar_snapshot_id :: string
  ar_generation :: u64
  ar_index :: u32
  ar_action :: semantic_action
  ar_value :: "string option"
  ar_resume_token :: "string option"

record host_application =
  ha_pid :: u32
  ha_display_name :: string
  ha_bundle_id :: "string option"
  ha_signing :: "(string \<times> string) option"

record host_env =
  en_scope :: grant_scope
  en_digest :: "string \<Rightarrow> signed_app \<Rightarrow> action_request \<Rightarrow> string"
  en_summary :: "action_category \<Rightarrow> string \<Rightarrow> host_element \<Rightarrow> string"
  en_apps :: "int \<Rightarrow> string + host_application list"
  en_app_state :: "int \<Rightarrow> u32 \<Rightarrow> string + app_snapshot"
  en_resume_control :: "int \<Rightarrow> string + string"
  en_execute :: "int \<Rightarrow> action_request \<Rightarrow> string + unit"

record snapshot_guard =
  sd_app :: signed_app
  sd_display_name :: string
  sd_snapshot :: app_snapshot

record executed_action =
  ex_session :: string
  ex_app :: signed_app
  ex_digest :: string
  ex_category :: action_category
  ex_element :: host_element

record host_system =
  hy_grants :: "app_grant list"
  hy_coordinator :: coordinator
  hy_guards :: "string \<rightharpoonup> snapshot_guard"
  hy_executed :: "executed_action list"
  hy_approvals :: "(string \<times> string) list"
  hy_granted :: "(grant_scope \<times> signed_app) list"

definition classify_action :: "string \<Rightarrow> semantic_action \<Rightarrow> action_category" where
  "classify_action bundle_id action = (if is_terminal_bundle_id bundle_id then CatTerminalInput
     else if action = SetValue then CatTextEntry
     else if action \<in> {Press, Confirm, Increment, Decrement} then CatInteraction
     else CatReversible)"

fun session_error_text :: "session_error \<Rightarrow> string" where
  "session_error_text SessNotFound = ''session not found''"
| "session_error_text SessAlreadyExists = ''session already exists''"
| "session_error_text ActiveSessionExists = ''another host-computer session is active''"
| "session_error_text TerminalSession = ''session has terminated''"
| "session_error_text NoPendingApproval = ''no approval is pending''"
| "session_error_text ActionDigestMismatch = ''action digest does not match''"
| "session_error_text ApprovalExpired = ''approval has expired''"
| "session_error_text GenerationMismatch = ''session generation does not match''"
| "session_error_text NotPaused = ''session is not paused''"

definition ensure_session_operational :: "host_system \<Rightarrow> string \<Rightarrow> string + unit" where
  "ensure_session_operational h i = (case snapshot_of (hy_coordinator h) i of
     Inl e \<Rightarrow> Inl (session_error_text e)
   | Inr s \<Rightarrow> if hs_phase s = PhPausedByUser then Inl ''paused_by_user''
       else if is_terminal_phase (hs_phase s) then Inl ''session_terminated'' else Inr ())"

definition signed_identity :: "host_application \<Rightarrow> string + signed_app" where
  "signed_identity a = (case ha_bundle_id a of
     None \<Rightarrow> Inl ''app_has_no_bundle_id''
   | Some b \<Rightarrow> (case ha_signing a of
       None \<Rightarrow> Inl ''app_is_unsigned''
     | Some (team, req) \<Rightarrow> Inr \<lparr>ap_bundle_id = b, ap_team_id = team, ap_requirement = req\<rparr>))"

section \<open>The worker\<close>

text \<open>
  Where a call stands, with what it has in hand: \<open>PcLookup\<close> and \<open>PcResolve\<close> before the snapshot and
  the grant are read, \<open>PcConsume\<close> and \<open>PcDecide\<close> around the approval, \<open>PcAwait\<close> while the user is
  asked, \<open>PcExecute\<close> and \<open>PcFinish\<close> around the helper; \<open>PcObserve\<close> to \<open>PcPublish\<close> for an observation.
\<close>

datatype worker_pc =
  PcIdle "string + unit"
| PcLookup string action_request
| PcResolve string action_request snapshot_guard
| PcConsume string action_request snapshot_guard "grant_level option"
| PcDecide string action_request snapshot_guard "grant_level option" host_element bool
| PcAwait string action_request snapshot_guard host_element
| PcExecute string action_request snapshot_guard host_element
| PcFinish string snapshot_guard
| PcObserve string u32
| PcGranted string host_application signed_app
| PcPublish string string

definition request_digest :: "host_env \<Rightarrow> string \<Rightarrow> signed_app \<Rightarrow> action_request \<Rightarrow> string" where
  "request_digest env i a q = en_digest env i a (q\<lparr>ar_resume_token := None\<rparr>)"

definition request_category :: "snapshot_guard \<Rightarrow> action_request \<Rightarrow> action_category" where
  "request_category g q = classify_action (ap_bundle_id (sd_app g)) (ar_action q)"

definition on_coordinator ::
    "(coordinator \<Rightarrow> 'a co_result) \<Rightarrow> host_system \<Rightarrow> (session_error + 'a) \<times> host_system" where
  "on_coordinator f h = (case f (hy_coordinator h) of (r, c) \<Rightarrow> (r, h\<lparr>hy_coordinator := c\<rparr>))"

text \<open>One round of \<open>await_approval\<close>: \<open>None\<close> to ask again in 200 ms.\<close>

definition await_round ::
    "string \<Rightarrow> string \<Rightarrow> int \<Rightarrow> host_system \<Rightarrow> (string + unit) option \<times> host_system" where
  "await_round i digest now h = (case snapshot_of (hy_coordinator h) i of
     Inl e \<Rightarrow> (Some (Inl (session_error_text e)), h)
   | Inr s \<Rightarrow>
       if hs_phase s = PhFailed then (Some (Inl (case hs_error_code s of Some e \<Rightarrow> e
         | None \<Rightarrow> ''approval_denied'')), h)
       else if hs_phase s = PhCancelled then (Some (Inl ''session_cancelled''), h)
       else if hs_phase s = PhPausedByUser then (Some (Inl ''paused_by_user''), h)
       else case on_coordinator (consume_approval i digest now) h of
         (Inl e, h) \<Rightarrow> (Some (Inl (session_error_text e)), h)
       | (Inr True, h) \<Rightarrow> (Some (Inr ()), h)
       | (Inr False, h) \<Rightarrow> (case snapshot_of (hy_coordinator h) i of
           Inl e \<Rightarrow> (Some (Inl (session_error_text e)), h)
         | Inr s \<Rightarrow> (case hs_pending_approval s of
             Some p \<Rightarrow> if pa_expires_at p < now
               then (case on_coordinator (fail_session i ''approval_expired'' now) h of
                 (Inl e, h) \<Rightarrow> (Some (Inl (session_error_text e)), h)
               | (Inr _, h) \<Rightarrow> (Some (Inl ''approval_expired''), h))
               else (None, h)
           | None \<Rightarrow> (None, h))))"

definition observe_step :: "host_env \<Rightarrow> int \<Rightarrow> string \<Rightarrow> u32 \<Rightarrow> host_system \<Rightarrow> worker_pc" where
  "observe_step env now i pid h = (case en_apps env now of
     Inl e \<Rightarrow> PcIdle (Inl e)
   | Inr apps \<Rightarrow> (case find (\<lambda>a. ha_pid a = pid) apps of
       None \<Rightarrow> PcIdle (Inl ''app_not_found'')
     | Some a \<Rightarrow>
         if (case ha_bundle_id a of Some b \<Rightarrow> is_protected_bundle_id b | None \<Rightarrow> False)
         then PcIdle (Inl ''protected_app'')
         else case signed_identity a of
           Inl e \<Rightarrow> PcIdle (Inl e)
         | Inr app \<Rightarrow> (case resolve_grant (en_scope env) app now (hy_grants h) of
             None \<Rightarrow> PcIdle (Inl ''app_not_granted'') | Some level \<Rightarrow> PcGranted i a app)))"

definition worker_step :: "host_env \<Rightarrow> int \<Rightarrow> worker_pc \<times> host_system \<Rightarrow> worker_pc \<times> host_system" where
  "worker_step env now wh = (case wh of (pc, h) \<Rightarrow> (case pc of
     PcIdle r \<Rightarrow> (PcIdle r, h)
   | PcLookup i q \<Rightarrow> (case hy_guards h (ar_snapshot_id q) of
       None \<Rightarrow> (PcIdle (Inl ''stale_snapshot''), h) | Some g \<Rightarrow> (PcResolve i q g, h))
   | PcResolve i q g \<Rightarrow>
       (PcConsume i q g (resolve_grant (en_scope env) (sd_app g) now (hy_grants h)), h)
   | PcConsume i q g level \<Rightarrow>
       (case find (\<lambda>e. he_index e = ar_index q) (as_elements (sd_snapshot g)) of
          None \<Rightarrow> (PcIdle (Inl ''target_not_found''), h)
        | Some e \<Rightarrow> (case on_coordinator (consume_approval i (request_digest env i (sd_app g) q) now) h of
            (Inl err, h) \<Rightarrow> (PcIdle (Inl (session_error_text err)), h)
          | (Inr approved, h) \<Rightarrow> (PcDecide i q g level e approved, h)))
   | PcDecide i q g level e approved \<Rightarrow>
       (case decide_action level \<lparr>pq_category = request_category g q, pq_protected_target = he_sensitive e,
           pq_low_risk_typing_enabled = False, pq_approval_matches = approved\<rparr> of
          HostAllowed \<Rightarrow> (PcExecute i q g e, h)
        | ApprovalRequired category \<Rightarrow>
            (case on_coordinator (request_approval i (request_digest env i (sd_app g) q) category
                (en_summary env category (sd_display_name g) e) now) h of
               (Inl err, h) \<Rightarrow> (PcIdle (Inl (session_error_text err)), h)
             | (Inr s, h) \<Rightarrow> (PcAwait i q g e, h))
        | GrantRequired l \<Rightarrow> (PcIdle (Inl ''control_grant_required''), h)
        | HardDenied r \<Rightarrow> (PcIdle (Inl ''hard_denied''), h))
   | PcAwait i q g e \<Rightarrow>
       (case await_round i (request_digest env i (sd_app g) q) now h of
          (None, h) \<Rightarrow> (PcAwait i q g e, h)
        | (Some (Inl err), h) \<Rightarrow> (PcIdle (Inl err), h)
        | (Some (Inr u), h) \<Rightarrow> (PcExecute i q g e, h))
   | PcExecute i q g e \<Rightarrow>
       (case en_resume_control env now of
          Inl err \<Rightarrow> (PcIdle (Inl err), h)
        | Inr token \<Rightarrow> (let h = h\<lparr>hy_executed := hy_executed h @
              [\<lparr>ex_session = i, ex_app = sd_app g, ex_digest = request_digest env i (sd_app g) q,
                ex_category = request_category g q, ex_element = e\<rparr>]\<rparr> in
            case en_execute env now (q\<lparr>ar_resume_token := Some token\<rparr>) of
              Inl err \<Rightarrow> (PcIdle (Inl err), h) | Inr u \<Rightarrow> (PcFinish i g, h)))
   | PcFinish i g \<Rightarrow>
       (PcIdle (Inr ()), snd (on_coordinator (mark_observing i now)
          (h\<lparr>hy_guards := (hy_guards h)(as_snapshot_id (sd_snapshot g) := None)\<rparr>)))
   | PcObserve i pid \<Rightarrow> (observe_step env now i pid h, h)
   | PcGranted i a app \<Rightarrow>
       (case en_app_state env now (ha_pid a) of
          Inl err \<Rightarrow> (PcIdle (Inl err), h)
        | Inr s \<Rightarrow> (PcPublish i (ha_display_name a), h\<lparr>hy_guards := (hy_guards h)(as_snapshot_id s \<mapsto>
            \<lparr>sd_app = app, sd_display_name = ha_display_name a, sd_snapshot = s\<rparr>)\<rparr>))
   | PcPublish i name \<Rightarrow> (PcIdle (Inr ()), snd (on_coordinator (mark_observing_app i name now) h))))"

text \<open>Both calls begin with the check of the session.\<close>

definition call_worker :: "string \<Rightarrow> worker_pc \<Rightarrow> worker_pc \<times> host_system \<Rightarrow> worker_pc \<times> host_system" where
  "call_worker i start wh = (case wh of (pc, h) \<Rightarrow> (case ensure_session_operational h i of
     Inl err \<Rightarrow> (PcIdle (Inl err), h) | Inr u \<Rightarrow> (start, h)))"

section \<open>The user and the system\<close>

definition finish_worker_session :: "string \<Rightarrow> bool \<Rightarrow> int \<Rightarrow> coordinator \<Rightarrow> coordinator" where
  "finish_worker_session i succeeded now c = (case snapshot_of c i of
     Inl e \<Rightarrow> c
   | Inr s \<Rightarrow> if hs_phase s = PhAwaitingApproval \<or> hs_phase s = PhPausedByUser
       then snd (fail_session i ''worker_gone_while_waiting'' now c)
       else if succeeded then snd (done_session i now c) else snd (fail_session i ''worker_failed'' now c))"

text \<open>A grant is refused for a protected application; the id of a new row is fresh.\<close>

definition create_grant :: "app_grant \<Rightarrow> host_system \<Rightarrow> (string + app_grant) \<times> host_system" where
  "create_grant g h = (if is_protected_bundle_id (ap_bundle_id (ag_app g)) then (Inl ''protected_app'', h)
     else case upsert_grant g (hy_grants h) of
       Inl e \<Rightarrow> (Inl e, h)
     | Inr gs \<Rightarrow> (Inr g, h\<lparr>hy_grants := gs, hy_granted := (if ag_level g = GrantControl
         then hy_granted h @ [(ag_scope g, ag_app g)] else hy_granted h)\<rparr>))"

text \<open>Revoking a grant cancels the active session and forgets every snapshot.\<close>

definition revoke_app_grant :: "host_env \<Rightarrow> string \<Rightarrow> int \<Rightarrow> host_system \<Rightarrow> bool \<times> host_system" where
  "revoke_app_grant env i now h = (case revoke_grant i (en_scope env) (hy_grants h) of
     (removed, gs) \<Rightarrow> (removed, if removed
       then (snd (on_coordinator (cancel_active now) (h\<lparr>hy_grants := gs\<rparr>)))\<lparr>hy_guards := Map.empty\<rparr>
       else h\<lparr>hy_grants := gs\<rparr>))"

definition approve_session :: "string \<Rightarrow> string \<Rightarrow> int \<Rightarrow> host_system \<Rightarrow> host_system" where
  "approve_session i digest now h = (case on_coordinator (approve i digest now) h of
     (Inl e, h) \<Rightarrow> h | (Inr s, h) \<Rightarrow> h\<lparr>hy_approvals := hy_approvals h @ [(i, digest)]\<rparr>)"

datatype host_op =
  OpStart string string | OpFinish string bool
| OpAct string action_request | OpLook string u32 | OpWorker
| OpApprove string string | OpDeny string string | OpPause string | OpResume string nat | OpCancel string
| OpCreateGrant app_grant | OpRevokeGrant string

definition worker_idle :: "worker_pc \<Rightarrow> bool" where
  "worker_idle pc = (case pc of PcIdle _ \<Rightarrow> True | _ \<Rightarrow> False)"

text \<open>One operation at the time \<open>now\<close>; the worker makes one call at a time.\<close>

fun host_do :: "host_env \<Rightarrow> int \<times> host_op \<Rightarrow> worker_pc \<times> host_system \<Rightarrow> worker_pc \<times> host_system" where
  "host_do env (now, OpStart i app) (pc, h) = (pc, snd (on_coordinator (start_session i app now) h))"
| "host_do env (now, OpFinish i ok) (pc, h) =
     (pc, h\<lparr>hy_coordinator := finish_worker_session i ok now (hy_coordinator h)\<rparr>)"
| "host_do env (now, OpAct i q) (pc, h) =
     (if worker_idle pc then call_worker i (PcLookup i q) (pc, h) else (pc, h))"
| "host_do env (now, OpLook i pid) (pc, h) =
     (if worker_idle pc then call_worker i (PcObserve i pid) (pc, h) else (pc, h))"
| "host_do env (now, OpWorker) (pc, h) = worker_step env now (pc, h)"
| "host_do env (now, OpApprove i d) (pc, h) = (pc, approve_session i d now h)"
| "host_do env (now, OpDeny i d) (pc, h) = (pc, snd (on_coordinator (deny i d now) h))"
| "host_do env (now, OpPause i) (pc, h) = (pc, snd (on_coordinator (pause_session i now) h))"
| "host_do env (now, OpResume i n) (pc, h) = (pc, snd (on_coordinator (resume_session i n now) h))"
| "host_do env (now, OpCancel i) (pc, h) = (pc, snd (on_coordinator (cancel_session i now) h))"
| "host_do env (now, OpCreateGrant g) (pc, h) = (pc, snd (create_grant g h))"
| "host_do env (now, OpRevokeGrant i) (pc, h) = (pc, snd (revoke_app_grant env i now h))"

definition new_host :: host_system where
  "new_host = \<lparr>hy_grants = [], hy_coordinator = new_coordinator, hy_guards = Map.empty, hy_executed = [],
     hy_approvals = [], hy_granted = []\<rparr>"

definition host_run :: "host_env \<Rightarrow> (int \<times> host_op) list \<Rightarrow> worker_pc \<times> host_system" where
  "host_run env ops = fold (host_do env) ops (PcIdle (Inr ()), new_host)"

end
