(* ===== verification/HostTheorems.thy ===== *)
theory HostTheorems
  imports HostGateway
begin

text \<open>
  What holds of the parts of the control of applications: the frames of the socket are read back, the
  policy decides exactly, a projected snapshot discloses nothing private, and how each operation of
  the coordinator moves its sessions and its approvals.
\<close>

section \<open>Frames\<close>

lemma four_bytes:
  assumes "x < (2 :: nat) ^ 32"
  shows "x div 2 ^ 24 mod 256 * 2 ^ 24 + x div 2 ^ 16 mod 256 * 2 ^ 16 + x div 2 ^ 8 mod 256 * 2 ^ 8 +
    x mod 256 = x"
proof -
  define a b c where "a = x div 256" and "b = a div 256" and "c = b div 256"
  have "x div 2 ^ 24 = c" "x div 2 ^ 16 = b" "x div 2 ^ 8 = a"
    by (simp_all add: a_def b_def c_def div_mult2_eq [symmetric])
  moreover have "x = 256 * a + x mod 256" "a = 256 * b + a mod 256" "b = 256 * c + b mod 256"
    by (simp_all add: a_def b_def c_def)
  moreover have "c < 256"
    using assms by (simp add: a_def b_def c_def div_mult2_eq [symmetric] less_mult_imp_div_less)
  ultimately show ?thesis
    by simp
qed

lemma unat_of_nat_byte: "unat (of_nat x :: 8 word) = x mod 256"
  by (simp add: unsigned_of_nat take_bit_eq_mod)

lemma be_u32_u32_be:
  "be_u32 (of_nat (unat n div 2 ^ 24)) (of_nat (unat n div 2 ^ 16)) (of_nat (unat n div 2 ^ 8))
     (of_nat (unat n)) = n"
proof -
  have "unat n < 2 ^ LENGTH(32)"
    by (rule unsigned_less)
  then have "unat n < 2 ^ 32" by simp
  from four_bytes [OF this] show ?thesis
    unfolding be_u32_def unat_of_nat_byte by (simp only: four_bytes of_nat_unat ucast_id)
qed

lemma read_written:
  assumes "write_frame payload = Inr bs"
  shows "read_frame (bs @ rest) = Inr (payload, rest)"
proof -
  have p: "payload \<noteq> []" "length payload \<le> MAX_FRAME_BYTES"
    "bs = u32_be (of_nat (length payload)) @ payload"
    using assms by (auto simp: write_frame_def split: if_splits)
  then have "length payload < 2 ^ 32"
    by (simp add: MAX_FRAME_BYTES_def)
  then have n: "unat (of_nat (length payload) :: u32) = length payload"
    by (simp add: unsigned_of_nat take_bit_nat_eq_self)
  show ?thesis
    using p n be_u32_u32_be [of "of_nat (length payload)"] by (simp add: u32_be_def)
qed

text \<open>Any number of frames written one after the other.\<close>

fun read_frames :: "nat \<Rightarrow> bytes \<Rightarrow> framing_error + bytes list \<times> bytes" where
  "read_frames 0 s = Inr ([], s)"
| "read_frames (Suc n) s = res_bind (read_frame s) (\<lambda>(p, s).
     res_bind (read_frames n s) (\<lambda>(ps, s). Inr (p # ps, s)))"

fun write_frames :: "bytes list \<Rightarrow> framing_error + bytes" where
  "write_frames [] = Inr []"
| "write_frames (p # ps) = res_bind (write_frame p) (\<lambda>b. res_bind (write_frames ps) (\<lambda>bs. Inr (b @ bs)))"

text \<open>
  Frames survive the socket: whatever payloads are written one after the other, reading as many
  frames gives them back and leaves what follows; and a frame is only refused when it is empty or
  larger than eight megabytes.
\<close>

lemma frames_read_back:
  "(case write_frames ps of
      Inr bs \<Rightarrow> read_frames (length ps) (bs @ rest) = Inr (ps, rest)
    | Inl e \<Rightarrow> (\<exists>p \<in> set ps. p = [] \<or> 8 * 1024 * 1024 < length p))"
proof (induction ps)
  case (Cons p ps)
  show ?case
  proof (cases "write_frame p")
    case (Inl e)
    then show ?thesis by (auto simp: write_frame_def MAX_FRAME_BYTES_def split: if_splits)
  next
    case (Inr b)
    show ?thesis
      using Cons read_written [OF Inr] Inr by (cases "write_frames ps") auto
  qed
qed simp

section \<open>The policy\<close>

lemma decide_allowed:
  "decide_action g q = HostAllowed \<longleftrightarrow> \<not> pq_protected_target q \<and>
     pq_category q \<notin> {CatCredentialInput, CatTerminalInput} \<and>
     (g = Some GrantControl \<or> g = Some GrantObserve \<and> pq_category q = CatObserve) \<and>
     (approval_required (pq_low_risk_typing_enabled q) (pq_category q) \<longrightarrow> pq_approval_matches q)"
  by (auto simp: decide_action_def sufficient_grant_def required_level_def)

lemma decide_approval:
  "decide_action g q = ApprovalRequired c \<Longrightarrow> c = pq_category q \<and> \<not> pq_protected_target q \<and>
     pq_category q \<notin> {CatCredentialInput, CatTerminalInput} \<and>
     (g = Some GrantControl \<or> g = Some GrantObserve \<and> pq_category q = CatObserve)"
  by (auto simp: decide_action_def sufficient_grant_def required_level_def split: if_splits)

section \<open>What a snapshot discloses\<close>

text \<open>A value is shortened to a prefix, which looks private only if the value does.\<close>

lemma contains_extended: "contains p s \<Longrightarrow> contains p (s @ t)"
proof (induction s)
  case Nil
  then show ?case by (cases t) simp_all
next
  case (Cons c s)
  have "take (length p) ((c # s) @ t) = p" if "take (length p) (c # s) = p"
  proof -
    have "length p \<le> length (c # s)"
      using arg_cong [OF that, of length] by simp
    then show ?thesis using that by (simp add: take_append del: append_Cons)
  qed
  then show ?case using Cons by auto
qed

lemma looks_private_prefix: "looks_private s \<Longrightarrow> looks_private (s @ t)"
proof -
  have "starts_with p (s @ t)" if "starts_with p s" for p
    using that arg_cong [of _ _ length] by (fastforce simp: starts_with_def)
  then show "looks_private s \<Longrightarrow> looks_private (s @ t)"
    by (auto simp: looks_private_def Let_def to_ascii_lowercase_def intro: contains_extended)
qed

lemma looks_private_take: "\<not> looks_private s \<Longrightarrow> \<not> looks_private (take_chars n s)"
  using looks_private_prefix [of "take_chars n s" "concat (drop n (chars s))"]
  by (auto simp: take_chars_def simp flip: concat_append)

text \<open>What a provider may read of one element.\<close>

definition element_private :: "provider_disclosure \<Rightarrow> host_element \<Rightarrow> bool" where
  "element_private provider e = (if he_sensitive e then he_value e = None \<and> he_actions e = []
     else case he_value e of
       None \<Rightarrow> True
     | Some v \<Rightarrow> v = ''[redacted]'' \<or> provider = ProviderLocal \<and> char_count v \<le> 512 \<and> \<not> looks_private v)"

lemma project_element_private: "element_private provider (project_element provider e)"
  by (cases "he_value e")
    (auto simp: element_private_def project_element_def take_chars_count looks_private_take)

text \<open>
  C29: A projected snapshot shows neither the value nor the actions of a sensitive element; to a
  remote or unknown provider it shows no other value either, to a local one only values of at most
  512 characters that do not look private, shortened ones included; and it names the screenshot
  exactly if the policy discloses it.
\<close>

theorem projection_discloses_nothing_private:
  "list_all (element_private provider) (as_elements (project_snapshot provider disclose s)) \<and>
    as_screenshot_ref (project_snapshot provider disclose s) =
      (if disclose then as_screenshot_ref s else None)"
  by (simp add: project_snapshot_def list_all_length project_element_private)

section \<open>The sessions\<close>

definition live_sessions :: "coordinator \<Rightarrow> string set" where
  "live_sessions c = {i. \<exists>s. co_sessions c i = Some s \<and> \<not> is_terminal_phase (hs_phase (hx_snapshot s))}"

definition approval_held :: "coordinator \<Rightarrow> string \<Rightarrow> string \<Rightarrow> nat" where
  "approval_held c i d = (case co_sessions c i of
     None \<Rightarrow> 0
   | Some s \<Rightarrow> (case hx_approved s of None \<Rightarrow> 0 | Some g \<Rightarrow> if ax_action_digest g = d then 1 else 0))"

text \<open>A session moves on: it is as before, or was live and its sequence is larger.\<close>

definition session_moved :: "host_session \<Rightarrow> host_session \<Rightarrow> bool" where
  "session_moved s s' \<longleftrightarrow> s' = s \<or> \<not> is_terminal_phase (hs_phase (hx_snapshot s)) \<and>
     hs_sequence (hx_snapshot s) < hs_sequence (hx_snapshot s') \<and>
     hs_generation (hx_snapshot s) \<le> hs_generation (hx_snapshot s')"

definition coordinator_moved :: "coordinator \<Rightarrow> coordinator \<Rightarrow> bool" where
  "coordinator_moved c c' \<longleftrightarrow> (live_sessions c = set_option (co_active c) \<longrightarrow>
       live_sessions c' = set_option (co_active c')) \<and>
     (\<forall>i s. co_sessions c i = Some s \<longrightarrow> (\<exists>s'. co_sessions c' i = Some s' \<and> session_moved s s'))"

definition no_new_approval :: "coordinator \<Rightarrow> coordinator \<Rightarrow> bool" where
  "no_new_approval c c' \<longleftrightarrow> (\<forall>i d. approval_held c' i d \<le> approval_held c i d)"

lemma session_moved_refl [simp]: "session_moved s s"
  by (simp add: session_moved_def)

lemma session_moved_trans: "session_moved a b \<Longrightarrow> session_moved b c \<Longrightarrow> session_moved a c"
  by (auto simp: session_moved_def)

lemma coordinator_moved_refl [simp]: "coordinator_moved c c"
  by (simp add: coordinator_moved_def)

lemma coordinator_moved_trans:
  "coordinator_moved a b \<Longrightarrow> coordinator_moved b c \<Longrightarrow> coordinator_moved a c"
  unfolding coordinator_moved_def by (blast intro: session_moved_trans)

lemma no_new_approval_refl [simp]: "no_new_approval c c"
  by (simp add: no_new_approval_def)

lemma no_new_approval_trans: "no_new_approval a b \<Longrightarrow> no_new_approval b c \<Longrightarrow> no_new_approval a c"
  unfolding no_new_approval_def by (meson order_trans)

text \<open>The two ways a live session is written.\<close>

lemma write_live:
  assumes "session_mut c i = Inr s" and "\<not> is_terminal_phase (hs_phase (hx_snapshot s'))"
    and "hs_sequence (hx_snapshot s) < hs_sequence (hx_snapshot s')"
    and "hs_generation (hx_snapshot s) \<le> hs_generation (hx_snapshot s')"
  shows "coordinator_moved c (snd (write_session i s' c))"
proof -
  have s: "co_sessions c i = Some s" "\<not> is_terminal_phase (hs_phase (hx_snapshot s))"
    using assms(1) by (auto simp: session_mut_def split: option.splits if_splits)
  then have "live_sessions (snd (write_session i s' c)) = live_sessions c"
    using assms(2) by (auto simp: live_sessions_def write_session_def)
  then show ?thesis
    using s assms by (auto simp: coordinator_moved_def write_session_def session_moved_def)
qed

lemma write_approval:
  "no_new_approval c (snd (write_session i s' c)) \<longleftrightarrow>
     (\<forall>d. (case hx_approved s' of None \<Rightarrow> 0 | Some g \<Rightarrow> if ax_action_digest g = d then 1 else 0)
        \<le> approval_held c i d)"
  by (auto simp: no_new_approval_def approval_held_def write_session_def)

lemma with_session_moved:
  assumes "\<And>s. session_mut c i = Inr s \<Longrightarrow> P c (snd (f s))" and "P c c"
  shows "P c (snd (with_session i f c))"
  using assms by (auto simp: with_session_def split: sum.split)

lemma snapshot_live: "session_mut c i = Inr s \<Longrightarrow> \<not> is_terminal_phase (hs_phase (hx_snapshot s))"
  by (auto simp: session_mut_def split: option.splits if_splits)

lemmas phase_simps = is_terminal_phase_def touch_def

lemma request_approval_moved: "coordinator_moved c (snd (request_approval i d k m now c))"
  unfolding request_approval_def
  by (rule with_session_moved; (rule write_live; assumption?)?) (simp_all add: phase_simps)

lemma approve_moved: "coordinator_moved c (snd (approve i d now c))"
  unfolding approve_def
  by (rule with_session_moved)
    (auto split: option.split intro!: write_live simp: phase_simps)

lemma consume_moved: "coordinator_moved c (snd (consume_approval i d now c))"
  unfolding consume_approval_def
  by (rule with_session_moved)
    (auto split: option.split intro!: write_live simp: phase_simps)

lemma pause_moved: "coordinator_moved c (snd (pause_session i now c))"
  unfolding pause_session_def
  by (rule with_session_moved) (auto intro!: write_live simp: phase_simps)

lemma resume_moved: "coordinator_moved c (snd (resume_session i n now c))"
  unfolding resume_session_def
  by (rule with_session_moved) (auto intro!: write_live simp: phase_simps)

lemma observing_moved: "coordinator_moved c (snd (mark_observing i now c))"
  unfolding mark_observing_def
  by (rule with_session_moved) (auto intro!: write_live simp: phase_simps)

lemma observing_app_moved: "coordinator_moved c (snd (mark_observing_app i a now c))"
  unfolding mark_observing_app_def
  by (rule with_session_moved) (auto intro!: write_live simp: phase_simps)

lemma transition_moved:
  "is_terminal_phase p \<Longrightarrow> coordinator_moved c (snd (transition_terminal i p e now c))"
  unfolding transition_terminal_def
  by (rule with_session_moved)
    (auto simp: write_session_def coordinator_moved_def session_moved_def live_sessions_def touch_def
      session_mut_def split: option.splits if_splits)

lemma start_moved: "coordinator_moved c (snd (start_session i a now c))"
  by (auto simp: start_session_def Let_def coordinator_moved_def live_sessions_def is_terminal_phase_def)

lemma deny_moved: "coordinator_moved c (snd (deny i d now c))"
  unfolding deny_def
  by (rule with_session_moved)
    (auto split: option.split intro!: transition_moved simp: phase_simps)

lemma cancel_active_snd: "snd (cancel_active now c) =
    (case co_active c of None \<Rightarrow> c | Some i \<Rightarrow> snd (transition_terminal i PhCancelled None now c))"
  by (simp add: cancel_active_def cancel_session_def split: option.split sum.split prod.split)

lemma terminal_ops_moved:
  "coordinator_moved c (snd (cancel_session i now c))"
  "coordinator_moved c (snd (done_session i now c))"
  "coordinator_moved c (snd (fail_session i e now c))"
  "coordinator_moved c (snd (cancel_active now c))"
  by (auto simp: cancel_session_def done_session_def fail_session_def cancel_active_snd phase_simps
      split: option.split intro!: transition_moved)

text \<open>No operation but \<open>approve\<close> makes an approval, and that only the one it is asked for.\<close>

lemma write_unapproved: "hx_approved s' = None \<Longrightarrow> no_new_approval c (snd (write_session i s' c))"
  by (simp add: write_approval)

lemma write_same_approval:
  "session_mut c i = Inr s \<Longrightarrow> hx_approved s' = hx_approved s \<Longrightarrow>
     no_new_approval c (snd (write_session i s' c))"
  by (auto simp: write_approval approval_held_def session_mut_def split: option.splits if_splits)

lemma transition_approvals: "no_new_approval c (snd (transition_terminal i p e now c))"
  unfolding transition_terminal_def
  by (rule with_session_moved)
    (auto simp: no_new_approval_def write_session_def approval_held_def)

lemma start_approvals: "no_new_approval c (snd (start_session i a now c))"
  by (simp add: start_session_def Let_def no_new_approval_def approval_held_def)

lemma request_approvals: "no_new_approval c (snd (request_approval i d k m now c))"
  unfolding request_approval_def
  by (rule with_session_moved) (simp_all add: write_unapproved)

lemma pause_approvals: "no_new_approval c (snd (pause_session i now c))"
  unfolding pause_session_def
  by (rule with_session_moved) (simp_all add: write_unapproved)

lemma resume_approvals: "no_new_approval c (snd (resume_session i n now c))"
  unfolding resume_session_def
  by (rule with_session_moved) (auto intro!: write_same_approval)

lemma observing_approvals:
  "no_new_approval c (snd (mark_observing i now c))"
  "no_new_approval c (snd (mark_observing_app i a now c))"
  unfolding mark_observing_def mark_observing_app_def
  by (rule with_session_moved; auto intro!: write_same_approval)+

lemma deny_approvals: "no_new_approval c (snd (deny i d now c))"
  unfolding deny_def
  by (rule with_session_moved) (auto split: option.split intro!: transition_approvals)

lemma terminal_ops_approvals:
  "no_new_approval c (snd (cancel_session i now c))"
  "no_new_approval c (snd (done_session i now c))"
  "no_new_approval c (snd (fail_session i e now c))"
  "no_new_approval c (snd (cancel_active now c))"
  by (auto simp: cancel_session_def done_session_def fail_session_def cancel_active_snd
      split: option.split intro!: transition_approvals)

lemma approve_approvals: "approve i d now c = (r, c') \<Longrightarrow>
    case r of Inl e \<Rightarrow> c' = c
    | Inr s \<Rightarrow> (\<forall>j b. approval_held c' j b \<le> approval_held c j b + (if j = i \<and> b = d then 1 else 0))"
  by (auto simp: approve_def with_session_def write_session_def approval_held_def
      split: sum.splits option.splits if_splits)

lemma consume_result: "consume_approval i d now c = (r, c') \<Longrightarrow> r \<noteq> Inr True \<Longrightarrow> c' = c"
  by (auto simp: consume_approval_def with_session_def split: sum.splits option.splits if_splits)

lemma consume_approvals:
  assumes "consume_approval i d now c = (Inr True, c')"
  shows "approval_held c' j b + (if j = i \<and> b = d then 1 else 0) \<le> approval_held c j b"
proof -
  obtain s g where "co_sessions c i = Some s" "hx_approved s = Some g" "ax_action_digest g = d"
    "\<exists>s'. c' = c\<lparr>co_sessions := (co_sessions c)(i \<mapsto> s')\<rparr> \<and> hx_approved s' = None"
    using assms unfolding consume_approval_def with_session_def session_mut_def write_session_def
    by (force split: sum.splits option.splits if_splits)
  then show ?thesis
    by (auto simp: approval_held_def)
qed

end
