(* ===== verification/HostSafety.thy ===== *)
theory HostSafety
  imports HostTheorems
begin

text \<open>
  The worker and the user together: whatever they do in whatever order, at most one session is live,
  an action that needs the user's approval is handed to the helper at most as often as the user
  approved it in that session, and every action handed to the helper is on an application the user
  granted control of, which is neither protected nor a terminal, and on an element that is not
  sensitive.
\<close>

section \<open>The coordinator under the worker\<close>

definition approval_spent :: "string \<Rightarrow> string \<Rightarrow> coordinator \<Rightarrow> coordinator \<Rightarrow> bool" where
  "approval_spent i d c c' \<longleftrightarrow> (\<forall>j b. approval_held c' j b + (if j = i \<and> b = d then 1 else 0)
     \<le> approval_held c j b)"

lemma on_coordinator_eq:
  "on_coordinator f h = (fst (f (hy_coordinator h)), h\<lparr>hy_coordinator := snd (f (hy_coordinator h))\<rparr>)"
  by (simp add: on_coordinator_def split: prod.split)

lemma consume_cases:
  obtains c' where "consume_approval i d now c = (Inr True, c')" "coordinator_moved c c'"
    "approval_spent i d c c'"
  | r where "consume_approval i d now c = (r, c)" "r \<noteq> Inr True"
proof (cases "fst (consume_approval i d now c) = Inr True")
  case True
  then have e: "consume_approval i d now c = (Inr True, snd (consume_approval i d now c))"
    by (simp add: prod_eq_iff)
  show ?thesis
    by (rule that(1) [OF e consume_moved]) (simp only: approval_spent_def consume_approvals [OF e] simp_thms)
next
  case False
  with consume_result [of i d now c "fst (consume_approval i d now c)"] show ?thesis
    by (intro that(2) [of "fst (consume_approval i d now c)"]) (simp_all add: prod_eq_iff)
qed

definition waits_well :: "string \<Rightarrow> string \<Rightarrow> host_system \<Rightarrow> (string + unit) option \<times> host_system \<Rightarrow> bool" where
  "waits_well i d h rh \<longleftrightarrow> (\<exists>c'. snd rh = h\<lparr>hy_coordinator := c'\<rparr> \<and>
     coordinator_moved (hy_coordinator h) c' \<and>
     (if fst rh = Some (Inr ()) then approval_spent i d (hy_coordinator h) c'
      else no_new_approval (hy_coordinator h) c'))"

lemma waits_well_same [simp]: "r \<noteq> Some (Inr ()) \<Longrightarrow> waits_well i d h (r, h)"
  by (auto simp: waits_well_def intro: exI [of _ "hy_coordinator h"])

lemma await_failed_well:
  "waits_well i d h (Some (Inl m), h\<lparr>hy_coordinator := snd (fail_session i e now (hy_coordinator h))\<rparr>)"
  using terminal_ops_moved(3) terminal_ops_approvals(3) by (auto simp: waits_well_def)

lemma await_round_well: "waits_well i d h (await_round i d now h)"
proof (cases rule: consume_cases [of i d now "hy_coordinator h"])
  case (1 c')
  then have "waits_well i d h (Some (Inr ()), h\<lparr>hy_coordinator := c'\<rparr>)"
    by (auto simp: waits_well_def)
  with 1 show ?thesis
    by (auto simp: await_round_def on_coordinator_eq split: sum.split)
next
  case (2 r)
  then have e: "r = Inr False \<or> (\<exists>m. r = Inl m)"
    by (cases r) auto
  have "fail_session i m now c = (r, c') \<Longrightarrow> snd (fail_session i m now c) = c'" for m c r c'
    by simp
  with 2 e show ?thesis
    by (auto simp: await_round_def on_coordinator_eq await_failed_well
        split: sum.split option.split prod.split)
qed

text \<open>Every operation moves the coordinator on.\<close>

lemma worker_step_moved:
  "coordinator_moved (hy_coordinator h) (hy_coordinator (snd (worker_step env now (pc, h))))"
proof (cases pc)
  case (PcConsume i q g l)
  then show ?thesis
    using consume_moved by (auto simp: worker_step_def on_coordinator_eq split: option.split sum.split)
next
  case (PcDecide i q g l e a)
  then show ?thesis
    using request_approval_moved
    by (auto simp: worker_step_def on_coordinator_eq split: policy_decision.split sum.split)
next
  case (PcAwait i q g e)
  then show ?thesis
    using await_round_well [of i "request_digest env i (sd_app g) q" h now]
    by (auto simp: worker_step_def waits_well_def split: prod.split option.split sum.split)
qed (auto simp: worker_step_def on_coordinator_eq Let_def observing_moved observing_app_moved
    split: option.split sum.split)

lemma finish_moved: "coordinator_moved c (finish_worker_session i ok now c)"
  by (auto simp: finish_worker_session_def terminal_ops_moved split: sum.split)

lemma host_do_moved:
  "coordinator_moved (hy_coordinator h) (hy_coordinator (snd (host_do env (now, oper) (pc, h))))"
proof (cases oper)
  case (OpApprove i d)
  then show ?thesis
    using approve_moved by (auto simp: approve_session_def on_coordinator_eq split: sum.split)
next
  case (OpCreateGrant g)
  then show ?thesis
    by (auto simp: create_grant_def split: sum.split)
next
  case (OpRevokeGrant i)
  then show ?thesis
    by (auto simp: revoke_app_grant_def on_coordinator_eq terminal_ops_moved split: prod.split)
next
  case (OpAct i q)
  then show ?thesis
    by (auto simp: call_worker_def split: sum.split)
next
  case (OpLook i q)
  then show ?thesis
    by (auto simp: call_worker_def split: sum.split)
qed (auto simp: on_coordinator_eq worker_step_moved finish_moved start_moved deny_moved pause_moved
    resume_moved terminal_ops_moved)

lemma host_run_snoc: "host_run env (ops @ [x]) = host_do env x (host_run env ops)"
  by (simp add: host_run_def)

text \<open>
  C28: However the worker, the user and the desktop act, the live sessions of applications are those
  the coordinator counts as active: at most one, none after it ended, and no session is left
  running beside it.
\<close>

theorem one_live_session:
  "live_sessions (hy_coordinator (snd (host_run env ops))) =
     set_option (co_active (hy_coordinator (snd (host_run env ops))))"
proof (induction ops rule: rev_induct)
  case Nil
  show ?case
    by (simp add: host_run_def new_host_def new_coordinator_def live_sessions_def)
next
  case (snoc x ops)
  show ?case
    using snoc host_do_moved [of "snd (host_run env ops)" env "fst x" "snd x" "fst (host_run env ops)"]
    by (simp add: host_run_snoc coordinator_moved_def)
qed

text \<open>A session that has ended stays as it is.\<close>

lemma ended_session_stays:
  assumes "co_sessions (hy_coordinator (snd (host_run env ops))) i = Some s"
    and "is_terminal_phase (hs_phase (hx_snapshot s))"
  shows "co_sessions (hy_coordinator (snd (host_run env (ops @ more_ops)))) i = Some s"
proof (induction more_ops rule: rev_induct)
  case (snoc x xs)
  show ?case
    using snoc assms(2) host_do_moved [of "snd (host_run env (ops @ xs))" env "fst x" "snd x"
        "fst (host_run env (ops @ xs))"]
    by (auto simp: host_run_snoc coordinator_moved_def session_moved_def simp flip: append_assoc)
qed (simp add: assms)

section \<open>Approvals\<close>

definition executed_with :: "string \<Rightarrow> string \<Rightarrow> host_system \<Rightarrow> nat" where
  "executed_with i d h = length (filter (\<lambda>x. approval_required False (ex_category x) \<and> ex_session x = i \<and>
     ex_digest x = d) (hy_executed h))"

text \<open>The approval the worker has in hand.\<close>

definition worker_held :: "host_env \<Rightarrow> worker_pc \<Rightarrow> string \<Rightarrow> string \<Rightarrow> nat" where
  "worker_held env pc i d = (case pc of
     PcDecide j q g l e approved \<Rightarrow> if approved \<and> j = i \<and> request_digest env j (sd_app g) q = d then 1 else 0
   | PcExecute j q g e \<Rightarrow> if approval_required False (request_category g q) \<and> j = i \<and>
       request_digest env j (sd_app g) q = d then 1 else 0
   | _ \<Rightarrow> 0)"

definition approvals_used :: "host_env \<Rightarrow> worker_pc \<times> host_system \<Rightarrow> string \<Rightarrow> string \<Rightarrow> nat" where
  "approvals_used env wh i d = executed_with i d (snd wh) + worker_held env (fst wh) i d +
     approval_held (hy_coordinator (snd wh)) i d"

definition approvals_cover :: "host_env \<Rightarrow> worker_pc \<times> host_system \<Rightarrow> worker_pc \<times> host_system \<Rightarrow> bool" where
  "approvals_cover env wh wh' \<longleftrightarrow> hy_approvals (snd wh') = hy_approvals (snd wh) \<and>
     (\<forall>i d. approvals_used env wh' i d \<le> approvals_used env wh i d)"

lemma same_executed [simp]:
  "executed_with i d (h\<lparr>hy_coordinator := c\<rparr>) = executed_with i d h"
  "executed_with i d (h\<lparr>hy_guards := gs\<rparr>) = executed_with i d h"
  "executed_with i d (h\<lparr>hy_grants := ag\<rparr>) = executed_with i d h"
  "executed_with i d (h\<lparr>hy_granted := gd\<rparr>) = executed_with i d h"
  "executed_with i d (h\<lparr>hy_approvals := ap\<rparr>) = executed_with i d h"
  by (simp_all add: executed_with_def)

lemma held_idle [simp]:
  "worker_held env (PcIdle r) = (\<lambda>i d. 0)"
  "worker_held env (PcLookup i q) = (\<lambda>i d. 0)"
  "worker_held env (PcResolve i q g) = (\<lambda>i d. 0)"
  "worker_held env (PcConsume i q g l) = (\<lambda>i d. 0)"
  "worker_held env (PcAwait i q g e) = (\<lambda>i d. 0)"
  "worker_held env (PcDecide i q g l e False) = (\<lambda>i d. 0)"
  "worker_held env (PcFinish i g) = (\<lambda>i d. 0)"
  "worker_held env (PcObserve i p) = (\<lambda>i d. 0)"
  "worker_held env (PcGranted i a app) = (\<lambda>i d. 0)"
  "worker_held env (PcPublish i m) = (\<lambda>i d. 0)"
  by (simp_all add: worker_held_def fun_eq_iff)

text \<open>The worker ends with nothing in hand, and the coordinator makes no approval.\<close>

lemma cover_idle:
  assumes "worker_held env pc' = (\<lambda>i d. 0)" and "hy_executed h' = hy_executed h"
    and "hy_approvals h' = hy_approvals h" and "no_new_approval (hy_coordinator h) (hy_coordinator h')"
  shows "approvals_cover env (pc, h) (pc', h')"
proof -
  have "executed_with i d h' = executed_with i d h" for i d
    using assms(2) by (simp add: executed_with_def)
  then show ?thesis
    using assms by (auto simp: approvals_cover_def approvals_used_def no_new_approval_def intro!: trans_le_add2)
qed

text \<open>The two moves that take an approval from the coordinator, and the one that hands it on.\<close>

lemma cover_spent:
  assumes "approval_spent i (request_digest env i (sd_app g) q) (hy_coordinator h) c'"
    and "pc' = PcDecide i q g l e True \<or> pc' = PcExecute i q g e"
  shows "approvals_cover env (pc, h) (pc', h\<lparr>hy_coordinator := c'\<rparr>)"
proof -
  have "worker_held env pc' j b + approval_held c' j b \<le> approval_held (hy_coordinator h) j b" for j b
    using assms(1) [unfolded approval_spent_def, rule_format, of j b] assms(2)
    by (auto simp: worker_held_def split: if_splits)
  then show ?thesis
    by (auto simp: approvals_cover_def approvals_used_def intro: trans_le_add2 simp: add.assoc)
qed

lemma cover_decide:
  assumes "decide_action l \<lparr>pq_category = request_category g q, pq_protected_target = p,
      pq_low_risk_typing_enabled = False, pq_approval_matches = a\<rparr> = HostAllowed"
  shows "approvals_cover env (PcDecide i q g l e a, h) (PcExecute i q g e, h)"
proof -
  have "worker_held env (PcExecute i q g e) j b \<le> worker_held env (PcDecide i q g l e a) j b" for j b
    using assms by (auto simp: decide_allowed worker_held_def)
  then show ?thesis
    by (auto simp: approvals_cover_def approvals_used_def)
qed

lemma cover_execute:
  assumes "worker_held env pc' = (\<lambda>i d. 0)"
  shows "approvals_cover env (PcExecute i q g e, h) (pc', h\<lparr>hy_executed := hy_executed h @
      [\<lparr>ex_session = i, ex_app = sd_app g, ex_digest = request_digest env i (sd_app g) q,
        ex_category = request_category g q, ex_element = e\<rparr>]\<rparr>)"
  using assms
  by (auto simp: approvals_cover_def approvals_used_def executed_with_def worker_held_def)

lemma worker_step_cover: "approvals_cover env (pc, h) (worker_step env now (pc, h))"
proof (cases pc)
  case (PcConsume i q g l)
  show ?thesis
    using PcConsume
    by (cases rule: consume_cases [of i "request_digest env i (sd_app g) q" now "hy_coordinator h"])
      (auto simp: worker_step_def on_coordinator_eq cover_spent worker_held_def
        split: option.split sum.split intro!: cover_idle)
next
  case (PcDecide i q g l e a)
  then show ?thesis
    using request_approvals
    by (auto simp: worker_step_def on_coordinator_eq cover_decide
        split: policy_decision.split sum.split intro!: cover_idle)
next
  case (PcAwait i q g e)
  obtain r c' where "await_round i (request_digest env i (sd_app g) q) now h = (r, h\<lparr>hy_coordinator := c'\<rparr>)"
    and "if r = Some (Inr ()) then approval_spent i (request_digest env i (sd_app g) q) (hy_coordinator h) c'
      else no_new_approval (hy_coordinator h) c'"
    using await_round_well [of i "request_digest env i (sd_app g) q" h now]
    by (metis waits_well_def prod.collapse)
  with PcAwait show ?thesis
    by (cases "r = Some (Inr ())")
      (auto simp: worker_step_def cover_spent split: option.split sum.split intro!: cover_idle)
next
  case (PcExecute i q g e)
  then show ?thesis
    by (auto simp: worker_step_def Let_def cover_execute split: sum.split intro!: cover_idle)
qed (auto simp: worker_step_def on_coordinator_eq observing_approvals observe_step_def
    split: option.split sum.split intro!: cover_idle)

lemma host_do_cover:
  assumes "\<And>i d. oper \<noteq> OpApprove i d"
  shows "approvals_cover env (pc, h) (host_do env (now, oper) (pc, h))"
proof -
  have keep: "approvals_cover env (pc, h) (pc, h')"
    if "hy_executed h' = hy_executed h" "hy_approvals h' = hy_approvals h"
      "no_new_approval (hy_coordinator h) (hy_coordinator h')" for h'
    using that by (auto simp: approvals_cover_def approvals_used_def executed_with_def no_new_approval_def)
  have start: "approvals_cover env (pc, h) (call_worker i pc' (pc, h))"
    if "worker_held env pc' = (\<lambda>i d. 0)" for i pc'
    using that by (auto simp: call_worker_def split: sum.split intro!: cover_idle)
  show ?thesis
  proof (cases oper)
    case (OpCreateGrant g)
    then show ?thesis by (auto simp: create_grant_def split: sum.split intro!: keep)
  next
    case (OpRevokeGrant i)
    then show ?thesis
      using terminal_ops_approvals
      by (auto simp: revoke_app_grant_def on_coordinator_eq split: prod.split intro!: keep)
  next
    case (OpFinish i ok)
    then show ?thesis
      using terminal_ops_approvals by (auto simp: finish_worker_session_def split: sum.split intro!: keep)
  next
    case (OpApprove i d)
    with assms show ?thesis by blast
  qed (auto simp: on_coordinator_eq start worker_step_cover start_approvals deny_approvals
      pause_approvals resume_approvals terminal_ops_approvals intro!: keep)
qed

lemma approve_cover:
  "approvals_used env (pc, approve_session i d now h) j b + count_list (hy_approvals h) (j, b) \<le>
     approvals_used env (pc, h) j b + count_list (hy_approvals (approve_session i d now h)) (j, b)"
proof (cases "fst (approve i d now (hy_coordinator h))")
  case (Inl e)
  with approve_approvals [of i d now "hy_coordinator h" "Inl e"] show ?thesis
    by (auto simp: approve_session_def on_coordinator_eq prod_eq_iff)
next
  case (Inr s)
  with approve_approvals [of i d now "hy_coordinator h" "Inr s"]
  have "approval_held (snd (approve i d now (hy_coordinator h))) j b \<le>
      approval_held (hy_coordinator h) j b + (if j = i \<and> b = d then 1 else 0)"
    by (simp add: prod_eq_iff)
  with Inr show ?thesis
    by (auto simp: approve_session_def on_coordinator_eq approvals_used_def)
qed

text \<open>
  For every session and every action digest, the actions handed to the helper that need an approval
  are no more than the approvals the user gave to exactly that action in that session.
\<close>

lemma executed_at_most_approved:
  "executed_with i d (snd (host_run env ops)) \<le> count_list (hy_approvals (snd (host_run env ops))) (i, d)"
proof -
  have "approvals_used env (host_run env ops) i d \<le> count_list (hy_approvals (snd (host_run env ops))) (i, d)"
  proof (induction ops rule: rev_induct)
    case Nil
    show ?case
      by (simp add: host_run_def new_host_def approvals_used_def executed_with_def worker_held_def
          approval_held_def new_coordinator_def)
  next
    case (snoc x ops)
    obtain now oper pc h where x: "x = (now, oper)" "host_run env ops = (pc, h)"
      by (metis surj_pair)
    show ?case
    proof (cases "\<exists>j b. oper = OpApprove j b")
      case True
      then obtain j b where "oper = OpApprove j b"
        by blast
      with snoc x approve_cover [of env pc j b now h i d] show ?thesis
        by (simp add: host_run_snoc)
    next
      case False
      with snoc x host_do_cover [of oper env pc h now] show ?thesis
        by (auto simp: host_run_snoc approvals_cover_def intro: order_trans [of _ "approvals_used env (pc, h) i d"])
    qed
  qed
  then show ?thesis
    by (simp add: approvals_used_def)
qed

section \<open>What is acted on\<close>

definition app_ok :: "host_env \<Rightarrow> host_system \<Rightarrow> signed_app \<Rightarrow> bool" where
  "app_ok env h a \<longleftrightarrow> (en_scope env, a) \<in> set (hy_granted h)"

definition target_ok :: "host_env \<Rightarrow> host_system \<Rightarrow> snapshot_guard \<Rightarrow> action_request \<Rightarrow> host_element \<Rightarrow> bool" where
  "target_ok env h g q e \<longleftrightarrow> app_ok env h (sd_app g) \<and> \<not> he_sensitive e \<and>
     request_category g q \<notin> {CatCredentialInput, CatTerminalInput}"

definition guard_ok :: "snapshot_guard \<Rightarrow> bool" where
  "guard_ok g \<longleftrightarrow> \<not> is_protected_bundle_id (ap_bundle_id (sd_app g))"

definition worker_sound :: "host_env \<Rightarrow> host_system \<Rightarrow> worker_pc \<Rightarrow> bool" where
  "worker_sound env h pc \<longleftrightarrow> (case pc of
     PcResolve i q g \<Rightarrow> guard_ok g
   | PcConsume i q g l \<Rightarrow> guard_ok g \<and> (l = Some GrantControl \<longrightarrow> app_ok env h (sd_app g))
   | PcDecide i q g l e a \<Rightarrow> guard_ok g \<and> (l = Some GrantControl \<longrightarrow> app_ok env h (sd_app g))
   | PcAwait i q g e \<Rightarrow> guard_ok g \<and> target_ok env h g q e
   | PcExecute i q g e \<Rightarrow> guard_ok g \<and> target_ok env h g q e
   | PcGranted i a app \<Rightarrow> \<not> is_protected_bundle_id (ap_bundle_id app)
   | _ \<Rightarrow> True)"

definition executed_sound :: "host_env \<Rightarrow> host_system \<Rightarrow> executed_action \<Rightarrow> bool" where
  "executed_sound env h x \<longleftrightarrow> app_ok env h (ex_app x) \<and> \<not> he_sensitive (ex_element x) \<and>
     \<not> is_protected_bundle_id (ap_bundle_id (ex_app x)) \<and> \<not> is_terminal_bundle_id (ap_bundle_id (ex_app x))"

definition host_sound :: "host_env \<Rightarrow> worker_pc \<times> host_system \<Rightarrow> bool" where
  "host_sound env wh \<longleftrightarrow> worker_sound env (snd wh) (fst wh) \<and>
     list_all (executed_sound env (snd wh)) (hy_executed (snd wh)) \<and>
     (\<forall>k g. hy_guards (snd wh) k = Some g \<longrightarrow> guard_ok g) \<and>
     (\<forall>g \<in> set (hy_grants (snd wh)). ag_level g = GrantControl \<longrightarrow>
        (ag_scope g, ag_app g) \<in> set (hy_granted (snd wh)))"

lemma classify_never_observes: "classify_action b a \<noteq> CatObserve \<and> classify_action b a \<noteq> CatCredentialInput"
  by (simp add: classify_action_def)

lemma classify_terminal: "is_terminal_bundle_id b \<longleftrightarrow> classify_action b a = CatTerminalInput"
  by (simp add: classify_action_def)

lemma resolved_control:
  "resolve_grant s a now gs = Some GrantControl \<Longrightarrow>
     \<exists>g \<in> set gs. ag_scope g = s \<and> ag_app g = a \<and> ag_level g = GrantControl"
  by (auto simp: resolve_grant_def find_Some_iff)

lemma sound_mono:
  assumes "set (hy_granted h) \<subseteq> set (hy_granted h')"
  shows "worker_sound env h pc \<Longrightarrow> worker_sound env h' pc"
    and "list_all (executed_sound env h) xs \<Longrightarrow> list_all (executed_sound env h') xs"
  using assms
  by (auto simp: worker_sound_def executed_sound_def target_ok_def app_ok_def list_all_iff
      split: worker_pc.splits)

text \<open>A step that leaves the ghost of the grants alone.\<close>

lemma worker_sound_same [simp]:
  "worker_sound env (h\<lparr>hy_coordinator := c\<rparr>) = worker_sound env h"
  "worker_sound env (h\<lparr>hy_guards := gs\<rparr>) = worker_sound env h"
  "worker_sound env (h\<lparr>hy_executed := xs\<rparr>) = worker_sound env h"
  "worker_sound env (h\<lparr>hy_grants := ag\<rparr>) = worker_sound env h"
  "executed_sound env (h\<lparr>hy_coordinator := c\<rparr>) = executed_sound env h"
  "executed_sound env (h\<lparr>hy_guards := gs\<rparr>) = executed_sound env h"
  "executed_sound env (h\<lparr>hy_executed := xs\<rparr>) = executed_sound env h"
  "executed_sound env (h\<lparr>hy_grants := ag\<rparr>) = executed_sound env h"
  by (auto simp: fun_eq_iff worker_sound_def executed_sound_def target_ok_def app_ok_def
      split: worker_pc.split)

lemma worker_sound_idle [simp]:
  "worker_sound env h (PcIdle r)" "worker_sound env h (PcLookup i q)" "worker_sound env h (PcFinish i g)"
  "worker_sound env h (PcObserve i p)" "worker_sound env h (PcPublish i m)"
  by (simp_all add: worker_sound_def)

lemma host_sound_idle:
  "host_sound env (pc, h) \<Longrightarrow> worker_sound env h pc' \<Longrightarrow> host_sound env (pc', h\<lparr>hy_coordinator := c\<rparr>)"
  "host_sound env (pc, h) \<Longrightarrow> worker_sound env h pc' \<Longrightarrow> host_sound env (pc', h)"
  by (simp_all add: host_sound_def)

lemma decided_target:
  assumes "guard_ok g" and "l = Some GrantControl \<longrightarrow> app_ok env h (sd_app g)"
    and "decide_action l \<lparr>pq_category = request_category g q, pq_protected_target = he_sensitive e,
      pq_low_risk_typing_enabled = False, pq_approval_matches = a\<rparr> \<in>
      {HostAllowed, ApprovalRequired k}"
  shows "target_ok env h g q e"
  using assms classify_never_observes [of "ap_bundle_id (sd_app g)" "ar_action q"]
  by (auto simp: target_ok_def decide_allowed request_category_def dest: decide_approval)

lemma worker_step_sound:
  assumes "host_sound env (pc, h)"
  shows "host_sound env (worker_step env now (pc, h))"
proof (cases pc)
  case (PcLookup i q)
  with assms show ?thesis
    by (auto simp: worker_step_def host_sound_def worker_sound_def split: option.split)
next
  case (PcResolve i q g)
  with assms show ?thesis
    by (auto simp: worker_step_def host_sound_def worker_sound_def app_ok_def dest!: resolved_control)
next
  case (PcConsume i q g l)
  with assms have "worker_sound env h (PcDecide i q g l e a)" for e a
    by (simp add: host_sound_def worker_sound_def)
  with PcConsume show ?thesis
    by (auto simp: worker_step_def on_coordinator_eq split: option.split sum.split
        intro!: host_sound_idle [OF assms])
next
  case (PcDecide i q g l e a)
  then have g: "guard_ok g" "l = Some GrantControl \<longrightarrow> app_ok env h (sd_app g)"
    using assms by (auto simp: host_sound_def worker_sound_def)
  then have "worker_sound env h (PcExecute i q g e)" "worker_sound env h (PcAwait i q g e)"
    if "decide_action l \<lparr>pq_category = request_category g q, pq_protected_target = he_sensitive e,
      pq_low_risk_typing_enabled = False, pq_approval_matches = a\<rparr> \<in> {HostAllowed, ApprovalRequired k}" for k
    using decided_target [OF g that] by (auto simp: worker_sound_def)
  with PcDecide show ?thesis
    by (auto simp: worker_step_def on_coordinator_eq split: policy_decision.split sum.split
        intro!: host_sound_idle [OF assms])
next
  case (PcAwait i q g e)
  obtain r c' where "await_round i (request_digest env i (sd_app g) q) now h = (r, h\<lparr>hy_coordinator := c'\<rparr>)"
    using await_round_well [of i "request_digest env i (sd_app g) q" h now]
    by (metis waits_well_def prod.collapse)
  moreover have "worker_sound env h (PcAwait i q g e)" "worker_sound env h (PcExecute i q g e)"
    using assms PcAwait by (auto simp: host_sound_def worker_sound_def)
  ultimately show ?thesis
    using PcAwait
    by (auto simp: worker_step_def split: option.split sum.split intro!: host_sound_idle [OF assms])
next
  case (PcExecute i q g e)
  then have "executed_sound env h \<lparr>ex_session = i, ex_app = sd_app g,
      ex_digest = request_digest env i (sd_app g) q, ex_category = request_category g q, ex_element = e\<rparr>"
    using assms classify_terminal [of "ap_bundle_id (sd_app g)" "ar_action q"]
    by (auto simp: host_sound_def worker_sound_def executed_sound_def target_ok_def guard_ok_def
        request_category_def)
  with PcExecute assms show ?thesis
    by (auto simp: worker_step_def Let_def host_sound_def split: sum.split)
next
  case (PcObserve i pid)
  with assms show ?thesis
    by (auto simp: worker_step_def observe_step_def host_sound_def worker_sound_def signed_identity_def
        split: option.splits sum.splits if_splits prod.splits)
next
  case (PcGranted i a app)
  with assms show ?thesis
    by (auto simp: worker_step_def host_sound_def worker_sound_def guard_ok_def split: sum.split)
qed (use assms in \<open>auto simp: worker_step_def on_coordinator_eq host_sound_def\<close>)

lemma created_grants_sound:
  assumes "\<forall>g \<in> set gs. ag_level g = GrantControl \<longrightarrow> (ag_scope g, ag_app g) \<in> G"
    and "upsert_grant n gs = Inr gs'" and "h \<in> set gs'" and "ag_level h = GrantControl"
  shows "(ag_scope h, ag_app h) \<in> G \<or> (ag_level n = GrantControl \<and> ag_scope h = ag_scope n \<and> ag_app h = ag_app n)"
  using assms by (auto simp: upsert_grant_def same_app_def split: if_splits)

lemma create_grant_sound:
  assumes "host_sound env (pc, h)"
  shows "host_sound env (pc, snd (create_grant g h))"
proof (cases "upsert_grant g (hy_grants h)")
  case (Inr gs)
  define h' where "h' = h\<lparr>hy_grants := gs, hy_granted := (if ag_level g = GrantControl
    then hy_granted h @ [(ag_scope g, ag_app g)] else hy_granted h)\<rparr>"
  have "set (hy_granted h) \<subseteq> set (hy_granted h')"
    by (auto simp: h'_def)
  note kept = sound_mono [OF this]
  have "(ag_scope k, ag_app k) \<in> set (hy_granted h')" if "k \<in> set gs" "ag_level k = GrantControl" for k
    using created_grants_sound [OF _ Inr that, of "set (hy_granted h)"] assms
    by (auto simp: host_sound_def h'_def)
  moreover have "hy_guards h' = hy_guards h" "hy_executed h' = hy_executed h" "hy_grants h' = gs"
    by (simp_all add: h'_def)
  ultimately have "host_sound env (pc, h')"
    using assms kept by (auto simp: host_sound_def)
  then show ?thesis
    using Inr assms by (auto simp: create_grant_def h'_def)
qed (use assms in \<open>auto simp: create_grant_def\<close>)

lemma revoke_grant_sound:
  assumes "host_sound env (pc, h)"
  shows "host_sound env (pc, snd (revoke_app_grant env i now h))"
  using assms
  by (auto simp: revoke_app_grant_def revoke_grant_def on_coordinator_eq host_sound_def)

lemma host_do_sound:
  assumes "host_sound env (pc, h)"
  shows "host_sound env (host_do env (now, oper) (pc, h))"
proof -
  have pc: "worker_sound env h pc"
    using assms by (simp add: host_sound_def)
  note same = host_sound_idle [OF assms pc]
  show ?thesis
  proof (cases oper)
    case (OpApprove i d)
    have "worker_sound env (k\<lparr>hy_approvals := as\<rparr>) = worker_sound env k"
      "executed_sound env (k\<lparr>hy_approvals := as\<rparr>) = executed_sound env k" for k as
      by (auto simp: fun_eq_iff worker_sound_def executed_sound_def target_ok_def app_ok_def
          split: worker_pc.split)
    then have "host_sound env (pc, h\<lparr>hy_coordinator := c, hy_approvals := as\<rparr>)" for as c
      using assms by (simp add: host_sound_def)
    then show ?thesis
      using OpApprove same by (auto simp: approve_session_def on_coordinator_eq split: sum.split)
  next
    case (OpAct i q)
    then show ?thesis
      using assms by (auto simp: call_worker_def host_sound_def split: sum.split)
  next
    case (OpLook i q)
    then show ?thesis
      using assms by (auto simp: call_worker_def host_sound_def split: sum.split)
  qed (auto simp: on_coordinator_eq worker_step_sound [OF assms] create_grant_sound [OF assms]
      revoke_grant_sound [OF assms] intro: same)
qed

text \<open>
  C27: Every action handed to the helper is on an application the user has at some time granted control
  of in this scope, that is neither protected nor a terminal, and on an element that is not sensitive, however
  grants, sessions and calls are interleaved.
\<close>

theorem executed_actions_are_granted:
  "list_all (executed_sound env (snd (host_run env ops))) (hy_executed (snd (host_run env ops)))"
proof -
  have "host_sound env (host_run env ops)"
  proof (induction ops rule: rev_induct)
    case Nil
    show ?case
      by (simp add: host_run_def host_sound_def new_host_def)
  next
    case (snoc x ops)
    then show ?case
      using host_do_sound [of env "fst (host_run env ops)" "snd (host_run env ops)" "fst x" "snd x"]
      by (simp add: host_run_snoc)
  qed
  then show ?thesis
    by (simp add: host_sound_def)
qed

section \<open>Where the interface is surprised\<close>

text \<open>A pause while the helper acts is lost when the worker reports that it is observing again.\<close>

lemma pause_during_action_is_lost:
  assumes "co_sessions c i = Some s" and "\<not> is_terminal_phase (hs_phase (hx_snapshot s))"
  shows "\<exists>s'. snapshot_of (snd (mark_observing i t2 (snd (pause_session i t1 c)))) i = Inr s' \<and>
    hs_phase s' = PhObserving"
  using assms
  by (simp add: mark_observing_def pause_session_def with_session_def session_mut_def write_session_def
      snapshot_of_def ok_or_def is_terminal_phase_def touch_def)

text \<open>
  Granting an application again answers with an id that names no grant: the row keeps its own, and
  revoking by the answered id revokes nothing.
\<close>

lemma granted_again_under_old_id:
  assumes "list_ex (same_app g) (hy_grants h)" and "ag_grant_id g \<notin> ag_grant_id ` set (hy_grants h)"
    and "create_grant g h = (Inr r, h')"
  shows "fst (revoke_app_grant env (ag_grant_id r) now h') = False"
proof -
  have "r = g" and "hy_grants h' = List.map (\<lambda>k. if same_app g k
      then k\<lparr>ag_level := ag_level g, ag_expires_at := ag_expires_at g\<rparr> else k) (hy_grants h)"
    using assms(1, 3) by (auto simp: create_grant_def upsert_grant_def split: if_splits)
  then have "List.map ag_grant_id (hy_grants h') = List.map ag_grant_id (hy_grants h)"
    by (simp add: comp_def if_distrib cong: if_cong)
  then have "ag_grant_id ` set (hy_grants h') = ag_grant_id ` set (hy_grants h)"
    by (metis set_map)
  with \<open>r = g\<close> assms(2) have "ag_grant_id k \<noteq> ag_grant_id r" if "k \<in> set (hy_grants h')" for k
    using that by (metis imageI)
  then show ?thesis
    by (auto simp: revoke_app_grant_def revoke_grant_def list_ex_iff)
qed

end
