(* ===== verification/HostLedger.thy ===== *)
theory HostLedger
  imports HostSafety
begin

text \<open>
  The approvals of actions against an abstract ledger. The ledger knows what was asked of the user,
  what the user gave, and the one approval the worker has in hand; a request, a pause and the end of
  a session withdraw what was given before. Every run of the host is a run of the ledger, so an
  approval is never used after it was withdrawn, spent or expired.
\<close>

section \<open>The ledger\<close>

datatype approval_event =
  Asked string string int
| Given string string int
| Withdrawn string
| Spent string string int
| Acted string string
| PutDown

record ledger =
  lg_asked :: "string \<rightharpoonup> string \<times> int"
  lg_given :: "string \<rightharpoonup> string \<times> int"
  lg_hand :: "(string \<times> string) option"

definition new_ledger :: ledger where
  "new_ledger = \<lparr>lg_asked = Map.empty, lg_given = Map.empty, lg_hand = None\<rparr>"

text \<open>
  An approval is asked for five minutes; it is given to what is asked for and only in that time; it is
  spent once, in that time; and an action is done with the approval in hand.
\<close>

fun ledger_step :: "ledger \<Rightarrow> approval_event \<Rightarrow> string + ledger" where
  "ledger_step L (Asked i d now) =
     Inr (L\<lparr>lg_asked := (lg_asked L)(i \<mapsto> (d, now + 5 * 60 * 1000)), lg_given := (lg_given L)(i := None)\<rparr>)"
| "ledger_step L (Given i d now) = (case lg_asked L i of
     None \<Rightarrow> Inr L
   | Some (asked, e) \<Rightarrow> if asked = d \<and> now \<le> e
       then Inr (L\<lparr>lg_asked := (lg_asked L)(i := None), lg_given := (lg_given L)(i \<mapsto> (d, e))\<rparr>)
       else Inr L)"
| "ledger_step L (Withdrawn i) =
     Inr (L\<lparr>lg_asked := (lg_asked L)(i := None), lg_given := (lg_given L)(i := None)\<rparr>)"
| "ledger_step L (Spent i d now) = (case lg_given L i of
     None \<Rightarrow> Inl ''not approved''
   | Some (given, e) \<Rightarrow> if given = d \<and> now \<le> e
       then Inr (L\<lparr>lg_given := (lg_given L)(i := None), lg_hand := Some (i, d)\<rparr>)
       else Inl ''not approved'')"
| "ledger_step L (Acted i d) =
     (if lg_hand L = Some (i, d) then Inr (L\<lparr>lg_hand := None\<rparr>) else Inl ''no approval in hand'')"
| "ledger_step L PutDown = Inr (L\<lparr>lg_hand := None\<rparr>)"

section \<open>The events of a run\<close>

text \<open>
  What the worker does with approvals shows in where it goes: with an approved answer of
  \<open>consume_approval\<close> to its decision, or out of its waiting to the execution; and into its waiting
  with a new request.
\<close>

definition worker_events :: "host_env \<Rightarrow> int \<Rightarrow> worker_pc \<Rightarrow> worker_pc \<Rightarrow> approval_event list" where
  "worker_events env now pc pc' = (case pc of
     PcConsume i q g l \<Rightarrow> (case pc' of
       PcDecide _ _ _ _ _ approved \<Rightarrow> if approved then [Spent i (request_digest env i (sd_app g) q) now] else []
     | _ \<Rightarrow> [])
   | PcDecide i q g l e a \<Rightarrow> (case pc' of
       PcAwait _ _ _ _ \<Rightarrow> [Asked i (request_digest env i (sd_app g) q) now] | _ \<Rightarrow> [])
   | PcAwait i q g e \<Rightarrow> (case pc' of
       PcExecute _ _ _ _ \<Rightarrow> [Spent i (request_digest env i (sd_app g) q) now] | _ \<Rightarrow> [])
   | _ \<Rightarrow> [])"

text \<open>The session that was active and is no more has ended.\<close>

definition end_events :: "coordinator \<Rightarrow> coordinator \<Rightarrow> approval_event list" where
  "end_events c c' = (case co_active c of
     None \<Rightarrow> [] | Some i \<Rightarrow> if co_active c' = Some i then [] else [Withdrawn i])"

definition acted_events :: "host_system \<Rightarrow> host_system \<Rightarrow> approval_event list" where
  "acted_events h h' = List.map (\<lambda>x. Acted (ex_session x) (ex_digest x))
     (filter (\<lambda>x. approval_required False (ex_category x)) (drop (length (hy_executed h)) (hy_executed h')))"

definition step_events ::
    "host_env \<Rightarrow> int \<times> host_op \<Rightarrow> worker_pc \<times> host_system \<Rightarrow> worker_pc \<times> host_system \<Rightarrow> approval_event list" where
  "step_events env x wh wh' = (case x of (now, oper) \<Rightarrow>
     (case oper of
        OpApprove i d \<Rightarrow> [Given i d now]
      | OpPause i \<Rightarrow> [Withdrawn i]
      | OpWorker \<Rightarrow> worker_events env now (fst wh) (fst wh')
      | _ \<Rightarrow> []) @
     acted_events (snd wh) (snd wh') @
     (if worker_idle (fst wh') then [PutDown] else []) @
     end_events (hy_coordinator (snd wh)) (hy_coordinator (snd wh')))"

definition host_events :: "host_env \<Rightarrow> (int \<times> host_op) list \<Rightarrow> approval_event list" where
  "host_events env ops = concat (List.map
     (\<lambda>n. step_events env (ops ! n) (host_run env (take n ops)) (host_run env (take (Suc n) ops)))
     [0..<length ops])"

lemma host_events_snoc: "host_events env (ops @ [x]) =
    host_events env ops @ step_events env x (host_run env ops) (host_run env (ops @ [x]))"
proof -
  define F where "F = (\<lambda>os n. step_events env (os ! n) (host_run env (take n os)) (host_run env (take (Suc n) os)))"
  have "List.map (F (ops @ [x])) [0..<length ops] = List.map (F ops) [0..<length ops]"
    by (rule map_cong [OF refl]) (simp add: F_def nth_append)
  moreover have "F (ops @ [x]) (length ops) = step_events env x (host_run env ops) (host_run env (ops @ [x]))"
    by (simp add: F_def)
  moreover have "host_events env os = concat (List.map (F os) [0..<length os])" for os
    by (simp add: host_events_def F_def)
  ultimately show ?thesis
    by (simp del: map_eq_conv)
qed

section \<open>The coordinator keeps the ledger\<close>

definition asked_of :: "coordinator \<Rightarrow> string \<rightharpoonup> string \<times> int" where
  "asked_of c i = Option.bind (co_sessions c i) (\<lambda>s.
     map_option (\<lambda>p. (pa_action_digest p, pa_expires_at p)) (hs_pending_approval (hx_snapshot s)))"

definition given_of :: "coordinator \<Rightarrow> string \<rightharpoonup> string \<times> int" where
  "given_of c i = Option.bind (co_sessions c i) (\<lambda>s.
     map_option (\<lambda>g. (ax_action_digest g, ax_expires_at g)) (hx_approved s))"

definition book :: "coordinator \<Rightarrow> (string \<times> string) option \<Rightarrow> ledger" where
  "book c hand = \<lparr>lg_asked = asked_of c, lg_given = given_of c, lg_hand = hand\<rparr>"

definition tidy :: "coordinator \<Rightarrow> bool" where
  "tidy c \<longleftrightarrow> live_sessions c = set_option (co_active c) \<and>
     (\<forall>i s. co_sessions c i = Some s \<longrightarrow> is_terminal_phase (hs_phase (hx_snapshot s)) \<longrightarrow>
        hs_pending_approval (hx_snapshot s) = None \<and> hx_approved s = None)"

lemma dead_books:
  assumes "tidy c" "session_mut c i = Inl e"
  shows "asked_of c i = None" "given_of c i = None"
  using assms by (auto simp: tidy_def session_mut_def asked_of_def given_of_def split: option.splits if_splits)

lemma live_active: "tidy c \<Longrightarrow> session_mut c i = Inr s \<Longrightarrow> co_active c = Some i \<and> co_sessions c i = Some s"
  by (auto simp: tidy_def session_mut_def live_sessions_def set_eq_iff split: option.splits if_splits)

text \<open>Writing a live session.\<close>

lemma write_books:
  assumes "tidy c" "session_mut c i = Inr s" "\<not> is_terminal_phase (hs_phase (hx_snapshot s'))"
  shows "tidy (snd (write_session i s' c))"
    and "co_active (snd (write_session i s' c)) = co_active c"
    and "asked_of (snd (write_session i s' c)) = (asked_of c)(i := map_option (\<lambda>p. (pa_action_digest p, pa_expires_at p))
      (hs_pending_approval (hx_snapshot s')))"
    and "given_of (snd (write_session i s' c)) =
      (given_of c)(i := map_option (\<lambda>g. (ax_action_digest g, ax_expires_at g)) (hx_approved s'))"
proof -
  have "live_sessions (snd (write_session i s' c)) = live_sessions c"
    using assms live_active [OF assms(1,2)] snapshot_live [OF assms(2)]
    by (auto simp: live_sessions_def write_session_def)
  then show "tidy (snd (write_session i s' c))"
    using assms by (auto simp: tidy_def write_session_def)
qed (auto simp: write_session_def asked_of_def given_of_def fun_eq_iff)

lemma books_same:
  assumes "session_mut c i = Inr s"
  shows "map_option (\<lambda>p. (pa_action_digest p, pa_expires_at p)) (hs_pending_approval (hx_snapshot s)) = asked_of c i"
    and "map_option (\<lambda>g. (ax_action_digest g, ax_expires_at g)) (hx_approved s) = given_of c i"
  using assms by (auto simp: session_mut_def asked_of_def given_of_def split: option.splits if_splits)

text \<open>What an operation does to the books: it leaves them, or it ends the session it is about.\<close>

definition kept :: "coordinator \<Rightarrow> coordinator \<Rightarrow> bool" where
  "kept c c' \<longleftrightarrow> tidy c' \<and> (co_active c' = co_active c \<or> co_active c = None) \<and>
     asked_of c' = asked_of c \<and> given_of c' = given_of c"

definition ended :: "coordinator \<Rightarrow> coordinator \<Rightarrow> bool" where
  "ended c c' \<longleftrightarrow> tidy c' \<and> (\<exists>i. co_active c = Some i \<and> co_active c' = None \<and>
     asked_of c' = (asked_of c)(i := None) \<and> given_of c' = (given_of c)(i := None))"

lemma kept_refl [simp]: "tidy c \<Longrightarrow> kept c c"
  by (simp add: kept_def)

lemma end_ledger:
  assumes "kept c c' \<or> ended c c'"
  shows "tidy c' \<and> run_steps ledger_step (book c hand) (end_events c c') = Inr (book c' hand)"
  using assms by (auto simp: kept_def ended_def end_events_def book_def split: option.split)

lemma kept_write:
  assumes "tidy c" "session_mut c i = Inr s" "\<not> is_terminal_phase (hs_phase (hx_snapshot s'))"
    and "hs_pending_approval (hx_snapshot s') = hs_pending_approval (hx_snapshot s)"
    and "hx_approved s' = hx_approved s"
  shows "kept c (snd (write_session i s' c))"
  using write_books [OF assms(1-3)] books_same [OF assms(2)] assms(4,5) by (simp add: kept_def)

lemma resume_kept: "tidy c \<Longrightarrow> kept c (snd (resume_session i n now c))"
  unfolding resume_session_def
  by (rule with_session_moved [of _ _ kept]) (auto intro!: kept_write simp: phase_simps)

lemma observing_kept:
  "tidy c \<Longrightarrow> kept c (snd (mark_observing i now c))"
  "tidy c \<Longrightarrow> kept c (snd (mark_observing_app i a now c))"
  unfolding mark_observing_def mark_observing_app_def
  by (rule with_session_moved [of _ _ kept]; auto intro!: kept_write simp: phase_simps)+

lemma start_kept: "tidy c \<Longrightarrow> kept c (snd (start_session i a now c))"
  by (auto simp: start_session_def Let_def kept_def tidy_def live_sessions_def asked_of_def given_of_def
      fun_eq_iff is_terminal_phase_def)

lemma transition_ends:
  assumes "tidy c" "is_terminal_phase p"
  shows "kept c (snd (transition_terminal i p e now c)) \<or> ended c (snd (transition_terminal i p e now c))"
proof (cases "session_mut c i")
  case (Inl err)
  then show ?thesis
    using assms(1) by (simp add: transition_terminal_def with_session_def)
next
  case (Inr s)
  note live = live_active [OF assms(1) Inr]
  let ?s = "\<lparr>hx_snapshot = touch now ((hx_snapshot s)\<lparr>hs_pending_approval := None, hs_phase := p,
    hs_error_code := e\<rparr>), hx_approved = None\<rparr>"
  let ?c = "c\<lparr>co_sessions := (co_sessions c)(i \<mapsto> ?s), co_active := None\<rparr>"
  have "snd (transition_terminal i p e now c) = ?c"
    using Inr live by (simp add: transition_terminal_def with_session_def write_session_def)
  moreover have "live_sessions c = {i}"
    using assms(1) live by (simp add: tidy_def)
  then have "live_sessions ?c = {}"
    using assms(2) by (auto simp: live_sessions_def touch_def set_eq_iff split: if_splits)
  then have "ended c ?c"
    using assms live
    by (auto simp: ended_def tidy_def asked_of_def given_of_def fun_eq_iff touch_def)
  ultimately show ?thesis by simp
qed

lemma terminal_ops_end:
  assumes "tidy c"
  shows "kept c (snd (cancel_session i now c)) \<or> ended c (snd (cancel_session i now c))"
    and "kept c (snd (done_session i now c)) \<or> ended c (snd (done_session i now c))"
    and "kept c (snd (fail_session i e now c)) \<or> ended c (snd (fail_session i e now c))"
    and "kept c (snd (cancel_active now c)) \<or> ended c (snd (cancel_active now c))"
    and "kept c (finish_worker_session i ok now c) \<or> ended c (finish_worker_session i ok now c)"
proof -
  note t = transition_ends [OF assms]
  show "kept c (snd (cancel_session i now c)) \<or> ended c (snd (cancel_session i now c))"
    and d: "kept c (snd (done_session i now c)) \<or> ended c (snd (done_session i now c))"
    and f: "kept c (snd (fail_session i e now c)) \<or> ended c (snd (fail_session i e now c))" for e
    unfolding cancel_session_def done_session_def fail_session_def
    by (rule t; simp add: is_terminal_phase_def)+
  show "kept c (snd (cancel_active now c)) \<or> ended c (snd (cancel_active now c))"
    using assms t [of PhCancelled] by (auto simp: cancel_active_snd is_terminal_phase_def split: option.split)
  show "kept c (finish_worker_session i ok now c) \<or> ended c (finish_worker_session i ok now c)"
    using assms d f by (auto simp: finish_worker_session_def split: sum.split)
qed

lemma deny_ends:
  assumes "tidy c"
  shows "kept c (snd (deny i d now c)) \<or> ended c (snd (deny i d now c))"
proof -
  have "snd (deny i d now c) = c \<or>
      snd (deny i d now c) = snd (transition_terminal i PhFailed (Some ''approval_denied'') now c)"
    by (auto simp: deny_def with_session_def split: sum.split option.split)
  then show ?thesis
    using transition_ends [OF assms, of PhFailed i "Some ''approval_denied''" now] assms
    by (auto simp: is_terminal_phase_def)
qed

text \<open>The operations that are events of the ledger.\<close>

lemma pause_ledger:
  assumes "tidy c"
  shows "tidy (snd (pause_session i now c)) \<and> co_active (snd (pause_session i now c)) = co_active c \<and>
    ledger_step (book c hand) (Withdrawn i) = Inr (book (snd (pause_session i now c)) hand)"
proof (cases "session_mut c i")
  case (Inl err)
  then show ?thesis
    using assms dead_books [OF assms Inl]
    by (simp add: pause_session_def with_session_def book_def fun_upd_idem)
next
  case (Inr s)
  then show ?thesis
    using write_books [OF assms Inr, of "\<lparr>hx_snapshot = touch now ((hx_snapshot s)\<lparr>hs_pending_approval := None,
        hs_phase := PhPausedByUser, hs_generation := Suc (hs_generation (hx_snapshot s))\<rparr>), hx_approved = None\<rparr>"]
    by (simp add: pause_session_def with_session_def book_def phase_simps)
qed

lemma request_ledger:
  assumes "tidy c" "fst (request_approval i d k m now c) = Inr r"
  shows "tidy (snd (request_approval i d k m now c)) \<and>
    co_active (snd (request_approval i d k m now c)) = co_active c \<and>
    ledger_step (book c hand) (Asked i d now) = Inr (book (snd (request_approval i d k m now c)) hand)"
proof (cases "session_mut c i")
  case (Inl err)
  then show ?thesis
    using assms(2) by (simp add: request_approval_def with_session_def)
next
  case (Inr s)
  then show ?thesis
    using write_books [OF assms(1) Inr, of "\<lparr>hx_snapshot = touch now ((hx_snapshot s)\<lparr>hs_phase := PhAwaitingApproval,
         hs_pending_approval := Some \<lparr>pa_category = k, pa_summary = m,
           pa_action_digest = d, pa_expires_at = now + APPROVAL_TTL_MS\<rparr>\<rparr>), hx_approved = None\<rparr>"]
    by (simp add: request_approval_def with_session_def book_def phase_simps APPROVAL_TTL_MS_def)
qed

lemma approve_ledger:
  assumes "tidy c"
  shows "tidy (snd (approve i d now c)) \<and> co_active (snd (approve i d now c)) = co_active c \<and>
    ledger_step (book c hand) (Given i d now) = Inr (book (snd (approve i d now c)) hand)"
proof (cases "session_mut c i")
  case (Inl err)
  then show ?thesis
    using assms dead_books [OF assms Inl] by (simp add: approve_def with_session_def book_def)
next
  case (Inr s)
  note same = books_same [OF Inr]
  show ?thesis
  proof (cases "hs_pending_approval (hx_snapshot s)")
    case None
    with same(1) Inr assms show ?thesis
      by (simp add: approve_def with_session_def book_def)
  next
    case (Some p)
    with same(1) have "asked_of c i = Some (pa_action_digest p, pa_expires_at p)"
      by simp
    with Some Inr assms show ?thesis
      using write_books [OF assms Inr, of "\<lparr>hx_snapshot = touch now ((hx_snapshot s)\<lparr>hs_pending_approval := None,
             hs_phase := PhObserving\<rparr>),
           hx_approved = Some \<lparr>ax_action_digest = d, ax_expires_at = pa_expires_at p\<rparr>\<rparr>"]
      by (auto simp: approve_def with_session_def book_def phase_simps)
  qed
qed

lemma consume_ledger:
  assumes "tidy c" "consume_approval i d now c = (Inr True, c')"
  shows "tidy c' \<and> co_active c' = co_active c \<and>
    ledger_step (book c hand) (Spent i d now) = Inr (book c' (Some (i, d)))"
proof (cases "session_mut c i")
  case (Inl err)
  then show ?thesis
    using assms(2) by (simp add: consume_approval_def with_session_def)
next
  case (Inr s)
  note same = books_same [OF Inr]
  obtain g where g: "hx_approved s = Some g" "ax_action_digest g = d" "now \<le> ax_expires_at g"
    and c': "c' = snd (write_session i \<lparr>hx_snapshot = touch now ((hx_snapshot s)\<lparr>hs_phase := PhActing\<rparr>),
           hx_approved = None\<rparr> c)"
    using assms(2) Inr by (auto simp: consume_approval_def with_session_def split: option.splits if_splits)
  have "given_of c i = Some (d, ax_expires_at g)"
    using same(2) g by simp
  with g(3) show ?thesis
    unfolding c'
    using write_books [OF assms(1) Inr, of "\<lparr>hx_snapshot = touch now ((hx_snapshot s)\<lparr>hs_phase := PhActing\<rparr>),
           hx_approved = None\<rparr>"] same(1)
    by (auto simp: book_def phase_simps)
qed

section \<open>Every run is a run of the ledger\<close>

definition ledger_matches :: "host_env \<Rightarrow> worker_pc \<Rightarrow> (string \<times> string) option \<Rightarrow> bool" where
  "ledger_matches env pc hand \<longleftrightarrow> (\<forall>i d. 0 < worker_held env pc i d \<longrightarrow> hand = Some (i, d))"

lemma no_acted [simp]: "hy_executed h' = hy_executed h \<Longrightarrow> acted_events h h' = []"
  by (simp add: acted_events_def)

lemma await_ledger:
  assumes "tidy (hy_coordinator h)" "await_round i d now h = (r, h')"
  shows "hy_executed h' = hy_executed h \<and>
    (if r = Some (Inr ())
     then \<exists>c'. consume_approval i d now (hy_coordinator h) = (Inr True, c') \<and> hy_coordinator h' = c'
     else kept (hy_coordinator h) (hy_coordinator h') \<or> ended (hy_coordinator h) (hy_coordinator h'))"
proof (cases rule: consume_cases [of i d now "hy_coordinator h"])
  case (1 c')
  with assms show ?thesis
    by (auto simp: await_round_def on_coordinator_eq split: sum.splits if_splits)
next
  case (2 rr)
  then have "rr = Inr False \<or> (\<exists>m. rr = Inl m)"
    by (cases rr) auto
  with 2 assms terminal_ops_end(3) [OF assms(1), where i = i and e = "''approval_expired''" and now = now]
  show ?thesis
    by (auto simp: await_round_def on_coordinator_eq split: sum.splits if_splits option.splits)
qed

text \<open>The end of a step: an idle worker has put down what it held, and a session may have ended.\<close>

definition tail_events :: "worker_pc \<Rightarrow> coordinator \<Rightarrow> coordinator \<Rightarrow> approval_event list" where
  "tail_events pc' c c' = (if worker_idle pc' then [PutDown] else []) @ end_events c c'"

lemma matches_idle [simp]: "ledger_matches env (PcIdle r) hand"
  by (simp add: ledger_matches_def)

lemma matches_free: "worker_held env pc' = (\<lambda>i d. 0) \<Longrightarrow> ledger_matches env pc' hand"
  by (simp add: ledger_matches_def)

lemma tail_ledger:
  assumes "kept c c' \<or> ended c c'" "ledger_matches env pc' hand"
  shows "tidy c' \<and> (\<exists>hand'. ledger_matches env pc' hand' \<and>
    run_steps ledger_step (book c hand) (tail_events pc' c c') = Inr (book c' hand'))"
proof -
  have "run_steps ledger_step (book c hand) (tail_events pc' c c') =
      Inr (book c' (if worker_idle pc' then None else hand))"
    using end_ledger [OF assms(1)] by (simp add: tail_events_def run_steps_append book_def)
  moreover have "ledger_matches env pc' (if worker_idle pc' then None else hand)"
    using assms(2) by (cases pc') (simp_all add: worker_idle_def)
  ultimately show ?thesis
    using end_ledger [OF assms(1)] by blast
qed

lemma tail_same: "co_active c' = co_active c \<Longrightarrow> \<not> worker_idle pc' \<Longrightarrow> tail_events pc' c c' = []"
  by (simp add: tail_events_def end_events_def split: option.split)

lemma worker_step_events:
  "step_events env (now, OpWorker) (pc, h) (pc', h') =
    worker_events env now pc pc' @ acted_events h h' @ tail_events pc' (hy_coordinator h) (hy_coordinator h')"
  by (simp add: step_events_def tail_events_def)

definition ledger_goal :: "host_env \<Rightarrow> int \<Rightarrow> (string \<times> string) option \<Rightarrow> worker_pc \<times> host_system \<Rightarrow> worker_pc \<times> host_system \<Rightarrow> bool" where
  "ledger_goal env now hand wh wh' \<longleftrightarrow> tidy (hy_coordinator (snd wh')) \<and>
    (\<exists>hand'. ledger_matches env (fst wh') hand' \<and>
      run_steps ledger_step (book (hy_coordinator (snd wh)) hand) (step_events env (now, OpWorker) wh wh') =
        Inr (book (hy_coordinator (snd wh')) hand'))"

text \<open>The kinds of step of the worker.\<close>

lemma goal_quiet:
  assumes "worker_events env now pc pc' = []" "hy_executed h' = hy_executed h" "ledger_matches env pc' hand"
    and "kept (hy_coordinator h) (hy_coordinator h') \<or> ended (hy_coordinator h) (hy_coordinator h')"
  shows "ledger_goal env now hand (pc, h) (pc', h')"
  using assms tail_ledger [OF assms(4,3)] by (simp add: ledger_goal_def worker_step_events)

lemma goal_spent:
  assumes "worker_events env now pc pc' = [Spent i d now]" "hy_executed h' = hy_executed h"
    and "tidy (hy_coordinator h)" "consume_approval i d now (hy_coordinator h) = (Inr True, hy_coordinator h')"
    and "\<not> worker_idle pc'" "\<And>j b. 0 < worker_held env pc' j b \<Longrightarrow> j = i \<and> b = d"
  shows "ledger_goal env now hand (pc, h) (pc', h')"
proof -
  note c = consume_ledger [OF assms(3,4), of hand]
  have "ledger_matches env pc' (Some (i, d))"
    using assms(6) by (auto simp: ledger_matches_def)
  with c assms(1,2,5) show ?thesis
    by (auto simp: ledger_goal_def worker_step_events tail_same)
qed

lemma worker_ledger:
  assumes "tidy (hy_coordinator h)" "ledger_matches env pc hand"
  shows "ledger_goal env now hand (pc, h) (worker_step env now (pc, h))"
proof (cases pc)
  case (PcConsume i q g l)
  show ?thesis
  proof (cases "find (\<lambda>e. he_index e = ar_index q) (as_elements (sd_snapshot g))")
    case None
    with PcConsume assms(1) show ?thesis
      by (auto simp: worker_step_def worker_events_def intro!: goal_quiet)
  next
    case (Some e)
    show ?thesis
    proof (cases rule: consume_cases [of i "request_digest env i (sd_app g) q" now "hy_coordinator h"])
      case (1 c')
      with PcConsume Some assms(1) show ?thesis
        by (auto simp: worker_step_def on_coordinator_eq worker_events_def worker_idle_def worker_held_def
            intro!: goal_spent split: if_splits)
    next
      case (2 r)
      with PcConsume Some assms(1) show ?thesis
        by (cases r) (auto simp: worker_step_def on_coordinator_eq worker_events_def intro!: goal_quiet matches_free)
    qed
  qed
next
  case (PcDecide i q g l e a)
  let ?q = "\<lparr>pq_category = request_category g q, pq_protected_target = he_sensitive e,
    pq_low_risk_typing_enabled = False, pq_approval_matches = a\<rparr>"
  show ?thesis
  proof (cases "decide_action l ?q")
    case HostAllowed
    then have "ledger_matches env (PcExecute i q g e) hand"
      using assms(2) PcDecide by (auto simp: ledger_matches_def worker_held_def decide_allowed)
    with HostAllowed PcDecide assms(1) show ?thesis
      by (auto simp: worker_step_def worker_events_def intro!: goal_quiet)
  next
    case (ApprovalRequired k)
    let ?f = "request_approval i (request_digest env i (sd_app g) q) k
      (en_summary env k (sd_display_name g) e) now"
    show ?thesis
    proof (cases "fst (?f (hy_coordinator h))")
      case (Inl err)
      then have "snd (?f (hy_coordinator h)) = hy_coordinator h"
        by (auto simp: request_approval_def with_session_def write_session_def split: sum.splits)
      with Inl ApprovalRequired PcDecide assms(1) show ?thesis
        by (auto simp: worker_step_def on_coordinator_eq worker_events_def intro!: goal_quiet)
    next
      case (Inr r)
      with request_ledger [OF assms(1) Inr, of hand] ApprovalRequired PcDecide show ?thesis
        by (auto simp: worker_step_def on_coordinator_eq ledger_goal_def worker_step_events worker_events_def
            tail_same worker_idle_def intro!: matches_free)
    qed
  qed (use PcDecide assms(1) in \<open>auto simp: worker_step_def worker_events_def intro!: goal_quiet\<close>)
next
  case (PcAwait i q g e)
  obtain r h' where r: "await_round i (request_digest env i (sd_app g) q) now h = (r, h')" by fastforce
  note a = await_ledger [OF assms(1) r]
  show ?thesis
  proof (cases "r = Some (Inr ())")
    case True
    with a r PcAwait assms(1) show ?thesis
      by (auto simp: worker_step_def worker_events_def worker_idle_def worker_held_def
          intro!: goal_spent split: if_splits)
  next
    case False
    with a r PcAwait show ?thesis
      by (auto simp: worker_step_def worker_events_def intro!: goal_quiet matches_free split: option.split sum.split)
  qed
next
  case (PcExecute i q g e)
  show ?thesis
  proof (cases "en_resume_control env now")
    case (Inl err)
    with PcExecute assms(1) show ?thesis
      by (auto simp: worker_step_def worker_events_def intro!: goal_quiet)
  next
    case (Inr token)
    let ?x = "\<lparr>ex_session = i, ex_app = sd_app g, ex_digest = request_digest env i (sd_app g) q,
                ex_category = request_category g q, ex_element = e\<rparr>"
    let ?h = "h\<lparr>hy_executed := hy_executed h @ [?x]\<rparr>"
    obtain pc' where step: "worker_step env now (pc, h) = (pc', ?h)" "ledger_matches env pc' None"
      using PcExecute Inr by (cases "en_execute env now (q\<lparr>ar_resume_token := Some token\<rparr>)")
        (auto simp: worker_step_def Let_def matches_free)
    have none: "worker_events env now pc pc' = []"
      using PcExecute by (simp add: worker_events_def)
    have "run_steps ledger_step (book (hy_coordinator h) hand) (acted_events h ?h) =
        Inr (book (hy_coordinator h) (if approval_required False (request_category g q) then None else hand))"
      using assms(2) PcExecute
      by (auto simp: acted_events_def ledger_matches_def worker_held_def book_def split: if_splits)
    moreover have "ledger_matches env pc' (if approval_required False (request_category g q) then None else hand)"
      using step(2) by (auto simp: ledger_matches_def)
    then have "tidy (hy_coordinator h) \<and> (\<exists>hand'. ledger_matches env pc' hand' \<and>
        run_steps ledger_step (book (hy_coordinator h)
          (if approval_required False (request_category g q) then None else hand))
          (tail_events pc' (hy_coordinator h) (hy_coordinator h)) = Inr (book (hy_coordinator h) hand'))"
      using assms(1) by (intro tail_ledger) simp_all
    ultimately show ?thesis
      unfolding step(1) by (simp add: ledger_goal_def worker_step_events none run_steps_append)
  qed
qed (use assms(1) in \<open>auto simp: worker_step_def worker_events_def on_coordinator_eq observing_kept observe_step_def
    split: option.split sum.split intro!: goal_quiet matches_free\<close>)

text \<open>Any operation. Only an approval and a pause are events of their own.\<close>

lemma host_step_ledger:
  assumes "tidy (hy_coordinator h)" "ledger_matches env pc hand"
    and "host_do env (now, oper) (pc, h) = (pc', h')"
  shows "tidy (hy_coordinator h') \<and> (\<exists>hand'. ledger_matches env pc' hand' \<and>
    run_steps ledger_step (book (hy_coordinator h) hand)
      (step_events env (now, oper) (pc, h) (pc', h')) = Inr (book (hy_coordinator h') hand'))"
proof -
  let ?c = "hy_coordinator h" and ?c' = "hy_coordinator h'"
  have quiet: ?thesis
    if "step_events env (now, oper) (pc, h) (pc', h') = tail_events pc' ?c ?c'"
      "kept ?c ?c' \<or> ended ?c ?c'" "ledger_matches env pc' hand"
    using tail_ledger [OF that(2,3)] that(1) by simp
  have event: ?thesis
    if "step_events env (now, oper) (pc, h) (pc', h') = ev # tail_events pc' ?c ?c'"
      "tidy ?c'" "co_active ?c' = co_active ?c" "ledger_step (book ?c hand) ev = Inr (book ?c' hand)"
      "ledger_matches env pc' hand" for ev
  proof -
    have "tail_events pc' ?c ?c' = tail_events pc' ?c' ?c'"
      using that(3) by (simp add: tail_events_def end_events_def split: option.split)
    with tail_ledger [of ?c' ?c' env pc' hand] that show ?thesis
      by simp
  qed
  have evs: "step_events env (now, oper) (pc, h) (pc', h') = tail_events pc' ?c ?c'"
    if "hy_executed h' = hy_executed h" "oper \<noteq> OpWorker" "\<nexists>i d. oper = OpApprove i d" "\<nexists>i. oper = OpPause i"
    using that by (cases oper) (simp_all add: step_events_def tail_events_def)
  note ends = terminal_ops_end [OF assms(1)] deny_ends [OF assms(1)]
  show ?thesis
  proof (cases oper)
    case OpWorker
    with worker_ledger [OF assms(1,2), of now] assms(3) show ?thesis
      by (simp add: ledger_goal_def)
  next
    case (OpApprove i d)
    with assms(3) have "pc' = pc" "?c' = snd (approve i d now ?c)" "hy_executed h' = hy_executed h"
      by (auto simp: approve_session_def on_coordinator_eq split: sum.splits)
    with OpApprove approve_ledger [OF assms(1), of i d now hand] assms(2) show ?thesis
      by (intro event [of "Given i d now"]) (simp_all add: step_events_def tail_events_def)
  next
    case (OpPause i)
    with assms(3) have "pc' = pc" "?c' = snd (pause_session i now ?c)" "hy_executed h' = hy_executed h"
      by (auto simp: on_coordinator_eq)
    with OpPause pause_ledger [OF assms(1), of i now hand] assms(2) show ?thesis
      by (intro event [of "Withdrawn i"]) (simp_all add: step_events_def tail_events_def)
  next
    case (OpAct i q)
    with assms show ?thesis
      by (intro quiet evs) (auto simp: call_worker_def intro: matches_free split: sum.splits if_splits)
  next
    case (OpLook i pid)
    with assms show ?thesis
      by (intro quiet evs) (auto simp: call_worker_def intro: matches_free split: sum.splits if_splits)
  next
    case (OpCreateGrant g)
    with assms show ?thesis
      by (intro quiet evs) (auto simp: create_grant_def split: sum.splits if_splits)
  next
    case (OpRevokeGrant i)
    with assms ends(4) [of now] show ?thesis
      by (intro quiet evs) (auto simp: revoke_app_grant_def on_coordinator_eq split: prod.splits if_splits)
  next
    case (OpStart i a)
    with assms start_kept [OF assms(1)] show ?thesis
      by (intro quiet evs) (auto simp: on_coordinator_eq)
  next
    case (OpResume i n)
    with assms resume_kept [OF assms(1)] show ?thesis
      by (intro quiet evs) (auto simp: on_coordinator_eq)
  next
    case (OpDeny i d)
    with assms ends(6) [of i d now] show ?thesis
      by (intro quiet evs) (auto simp: on_coordinator_eq)
  next
    case (OpCancel i)
    with assms ends(1) [of i now] show ?thesis
      by (intro quiet evs) (auto simp: on_coordinator_eq)
  next
    case (OpFinish i ok)
    with assms ends(5) [where i = i and ok = ok and now = now] show ?thesis
      by (intro quiet evs) auto
  qed
qed

lemma new_host_books: "tidy (hy_coordinator new_host)" "book (hy_coordinator new_host) None = new_ledger"
  by (simp_all add: new_host_def new_coordinator_def tidy_def live_sessions_def book_def new_ledger_def
      asked_of_def given_of_def fun_eq_iff)

lemma host_run_ledger:
  "tidy (hy_coordinator (snd (host_run env ops))) \<and> (\<exists>hand. ledger_matches env (fst (host_run env ops)) hand \<and>
    run_steps ledger_step new_ledger (host_events env ops) = Inr (book (hy_coordinator (snd (host_run env ops))) hand))"
proof (induction ops rule: rev_induct)
  case Nil
  then show ?case
    using new_host_books by (auto simp: host_run_def host_events_def intro: exI [of _ None])
next
  case (snoc x ops)
  obtain now oper pc h pc' h' where x: "x = (now, oper)" "host_run env ops = (pc, h)"
    "host_do env (now, oper) (pc, h) = (pc', h')"
    by (metis surj_pair)
  then have run: "host_run env (ops @ [x]) = (pc', h')"
    by (simp add: host_run_snoc)
  obtain hand where "tidy (hy_coordinator h)" "ledger_matches env pc hand"
    "run_steps ledger_step new_ledger (host_events env ops) = Inr (book (hy_coordinator h) hand)"
    using snoc x(2) by auto
  with host_step_ledger [OF this(1,2) x(3)] run x(1,2) show ?case
    by (auto simp: host_events_snoc run_steps_append)
qed

text \<open>The actions of the ledger are those handed to the helper under an approval.\<close>

lemma host_executed_grows:
  assumes "host_do env x (pc, h) = (pc', h')"
  shows "\<exists>xs. hy_executed h' = hy_executed h @ xs"
proof -
  obtain now oper where x: "x = (now, oper)" by fastforce
  show ?thesis
  proof (cases oper)
    case OpWorker
    have "\<exists>xs. hy_executed (snd (worker_step env now (pc, h))) = hy_executed h @ xs"
    proof (cases pc)
      case (PcAwait i q g e)
      then show ?thesis
        using await_round_well [of i "request_digest env i (sd_app g) q" h now]
        by (auto simp: worker_step_def waits_well_def split: prod.split option.split sum.split)
    qed (auto simp: worker_step_def on_coordinator_eq Let_def
        split: option.split sum.split policy_decision.split)
    with OpWorker x assms show ?thesis by auto
  qed (use assms x in \<open>auto simp: call_worker_def on_coordinator_eq create_grant_def revoke_app_grant_def
    approve_session_def split: sum.splits prod.splits if_splits\<close>)
qed

lemma acted_events_count:
  "hy_executed h' = hy_executed h @ xs \<Longrightarrow>
     executed_with i d h' = executed_with i d h + count_list (acted_events h h') (Acted i d)"
proof -
  assume grown: "hy_executed h' = hy_executed h @ xs"
  have "count_list (List.map (\<lambda>x. Acted (ex_session x) (ex_digest x))
      (filter (\<lambda>x. approval_required False (ex_category x)) ys)) (Acted i d) =
    length (filter (\<lambda>x. approval_required False (ex_category x) \<and> ex_session x = i \<and> ex_digest x = d) ys)"
    for ys :: "executed_action list"
    by (induction ys) auto
  with grown show ?thesis
    by (simp add: executed_with_def acted_events_def)
qed

lemma other_events_count:
  "count_list (worker_events env now pc pc') (Acted i d) = 0"
  "count_list (end_events c c') (Acted i d) = 0"
  by (auto simp: worker_events_def end_events_def split: worker_pc.split option.split)

lemma step_events_count:
  assumes "host_do env x (pc, h) = (pc', h')"
  shows "count_list (step_events env x (pc, h) (pc', h')) (Acted i d) + executed_with i d h = executed_with i d h'"
proof -
  obtain xs where "hy_executed h' = hy_executed h @ xs"
    using host_executed_grows [OF assms] by blast
  moreover have "count_list (step_events env x (pc, h) (pc', h')) (Acted i d) =
      count_list (acted_events h h') (Acted i d)"
    by (auto simp: step_events_def other_events_count split: prod.split host_op.split)
  ultimately show ?thesis
    using acted_events_count by simp
qed

lemma host_events_count:
  "count_list (host_events env ops) (Acted i d) = executed_with i d (snd (host_run env ops))"
proof (induction ops rule: rev_induct)
  case Nil
  show ?case
    by (simp add: host_events_def host_run_def executed_with_def new_host_def)
next
  case (snoc x ops)
  obtain pc h pc' h' where "host_run env ops = (pc, h)" "host_do env x (pc, h) = (pc', h')"
    by (metis surj_pair)
  with snoc step_events_count [of env x pc h pc' h' i d] show ?case
    by (simp add: host_events_snoc host_run_snoc)
qed

text \<open>
  C26: Whatever the user and the worker do in whatever order, the host keeps the ledger of approvals:
  every run of it is accepted by the ledger, so an approval is given only to what is being asked for
  and in its five minutes, it is spent once, in that time, on exactly the action and session it was
  given for, and each action that needs one is handed to the helper with an approval that was spent
  on it; and what the coordinator holds is what the ledger holds, where a pause, a new request and the
  end of the session have withdrawn what was asked and given before. So the actions that need an
  approval are no more than the approvals the user gave.
\<close>

theorem executed_actions_were_approved:
  "\<exists>L. run_steps ledger_step new_ledger (host_events env ops) = Inr L \<and>
    lg_asked L = asked_of (hy_coordinator (snd (host_run env ops))) \<and>
    lg_given L = given_of (hy_coordinator (snd (host_run env ops))) \<and>
    count_list (host_events env ops) (Acted i d) = executed_with i d (snd (host_run env ops)) \<and>
    executed_with i d (snd (host_run env ops)) \<le> count_list (hy_approvals (snd (host_run env ops))) (i, d)"
  using host_run_ledger [of env ops]
  by (auto simp: book_def host_events_count executed_at_most_approved)

end
