(* ===== verification/Spec2Isabelle.thy ===== *)
theory Spec2Isabelle
  imports TurnReducer Compensation TaskRounds ObjectiveTheorems WorkflowTheorems CapabilityTheorems ProcessTheorems HostLedger
begin

text \<open>
  A model of the durable core of homunbot: the execution protocol (crates/execution-protocol) and
  the task runtime (crates/task-runtime) with its chat side, which decide what an assistant's work
  is, who may do it, and what is known about it after a crash; and of the crates around it that
  guard what the work may do: subagents, capabilities, context compression, the process manager and
  the control of applications of the host.

  \<^bold>\<open>The program.\<close> Work is an \<^emph>\<open>execution\<close>: a contract with revisions, attempts under a fencing
  token, and one outcome per revision. Its truth is an append-only journal in SQLite that is
  folded and validated at every read; a projection row caches the fold. A suspended revision
  registers one wake (a time, a signal, a user's answer, the resolution of an effect); delivering
  it starts the next revision in the same transaction. External effects go through receipts that
  are claimed once. Committed outcomes are handed to a projector by an outbox of claimed rows.
  Beside it lives the older task table with its scheduler, leases, resource limits, retries,
  approvals and recurrence; the facade \<open>TaskRuntime\<close> and the dispatcher of the desktop gateway run
  tasks from it, and a wake puts the task of the same id back into the queue. A chat turn is a task
  of a thread with a stream of events; what the user sends while it runs is steering of it.

  Subagents call a model for one task each, in the order of a workflow; capabilities decide which
  tools may be called, and audit the calls; what goes into a prompt is compressed and redacted. The
  process manager starts, restarts and stops helper processes; the host computer acts on the user's
  applications under grants and approvals.

  \<^bold>\<open>Theories and sources.\<close>
  \<^item> Prelude: results, byte strings, numbers, words, JSON values shared by all; Text: the string
    functions of the Rust library.
  \<^item> Protocol (execution-protocol/src/lib.rs): contracts, outcomes, wake conditions, checked
    references and their validation.
  \<^item> TaskTypes (types.rs, turn_lifecycle.rs, execution_projection.rs): statuses and their tokens,
    task records, what a wake or an outcome shows as a task status.
  \<^item> TurnReducer (turn_reducer.rs): the reduction of the events of a chat turn to its status, and
    of the kernel's view of a turn.
  \<^item> Journal (execution_store.rs): the typed events and \<open>fold_journal\<close>, one function per event.
  \<^item> Database (execution_store.rs, the schema of store.rs): tables, appending, loading, projections.
  \<^item> Outbox (projection_outbox.rs), Receipts (store.rs): claims of projections and of effects.
  \<^item> ExecutionStore (execution_store.rs): every operation on executions, wakes and resolutions.
  \<^item> StoreInvariant, StoreSamples, StoreTheorems, WakeDelivery, WakeTheorems, WakeProgress,
    EffectTheorems, Compensation: what the execution store promises.
  \<^item> TaskStore (store.rs): tasks, dependencies, reservations, checkpoints, approvals.
  \<^item> Scheduler (scheduler.rs, lease.rs, resources.rs, checkpoint.rs, approval.rs), Recurrence
    (recurrence.rs), TaskRuntime (facade.rs, executor.rs, and gateway_task_executor.rs of the
    gateway): the operations on the task table.
  \<^item> TaskTheorems, TaskLimits, TaskRounds: what the task runtime promises.
  \<^item> ChatStore, Steering, Objectives (store.rs) and Broker (broker.rs): the streams of turns,
    steering, the objective and the plan of a thread, admission, recovery and cancellation.
  \<^item> ChatTurns, ChatSystem, TurnStream, TurnEndings, SteeringTheorems, ObjectiveTheorems: what the
    chat side promises; \<open>chat_command\<close> in ChatSystem lists the requests its runs are made of.
  \<^item> Subagents, Workflows (crates/subagents), WorkflowTheorems.
  \<^item> Capabilities (crates/capabilities), CapabilityTheorems.
  \<^item> Compression (crates/context-compression), with its theorems.
  \<^item> Processes, Supervisor, ProcessManager (crates/process-manager), SupervisorTheorems,
    ProcessTheorems: a supervisor is a locale with the local and the fake one as interpretations.
  \<^item> HostComputer (crates/host-computer), HostGateway (host_computer_gateway.rs of the gateway),
    HostTheorems, HostSafety; HostLedger: the host keeps an abstract ledger of approvals.

  \<^bold>\<open>How the code is read.\<close> A Rust struct is a record with prefixed fields, an enum a datatype,
  \<open>u64\<close> and \<open>u32\<close> are words, a \<open>String\<close> the list of its bytes, \<open>Result\<close> a sum with the error on the
  left. A table is the list of its rows in insertion order, \<open>INSERT ... ON CONFLICT\<close> is \<open>upsert\<close> over
  the primary key, a JSON column holds the decoded value. An operation of the execution store is
  one SQL transaction: it returns an error, or the new database with its result. The operations of
  the task table commit each statement: they are computations \<open>'a rt\<close> that return the database they
  leave also when they fail. Moments are integers: nanoseconds in task records, seconds in rows.
  A component that others run beside (a monitor, the worker of the host) is a program counter, and
  a run interleaves its steps with theirs.

  \<^bold>\<open>Parameters.\<close> The clock and the random identifiers (\<open>runtime_env\<close>, or an argument \<open>now\<close>), the
  executor of a step, and the calendar of the jiff package (\<open>jiff\<close>, with the documented facts
  \<open>jiff_ok\<close> as a hypothesis that concrete calendars satisfy; for daily rules also that the zone's
  clock is not set back over midnight, where the code really goes wrong); the model service and the clock of
  subagents (\<open>sub_env\<close>), the parser and printer of JSON (\<open>json_text\<close>), the providers of tools, the
  operating system under the supervisor (\<open>os_env\<close>), the lower case of Unicode (\<open>lower\<close>) and the text
  of a log entry (\<open>log_text\<close>), the discovery of processes (\<open>discovery\<close>), the helper that sees and
  moves the applications of the host (\<open>host_env\<close>).

  \<^bold>\<open>What is shown.\<close> The store is a machine of commands (\<open>store_step\<close>); by induction over any run
  every journal loads and agrees with its projection, the store refines the journal machine
  (every operation leaves the stored rows in place and appends accepted events, or none), outcomes and histories are final, lost
  fences are refused, a wake fires once and the one a parked execution waits for can be
  delivered, resolutions wake their owners, continuation is atomic, compensation happens once.
  Receipts execute once, claims of the outbox follow revisions and die when superseded. The
  reducer of turns is decided by the first terminal event and independent of storage order. Leases
  have one owner, dispatching respects the resource limits, the ready list is exact, retries are
  bounded, a filed step puts its task down and queues the next occurrence.

  A thread has one active turn, its streams have no gaps and one end, a message sent at the end of a
  turn is not lost, cancelled turns are over, steering is never overwritten unseen. Workflows run
  each task once and in order and end; the model and the tools are only called with the permissions
  they need, and the audit shows results only redacted; a compressed text keeps its budget and shows no
  secret key. A process has one child and
  restarts no more often than its policy allows. Actions on applications are executed only on what
  was granted, and every approval is spent at most once, in its time, unless a pause, a new request or
  the end of the session withdrew it.

  \<^bold>\<open>Bounds.\<close> All loops of the model are structural recursions over rows or lists, or carry a
  termination proof (the rounds of a workflow end because each leaves fewer tasks pending); there is
  no fuel. Revisions and fences are 64-bit words checked to fit the signed columns; attempts are
  32-bit words (the theorem on retries assumes that the counter does not wrap).

  \<^bold>\<open>Not modelled.\<close> The migration of databases older than the current schema. The encodings
  themselves (serde, SQL text). Dates past the year 9999 and arithmetic of \<open>Duration\<close> that would
  panic. Columns no statement of the model reads (\<open>workflow_id\<close>, \<open>priority\<close> of a task row). Threads:
  the connection is behind a lock and every operation takes it once. Of the task store: admission
  leases, automations, browser hosts, deletion and repair sweeps; the writes of the scheduler are no
  requests of the runs of the chat side. Of the subagents: the parallel rounds and the floating-point
  back-off. Of the capabilities: the search over tools and the plugins. Of the host computer: the
  helper and its transport. Of the other crates: the agent loop and the rest of the gateway, whose
  logic is the driving of models, tools, HTTP and the file system; memory, vault and inference, which
  are services around storage, cryptography and networks. The manifest lists each with its reason.
\<close>

end
